(* ===== verification/Prelude.thy ===== *)
theory Prelude
  imports Main "HOL-Library.Word"
begin

text \<open>
  Shared ground of the development: the machine-integer types of the driver, the C test
  \<open>if (x & m)\<close>, the collections the component theories fill, and a few facts on words,
  lists and cyclic indices that several components use.
\<close>

unbundle bit_operations_syntax

type_synonym u8 = "8 word"
type_synonym u16 = "16 word"
type_synonym u32 = "32 word"

named_theorems hw_consts "numeric values of the hardware constants"
named_theorems drv_ops "definitions of the non-looping driver operations"
named_theorems frame_simps "which fields an operation leaves alone"

subsection \<open>The C test \<open>if (x & m)\<close>\<close>

definition has :: "'a::len word \<Rightarrow> 'a word \<Rightarrow> bool" where
  "has x m \<longleftrightarrow> x AND m \<noteq> 0"

lemma has_mask_or: "has x (m OR n) \<longleftrightarrow> has x m \<or> has x n"
  by (simp add: has_def bit.conj_disj_distrib or_eq_0_iff)

lemma has_or: "has (x OR y) m \<longleftrightarrow> has x m \<or> has y m"
  by (simp add: has_def bit.conj_disj_distrib2 or_eq_0_iff)

lemma has_0 [simp]: "\<not> has 0 m" "\<not> has x 0"
  by (simp_all add: has_def)

lemma has_andnot_disjoint: "k AND m = 0 \<Longrightarrow> has (x AND NOT k) m \<longleftrightarrow> has x m"
proof -
  assume k: "k AND m = 0"
  have "NOT k AND m = m"
  proof (rule bit_word_eqI)
    fix n assume n: "n < LENGTH('a)"
    from k have "\<not> (bit k n \<and> bit m n)"
      by (metis bit_0_eq bit_and_iff bot_apply bot_bool_def)
    with n show "bit (NOT k AND m) n = bit m n" by (auto simp: bit_simps)
  qed
  then show ?thesis by (simp add: has_def and.assoc)
qed

lemma has_andnot_self [simp]: "\<not> has (x AND NOT k) k"
  by (simp add: has_def and.assoc)

subsection \<open>Folds\<close>

text \<open>A view of the state that no step of a fold changes.\<close>

lemma fold_keeps: "(\<And>x s. f (g x s) = f s) \<Longrightarrow> f (fold g xs s) = f s"
  by (induction xs arbitrary: s) simp_all

subsection \<open>Cyclic indices\<close>

lemma mod_Suc_cases: "(i::nat) < n \<Longrightarrow> (Suc i) mod n = (if Suc i = n then 0 else Suc i)"
  by (simp add: mod_Suc)

lemma cyc_inj:
  fixes i j k :: nat
  assumes "(i + j) mod n = (i + k) mod n" "j < n" "k < n"
  shows "j = k"
proof -
  have *: "b = c" if "(i + b) mod n = (i + c) mod n" "b < n" "c < n" "b \<le> c" for b c
  proof -
    from that have "n dvd (i + c) - (i + b)"
      by (metis add_left_mono mod_eq_dvd_iff_nat)
    moreover have "c - b < n" using that by simp
    ultimately show "b = c"
      using that(4) dvd_imp_le[of n "c - b"] by (cases "b = c") auto
  qed
  show ?thesis using *[of j k] *[of k j] assms by (metis nat_le_linear)
qed

lemma cyc_onto:
  fixes i j :: nat
  assumes "j < n"
  shows "\<exists>k. 1 \<le> k \<and> k \<le> n \<and> (i + k) mod n = j"
proof -
  let ?k = "(j + n - i mod n) mod n"
  have n: "0 < n" using assms by simp
  have a: "i mod n \<le> j + n" using n by (meson le_add2 le_trans mod_le_divisor)
  have "(i + ?k) mod n = (i mod n + (j + n - i mod n)) mod n"
    by (metis mod_add_eq mod_mod_trivial)
  also have "\<dots> = j" using a assms by simp
  finally have e: "(i + ?k) mod n = j" .
  show ?thesis
  proof (cases "?k = 0")
    case True
    with e have "(i + n) mod n = j" by simp
    then show ?thesis using n by (intro exI[of _ n]) simp
  next
    case False
    then show ?thesis using e n
      by (intro exI[of _ ?k]) (simp add: less_imp_le)
  qed
qed

end
