(* ===== verification/Hw.thy ===== *)
theory Hw
  imports Prelude
begin

text \<open>
  The hardware vocabulary of the driver, from \<^verbatim>\<open>PCNet_HW.h\<close>, \<^verbatim>\<open>PCNet_Var.h\<close> and
  \<^verbatim>\<open>PCNet_lnc.h\<close>: port offsets, register numbers and bits, the message descriptor and the
  initialization block, and the media indices. The constants are collected in \<open>hw_consts\<close>,
  so that a proof computes with them only where it asks to.
\<close>

unbundle bit_operations_syntax

subsection \<open>Ethernet and ring geometry\<close>

definition ETHER_ADDR_LEN :: nat where [hw_consts]: "ETHER_ADDR_LEN = 6"
definition ETHER_CRC_LEN :: nat where [hw_consts]: "ETHER_CRC_LEN = 4"
definition ETHER_MIN_LEN :: nat where [hw_consts]: "ETHER_MIN_LEN = 64"
definition ETHER_MAX_LEN :: nat where [hw_consts]: "ETHER_MAX_LEN = 1544"
definition MULTICAST_FILTER_LEN :: nat where [hw_consts]: "MULTICAST_FILTER_LEN = 8"

subsection \<open>Port offsets from the base I/O address\<close>

definition PCN_IO32_APROM00 :: u16 where [hw_consts]: "PCN_IO32_APROM00 = 0"
definition PCN_IO32_APROM01 :: u16 where [hw_consts]: "PCN_IO32_APROM01 = 0x4"
definition PCNET32_WIO_RDP :: u16 where [hw_consts]: "PCNET32_WIO_RDP = 0x10"
definition PCNET32_WIO_RAP :: u16 where [hw_consts]: "PCNET32_WIO_RAP = 0x12"
definition PCNET32_WIO_RESET :: u16 where [hw_consts]: "PCNET32_WIO_RESET = 0x14"
definition PCNET32_WIO_BDP :: u16 where [hw_consts]: "PCNET32_WIO_BDP = 0x16"
definition PCNET32_DWIO_RDP :: u16 where [hw_consts]: "PCNET32_DWIO_RDP = 0x10"
definition PCNET32_DWIO_RAP :: u16 where [hw_consts]: "PCNET32_DWIO_RAP = 0x14"
definition PCNET32_DWIO_RESET :: u16 where [hw_consts]: "PCNET32_DWIO_RESET = 0x18"
definition PCNET32_DWIO_BDP :: u16 where [hw_consts]: "PCNET32_DWIO_BDP = 0x1C"

subsection \<open>Register numbers\<close>

definition CSR :: u16 where [hw_consts]: "CSR = 0"
definition INIT_BLOCK_ADDRESS_LOW :: u16 where [hw_consts]: "INIT_BLOCK_ADDRESS_LOW = 1"
definition INIT_BLOCK_ADDRESS_HIGH :: u16 where [hw_consts]: "INIT_BLOCK_ADDRESS_HIGH = 2"
definition FEATURE_CONTROL :: u16 where [hw_consts]: "FEATURE_CONTROL = 4"
definition LNKST :: u16 where [hw_consts]: "LNKST = 4"
definition FDCTL :: u16 where [hw_consts]: "FDCTL = 9"
definition LAF_START :: nat where [hw_consts]: "LAF_START = 8"

subsection \<open>CSR0 bits\<close>

definition CSR_ERR :: u16 where [hw_consts]: "CSR_ERR = 0x8000"
definition CSR_BABL :: u16 where [hw_consts]: "CSR_BABL = 0x4000"
definition CSR_CERR :: u16 where [hw_consts]: "CSR_CERR = 0x2000"
definition CSR_MISS :: u16 where [hw_consts]: "CSR_MISS = 0x1000"
definition CSR_MERR :: u16 where [hw_consts]: "CSR_MERR = 0x800"
definition CSR_RINT :: u16 where [hw_consts]: "CSR_RINT = 0x400"
definition CSR_TINT :: u16 where [hw_consts]: "CSR_TINT = 0x200"
definition CSR_IDON :: u16 where [hw_consts]: "CSR_IDON = 0x100"
definition CSR_INTR :: u16 where [hw_consts]: "CSR_INTR = 0x80"
definition CSR_IENA :: u16 where [hw_consts]: "CSR_IENA = 0x40"
definition CSR_TDMD :: u16 where [hw_consts]: "CSR_TDMD = 0x8"
definition CSR_STOP :: u16 where [hw_consts]: "CSR_STOP = 0x4"
definition CSR_STRT :: u16 where [hw_consts]: "CSR_STRT = 0x2"
definition CSR_INIT :: u16 where [hw_consts]: "CSR_INIT = 0x1"

subsection \<open>CSR4, mode, BCR4 and BCR9 bits\<close>

definition CSR4_APAD_XMT :: u16 where [hw_consts]: "CSR4_APAD_XMT = 0x800"
definition CSR4_MFCOM :: u16 where [hw_consts]: "CSR4_MFCOM = 0x100"
definition CSR4_RCVCCOM :: u16 where [hw_consts]: "CSR4_RCVCCOM = 0x10"
definition CSR4_TXSTRTM :: u16 where [hw_consts]: "CSR4_TXSTRTM = 0x4"
definition CSR4_JABM :: u16 where [hw_consts]: "CSR4_JABM = 0x1"
definition MODE_PROM :: u32 where [hw_consts]: "MODE_PROM = 0x8000"
definition MODE_NORMAL :: u32 where [hw_consts]: "MODE_NORMAL = 0x80"
definition LNKST_LEDOUT :: u16 where [hw_consts]: "LNKST_LEDOUT = 0x8000"
definition LNKST_FDLSE :: u16 where [hw_consts]: "LNKST_FDLSE = 0x100"
definition LNKST_LNKSTE :: u16 where [hw_consts]: "LNKST_LNKSTE = 0x40"
definition FDCTL_AUIFD :: u16 where [hw_consts]: "FDCTL_AUIFD = 0x2"
definition FDCTL_FDEN :: u16 where [hw_consts]: "FDCTL_FDEN = 0x1"

subsection \<open>Descriptor status bits\<close>

definition TMD_OWN :: u16 where [hw_consts]: "TMD_OWN = 0x8000"
definition TMD_ERR :: u16 where [hw_consts]: "TMD_ERR = 0x4000"
definition TMD_MORE :: u16 where [hw_consts]: "TMD_MORE = 0x1000"
definition TMD_ONE :: u16 where [hw_consts]: "TMD_ONE = 0x800"
definition TMD_STP :: u16 where [hw_consts]: "TMD_STP = 0x200"
definition TMD_ENP :: u16 where [hw_consts]: "TMD_ENP = 0x100"
definition TMD_TBUFF :: u16 where [hw_consts]: "TMD_TBUFF = 0x8000"
definition TMD_UFLO :: u16 where [hw_consts]: "TMD_UFLO = 0x4000"
definition TMD_LCOL :: u16 where [hw_consts]: "TMD_LCOL = 0x1000"
definition TMD_LCAR :: u16 where [hw_consts]: "TMD_LCAR = 0x800"
definition TMD_RTRY :: u16 where [hw_consts]: "TMD_RTRY = 0x400"
definition RMD_OWN :: u16 where [hw_consts]: "RMD_OWN = 0x8000"
definition RMD_ERR :: u16 where [hw_consts]: "RMD_ERR = 0x4000"
definition RMD_FRAM :: u16 where [hw_consts]: "RMD_FRAM = 0x2000"
definition RMD_OFLO :: u16 where [hw_consts]: "RMD_OFLO = 0x1000"
definition RMD_CRC :: u16 where [hw_consts]: "RMD_CRC = 0x800"
definition RMD_BUFF :: u16 where [hw_consts]: "RMD_BUFF = 0x400"
definition RMD_STP :: u16 where [hw_consts]: "RMD_STP = 0x200"
definition RMD_ENP :: u16 where [hw_consts]: "RMD_ENP = 0x100"
definition MDHEAD_LEN_MASK :: u32 where [hw_consts]: "MDHEAD_LEN_MASK = 0xFFF"
definition PCNET_MULTI_INIT_ADDR :: u8 where [hw_consts]: "PCNET_MULTI_INIT_ADDR = 0xff"

subsection \<open>Ring sizes, memory slack and driver flags\<close>

definition LNC_NTDRE :: nat where [hw_consts]: "LNC_NTDRE = 5"
definition LNC_NRDRE :: nat where [hw_consts]: "LNC_NRDRE = 5"
definition LNC_RECVBUFSIZE :: nat where [hw_consts]: "LNC_RECVBUFSIZE = ETHER_MAX_LEN"
definition LNC_TRANSBUFSIZE :: nat where [hw_consts]: "LNC_TRANSBUFSIZE = ETHER_MAX_LEN"
definition LNC_MEM_SLEW :: nat where [hw_consts]: "LNC_MEM_SLEW = 16"
definition LNC_INITIALISED :: u32 where [hw_consts]: "LNC_INITIALISED = 1"
definition LNC_IFF_BROADCAST :: u32 where [hw_consts]: "LNC_IFF_BROADCAST = 0x1"
definition LNC_IFF_DRV_RUNNING :: u32 where [hw_consts]: "LNC_IFF_DRV_RUNNING = 0x2"
definition LNC_IFF_PROMISC :: u32 where [hw_consts]: "LNC_IFF_PROMISC = 0x4"
definition LNC_IFF_ALLMULTI :: u32 where [hw_consts]: "LNC_IFF_ALLMULTI = 0x8"
definition LNC_IFF_DRV_OACTIVE :: u32 where [hw_consts]: "LNC_IFF_DRV_OACTIVE = 0x10"
definition LNC_IFF_SIMPLEX :: u32 where [hw_consts]: "LNC_IFF_SIMPLEX = 0x20"
definition LNC_IFF_MULTICAST :: u32 where [hw_consts]: "LNC_IFF_MULTICAST = 0x40"

subsection \<open>Descriptors and initialization block\<close>

text \<open>
  The union of a descriptor's last word is kept as its 32 bits: \<open>rx_msg_length\<close> is the whole
  word, \<open>tx_misc.ext_status\<close> its upper half (the second \<open>u_short\<close> on the little-endian host).
\<close>

record pcnet32_mds =
  mds_buffer :: u32
  mds_length :: u16
  mds_status :: u16
  mds_misc :: u32
  mds_reserved :: u32

definition ext_status :: "pcnet32_mds \<Rightarrow> u16" where
  "ext_status d = ucast (drop_bit 16 (mds_misc d))"

definition set_ext_status :: "u16 \<Rightarrow> pcnet32_mds \<Rightarrow> pcnet32_mds" where
  "set_ext_status v d =
     d\<lparr>mds_misc := (mds_misc d AND 0xFFFF) OR push_bit 16 (ucast v)\<rparr>"

text \<open>The 16-bit descriptor of the Lance family (\<^verbatim>\<open>if_lncreg.h\<close>), which the FreeBSD driver uses.\<close>

record lance_mds =
  md0 :: u16
  md1 :: u16
  md2 :: u16
  md3 :: u16

record pcnet32_init_block =
  ib_mode :: u16
  ib_tlen_rlen :: u16
  ib_phys_addr :: "u8 list"
  ib_ladrb :: "u8 list"
  ib_rx_ring :: u32
  ib_tx_ring :: u32

record host_ring_entry =
  hre_md :: u32
  hre_data :: u32

definition LNC_NDESC :: "nat \<Rightarrow> nat" where
  "LNC_NDESC len2 = 2 ^ len2"

text \<open>\<^verbatim>\<open>sizeof\<close> of the three structs on the 32-bit target.\<close>

definition sizeof_mds :: nat where [hw_consts]: "sizeof_mds = 16"
definition sizeof_init_block :: nat where [hw_consts]: "sizeof_init_block = 28"
definition sizeof_host_ring_entry :: nat where [hw_consts]: "sizeof_host_ring_entry = 8"

lemma ext_status_set [simp]: "ext_status (set_ext_status v d) = v"
proof (rule bit_word_eqI)
  fix n assume "n < LENGTH(16)"
  then show "bit (ext_status (set_ext_status v d)) n = bit v n"
    by (simp add: ext_status_def set_ext_status_def bit_simps)
qed

lemma set_ext_status_sel [simp]:
  "mds_status (set_ext_status v d) = mds_status d"
  "mds_length (set_ext_status v d) = mds_length d"
  "mds_buffer (set_ext_status v d) = mds_buffer d"
  by (simp_all add: set_ext_status_def)

subsection \<open>Media\<close>

definition MEDIUM_INDEX_10_HD :: u32 where [hw_consts]: "MEDIUM_INDEX_10_HD = 0"
definition MEDIUM_INDEX_10_FD :: u32 where [hw_consts]: "MEDIUM_INDEX_10_FD = 1"
definition MEDIUM_INDEX_NONE :: u32 where [hw_consts]: "MEDIUM_INDEX_NONE = MEDIUM_INDEX_10_FD + 1"
definition MEDIUM_INDEX_COUNT :: u32 where [hw_consts]: "MEDIUM_INDEX_COUNT = MEDIUM_INDEX_NONE"
definition MEDIUM_INDEX_DEFAULT :: u32 where [hw_consts]: "MEDIUM_INDEX_DEFAULT = MEDIUM_INDEX_10_FD"
definition MEDIUM_INDEX_UNDEF :: u32 where [hw_consts]: "MEDIUM_INDEX_UNDEF = 42"

end
