(* ===== verification/Driver_State.thy ===== *)
theory Driver_State
  imports Hw
begin

text \<open>
  The state of the driver object and its environment.

  The environment is everything outside the repository: the controller behind the I/O ports,
  its DMA engine, and the IOKit kernel. It is the record \<open>env\<close> of functions of the history: a
  history is the list of events so far, newest first, and an event is a port access or an
  IOKit call. A port read may return any function of the history, DMA may change the shared
  memory at every event, an IOKit call may succeed or fail. So a theorem about an arbitrary
  \<open>env\<close> is about every controller and kernel.

  The driver object is the C++ class \<^verbatim>\<open>PCNET\<close> of \<^verbatim>\<open>PCNet.h\<close>: its member \<^verbatim>\<open>sc\<close> is the record
  \<open>lnc_softc\<close> (\<^verbatim>\<open>PCNet_lnc.h\<close>), which the class record extends. Descriptors live in an
  address-indexed store, as the ring entries hold pointers to them.
\<close>

unbundle bit_operations_syntax

subsection \<open>Network media and events\<close>

datatype medium_type = IOMediumEthernet10BaseT_HalfDuplex | IOMediumEthernet10BaseT_FullDuplex

record medium =
  md_type :: medium_type
  md_bps :: nat
  md_index :: u32

datatype io_return = kIOReturnSuccess | kIOReturnIOError | kIOReturnUnsupported

datatype output_return = kIOReturnOutputSuccess | kIOReturnOutputStall

datatype link_flag = kIONetworkLinkValid | kIONetworkLinkActive

datatype ev =
    In8 u16 | In16 u16 | In32 u16
  | Out8 u16 u8 | Out16 u16 u16 | Out32 u16 u32
  | Sleep nat
  | AllocPacket u16 | FreePacket
  | InputPacket "u8 list" | FlushInput
  | QService bool
  | QSetCapacity nat | QStart | QStop | QFlush
  | SetLinkStatus "link_flag set" "medium option"
  | SetCurrentMedium medium
  | TimerSet nat | TimerCancel
  | CfgWrite16 u16
  | Kernel string
  | Call string "u32 list"

text \<open>
  \<open>QService True\<close> is \<^verbatim>\<open>service(kServiceAsync)\<close>, \<open>QService False\<close> the synchronous call.
  \<open>Kernel f\<close> is a call of the IOKit function named \<open>f\<close> whose effect stays in the kernel and
  whose success \<open>os_ok\<close> decides; \<open>Call f args\<close> one whose word arguments matter.
\<close>

type_synonym history = "ev list"

subsection \<open>Memory shared with the controller, and the environment\<close>

record dma_mem =
  mds :: "u32 \<Rightarrow> pcnet32_mds"
  lmds :: "u32 \<Rightarrow> lance_mds"
  ram :: "u32 \<Rightarrow> u8"

record env =
  in8 :: "history \<Rightarrow> u16 \<Rightarrow> u8"
  in16 :: "history \<Rightarrow> u16 \<Rightarrow> u16"
  in32 :: "history \<Rightarrow> u16 \<Rightarrow> u32"
  dma :: "history \<Rightarrow> dma_mem \<Rightarrow> dma_mem"
  os_ok :: "history \<Rightarrow> bool"
  fresh :: "history \<Rightarrow> nat \<Rightarrow> u8"
  physSegment :: "u32 \<Rightarrow> u32"
  past_ladrb :: "history \<Rightarrow> nat \<Rightarrow> u8"
  block_base :: "history \<Rightarrow> u32"
  selectedMedium :: "history \<Rightarrow> medium option"
  pciCommand :: "history \<Rightarrow> u16"
  kIOPCICommandBusMaster :: u16
  kIOPCICommandIOSpace :: u16
  kIOPCICommandMemWrInvalidate :: u16
  kIOPCICommandMemorySpace :: u16

text \<open>
  \<open>fresh\<close> is the content of a packet buffer as \<^verbatim>\<open>allocatePacket\<close> returns it, \<open>physSegment\<close> the
  answer of \<^verbatim>\<open>getPhysicalSegment\<close> at an offset of the descriptor memory, \<open>block_base\<close> the address
  \<^verbatim>\<open>getBytesNoCopy\<close> returns, \<open>selectedMedium\<close> that of \<^verbatim>\<open>getSelectedMedium\<close>, \<open>pciCommand\<close> the PCI
  command register, whose bits, constants of IOKit's headers, are the four fields after it.
  \<open>past_ladrb k\<close> is the byte \<open>k\<close> bytes after the start of \<^verbatim>\<open>sc.ladrb\<close>, for an
  index past the end of that array.
\<close>

subsection \<open>The driver object\<close>

record hist =
  trace :: history
  mem :: dma_mem

record lnc_softc = hist +
  memDescr :: bool
  ring_base :: u32
  nrdre :: nat
  recv_ring :: "host_ring_entry list"
  recv_next :: nat
  ntdre :: nat
  trans_ring :: "host_ring_entry list"
  trans_next :: nat
  init_block :: pcnet32_init_block
  init_block_addr :: u32
  pending_transmits :: int
  next_to_send :: nat
  ladrb :: "u8 list"
  dwio :: bool
  flags :: u32
  nic_mode :: u32
  if_drv_flags :: u32
  if_flags :: u32

record net_stats =
  inputPackets :: u32
  inputErrors :: u32
  outputPackets :: u32
  outputErrors :: u32

record ether_stats =
  alignmentErrors :: u32
  fcsErrors :: u32
  singleCollisionFrames :: u32
  multipleCollisionFrames :: u32
  sqeTestErrors :: u32
  deferredTransmissions :: u32
  lateCollisions :: u32
  excessiveCollisions :: u32
  internalMacTransmitErrors :: u32
  carrierSenseErrors :: u32
  frameTooLongs :: u32
  internalMacReceiveErrors :: u32
  etherChipSet :: u32
  missedFrames :: u32
  collFrequencies :: "u32 list"
  rx_overruns :: u32
  rx_watchdogTimeouts :: u32
  rx_frameTooShorts :: u32
  rx_collisionErrors :: u32
  rx_phyErrors :: u32
  rx_timeouts :: u32
  rx_interrupts :: u32
  rx_resets :: u32
  rx_resourceErrors :: u32
  tx_underruns :: u32
  tx_jabbers :: u32
  tx_phyErrors :: u32
  tx_timeouts :: u32
  tx_interrupts :: u32
  tx_resets :: u32
  tx_resourceErrors :: u32

record pcnet = lnc_softc +
  netif :: bool
  pciNub :: bool
  workLoop :: bool
  interruptSrc :: bool
  transmitQueue :: bool
  timerSrc :: bool
  csrMap :: bool
  mediumDict :: bool
  netStats :: net_stats
  etherStats :: ether_stats
  mediumTable :: "u32 \<Rightarrow> medium option"
  currentLevel :: u32
  enabledByBSD :: bool
  enabledByKDP :: bool
  interruptEnabled :: bool
  currentMediumIndex :: u32
  mediumIndexLastReported :: u32

text \<open>
  The counters of \<^verbatim>\<open>IOEthernetStats\<close> carry the prefix of the structure they are in (\<open>rx_\<close> for
  \<^verbatim>\<open>dot3RxExtraEntry\<close>, \<open>tx_\<close> for \<^verbatim>\<open>dot3TxExtraEntry\<close>, none for \<^verbatim>\<open>dot3StatsEntry\<close>). A pointer
  to an IOKit object is a \<open>bool\<close>: whether it is non-null.
\<close>

subsection \<open>One event\<close>

definition emit :: "env \<Rightarrow> ev \<Rightarrow> 'a hist_scheme \<Rightarrow> 'a hist_scheme" where
  "emit E e s = s\<lparr>trace := e # trace s, mem := dma E (e # trace s) (mem s)\<rparr>"

text \<open>A call of the kernel that reports success or failure (a status, or a null pointer).\<close>

definition os_call :: "env \<Rightarrow> ev \<Rightarrow> 'a hist_scheme \<Rightarrow> bool \<times> 'a hist_scheme" where
  "os_call E e s = (os_ok E (trace s), emit E e s)"

lemma emit_trace [simp]: "trace (emit E e s) = e # trace s"
  by (simp add: emit_def)

lemma emit_mem: "mem (emit E e s) = dma E (e # trace s) (mem s)"
  by (simp add: emit_def)

subsection \<open>The statistics macros\<close>

text \<open>The argument is the update function of the counter, e.g. \<open>inputErrors_update\<close>.\<close>

definition BUMP_NET_COUNTER :: "((u32 \<Rightarrow> u32) \<Rightarrow> net_stats \<Rightarrow> net_stats) \<Rightarrow> pcnet \<Rightarrow> pcnet" where
  [drv_ops]: "BUMP_NET_COUNTER upd s = s\<lparr>netStats := upd (\<lambda>x. x + 1) (netStats s)\<rparr>"

definition BUMP_ETHER_COUNTER :: "((u32 \<Rightarrow> u32) \<Rightarrow> ether_stats \<Rightarrow> ether_stats) \<Rightarrow> pcnet \<Rightarrow> pcnet" where
  [drv_ops]: "BUMP_ETHER_COUNTER upd s = s\<lparr>etherStats := upd (\<lambda>x. x + 1) (etherStats s)\<rparr>"

subsection \<open>Descriptors of the two rings\<close>

definition upd_mds :: "u32 \<Rightarrow> (pcnet32_mds \<Rightarrow> pcnet32_mds) \<Rightarrow> 'a hist_scheme \<Rightarrow> 'a hist_scheme" where
  "upd_mds a f s = s\<lparr>mem := (mem s)\<lparr>mds := (mds (mem s))(a := f (mds (mem s) a))\<rparr>\<rparr>"

definition upd_lmds :: "u32 \<Rightarrow> (lance_mds \<Rightarrow> lance_mds) \<Rightarrow> 'a hist_scheme \<Rightarrow> 'a hist_scheme" where
  "upd_lmds a f s = s\<lparr>mem := (mem s)\<lparr>lmds := (lmds (mem s))(a := f (lmds (mem s) a))\<rparr>\<rparr>"

definition rx_md :: "'a lnc_softc_scheme \<Rightarrow> nat \<Rightarrow> pcnet32_mds" where
  "rx_md s i = mds (mem s) (hre_md (recv_ring s ! i))"

definition tx_md :: "'a lnc_softc_scheme \<Rightarrow> nat \<Rightarrow> pcnet32_mds" where
  "tx_md s i = mds (mem s) (hre_md (trans_ring s ! i))"

definition upd_rx_md :: "nat \<Rightarrow> (pcnet32_mds \<Rightarrow> pcnet32_mds) \<Rightarrow> 'a lnc_softc_scheme \<Rightarrow> 'a lnc_softc_scheme" where
  "upd_rx_md i f s = upd_mds (hre_md (recv_ring s ! i)) f s"

definition upd_tx_md :: "nat \<Rightarrow> (pcnet32_mds \<Rightarrow> pcnet32_mds) \<Rightarrow> 'a lnc_softc_scheme \<Rightarrow> 'a lnc_softc_scheme" where
  "upd_tx_md i f s = upd_mds (hre_md (trans_ring s ! i)) f s"

end
