(* ===== verification/Port_IO.thy ===== *)
theory Port_IO
  imports Driver_State
begin

text \<open>
  Register access (the inline functions of \<^verbatim>\<open>PCNet.h\<close>): the port accessors, the CSR and BCR
  access through the address port RAP in 16-bit (WIO) and 32-bit (DWIO) mode, and the
  reset, stop, start and mode-check sequences. The history-based reading \<open>sel_reg\<close>,
  \<open>bcr_last\<close>, \<open>csr_last\<close> of the register file states what the chip's manual promises of RAP,
  RDP and BDP; \<open>register_file\<close> is that promise as a hypothesis on the environment.
\<close>

unbundle bit_operations_syntax

subsection \<open>Port accessors\<close>

definition csrWrite32 :: "env \<Rightarrow> u16 \<Rightarrow> u32 \<Rightarrow> 'a hist_scheme \<Rightarrow> 'a hist_scheme" where
  [drv_ops]: "csrWrite32 E offset val s = emit E (Out32 offset val) s"

definition csrWrite16 :: "env \<Rightarrow> u16 \<Rightarrow> u16 \<Rightarrow> 'a hist_scheme \<Rightarrow> 'a hist_scheme" where
  [drv_ops]: "csrWrite16 E offset val s = emit E (Out16 offset val) s"

definition csrWrite8 :: "env \<Rightarrow> u16 \<Rightarrow> u8 \<Rightarrow> 'a hist_scheme \<Rightarrow> 'a hist_scheme" where
  [drv_ops]: "csrWrite8 E offset val s = emit E (Out8 offset val) s"

definition csrRead32 :: "env \<Rightarrow> u16 \<Rightarrow> 'a hist_scheme \<Rightarrow> u32 \<times> 'a hist_scheme" where
  [drv_ops]: "csrRead32 E offset s = (in32 E (trace s) offset, emit E (In32 offset) s)"

definition csrRead16 :: "env \<Rightarrow> u16 \<Rightarrow> 'a hist_scheme \<Rightarrow> u16 \<times> 'a hist_scheme" where
  [drv_ops]: "csrRead16 E offset s = (in16 E (trace s) offset, emit E (In16 offset) s)"

definition csrRead8 :: "env \<Rightarrow> u16 \<Rightarrow> 'a hist_scheme \<Rightarrow> u8 \<times> 'a hist_scheme" where
  [drv_ops]: "csrRead8 E offset s = (in8 E (trace s) offset, emit E (In8 offset) s)"

text \<open>A write followed by a read of the same port, whose value is dropped.\<close>

definition csrWrite32Slow :: "env \<Rightarrow> u16 \<Rightarrow> u32 \<Rightarrow> 'a hist_scheme \<Rightarrow> 'a hist_scheme" where
  [drv_ops]: "csrWrite32Slow E offset val s = snd (csrRead32 E offset (csrWrite32 E offset val s))"

definition csrWrite16Slow :: "env \<Rightarrow> u16 \<Rightarrow> u16 \<Rightarrow> 'a hist_scheme \<Rightarrow> 'a hist_scheme" where
  [drv_ops]: "csrWrite16Slow E offset val s = snd (csrRead16 E offset (csrWrite16 E offset val s))"

definition csrWrite8Slow :: "env \<Rightarrow> u16 \<Rightarrow> u8 \<Rightarrow> 'a hist_scheme \<Rightarrow> 'a hist_scheme" where
  [drv_ops]: "csrWrite8Slow E offset val s = snd (csrRead8 E offset (csrWrite8 E offset val s))"

subsection \<open>Control and bus configuration registers\<close>

definition read_csr_dwio :: "env \<Rightarrow> u16 \<Rightarrow> 'a hist_scheme \<Rightarrow> u16 \<times> 'a hist_scheme" where
  [drv_ops]: "read_csr_dwio E port s =
     (let s = csrWrite32 E PCNET32_DWIO_RAP (ucast port) s;
          (v, s) = csrRead32 E PCNET32_DWIO_RDP s
      in (ucast (v AND 0xffff), s))"

definition read_csr_wio :: "env \<Rightarrow> u16 \<Rightarrow> 'a hist_scheme \<Rightarrow> u16 \<times> 'a hist_scheme" where
  [drv_ops]: "read_csr_wio E port s =
     (let s = csrWrite16 E PCNET32_WIO_RAP port s
      in csrRead16 E PCNET32_WIO_RDP s)"

definition read_csr :: "env \<Rightarrow> u16 \<Rightarrow> 'a lnc_softc_scheme \<Rightarrow> u16 \<times> 'a lnc_softc_scheme" where
  [drv_ops]: "read_csr E port s = (if dwio s then read_csr_dwio E port s else read_csr_wio E port s)"

definition write_csr :: "env \<Rightarrow> u16 \<Rightarrow> u16 \<Rightarrow> 'a lnc_softc_scheme \<Rightarrow> 'a lnc_softc_scheme" where
  [drv_ops]: "write_csr E port val s =
     (if dwio s
      then csrWrite32 E PCNET32_DWIO_RDP (ucast val) (csrWrite32 E PCNET32_DWIO_RAP (ucast port) s)
      else csrWrite16 E PCNET32_WIO_RDP val (csrWrite16 E PCNET32_WIO_RAP port s))"

definition read_bcr :: "env \<Rightarrow> u16 \<Rightarrow> 'a lnc_softc_scheme \<Rightarrow> u16 \<times> 'a lnc_softc_scheme" where
  [drv_ops]: "read_bcr E port s =
     (if dwio s
      then (let s = csrWrite32 E PCNET32_DWIO_RAP (ucast port) s;
                (v, s) = csrRead32 E PCNET32_DWIO_BDP s
            in (ucast (v AND 0xffff), s))
      else (let s = csrWrite16 E PCNET32_WIO_RAP port s
            in csrRead16 E PCNET32_WIO_BDP s))"

definition write_bcr :: "env \<Rightarrow> u16 \<Rightarrow> u16 \<Rightarrow> 'a lnc_softc_scheme \<Rightarrow> 'a lnc_softc_scheme" where
  [drv_ops]: "write_bcr E port val s =
     (if dwio s
      then csrWrite32 E PCNET32_DWIO_BDP (ucast val) (csrWrite32 E PCNET32_DWIO_RAP (ucast port) s)
      else csrWrite16 E PCNET32_WIO_BDP val (csrWrite16 E PCNET32_WIO_RAP port s))"

subsection \<open>Reset, stop, start and mode checks\<close>

definition pcnet32_reset :: "env \<Rightarrow> 'a hist_scheme \<Rightarrow> 'a hist_scheme" where
  [drv_ops]: "pcnet32_reset E s =
     (let (_, s) = csrRead32 E PCNET32_DWIO_RESET s;
          (_, s) = csrRead16 E PCNET32_WIO_RESET s
      in s)"

definition pcnet32_stop :: "env \<Rightarrow> 'a lnc_softc_scheme \<Rightarrow> 'a lnc_softc_scheme" where
  [drv_ops]: "pcnet32_stop E s = write_csr E CSR CSR_STOP s"

definition pcnet32_start :: "env \<Rightarrow> 'a lnc_softc_scheme \<Rightarrow> 'a lnc_softc_scheme" where
  [drv_ops]: "pcnet32_start E s = write_csr E CSR (CSR_STRT OR CSR_IENA) s"

definition pcnet32_check_wio :: "env \<Rightarrow> 'a hist_scheme \<Rightarrow> bool \<times> 'a hist_scheme" where
  [drv_ops]: "pcnet32_check_wio E s =
     (let s = csrWrite16 E PCNET32_WIO_RAP 88 s;
          (v, s) = csrRead16 E PCNET32_WIO_RAP s
      in (v = 88, s))"

definition pcnet32_check_dwio :: "env \<Rightarrow> 'a hist_scheme \<Rightarrow> bool \<times> 'a hist_scheme" where
  [drv_ops]: "pcnet32_check_dwio E s =
     (let s = csrWrite32 E PCNET32_DWIO_RAP 88 s;
          (v, s) = csrRead32 E PCNET32_DWIO_RAP s
      in (v = 88, s))"

subsection \<open>Frames: register access touches the history and the shared memory only\<close>

text \<open>
  Every function above is a composition of events, so the state it returns is the old one
  with another history and shared memory. \<open>same_vars\<close> says that of two states.
\<close>

definition same_vars :: "'a hist_scheme \<Rightarrow> 'a hist_scheme \<Rightarrow> bool" where
  "same_vars s t \<longleftrightarrow> t = s\<lparr>trace := trace t, mem := mem t\<rparr>"

lemma same_vars_refl [simp, intro]: "same_vars s s"
  by (simp add: same_vars_def)

lemma same_vars_emit [simp, intro]: "same_vars s (emit E e s)"
  by (simp add: same_vars_def emit_def)

lemma same_vars_trans: "same_vars s t \<Longrightarrow> same_vars t u \<Longrightarrow> same_vars s u"
  by (cases s; cases t; cases u) (simp add: same_vars_def)

lemma same_vars_emit_iff [simp]: "same_vars s (emit E e t) \<longleftrightarrow> same_vars s t"
  by (cases s; cases t) (simp add: same_vars_def emit_def)

text \<open>
  The simplifier computes through an event: every variable of the driver passes through it.
\<close>

lemma emit_sel [simp]:
  fixes s :: "'a lnc_softc_scheme"
  shows "memDescr (emit E e s) = memDescr s" "ring_base (emit E e s) = ring_base s"
    "nrdre (emit E e s) = nrdre s" "recv_ring (emit E e s) = recv_ring s"
    "recv_next (emit E e s) = recv_next s" "ntdre (emit E e s) = ntdre s"
    "trans_ring (emit E e s) = trans_ring s" "trans_next (emit E e s) = trans_next s"
    "init_block (emit E e s) = init_block s" "init_block_addr (emit E e s) = init_block_addr s"
    "pending_transmits (emit E e s) = pending_transmits s"
    "next_to_send (emit E e s) = next_to_send s" "ladrb (emit E e s) = ladrb s"
    "dwio (emit E e s) = dwio s" "flags (emit E e s) = flags s" "nic_mode (emit E e s) = nic_mode s"
    "if_drv_flags (emit E e s) = if_drv_flags s" "if_flags (emit E e s) = if_flags s"
  by (cases s, simp add: emit_def)+

lemma emit_sel_pcnet [simp]:
  fixes s :: pcnet
  shows "netif (emit E e s) = netif s" "pciNub (emit E e s) = pciNub s"
    "workLoop (emit E e s) = workLoop s" "interruptSrc (emit E e s) = interruptSrc s"
    "transmitQueue (emit E e s) = transmitQueue s" "timerSrc (emit E e s) = timerSrc s"
    "csrMap (emit E e s) = csrMap s" "mediumDict (emit E e s) = mediumDict s"
    "netStats (emit E e s) = netStats s" "etherStats (emit E e s) = etherStats s"
    "mediumTable (emit E e s) = mediumTable s" "currentLevel (emit E e s) = currentLevel s"
    "enabledByBSD (emit E e s) = enabledByBSD s" "enabledByKDP (emit E e s) = enabledByKDP s"
    "interruptEnabled (emit E e s) = interruptEnabled s"
    "currentMediumIndex (emit E e s) = currentMediumIndex s"
    "mediumIndexLastReported (emit E e s) = mediumIndexLastReported s"
  by (cases s, simp add: emit_def)+

text \<open>The selectors of two states that differ in history and shared memory only.\<close>

lemma same_vars_sel:
  fixes s t :: "'a lnc_softc_scheme"
  assumes "same_vars s t"
  shows "memDescr t = memDescr s" "ring_base t = ring_base s" "nrdre t = nrdre s"
    "recv_ring t = recv_ring s" "recv_next t = recv_next s" "ntdre t = ntdre s"
    "trans_ring t = trans_ring s" "trans_next t = trans_next s" "init_block t = init_block s"
    "init_block_addr t = init_block_addr s" "pending_transmits t = pending_transmits s"
    "next_to_send t = next_to_send s" "ladrb t = ladrb s" "dwio t = dwio s" "flags t = flags s"
    "nic_mode t = nic_mode s" "if_drv_flags t = if_drv_flags s" "if_flags t = if_flags s"
  using assms unfolding same_vars_def by (cases s; cases t; simp)+

lemma same_vars_sel_pcnet:
  fixes s t :: pcnet
  assumes "same_vars s t"
  shows
    "netif t = netif s" "pciNub t = pciNub s" "workLoop t = workLoop s"
    "interruptSrc t = interruptSrc s" "transmitQueue t = transmitQueue s"
    "timerSrc t = timerSrc s" "csrMap t = csrMap s" "mediumDict t = mediumDict s"
    "netStats t = netStats s" "etherStats t = etherStats s" "mediumTable t = mediumTable s"
    "currentLevel t = currentLevel s" "enabledByBSD t = enabledByBSD s"
    "enabledByKDP t = enabledByKDP s" "interruptEnabled t = interruptEnabled s"
    "currentMediumIndex t = currentMediumIndex s"
    "mediumIndexLastReported t = mediumIndexLastReported s"
  using assms unfolding same_vars_def by (cases s; cases t; simp)+

lemma same_vars_read_csr [simp]: "same_vars s (snd (read_csr E p s))"
  by (simp add: drv_ops)

lemma same_vars_write_csr [simp]: "same_vars s (write_csr E p v s)"
  by (simp add: drv_ops)

lemma same_vars_read_bcr [simp]: "same_vars s (snd (read_bcr E p s))"
  by (simp add: drv_ops)

lemma same_vars_write_bcr [simp]: "same_vars s (write_bcr E p v s)"
  by (simp add: drv_ops)

lemma same_vars_reset [simp]: "same_vars s (pcnet32_reset E s)"
  by (simp add: drv_ops)

lemma same_vars_stop [simp]: "same_vars s (pcnet32_stop E s)"
  by (simp add: pcnet32_stop_def)

lemma same_vars_start [simp]: "same_vars s (pcnet32_start E s)"
  by (simp add: pcnet32_start_def)

lemmas reg_op_sel [simp] =
  same_vars_sel[OF same_vars_read_csr] same_vars_sel_pcnet[OF same_vars_read_csr]
  same_vars_sel[OF same_vars_write_csr] same_vars_sel_pcnet[OF same_vars_write_csr]
  same_vars_sel[OF same_vars_read_bcr] same_vars_sel_pcnet[OF same_vars_read_bcr]
  same_vars_sel[OF same_vars_write_bcr] same_vars_sel_pcnet[OF same_vars_write_bcr]
  same_vars_sel[OF same_vars_reset] same_vars_sel_pcnet[OF same_vars_reset]
  same_vars_sel[OF same_vars_stop] same_vars_sel_pcnet[OF same_vars_stop]
  same_vars_sel[OF same_vars_start] same_vars_sel_pcnet[OF same_vars_start]

subsection \<open>Register access as a sequence of events\<close>

text \<open>
  \<open>evolves E s t\<close>: between \<open>s\<close> and \<open>t\<close> there are events only, so what every event preserves,
  every register access preserves.
\<close>

inductive evolves :: "env \<Rightarrow> 'a hist_scheme \<Rightarrow> 'a hist_scheme \<Rightarrow> bool" for E where
  evolves_refl [simp, intro]: "evolves E s s"
| evolves_emit [intro]: "evolves E s t \<Longrightarrow> evolves E s (emit E e t)"

lemma evolves_trans: "evolves E s t \<Longrightarrow> evolves E t u \<Longrightarrow> evolves E s u"
  by (rotate_tac, induction rule: evolves.induct) auto

lemma evolves_same_vars: "evolves E s t \<Longrightarrow> same_vars s t"
  by (induction rule: evolves.induct) simp_all

lemma evolves_later: "evolves E s t \<Longrightarrow> \<exists>h. trace t = h @ trace s"
  by (induction rule: evolves.induct) auto

lemma evolves_keeps:
  assumes "evolves E s t" "P s" "\<And>e u. P u \<Longrightarrow> P (emit E e u)"
  shows "P t"
  using assms by (induction rule: evolves.induct) auto

lemma evolves_read_csr [simp]: "evolves E s (snd (read_csr E p s))"
  and evolves_write_csr [simp]: "evolves E s (write_csr E p v s)"
  and evolves_read_bcr [simp]: "evolves E s (snd (read_bcr E p s))"
  and evolves_write_bcr [simp]: "evolves E s (write_bcr E p v s)"
  and evolves_reset [simp]: "evolves E s (pcnet32_reset E s)"
  and evolves_stop [simp]: "evolves E s (pcnet32_stop E s)"
  and evolves_start [simp]: "evolves E s (pcnet32_start E s)"
  by (auto simp: drv_ops)

subsection \<open>The register file\<close>

text \<open>
  What the chip's manual promises of the address port: an access of RDP or BDP goes to the
  register whose number was last written to RAP, and a storage register (any BCR; any CSR
  but the status register 0) reads back the last value written to it. A reset forgets them.
\<close>

fun sel_reg :: "history \<Rightarrow> u16" where
  "sel_reg [] = 0"
| "sel_reg (Out16 p v # h) = (if p = PCNET32_WIO_RAP then v else sel_reg h)"
| "sel_reg (Out32 p v # h) = (if p = PCNET32_DWIO_RAP then ucast v else sel_reg h)"
| "sel_reg (e # h) = sel_reg h"

fun reg_last :: "u16 \<Rightarrow> u16 \<Rightarrow> history \<Rightarrow> u16 \<Rightarrow> u16 option" where
  "reg_last w d [] k = None"
| "reg_last w d (Out16 p v # h) k = (if p = w \<and> sel_reg h = k then Some v else reg_last w d h k)"
| "reg_last w d (Out32 p v # h) k = (if p = d \<and> sel_reg h = k then Some (ucast v) else reg_last w d h k)"
| "reg_last w d (In16 p # h) k = (if p = PCNET32_WIO_RESET then None else reg_last w d h k)"
| "reg_last w d (In32 p # h) k = (if p = PCNET32_DWIO_RESET then None else reg_last w d h k)"
| "reg_last w d (e # h) k = reg_last w d h k"

abbreviation bcr_last :: "history \<Rightarrow> u16 \<Rightarrow> u16 option" where
  "bcr_last \<equiv> reg_last PCNET32_WIO_BDP PCNET32_DWIO_BDP"

abbreviation csr_last :: "history \<Rightarrow> u16 \<Rightarrow> u16 option" where
  "csr_last \<equiv> reg_last PCNET32_WIO_RDP PCNET32_DWIO_RDP"

definition register_file :: "env \<Rightarrow> bool" where
  "register_file E \<longleftrightarrow>
     (\<forall>h v. bcr_last h (sel_reg h) = Some v \<longrightarrow>
        in16 E h PCNET32_WIO_BDP = v \<and> ucast (in32 E h PCNET32_DWIO_BDP) = v) \<and>
     (\<forall>h v. sel_reg h \<noteq> CSR \<longrightarrow> csr_last h (sel_reg h) = Some v \<longrightarrow>
        in16 E h PCNET32_WIO_RDP = v \<and> ucast (in32 E h PCNET32_DWIO_RDP) = v)"

text \<open>
  The interface the rest of the driver uses: numbered registers with a read and a write.
  The laws are stated over the history of a state, so they hold across the other events.
\<close>

locale reg_access =
  fixes rd :: "env \<Rightarrow> u16 \<Rightarrow> 's \<Rightarrow> u16 \<times> 's"
    and wr :: "env \<Rightarrow> u16 \<Rightarrow> u16 \<Rightarrow> 's \<Rightarrow> 's"
    and last_of :: "'s \<Rightarrow> u16 \<Rightarrow> u16 option"
    and honest :: "env \<Rightarrow> bool"
    and storage :: "u16 \<Rightarrow> bool"
  assumes wr_last: "last_of (wr E p v s) q = (if q = p then Some v else last_of s q)"
    and rd_keeps: "last_of (snd (rd E p s)) q = last_of s q"
    and rd_last: "honest E \<Longrightarrow> storage p \<Longrightarrow> last_of s p = Some v \<Longrightarrow> fst (rd E p s) = v"
begin

lemma read_back:
  assumes "honest E" "storage p"
  shows "fst (rd E p (wr E p v s)) = v"
  using assms by (simp add: rd_last wr_last)

lemma read_other:
  assumes "honest E" "storage q" "q \<noteq> p" "last_of s q = Some w"
  shows "fst (rd E q (wr E p v s)) = w"
  using assms by (simp add: rd_last wr_last)

lemma read_modify_write:
  assumes "honest E" "storage p" "storage q" "last_of s q = Some w"
  shows "fst (rd E q (case rd E p s of (v, s') \<Rightarrow> wr E p (f v) s')) =
         (if q = p then f (fst (rd E p s)) else w)"
  using assms rd_keeps[of E p s q] by (cases "rd E p s") (auto simp: rd_last wr_last)

lemma read_stable:
  assumes "honest E" "storage p" "last_of s p = Some v"
  shows "fst (rd E p (snd (rd E q s))) = v"
  using assms by (simp add: rd_last rd_keeps)

end

lemma ucast_and_mask16 [simp]: "(ucast ((v::u32) AND 0xFFFF) :: u16) = ucast v"
proof -
  have "v AND 0xFFFF = take_bit 16 v"
    by (simp add: take_bit_eq_mask mask_eq_exp_minus_1)
  then show ?thesis by (auto intro!: bit_word_eqI simp: bit_simps)
qed

lemma ucast_u16_u32_u16 [simp]: "(ucast (ucast (v::u16) :: u32) :: u16) = v"
  by (rule bit_word_eqI) (auto simp: bit_simps)

interpretation bcr: reg_access read_bcr write_bcr "\<lambda>s. bcr_last (trace s)" register_file "\<lambda>_. True"
proof
  fix E p v q and s :: "'a lnc_softc_scheme"
  show "bcr_last (trace (write_bcr E p v s)) q = (if q = p then Some v else bcr_last (trace s) q)"
    by (simp add: drv_ops hw_consts)
  show "bcr_last (trace (snd (read_bcr E p s))) q = bcr_last (trace s) q"
    by (simp add: drv_ops hw_consts)
  assume r: "register_file E" and l: "bcr_last (trace s) p = Some v"
  let ?w = "Out16 PCNET32_WIO_RAP p # trace s" and ?d = "Out32 PCNET32_DWIO_RAP (ucast p) # trace s"
  have "bcr_last ?w (sel_reg ?w) = Some v" "bcr_last ?d (sel_reg ?d) = Some v"
    using l by (simp_all add: hw_consts)
  then have "in16 E ?w PCNET32_WIO_BDP = v" "ucast (in32 E ?d PCNET32_DWIO_BDP) = v"
    using r unfolding register_file_def by blast+
  then show "fst (read_bcr E p s) = v"
    by (simp add: read_bcr_def csrWrite32_def csrWrite16_def csrRead32_def csrRead16_def)
qed

interpretation csr: reg_access read_csr write_csr "\<lambda>s. csr_last (trace s)" register_file "\<lambda>p. p \<noteq> CSR"
proof
  fix E p v q and s :: "'a lnc_softc_scheme"
  show "csr_last (trace (write_csr E p v s)) q = (if q = p then Some v else csr_last (trace s) q)"
    by (simp add: drv_ops hw_consts)
  show "csr_last (trace (snd (read_csr E p s))) q = csr_last (trace s) q"
    by (simp add: drv_ops hw_consts)
  assume r: "register_file E" and p: "p \<noteq> CSR" and l: "csr_last (trace s) p = Some v"
  let ?w = "Out16 PCNET32_WIO_RAP p # trace s" and ?d = "Out32 PCNET32_DWIO_RAP (ucast p) # trace s"
  have "csr_last ?w (sel_reg ?w) = Some v" "csr_last ?d (sel_reg ?d) = Some v"
    and "sel_reg ?w \<noteq> CSR" "sel_reg ?d \<noteq> CSR"
    using l p by (simp_all add: hw_consts)
  then have "in16 E ?w PCNET32_WIO_RDP = v" "ucast (in32 E ?d PCNET32_DWIO_RDP) = v"
    using r unfolding register_file_def by blast+
  then show "fst (read_csr E p s) = v"
    by (simp add: read_csr_def read_csr_wio_def read_csr_dwio_def csrWrite32_def csrWrite16_def
        csrRead32_def csrRead16_def)
qed

text \<open>Nothing but a register write or a reset forgets what a register holds.\<close>

definition keeps_regs :: "ev \<Rightarrow> bool" where
  "keeps_regs e \<longleftrightarrow> (case e of Out16 p v \<Rightarrow> False | Out32 p v \<Rightarrow> False
     | In16 p \<Rightarrow> p \<noteq> PCNET32_WIO_RESET | In32 p \<Rightarrow> p \<noteq> PCNET32_DWIO_RESET | _ \<Rightarrow> True)"

lemma reg_last_keeps: "keeps_regs e \<Longrightarrow> reg_last w d (e # h) k = reg_last w d h k"
  by (cases e) (auto simp: keeps_regs_def)

end
