(* ===== verification/Multicast.thy ===== *)
theory Multicast
  imports Port_IO
begin

text \<open>
  The multicast filter: the nibble-table CRC of \<^verbatim>\<open>PCNet_lnc.cpp\<close>, the logical address filter
  \<open>lnc_setladrf\<close> computes from it, and \<open>lnc_set_multicast\<close>, which programs the chip. The CRC
  is proved equal to the bitwise CRC-32; the filter is proved to hold exactly the hash bits
  of the given addresses.
\<close>

unbundle bit_operations_syntax

subsection \<open>The CRC\<close>

definition crctab :: "u32 list" where
  "crctab =
    [0x00000000, 0x1db71064, 0x3b6e20c8, 0x26d930ac,
     0x76dc4190, 0x6b6b51f4, 0x4db26158, 0x5005713c,
     0xedb88320, 0xf00f9344, 0xd6d6a3e8, 0xcb61b38c,
     0x9b64c2b0, 0x86d3d2d4, 0xa00ae278, 0xbdbdf21c]"

definition crc_nibble :: "u32 \<Rightarrow> u32" where
  "crc_nibble crc = drop_bit 4 crc XOR crctab ! unat (crc AND 0xf)"

definition ether_crc32_le :: "u8 list \<Rightarrow> u32" where
  "ether_crc32_le buf =
     fold (\<lambda>b crc. crc_nibble (crc_nibble (crc XOR ucast b))) buf 0xffffffff"

text \<open>The reference: the reflected CRC-32, one bit at a time.\<close>

definition crc_bit :: "u32 \<Rightarrow> u32" where
  "crc_bit c = (if bit c 0 then drop_bit 1 c XOR 0xEDB88320 else drop_bit 1 c)"

definition crc32_bitwise :: "u8 list \<Rightarrow> u32" where
  "crc32_bitwise buf = fold (\<lambda>b crc. (crc_bit ^^ 8) (crc XOR ucast b)) buf 0xffffffff"

lemma crc_bit_xor: "crc_bit (x XOR y) = crc_bit x XOR crc_bit y"
  by (simp add: crc_bit_def drop_bit_xor bit_xor_iff ac_simps)

lemma crc_bits_xor: "(crc_bit ^^ n) (x XOR y) = (crc_bit ^^ n) x XOR (crc_bit ^^ n) y"
  by (induction n) (simp_all add: crc_bit_xor)

lemma crc_bits_clear: "\<forall>i<n. \<not> bit x i \<Longrightarrow> (crc_bit ^^ n) x = drop_bit n x"
proof (induction n)
  case (Suc n)
  then have "(crc_bit ^^ Suc n) x = crc_bit (drop_bit n x)" by simp
  also have "\<dots> = drop_bit (Suc n) x"
    using Suc.prems by (simp add: crc_bit_def bit_drop_bit_eq)
  finally show ?case .
qed simp

lemma crctab_rows: "map (\<lambda>n. (crc_bit ^^ 4) (of_nat n)) [0..<16] = crctab"
  by code_simp

lemma crctab_bits: "n < 16 \<Longrightarrow> (crc_bit ^^ 4) (of_nat n) = crctab ! n"
  by (simp flip: crctab_rows)

lemma crc_nibble_bits: "crc_nibble c = (crc_bit ^^ 4) c"
proof -
  let ?lo = "c AND 0xF" and ?hi = "c AND NOT 0xF"
  have m: "(0xF::u32) = mask 4" by (simp add: mask_eq_exp_minus_1)
  have "unat ?lo < 16"
    using word_and_le1[of c "0xF"] by (simp add: word_le_nat_alt)
  then have "(crc_bit ^^ 4) ?lo = crctab ! unat ?lo"
    using crctab_bits[of "unat ?lo"] by simp
  moreover have "(crc_bit ^^ 4) ?hi = drop_bit 4 ?hi"
    by (rule crc_bits_clear) (simp add: m bit_simps)
  moreover have "drop_bit 4 ?hi = drop_bit 4 c"
    by (rule bit_word_eqI) (auto simp: m bit_simps dest: bit_imp_le_length)
  moreover have "c = ?hi XOR ?lo"
    by (rule bit_word_eqI) (auto simp: bit_simps)
  ultimately show ?thesis
    unfolding crc_nibble_def by (metis crc_bits_xor)
qed

lemma crc32_table_eq_bitwise: "ether_crc32_le buf = crc32_bitwise buf"
proof -
  have "crc_nibble (crc_nibble c) = (crc_bit ^^ 8) c" for c
    using funpow_add[of 4 4 crc_bit] by (simp add: crc_nibble_bits)
  then show ?thesis by (simp add: ether_crc32_le_def crc32_bitwise_def)
qed

subsection \<open>The logical address filter\<close>

definition ladrf_index :: "u8 list \<Rightarrow> u32" where
  "ladrf_index a = drop_bit 26 (ether_crc32_le (take ETHER_ADDR_LEN a))"

definition ladrf_set :: "u8 list \<Rightarrow> u8 list \<Rightarrow> u8 list" where
  "ladrf_set a f =
     (let index = ladrf_index a; k = unat (drop_bit 3 index)
      in f[k := f ! k OR push_bit (unat (index AND 7)) 1])"

text \<open>
  \<open>addrs\<close> is the pointer argument: \<open>None\<close> is the null pointer, \<open>Some as\<close> the addresses it
  points to, of which the loop takes \<open>count\<close>.
\<close>

definition lnc_setladrf ::
  "u8 list list option \<Rightarrow> u32 \<Rightarrow> 'a lnc_softc_scheme \<Rightarrow> 'a lnc_softc_scheme" where
  "lnc_setladrf addrs count s =
     (if has (flags s) LNC_IFF_ALLMULTI
      then s\<lparr>ladrb := replicate MULTICAST_FILTER_LEN PCNET_MULTI_INIT_ADDR\<rparr>
      else let s = s\<lparr>ladrb := replicate MULTICAST_FILTER_LEN 0\<rparr> in
           (case addrs of
              None \<Rightarrow> s
            | Some as \<Rightarrow> s\<lparr>ladrb := fold ladrf_set (take (unat count) as) (ladrb s)\<rparr>))"

definition ladrb_byte :: "env \<Rightarrow> 'a lnc_softc_scheme \<Rightarrow> nat \<Rightarrow> u8" where
  "ladrb_byte E s k = (if k < length (ladrb s) then ladrb s ! k else past_ladrb E (trace s) k)"

text \<open>The loop of \<open>lnc_set_multicast\<close> over \<open>i = LAF_START ..< LAF_START + 4\<close>.\<close>

fun write_laf :: "env \<Rightarrow> nat list \<Rightarrow> 'a lnc_softc_scheme \<Rightarrow> 'a lnc_softc_scheme" where
  "write_laf E [] s = s"
| "write_laf E (i # is) s =
     write_laf E is
       (write_csr E (of_nat i)
          (push_bit 8 (ucast (ladrb_byte E s (i * 2 + 1))) OR ucast (ladrb_byte E s (i * 2))) s)"

definition lnc_set_multicast ::
  "env \<Rightarrow> u8 list list option \<Rightarrow> u32 \<Rightarrow> 'a lnc_softc_scheme \<Rightarrow> 'a lnc_softc_scheme" where
  "lnc_set_multicast E addrs count s =
     pcnet32_start E
       (write_laf E [LAF_START..<LAF_START + 4]
         (lnc_setladrf addrs count (pcnet32_stop E s)))"

subsection \<open>The filter holds exactly the hash bits of its addresses\<close>

text \<open>
  The contract between the driver, which adds addresses, and the chip, which tests one hash
  bit of a frame's address: a bit is set when an address with that hash was added.
\<close>

locale hash_filter =
  fixes add :: "'k \<Rightarrow> 'f \<Rightarrow> 'f"
    and test :: "'f \<Rightarrow> nat \<Rightarrow> bool"
    and hash :: "'k \<Rightarrow> nat"
    and empty :: 'f
    and wf :: "'f \<Rightarrow> bool"
    and bits :: nat
  assumes wf_empty: "wf empty"
    and wf_add: "wf f \<Longrightarrow> wf (add k f)"
    and test_empty: "j < bits \<Longrightarrow> \<not> test empty j"
    and test_add: "wf f \<Longrightarrow> j < bits \<Longrightarrow> test (add k f) j \<longleftrightarrow> hash k = j \<or> test f j"
begin

lemma fold_add:
  "wf f \<Longrightarrow> wf (fold add ks f) \<and>
     (\<forall>j<bits. test (fold add ks f) j \<longleftrightarrow> (\<exists>k\<in>set ks. hash k = j) \<or> test f j)"
proof (induction ks arbitrary: f)
  case (Cons k ks)
  from Cons.IH[OF wf_add[OF Cons.prems, of k]] show ?case
    using Cons.prems by (auto simp: test_add)
qed simp

lemma build:
  "wf (fold add ks empty)"
  "j < bits \<Longrightarrow> test (fold add ks empty) j \<longleftrightarrow> (\<exists>k\<in>set ks. hash k = j)"
  using fold_add[OF wf_empty, of ks] by (simp_all add: test_empty)

end

definition ladrf_bit :: "u8 list \<Rightarrow> nat \<Rightarrow> bool" where
  "ladrf_bit f j \<longleftrightarrow> bit (f ! (j div 8)) (j mod 8)"

definition ladrf_hash :: "u8 list \<Rightarrow> nat" where
  "ladrf_hash a = unat (ladrf_index a)"

lemma ladrf_hash_bound: "ladrf_hash a < 64"
proof -
  have "ladrf_hash a = unat (ether_crc32_le (take ETHER_ADDR_LEN a)) div 2 ^ 26"
    unfolding ladrf_hash_def ladrf_index_def unat_drop_bit_eq by (simp only: drop_bit_eq_div)
  moreover have "unat (ether_crc32_le (take ETHER_ADDR_LEN a)) < 64 * 2 ^ 26"
    using unsigned_less[of "ether_crc32_le (take ETHER_ADDR_LEN a)"] by simp
  ultimately show ?thesis by (simp add: less_mult_imp_div_less)
qed

lemma ladrf_set_split:
  "ladrf_set a f =
     f[ladrf_hash a div 8 := f ! (ladrf_hash a div 8) OR push_bit (ladrf_hash a mod 8) 1]"
proof -
  have "unat (drop_bit 3 (ladrf_index a)) = ladrf_hash a div 8"
    unfolding ladrf_hash_def unat_drop_bit_eq by (simp add: drop_bit_eq_div)
  moreover have "ladrf_index a AND 7 = take_bit 3 (ladrf_index a)"
    by (simp add: take_bit_eq_mask mask_eq_exp_minus_1)
  then have "unat (ladrf_index a AND 7) = ladrf_hash a mod 8"
    unfolding ladrf_hash_def by (simp add: unsigned_take_bit_eq) (simp add: take_bit_eq_mod)
  ultimately show ?thesis by (simp add: ladrf_set_def Let_def)
qed

interpretation ladrf: hash_filter ladrf_set ladrf_bit ladrf_hash
    "replicate MULTICAST_FILTER_LEN 0" "\<lambda>f. length f = MULTICAST_FILTER_LEN" 64
proof
  fix f :: "u8 list" and a j
  show "length (ladrf_set a f) = MULTICAST_FILTER_LEN" if "length f = MULTICAST_FILTER_LEN"
    using that by (simp add: ladrf_set_split)
  show "\<not> ladrf_bit (replicate MULTICAST_FILTER_LEN 0) j" if "j < 64"
    using that by (simp add: ladrf_bit_def MULTICAST_FILTER_LEN_def less_mult_imp_div_less)
  assume f: "length f = MULTICAST_FILTER_LEN" and j: "j < 64"
  then have "j div 8 < length f"
    by (simp add: MULTICAST_FILTER_LEN_def less_mult_imp_div_less)
  moreover have "ladrf_hash a = j \<longleftrightarrow> ladrf_hash a div 8 = j div 8 \<and> ladrf_hash a mod 8 = j mod 8"
    by (metis div_mult_mod_eq)
  moreover have "ladrf_hash a mod 8 < 8" "j mod 8 < 8" by simp_all
  ultimately show "ladrf_bit (ladrf_set a f) j \<longleftrightarrow> ladrf_hash a = j \<or> ladrf_bit f j"
    by (cases "ladrf_hash a div 8 = j div 8"; cases "ladrf_hash a mod 8 = j mod 8")
      (simp_all add: ladrf_bit_def ladrf_set_split bit_simps)
qed simp

lemma lnc_setladrf_length [simp]:
  "length (ladrb (lnc_setladrf addrs count s)) = MULTICAST_FILTER_LEN"
  by (auto simp: lnc_setladrf_def Let_def ladrf.build(1) split: option.split)

lemma lnc_setladrf_bits:
  assumes "\<not> has (flags s) LNC_IFF_ALLMULTI" "j < 64"
  shows "ladrf_bit (ladrb (lnc_setladrf (Some as) count s)) j \<longleftrightarrow>
         (\<exists>a\<in>set (take (unat count) as). ladrf_hash a = j)"
  using assms by (simp add: lnc_setladrf_def Let_def ladrf.build(2))

lemma lnc_setladrf_trace [simp]:
  "trace (lnc_setladrf addrs count s) = trace s" "mem (lnc_setladrf addrs count s) = mem s"
  "dwio (lnc_setladrf addrs count s) = dwio s"
  by (auto simp: lnc_setladrf_def Let_def split: option.split)

subsection \<open>What is written to the chip\<close>

text \<open>
  \<open>lnc_set_multicast\<close> indexes \<^verbatim>\<open>ladrb\<close> with twice the register number, from 16 on, past its
  eight bytes: the events do not depend on the addresses.
\<close>

lemma ladrb_byte_past: "length (ladrb s) \<le> k \<Longrightarrow> ladrb_byte E s k = past_ladrb E (trace s) k"
  by (simp add: ladrb_byte_def)

lemma write_csr_trace: "trace s = trace t \<Longrightarrow> dwio s = dwio t \<Longrightarrow>
    trace (write_csr E p v s) = trace (write_csr E p v t)"
  by (simp add: drv_ops)

lemma write_laf_trace:
  assumes "trace s = trace t" "dwio s = dwio t" "length (ladrb s) = MULTICAST_FILTER_LEN"
    "length (ladrb t) = MULTICAST_FILTER_LEN" "\<forall>i\<in>set is. LAF_START \<le> i"
  shows "trace (write_laf E is s) = trace (write_laf E is t) \<and> dwio (write_laf E is s) = dwio (write_laf E is t)"
  using assms
proof (induction "is" arbitrary: s t)
  case (Cons i "is")
  have k: "MULTICAST_FILTER_LEN \<le> i * 2" using Cons.prems(5) by (simp add: hw_consts)
  have b: "ladrb_byte E s (i * 2 + d) = ladrb_byte E t (i * 2 + d)" for d
    using k Cons.prems by (simp add: ladrb_byte_past)
  show ?case
    using Cons.prems b[of 0] b[of 1] by (simp, intro Cons.IH write_csr_trace) simp_all
qed simp

lemma lnc_set_multicast_trace:
  "trace (lnc_set_multicast E a m s) = trace (lnc_set_multicast E b n s)"
proof -
  have "trace (write_laf E [LAF_START..<LAF_START + 4] (lnc_setladrf a m (pcnet32_stop E s)))
      = trace (write_laf E [LAF_START..<LAF_START + 4] (lnc_setladrf b n (pcnet32_stop E s))) \<and>
    dwio (write_laf E [LAF_START..<LAF_START + 4] (lnc_setladrf a m (pcnet32_stop E s)))
      = dwio (write_laf E [LAF_START..<LAF_START + 4] (lnc_setladrf b n (pcnet32_stop E s)))"
    by (rule write_laf_trace) simp_all
  then show ?thesis
    unfolding lnc_set_multicast_def pcnet32_start_def by (intro write_csr_trace) simp_all
qed

end
