(* ===== verification/Ring.thy ===== *)
theory Ring
  imports Driver_State "HOL-Library.Monad_Syntax"
begin

text \<open>
  Cyclic walks over a descriptor ring: the pointer macros of \<^verbatim>\<open>PCNet_lnc.h\<close> and the three
  loop shapes the receive and transmit handlers build from them. A loop that the code does
  not bound is a partial function, where \<open>None\<close> means that it never returns; the lemmas say
  exactly when it does and what it computes then.
\<close>

unbundle bit_operations_syntax

subsection \<open>The pointer macros\<close>

definition LNC_INC_MD_PTR :: "nat \<Rightarrow> nat \<Rightarrow> nat" where
  "LNC_INC_MD_PTR ptr no_entries =
     (let ptr = ptr + 1 in if LNC_NDESC no_entries \<le> ptr then 0 else ptr)"

definition LNC_DEC_MD_PTR :: "int \<Rightarrow> nat \<Rightarrow> int" where
  "LNC_DEC_MD_PTR ptr no_entries =
     (let ptr = ptr - 1 in if ptr < 0 then int (LNC_NDESC no_entries) - 1 else ptr)"

lemma LNC_NDESC_pos [simp]: "0 < LNC_NDESC n"
  by (simp add: LNC_NDESC_def)

lemma LNC_INC_mod: "i < LNC_NDESC n \<Longrightarrow> LNC_INC_MD_PTR i n = Suc i mod LNC_NDESC n"
  by (auto simp: LNC_INC_MD_PTR_def Let_def mod_Suc)

lemma LNC_INC_less [simp]: "LNC_INC_MD_PTR i n < LNC_NDESC n"
  by (simp add: LNC_INC_MD_PTR_def Let_def)

lemma LNC_INC_inj:
  "i < LNC_NDESC n \<Longrightarrow> j < LNC_NDESC n \<Longrightarrow> LNC_INC_MD_PTR i n = LNC_INC_MD_PTR j n \<Longrightarrow> i = j"
  by (auto simp: LNC_INC_MD_PTR_def Let_def split: if_splits)

lemma LNC_DEC_INC: "i < LNC_NDESC n \<Longrightarrow> LNC_DEC_MD_PTR (int (LNC_INC_MD_PTR i n)) n = int i"
  by (auto simp: LNC_DEC_MD_PTR_def LNC_INC_MD_PTR_def Let_def)

subsection \<open>Segments of the ring\<close>

text \<open>\<open>cyc_seg N i k\<close>: the \<open>k\<close> indices from \<open>i\<close> on, around a ring of \<open>N\<close>.\<close>

definition cyc_seg :: "nat \<Rightarrow> nat \<Rightarrow> nat \<Rightarrow> nat list" where
  "cyc_seg N i k = map (\<lambda>l. (i + l) mod N) [0..<k]"

definition cyc_dist :: "nat \<Rightarrow> nat \<Rightarrow> nat \<Rightarrow> nat" where
  "cyc_dist N i j = (j + N - i) mod N"

lemma cyc_seg_0 [simp]: "cyc_seg N i 0 = []"
  by (simp add: cyc_seg_def)

lemma cyc_seg_length [simp]: "length (cyc_seg N i k) = k"
  by (simp add: cyc_seg_def)

lemma cyc_seg_Suc: "i < N \<Longrightarrow> cyc_seg N i (Suc k) = i # cyc_seg N (Suc i mod N) k"
proof -
  assume i: "i < N"
  have "cyc_seg N i (Suc k) = i mod N # map (\<lambda>l. (i + Suc l) mod N) [0..<k]"
    by (simp add: cyc_seg_def upt_conv_Cons map_Suc_upt[symmetric] comp_def del: upt_Suc)
  also have "\<dots> = i # cyc_seg N (Suc i mod N) k"
    using i by (simp add: cyc_seg_def mod_simps)
  finally show ?thesis .
qed

lemma cyc_seg_nth: "l < k \<Longrightarrow> cyc_seg N i k ! l = (i + l) mod N"
  by (simp add: cyc_seg_def)

lemma cyc_seg_less: "0 < N \<Longrightarrow> j \<in> set (cyc_seg N i k) \<Longrightarrow> j < N"
  by (auto simp: cyc_seg_def)

lemma cyc_seg_distinct: "k \<le> N \<Longrightarrow> distinct (cyc_seg N i k)"
  by (auto simp: cyc_seg_def distinct_map inj_on_def dest!: cyc_inj)

lemma cyc_seg_append: "cyc_seg N i (j + k) = cyc_seg N i j @ cyc_seg N ((i + j) mod N) k"
proof (rule nth_equalityI)
  fix l assume "l < length (cyc_seg N i (j + k))"
  then show "cyc_seg N i (j + k) ! l = (cyc_seg N i j @ cyc_seg N ((i + j) mod N) k) ! l"
  proof (cases "l < j")
    case False
    then obtain l' where "l = j + l'" by (metis le_add_diff_inverse not_less)
    then show ?thesis
      using \<open>l < length (cyc_seg N i (j + k))\<close>
      by (simp add: cyc_seg_nth nth_append mod_simps add.assoc)
  qed (simp add: cyc_seg_nth nth_append)
qed simp

lemma cyc_dist_cases:
  "i < N \<Longrightarrow> j < N \<Longrightarrow> cyc_dist N i j = (if i \<le> j then j - i else j + N - i)"
proof -
  assume a: "i < N" "j < N"
  show ?thesis
  proof (cases "i \<le> j")
    case True
    then have "j + N - i = (j - i) + N" by simp
    with a True show ?thesis by (simp only: cyc_dist_def mod_add_self2) simp
  next
    case False
    with a show ?thesis by (simp add: cyc_dist_def)
  qed
qed

lemma cyc_add_cases:
  "i < N \<Longrightarrow> k \<le> N \<Longrightarrow> (i + k) mod N = (if i + k < N then i + k else i + k - N)"
  for i k N :: nat
proof -
  assume a: "i < N" "k \<le> N"
  show ?thesis
  proof (cases "i + k < N")
    case False
    with a have "i + k - N < N" and "N \<le> i + k" by linarith+
    with False show ?thesis by (simp add: le_mod_geq)
  qed simp
qed

lemma cyc_dist_less: "0 < N \<Longrightarrow> cyc_dist N i j < N"
  by (simp add: cyc_dist_def)

lemma cyc_dist_0: "i < N \<Longrightarrow> j < N \<Longrightarrow> cyc_dist N i j = 0 \<longleftrightarrow> i = j"
  by (auto simp: cyc_dist_cases)

lemma cyc_dist_Suc:
  "i < N \<Longrightarrow> j < N \<Longrightarrow> i \<noteq> j \<Longrightarrow> cyc_dist N i j = Suc (cyc_dist N (Suc i mod N) j)"
  by (cases "Suc i = N") (auto simp: cyc_dist_cases)

lemma cyc_dist_add: "i < N \<Longrightarrow> k < N \<Longrightarrow> cyc_dist N i ((i + k) mod N) = k"
  by (auto simp: cyc_add_cases cyc_dist_cases)

lemma cyc_dist_reach: "i < N \<Longrightarrow> j < N \<Longrightarrow> (i + cyc_dist N i j) mod N = j"
  by (auto simp: cyc_dist_cases)

subsection \<open>\<open>while (i != stop) { body; INC(i) }\<close>\<close>

partial_function (option) while_ring ::
  "(nat \<Rightarrow> 's \<Rightarrow> 's) \<Rightarrow> nat \<Rightarrow> nat \<Rightarrow> nat \<Rightarrow> 's \<Rightarrow> 's option" where
  "while_ring body n i stop s =
     (if i = stop then Some s else while_ring body n (LNC_INC_MD_PTR i n) stop (body i s))"

lemma while_ring_seg:
  assumes "i < LNC_NDESC n" "stop < LNC_NDESC n"
  shows "while_ring body n i stop s =
         Some (fold body (cyc_seg (LNC_NDESC n) i (cyc_dist (LNC_NDESC n) i stop)) s)"
  using assms
proof (induction "cyc_dist (LNC_NDESC n) i stop" arbitrary: i s)
  case 0
  then have "i = stop" by (simp add: cyc_dist_0)
  with 0 show ?case by (simp add: while_ring.simps)
next
  case (Suc d)
  let ?N = "LNC_NDESC n"
  from Suc.hyps(2) Suc.prems have ne: "i \<noteq> stop" by (auto simp: cyc_dist_0 [symmetric])
  with Suc.prems have d: "cyc_dist ?N i stop = Suc (cyc_dist ?N (Suc i mod ?N) stop)"
    by (simp add: cyc_dist_Suc)
  have "while_ring body n i stop s = while_ring body n (Suc i mod ?N) stop (body i s)"
    using ne Suc.prems by (simp add: while_ring.simps[of _ _ i] LNC_INC_mod)
  also have "\<dots> = Some (fold body (cyc_seg ?N (Suc i mod ?N) (cyc_dist ?N (Suc i mod ?N) stop)) (body i s))"
    using Suc d by (intro Suc.hyps) simp_all
  finally show ?case using Suc.prems by (simp add: d cyc_seg_Suc)
qed

subsection \<open>\<open>do { body; INC(i) } while (i != stop)\<close>\<close>

definition do_ring :: "(nat \<Rightarrow> 's \<Rightarrow> 's) \<Rightarrow> nat \<Rightarrow> nat \<Rightarrow> nat \<Rightarrow> 's \<Rightarrow> 's option" where
  "do_ring body n i stop s = while_ring body n (LNC_INC_MD_PTR i n) stop (body i s)"

text \<open>The body runs at least once, so equal ends mean the whole ring.\<close>

lemma do_ring_seg:
  assumes "i < LNC_NDESC n" "stop < LNC_NDESC n"
  shows "do_ring body n i stop s =
         Some (fold body (cyc_seg (LNC_NDESC n) i
           (if i = stop then LNC_NDESC n else cyc_dist (LNC_NDESC n) i stop)) s)"
proof -
  let ?N = "LNC_NDESC n" and ?i = "Suc i mod LNC_NDESC n"
  have "do_ring body n i stop s = Some (fold body (cyc_seg ?N i (Suc (cyc_dist ?N ?i stop))) s)"
    using assms by (simp add: do_ring_def LNC_INC_mod while_ring_seg cyc_seg_Suc)
  moreover have "Suc (cyc_dist ?N ?i stop) = (if i = stop then ?N else cyc_dist ?N i stop)"
    using assms by (cases "Suc i = LNC_NDESC n") (auto simp: cyc_dist_cases)
  ultimately show ?thesis by simp
qed

subsection \<open>\<open>do { INC(i) } while (!P(i))\<close>\<close>

partial_function (option) find_where :: "(nat \<Rightarrow> bool) \<Rightarrow> nat \<Rightarrow> nat \<Rightarrow> nat option" where
  "find_where hit n i =
     (let i = LNC_INC_MD_PTR i n in if hit i then Some i else find_where hit n i)"

text \<open>The \<open>k\<close>-th index after \<open>i\<close> is the first that satisfies \<open>P\<close>.\<close>

definition first_where :: "(nat \<Rightarrow> bool) \<Rightarrow> nat \<Rightarrow> nat \<Rightarrow> nat \<Rightarrow> bool" where
  "first_where P N i k \<longleftrightarrow>
     1 \<le> k \<and> k \<le> N \<and> P ((i + k) mod N) \<and> (\<forall>l\<in>{1..<k}. \<not> P ((i + l) mod N))"

lemma find_where_step:
  "i < LNC_NDESC n \<Longrightarrow>
   find_where P n i =
     (if P (Suc i mod LNC_NDESC n) then Some (Suc i mod LNC_NDESC n)
      else find_where P n (Suc i mod LNC_NDESC n))"
  by (subst find_where.simps) (simp add: LNC_INC_mod Let_def)

lemma find_where_skip:
  assumes "i < LNC_NDESC n" "\<forall>l\<in>{1..k}. \<not> P ((i + l) mod LNC_NDESC n)"
  shows "find_where P n i = find_where P n ((i + k) mod LNC_NDESC n)"
  using assms
proof (induction k)
  case 0
  then show ?case by simp
next
  case (Suc k)
  let ?N = "LNC_NDESC n"
  have "find_where P n i = find_where P n ((i + k) mod ?N)"
    using Suc by simp
  also have "\<dots> = find_where P n ((i + Suc k) mod ?N)"
  proof -
    have "\<not> P ((i + Suc k) mod ?N)"
      using Suc.prems(2) by (rule bspec) simp
    then show ?thesis
      using find_where_step[of "(i + k) mod ?N" n P] by (simp add: mod_simps)
  qed
  finally show ?case .
qed

lemma find_where_first:
  assumes i: "i < LNC_NDESC n" and k: "first_where P (LNC_NDESC n) i k"
  shows "find_where P n i = Some ((i + k) mod LNC_NDESC n)"
proof -
  let ?N = "LNC_NDESC n"
  obtain k' where k': "k = Suc k'" using k by (cases k) (auto simp: first_where_def)
  have "find_where P n i = find_where P n ((i + k') mod ?N)"
    using i k by (intro find_where_skip) (auto simp: first_where_def k')
  also have "\<dots> = Some ((i + k) mod ?N)"
    using k find_where_step[of "(i + k') mod ?N" n P]
    by (simp add: first_where_def k' mod_simps)
  finally show ?thesis .
qed

lemma first_where_exists:
  assumes "j < N" "P j"
  shows "\<exists>k. first_where P N i k"
proof -
  define Q where "Q k \<longleftrightarrow> 1 \<le> k \<and> P ((i + k) mod N)" for k
  obtain k where k: "1 \<le> k" "k \<le> N" "(i + k) mod N = j"
    using cyc_onto[OF assms(1), of i] by blast
  with assms(2) have Q: "Q k" by (simp add: Q_def)
  have "Q (Least Q)" using Q by (rule LeastI)
  moreover have "Least Q \<le> N" using Least_le[of Q, OF Q] k(2) by linarith
  moreover have "\<not> P ((i + l) mod N)" if "l \<in> {1..<Least Q}" for l
  proof -
    have "\<not> Q l" using that by (intro not_less_Least) simp
    then show ?thesis using that by (simp add: Q_def)
  qed
  ultimately have "first_where P N i (Least Q)"
    by (simp add: first_where_def Q_def)
  then show ?thesis ..
qed

text \<open>When no index of the ring satisfies \<open>P\<close>, the scan never returns.\<close>

lemma find_where_diverges:
  assumes "\<forall>j<LNC_NDESC n. \<not> P j"
  shows "find_where P n i = None"
proof -
  have none: "\<not> (P' = P \<and> n' = n)" if "find_where P' n' i = Some r" for P' n' i r
  proof (rule find_where.raw_induct[where P = "\<lambda>P' n' i r. \<not> (P' = P \<and> n' = n)",
        OF _ that])
    fix f P' n' i r
    assume IH: "\<And>P' n' i r. f P' n' i = Some r \<Longrightarrow> \<not> (P' = P \<and> n' = n)"
      and eq: "(let i = LNC_INC_MD_PTR i n' in if P' i then Some i else f P' n' i) = Some r"
    show "\<not> (P' = P \<and> n' = n)"
      using assms IH[of P' n' "LNC_INC_MD_PTR i n'" r] eq by (auto simp: Let_def split: if_splits)
  qed
  show ?thesis
  proof (cases "find_where P n i")
    case (Some r)
    from none[OF this] show ?thesis by simp
  qed
qed

lemma find_where_None_iff:
  assumes "i < LNC_NDESC n"
  shows "find_where P n i = None \<longleftrightarrow> (\<forall>j<LNC_NDESC n. \<not> P j)"
  using find_where_diverges find_where_first[OF assms] first_where_exists
  by (metis option.distinct(1))

lemma find_where_Some:
  assumes "find_where P n i = Some j"
  shows "j < LNC_NDESC n \<and> P j"
proof -
  have "j < LNC_NDESC n' \<and> hit j" if "find_where hit n' i = Some j" for hit n' i j
  proof (rule find_where.raw_induct[where P = "\<lambda>hit n' i j. j < LNC_NDESC n' \<and> hit j", OF _ that])
    fix f hit n' i j
    assume IH: "\<And>hit n' i j. f hit n' i = Some j \<Longrightarrow> j < LNC_NDESC n' \<and> hit j"
      and eq: "(let i = LNC_INC_MD_PTR i n' in if hit i then Some i else f hit n' i) = Some j"
    show "j < LNC_NDESC n' \<and> hit j"
      using eq IH[of hit n' "LNC_INC_MD_PTR i n'" j] by (auto simp: Let_def split: if_splits)
  qed
  with assms show ?thesis by blast
qed

end
