(* ===== verification/Lnc_Init.thy ===== *)
theory Lnc_Init
  imports Multicast Ring
begin

text \<open>
  Bringing the controller up (\<^verbatim>\<open>PCNet_lnc.cpp\<close>): allocation of the descriptor memory and its
  carving into rings, init block and buffers; \<open>lnc_init\<close>, which fills them and hands them to
  the chip; reset, medium, link and promiscuous-mode operations that go through it.
\<close>

unbundle bit_operations_syntax

subsection \<open>Allocation\<close>

definition lnc_mem_size :: "nat \<Rightarrow> nat \<Rightarrow> nat" where
  "lnc_mem_size rlen tlen =
     (LNC_NDESC rlen + LNC_NDESC tlen) * sizeof_host_ring_entry
     + (sizeof_init_block + sizeof_mds * (LNC_NDESC rlen + LNC_NDESC tlen)
        + LNC_MEM_SLEW + 0x20)
     + (LNC_NDESC rlen * LNC_RECVBUFSIZE + LNC_NDESC tlen * LNC_TRANSBUFSIZE)"

definition lnc_attach_common :: "'a lnc_softc_scheme \<Rightarrow> bool \<times> 'a lnc_softc_scheme" where
  [drv_ops]: "lnc_attach_common s =
     (True, s\<lparr>nic_mode := MODE_NORMAL,
              if_flags := LNC_IFF_BROADCAST OR LNC_IFF_SIMPLEX OR LNC_IFF_MULTICAST,
              ladrb := replicate MULTICAST_FILTER_LEN 0\<rparr>)"

definition lnc_pci_attach :: "env \<Rightarrow> 'a lnc_softc_scheme \<Rightarrow> bool \<times> 'a lnc_softc_scheme" where
  [drv_ops]: "lnc_pci_attach E s =
     (let s = s\<lparr>nrdre := LNC_NRDRE, ntdre := LNC_NTDRE\<rparr>;
          (ok, s) = os_call E (Kernel ''withOptions'') s;
          s = s\<lparr>memDescr := ok\<rparr>
      in if \<not> ok then (False, s)
         else let (ok, s) = os_call E (Kernel ''prepare'') s
         in if \<not> ok then (False, s)
         else let s = s\<lparr>ring_base := block_base E (trace s)\<rparr>;
                  (ok, s) = lnc_attach_common s
              in if \<not> ok then (False, s) else (True, s))"

subsection \<open>Carving up the memory\<close>

text \<open>\<open>for (i = 0; i < n; i++) { x[i] = p; p += size; }\<close>\<close>

fun carve :: "u32 \<Rightarrow> nat \<Rightarrow> nat \<Rightarrow> u32 list \<times> u32" where
  "carve p sz 0 = ([], p)"
| "carve p sz (Suc n) = (let (xs, q) = carve (p + of_nat sz) sz n in (p # xs, q))"

definition iokit_kvtop :: "env \<Rightarrow> u32 \<Rightarrow> u32 \<Rightarrow> u32" where
  "iokit_kvtop E start adr = physSegment E (adr - start)"

definition trans_ring_at :: "u32 \<Rightarrow> nat \<Rightarrow> u32" where
  "trans_ring_at base rlen = base + of_nat (LNC_NDESC rlen * sizeof_host_ring_entry)"

definition init_block_at :: "u32 \<Rightarrow> nat \<Rightarrow> nat \<Rightarrow> u32" where
  "init_block_at base rlen tlen =
     (let lnc_mem = trans_ring_at base rlen + of_nat (LNC_NDESC tlen * sizeof_host_ring_entry);
          lnc_mem = (lnc_mem + 1) AND NOT 1
      in lnc_mem AND NOT 1)"

definition descriptors_at :: "u32 \<Rightarrow> nat \<Rightarrow> nat \<Rightarrow> u32" where
  "descriptors_at base rlen tlen =
     (let lnc_mem = init_block_at base rlen tlen + of_nat sizeof_init_block
      in (lnc_mem + 0xF) AND NOT 0xF)"

definition carve_rings :: "'a lnc_softc_scheme \<Rightarrow> 'a lnc_softc_scheme" where
  "carve_rings s =
     (let lnc_mem = descriptors_at (ring_base s) (nrdre s) (ntdre s);
          (rmds, lnc_mem) = carve lnc_mem sizeof_mds (LNC_NDESC (nrdre s));
          (tmds, lnc_mem) = carve lnc_mem sizeof_mds (LNC_NDESC (ntdre s));
          (rbuf, lnc_mem) = carve lnc_mem LNC_RECVBUFSIZE (LNC_NDESC (nrdre s));
          (tbuf, lnc_mem) = carve lnc_mem LNC_TRANSBUFSIZE (LNC_NDESC (ntdre s))
      in s\<lparr>init_block_addr := init_block_at (ring_base s) (nrdre s) (ntdre s),
           recv_ring := map2 (\<lambda>m d. \<lparr>hre_md = m, hre_data = d\<rparr>) rmds rbuf,
           trans_ring := map2 (\<lambda>m d. \<lparr>hre_md = m, hre_data = d\<rparr>) tmds tbuf\<rparr>)"

definition init_rx_md :: "env \<Rightarrow> nat \<Rightarrow> 'a lnc_softc_scheme \<Rightarrow> 'a lnc_softc_scheme" where
  "init_rx_md E i s =
     upd_rx_md i (\<lambda>d. d\<lparr>mds_buffer := iokit_kvtop E (ring_base s) (hre_data (recv_ring s ! i)),
                         mds_length := - of_nat LNC_RECVBUFSIZE,
                         mds_status := RMD_OWN,
                         mds_misc := 0\<rparr>) s"

definition init_tx_md :: "env \<Rightarrow> nat \<Rightarrow> 'a lnc_softc_scheme \<Rightarrow> 'a lnc_softc_scheme" where
  "init_tx_md E i s =
     upd_tx_md i (\<lambda>d. set_ext_status 0
                        (d\<lparr>mds_buffer := iokit_kvtop E (ring_base s) (hre_data (trans_ring s ! i)),
                           mds_length := 0,
                           mds_status := 0\<rparr>)) s"

definition init_rings :: "env \<Rightarrow> 'a lnc_softc_scheme \<Rightarrow> 'a lnc_softc_scheme" where
  "init_rings E s =
     (let s = carve_rings (s\<lparr>recv_next := 0, trans_next := 0\<rparr>);
          s = fold (init_rx_md E) [0..<LNC_NDESC (nrdre s)] s;
          s = fold (init_tx_md E) [0..<LNC_NDESC (ntdre s)] s
      in s\<lparr>next_to_send := 0\<rparr>)"

subsection \<open>Medium and link\<close>

definition lnc_set_medium :: "env \<Rightarrow> u32 \<Rightarrow> 'a lnc_softc_scheme \<Rightarrow> bool \<times> 'a lnc_softc_scheme" where
  [drv_ops]: "lnc_set_medium E mediumIndex s =
     (let (val, s) = read_bcr E FDCTL s
      in (True,
          if mediumIndex = MEDIUM_INDEX_10_FD
          then write_bcr E FDCTL (val OR FDCTL_AUIFD OR FDCTL_FDEN) s
          else if mediumIndex = MEDIUM_INDEX_10_HD
          then write_bcr E FDCTL (val AND NOT (FDCTL_AUIFD OR FDCTL_FDEN)) s
          else s))"

definition lnc_get_medium :: "env \<Rightarrow> 'a lnc_softc_scheme \<Rightarrow> u32 \<times> 'a lnc_softc_scheme" where
  [drv_ops]: "lnc_get_medium E s =
     (let (val, s) = read_bcr E FDCTL s
      in (if has val FDCTL_FDEN then MEDIUM_INDEX_10_FD else MEDIUM_INDEX_10_HD, s))"

definition lnc_is_medium_available :: "env \<Rightarrow> 'a lnc_softc_scheme \<Rightarrow> bool \<times> 'a lnc_softc_scheme" where
  [drv_ops]: "lnc_is_medium_available E s =
     (let (val, s) = read_bcr E LNKST s in (has val LNKST_LEDOUT, s))"

subsection \<open>\<open>lnc_init\<close>\<close>

text \<open>Detection of the port width, from the stopped chip.\<close>

definition detect_dwio :: "env \<Rightarrow> 'a lnc_softc_scheme \<Rightarrow> 'a lnc_softc_scheme" where
  "detect_dwio E s =
     (let (v, s) = read_csr_wio E 0 s;
          (wio, s) = (if v = 4 then pcnet32_check_wio E s else (False, s))
      in if wio then s\<lparr>dwio := False\<rparr>
         else let (v, s) = read_csr_dwio E 0 s;
                  (ok, s) = (if v = 4 then pcnet32_check_wio E s else (False, s))
              in if ok then s\<lparr>dwio := True\<rparr> else s\<lparr>dwio := True\<rparr>)"

fun read_prom :: "env \<Rightarrow> nat list \<Rightarrow> 'a hist_scheme \<Rightarrow> u8 list \<times> 'a hist_scheme" where
  "read_prom E [] s = ([], s)"
| "read_prom E (i # is) s =
     (let (b, s) = csrRead8 E (of_nat i) s; (bs, s) = read_prom E is s in (b # bs, s))"

definition fill_init_block :: "env \<Rightarrow> 'a lnc_softc_scheme \<Rightarrow> 'a lnc_softc_scheme" where
  "fill_init_block E s =
     (let (adr, s) = read_prom E [0..<ETHER_ADDR_LEN] s
      in s\<lparr>init_block :=
           \<lparr>ib_mode = ucast (nic_mode s),
            ib_tlen_rlen = push_bit 12 (of_nat (ntdre s)) OR push_bit 4 (of_nat (nrdre s)),
            ib_phys_addr = adr,
            ib_ladrb = ladrb s,
            ib_rx_ring = iokit_kvtop E (ring_base s) (hre_md (recv_ring s ! 0)),
            ib_tx_ring = iokit_kvtop E (ring_base s) (hre_md (trans_ring s ! 0))\<rparr>\<rparr>)"

text \<open>The part of \<open>lnc_init\<close> that prepares memory, before the chip is programmed.\<close>

definition prepare_init :: "env \<Rightarrow> 'a lnc_softc_scheme \<Rightarrow> 'a lnc_softc_scheme" where
  "prepare_init E s =
     (let s = pcnet32_stop E s;
          s = detect_dwio E s;
          s = s\<lparr>if_flags := if_flags s OR (LNC_IFF_BROADCAST OR LNC_IFF_SIMPLEX OR LNC_IFF_MULTICAST)\<rparr>;
          s = init_rings E s;
          s = fill_init_block E s
      in s\<lparr>flags := flags s OR LNC_INITIALISED, pending_transmits := 0\<rparr>)"

fun poll_idon :: "env \<Rightarrow> nat \<Rightarrow> 'a lnc_softc_scheme \<Rightarrow> 'a lnc_softc_scheme" where
  "poll_idon E 0 s = s"
| "poll_idon E (Suc n) s =
     (let (v, s) = read_csr E CSR s in if has v CSR_IDON then s else poll_idon E n s)"

definition load_init_address :: "env \<Rightarrow> 'a lnc_softc_scheme \<Rightarrow> 'a lnc_softc_scheme" where
  "load_init_address E s =
     (let s = pcnet32_reset E s;
          s = write_bcr E 20 2 s;
          (_, s) = lnc_set_medium E MEDIUM_INDEX_10_FD s;
          (val, s) = read_bcr E LNKST s;
          s = write_bcr E LNKST (val OR LNKST_FDLSE OR LNKST_LNKSTE) s;
          ib = iokit_kvtop E (ring_base s) (init_block_addr s);
          s = write_csr E INIT_BLOCK_ADDRESS_LOW (ucast (ib AND 0xffff)) s;
          s = write_csr E INIT_BLOCK_ADDRESS_HIGH (ucast (drop_bit 16 ib)) s
      in write_csr E FEATURE_CONTROL
           (CSR4_APAD_XMT OR CSR4_MFCOM OR CSR4_RCVCCOM OR CSR4_TXSTRTM OR CSR4_JABM) s)"

definition program_chip :: "env \<Rightarrow> 'a lnc_softc_scheme \<Rightarrow> 'a lnc_softc_scheme" where
  "program_chip E s = poll_idon E 1000 (write_csr E CSR CSR_INIT (load_init_address E s))"

definition lnc_init :: "env \<Rightarrow> pcnet \<Rightarrow> pcnet" where
  "lnc_init E s =
     (let s = program_chip E (prepare_init E s);
          (v, s) = read_csr E CSR s
      in if has v CSR_IDON
         then let s = pcnet32_start E s;
                  s = s\<lparr>if_drv_flags := (if_drv_flags s OR LNC_IFF_DRV_RUNNING) AND NOT LNC_IFF_DRV_OACTIVE\<rparr>
              in if transmitQueue s then emit E (QService True) s else s
         else s)"

definition lnc_reset :: "env \<Rightarrow> pcnet \<Rightarrow> pcnet" where
  "lnc_reset E s = lnc_init E (emit E (Sleep 20) (pcnet32_reset E (pcnet32_stop E s)))"

definition lnc_set_promiscuous_mode :: "env \<Rightarrow> bool \<Rightarrow> pcnet \<Rightarrow> pcnet" where
  "lnc_set_promiscuous_mode E enable s =
     (if enable
      then lnc_init E (s\<lparr>if_flags := if_flags s OR LNC_IFF_PROMISC, nic_mode := nic_mode s OR MODE_PROM\<rparr>)
      else if has (if_flags s) LNC_IFF_PROMISC
      then lnc_init E (s\<lparr>if_flags := if_flags s AND NOT LNC_IFF_PROMISC,
                         nic_mode := nic_mode s AND NOT MODE_PROM\<rparr>)
      else s)"

subsection \<open>Watchdog, shutdown and release\<close>

definition lnc_watchdog :: "env \<Rightarrow> pcnet \<Rightarrow> pcnet" where
  [drv_ops]: "lnc_watchdog E s =
     (if transmitQueue s \<and> pending_transmits s \<noteq> 0 then emit E (QService True) s else s)"

text \<open>
  The condition of \<open>lnc_down\<close> parses as \<open>if_drv_flags & (LNC_IFF_DRV_RUNNING != 0)\<close>.
\<close>

definition lnc_down :: "env \<Rightarrow> 'a lnc_softc_scheme \<Rightarrow> 'a lnc_softc_scheme" where
  [drv_ops]: "lnc_down E s =
     (let s = pcnet32_stop E s
      in if has (if_drv_flags s) (if LNC_IFF_DRV_RUNNING \<noteq> 0 then 1 else 0)
         then s\<lparr>if_drv_flags := if_drv_flags s AND NOT LNC_IFF_DRV_RUNNING\<rparr>
         else s)"

text \<open>\<open>None\<close>: a call through the null pointer \<open>sc.memDescr\<close>.\<close>

definition lnc_release_resources :: "env \<Rightarrow> 'a lnc_softc_scheme \<Rightarrow> 'a lnc_softc_scheme option" where
  [drv_ops]: "lnc_release_resources E s =
     (if memDescr s
      then Some ((emit E (Kernel ''release'') (emit E (Kernel ''complete'') s))
             \<lparr>memDescr := False, ring_base := 0, recv_ring := [], trans_ring := []\<rparr>)
      else None)"

end
