(* ===== verification/Phy.thy ===== *)
theory Phy
  imports Lnc_Init
begin

text \<open>
  Media and link status (\<^verbatim>\<open>PCNet_PHY.cpp\<close>, and \<open>selectMedium\<close> of \<^verbatim>\<open>PCNet.cpp\<close>): the medium table,
  the current medium, and the periodic link report.
\<close>

unbundle bit_operations_syntax

definition phyAddMediumType :: "env \<Rightarrow> medium_type \<Rightarrow> nat \<Rightarrow> u32 \<Rightarrow> pcnet \<Rightarrow> bool \<times> pcnet" where
  "phyAddMediumType E type bps index s =
     (let (ok, s) = os_call E (Kernel ''medium'') s in
      if ok then
        let medium = \<lparr>md_type = type, md_bps = bps, md_index = index\<rparr>;
            (ret, s) = os_call E (Kernel ''addMedium'') s;
            s = (if ret then s\<lparr>mediumTable := (mediumTable s)(index := Some medium)\<rparr> else s)
        in (ret, emit E (Kernel ''release'') s)
      else (False, s))"

definition kMbScale :: nat where
  "kMbScale = 1000000"

definition phyProbeMediaCapability :: "env \<Rightarrow> pcnet \<Rightarrow> pcnet" where
  "phyProbeMediaCapability E s =
     (let (_, s) = phyAddMediumType E IOMediumEthernet10BaseT_HalfDuplex (10 * kMbScale) MEDIUM_INDEX_10_HD s;
          (_, s) = phyAddMediumType E IOMediumEthernet10BaseT_FullDuplex (10 * kMbScale) MEDIUM_INDEX_10_FD s
      in s)"

definition phyReset :: bool where
  "phyReset = True"

definition phySetMedium :: "env \<Rightarrow> u32 \<Rightarrow> pcnet \<Rightarrow> bool \<times> pcnet" where
  "phySetMedium E mediumIndex s =
     (if mediumIndex = currentMediumIndex s then (True, s)
      else let (success, s) = lnc_set_medium E mediumIndex s
           in (success, if success then s\<lparr>currentMediumIndex := mediumIndex\<rparr> else s))"

definition phySetMedium_medium :: "env \<Rightarrow> medium \<Rightarrow> pcnet \<Rightarrow> bool \<times> pcnet" where
  "phySetMedium_medium E m s = phySetMedium E (md_index m) s"

definition phyGetMediumWithIndex :: "u32 \<Rightarrow> pcnet \<Rightarrow> medium option" where
  "phyGetMediumWithIndex index s = (if index < MEDIUM_INDEX_COUNT then mediumTable s index else None)"

definition phyReportLinkStatus :: "env \<Rightarrow> bool \<Rightarrow> pcnet \<Rightarrow> pcnet" where
  "phyReportLinkStatus E forceStatusReport s =
     (let (available, s) = lnc_is_medium_available E s in
      if available then
        let s = lnc_watchdog E s;
            (activeMediumIndex, s) = lnc_get_medium E s;
            s = (if forceStatusReport \<or> activeMediumIndex \<noteq> mediumIndexLastReported s
                 then emit E (SetLinkStatus {kIONetworkLinkValid, kIONetworkLinkActive}
                                (phyGetMediumWithIndex activeMediumIndex s)) s
                 else s)
        in s\<lparr>mediumIndexLastReported := activeMediumIndex\<rparr>
      else if forceStatusReport \<or> mediumIndexLastReported s \<noteq> MEDIUM_INDEX_NONE
      then (emit E (SetLinkStatus {kIONetworkLinkValid} None) s)\<lparr>mediumIndexLastReported := MEDIUM_INDEX_NONE\<rparr>
      else s)"

definition selectMedium :: "env \<Rightarrow> medium option \<Rightarrow> pcnet \<Rightarrow> io_return \<times> pcnet" where
  "selectMedium E medium s =
     (let medium = (case medium of None \<Rightarrow> phyGetMediumWithIndex MEDIUM_INDEX_DEFAULT s | Some m \<Rightarrow> Some m) in
      case medium of
        None \<Rightarrow> (kIOReturnUnsupported, s)
      | Some m \<Rightarrow>
          let (success, s) = phySetMedium_medium E m s;
              s = (if success
                   then phyReportLinkStatus E True
                          (emit E (SetLinkStatus {kIONetworkLinkValid} None) (emit E (SetCurrentMedium m) s))
                   else s)
          in (if success then kIOReturnSuccess else kIOReturnIOError, s))"

end
