(* ===== verification/Lnc_Rx.thy ===== *)
theory Lnc_Rx
  imports Lnc_Init
begin

text \<open>
  Reception (\<^verbatim>\<open>PCNet_lnc.cpp\<close>): \<open>lnc_rint\<close> walks the receive ring from \<open>recv_next\<close>, finds the
  end of each packet, copies good ones into fresh buffers for the network stack and returns
  the descriptors to the chip. \<open>None\<close> means that a scan never ends.
\<close>

unbundle bit_operations_syntax

subsection \<open>Copying a packet out of the ring\<close>

text \<open>
  A packet buffer is a function of the offset, initially whatever \<^verbatim>\<open>allocatePacket\<close> left there.
  One pass of the copy loop takes \<open>blen\<close> bytes from descriptor \<open>i\<close> and gives it back to the
  chip: \<open>amount\<close> is \<open>blen\<close>, so \<open>blen\<close> is 0 afterwards and the code's \<^verbatim>\<open>if (blen == 0)\<close> is taken.
\<close>

type_synonym copy_state = "u16 \<times> nat \<times> (nat \<Rightarrow> u8) \<times> pcnet"

definition return_rx_md :: "nat \<Rightarrow> 'a lnc_softc_scheme \<Rightarrow> 'a lnc_softc_scheme" where
  "return_rx_md i s =
     upd_rx_md i (\<lambda>d. d\<lparr>mds_length := - of_nat LNC_RECVBUFSIZE\<rparr>)
       (upd_rx_md i (\<lambda>d. d\<lparr>mds_status := RMD_OWN\<rparr>) s)"

definition copy_md :: "nat \<Rightarrow> copy_state \<Rightarrow> copy_state" where
  "copy_md i st =
     (let (pkt_len, pkt_offs, buf, s) = st;
          blen = (if unat pkt_len < LNC_RECVBUFSIZE then unat pkt_len else LNC_RECVBUFSIZE);
          amount = blen;
          data = hre_data (recv_ring s ! i);
          buf = (\<lambda>k. if pkt_offs \<le> k \<and> k < pkt_offs + amount
                     then ram (mem s) (data + of_nat (k - pkt_offs)) else buf k)
      in (pkt_len - of_nat amount, pkt_offs + amount, buf, return_rx_md i s))"

definition mbuf_packet :: "env \<Rightarrow> nat \<Rightarrow> u16 \<Rightarrow> pcnet \<Rightarrow> ((nat \<Rightarrow> u8) option \<times> pcnet) option" where
  "mbuf_packet E start_of_packet pkt_len s =
     (let buf = fresh E (trace s);
          (ok, s) = os_call E (AllocPacket pkt_len) s
      in if \<not> ok then Some (None, s)
         else do {
           (_, _, buf, s) \<leftarrow> while_ring copy_md (nrdre s) start_of_packet (recv_next s) (pkt_len, 0, buf, s);
           Some (Some buf, s)
         })"

subsection \<open>The receive interrupt\<close>

text \<open>How one pass of the packet loop ends; the flag is the caller's \<^verbatim>\<open>*queued\<close>.\<close>

datatype rint_outcome = RintReset pcnet | RintBreak pcnet | RintNext bool pcnet

definition rint_reset :: "env \<Rightarrow> pcnet \<Rightarrow> rint_outcome" where
  "rint_reset E s =
     RintReset (lnc_reset E (BUMP_ETHER_COUNTER rx_resets_update (BUMP_NET_COUNTER inputErrors_update s)))"

text \<open>
  Find the end of the packet that starts at \<open>recv_next\<close>: the outcome, and the status of the
  packet's last descriptor, which is then at \<open>recv_next\<close>.
\<close>

definition rint_find_end :: "env \<Rightarrow> nat \<Rightarrow> u16 \<Rightarrow> pcnet \<Rightarrow> (rint_outcome + u16 \<times> pcnet) option" where
  "rint_find_end E lookahead status s =
     (let start_of_packet = recv_next s in
      if has status (RMD_ENP OR RMD_ERR) then Some (Inr (status, s))
      else do {
        i \<leftarrow> find_where (\<lambda>i. has (mds_status (rx_md s i)) (RMD_STP OR RMD_OWN OR RMD_ENP OR RMD_ERR))
               (nrdre s) start_of_packet;
        let s = s\<lparr>recv_next := i\<rparr>;
        let status = mds_status (rx_md s i);
        Some (if has status RMD_STP then Inl (rint_reset E s)
              else if has status RMD_OWN
              then if lookahead \<noteq> 0 then Inl (RintBreak (s\<lparr>recv_next := start_of_packet\<rparr>))
                   else Inl (rint_reset E s)
              else Inr (status, s))
      })"

definition rint_pkt_len :: "pcnet32_mds \<Rightarrow> u16" where
  "rint_pkt_len d = ucast ((mds_misc d AND MDHEAD_LEN_MASK) - of_nat ETHER_CRC_LEN)"

definition rint_error_counts :: "u16 \<Rightarrow> pcnet \<Rightarrow> pcnet" where
  "rint_error_counts status s =
     (let s = BUMP_NET_COUNTER inputErrors_update s
      in if has status RMD_OFLO then s
         else if has status RMD_ENP \<and> \<not> has (if_flags s) LNC_IFF_PROMISC
         then if has status RMD_FRAM then BUMP_ETHER_COUNTER alignmentErrors_update s
              else if has status RMD_CRC then BUMP_ETHER_COUNTER fcsErrors_update s
              else s
         else s)"

definition drop_rx_md :: "nat \<Rightarrow> pcnet \<Rightarrow> pcnet" where
  "drop_rx_md i s =
     upd_rx_md i (\<lambda>d. d\<lparr>mds_status := RMD_OWN\<rparr>)
       (upd_rx_md i (\<lambda>d. d\<lparr>mds_length := - of_nat LNC_RECVBUFSIZE\<rparr>) s)"

definition rint_drop :: "u16 \<Rightarrow> nat \<Rightarrow> pcnet \<Rightarrow> pcnet option" where
  "rint_drop status start_of_packet s =
     (let s = rint_error_counts status s
      in while_ring drop_rx_md (nrdre s) start_of_packet (recv_next s) s)"

text \<open>The source address is bytes 6 to 11 of the packet.\<close>

definition ether_shost :: "(nat \<Rightarrow> u8) \<Rightarrow> u8 list" where
  "ether_shost buf = map buf [6..<12]"

definition rint_deliver :: "env \<Rightarrow> nat \<Rightarrow> u16 \<Rightarrow> bool \<Rightarrow> pcnet \<Rightarrow> (bool \<times> pcnet) option" where
  "rint_deliver E start_of_packet pkt_len queued s = do {
     (pkt, s) \<leftarrow> mbuf_packet E start_of_packet pkt_len s;
     Some (case pkt of
         Some buf \<Rightarrow>
           if ether_shost buf = ib_phys_addr (init_block s) then (queued, emit E FreePacket s)
           else (True, BUMP_NET_COUNTER inputPackets_update
                         (emit E (InputPacket (map buf [0..<unat pkt_len])) s))
       | None \<Rightarrow> (queued, BUMP_ETHER_COUNTER rx_resourceErrors_update s))
   }"

definition rint_packet :: "env \<Rightarrow> nat \<Rightarrow> bool \<Rightarrow> u16 \<Rightarrow> pcnet \<Rightarrow> rint_outcome option" where
  "rint_packet E lookahead queued status s =
     (let start_of_packet = recv_next s in do {
        r \<leftarrow> rint_find_end E lookahead status s;
        case r of
          Inl out \<Rightarrow> Some out
        | Inr (status, s) \<Rightarrow>
            (let pkt_len = rint_pkt_len (rx_md s (recv_next s));
                 s = s\<lparr>recv_next := LNC_INC_MD_PTR (recv_next s) (nrdre s)\<rparr>
             in if has status RMD_ERR
                then do { s \<leftarrow> rint_drop status start_of_packet s; Some (RintNext queued s) }
                else do { (queued, s) \<leftarrow> rint_deliver E start_of_packet pkt_len queued s;
                          Some (RintNext queued s) })
      })"

text \<open>The packet loop; the first flag of the result is false when the driver was reset.\<close>

partial_function (option) rint_loop :: "env \<Rightarrow> nat \<Rightarrow> bool \<Rightarrow> pcnet \<Rightarrow> (bool \<times> bool \<times> pcnet) option" where
  "rint_loop E lookahead queued s =
     (let status = mds_status (rx_md s (recv_next s)) in
      if \<not> has status RMD_STP then Some (True, queued, s)
      else do {
        r \<leftarrow> rint_packet E lookahead queued status s;
        case r of
          RintReset s \<Rightarrow> Some (False, queued, s)
        | RintBreak s \<Rightarrow> Some (True, queued, s)
        | RintNext queued s \<Rightarrow> rint_loop E (lookahead + 1) queued s
      })"

definition lnc_rint :: "env \<Rightarrow> bool \<Rightarrow> pcnet \<Rightarrow> (bool \<times> pcnet) option" where
  "lnc_rint E queued s = do {
     (finished, queued, s) \<leftarrow> rint_loop E 0 queued s;
     Some (queued,
           if finished
           then write_csr E CSR (CSR_RINT OR CSR_IENA) (BUMP_ETHER_COUNTER rx_interrupts_update s)
           else s)
   }"

end
