(* ===== verification/Lnc_Tx.thy ===== *)
theory Lnc_Tx
  imports Lnc_Init
begin

text \<open>
  Transmission (\<^verbatim>\<open>PCNet_lnc.cpp\<close>): \<open>lnc_output_packet\<close> puts a packet into the next slot of the
  transmit ring, \<open>lnc_tint\<close> takes finished packets out of it. A packet is an \<^verbatim>\<open>mbuf\<close> chain: its
  header length and the data of its parts. \<open>lnc_tint\<close> is partial: \<open>None\<close> means that the scan of
  the ring never ends.
\<close>

unbundle bit_operations_syntax

subsection \<open>Output\<close>

record mbuf =
  pkthdr_len :: nat
  mbuf_datas :: "u8 list list"

text \<open>\<open>bcopy\<close> to an address of the shared memory.\<close>

definition poke :: "u32 \<Rightarrow> u8 list \<Rightarrow> (u32 \<Rightarrow> u8) \<Rightarrow> u32 \<Rightarrow> u8" where
  "poke a bs m = (\<lambda>x. if unat (x - a) < length bs then bs ! unat (x - a) else m x)"

fun copy_chain :: "u8 list list \<Rightarrow> u32 \<Rightarrow> (u32 \<Rightarrow> u8) \<Rightarrow> u32 \<Rightarrow> u8" where
  "copy_chain [] buffer m = m"
| "copy_chain (d # ds) buffer m = copy_chain ds (buffer + of_nat (length d)) (poke buffer d m)"

definition mbuf_to_buffer :: "mbuf \<Rightarrow> u32 \<Rightarrow> 'a hist_scheme \<Rightarrow> nat \<times> 'a hist_scheme" where
  "mbuf_to_buffer pkt buffer s =
     (pkthdr_len pkt, s\<lparr>mem := (mem s)\<lparr>ram := copy_chain (mbuf_datas pkt) buffer (ram (mem s))\<rparr>\<rparr>)"

definition lnc_output_packet :: "env \<Rightarrow> mbuf \<Rightarrow> 'a lnc_softc_scheme \<Rightarrow> output_return \<times> 'a lnc_softc_scheme" where
  "lnc_output_packet E pkt s =
     (if pending_transmits s \<ge> int (LNC_NDESC (ntdre s)) then (kIOReturnOutputStall, s)
      else let s = s\<lparr>pending_transmits := pending_transmits s + 1\<rparr>;
               desc = next_to_send s;
               (len, s) = mbuf_to_buffer pkt (hre_data (trans_ring s ! desc)) s;
               s = upd_tx_md desc (set_ext_status 0) s;
               s = upd_tx_md desc (\<lambda>d. d\<lparr>mds_length := - of_nat len\<rparr>) s;
               s = upd_tx_md desc (\<lambda>d. d\<lparr>mds_status := TMD_OWN OR TMD_STP OR TMD_ENP\<rparr>) s;
               s = s\<lparr>next_to_send := LNC_INC_MD_PTR (next_to_send s) (ntdre s)\<rparr>;
               s = write_csr E CSR (CSR_TDMD OR CSR_IENA) s;
               s = (if pending_transmits s \<ge> int (LNC_NDESC (ntdre s))
                    then s\<lparr>if_drv_flags := if_drv_flags s OR LNC_IFF_DRV_OACTIVE\<rparr> else s)
           in (kIOReturnOutputSuccess, s))"

subsection \<open>The transmit interrupt\<close>

text \<open>How one pass of the packet loop ends: with a reset, at the look-ahead, or normally.\<close>

datatype tint_outcome = TintReset pcnet | TintBreak pcnet | TintNext pcnet

definition tint_reset :: "env \<Rightarrow> pcnet \<Rightarrow> tint_outcome" where
  "tint_reset E s = TintReset (lnc_reset E (BUMP_ETHER_COUNTER tx_resets_update s))"

text \<open>Find the end of the packet that starts at \<open>trans_next\<close>.\<close>

definition tint_find_end :: "env \<Rightarrow> nat \<Rightarrow> pcnet \<Rightarrow> tint_outcome option" where
  "tint_find_end E lookahead s =
     (let start_of_packet = trans_next s in
      if has (mds_status (tx_md s start_of_packet)) (TMD_ENP OR TMD_ERR) then Some (TintNext s)
      else do {
        i \<leftarrow> find_where (\<lambda>i. has (mds_status (tx_md s i)) (TMD_STP OR TMD_OWN OR TMD_ENP OR TMD_ERR))
               (ntdre s) start_of_packet;
        let s = s\<lparr>trans_next := i\<rparr>;
        let status = mds_status (tx_md s i);
        Some (if has status TMD_STP then tint_reset E s
              else if has status TMD_OWN
              then if lookahead \<noteq> 0 then TintBreak (s\<lparr>trans_next := start_of_packet\<rparr>)
                   else tint_reset E s
              else TintNext s)
      })"

text \<open>A packet with \<open>TMD_ERR\<close>: count the errors, reset after an underflow, skip the packet.\<close>

definition tint_clear_tbuff :: "pcnet \<Rightarrow> pcnet" where
  "tint_clear_tbuff s =
     upd_tx_md (trans_next s) (\<lambda>d. set_ext_status (ext_status d AND NOT TMD_TBUFF) d) s"

definition tint_error_counts :: "pcnet \<Rightarrow> pcnet" where
  "tint_error_counts s =
     (let s = BUMP_NET_COUNTER outputErrors_update s;
          ext = ext_status (tx_md s (trans_next s));
          s = (if has ext TMD_LCOL then tint_clear_tbuff (BUMP_ETHER_COUNTER lateCollisions_update s) else s);
          s = (if has ext TMD_LCAR then BUMP_ETHER_COUNTER carrierSenseErrors_update s else s)
      in if has ext TMD_RTRY then tint_clear_tbuff (BUMP_ETHER_COUNTER excessiveCollisions_update s) else s)"

definition tint_error :: "env \<Rightarrow> pcnet \<Rightarrow> tint_outcome option" where
  "tint_error E s =
     (let ext = ext_status (tx_md s (trans_next s));
          s = tint_error_counts s
      in if has ext TMD_UFLO
         then Some (tint_reset E (BUMP_ETHER_COUNTER tx_underruns_update s))
         else do {
           i \<leftarrow> find_where (\<lambda>i. has (mds_status (tx_md s i)) TMD_STP \<or> i = next_to_send s)
                  (ntdre s) (trans_next s);
           Some (TintNext (s\<lparr>trans_next := i\<rparr>))
         })"

definition tint_sent :: "pcnet \<Rightarrow> pcnet" where
  "tint_sent s =
     (let status = mds_status (tx_md s (trans_next s));
          s = (if has status TMD_MORE then BUMP_ETHER_COUNTER multipleCollisionFrames_update s else s);
          s = (if has status TMD_ONE then BUMP_ETHER_COUNTER singleCollisionFrames_update s else s)
      in s\<lparr>trans_next := LNC_INC_MD_PTR (trans_next s) (ntdre s)\<rparr>)"

text \<open>Clear the descriptors from \<open>start_of_packet\<close> up to \<open>trans_next\<close>, at least one.\<close>

definition tint_clear_md :: "nat \<Rightarrow> pcnet \<Rightarrow> pcnet" where
  "tint_clear_md i s =
     (let s = upd_tx_md i (\<lambda>d. d\<lparr>mds_status := 0\<rparr>) s
      in s\<lparr>pending_transmits := pending_transmits s - 1\<rparr>)"

definition tint_reclaim :: "env \<Rightarrow> nat \<Rightarrow> pcnet \<Rightarrow> pcnet option" where
  "tint_reclaim E start_of_packet s = do {
     s \<leftarrow> do_ring tint_clear_md (ntdre s) start_of_packet (trans_next s) s;
     let s = s\<lparr>if_drv_flags := if_drv_flags s AND NOT LNC_IFF_DRV_OACTIVE\<rparr>;
     Some (if transmitQueue s \<and> pending_transmits s \<noteq> 0 then emit E (QService True) s else s)
   }"

definition tint_packet :: "env \<Rightarrow> nat \<Rightarrow> pcnet \<Rightarrow> tint_outcome option" where
  "tint_packet E lookahead s =
     (let start_of_packet = trans_next s in do {
        r \<leftarrow> tint_find_end E lookahead s;
        case r of
          TintNext s \<Rightarrow> do {
            r \<leftarrow> (if has (mds_status (tx_md s (trans_next s))) TMD_ERR then tint_error E s
                 else Some (TintNext (tint_sent s)));
            case r of
              TintNext s \<Rightarrow> do { s \<leftarrow> tint_reclaim E start_of_packet s; Some (TintNext s) }
            | _ \<Rightarrow> Some r
          }
        | _ \<Rightarrow> Some r
      })"

text \<open>The packet loop; the flag of the result is false when the driver was reset.\<close>

partial_function (option) tint_loop :: "env \<Rightarrow> nat \<Rightarrow> pcnet \<Rightarrow> (bool \<times> pcnet) option" where
  "tint_loop E lookahead s = do {
     r \<leftarrow> tint_packet E lookahead s;
     case r of
       TintReset s \<Rightarrow> Some (False, s)
     | TintBreak s \<Rightarrow> Some (True, s)
     | TintNext s \<Rightarrow>
         if pending_transmits s \<noteq> 0 \<and> \<not> has (mds_status (tx_md s (trans_next s))) TMD_OWN
         then tint_loop E (lookahead + 1) s
         else Some (True, s)
   }"

definition lnc_tint :: "env \<Rightarrow> bool \<Rightarrow> pcnet \<Rightarrow> (bool \<times> pcnet) option" where
  "lnc_tint E reclaimed s = do {
     (finished, s) \<leftarrow> tint_loop E 0 s;
     Some (if finished
           then (True, write_csr E CSR (CSR_TINT OR CSR_IENA) (BUMP_ETHER_COUNTER tx_interrupts_update s))
           else (reclaimed, s))
   }"

end
