(* ===== verification/Lnc_Intr.thy ===== *)
theory Lnc_Intr
  imports Lnc_Rx Lnc_Tx
begin

text \<open>
  The interrupt handler: \<open>lnc_intr\<close> of \<^verbatim>\<open>PCNet_lnc.cpp\<close>, which serves the causes in CSR0 until
  the chip reports none, and the entry points of \<^verbatim>\<open>PCNet_Private.cpp\<close> around it.
\<close>

unbundle bit_operations_syntax

subsection \<open>\<open>lnc_intr\<close>\<close>

definition intr_error_counts :: "u16 \<Rightarrow> pcnet \<Rightarrow> pcnet" where
  "intr_error_counts csr0 s =
     (let s = (if has csr0 CSR_CERR then BUMP_ETHER_COUNTER sqeTestErrors_update s else s);
          s = (if has csr0 CSR_BABL then BUMP_ETHER_COUNTER tx_phyErrors_update s else s)
      in if has csr0 CSR_MISS then BUMP_ETHER_COUNTER missedFrames_update s else s)"

text \<open>One pass for a cause word \<open>csr0\<close> with \<open>CSR_INTR\<close>; the flags are the caller's two queue flags.\<close>

definition intr_pass :: "env \<Rightarrow> u16 \<Rightarrow> bool \<Rightarrow> bool \<Rightarrow> pcnet \<Rightarrow> (bool \<times> bool \<times> pcnet) option" where
  "intr_pass E csr0 flushInputQ serviceOutputQ s =
     (let s = write_csr E CSR csr0 s;
          s = (if has csr0 CSR_ERR then intr_error_counts csr0 s else s)
      in if has csr0 CSR_ERR \<and> has csr0 CSR_MERR
         then Some (flushInputQ, serviceOutputQ, lnc_reset E s)
         else do {
           (flushInputQ, s) \<leftarrow> (if has csr0 CSR_RINT then lnc_rint E flushInputQ s else Some (flushInputQ, s));
           (serviceOutputQ, s) \<leftarrow> (if has csr0 CSR_TINT then lnc_tint E serviceOutputQ s else Some (serviceOutputQ, s));
           Some (flushInputQ, serviceOutputQ, s)
         })"

partial_function (option) intr_loop :: "env \<Rightarrow> bool \<Rightarrow> bool \<Rightarrow> pcnet \<Rightarrow> (bool \<times> bool \<times> pcnet) option" where
  "intr_loop E flushInputQ serviceOutputQ s =
     (let (csr0, s) = read_csr E CSR s in
      if \<not> has csr0 CSR_INTR then Some (flushInputQ, serviceOutputQ, s)
      else do {
        (flushInputQ, serviceOutputQ, s) \<leftarrow> intr_pass E csr0 flushInputQ serviceOutputQ s;
        intr_loop E flushInputQ serviceOutputQ s
      })"

definition save_rap :: "env \<Rightarrow> 'a lnc_softc_scheme \<Rightarrow> u16 \<times> 'a lnc_softc_scheme" where
  [drv_ops]: "save_rap E s =
     (if dwio s then (let (v, s) = csrRead32 E PCNET32_DWIO_RAP s in (ucast v, s))
      else csrRead16 E PCNET32_WIO_RAP s)"

definition restore_rap :: "env \<Rightarrow> u16 \<Rightarrow> 'a lnc_softc_scheme \<Rightarrow> 'a lnc_softc_scheme" where
  [drv_ops]: "restore_rap E rap s =
     (if dwio s then csrWrite32 E PCNET32_DWIO_RAP (ucast rap) s
      else csrWrite16 E PCNET32_WIO_RAP rap s)"

definition lnc_intr :: "env \<Rightarrow> bool \<Rightarrow> bool \<Rightarrow> pcnet \<Rightarrow> (bool \<times> bool \<times> pcnet) option" where
  "lnc_intr E flushInputQ serviceOutputQ s =
     (let (rap, s) = save_rap E s in do {
        (flushInputQ, serviceOutputQ, s) \<leftarrow> intr_loop E flushInputQ serviceOutputQ s;
        Some (flushInputQ, serviceOutputQ, restore_rap E rap s)
      })"

subsection \<open>Entry points\<close>

definition enableHardwareInterrupts :: "pcnet \<Rightarrow> pcnet" where
  "enableHardwareInterrupts s = s\<lparr>interruptEnabled := True\<rparr>"

definition disableHardwareInterrupts :: "pcnet \<Rightarrow> pcnet" where
  "disableHardwareInterrupts s = s\<lparr>interruptEnabled := False\<rparr>"

definition handleInterrupt :: "env \<Rightarrow> pcnet \<Rightarrow> pcnet option" where
  "handleInterrupt E s =
     (if \<not> interruptEnabled s then Some s
      else do {
        (flushInputQ, serviceOutputQ, s) \<leftarrow> lnc_intr E False False s;
        let s = (if flushInputQ then emit E FlushInput s else s);
        Some (if serviceOutputQ then emit E (QService False) s else s)
      })"

definition outputPacket :: "env \<Rightarrow> mbuf \<Rightarrow> pcnet \<Rightarrow> output_return \<times> pcnet" where
  "outputPacket E pkt s =
     (let (ret, s) = lnc_output_packet E pkt s
      in (ret, if ret = kIOReturnOutputSuccess
               then BUMP_NET_COUNTER outputPackets_update (emit E FreePacket s) else s))"

end
