(* ===== verification/Lifecycle.thy ===== *)
theory Lifecycle
  imports Phy Lnc_Intr
begin

text \<open>
  The controller class (\<^verbatim>\<open>PCNet.cpp\<close>, \<^verbatim>\<open>PCNet_Private.cpp\<close>): start, the activation levels that
  \<open>enable\<close> and \<open>disable\<close> move between, the timer, filters, hardware address, and \<open>free\<close>.
\<close>

unbundle bit_operations_syntax

subsection \<open>Constants\<close>

definition kActivationLevel0 :: u32 where [hw_consts]: "kActivationLevel0 = 0"
definition kActivationLevel1 :: u32 where [hw_consts]: "kActivationLevel1 = 1"
definition kActivationLevel2 :: u32 where [hw_consts]: "kActivationLevel2 = 2"
definition kFullInitialization :: u32 where [hw_consts]: "kFullInitialization = 0"
definition kResetChip :: u32 where [hw_consts]: "kResetChip = 1"
definition kWatchdogTimerPeriod :: nat where [hw_consts]: "kWatchdogTimerPeriod = 4000"
definition kTransmitQueueCapacity :: nat where [hw_consts]: "kTransmitQueueCapacity = 384"

subsection \<open>Start\<close>

text \<open>\<open>if (!m) break; f\<close> of the \<^verbatim>\<open>do { ... } while (false)\<close> blocks.\<close>

definition and_then :: "bool \<times> 's \<Rightarrow> ('s \<Rightarrow> bool \<times> 's) \<Rightarrow> bool \<times> 's" where
  "and_then m f = (if fst m then f (snd m) else m)"

definition createWorkLoop :: "env \<Rightarrow> pcnet \<Rightarrow> bool \<times> pcnet" where
  "createWorkLoop E s = (let (ok, s) = os_call E (Kernel ''workLoop'') s in (ok, s\<lparr>workLoop := ok\<rparr>))"

definition initEventSources :: "env \<Rightarrow> pcnet \<Rightarrow> bool \<times> pcnet" where
  "initEventSources E s =
     (if \<not> workLoop s then (False, s) else
      and_then (let (ok, s) = os_call E (Kernel ''getOutputQueue'') s in (ok, s\<lparr>transmitQueue := ok\<rparr>)) (\<lambda>s.
      and_then (let (ok, s) = os_call E (Kernel ''interruptEventSource'') s in (ok, s\<lparr>interruptSrc := ok\<rparr>)) (\<lambda>s.
      and_then (os_call E (Kernel ''addEventSource'') s) (\<lambda>s.
      let s = emit E (Kernel ''enable'') s in
      and_then (let (ok, s) = os_call E (Kernel ''timerEventSource'') s in (ok, s\<lparr>timerSrc := ok\<rparr>)) (\<lambda>s.
      and_then (os_call E (Kernel ''addEventSource'') s) (\<lambda>s.
      let (ok, s) = os_call E (Kernel ''withCapacity'') s in (ok, s\<lparr>mediumDict := ok\<rparr>)))))))"

definition initPCIConfigSpace :: "env \<Rightarrow> 'a hist_scheme \<Rightarrow> bool \<times> 'a hist_scheme" where
  "initPCIConfigSpace E s =
     (let reg = pciCommand E (trace s);
          s = emit E (Kernel ''configRead16'') s;
          reg = reg OR (kIOPCICommandBusMaster E OR kIOPCICommandIOSpace E OR kIOPCICommandMemWrInvalidate E);
          reg = reg AND NOT (kIOPCICommandMemorySpace E)
      in (True, emit E (CfgWrite16 reg) s))"

definition initAdapter :: "env \<Rightarrow> u32 \<Rightarrow> pcnet \<Rightarrow> bool \<times> pcnet" where
  "initAdapter E options s =
     (let s = disableHardwareInterrupts s;
          s = s\<lparr>mediumIndexLastReported := MEDIUM_INDEX_UNDEF\<rparr>
      in (True, if has options kResetChip then emit E (Sleep 20) (pcnet32_reset E (pcnet32_stop E s))
                else lnc_init E s))"

definition init :: "env \<Rightarrow> pcnet \<Rightarrow> bool \<times> pcnet" where
  "init E s =
     (let (ok, s) = os_call E (Kernel ''init'') s in
      if \<not> ok then (False, s)
      else (True, s\<lparr>currentLevel := kActivationLevel0, currentMediumIndex := MEDIUM_INDEX_NONE\<rparr>))"

text \<open>\<open>super_start\<close> is the \<open>start\<close> of the superclass, which is not in the repository.\<close>

definition start_probe :: "env \<Rightarrow> (pcnet \<Rightarrow> bool \<times> pcnet) \<Rightarrow> pcnet \<Rightarrow> bool \<times> pcnet" where
  "start_probe E super_start s =
     and_then (super_start s) (\<lambda>s.
     and_then (let (ok, s) = os_call E (Kernel ''OSDynamicCast'') s in (ok, s\<lparr>pciNub := ok\<rparr>)) (\<lambda>s.
     and_then (os_call E (Kernel ''open'') (emit E (Kernel ''retain'') s)) (\<lambda>s.
     and_then (initEventSources E s) (\<lambda>s.
     and_then (lnc_pci_attach E s) (\<lambda>s.
     and_then (let (ok, s) = os_call E (Kernel ''mapDeviceMemoryWithRegister'') s in (ok, s\<lparr>csrMap := ok\<rparr>)) (\<lambda>s.
     and_then (initPCIConfigSpace E s) (\<lambda>s.
     and_then (initAdapter E kResetChip s) (\<lambda>s.
     os_call E (Kernel ''publishMediumDictionary'') (phyProbeMediaCapability E s)))))))))"

definition start :: "env \<Rightarrow> (pcnet \<Rightarrow> bool \<times> pcnet) \<Rightarrow> pcnet \<Rightarrow> bool \<times> pcnet" where
  "start E super_start s =
     (let (success, s) = start_probe E super_start s;
          s = (if pciNub s then emit E (Kernel ''close'') s else s)
      in if \<not> success then (False, s)
         else let (ok, s) = os_call E (Kernel ''attachInterface'') s;
                  s = s\<lparr>netif := ok\<rparr>
              in if \<not> ok then (False, s) else (True, emit E (Kernel ''registerService'') s))"

definition stop :: "env \<Rightarrow> pcnet \<Rightarrow> pcnet" where
  "stop E s = emit E (Kernel ''stop'') s"

definition configureInterface :: "env \<Rightarrow> pcnet \<Rightarrow> bool \<times> pcnet" where
  "configureInterface E s =
     and_then (os_call E (Kernel ''configureInterface'') s) (\<lambda>s.
     and_then (os_call E (Kernel ''getParameter'') s) (\<lambda>s.
     and_then (os_call E (Kernel ''getBuffer'') s) (\<lambda>s.
     and_then (os_call E (Kernel ''getParameter'') s) (\<lambda>s.
     os_call E (Kernel ''getBuffer'') s))))"

subsection \<open>Activation levels\<close>

definition enableAdapter :: "env \<Rightarrow> u32 \<Rightarrow> pcnet \<Rightarrow> bool \<times> pcnet" where
  "enableAdapter E level s =
     (if level = kActivationLevel1 then
        if \<not> pciNub s then (False, s) else
        and_then (os_call E (Kernel ''open'') s) (\<lambda>s.
        and_then (initAdapter E kFullInitialization s) (\<lambda>s.
        let (ret, s) = selectMedium E (selectedMedium E (trace s)) s in
        if ret \<noteq> kIOReturnSuccess then (False, s)
        else (True, emit E (TimerSet kWatchdogTimerPeriod) s)))
      else if level = kActivationLevel2 then
        let s = emit E (QSetCapacity kTransmitQueueCapacity) s;
            s = emit E QStart s
        in (True, enableHardwareInterrupts s)
      else (False, s))"

definition disableAdapter :: "env \<Rightarrow> u32 \<Rightarrow> pcnet \<Rightarrow> bool \<times> pcnet" where
  "disableAdapter E level s =
     (if level = kActivationLevel1 then
        let s = emit E TimerCancel s;
            (_, s) = initAdapter E kResetChip s;
            s = lnc_down E s;
            (_, s) = phySetMedium E MEDIUM_INDEX_NONE s;
            s = emit E (SetLinkStatus {} None) s;
            s = emit E (QSetCapacity 0) s;
            s = emit E QFlush s
        in (True, if pciNub s then emit E (Kernel ''close'') s else s)
      else if level = kActivationLevel2 then
        let s = disableHardwareInterrupts s
        in (True, emit E QStop s)
      else (False, s))"

text \<open>The two loops of \<open>setActivationLevel\<close>; the flag is \<open>success\<close>.\<close>

partial_function (option) level_down :: "env \<Rightarrow> u32 \<Rightarrow> bool \<Rightarrow> pcnet \<Rightarrow> (bool \<times> pcnet) option" where
  "level_down E level success s =
     (if \<not> level < currentLevel s then Some (success, s)
      else let (success, s) = disableAdapter E (currentLevel s) s in
           if \<not> success then Some (False, s)
           else level_down E level success (s\<lparr>currentLevel := currentLevel s - 1\<rparr>))"

partial_function (option) level_up :: "env \<Rightarrow> u32 \<Rightarrow> u32 \<Rightarrow> bool \<Rightarrow> pcnet \<Rightarrow> (bool \<times> pcnet) option" where
  "level_up E level nextLevel success s =
     (if \<not> currentLevel s < level then Some (success, s)
      else let (success, s) = enableAdapter E nextLevel s in
           if \<not> success then Some (False, s)
           else level_up E level (nextLevel + 1) success (s\<lparr>currentLevel := currentLevel s + 1\<rparr>))"

definition setActivationLevel :: "env \<Rightarrow> u32 \<Rightarrow> pcnet \<Rightarrow> (bool \<times> pcnet) option" where
  "setActivationLevel E level s =
     (if currentLevel s = level then Some (True, s)
      else do {
        (success, s) \<leftarrow> level_down E level False s;
        level_up E level (currentLevel s + 1) success s
      })"

definition enable :: "env \<Rightarrow> pcnet \<Rightarrow> (io_return \<times> pcnet) option" where
  "enable E s =
     (if enabledByBSD s then Some (kIOReturnSuccess, s)
      else do {
        (ok, s) \<leftarrow> setActivationLevel E kActivationLevel2 s;
        let s = s\<lparr>enabledByBSD := ok\<rparr>;
        Some (if enabledByBSD s then kIOReturnSuccess else kIOReturnIOError, s)
      })"

definition disable :: "env \<Rightarrow> pcnet \<Rightarrow> (io_return \<times> pcnet) option" where
  "disable E s =
     (let s = s\<lparr>enabledByBSD := False\<rparr> in do {
        (_, s) \<leftarrow> setActivationLevel E (if enabledByKDP s then kActivationLevel1 else kActivationLevel0) s;
        Some (kIOReturnSuccess, s)
      })"

subsection \<open>Timer, filters, address\<close>

definition handleTimeout :: "env \<Rightarrow> pcnet \<Rightarrow> pcnet" where
  "handleTimeout E s = emit E (TimerSet kWatchdogTimerPeriod) (phyReportLinkStatus E False s)"

definition setPromiscuousMode :: "env \<Rightarrow> bool \<Rightarrow> pcnet \<Rightarrow> io_return \<times> pcnet" where
  "setPromiscuousMode E enabled s = (kIOReturnSuccess, lnc_set_promiscuous_mode E enabled s)"

definition setMulticastMode :: "env \<Rightarrow> bool \<Rightarrow> pcnet \<Rightarrow> io_return \<times> pcnet" where
  "setMulticastMode E enabled s = (kIOReturnSuccess, lnc_set_multicast E None 0 s)"

definition setMulticastList :: "env \<Rightarrow> u8 list list \<Rightarrow> u32 \<Rightarrow> pcnet \<Rightarrow> io_return \<times> pcnet" where
  "setMulticastList E addrs count s = (kIOReturnSuccess, lnc_set_multicast E (Some addrs) count s)"

text \<open>The byte \<open>k\<close> of a little-endian word.\<close>

definition idr_byte :: "u32 \<Rightarrow> nat \<Rightarrow> u8" where
  "idr_byte v k = ucast (drop_bit (8 * k) v)"

definition getHardwareAddress :: "env \<Rightarrow> 'a hist_scheme \<Rightarrow> u8 list \<times> 'a hist_scheme" where
  "getHardwareAddress E s =
     (let (idr, s) = csrRead32 E PCN_IO32_APROM00 s;
          bytes = map (idr_byte idr) [0, 1, 2, 3];
          (idr, s) = csrRead32 E PCN_IO32_APROM01 s
      in (bytes @ map (idr_byte idr) [0, 1], s))"

subsection \<open>\<open>free\<close>\<close>

definition release_if :: "env \<Rightarrow> bool \<Rightarrow> 'a hist_scheme \<Rightarrow> 'a hist_scheme" where
  "release_if E x s = (if x then emit E (Kernel ''release'') s else s)"

definition free :: "env \<Rightarrow> pcnet \<Rightarrow> pcnet option" where
  "free E s =
     (let s = (if interruptSrc s \<and> workLoop s then emit E (Kernel ''removeEventSource'') s else s);
          s = (release_if E (netif s) s)\<lparr>netif := False\<rparr>;
          s = (release_if E (interruptSrc s) s)\<lparr>interruptSrc := False\<rparr>;
          s = (release_if E (timerSrc s) s)\<lparr>timerSrc := False\<rparr>;
          s = (release_if E (csrMap s) s)\<lparr>csrMap := False\<rparr>;
          s = (release_if E (mediumDict s) s)\<lparr>mediumDict := False\<rparr>;
          s = (release_if E (pciNub s) s)\<lparr>pciNub := False\<rparr>;
          s = (release_if E (workLoop s) s)\<lparr>workLoop := False\<rparr>
      in do {
        s \<leftarrow> lnc_release_resources E s;
        Some (emit E (Kernel ''free'') s)
      })"

subsection \<open>Small services\<close>

definition getWorkLoop :: "pcnet \<Rightarrow> bool" where
  "getWorkLoop s = workLoop s"

definition createOutputQueue :: "env \<Rightarrow> pcnet \<Rightarrow> bool \<times> pcnet" where
  "createOutputQueue E s = os_call E (Kernel ''withTarget'') s"

definition newVendorString :: string where
  "newVendorString = ''Maxxuss''"

definition newModelString :: string where
  "newModelString = ''AMDPCNET''"

datatype packet_align = kIOPacketBufferAlign1

record packet_constraints =
  alignStart :: packet_align
  alignLength :: packet_align

definition getPacketBufferConstraints :: packet_constraints where
  "getPacketBufferConstraints = \<lparr>alignStart = kIOPacketBufferAlign1, alignLength = kIOPacketBufferAlign1\<rparr>"

definition registerWithPolicyMaker :: "env \<Rightarrow> pcnet \<Rightarrow> bool \<times> pcnet" where
  "registerWithPolicyMaker E s = os_call E (Kernel ''registerPowerDriver'') s"

datatype power_ack = IOPMAckImplied

definition setPowerState :: "nat \<Rightarrow> pcnet \<Rightarrow> power_ack \<times> pcnet" where
  "setPowerState powerStateOrdinal s = (IOPMAckImplied, s)"

end
