(* ===== verification/Layout.thy ===== *)
theory Layout
  imports Lnc_Init
begin

text \<open>
  The memory layout of \<open>carve_rings\<close>: every structure lies inside the block that
  \<open>lnc_pci_attach\<close> allocates, no two overlap, the descriptors are 16-byte aligned. From it
  follows \<open>ring_geom\<close>, the geometry the receive and transmit handlers rely on.
\<close>

unbundle bit_operations_syntax

subsection \<open>Alignment\<close>

lemma and_mask_plus_and_not: "(y AND m) + (y AND NOT m) = (y::'a::len word)"
proof -
  have "(y AND m) + (y AND NOT m) = (y AND m) OR (y AND NOT m)"
    by (rule disjunctive_add) (auto simp: bit_simps)
  also have "\<dots> = y" by (rule bit_word_eqI) (auto simp: bit_simps)
  finally show ?thesis .
qed

lemma align_up:
  fixes x m :: u32
  shows "\<exists>k\<le>unat m. (x + m) AND NOT m = x + of_nat k"
proof -
  let ?r = "(x + m) AND m"
  have "unat ?r \<le> unat m" by (simp add: word_and_le1 flip: word_le_nat_alt)
  then have "(of_nat (unat m - unat ?r) :: u32) = m - ?r"
    by (simp add: of_nat_diff)
  moreover have "(x + m) AND NOT m = x + (m - ?r)"
    using and_mask_plus_and_not[of "x + m" m] by (simp add: algebra_simps)
  ultimately show ?thesis by (intro exI[of _ "unat m - unat ?r"]) simp
qed

lemma carve_eq: "carve p sz n = (map (\<lambda>i. p + of_nat (i * sz)) [0..<n], p + of_nat (n * sz))"
proof (induction n arbitrary: p)
  case (Suc n)
  show ?case
    by (simp add: Suc.IH upt_conv_Cons map_Suc_upt[symmetric] algebra_simps comp_def del: upt_Suc)
qed simp

lemma unat_15: "unat (15 :: u32) = 15"
  by simp

lemma descriptors_at_offset:
  "\<exists>a\<le>1. \<exists>b\<le>15.
     init_block_at base r t = base + of_nat (8 * (LNC_NDESC r + LNC_NDESC t) + a) \<and>
     descriptors_at base r t = base + of_nat (8 * (LNC_NDESC r + LNC_NDESC t) + a + 28 + b)"
proof -
  let ?h = "8 * (LNC_NDESC r + LNC_NDESC t)"
  have start: "trans_ring_at base r + of_nat (LNC_NDESC t * sizeof_host_ring_entry) = base + of_nat ?h"
    by (simp add: trans_ring_at_def sizeof_host_ring_entry_def algebra_simps)
  obtain a where a: "a \<le> 1" "((base + of_nat ?h) + 1) AND NOT 1 = (base + of_nat ?h) + of_nat a"
    using align_up[where x = "base + of_nat ?h" and m = 1] unfolding unat_1 by blast
  have ib: "init_block_at base r t = base + of_nat (?h + a)"
    using a(2) by (simp only: init_block_at_def Let_def start and.assoc and.idem of_nat_add add.assoc)
  obtain b where b: "b \<le> 15"
      "((base + of_nat (?h + a) + 28) + 15) AND NOT 15 = (base + of_nat (?h + a) + 28) + of_nat b"
    using align_up[where x = "base + of_nat (?h + a) + 28" and m = 15] unfolding unat_15 by blast
  have "descriptors_at base r t = base + of_nat (?h + a + 28 + b)"
    using b(2) by (simp add: descriptors_at_def Let_def ib sizeof_init_block_def add.assoc)
  with a(1) b(1) ib show ?thesis by blast
qed

lemma descriptors_aligned: "descriptors_at base r t AND 15 = 0"
  by (simp add: descriptors_at_def Let_def and.assoc)

subsection \<open>The carved structures as consecutive areas\<close>

fun chain :: "nat \<Rightarrow> (nat \<times> nat) list \<Rightarrow> nat \<Rightarrow> bool" where
  "chain lo [] hi \<longleftrightarrow> lo \<le> hi"
| "chain lo ((off, len) # xs) hi \<longleftrightarrow> lo \<le> off \<and> chain (off + len) xs hi"

lemma chain_append: "chain lo xs mid \<Longrightarrow> chain mid ys hi \<Longrightarrow> chain lo (xs @ ys) hi"
proof (induction lo xs mid rule: chain.induct)
  case (1 lo mid)
  then show ?case by (cases ys) auto
qed auto

lemma chain_steps: "chain lo (map (\<lambda>i. (lo + i * sz, sz)) [0..<n]) (lo + n * sz)"
proof (induction n)
  case (Suc n)
  have "chain (lo + n * sz) [(lo + n * sz, sz)] (lo + Suc n * sz)" by simp
  from chain_append[OF Suc this] show ?case by simp
qed simp

lemma chain_bounds: "chain lo xs hi \<Longrightarrow> (off, len) \<in> set xs \<Longrightarrow> lo \<le> off \<and> off + len \<le> hi"
proof (induction lo xs hi rule: chain.induct)
  case (2 lo o1 l1 xs hi)
  have "lo' \<le> hi'" if "chain lo' ys hi'" for lo' ys hi'
    using that by (induction lo' ys hi' rule: chain.induct) auto
  from this[of "o1 + l1" xs hi] 2 show ?case by auto
qed simp

lemma chain_disjoint:
  "chain lo xs hi \<Longrightarrow> i < j \<Longrightarrow> j < length xs \<Longrightarrow> fst (xs ! i) + snd (xs ! i) \<le> fst (xs ! j)"
proof (induction lo xs hi arbitrary: i j rule: chain.induct)
  case (2 lo o1 l1 xs hi)
  show ?case
  proof (cases i)
    case 0
    from 2 obtain j' where j: "j = Suc j'" by (cases j) auto
    obtain off len where x: "xs ! j' = (off, len)" by (cases "xs ! j'")
    with 2(4) j have "(off, len) \<in> set xs" by (metis Suc_less_eq length_Cons nth_mem)
    with chain_bounds[of "o1 + l1" xs hi] 2(2) have "o1 + l1 \<le> off" by simp
    with 0 j x show ?thesis by simp
  next
    case (Suc i')
    with 2 obtain j' where "j = Suc j'" by (cases j) auto
    with Suc 2 show ?thesis by simp
  qed
qed simp

text \<open>All structures of the block: the two entry arrays, init block, descriptors, buffers.\<close>

definition areas :: "'a lnc_softc_scheme \<Rightarrow> (u32 \<times> nat) list" where
  "areas s =
     [(ring_base s, LNC_NDESC (nrdre s) * sizeof_host_ring_entry),
      (trans_ring_at (ring_base s) (nrdre s), LNC_NDESC (ntdre s) * sizeof_host_ring_entry),
      (init_block_addr s, sizeof_init_block)]
     @ map (\<lambda>e. (hre_md e, sizeof_mds)) (recv_ring s)
     @ map (\<lambda>e. (hre_md e, sizeof_mds)) (trans_ring s)
     @ map (\<lambda>e. (hre_data e, LNC_RECVBUFSIZE)) (recv_ring s)
     @ map (\<lambda>e. (hre_data e, LNC_TRANSBUFSIZE)) (trans_ring s)"

lemma zip_maps: "zip (map f xs) (map g xs) = map (\<lambda>x. (f x, g x)) xs"
  by (induction xs) auto

lemma carve_rings_areas:
  fixes s :: "'a lnc_softc_scheme"
  defines "R \<equiv> LNC_NDESC (nrdre s)" and "T \<equiv> LNC_NDESC (ntdre s)"
  shows "\<exists>items. areas (carve_rings s) = map (\<lambda>(off, len). (ring_base s + of_nat off, len)) items \<and>
           chain 0 items (lnc_mem_size (nrdre s) (ntdre s)) \<and> length items = 3 + 2 * (R + T)"
proof -
  obtain a b where ab: "a \<le> 1" "b \<le> 15"
    and ib: "init_block_at (ring_base s) (nrdre s) (ntdre s) = ring_base s + of_nat (8 * (R + T) + a)"
    and da: "descriptors_at (ring_base s) (nrdre s) (ntdre s)
             = ring_base s + of_nat (8 * (R + T) + a + 28 + b)"
    using descriptors_at_offset[of "ring_base s" "nrdre s" "ntdre s"] unfolding R_def T_def by blast
  let ?D = "8 * (R + T) + a + 28 + b"
  let ?items = "[(0, 8 * R), (8 * R, 8 * T), (8 * (R + T) + a, 28)]
     @ map (\<lambda>i. (?D + i * 16, 16)) [0..<R]
     @ map (\<lambda>i. (?D + R * 16 + i * 16, 16)) [0..<T]
     @ map (\<lambda>i. (?D + R * 16 + T * 16 + i * LNC_RECVBUFSIZE, LNC_RECVBUFSIZE)) [0..<R]
     @ map (\<lambda>i. (?D + R * 16 + T * 16 + R * LNC_RECVBUFSIZE + i * LNC_TRANSBUFSIZE,
                 LNC_TRANSBUFSIZE)) [0..<T]"
  let ?E = "?D + R * 16" let ?F = "?E + T * 16" let ?G = "?F + R * LNC_RECVBUFSIZE"
  have "chain 0 ?items (?G + T * LNC_TRANSBUFSIZE)"
    by (rule chain_append[where mid = ?D], simp,
        rule chain_append[where mid = ?E, OF chain_steps],
        rule chain_append[where mid = ?F, OF chain_steps],
        rule chain_append[where mid = ?G, OF chain_steps], rule chain_steps)
  moreover have "?D + R * 16 + T * 16 + R * LNC_RECVBUFSIZE + T * LNC_TRANSBUFSIZE
      \<le> lnc_mem_size (nrdre s) (ntdre s)"
    using ab by (simp add: lnc_mem_size_def R_def[symmetric] T_def[symmetric] hw_consts)
  moreover have "chain lo xs hi' " if "chain lo xs hi" "hi \<le> hi'" for lo xs hi hi'
    using that by (induction lo xs hi rule: chain.induct) auto
  ultimately have "chain 0 ?items (lnc_mem_size (nrdre s) (ntdre s))" by blast
  moreover have "areas (carve_rings s) = map (\<lambda>(off, len). (ring_base s + of_nat off, len)) ?items"
    by (simp add: areas_def carve_rings_def carve_eq da ib zip_maps
        trans_ring_at_def R_def[symmetric] T_def[symmetric] Let_def hw_consts)
  ultimately show ?thesis by (intro exI[of _ ?items]) simp
qed

subsection \<open>The bytes of the areas\<close>

definition area_bytes :: "u32 \<times> nat \<Rightarrow> u32 set" where
  "area_bytes x = (\<lambda>k. fst x + of_nat k) ` {..<snd x}"

lemma of_nat_u32_inj: "(of_nat a :: u32) = of_nat b \<Longrightarrow> a < 2 ^ 32 \<Longrightarrow> b < 2 ^ 32 \<Longrightarrow> a = b"
proof -
  assume e: "(of_nat a :: u32) = of_nat b" and "a < 2 ^ 32" "b < 2 ^ 32"
  then have "a mod 2 ^ LENGTH(32) = a" "b mod 2 ^ LENGTH(32) = b" by simp_all
  with e show ?thesis by (metis unat_of_nat)
qed

lemma area_bytes_disjoint:
  assumes "o1 + l1 \<le> o2" "o2 + l2 \<le> 2 ^ 32"
  shows "area_bytes (b + of_nat o1, l1) \<inter> area_bytes (b + of_nat o2, l2) = {}"
proof -
  have False if "k1 < l1" "k2 < l2" "b + of_nat o1 + of_nat k1 = b + of_nat o2 + of_nat k2" for k1 k2
  proof -
    from that(3) have "(of_nat (o1 + k1) :: u32) = of_nat (o2 + k2)" by (simp add: add.assoc)
    then have "o1 + k1 = o2 + k2" using that assms by (intro of_nat_u32_inj) simp_all
    with that assms show False by simp
  qed
  then show ?thesis by (fastforce simp: area_bytes_def)
qed

lemma area_bytes_mono: "m \<le> n \<Longrightarrow> area_bytes (a, m) \<subseteq> area_bytes (a, n)"
  by (auto simp: area_bytes_def)

lemma area_bytes_within:
  "off + len \<le> n \<Longrightarrow> area_bytes (b + of_nat off, len) \<subseteq> area_bytes (b, n)"
proof
  fix x assume le: "off + len \<le> n" and "x \<in> area_bytes (b + of_nat off, len)"
  then obtain k where "k < len" "x = b + of_nat (off + k)" by (auto simp: area_bytes_def add.assoc)
  with le show "x \<in> area_bytes (b, n)" unfolding area_bytes_def by (intro image_eqI[of _ _ "off + k"]) auto
qed

lemma areas_length: "length (areas (carve_rings s)) = 3 + 2 * (LNC_NDESC (nrdre s) + LNC_NDESC (ntdre s))"
  using carve_rings_areas[of s] by (metis length_map)

lemma chain_layout:
  assumes a: "A = map (\<lambda>(off, len). (b + of_nat off, len)) items" and c: "chain 0 items n" and n: "n \<le> 2 ^ 32"
  shows "(\<forall>x\<in>set A. area_bytes x \<subseteq> area_bytes (b, n)) \<and>
         (\<forall>j<length A. \<forall>i<j. area_bytes (A ! i) \<inter> area_bytes (A ! j) = {})"
proof -
  have "area_bytes x \<subseteq> area_bytes (b, n)" if "x \<in> set A" for x
  proof -
    from that obtain off len where i: "(off, len) \<in> set items" and x: "x = (b + of_nat off, len)" by (auto simp: a)
    show ?thesis unfolding x by (rule area_bytes_within) (use chain_bounds[OF c i] in simp)
  qed
  moreover have "area_bytes (A ! i) \<inter> area_bytes (A ! j) = {}" if "i < j" "j < length items" for i j
  proof -
    obtain o1 l1 o2 l2 where x: "items ! i = (o1, l1)" "items ! j = (o2, l2)"
      by (cases "items ! i"; cases "items ! j") blast
    then have "o1 + l1 \<le> o2" using chain_disjoint[OF c that] by simp
    moreover have "o2 + l2 \<le> 2 ^ 32"
      using chain_bounds[OF c, of o2 l2] that x n nth_mem[OF that(2)] by simp
    ultimately show ?thesis using that x by (simp add: a area_bytes_disjoint)
  qed
  ultimately show ?thesis by (simp add: a)
qed

lemma areas_layout:
  assumes "lnc_mem_size (nrdre s) (ntdre s) \<le> 2 ^ 32"
  shows "(\<forall>x\<in>set (areas (carve_rings s)).
            area_bytes x \<subseteq> area_bytes (ring_base s, lnc_mem_size (nrdre s) (ntdre s))) \<and>
         (\<forall>j<length (areas (carve_rings s)). \<forall>i<j.
            area_bytes (areas (carve_rings s) ! i) \<inter> area_bytes (areas (carve_rings s) ! j) = {})"
  using carve_rings_areas[of s] chain_layout[OF _ _ assms] by blast

lemma areas_disjoint:
  assumes "lnc_mem_size (nrdre s) (ntdre s) \<le> 2 ^ 32" "i < j" "j < length (areas (carve_rings s))"
  shows "area_bytes (areas (carve_rings s) ! i) \<inter> area_bytes (areas (carve_rings s) ! j) = {}"
  using areas_layout[OF assms(1)] assms(2,3) by blast

subsection \<open>Ring geometry\<close>

text \<open>What the handlers rely on: full-length rings whose descriptors are distinct objects.\<close>

definition ring_geom :: "'a lnc_softc_scheme \<Rightarrow> bool" where
  "ring_geom s \<longleftrightarrow>
     length (recv_ring s) = LNC_NDESC (nrdre s) \<and> length (trans_ring s) = LNC_NDESC (ntdre s) \<and>
     distinct (map hre_md (recv_ring s @ trans_ring s))"

definition buffers_apart :: "'a lnc_softc_scheme \<Rightarrow> bool" where
  "buffers_apart s \<longleftrightarrow>
     (\<forall>j<length (trans_ring s). \<forall>i<length (trans_ring s). i \<noteq> j \<longrightarrow>
        area_bytes (hre_data (trans_ring s ! i), LNC_TRANSBUFSIZE) \<inter>
        area_bytes (hre_data (trans_ring s ! j), LNC_TRANSBUFSIZE) = {})"

lemma upd_mds_mds: "mds (mem (upd_mds a f s)) b = (if b = a then f (mds (mem s) a) else mds (mem s) b)"
  by (simp add: upd_mds_def)

lemma ring_geom_distinct:
  assumes "ring_geom s"
  shows "i < LNC_NDESC (nrdre s) \<Longrightarrow> j < LNC_NDESC (nrdre s) \<Longrightarrow>
           hre_md (recv_ring s ! i) = hre_md (recv_ring s ! j) \<longleftrightarrow> i = j"
    and "i < LNC_NDESC (ntdre s) \<Longrightarrow> j < LNC_NDESC (ntdre s) \<Longrightarrow>
           hre_md (trans_ring s ! i) = hre_md (trans_ring s ! j) \<longleftrightarrow> i = j"
    and "i < LNC_NDESC (nrdre s) \<Longrightarrow> j < LNC_NDESC (ntdre s) \<Longrightarrow>
           hre_md (recv_ring s ! i) \<noteq> hre_md (trans_ring s ! j)"
proof -
  have d: "distinct (map hre_md (recv_ring s))" "distinct (map hre_md (trans_ring s))"
    and x: "set (map hre_md (recv_ring s)) \<inter> set (map hre_md (trans_ring s)) = {}"
    and l: "length (recv_ring s) = LNC_NDESC (nrdre s)" "length (trans_ring s) = LNC_NDESC (ntdre s)"
    using assms by (auto simp: ring_geom_def)
  show "i < LNC_NDESC (nrdre s) \<Longrightarrow> j < LNC_NDESC (nrdre s) \<Longrightarrow>
           hre_md (recv_ring s ! i) = hre_md (recv_ring s ! j) \<longleftrightarrow> i = j"
    using nth_eq_iff_index_eq[OF d(1), of i j] l by simp
  show "i < LNC_NDESC (ntdre s) \<Longrightarrow> j < LNC_NDESC (ntdre s) \<Longrightarrow>
           hre_md (trans_ring s ! i) = hre_md (trans_ring s ! j) \<longleftrightarrow> i = j"
    using nth_eq_iff_index_eq[OF d(2), of i j] l by simp
  show "i < LNC_NDESC (nrdre s) \<Longrightarrow> j < LNC_NDESC (ntdre s) \<Longrightarrow>
           hre_md (recv_ring s ! i) \<noteq> hre_md (trans_ring s ! j)"
  proof
    assume i: "i < LNC_NDESC (nrdre s)" and j: "j < LNC_NDESC (ntdre s)"
      and e: "hre_md (recv_ring s ! i) = hre_md (trans_ring s ! j)"
    have "hre_md (recv_ring s ! i) \<in> set (map hre_md (recv_ring s))"
      "hre_md (trans_ring s ! j) \<in> set (map hre_md (trans_ring s))" using i j l by simp_all
    then show False using x e by auto
  qed
qed

text \<open>A descriptor write changes no variable of the driver object.\<close>

lemma upd_mds_sel [simp]:
  fixes s :: "'a lnc_softc_scheme"
  shows
    "memDescr (upd_mds a f s) = memDescr s" "ring_base (upd_mds a f s) = ring_base s"
    "nrdre (upd_mds a f s) = nrdre s" "recv_ring (upd_mds a f s) = recv_ring s"
    "recv_next (upd_mds a f s) = recv_next s" "ntdre (upd_mds a f s) = ntdre s"
    "trans_ring (upd_mds a f s) = trans_ring s" "trans_next (upd_mds a f s) = trans_next s"
    "init_block (upd_mds a f s) = init_block s"
    "init_block_addr (upd_mds a f s) = init_block_addr s"
    "pending_transmits (upd_mds a f s) = pending_transmits s"
    "next_to_send (upd_mds a f s) = next_to_send s" "ladrb (upd_mds a f s) = ladrb s"
    "dwio (upd_mds a f s) = dwio s" "flags (upd_mds a f s) = flags s"
    "nic_mode (upd_mds a f s) = nic_mode s" "if_drv_flags (upd_mds a f s) = if_drv_flags s"
    "if_flags (upd_mds a f s) = if_flags s" "trace (upd_mds a f s) = trace s"
    "ram (mem (upd_mds a f s)) = ram (mem s)"
  by (simp_all add: upd_mds_def)

lemma upd_mds_sel_pcnet [simp]:
  fixes s :: pcnet
  shows
    "netif (upd_mds a f s) = netif s" "pciNub (upd_mds a f s) = pciNub s"
    "workLoop (upd_mds a f s) = workLoop s" "interruptSrc (upd_mds a f s) = interruptSrc s"
    "transmitQueue (upd_mds a f s) = transmitQueue s" "timerSrc (upd_mds a f s) = timerSrc s"
    "csrMap (upd_mds a f s) = csrMap s" "mediumDict (upd_mds a f s) = mediumDict s"
    "netStats (upd_mds a f s) = netStats s" "etherStats (upd_mds a f s) = etherStats s"
    "mediumTable (upd_mds a f s) = mediumTable s"
    "currentLevel (upd_mds a f s) = currentLevel s"
    "enabledByBSD (upd_mds a f s) = enabledByBSD s"
    "enabledByKDP (upd_mds a f s) = enabledByKDP s"
    "interruptEnabled (upd_mds a f s) = interruptEnabled s"
    "currentMediumIndex (upd_mds a f s) = currentMediumIndex s"
    "mediumIndexLastReported (upd_mds a f s) = mediumIndexLastReported s"
  by (simp_all add: upd_mds_def)

lemmas upd_md_sel [simp] =
  upd_mds_sel[of "hre_md (trans_ring s ! i)" f s for s i f, folded upd_tx_md_def]
  upd_mds_sel[of "hre_md (recv_ring s ! i)" f s for s i f, folded upd_rx_md_def]
  upd_mds_sel_pcnet[of "hre_md (trans_ring s ! i)" f s for s i f, folded upd_tx_md_def]
  upd_mds_sel_pcnet[of "hre_md (recv_ring s ! i)" f s for s i f, folded upd_rx_md_def]

lemma tx_md_upd:
  "ring_geom s \<Longrightarrow> i < LNC_NDESC (ntdre s) \<Longrightarrow> j < LNC_NDESC (ntdre s) \<Longrightarrow>
     tx_md (upd_tx_md i f s) j = (if j = i then f (tx_md s i) else tx_md s j)"
  using ring_geom_distinct(2)[of s i j]
  by (auto simp: tx_md_def upd_tx_md_def upd_mds_def)

lemma rx_md_upd:
  "ring_geom s \<Longrightarrow> i < LNC_NDESC (nrdre s) \<Longrightarrow> j < LNC_NDESC (nrdre s) \<Longrightarrow>
     rx_md (upd_rx_md i f s) j = (if j = i then f (rx_md s i) else rx_md s j)"
  using ring_geom_distinct(1)[of s i j]
  by (auto simp: rx_md_def upd_rx_md_def upd_mds_def)

lemma rx_md_upd_tx:
  "ring_geom s \<Longrightarrow> i < LNC_NDESC (ntdre s) \<Longrightarrow> j < LNC_NDESC (nrdre s) \<Longrightarrow>
     rx_md (upd_tx_md i f s) j = rx_md s j"
  using ring_geom_distinct(3)[of s j i] by (simp add: rx_md_def upd_tx_md_def upd_mds_def)

lemma tx_md_upd_rx:
  "ring_geom s \<Longrightarrow> i < LNC_NDESC (nrdre s) \<Longrightarrow> j < LNC_NDESC (ntdre s) \<Longrightarrow>
     tx_md (upd_rx_md i f s) j = tx_md s j"
  using ring_geom_distinct(3)[of s i j] by (simp add: tx_md_def upd_rx_md_def upd_mds_def)

lemma same_vars_upd_md [simp]:
  "same_vars s (upd_tx_md i f s)" "same_vars s (upd_rx_md i f s)"
  by (simp_all add: same_vars_def upd_tx_md_def upd_rx_md_def upd_mds_def)

lemma ring_geom_upd [simp]:
  "ring_geom (upd_tx_md i f s) = ring_geom s" "ring_geom (upd_rx_md i f s) = ring_geom s"
  by (simp_all add: ring_geom_def)

end
