(* ===== verification/Init_Facts.thy ===== *)
theory Init_Facts
  imports Layout
begin

text \<open>
  What initialization establishes: the rings \<open>init_rings\<close> builds, and the state \<open>lnc_init\<close>
  leaves, for every behaviour of the chip.
\<close>

unbundle bit_operations_syntax

subsection \<open>The carved rings\<close>

lemma carve_rings_sel [simp]:
  "nrdre (carve_rings s) = nrdre s" "ntdre (carve_rings s) = ntdre s"
  "ring_base (carve_rings s) = ring_base s" "mem (carve_rings s) = mem s"
  "trace (carve_rings s) = trace s" "recv_next (carve_rings s) = recv_next s"
  "trans_next (carve_rings s) = trans_next s" "dwio (carve_rings s) = dwio s"
  by (simp_all add: carve_rings_def carve_eq Let_def)

lemma carve_rings_length:
  "length (recv_ring (carve_rings s)) = LNC_NDESC (nrdre s)"
  "length (trans_ring (carve_rings s)) = LNC_NDESC (ntdre s)"
  by (simp_all add: carve_rings_def carve_eq Let_def)

lemma areas_md:
  "i < length (recv_ring s) + length (trans_ring s) \<Longrightarrow>
   areas s ! (3 + i) = (hre_md ((recv_ring s @ trans_ring s) ! i), sizeof_mds)"
  by (auto simp: areas_def nth_append)

lemma areas_buffer:
  "i < length (trans_ring s) \<Longrightarrow>
   areas s ! (3 + 2 * length (recv_ring s) + length (trans_ring s) + i)
     = (hre_data (trans_ring s ! i), LNC_TRANSBUFSIZE)"
  by (simp add: areas_def nth_append numeral_3_eq_3)

lemma carve_rings_disjoint:
  assumes "lnc_mem_size (nrdre s) (ntdre s) \<le> 2 ^ 32"
    "i \<noteq> j" "i < length (areas (carve_rings s))" "j < length (areas (carve_rings s))"
  shows "area_bytes (areas (carve_rings s) ! i) \<inter> area_bytes (areas (carve_rings s) ! j) = {}"
proof (cases "i < j")
  case True
  then show ?thesis using areas_disjoint[OF assms(1)] assms(4) by blast
next
  case False
  then have "j < i" using assms(2) by simp
  then show ?thesis using areas_disjoint[OF assms(1) _ assms(3)] by blast
qed

lemma area_start: "0 < n \<Longrightarrow> a \<in> area_bytes (a, n)"
  unfolding area_bytes_def by (intro image_eqI[of _ _ 0]) simp_all

lemma carve_rings_geom:
  assumes "lnc_mem_size (nrdre s) (ntdre s) \<le> 2 ^ 32"
  shows "ring_geom (carve_rings s) \<and> buffers_apart (carve_rings s)"
proof -
  let ?s = "carve_rings s" and ?R = "LNC_NDESC (nrdre s)" and ?T = "LNC_NDESC (ntdre s)"
  have md: "hre_md ((recv_ring ?s @ trans_ring ?s) ! i) \<noteq> hre_md ((recv_ring ?s @ trans_ring ?s) ! j)"
    if "i \<noteq> j" "i < ?R + ?T" "j < ?R + ?T" for i j
    using carve_rings_disjoint[OF assms, of "3 + i" "3 + j"] that
      area_start[of sizeof_mds "hre_md ((recv_ring ?s @ trans_ring ?s) ! i)"]
    by (auto simp: areas_md carve_rings_length areas_length sizeof_mds_def)
  then have "distinct (map hre_md (recv_ring ?s @ trans_ring ?s))"
    unfolding distinct_conv_nth by (simp add: carve_rings_length del: map_append)
  moreover have "buffers_apart ?s"
    unfolding buffers_apart_def
  proof (intro allI impI)
    fix i j assume "j < length (trans_ring ?s)" "i < length (trans_ring ?s)" "i \<noteq> j"
    then show "area_bytes (hre_data (trans_ring ?s ! i), LNC_TRANSBUFSIZE) \<inter>
          area_bytes (hre_data (trans_ring ?s ! j), LNC_TRANSBUFSIZE) = {}"
      using carve_rings_disjoint[OF assms, of "3 + 2 * ?R + ?T + i" "3 + 2 * ?R + ?T + j"]
        areas_buffer[of i ?s] areas_buffer[of j ?s]
      by (simp add: carve_rings_length areas_length)
  qed
  ultimately show ?thesis by (simp add: ring_geom_def carve_rings_length)
qed

subsection \<open>The descriptors\<close>

text \<open>A pass over distinct indices applies its update once to each.\<close>

lemma fold_init_rx:
  assumes "ring_geom s" "\<forall>i\<in>set is. i < LNC_NDESC (nrdre s)" "distinct is"
  shows "same_vars s (fold (init_rx_md E) is s) \<and> trace (fold (init_rx_md E) is s) = trace s \<and>
     (\<forall>j<LNC_NDESC (nrdre s). rx_md (fold (init_rx_md E) is s) j =
        (if j \<in> set is then (rx_md s j)\<lparr>mds_buffer := iokit_kvtop E (ring_base s) (hre_data (recv_ring s ! j)),
             mds_length := - of_nat LNC_RECVBUFSIZE, mds_status := RMD_OWN, mds_misc := 0\<rparr>
         else rx_md s j)) \<and>
     (\<forall>j<LNC_NDESC (ntdre s). tx_md (fold (init_rx_md E) is s) j = tx_md s j)"
  using assms
proof (induction "is" arbitrary: s)
  case (Cons i "is")
  let ?s = "init_rx_md E i s"
  have sv: "same_vars s ?s" by (simp add: init_rx_md_def)
  have g: "ring_geom ?s" "\<forall>i\<in>set is. i < LNC_NDESC (nrdre ?s)"
    using Cons.prems by (simp_all add: init_rx_md_def)
  have "rx_md ?s j = (if j = i then (rx_md s j)\<lparr>mds_buffer := iokit_kvtop E (ring_base s) (hre_data (recv_ring s ! j)),
             mds_length := - of_nat LNC_RECVBUFSIZE, mds_status := RMD_OWN, mds_misc := 0\<rparr> else rx_md s j)"
    if "j < LNC_NDESC (nrdre s)" for j
    using Cons.prems that by (simp add: init_rx_md_def rx_md_upd)
  moreover have "tx_md ?s j = tx_md s j" if "j < LNC_NDESC (ntdre s)" for j
    using Cons.prems that by (simp add: init_rx_md_def tx_md_upd_rx)
  ultimately show ?case
    using Cons.IH[OF g] Cons.prems same_vars_trans[OF sv]
    by (simp add: init_rx_md_def)
qed simp

lemma fold_init_tx:
  assumes "ring_geom s" "\<forall>i\<in>set is. i < LNC_NDESC (ntdre s)" "distinct is"
  shows "same_vars s (fold (init_tx_md E) is s) \<and> trace (fold (init_tx_md E) is s) = trace s \<and>
     (\<forall>j<LNC_NDESC (ntdre s). tx_md (fold (init_tx_md E) is s) j =
        (if j \<in> set is then set_ext_status 0 ((tx_md s j)
             \<lparr>mds_buffer := iokit_kvtop E (ring_base s) (hre_data (trans_ring s ! j)),
              mds_length := 0, mds_status := 0\<rparr>)
         else tx_md s j)) \<and>
     (\<forall>j<LNC_NDESC (nrdre s). rx_md (fold (init_tx_md E) is s) j = rx_md s j)"
  using assms
proof (induction "is" arbitrary: s)
  case (Cons i "is")
  let ?s = "init_tx_md E i s"
  have sv: "same_vars s ?s" by (simp add: init_tx_md_def)
  have g: "ring_geom ?s" "\<forall>i\<in>set is. i < LNC_NDESC (ntdre ?s)"
    using Cons.prems by (simp_all add: init_tx_md_def)
  have "tx_md ?s j = (if j = i then set_ext_status 0 ((tx_md s j)
             \<lparr>mds_buffer := iokit_kvtop E (ring_base s) (hre_data (trans_ring s ! j)),
              mds_length := 0, mds_status := 0\<rparr>) else tx_md s j)"
    if "j < LNC_NDESC (ntdre s)" for j
    using Cons.prems that by (simp add: init_tx_md_def tx_md_upd)
  moreover have "rx_md ?s j = rx_md s j" if "j < LNC_NDESC (nrdre s)" for j
    using Cons.prems that by (simp add: init_tx_md_def rx_md_upd_tx)
  ultimately show ?case
    using Cons.IH[OF g] Cons.prems same_vars_trans[OF sv]
    by (simp add: init_tx_md_def)
qed simp

definition rings_fresh :: "env \<Rightarrow> 'a lnc_softc_scheme \<Rightarrow> bool" where
  "rings_fresh E s \<longleftrightarrow>
     recv_next s = 0 \<and> trans_next s = 0 \<and> next_to_send s = 0 \<and>
     (\<forall>j<LNC_NDESC (nrdre s).
        mds_buffer (rx_md s j) = iokit_kvtop E (ring_base s) (hre_data (recv_ring s ! j)) \<and>
        mds_length (rx_md s j) = - of_nat LNC_RECVBUFSIZE \<and>
        mds_status (rx_md s j) = RMD_OWN \<and> mds_misc (rx_md s j) = 0) \<and>
     (\<forall>j<LNC_NDESC (ntdre s).
        mds_buffer (tx_md s j) = iokit_kvtop E (ring_base s) (hre_data (trans_ring s ! j)) \<and>
        mds_length (tx_md s j) = 0 \<and> mds_status (tx_md s j) = 0 \<and> ext_status (tx_md s j) = 0)"

lemma init_rings_fresh:
  assumes m: "lnc_mem_size (nrdre s) (ntdre s) \<le> 2 ^ 32"
  shows "ring_geom (init_rings E s) \<and> buffers_apart (init_rings E s) \<and> rings_fresh E (init_rings E s)"
proof -
  define c where "c = carve_rings (s\<lparr>recv_next := 0, trans_next := 0\<rparr>)"
  define r where "r = fold (init_rx_md E) [0..<LNC_NDESC (nrdre c)] c"
  define t where "t = fold (init_tx_md E) [0..<LNC_NDESC (ntdre r)] r"
  have c: "ring_geom c \<and> buffers_apart c" unfolding c_def by (rule carve_rings_geom) (use m in simp)
  have c0: "recv_next c = 0" "trans_next c = 0" by (simp_all add: c_def)
  have r: "same_vars c r"
     "\<forall>j<LNC_NDESC (nrdre c). rx_md r j = (rx_md c j)
        \<lparr>mds_buffer := iokit_kvtop E (ring_base c) (hre_data (recv_ring c ! j)),
         mds_length := - of_nat LNC_RECVBUFSIZE, mds_status := RMD_OWN, mds_misc := 0\<rparr>"
    using fold_init_rx[of c "[0..<LNC_NDESC (nrdre c)]" E] c unfolding r_def by auto
  have gr: "ring_geom r" using c by (simp add: ring_geom_def same_vars_sel[OF r(1)])
  have t: "same_vars r t"
     "\<forall>j<LNC_NDESC (ntdre r). tx_md t j = set_ext_status 0 ((tx_md r j)
        \<lparr>mds_buffer := iokit_kvtop E (ring_base r) (hre_data (trans_ring r ! j)),
         mds_length := 0, mds_status := 0\<rparr>)"
     "\<forall>j<LNC_NDESC (nrdre r). rx_md t j = rx_md r j"
    using fold_init_tx[of r "[0..<LNC_NDESC (ntdre r)]" E] gr unfolding t_def by auto
  have st: "same_vars c t" using r(1) t(1) by (rule same_vars_trans)
  have md: "rx_md (x\<lparr>next_to_send := k\<rparr>) j = rx_md x j" "tx_md (x\<lparr>next_to_send := k\<rparr>) j = tx_md x j"
    for x :: "'a lnc_softc_scheme" and k j
    by (simp_all add: rx_md_def tx_md_def)
  have i: "init_rings E s = t\<lparr>next_to_send := 0\<rparr>" by (simp add: init_rings_def Let_def c_def r_def t_def)
  have "rings_fresh E (t\<lparr>next_to_send := 0\<rparr>)"
    using r(2) t(2,3) by (simp add: rings_fresh_def md same_vars_sel[OF st] same_vars_sel[OF r(1)] c0)
  then show ?thesis
    using c by (simp add: i ring_geom_def buffers_apart_def same_vars_sel[OF st])
qed

subsection \<open>Programming the chip\<close>

lemma evolves_set_medium [simp]: "evolves E s (snd (lnc_set_medium E m s))"
  by (auto simp: lnc_set_medium_def Let_def split_def intro: evolves_trans[OF evolves_read_bcr evolves_write_bcr])

lemma evolves_poll_idon [simp]: "evolves E s (poll_idon E n s)"
proof (induction n arbitrary: s)
  case (Suc n)
  show ?case
    using evolves_trans[OF evolves_read_csr Suc] by (simp add: Let_def split_def)
qed simp

lemma evolves_read_prom [simp]: "evolves E s (snd (read_prom E is s))"
proof (induction "is" arbitrary: s)
  case (Cons i "is")
  from evolves_trans[OF evolves_emit[OF evolves_refl] Cons] show ?case
    by (simp add: drv_ops Let_def split_def)
qed simp

lemma evolves_load_init_address [simp]: "evolves E s (load_init_address E s)"
  unfolding load_init_address_def Let_def split_def
  by (intro evolves_trans[OF _ evolves_write_csr] evolves_trans[OF _ evolves_write_bcr]
      evolves_trans[OF _ evolves_read_bcr] evolves_trans[OF _ evolves_set_medium] evolves_reset)

lemma evolves_program_chip [simp]: "evolves E s (program_chip E s)"
  unfolding program_chip_def
  by (intro evolves_trans[OF _ evolves_poll_idon] evolves_trans[OF _ evolves_write_csr]
      evolves_load_init_address)

text \<open>When the chip starts reading its init block, CSR1 and CSR2 hold the block's bus address.\<close>

lemma bcr_last_write_csr: "bcr_last (trace (write_csr E p v s)) q = bcr_last (trace s) q"
  by (simp add: drv_ops hw_consts)

lemma load_init_address_regs:
  fixes E :: env and s :: "'a lnc_softc_scheme"
  defines "ib \<equiv> iokit_kvtop E (ring_base s) (init_block_addr s)"
  shows "csr_last (trace (load_init_address E s)) INIT_BLOCK_ADDRESS_LOW = Some (ucast ib)"
    and "csr_last (trace (load_init_address E s)) INIT_BLOCK_ADDRESS_HIGH = Some (ucast (drop_bit 16 ib))"
    and "bcr_last (trace (load_init_address E s)) 20 = Some 2"
proof -
  note regs = load_init_address_def Let_def split_def csr.wr_last bcr.wr_last bcr.rd_keeps
    bcr_last_write_csr lnc_set_medium_def
  show "csr_last (trace (load_init_address E s)) INIT_BLOCK_ADDRESS_LOW = Some (ucast ib)"
    and "csr_last (trace (load_init_address E s)) INIT_BLOCK_ADDRESS_HIGH = Some (ucast (drop_bit 16 ib))"
    and "bcr_last (trace (load_init_address E s)) 20 = Some 2"
    by (simp_all add: regs) (simp_all add: hw_consts ib_def)
qed

subsection \<open>The state after \<open>lnc_init\<close>\<close>

lemmas init_op_sel [simp] =
  same_vars_sel[OF evolves_same_vars[OF evolves_program_chip]] same_vars_sel_pcnet[OF evolves_same_vars[OF evolves_program_chip]]
  same_vars_sel[OF evolves_same_vars[OF evolves_read_prom]] same_vars_sel_pcnet[OF evolves_same_vars[OF evolves_read_prom]]

lemma detect_dwio_sel [simp]:
  "nrdre (detect_dwio E s) = nrdre s" "ntdre (detect_dwio E s) = ntdre s"
  "ring_base (detect_dwio E s) = ring_base s" "nic_mode (detect_dwio E s) = nic_mode s"
  "ladrb (detect_dwio E s) = ladrb s" "flags (detect_dwio E s) = flags s"
  "if_drv_flags (detect_dwio E s) = if_drv_flags s"
  by (simp_all add: detect_dwio_def drv_ops Let_def split: prod.splits if_splits)

text \<open>
  The detection probes the chip three times at most, and its result depends on the first
  probe alone: 32-bit mode unless 16-bit access works. In particular it does not matter that
  the second test calls \<open>pcnet32_check_wio\<close> where \<open>pcnet32_check_dwio\<close> is meant.
\<close>

lemma detect_dwio_result:
  "dwio (detect_dwio E s) \<longleftrightarrow>
     \<not> (fst (read_csr_wio E 0 s) = 4 \<and> fst (pcnet32_check_wio E (snd (read_csr_wio E 0 s))))"
  by (simp add: detect_dwio_def drv_ops Let_def split: prod.splits if_splits)

lemma carve_rings_flags [simp]:
  "nic_mode (carve_rings s) = nic_mode s" "ladrb (carve_rings s) = ladrb s"
  "flags (carve_rings s) = flags s" "if_drv_flags (carve_rings s) = if_drv_flags s"
  by (simp_all add: carve_rings_def carve_eq Let_def)

lemma fold_same_vars: "(\<And>i s. same_vars s (f i s)) \<Longrightarrow> same_vars s (fold f is s)"
proof (induction "is" arbitrary: s)
  case (Cons i "is")
  from Cons.prems Cons.IH[OF Cons.prems, of "f i s"] show ?case
    by (auto intro: same_vars_trans)
qed simp

lemma init_rings_vars: "\<exists>t. same_vars (carve_rings (s\<lparr>recv_next := 0, trans_next := 0\<rparr>)) t \<and>
    trace t = trace s \<and> init_rings E s = t\<lparr>next_to_send := 0\<rparr>"
proof -
  have f: "same_vars s (fold (init_rx_md E) is s)" "same_vars s (fold (init_tx_md E) is s)"
    for "is" and s :: "'a lnc_softc_scheme"
    by (rule fold_same_vars; simp add: init_rx_md_def init_tx_md_def)+
  have tr: "trace (fold (init_rx_md E) is s) = trace s" "trace (fold (init_tx_md E) is s) = trace s"
    for "is" and s :: "'a lnc_softc_scheme"
    by (induction "is" arbitrary: s) (simp_all add: init_rx_md_def init_tx_md_def)
  show ?thesis
    unfolding init_rings_def Let_def
    by (rule exI, intro conjI, rule same_vars_trans[OF f(1) f(2)]) (simp_all add: tr)
qed

lemma init_rings_sel [simp]:
  "nrdre (init_rings E s) = nrdre s" "ntdre (init_rings E s) = ntdre s"
  "ring_base (init_rings E s) = ring_base s" "nic_mode (init_rings E s) = nic_mode s"
  "ladrb (init_rings E s) = ladrb s" "flags (init_rings E s) = flags s"
  "if_drv_flags (init_rings E s) = if_drv_flags s" "trace (init_rings E s) = trace s"
  using init_rings_vars[of s E] by (auto simp: same_vars_sel)

definition driver_ready :: "env \<Rightarrow> 'a lnc_softc_scheme \<Rightarrow> bool" where
  "driver_ready E s \<longleftrightarrow>
     ring_geom s \<and> buffers_apart s \<and> recv_next s = 0 \<and> trans_next s = 0 \<and> next_to_send s = 0 \<and>
     pending_transmits s = 0 \<and> has (flags s) LNC_INITIALISED \<and>
     ib_mode (init_block s) = ucast (nic_mode s) \<and> ib_ladrb (init_block s) = ladrb s \<and>
     ib_tlen_rlen (init_block s) = push_bit 12 (of_nat (ntdre s)) OR push_bit 4 (of_nat (nrdre s)) \<and>
     ib_rx_ring (init_block s) = iokit_kvtop E (ring_base s) (hre_md (recv_ring s ! 0)) \<and>
     ib_tx_ring (init_block s) = iokit_kvtop E (ring_base s) (hre_md (trans_ring s ! 0)) \<and>
     length (ib_phys_addr (init_block s)) = ETHER_ADDR_LEN"

lemma read_prom_length [simp]: "length (fst (read_prom E is s)) = length is"
  by (induction "is" arbitrary: s) (simp_all add: Let_def split_def)

lemma prepare_init_ready:
  assumes "lnc_mem_size (nrdre s) (ntdre s) \<le> 2 ^ 32"
  shows "driver_ready E (prepare_init E s)"
proof -
  define u where "u = (detect_dwio E (pcnet32_stop E s))\<lparr>if_flags := if_flags (detect_dwio E (pcnet32_stop E s))
    OR (LNC_IFF_BROADCAST OR LNC_IFF_SIMPLEX OR LNC_IFF_MULTICAST)\<rparr>"
  define r where "r = init_rings E u"
  have g: "ring_geom r" "buffers_apart r" "rings_fresh E r"
    using init_rings_fresh[of u E] assms unfolding r_def u_def by simp_all
  have "prepare_init E s = (fill_init_block E r)
      \<lparr>flags := flags (fill_init_block E r) OR LNC_INITIALISED, pending_transmits := 0\<rparr>"
    by (simp add: prepare_init_def Let_def r_def u_def)
  with g show ?thesis
    by (simp add: driver_ready_def fill_init_block_def Let_def split_def ring_geom_def
        buffers_apart_def rings_fresh_def has_def hw_consts)
qed

lemma driver_ready_same: "same_vars s t \<Longrightarrow> driver_ready E t \<longleftrightarrow> driver_ready E s"
  by (simp add: driver_ready_def ring_geom_def buffers_apart_def same_vars_sel)

lemma driver_ready_flags: "driver_ready E (s\<lparr>if_drv_flags := v\<rparr>) \<longleftrightarrow> driver_ready E s"
  by (simp add: driver_ready_def ring_geom_def buffers_apart_def)

lemmas driver_ready_frame =
  driver_ready_same[OF evolves_same_vars[OF evolves_program_chip]] driver_ready_same[OF same_vars_read_csr]
  driver_ready_same[OF same_vars_start] driver_ready_same[OF same_vars_emit]

lemma lnc_init_ready:
  assumes "lnc_mem_size (nrdre s) (ntdre s) \<le> 2 ^ 32"
  shows "driver_ready E (lnc_init E s)"
  using prepare_init_ready[OF assms, of E]
  by (simp add: lnc_init_def Let_def split_def driver_ready_flags driver_ready_frame)

lemma prepare_init_sel [simp]:
  "nrdre (prepare_init E s) = nrdre s" "ntdre (prepare_init E s) = ntdre s"
  "if_drv_flags (prepare_init E s) = if_drv_flags s"
  by (simp_all add: prepare_init_def fill_init_block_def Let_def split_def)

text \<open>The answer of the last poll decides whether the chip is started.\<close>

definition init_done :: "env \<Rightarrow> pcnet \<Rightarrow> bool" where
  "init_done E s \<longleftrightarrow> has (fst (read_csr E CSR (program_chip E (prepare_init E s)))) CSR_IDON"

lemma csr_last_emit_keeps: "keeps_regs e \<Longrightarrow> csr_last (trace (emit E e s)) p = csr_last (trace s) p"
  by (simp add: reg_last_keeps)

lemma lnc_init_running:
  "has (if_drv_flags (lnc_init E s)) LNC_IFF_DRV_RUNNING
     \<longleftrightarrow> init_done E s \<or> has (if_drv_flags s) LNC_IFF_DRV_RUNNING"
  "init_done E s \<Longrightarrow> csr_last (trace (lnc_init E s)) CSR = Some (CSR_STRT OR CSR_IENA)"
proof -
  have "has ((x OR LNC_IFF_DRV_RUNNING) AND NOT LNC_IFF_DRV_OACTIVE) LNC_IFF_DRV_RUNNING" for x
    by (subst has_andnot_disjoint) (simp_all add: has_or, simp_all add: has_def hw_consts)
  then show "has (if_drv_flags (lnc_init E s)) LNC_IFF_DRV_RUNNING
     \<longleftrightarrow> init_done E s \<or> has (if_drv_flags s) LNC_IFF_DRV_RUNNING"
    by (simp add: lnc_init_def init_done_def Let_def split_def)
  show "init_done E s \<Longrightarrow> csr_last (trace (lnc_init E s)) CSR = Some (CSR_STRT OR CSR_IENA)"
    by (simp add: lnc_init_def init_done_def Let_def split_def pcnet32_start_def csr.wr_last
        csr_last_emit_keeps keeps_regs_def)
qed

subsection \<open>The order of the register writes\<close>

definition later :: "'a hist_scheme \<Rightarrow> 'b hist_scheme \<Rightarrow> bool" where
  "later s t \<longleftrightarrow> (\<exists>h. trace t = h @ trace s)"

lemma later_refl [simp]: "later s s"
  by (simp add: later_def)

lemma later_trans: "later s t \<Longrightarrow> later t u \<Longrightarrow> later s u"
  by (auto simp: later_def)

lemma later_emit: "later s t \<Longrightarrow> later s (emit E e t)"
  by (auto simp: later_def)

lemma evolves_is_later: "evolves E s t \<Longrightarrow> later s t"
  by (simp add: later_def evolves_later)

text \<open>
  The write of \<open>CSR_INIT\<close> occurs in the history of \<open>lnc_init\<close>, at a point where CSR1, CSR2 and
  BCR20 already hold the init block's bus address and the 32-bit software style.
\<close>

lemma lnc_init_order:
  fixes E :: env and s :: pcnet
  defines "u \<equiv> load_init_address E (prepare_init E s)"
    and "ib \<equiv> iokit_kvtop E (ring_base s) (init_block_addr (lnc_init E s))"
  shows "later (write_csr E CSR CSR_INIT u) (lnc_init E s)
     \<and> csr_last (trace u) INIT_BLOCK_ADDRESS_LOW = Some (ucast ib)
     \<and> csr_last (trace u) INIT_BLOCK_ADDRESS_HIGH = Some (ucast (drop_bit 16 ib))
     \<and> bcr_last (trace u) 20 = Some 2"
proof -
  have "ring_base (prepare_init E s) = ring_base s"
    by (simp add: prepare_init_def fill_init_block_def Let_def split_def)
  moreover have "init_block_addr (lnc_init E s) = init_block_addr (prepare_init E s)"
    by (simp add: lnc_init_def Let_def split_def)
  moreover have "later (write_csr E CSR CSR_INIT u) (lnc_init E s)"
  proof -
    let ?p = "program_chip E (prepare_init E s)"
    have "later (write_csr E CSR CSR_INIT u) (snd (read_csr E CSR ?p))"
      unfolding u_def program_chip_def by (rule later_trans[OF evolves_is_later[OF evolves_poll_idon] evolves_is_later[OF evolves_read_csr]])
    then have a: "later (write_csr E CSR CSR_INIT u) (pcnet32_start E (snd (read_csr E CSR ?p)))"
      by (rule later_trans[OF _ evolves_is_later[OF evolves_start]])
    have drv: "later t (v\<lparr>if_drv_flags := k\<rparr>) = later t v" for t v :: pcnet and k
      by (simp add: later_def)
    show ?thesis
      using a \<open>later _ (snd _)\<close>
      by (simp add: lnc_init_def Let_def split_def drv later_emit)
  qed
  ultimately show ?thesis
    unfolding u_def ib_def by (simp add: load_init_address_regs)
qed

end
