(* ===== verification/Tx_Facts.thy ===== *)
theory Tx_Facts
  imports Lnc_Tx Init_Facts
begin

text \<open>
  The transmit ring as a bounded FIFO queue. \<open>tx_inv\<close> is the invariant of the ring, \<open>tx_chip\<close>
  what the chip's manual promises of its DMA on it: the chip writes descriptors it owns only,
  keeps their packet delimiters and lengths, and does not write transmit buffers.
\<close>

unbundle bit_operations_syntax

subsection \<open>The contract with the chip, and the invariant\<close>

definition tx_chip :: "env \<Rightarrow> host_ring_entry list \<Rightarrow> bool" where
  "tx_chip E ring \<longleftrightarrow> (\<forall>h m. \<forall>e\<in>set ring.
     let d = mds m (hre_md e); d' = mds (dma E h m) (hre_md e) in
     (\<not> has (mds_status d) TMD_OWN \<longrightarrow> d' = d) \<and>
     (has (mds_status d') TMD_STP \<longleftrightarrow> has (mds_status d) TMD_STP) \<and>
     (has (mds_status d') TMD_ENP \<longleftrightarrow> has (mds_status d) TMD_ENP) \<and>
     mds_length d' = mds_length d \<and>
     (\<forall>x\<in>area_bytes (hre_data e, LNC_TRANSBUFSIZE). ram (dma E h m) x = ram m x))"

definition rings_carved :: "'a lnc_softc_scheme \<Rightarrow> bool" where
  "rings_carved s \<longleftrightarrow> recv_ring s = recv_ring (carve_rings s) \<and> trans_ring s = trans_ring (carve_rings s) \<and>
     lnc_mem_size (nrdre s) (ntdre s) \<le> 2 ^ 32"

abbreviation tx_size :: "'a lnc_softc_scheme \<Rightarrow> nat" where
  "tx_size s \<equiv> LNC_NDESC (ntdre s)"

definition tx_slots :: "'a lnc_softc_scheme \<Rightarrow> nat list" where
  "tx_slots s = cyc_seg (tx_size s) (trans_next s) (nat (pending_transmits s))"

definition tx_geom :: "env \<Rightarrow> 'a lnc_softc_scheme \<Rightarrow> bool" where
  "tx_geom E s \<longleftrightarrow> ring_geom s \<and> buffers_apart s \<and> rings_carved s \<and> tx_chip E (trans_ring s)"

definition tx_inv :: "env \<Rightarrow> 'a lnc_softc_scheme \<Rightarrow> bool" where
  "tx_inv E s \<longleftrightarrow>
     tx_geom E s \<and> recv_next s < LNC_NDESC (nrdre s) \<and> trans_next s < tx_size s \<and> 0 \<le> pending_transmits s \<and> pending_transmits s \<le> int (tx_size s) \<and>
     next_to_send s = (trans_next s + nat (pending_transmits s)) mod tx_size s \<and>
     (\<forall>j\<in>set (tx_slots s). has (mds_status (tx_md s j)) TMD_STP \<and> has (mds_status (tx_md s j)) TMD_ENP \<and>
        unat (- mds_length (tx_md s j)) \<le> LNC_TRANSBUFSIZE) \<and>
     (\<forall>j<tx_size s. j \<notin> set (tx_slots s) \<longrightarrow> mds_status (tx_md s j) = 0)"

text \<open>The geometry depends on five variables of the driver alone.\<close>

lemma tx_geom_cong:
  assumes "ring_base t = ring_base s" "nrdre t = nrdre s" "ntdre t = ntdre s"
    "recv_ring t = recv_ring s" "trans_ring t = trans_ring s"
  shows "tx_geom E t \<longleftrightarrow> tx_geom E s"
proof -
  have "recv_ring (carve_rings t) = recv_ring (carve_rings s)"
    "trans_ring (carve_rings t) = trans_ring (carve_rings s)"
    using assms by (simp_all add: carve_rings_def carve_eq Let_def)
  then show ?thesis
    unfolding tx_geom_def ring_geom_def buffers_apart_def rings_carved_def assms by (simp only:)
qed

text \<open>The invariant depends on these, the ring indices, the count and the statuses.\<close>

lemma tx_inv_cong:
  assumes "ring_base t = ring_base s" "nrdre t = nrdre s" "ntdre t = ntdre s"
    "recv_ring t = recv_ring s" "trans_ring t = trans_ring s" "trans_next t = trans_next s"
    "pending_transmits t = pending_transmits s" "next_to_send t = next_to_send s"
    "recv_next t = recv_next s"
    "\<And>j. j < tx_size s \<Longrightarrow> mds_status (tx_md t j) = mds_status (tx_md s j) \<and>
        mds_length (tx_md t j) = mds_length (tx_md s j)"
  shows "tx_inv E t \<longleftrightarrow> tx_inv E s"
proof -
  have sl: "tx_slots t = tx_slots s" using assms by (simp add: tx_slots_def)
  have l: "j \<in> set (tx_slots s) \<Longrightarrow> j < tx_size s" for j
    unfolding tx_slots_def by (rule cyc_seg_less) simp_all
  show ?thesis
    using assms(10) l unfolding tx_inv_def sl tx_geom_cong[OF assms(1-5)] assms(2,3,6-9) by auto
qed

lemma tx_md_vars [simp]:
  "tx_md (s\<lparr>if_drv_flags := a\<rparr>) j = tx_md s j" "tx_md (s\<lparr>if_flags := b\<rparr>) j = tx_md s j"
  "tx_md (s\<lparr>flags := c\<rparr>) j = tx_md s j" "tx_md (s\<lparr>ladrb := d\<rparr>) j = tx_md s j"
  "tx_md (s\<lparr>init_block := e\<rparr>) j = tx_md s j" "tx_md (s\<lparr>recv_next := f\<rparr>) j = tx_md s j"
  "tx_md (s\<lparr>nic_mode := g\<rparr>) j = tx_md s j" "tx_md (s\<lparr>dwio := h\<rparr>) j = tx_md s j"
  "tx_md (s\<lparr>trans_next := i\<rparr>) j = tx_md s j" "tx_md (s\<lparr>pending_transmits := k\<rparr>) j = tx_md s j"
  "tx_md (s\<lparr>next_to_send := l\<rparr>) j = tx_md s j"
  by (simp_all add: tx_md_def)

lemma tx_md_stats [simp]:
  "tx_md (s\<lparr>netStats := ns\<rparr>) j = tx_md s j" "tx_md (s\<lparr>etherStats := es\<rparr>) j = tx_md s j"
  by (simp_all add: tx_md_def)

lemma tx_inv_vars [simp]:
  "tx_inv E (s\<lparr>if_drv_flags := a\<rparr>) = tx_inv E s" "tx_inv E (s\<lparr>if_flags := a\<rparr>) = tx_inv E s"
  "tx_inv E (s\<lparr>flags := a\<rparr>) = tx_inv E s" "tx_inv E (s\<lparr>ladrb := l\<rparr>) = tx_inv E s"
  "tx_inv E (s\<lparr>nic_mode := a\<rparr>) = tx_inv E s" "tx_inv E (s\<lparr>dwio := w\<rparr>) = tx_inv E s"
  by (rule tx_inv_cong; simp)+

lemma tx_inv_stats [simp]:
  "tx_inv E (s\<lparr>netStats := ns\<rparr>) = tx_inv E s" "tx_inv E (s\<lparr>etherStats := es\<rparr>) = tx_inv E s"
  by (rule tx_inv_cong; simp)+

lemma tx_size_pos [simp]: "0 < tx_size s"
  by simp

lemma tx_slots_less: "j \<in> set (tx_slots s) \<Longrightarrow> j < tx_size s"
  unfolding tx_slots_def by (rule cyc_seg_less[OF tx_size_pos])

lemma tx_chip_md:
  assumes "tx_chip E ring" "e \<in> set ring"
  shows "\<not> has (mds_status (mds m (hre_md e))) TMD_OWN \<Longrightarrow> mds (dma E h m) (hre_md e) = mds m (hre_md e)"
    "has (mds_status (mds (dma E h m) (hre_md e))) TMD_STP = has (mds_status (mds m (hre_md e))) TMD_STP"
    "has (mds_status (mds (dma E h m) (hre_md e))) TMD_ENP = has (mds_status (mds m (hre_md e))) TMD_ENP"
    "mds_length (mds (dma E h m) (hre_md e)) = mds_length (mds m (hre_md e))"
    "x \<in> area_bytes (hre_data e, LNC_TRANSBUFSIZE) \<Longrightarrow> ram (dma E h m) x = ram m x"
  using assms unfolding tx_chip_def Let_def by blast+

lemma tx_inv_emit: "tx_inv E s \<Longrightarrow> tx_inv E (emit E ev s)"
proof -
  assume i: "tx_inv E s"
  have e: "trans_ring s ! j \<in> set (trans_ring s)" if "j < tx_size s" for j
    using i that by (simp add: tx_inv_def tx_geom_def ring_geom_def)
  have "tx_md (emit E ev s) j = mds (dma E (ev # trace s) (mem s)) (hre_md (trans_ring s ! j))" for j
    by (simp add: tx_md_def emit_mem)
  moreover have c: "tx_chip E (trans_ring s)" using i by (simp add: tx_inv_def tx_geom_def)
  ultimately have md: "tx_size s > j \<Longrightarrow> has (mds_status (tx_md (emit E ev s) j)) TMD_STP = has (mds_status (tx_md s j)) TMD_STP"
    "tx_size s > j \<Longrightarrow> has (mds_status (tx_md (emit E ev s) j)) TMD_ENP = has (mds_status (tx_md s j)) TMD_ENP"
    "tx_size s > j \<Longrightarrow> mds_status (tx_md s j) = 0 \<Longrightarrow> mds_status (tx_md (emit E ev s) j) = 0"
    "tx_size s > j \<Longrightarrow> mds_length (tx_md (emit E ev s) j) = mds_length (tx_md s j)" for j
    using tx_chip_md[OF c e[of j]] by (simp_all add: tx_md_def)
  have "tx_geom E (emit E ev s) = tx_geom E s" by (rule tx_geom_cong) simp_all
  then show ?thesis
    using i md tx_slots_less[of _ s] by (simp add: tx_inv_def tx_slots_def)
qed

lemma tx_inv_evolves: "evolves E s t \<Longrightarrow> tx_inv E s \<Longrightarrow> tx_inv E t"
  by (erule evolves_keeps) (auto intro: tx_inv_emit)

subsection \<open>The contents of the queue\<close>

definition slot_bytes :: "'a lnc_softc_scheme \<Rightarrow> nat \<Rightarrow> u8 list" where
  "slot_bytes s i = map (\<lambda>k. ram (mem s) (hre_data (trans_ring s ! i) + of_nat k))
     [0..<unat (- mds_length (tx_md s i))]"

definition tx_queue :: "'a lnc_softc_scheme \<Rightarrow> u8 list list" where
  "tx_queue s = map (slot_bytes s) (tx_slots s)"

lemma tx_queue_length: "tx_inv E s \<Longrightarrow> int (length (tx_queue s)) = pending_transmits s"
  by (simp add: tx_queue_def tx_slots_def tx_inv_def)

lemma tx_queue_cong:
  assumes "ntdre t = ntdre s" "trans_ring t = trans_ring s" "trans_next t = trans_next s"
    "pending_transmits t = pending_transmits s" "ram (mem t) = ram (mem s)"
    "\<And>j. j \<in> set (tx_slots s) \<Longrightarrow> mds_length (tx_md t j) = mds_length (tx_md s j)"
  shows "tx_queue t = tx_queue s"
proof -
  have "tx_slots t = tx_slots s" using assms by (simp add: tx_slots_def)
  moreover have "slot_bytes t j = slot_bytes s j" if "j \<in> set (tx_slots s)" for j
    using assms(6)[OF that] by (simp add: slot_bytes_def assms)
  ultimately show ?thesis by (simp add: tx_queue_def)
qed

lemma tx_queue_vars [simp]:
  "tx_queue (s\<lparr>if_drv_flags := a\<rparr>) = tx_queue s" "tx_queue (s\<lparr>if_flags := a\<rparr>) = tx_queue s"
  "tx_queue (s\<lparr>recv_next := n\<rparr>) = tx_queue s" "tx_queue (s\<lparr>next_to_send := n\<rparr>) = tx_queue s"
  by (rule tx_queue_cong; simp)+

lemma tx_queue_stats [simp]:
  "tx_queue (s\<lparr>netStats := ns\<rparr>) = tx_queue s" "tx_queue (s\<lparr>etherStats := es\<rparr>) = tx_queue s"
  by (rule tx_queue_cong; simp)+

lemma slot_bytes_emit:
  assumes i: "tx_inv E s" and j: "j \<in> set (tx_slots s)"
  shows "slot_bytes (emit E ev s) j = slot_bytes s j"
proof -
  from i have c: "tx_chip E (trans_ring s)" and e: "trans_ring s ! j \<in> set (trans_ring s)"
    using tx_slots_less[OF j] by (simp_all add: tx_inv_def tx_geom_def ring_geom_def)
  have l: "unat (- mds_length (tx_md s j)) \<le> LNC_TRANSBUFSIZE" using i j by (simp add: tx_inv_def)
  have "mds_length (tx_md (emit E ev s) j) = mds_length (tx_md s j)"
    using tx_chip_md(4)[OF c e] by (simp add: tx_md_def emit_mem)
  moreover have "ram (mem (emit E ev s)) (hre_data (trans_ring s ! j) + of_nat k)
      = ram (mem s) (hre_data (trans_ring s ! j) + of_nat k)" if "k < unat (- mds_length (tx_md s j))" for k
    unfolding emit_mem using that l by (intro tx_chip_md(5)[OF c e]) (auto simp: area_bytes_def)
  ultimately show ?thesis by (simp add: slot_bytes_def)
qed

lemma tx_queue_emit: "tx_inv E s \<Longrightarrow> tx_queue (emit E ev s) = tx_queue s"
proof -
  assume i: "tx_inv E s"
  have "tx_slots (emit E ev s) = tx_slots s" by (simp add: tx_slots_def)
  then show ?thesis using slot_bytes_emit[OF i] by (simp add: tx_queue_def)
qed

lemma tx_evolves:
  assumes "evolves E s t" "tx_inv E s"
  shows "tx_inv E t \<and> tx_queue t = tx_queue s"
  using assms by (induction rule: evolves.induct) (auto simp: tx_inv_emit tx_queue_emit)

subsection \<open>Output\<close>

lemma poke_hit: "k < length bs \<Longrightarrow> length bs \<le> 2 ^ 32 \<Longrightarrow> poke a bs m (a + of_nat k) = bs ! k"
proof -
  assume k: "k < length bs" "length bs \<le> 2 ^ 32"
  then have "k mod 2 ^ LENGTH(32) = k" by simp
  then have "unat (of_nat k :: u32) = k" by (metis unat_of_nat)
  with k show ?thesis by (simp add: poke_def)
qed

lemma poke_miss: "x \<notin> area_bytes (a, length bs) \<Longrightarrow> poke a bs m x = m x"
proof -
  assume "x \<notin> area_bytes (a, length bs)"
  then have "\<not> unat (x - a) < length bs"
    unfolding area_bytes_def by (auto intro!: image_eqI[of x _ "unat (x - a)"])
  then show ?thesis by (simp add: poke_def)
qed

lemma poke_append:
  assumes "length d + length e \<le> 2 ^ 32"
  shows "poke (a + of_nat (length d)) e (poke a d m) = poke a (d @ e) m"
proof (cases "e = []")
  case True
  then show ?thesis by (simp add: poke_def)
next
  case False
  with assms have "length d mod 2 ^ LENGTH(32) = length d" by (cases e) simp_all
  then have ud: "unat (of_nat (length d) :: u32) = length d" by (metis unat_of_nat)
  show ?thesis
  proof
    fix x
    let ?n = "unat (x - a)"
    have "unat (x - (a + of_nat (length d))) = unat ((x - a) - of_nat (length d))"
      by (simp add: diff_diff_eq)
    also have "\<dots> = (if length d \<le> ?n then ?n - length d else ?n + 2 ^ 32 - length d)"
      using unat_sub_if'[of "x - a" "of_nat (length d)"] by (simp add: ud)
    finally have *: "unat (x - (a + of_nat (length d)))
        = (if length d \<le> ?n then ?n - length d else ?n + 2 ^ 32 - length d)" .
    show "poke (a + of_nat (length d)) e (poke a d m) x = poke a (d @ e) m x"
      using assms * by (cases "length d \<le> ?n") (auto simp: poke_def nth_append)
  qed
qed

lemma copy_chain_poke: "length (concat ds) \<le> 2 ^ 32 \<Longrightarrow> copy_chain ds a m = poke a (concat ds) m"
proof (induction ds arbitrary: a m)
  case Nil
  then show ?case by (simp add: poke_def)
next
  case (Cons d ds)
  then have "copy_chain ds (a + of_nat (length d)) (poke a d m)
      = poke (a + of_nat (length d)) (concat ds) (poke a d m)"
    by (intro Cons.IH) simp
  with Cons.prems show ?case by (simp add: poke_append)
qed

text \<open>A packet the network stack may hand over: a consistent chain that fits a buffer.\<close>

definition pkt_ok :: "mbuf \<Rightarrow> bool" where
  "pkt_ok pkt \<longleftrightarrow> pkthdr_len pkt = length (concat (mbuf_datas pkt)) \<and> pkthdr_len pkt \<le> LNC_TRANSBUFSIZE"

definition pkt_bytes :: "mbuf \<Rightarrow> u8 list" where
  "pkt_bytes pkt = concat (mbuf_datas pkt)"

text \<open>The memory effect of an accepted packet, before the chip is told about it.\<close>

definition tx_put :: "mbuf \<Rightarrow> 'a lnc_softc_scheme \<Rightarrow> 'a lnc_softc_scheme" where
  "tx_put pkt s =
     (let i = next_to_send s;
          s = s\<lparr>pending_transmits := pending_transmits s + 1\<rparr>;
          s = snd (mbuf_to_buffer pkt (hre_data (trans_ring s ! i)) s);
          s = upd_tx_md i (set_ext_status 0) s;
          s = upd_tx_md i (\<lambda>d. d\<lparr>mds_length := - of_nat (pkthdr_len pkt)\<rparr>) s;
          s = upd_tx_md i (\<lambda>d. d\<lparr>mds_status := TMD_OWN OR TMD_STP OR TMD_ENP\<rparr>) s
      in s\<lparr>next_to_send := LNC_INC_MD_PTR (next_to_send s) (ntdre s)\<rparr>)"

lemma lnc_output_packet_split:
  "lnc_output_packet E pkt s =
     (if int (tx_size s) \<le> pending_transmits s then (kIOReturnOutputStall, s)
      else let t = write_csr E CSR (CSR_TDMD OR CSR_IENA) (tx_put pkt s)
           in (kIOReturnOutputSuccess,
               if int (tx_size s) \<le> pending_transmits s + 1
               then t\<lparr>if_drv_flags := if_drv_flags t OR LNC_IFF_DRV_OACTIVE\<rparr> else t))"
  by (simp add: lnc_output_packet_def tx_put_def mbuf_to_buffer_def Let_def)

lemma ring_geom_vars [simp]:
  "ring_geom (s\<lparr>pending_transmits := p\<rparr>) = ring_geom s" "ring_geom (s\<lparr>trans_next := n\<rparr>) = ring_geom s"
  "ring_geom (s\<lparr>next_to_send := n\<rparr>) = ring_geom s" "ring_geom (s\<lparr>recv_next := n\<rparr>) = ring_geom s"
  "ring_geom (s\<lparr>mem := m\<rparr>) = ring_geom s"
  by (simp_all add: ring_geom_def)

lemma mem_upd_sel: "mds (mem (s\<lparr>mem := (mem s)\<lparr>ram := r\<rparr>\<rparr>)) = mds (mem s)"
  by simp

lemma tx_md_ram [simp]: "tx_md (s\<lparr>mem := (mem s)\<lparr>ram := r\<rparr>\<rparr>) j = tx_md s j"
  by (simp add: tx_md_def)

lemma tx_put_sel [simp]:
  "ring_base (tx_put pkt s) = ring_base s" "nrdre (tx_put pkt s) = nrdre s" "ntdre (tx_put pkt s) = ntdre s"
  "recv_ring (tx_put pkt s) = recv_ring s" "trans_ring (tx_put pkt s) = trans_ring s"
  "trans_next (tx_put pkt s) = trans_next s" "pending_transmits (tx_put pkt s) = pending_transmits s + 1"
  "next_to_send (tx_put pkt s) = LNC_INC_MD_PTR (next_to_send s) (ntdre s)"
  "trace (tx_put pkt s) = trace s" "recv_next (tx_put pkt s) = recv_next s"
  "if_drv_flags (tx_put pkt s) = if_drv_flags s"
  "ram (mem (tx_put pkt s)) = copy_chain (mbuf_datas pkt) (hre_data (trans_ring s ! next_to_send s)) (ram (mem s))"
  by (simp_all add: tx_put_def mbuf_to_buffer_def Let_def)

lemma tx_put_md:
  assumes "ring_geom s" "next_to_send s < tx_size s" "j < tx_size s"
  shows "tx_md (tx_put pkt s) j =
    (if j = next_to_send s
     then (set_ext_status 0 (tx_md s j))\<lparr>mds_length := - of_nat (pkthdr_len pkt),
            mds_status := TMD_OWN OR TMD_STP OR TMD_ENP\<rparr>
     else tx_md s j)"
  using assms by (simp add: tx_put_def mbuf_to_buffer_def Let_def tx_md_upd) (simp add: tx_md_def)

lemma tx_put_slots:
  assumes "0 \<le> pending_transmits s" "trans_next s < tx_size s"
    "next_to_send s = (trans_next s + nat (pending_transmits s)) mod tx_size s"
  shows "tx_slots (tx_put pkt s) = tx_slots s @ [next_to_send s]"
proof -
  have "nat (pending_transmits s + 1) = nat (pending_transmits s) + 1" using assms by simp
  then show ?thesis
    using assms(3) by (simp add: tx_slots_def cyc_seg_append del: add_Suc_right)
      (simp add: cyc_seg_def)
qed

lemma next_not_slot:
  assumes "tx_inv E s" "pending_transmits s < int (tx_size s)"
  shows "next_to_send s \<notin> set (tx_slots s)" "next_to_send s < tx_size s"
proof -
  have p: "nat (pending_transmits s) < tx_size s" and n: "next_to_send s < tx_size s"
    using assms by (auto simp: tx_inv_def)
  have "distinct (cyc_seg (tx_size s) (trans_next s) (nat (pending_transmits s) + 1))"
    by (rule cyc_seg_distinct) (use p in simp)
  then show "next_to_send s \<notin> set (tx_slots s)"
    using assms(1) by (simp only: cyc_seg_append tx_inv_def tx_slots_def) (simp add: cyc_seg_def)
  show "next_to_send s < tx_size s" by (rule n)
qed

lemma unat_u16: "k < 65536 \<Longrightarrow> unat (of_nat k :: u16) = k"
proof -
  assume "k < 65536"
  then have "k mod 2 ^ LENGTH(16) = k" by simp
  then show ?thesis by (metis unat_of_nat)
qed

lemma tx_put_inv:
  assumes i: "tx_inv E s" and p: "pending_transmits s < int (tx_size s)" and k: "pkt_ok pkt"
  shows "tx_inv E (tx_put pkt s)"
proof -
  let ?t = "tx_put pkt s"
  from i have g: "ring_geom s" "next_to_send s < tx_size s" "0 \<le> pending_transmits s"
      "trans_next s < tx_size s"
      "next_to_send s = (trans_next s + nat (pending_transmits s)) mod tx_size s"
    by (simp_all add: tx_inv_def tx_geom_def)
  have "tx_geom E ?t = tx_geom E s" by (rule tx_geom_cong) simp_all
  moreover have "LNC_INC_MD_PTR (next_to_send s) (ntdre s)
      = (trans_next s + nat (pending_transmits s + 1)) mod tx_size s"
    using g by (simp add: LNC_INC_mod nat_add_distrib mod_simps)
  moreover have "has (mds_status (tx_md ?t j)) TMD_STP \<and> has (mds_status (tx_md ?t j)) TMD_ENP \<and>
      unat (- mds_length (tx_md ?t j)) \<le> LNC_TRANSBUFSIZE" if "j \<in> set (tx_slots ?t)" for j
  proof (cases "j = next_to_send s")
    case True
    have "has (TMD_OWN OR TMD_STP OR TMD_ENP) TMD_STP" "has (TMD_OWN OR TMD_STP OR TMD_ENP) TMD_ENP"
      by (simp_all add: has_def hw_consts)
    moreover have "unat (of_nat (pkthdr_len pkt) :: u16) = pkthdr_len pkt"
      by (rule unat_u16) (use k in \<open>simp add: pkt_ok_def hw_consts\<close>)
    ultimately show ?thesis using True g k by (simp add: tx_put_md pkt_ok_def)
  next
    case False
    then have "j \<in> set (tx_slots s)" using that g by (simp add: tx_put_slots)
    with False i g tx_slots_less[OF this] show ?thesis by (simp add: tx_put_md) (simp add: tx_inv_def)
  qed
  moreover have "mds_status (tx_md ?t j) = 0" if "j < tx_size s" "j \<notin> set (tx_slots ?t)" for j
    using that i g by (simp add: tx_put_slots tx_put_md) (simp add: tx_inv_def)
  ultimately show ?thesis
    using i p g by (simp add: tx_inv_def)
qed

lemma tx_put_queue:
  assumes i: "tx_inv E s" and p: "pending_transmits s < int (tx_size s)" and k: "pkt_ok pkt"
  shows "tx_queue (tx_put pkt s) = tx_queue s @ [pkt_bytes pkt]"
proof -
  let ?t = "tx_put pkt s" and ?n = "next_to_send s"
  let ?a = "hre_data (trans_ring s ! ?n)"
  from i have g: "ring_geom s" "?n < tx_size s" "0 \<le> pending_transmits s" "trans_next s < tx_size s"
      "?n = (trans_next s + nat (pending_transmits s)) mod tx_size s" "buffers_apart s"
      "length (trans_ring s) = tx_size s"
    by (simp_all add: tx_inv_def tx_geom_def ring_geom_def)
  have len: "length (pkt_bytes pkt) = pkthdr_len pkt" "pkthdr_len pkt \<le> LNC_TRANSBUFSIZE"
    using k by (simp_all add: pkt_ok_def pkt_bytes_def)
  then have small: "pkthdr_len pkt < 2 ^ 16" "length (pkt_bytes pkt) \<le> 2 ^ 32"
    by (simp_all add: hw_consts)
  have ram: "ram (mem ?t) = poke ?a (pkt_bytes pkt) (ram (mem s))"
    using small(2) by (simp add: copy_chain_poke pkt_bytes_def del: length_concat)
  have new: "slot_bytes ?t ?n = pkt_bytes pkt"
    using g(1,2) len small
    by (auto simp: slot_bytes_def tx_put_md unat_u16 ram poke_hit list_eq_iff_nth_eq
        simp del: tx_put_sel(12))
  have old: "slot_bytes ?t j = slot_bytes s j" if j: "j \<in> set (tx_slots s)" for j
  proof -
    have jn: "j \<noteq> ?n" using next_not_slot(1)[OF i p] j by blast
    have l: "unat (- mds_length (tx_md s j)) \<le> LNC_TRANSBUFSIZE" using i j by (simp add: tx_inv_def)
    have "poke ?a (pkt_bytes pkt) (ram (mem s)) (hre_data (trans_ring s ! j) + of_nat k)
        = ram (mem s) (hre_data (trans_ring s ! j) + of_nat k)" if "k < LNC_TRANSBUFSIZE" for k
    proof (rule poke_miss)
      have "hre_data (trans_ring s ! j) + of_nat k
          \<in> area_bytes (hre_data (trans_ring s ! j), LNC_TRANSBUFSIZE)"
        using that by (auto simp: area_bytes_def)
      moreover have "area_bytes (hre_data (trans_ring s ! j), LNC_TRANSBUFSIZE)
          \<inter> area_bytes (?a, LNC_TRANSBUFSIZE) = {}"
        using g(2,6,7) jn tx_slots_less[OF j] by (simp add: buffers_apart_def)
      ultimately show "hre_data (trans_ring s ! j) + of_nat k \<notin> area_bytes (?a, length (pkt_bytes pkt))"
        using area_bytes_mono[of "length (pkt_bytes pkt)" LNC_TRANSBUFSIZE ?a] len by auto
    qed
    then show ?thesis
      using g(1,2) tx_slots_less[OF j] jn l
      by (simp add: slot_bytes_def tx_put_md ram del: tx_put_sel(12))
  qed
  show ?thesis
    using old new g(3-5) by (simp add: tx_queue_def tx_put_slots)
qed

text \<open>Output is enqueueing, and stalls without any effect exactly when the ring is full.\<close>

lemma output_full:
  "int (tx_size s) \<le> pending_transmits s \<Longrightarrow> lnc_output_packet E pkt s = (kIOReturnOutputStall, s)"
  by (simp add: lnc_output_packet_def)

lemma output_ok:
  assumes i: "tx_inv E s" and p: "pending_transmits s < int (tx_size s)" and k: "pkt_ok pkt"
  defines "t \<equiv> snd (lnc_output_packet E pkt s)"
  shows "fst (lnc_output_packet E pkt s) = kIOReturnOutputSuccess \<and> tx_inv E t \<and>
    tx_queue t = tx_queue s @ [pkt_bytes pkt] \<and> pending_transmits t = pending_transmits s + 1"
proof -
  let ?u = "write_csr E CSR (CSR_TDMD OR CSR_IENA) (tx_put pkt s)"
  have "tx_inv E ?u \<and> tx_queue ?u = tx_queue s @ [pkt_bytes pkt]"
    using tx_evolves[OF evolves_write_csr tx_put_inv[OF i p k]] tx_put_queue[OF i p k] by simp
  then show ?thesis
    using p by (simp add: t_def lnc_output_packet_split Let_def)
qed

subsection \<open>Reset empties the ring\<close>

definition tx_idle :: "env \<Rightarrow> 'a lnc_softc_scheme \<Rightarrow> bool" where
  "tx_idle E s \<longleftrightarrow> tx_geom E s \<and> (\<forall>j<tx_size s. mds_status (tx_md s j) = 0)"

lemma tx_idle_emit: "tx_idle E s \<Longrightarrow> tx_idle E (emit E ev s)"
proof -
  assume i: "tx_idle E s"
  have "tx_geom E (emit E ev s) = tx_geom E s" by (rule tx_geom_cong) simp_all
  moreover have "mds_status (tx_md (emit E ev s) j) = 0" if "j < tx_size s" for j
  proof -
    have "tx_chip E (trans_ring s)" "trans_ring s ! j \<in> set (trans_ring s)"
      using i that by (simp_all add: tx_idle_def tx_geom_def ring_geom_def)
    from tx_chip_md(1)[OF this] show ?thesis
      using i that by (simp add: tx_idle_def tx_md_def emit_mem)
  qed
  ultimately show ?thesis using i by (simp add: tx_idle_def)
qed

lemma tx_idle_evolves: "evolves E s t \<Longrightarrow> tx_idle E s \<Longrightarrow> tx_idle E t"
  by (erule evolves_keeps) (auto intro: tx_idle_emit)

lemma tx_idle_cong:
  assumes "ring_base t = ring_base s" "nrdre t = nrdre s" "ntdre t = ntdre s"
    "recv_ring t = recv_ring s" "trans_ring t = trans_ring s"
    "\<And>j. tx_md t j = tx_md s j"
  shows "tx_idle E t \<longleftrightarrow> tx_idle E s"
  by (simp add: tx_idle_def tx_geom_cong[OF assms(1-5)] assms(3,6))

lemma tx_idle_flags: "tx_idle E (s\<lparr>if_drv_flags := a\<rparr>) = tx_idle E s"
  by (rule tx_idle_cong) simp_all

lemma tx_idle_inv:
  assumes "tx_idle E s" "pending_transmits s = 0" "trans_next s < tx_size s" "next_to_send s = trans_next s" "recv_next s < LNC_NDESC (nrdre s)"
  shows "tx_inv E s"
  using assms by (simp add: tx_idle_def tx_inv_def tx_slots_def)

lemma init_rings_tx_idle:
  assumes m: "lnc_mem_size (nrdre s) (ntdre s) \<le> 2 ^ 32"
    and c: "tx_chip E (trans_ring (carve_rings s))"
  shows "tx_idle E (init_rings E s)"
proof -
  let ?c = "carve_rings (s\<lparr>recv_next := 0, trans_next := 0\<rparr>)"
  obtain t where t: "same_vars ?c t" "init_rings E s = t\<lparr>next_to_send := 0\<rparr>"
    using init_rings_vars by blast
  have r: "trans_ring (init_rings E s) = trans_ring (carve_rings s)"
    "recv_ring (init_rings E s) = recv_ring (carve_rings s)"
    unfolding t(2) using t(1) by (simp_all add: same_vars_sel carve_rings_def carve_eq Let_def)
  then have "rings_carved (init_rings E s)"
    using m by (simp add: rings_carved_def carve_rings_def carve_eq Let_def)
  with init_rings_fresh[OF m, of E] c show ?thesis
    by (simp add: tx_idle_def tx_geom_def rings_fresh_def r)
qed

lemma lnc_init_tx_inv:
  assumes m: "lnc_mem_size (nrdre s) (ntdre s) \<le> 2 ^ 32"
    and c: "tx_chip E (trans_ring (carve_rings s))"
  shows "tx_inv E (lnc_init E s) \<and> tx_queue (lnc_init E s) = []"
proof -
  let ?p = "prepare_init E s"
  define u where "u = (detect_dwio E (pcnet32_stop E s))\<lparr>if_flags := if_flags (detect_dwio E (pcnet32_stop E s))
    OR (LNC_IFF_BROADCAST OR LNC_IFF_SIMPLEX OR LNC_IFF_MULTICAST)\<rparr>"
  have "trans_ring (carve_rings u) = trans_ring (carve_rings s)"
    by (simp add: u_def carve_rings_def carve_eq Let_def)
  then have "tx_idle E (init_rings E u)"
    using m c by (intro init_rings_tx_idle) (simp_all add: u_def)
  then have "tx_idle E (snd (read_prom E [0..<ETHER_ADDR_LEN] (init_rings E u)))"
    using tx_idle_evolves[OF evolves_read_prom] by blast
  then have "tx_idle E ?p"
    by (rule tx_idle_cong[THEN iffD2, rotated -1])
      (simp_all add: prepare_init_def fill_init_block_def Let_def split_def u_def tx_md_def)
  then have "tx_idle E (snd (read_csr E CSR (program_chip E ?p)))"
    by (intro tx_idle_evolves[OF evolves_read_csr] tx_idle_evolves[OF evolves_program_chip])
  then have "tx_idle E (lnc_init E s)"
    by (simp add: lnc_init_def Let_def split_def tx_idle_flags tx_idle_emit
        tx_idle_evolves[OF evolves_start])
  moreover have "driver_ready E (lnc_init E s)" using m by (rule lnc_init_ready)
  ultimately show ?thesis
    by (auto simp: driver_ready_def tx_queue_def tx_slots_def intro: tx_idle_inv)
qed

lemma tx_geom_init:
  assumes "tx_geom E s"
  shows "tx_inv E (lnc_init E s) \<and> tx_queue (lnc_init E s) = []"
proof (rule lnc_init_tx_inv)
  show "lnc_mem_size (nrdre s) (ntdre s) \<le> 2 ^ 32"
    using assms by (simp add: tx_geom_def rings_carved_def)
  show "tx_chip E (trans_ring (carve_rings s))"
    using assms unfolding tx_geom_def rings_carved_def by metis
qed

lemma tx_geom_reset:
  assumes "tx_geom E s"
  shows "tx_inv E (lnc_reset E s) \<and> tx_queue (lnc_reset E s) = []"
  unfolding lnc_reset_def
  by (rule tx_geom_init, rule tx_geom_cong[THEN iffD2, rotated -1, OF assms]) simp_all

subsection \<open>The transmit interrupt\<close>

lemma do_ring_one: "i < LNC_NDESC n \<Longrightarrow> do_ring body n i (Suc i mod LNC_NDESC n) s = Some (body i s)"
  by (simp add: do_ring_def LNC_INC_mod while_ring.simps)

lemma find_where_next:
  "i < LNC_NDESC n \<Longrightarrow> P (Suc i mod LNC_NDESC n) \<Longrightarrow> find_where P n i = Some (Suc i mod LNC_NDESC n)"
  by (simp add: find_where_step)

text \<open>The head of the queue is at \<open>trans_next\<close>; popping it is one step of that index.\<close>

lemma tx_slots_head:
  assumes "tx_inv E s" "0 < pending_transmits s"
  shows "tx_slots s = trans_next s #
     cyc_seg (tx_size s) (Suc (trans_next s) mod tx_size s) (nat (pending_transmits s - 1))"
proof -
  have "nat (pending_transmits s) = Suc (nat (pending_transmits s - 1))" using assms(2) by simp
  then show ?thesis using assms(1) by (simp only: tx_slots_def) (simp add: cyc_seg_Suc tx_inv_def)
qed

lemma tx_pop:
  fixes s t :: "'a lnc_softc_scheme"
  assumes i: "tx_inv E s" "0 < pending_transmits s"
    and same: "ring_base t = ring_base s" "nrdre t = nrdre s" "ntdre t = ntdre s"
      "recv_ring t = recv_ring s" "trans_ring t = trans_ring s" "next_to_send t = next_to_send s"
      "recv_next t = recv_next s" "ram (mem t) = ram (mem s)"
    and step: "trans_next t = Suc (trans_next s) mod tx_size s"
      "pending_transmits t = pending_transmits s - 1"
    and md: "\<And>j. j < tx_size s \<Longrightarrow> mds_status (tx_md t j) = (if j = trans_next s then 0 else mds_status (tx_md s j))"
      "\<And>j. j < tx_size s \<Longrightarrow> mds_length (tx_md t j) = mds_length (tx_md s j)"
  shows "tx_inv E t \<and> tx_queue t = tl (tx_queue s)"
proof -
  have slots: "tx_slots s = trans_next s # tx_slots t"
    using tx_slots_head[OF i] by (simp add: tx_slots_def same step)
  have "distinct (tx_slots s)"
    unfolding tx_slots_def by (rule cyc_seg_distinct) (use i in \<open>simp add: tx_inv_def nat_le_iff\<close>)
  then have nin: "trans_next s \<notin> set (tx_slots t)" by (simp add: slots)
  have lt: "j < tx_size s" if "j \<in> set (tx_slots t)" for j
    using tx_slots_less[of j s] that by (simp add: slots)
  have "tx_geom E t = tx_geom E s" using same by (intro tx_geom_cong) simp_all
  moreover have "(Suc (trans_next s) mod tx_size s + nat (pending_transmits s - 1)) mod tx_size s
      = (trans_next s + nat (pending_transmits s)) mod tx_size s"
  proof -
    have "nat (pending_transmits s) = Suc (nat (pending_transmits s - 1))" using i(2) by simp
    then show ?thesis by (simp add: mod_simps)
  qed
  moreover have "has (mds_status (tx_md t j)) TMD_STP \<and> has (mds_status (tx_md t j)) TMD_ENP \<and>
      unat (- mds_length (tx_md t j)) \<le> LNC_TRANSBUFSIZE" if "j \<in> set (tx_slots t)" for j
    using i(1) that nin lt[OF that] md[OF lt[OF that]] slots by (auto simp: tx_inv_def)
  moreover have "mds_status (tx_md t j) = 0" if "j < tx_size s" "j \<notin> set (tx_slots t)" for j
    using i(1) that md(1)[OF that(1)] slots by (auto simp: tx_inv_def)
  ultimately have "tx_inv E t" using i by (simp add: tx_inv_def same step)
  moreover have "slot_bytes t j = slot_bytes s j" if "j \<in> set (tx_slots t)" for j
    using md(2)[OF lt[OF that]] by (simp add: slot_bytes_def same)
  ultimately show ?thesis by (simp add: tx_queue_def slots)
qed

text \<open>The error handling changes counters and \<open>ext_status\<close> bits only.\<close>

definition err_same :: "pcnet \<Rightarrow> pcnet \<Rightarrow> bool" where
  "err_same s t \<longleftrightarrow>
     ring_base t = ring_base s \<and> nrdre t = nrdre s \<and> ntdre t = ntdre s \<and> recv_ring t = recv_ring s \<and>
     trans_ring t = trans_ring s \<and> trans_next t = trans_next s \<and> recv_next t = recv_next s \<and> ram (mem t) = ram (mem s) \<and>
     pending_transmits t = pending_transmits s \<and> next_to_send t = next_to_send s \<and>
     (\<forall>j<tx_size s. mds_status (tx_md t j) = mds_status (tx_md s j) \<and>
        mds_length (tx_md t j) = mds_length (tx_md s j) \<and>
        (j \<noteq> trans_next s \<longrightarrow> tx_md t j = tx_md s j))"

lemma err_same_refl [simp]: "err_same s s"
  by (simp add: err_same_def)

lemma err_same_trans: "err_same s t \<Longrightarrow> err_same t u \<Longrightarrow> err_same s u"
  by (simp add: err_same_def)

lemma err_same_bump [simp]:
  "err_same s (BUMP_NET_COUNTER f s)" "err_same s (BUMP_ETHER_COUNTER g s)"
  by (simp_all add: err_same_def drv_ops)

lemma ring_geom_stats [simp]:
  "ring_geom (s\<lparr>netStats := ns\<rparr>) = ring_geom s" "ring_geom (s\<lparr>etherStats := es\<rparr>) = ring_geom s"
  by (simp_all add: ring_geom_def)

lemma err_same_tbuff:
  "ring_geom s \<Longrightarrow> trans_next s < tx_size s \<Longrightarrow> err_same s (tint_clear_tbuff s)"
  by (simp add: err_same_def tint_clear_tbuff_def tx_md_upd)

lemma err_same_geom: "err_same s t \<Longrightarrow> ring_geom s \<Longrightarrow> ring_geom t"
  by (simp add: err_same_def ring_geom_def)

lemma err_same_inv: "err_same s t \<Longrightarrow> tx_inv E t = tx_inv E s \<and> tx_queue t = tx_queue s"
proof -
  assume e: "err_same s t"
  have "tx_inv E t = tx_inv E s"
    by (rule tx_inv_cong) (use e in \<open>simp_all add: err_same_def\<close>)
  moreover have "tx_queue t = tx_queue s"
    by (rule tx_queue_cong) (use e tx_slots_less in \<open>auto simp: err_same_def\<close>)
  ultimately show ?thesis ..
qed

lemma tint_error_counts_same:
  assumes "ring_geom s" "trans_next s < tx_size s"
  shows "err_same s (tint_error_counts s)"
proof -
  have t: "err_same s t \<Longrightarrow> err_same s (tint_clear_tbuff (BUMP_ETHER_COUNTER f t))" for f t
    using assms by (intro err_same_trans[OF _ err_same_tbuff] err_same_trans[OF _ err_same_bump(2)])
      (simp_all add: drv_ops err_same_def ring_geom_def)
  have b: "err_same s t \<Longrightarrow> err_same s (BUMP_ETHER_COUNTER f t)" for f t
    by (rule err_same_trans[OF _ err_same_bump(2)])
  show ?thesis unfolding tint_error_counts_def Let_def by (simp add: t b)
qed

lemma tint_reset_inv:
  assumes "tx_geom E s"
  shows "\<exists>t. tint_reset E s = TintReset t \<and> tx_inv E t \<and> tx_queue t = []"
proof -
  have "tx_geom E (BUMP_ETHER_COUNTER tx_resets_update s) = tx_geom E s"
    by (rule tx_geom_cong) (simp_all add: drv_ops)
  with assms show ?thesis by (simp add: tint_reset_def tx_geom_reset)
qed

text \<open>One packet: the head of the queue is reclaimed, whatever its status, or a reset empties it.\<close>

definition head_underflow :: "pcnet \<Rightarrow> bool" where
  "head_underflow s \<longleftrightarrow> has (mds_status (tx_md s (trans_next s))) TMD_ERR \<and>
     has (ext_status (tx_md s (trans_next s))) TMD_UFLO"

text \<open>A chip that is not writing descriptors at the moment.\<close>

definition quiet_dma :: "env \<Rightarrow> bool" where
  "quiet_dma E \<longleftrightarrow> (\<forall>h m. mds (dma E h m) = mds m)"

lemma tx_md_quiet: "quiet_dma E \<Longrightarrow> tx_md (emit E ev s) j = tx_md s j"
  by (simp add: tx_md_def emit_mem quiet_dma_def)

lemma tint_reclaim_one:
  assumes i: "tx_inv E s" "0 < pending_transmits s" and e: "err_same s u"
  shows "\<exists>t. tint_reclaim E (trans_next s) (u\<lparr>trans_next := Suc (trans_next s) mod tx_size s\<rparr>) = Some t \<and>
     tx_inv E t \<and> tx_queue t = tl (tx_queue s) \<and> trans_next t = Suc (trans_next s) mod tx_size s \<and>
     pending_transmits t = pending_transmits s - 1 \<and> ntdre t = ntdre s \<and>
     (quiet_dma E \<longrightarrow> (\<forall>j<tx_size s. j \<noteq> trans_next s \<longrightarrow> tx_md t j = tx_md s j))"
proof -
  let ?n = "trans_next s" and ?u = "u\<lparr>trans_next := Suc (trans_next s) mod tx_size s\<rparr>"
  define c where "c = tint_clear_md ?n ?u"
  have n: "?n < tx_size s" "ntdre u = ntdre s" using i e by (simp_all add: tx_inv_def err_same_def)
  have g: "ring_geom u" using i e by (auto simp: tx_inv_def tx_geom_def intro: err_same_geom)
  have "do_ring tint_clear_md (ntdre s) ?n (Suc ?n mod tx_size s) ?u = Some c"
    unfolding c_def by (rule do_ring_one[OF n(1)])
  then have r: "tint_reclaim E ?n ?u = Some (let c = c\<lparr>if_drv_flags := if_drv_flags c AND NOT LNC_IFF_DRV_OACTIVE\<rparr>
      in if transmitQueue c \<and> pending_transmits c \<noteq> 0 then emit E (QService True) c else c)"
    by (simp add: tint_reclaim_def n(2) Let_def)
  have "tx_inv E c \<and> tx_queue c = tl (tx_queue s)"
    by (rule tx_pop[OF i])
      (use e n g in \<open>simp_all add: c_def tint_clear_md_def Let_def err_same_def tx_md_upd\<close>)
  moreover have "trans_next c = Suc ?n mod tx_size s" "pending_transmits c = pending_transmits s - 1"
    "ntdre c = ntdre s" "\<And>j. j < tx_size s \<Longrightarrow> j \<noteq> ?n \<Longrightarrow> tx_md c j = tx_md s j"
    using e n g by (simp_all add: c_def tint_clear_md_def Let_def err_same_def tx_md_upd)
  ultimately show ?thesis
    by (simp add: r Let_def tx_inv_emit tx_queue_emit tx_md_quiet)
qed

lemma tint_packet_head:
  assumes i: "tx_inv E s" "0 < pending_transmits s"
  shows "if head_underflow s
     then \<exists>t. tint_packet E la s = Some (TintReset t) \<and> tx_inv E t \<and> tx_queue t = []
     else \<exists>t. tint_packet E la s = Some (TintNext t) \<and> tx_inv E t \<and> tx_queue t = tl (tx_queue s) \<and>
        trans_next t = Suc (trans_next s) mod tx_size s \<and>
        pending_transmits t = pending_transmits s - 1 \<and> ntdre t = ntdre s \<and>
        (quiet_dma E \<longrightarrow> (\<forall>j<tx_size s. j \<noteq> trans_next s \<longrightarrow> tx_md t j = tx_md s j))"
proof -
  let ?n = "trans_next s"
  have n: "?n < tx_size s" and g: "ring_geom s" "tx_geom E s"
    using i by (simp_all add: tx_inv_def tx_geom_def)
  have "?n \<in> set (tx_slots s)" by (simp add: tx_slots_head[OF i])
  then have "has (mds_status (tx_md s ?n)) TMD_ENP" using i by (simp add: tx_inv_def)
  then have f: "tint_find_end E la s = Some (TintNext s)"
    by (simp add: tint_find_end_def has_mask_or)
  have u: "err_same s (tint_error_counts s)" by (rule tint_error_counts_same[OF g(1) n])
  show ?thesis
  proof (cases "has (mds_status (tx_md s ?n)) TMD_ERR")
    case False
    have e: "tint_sent s = (let u = (tint_sent s)\<lparr>trans_next := ?n\<rparr> in u\<lparr>trans_next := Suc ?n mod tx_size s\<rparr>)"
      and es: "err_same s ((tint_sent s)\<lparr>trans_next := ?n\<rparr>)"
      by (simp_all add: tint_sent_def Let_def LNC_INC_mod[OF n] err_same_def drv_ops)
    show ?thesis
      using tint_reclaim_one[OF i es] e False
      by (auto simp: tint_packet_def f head_underflow_def Let_def)
  next
    case True
    show ?thesis
    proof (cases "has (ext_status (tx_md s ?n)) TMD_UFLO")
      case uflo: True
      let ?c = "BUMP_ETHER_COUNTER tx_underruns_update (tint_error_counts s)"
      have "tx_geom E ?c = tx_geom E s"
        by (rule tx_geom_cong) (use u in \<open>simp_all add: drv_ops err_same_def\<close>)
      with tint_reset_inv[of E ?c] g True uflo show ?thesis
        by (auto simp: tint_packet_def f head_underflow_def tint_error_def Let_def)
    next
      case False
      let ?u = "tint_error_counts s"
      let ?stop = "\<lambda>i. has (mds_status (tx_md ?u i)) TMD_STP \<or> i = next_to_send ?u"
      have sel: "ntdre ?u = ntdre s" "trans_next ?u = ?n" using u by (simp_all add: err_same_def)
      have "?stop (Suc ?n mod tx_size s)"
      proof (cases "pending_transmits s = 1")
        case True
        then show ?thesis using i u by (simp add: tx_inv_def err_same_def)
      next
        case False
        with i(2) have "nat (pending_transmits s - 1) = Suc (nat (pending_transmits s - 2))" by arith
        then have "Suc ?n mod tx_size s \<in> set (tx_slots s)"
          using tx_slots_head[OF i] by (simp add: cyc_seg_Suc)
        then show ?thesis using i u tx_slots_less[of "Suc ?n mod tx_size s" s]
          by (auto simp: tx_inv_def err_same_def)
      qed
      then have "find_where ?stop (ntdre s) ?n = Some (Suc ?n mod tx_size s)"
        by (rule find_where_next[OF n])
      with tint_reclaim_one[OF i u] True False show ?thesis
        by (auto simp: tint_packet_def f head_underflow_def tint_error_def Let_def sel)
    qed
  qed
qed

lemma drop_tl: "xs \<noteq> [] \<Longrightarrow> drop k (tl xs) = drop (Suc k) xs"
  by (cases xs) simp_all

lemma tx_queue_nonempty: "tx_inv E s \<Longrightarrow> tx_queue s \<noteq> [] \<longleftrightarrow> 0 < pending_transmits s"
  using tx_queue_length[of E s] by (cases "tx_queue s") auto

text \<open>
  The loop ends for every behaviour of the chip within its contract: it reclaims a non-empty
  prefix, and stops at an empty ring or at a packet the chip still owns, unless it resets.
\<close>

lemma tint_loop_fifo:
  assumes "tx_inv E s" "0 < pending_transmits s"
  shows "\<exists>b t k. tint_loop E la s = Some (b, t) \<and> tx_inv E t \<and>
     1 \<le> k \<and> k \<le> length (tx_queue s) \<and> tx_queue t = drop k (tx_queue s) \<and>
     (b \<longrightarrow> tx_queue t = [] \<or> has (mds_status (tx_md t (trans_next t))) TMD_OWN)"
  using assms
proof (induction "length (tx_queue s)" arbitrary: s la rule: less_induct)
  case less
  have q: "tx_queue s \<noteq> []" using tx_queue_nonempty less.prems by blast
  then have l: "1 \<le> length (tx_queue s)" by (cases "tx_queue s") simp_all
  show ?case
  proof (cases "head_underflow s")
    case True
    then obtain t where "tint_packet E la s = Some (TintReset t)" "tx_inv E t" "tx_queue t = []"
      using tint_packet_head[OF less.prems, of la] by auto
    then show ?thesis using l
      by (intro exI[of _ False] exI[of _ t] exI[of _ "length (tx_queue s)"]) (simp add: tint_loop.simps)
  next
    case False
    then obtain t where t: "tint_packet E la s = Some (TintNext t)" "tx_inv E t" "tx_queue t = tl (tx_queue s)"
      using tint_packet_head[OF less.prems, of la] by auto
    show ?thesis
    proof (cases "pending_transmits t \<noteq> 0 \<and> \<not> has (mds_status (tx_md t (trans_next t))) TMD_OWN")
      case go: True
      have "0 < pending_transmits t" using go t(2) by (simp add: tx_inv_def)
      moreover have "length (tx_queue t) < length (tx_queue s)" using l by (simp add: t(3))
      ultimately obtain b u k where "tint_loop E (la + 1) t = Some (b, u)" "tx_inv E u" "1 \<le> k"
        "k \<le> length (tx_queue t)" "tx_queue u = drop k (tx_queue t)"
        "b \<longrightarrow> tx_queue u = [] \<or> has (mds_status (tx_md u (trans_next u))) TMD_OWN"
        using less.hyps t(2) by blast
      then show ?thesis
        using t go q l by (intro exI[of _ b] exI[of _ u] exI[of _ "Suc k"])
          (simp add: tint_loop.simps[of _ _ s] drop_tl)
    next
      case stop: False
      then have "tx_queue t = [] \<or> has (mds_status (tx_md t (trans_next t))) TMD_OWN"
        using tx_queue_nonempty[OF t(2)] by auto
      then show ?thesis
        using t stop q l by (intro exI[of _ True] exI[of _ t] exI[of _ 1])
          (auto simp: tint_loop.simps[of _ _ s] drop_tl drop_Suc)
    qed
  qed
qed

text \<open>
  With the descriptors at rest the count is exact: the head, then every packet up to the first
  that the chip still owns.
\<close>

definition released :: "'a lnc_softc_scheme \<Rightarrow> nat" where
  "released s = Suc (length (takeWhile (\<lambda>j. \<not> has (mds_status (tx_md s j)) TMD_OWN) (tl (tx_slots s))))"

definition no_underflow :: "'a lnc_softc_scheme \<Rightarrow> bool" where
  "no_underflow s \<longleftrightarrow> (\<forall>j\<in>set (tx_slots s).
     \<not> (has (mds_status (tx_md s j)) TMD_ERR \<and> has (ext_status (tx_md s j)) TMD_UFLO))"

lemma tint_loop_released:
  assumes "quiet_dma E" "tx_inv E s" "0 < pending_transmits s" "no_underflow s"
  shows "\<exists>t. tint_loop E la s = Some (True, t) \<and> tx_inv E t \<and> tx_queue t = drop (released s) (tx_queue s)"
  using assms(2-4)
proof (induction "length (tx_queue s)" arbitrary: s la rule: less_induct)
  case less
  let ?own = "\<lambda>s j. has (mds_status (tx_md s j)) TMD_OWN"
  note i = less.prems(1,2)
  have q: "tx_queue s \<noteq> []" using tx_queue_nonempty i by blast
  have sl: "tx_slots s = trans_next s # tl (tx_slots s)" using tx_slots_head[OF i] by simp
  have "\<not> head_underflow s"
    using less.prems(3) sl by (metis head_underflow_def list.set_intros(1) no_underflow_def)
  then obtain t where t: "tint_packet E la s = Some (TintNext t)" "tx_inv E t" "tx_queue t = tl (tx_queue s)"
      "trans_next t = Suc (trans_next s) mod tx_size s" "pending_transmits t = pending_transmits s - 1"
      "ntdre t = ntdre s" "\<forall>j<tx_size s. j \<noteq> trans_next s \<longrightarrow> tx_md t j = tx_md s j"
    using tint_packet_head[OF i, of la] assms(1) by auto
  have slt: "tx_slots t = tl (tx_slots s)"
    using tx_slots_head[OF i] by (simp add: tx_slots_def[of t] t(4-6))
  have "distinct (tx_slots s)"
    unfolding tx_slots_def by (rule cyc_seg_distinct) (use i in \<open>simp add: tx_inv_def nat_le_iff\<close>)
  then have md: "tx_md t j = tx_md s j" if "j \<in> set (tl (tx_slots s))" for j
    using that t(7) sl tx_slots_less[of j s] by (metis distinct.simps(2) list.set_intros(2))
  show ?case
  proof (cases "pending_transmits t \<noteq> 0 \<and> \<not> ?own t (trans_next t)")
    case go: True
    then have p: "0 < pending_transmits t" using t(2) by (simp add: tx_inv_def)
    have st: "tl (tx_slots s) = trans_next t # tl (tl (tx_slots s))"
      using tx_slots_head[OF t(2) p] slt by (metis list.sel(3))
    have tw: "takeWhile (\<lambda>j. \<not> ?own s j) (tl (tl (tx_slots s))) = takeWhile (\<lambda>j. \<not> ?own t j) (tl (tx_slots t))"
      unfolding slt by (rule takeWhile_cong[OF refl])
        (use st md in \<open>metis list.set_intros(2)\<close>)
    have "\<not> ?own s (trans_next t)" using go md[of "trans_next t"] st by (metis list.set_intros(1))
    then have rel: "released s = Suc (released t)"
      using tw st unfolding released_def by (metis length_Cons takeWhile.simps(2))
    have "no_underflow t" using less.prems(3) md sl slt by (metis no_underflow_def list.set_intros(2))
    moreover have "length (tx_queue t) < length (tx_queue s)" using q by (cases "tx_queue s") (simp_all add: t(3))
    ultimately obtain u where "tint_loop E (la + 1) t = Some (True, u)" "tx_inv E u"
        "tx_queue u = drop (released t) (tx_queue t)"
      using less.hyps t(2) p by blast
    then show ?thesis using t(1,3) go q
      by (intro exI[of _ u]) (simp add: tint_loop.simps[of _ _ s] rel drop_tl)
  next
    case stop: False
    have "takeWhile (\<lambda>j. \<not> ?own s j) (tl (tx_slots s)) = []"
    proof (cases "pending_transmits t = 0")
      case True
      then have "tx_slots t = []" by (simp add: tx_slots_def)
      then show ?thesis by (simp add: slt[symmetric])
    next
      case False
      then have p: "0 < pending_transmits t" using t(2) by (simp add: tx_inv_def)
      have st: "tl (tx_slots s) = trans_next t # tl (tl (tx_slots s))"
        using tx_slots_head[OF t(2) p] slt by (metis list.sel(3))
      then have "?own s (trans_next t)" using stop False md[of "trans_next t"] by (metis list.set_intros(1))
      then show ?thesis using st by (metis takeWhile.simps(2))
    qed
    then have "released s = 1" by (simp add: released_def)
    then show ?thesis using t(1-3) stop
      by (intro exI[of _ t]) (auto simp: tint_loop.simps[of _ _ s] drop_Suc)
  qed
qed

text \<open>On an idle ring the scan for the end of the packet never ends.\<close>

lemma tint_loop_idle:
  assumes i: "tx_inv E s" and p: "pending_transmits s = 0"
  shows "tint_loop E la s = None"
proof -
  have z: "mds_status (tx_md s j) = 0" if "j < tx_size s" for j
    using i p that by (simp add: tx_inv_def tx_slots_def)
  have n: "trans_next s < tx_size s" using i by (simp add: tx_inv_def)
  have "find_where (\<lambda>i. has (mds_status (tx_md s i)) (TMD_STP OR TMD_OWN OR TMD_ENP OR TMD_ERR))
      (ntdre s) (trans_next s) = None"
    by (rule find_where_diverges) (simp add: z)
  then have "tint_find_end E la s = None"
    by (simp add: tint_find_end_def z[OF n])
  then show ?thesis by (simp add: tint_loop.simps tint_packet_def)
qed

lemma lnc_tint_fifo:
  assumes "tx_inv E s" "0 < pending_transmits s"
  shows "\<exists>b t k. lnc_tint E r s = Some (b, t) \<and> tx_inv E t \<and>
     1 \<le> k \<and> k \<le> length (tx_queue s) \<and> tx_queue t = drop k (tx_queue s)"
proof -
  obtain b t k where t: "tint_loop E 0 s = Some (b, t)" "tx_inv E t" "1 \<le> k"
      "k \<le> length (tx_queue s)" "tx_queue t = drop k (tx_queue s)"
    using tint_loop_fifo[OF assms, of 0] by blast
  let ?w = "write_csr E CSR (CSR_TINT OR CSR_IENA) (BUMP_ETHER_COUNTER tx_interrupts_update t)"
  have "err_same t (BUMP_ETHER_COUNTER tx_interrupts_update t)" by simp
  from err_same_inv[OF this, of E] have "tx_inv E ?w \<and> tx_queue ?w = tx_queue t"
    using tx_evolves[OF evolves_write_csr, of E] t(2) by metis
  then have "\<exists>b' u. lnc_tint E r s = Some (b', u) \<and> tx_inv E u \<and> tx_queue u = tx_queue t"
    using t(1,2) by (cases b) (auto simp: lnc_tint_def)
  with t(3-5) show ?thesis by metis
qed

lemma lnc_tint_idle: "tx_inv E s \<Longrightarrow> pending_transmits s = 0 \<Longrightarrow> lnc_tint E r s = None"
  by (simp add: lnc_tint_def tint_loop_idle)

lemma lnc_tint_released:
  assumes "quiet_dma E" "tx_inv E s" "0 < pending_transmits s" "no_underflow s"
  shows "\<exists>t. lnc_tint E r s = Some (True, t) \<and> tx_queue t = drop (released s) (tx_queue s)"
proof -
  obtain t where t: "tint_loop E 0 s = Some (True, t)" "tx_inv E t"
      "tx_queue t = drop (released s) (tx_queue s)"
    using tint_loop_released[OF assms, of 0] by blast
  have "err_same t (BUMP_ETHER_COUNTER tx_interrupts_update t)" by simp
  from err_same_inv[OF this, of E] t(2) have "tx_inv E (BUMP_ETHER_COUNTER tx_interrupts_update t)"
    and "tx_queue (BUMP_ETHER_COUNTER tx_interrupts_update t) = tx_queue t" by simp_all
  with t show ?thesis
    using tx_evolves[OF evolves_write_csr, of E "BUMP_ETHER_COUNTER tx_interrupts_update t"]
    by (simp add: lnc_tint_def)
qed

end
