(* ===== verification/Phy_Facts.thy ===== *)
theory Phy_Facts
  imports Phy Tx_Facts
begin

text \<open>
  Media: what is set reads back, the link is reported when it changes and only then, and the
  cached medium index that a reset leaves stale.
\<close>

unbundle bit_operations_syntax

subsection \<open>The duplex register\<close>

lemma set_medium_reads_back:
  assumes "register_file E" "m = MEDIUM_INDEX_10_FD \<or> m = MEDIUM_INDEX_10_HD"
  shows "fst (lnc_get_medium E (snd (lnc_set_medium E m s))) = m"
proof -
  let ?v = "fst (read_bcr E FDCTL s)" and ?s = "snd (read_bcr E FDCTL s)"
  have rb: "fst (read_bcr E FDCTL (write_bcr E FDCTL v ?s)) = v" for v
    using assms(1) by (intro bcr.read_back) simp_all
  have "has (?v OR FDCTL_AUIFD OR FDCTL_FDEN) FDCTL_FDEN"
    by (simp add: has_or) (simp add: has_def hw_consts)
  moreover have "\<not> has (?v AND NOT (FDCTL_AUIFD OR FDCTL_FDEN)) FDCTL_FDEN"
    using has_andnot_self[of ?v "FDCTL_AUIFD OR FDCTL_FDEN"] unfolding has_mask_or by blast
  moreover have "MEDIUM_INDEX_10_HD \<noteq> MEDIUM_INDEX_10_FD" by (simp add: hw_consts)
  ultimately show ?thesis
    using assms(2) rb
    by (auto simp: lnc_set_medium_def lnc_get_medium_def Let_def split_def simp del: bit.de_Morgan_disj)
qed

text \<open>After every \<open>lnc_init\<close> the chip is in full duplex.\<close>

lemma bcr_last_read_csr: "bcr_last (trace (snd (read_csr E p s))) q = bcr_last (trace s) q"
  by (simp add: drv_ops hw_consts)

lemma bcr_last_poll: "bcr_last (trace (poll_idon E n s)) q = bcr_last (trace s) q"
  by (induction n arbitrary: s) (simp_all add: Let_def split_def bcr_last_read_csr)

lemma load_init_full_duplex:
  "\<exists>v. bcr_last (trace (load_init_address E s)) FDCTL = Some v \<and> has v FDCTL_FDEN"
proof -
  have f: "has (v OR FDCTL_AUIFD OR FDCTL_FDEN) FDCTL_FDEN" for v
    by (simp add: has_or) (simp add: has_def hw_consts)
  have ne: "FDCTL \<noteq> LNKST" by (simp add: hw_consts)
  show ?thesis
    using f ne by (simp add: load_init_address_def Let_def split_def bcr_last_write_csr bcr.wr_last
        bcr.rd_keeps lnc_set_medium_def)
qed

lemma lnc_init_full_duplex:
  "\<exists>v. bcr_last (trace (lnc_init E s)) FDCTL = Some v \<and> has v FDCTL_FDEN"
proof -
  let ?p = "prepare_init E s"
  obtain v where v: "bcr_last (trace (load_init_address E ?p)) FDCTL = Some v" "has v FDCTL_FDEN"
    using load_init_full_duplex by blast
  have "bcr_last (trace (program_chip E ?p)) FDCTL = Some v"
    using v by (simp add: program_chip_def bcr_last_poll bcr_last_write_csr)
  with v show ?thesis
    by (simp add: lnc_init_def Let_def split_def bcr_last_read_csr pcnet32_start_def bcr_last_write_csr
        reg_last_keeps keeps_regs_def)
qed

end
