(* ===== verification/Rx_Facts.thy ===== *)
theory Rx_Facts
  imports Lnc_Rx Tx_Facts
begin

text \<open>
  What the receive path does: the copy loop stays inside the buffer it allocated and copies
  exactly the bytes of the packet; a good packet is delivered whole and in order and its
  descriptors go back to the chip; and what happens when a buffer cannot be allocated.
\<close>

unbundle bit_operations_syntax

abbreviation rx_size :: "'a lnc_softc_scheme \<Rightarrow> nat" where
  "rx_size s \<equiv> LNC_NDESC (nrdre s)"

subsection \<open>Returning descriptors\<close>

lemma same_vars_return [simp]: "same_vars s (return_rx_md i s)"
  unfolding return_rx_md_def by (rule same_vars_trans[OF same_vars_upd_md(2) same_vars_upd_md(2)])

lemma fold_return:
  assumes "ring_geom s" "\<forall>i\<in>set is. i < rx_size s"
  shows "same_vars s (fold return_rx_md is s) \<and> trace (fold return_rx_md is s) = trace s \<and>
     ram (mem (fold return_rx_md is s)) = ram (mem s) \<and>
     (\<forall>j<rx_size s. rx_md (fold return_rx_md is s) j =
        (if j \<in> set is then (rx_md s j)\<lparr>mds_status := RMD_OWN, mds_length := - of_nat LNC_RECVBUFSIZE\<rparr>
         else rx_md s j)) \<and>
     (\<forall>j<tx_size s. tx_md (fold return_rx_md is s) j = tx_md s j)"
  using assms
proof (induction "is" arbitrary: s)
  case (Cons i "is")
  let ?s = "return_rx_md i s"
  have sv: "same_vars s ?s" by simp
  have g: "ring_geom ?s" "\<forall>i\<in>set is. i < rx_size ?s"
    using Cons.prems by (simp_all add: return_rx_md_def)
  have "rx_md ?s j = (if j = i then (rx_md s j)\<lparr>mds_status := RMD_OWN, mds_length := - of_nat LNC_RECVBUFSIZE\<rparr>
      else rx_md s j)" if "j < rx_size s" for j
    using Cons.prems that by (simp add: return_rx_md_def rx_md_upd)
  moreover have "tx_md ?s j = tx_md s j" if "j < tx_size s" for j
    using Cons.prems that by (simp add: return_rx_md_def tx_md_upd_rx)
  ultimately show ?case
    using Cons.IH[OF g] Cons.prems same_vars_trans[OF sv] by (simp add: return_rx_md_def)
qed simp

lemma md_upd_commute: "d\<lparr>mds_length := a, mds_status := b\<rparr> = d\<lparr>mds_status := b, mds_length := a\<rparr>"
  by (cases d) simp

lemma fold_drop: "fold drop_rx_md is s = fold return_rx_md is s"
proof -
  have "drop_rx_md i s = return_rx_md i s" for i and s :: pcnet
    by (simp add: drop_rx_md_def return_rx_md_def upd_rx_md_def upd_mds_def md_upd_commute)
  then show ?thesis by presburger
qed

subsection \<open>The copy loop\<close>

lemma copy_md_state: "snd (snd (snd (fold copy_md is (l, off, buf, s)))) = fold return_rx_md is s"
  by (induction "is" arbitrary: l off buf s) (simp_all add: copy_md_def Let_def)

lemma return_ram [simp]: "ram (mem (return_rx_md i s)) = ram (mem s)"
  "recv_ring (return_rx_md i s) = recv_ring s"
  by (simp_all add: return_rx_md_def)

lemma fold_copy:
  fixes l :: u16 and "is" :: "nat list"
  defines "m \<equiv> min (unat l) (LNC_RECVBUFSIZE * length is)"
  shows "\<exists>buf' s'. fold copy_md is (l, off, buf, s) = (l - of_nat m, off + m, buf', s') \<and>
     (\<forall>k<m. buf' (off + k) = ram (mem s) (hre_data (recv_ring s ! (is ! (k div LNC_RECVBUFSIZE)))
                                            + of_nat (k mod LNC_RECVBUFSIZE))) \<and>
     (\<forall>k. k < off \<or> off + m \<le> k \<longrightarrow> buf' k = buf k)"
  unfolding m_def
proof (induction "is" arbitrary: l off buf s)
  case (Cons i "is")
  let ?B = LNC_RECVBUFSIZE
  let ?m1 = "min (unat l) ?B"
  let ?l1 = "l - of_nat ?m1"
  let ?buf1 = "\<lambda>k. if off \<le> k \<and> k < off + ?m1
                   then ram (mem s) (hre_data (recv_ring s ! i) + of_nat (k - off)) else buf k"
  let ?m2 = "min (unat ?l1) (?B * length is)"
  have B: "0 < ?B" "?B < 65536" by (simp_all add: hw_consts)
  have step: "copy_md i (l, off, buf, s) = (?l1, off + ?m1, ?buf1, return_rx_md i s)"
    by (cases "unat l < ?B") (simp_all add: copy_md_def Let_def min_absorb1 min_absorb2)
  have "unat (of_nat ?m1 :: u16) = ?m1" using B by (intro unat_u16) simp
  then have ul: "unat ?l1 = unat l - ?m1"
    using unat_sub_if'[of l "of_nat ?m1"] by simp
  have m: "min (unat l) (?B * length (i # is)) = ?m1 + ?m2"
    unfolding ul by (auto simp: min_def)
  from Cons.IH[of ?l1 "off + ?m1" ?buf1 "return_rx_md i s"] obtain buf' s' where
    f: "fold copy_md is (?l1, off + ?m1, ?buf1, return_rx_md i s) = (?l1 - of_nat ?m2, off + ?m1 + ?m2, buf', s')"
    and b1: "\<forall>k<?m2. buf' (off + ?m1 + k) = ram (mem s) (hre_data (recv_ring s ! (is ! (k div ?B))) + of_nat (k mod ?B))"
    and b2: "\<forall>k. k < off + ?m1 \<or> off + ?m1 + ?m2 \<le> k \<longrightarrow> buf' k = ?buf1 k"
    unfolding return_ram by blast
  have "buf' (off + k) = ram (mem s) (hre_data (recv_ring s ! ((i # is) ! (k div ?B))) + of_nat (k mod ?B))"
    if k: "k < ?m1 + ?m2" for k
  proof (cases "k < ?m1")
    case True
    then have "k div ?B = 0" "k mod ?B = k" by simp_all
    with True spec[OF b2, of "off + k"] show ?thesis by simp
  next
    case False
    with k have "?m1 = ?B" unfolding ul by (auto simp: min_def split: if_splits)
    moreover from this False obtain k' where "k = ?B + k'" using le_Suc_ex not_less by metis
    ultimately show ?thesis using spec[OF b1, of k'] k B by (simp add: add.assoc div_add_self1)
  qed
  moreover have "buf' k = buf k" if "k < off \<or> off + (?m1 + ?m2) \<le> k" for k
    using that spec[OF b2, of k] by auto
  moreover have "?l1 - of_nat ?m2 = l - of_nat (?m1 + ?m2)" by (simp add: diff_diff_eq)
  ultimately show ?case
    unfolding m by (intro exI[of _ buf'] exI[of _ s']) (simp add: step f add.assoc)
qed simp

text \<open>The \<open>l\<close> bytes received into the buffers from descriptor \<open>start\<close> on.\<close>

definition rx_byte :: "'a lnc_softc_scheme \<Rightarrow> nat \<Rightarrow> nat \<Rightarrow> u8" where
  "rx_byte s start k =
     ram (mem s) (hre_data (recv_ring s ! ((start + k div LNC_RECVBUFSIZE) mod rx_size s))
                  + of_nat (k mod LNC_RECVBUFSIZE))"

lemma mbuf_packet_fail:
  "\<not> os_ok E (trace s) \<Longrightarrow> mbuf_packet E start l s = Some (None, emit E (AllocPacket l) s)"
  by (simp add: mbuf_packet_def os_call_def Let_def)

text \<open>
  With an allocated buffer: exactly the first \<open>m\<close> bytes are written, \<open>m\<close> at most the buffer's
  size, and they are the bytes received.
\<close>

lemma mbuf_packet_copy:
  fixes l :: u16
  assumes "os_ok E (trace s)" "start < rx_size s" "recv_next s < rx_size s"
  defines "n \<equiv> cyc_dist (rx_size s) start (recv_next s)"
    and "u \<equiv> emit E (AllocPacket l) s"
  defines "m \<equiv> min (unat l) (LNC_RECVBUFSIZE * n)"
  shows "\<exists>buf. mbuf_packet E start l s
        = Some (Some buf, fold return_rx_md (cyc_seg (rx_size s) start n) u) \<and>
     (\<forall>k<m. buf k = rx_byte u start k) \<and> (\<forall>k\<ge>m. buf k = fresh E (trace s) k)"
proof -
  let ?is = "cyc_seg (rx_size s) start n"
  obtain buf' s' where f: "fold copy_md ?is (l, 0, fresh E (trace s), u) = (l - of_nat m, m, buf', s')"
    and b: "\<forall>k<m. buf' k = ram (mem u) (hre_data (recv_ring u ! (?is ! (k div LNC_RECVBUFSIZE)))
                                            + of_nat (k mod LNC_RECVBUFSIZE))"
    and o: "\<forall>k\<ge>m. buf' k = fresh E (trace s) k"
    using fold_copy[of ?is l 0 "fresh E (trace s)" u] unfolding m_def by auto
  have s': "s' = fold return_rx_md ?is u"
    using copy_md_state[of ?is l 0 "fresh E (trace s)" u] by (simp add: f)
  have "while_ring copy_md (nrdre u) start (recv_next u) (l, 0, fresh E (trace s), u)
      = Some (l - of_nat m, m, buf', s')"
    using while_ring_seg[of start "nrdre s" "recv_next s" copy_md] assms(2,3)
    by (simp add: u_def flip: f n_def)
  then have r: "mbuf_packet E start l s = Some (Some buf', s')"
    using assms(1) by (simp add: mbuf_packet_def os_call_def Let_def u_def)
  have "buf' k = rx_byte u start k" if "k < m" for k
  proof -
    have "k div LNC_RECVBUFSIZE < n"
      using that by (simp add: m_def less_mult_imp_div_less mult.commute)
    with b that show ?thesis by (simp add: rx_byte_def cyc_seg_nth u_def)
  qed
  with o r s' show ?thesis by blast
qed

subsection \<open>One packet\<close>

text \<open>
  A complete packet of \<open>n\<close> descriptors at \<open>recv_next\<close>: the first starts it, the last ends it, and
  the chip owns none of those after the first (the loop does not look at the first's bit).
\<close>

definition rx_chain :: "'a lnc_softc_scheme \<Rightarrow> nat \<Rightarrow> bool" where
  "rx_chain s n \<longleftrightarrow>
     (let N = rx_size s; st = \<lambda>l. mds_status (rx_md s ((recv_next s + l) mod N)) in
      1 \<le> n \<and> n < N \<and> recv_next s < N \<and>
      has (st 0) RMD_STP \<and>
      (\<forall>l. 1 \<le> l \<longrightarrow> l < n \<longrightarrow> \<not> has (st l) RMD_STP \<and> \<not> has (st l) RMD_OWN) \<and>
      (\<forall>l<n. has (st l) (RMD_ENP OR RMD_ERR) \<longleftrightarrow> l = n - 1))"

definition rx_last :: "'a lnc_softc_scheme \<Rightarrow> nat \<Rightarrow> pcnet32_mds" where
  "rx_last s n = rx_md s ((recv_next s + (n - 1)) mod rx_size s)"

lemma rx_md_recv_next [simp]: "rx_md (s\<lparr>recv_next := i\<rparr>) j = rx_md s j"
  by (simp add: rx_md_def)

lemma rint_find_end_chain:
  assumes c: "rx_chain s n"
  shows "rint_find_end E la (mds_status (rx_md s (recv_next s))) s
     = Some (Inr (mds_status (rx_last s n), s\<lparr>recv_next := (recv_next s + (n - 1)) mod rx_size s\<rparr>))"
proof (cases "n = 1")
  case True
  with c show ?thesis
    by (auto simp: rx_chain_def rx_last_def rint_find_end_def Let_def)
next
  case False
  let ?N = "rx_size s" and ?st = "\<lambda>l. mds_status (rx_md s ((recv_next s + l) mod rx_size s))"
  let ?hit = "\<lambda>i. has (mds_status (rx_md s i)) (RMD_STP OR RMD_OWN OR RMD_ENP OR RMD_ERR)"
  have n: "2 \<le> n" "n < ?N" "recv_next s < ?N" using c False by (auto simp: rx_chain_def Let_def)
  have e: "has (?st l) (RMD_ENP OR RMD_ERR) \<longleftrightarrow> l = n - 1" if "l < n" for l
    using c that by (simp add: rx_chain_def Let_def)
  have o: "\<not> has (?st l) RMD_STP \<and> \<not> has (?st l) RMD_OWN" if "1 \<le> l" "l < n" for l
    using c that by (simp add: rx_chain_def Let_def)
  have first: "first_where ?hit ?N (recv_next s) (n - 1)"
    unfolding first_where_def
  proof (intro conjI ballI)
    show "?hit ((recv_next s + (n - 1)) mod ?N)"
      using e[of "n - 1"] n by (simp add: has_mask_or)
    fix l assume "l \<in> {1..<n - 1}"
    then have "1 \<le> l" "l < n" "l \<noteq> n - 1" by auto
    with e[of l] o[of l] show "\<not> ?hit ((recv_next s + l) mod ?N)" by (simp add: has_mask_or)
  qed (use n in auto)
  from find_where_first[OF n(3) first]
  have f: "find_where ?hit (nrdre s) (recv_next s) = Some ((recv_next s + (n - 1)) mod ?N)" .
  have "\<not> has (mds_status (rx_md s (recv_next s))) (RMD_ENP OR RMD_ERR)"
    using e[of 0] n by simp
  then show ?thesis
    using f o[of "n - 1"] n by (simp add: rint_find_end_def Let_def rx_last_def)
qed

text \<open>The packet's slots, and the driver's state once its index has moved past them.\<close>

definition rx_slots :: "'a lnc_softc_scheme \<Rightarrow> nat \<Rightarrow> nat list" where
  "rx_slots s n = cyc_seg (rx_size s) (recv_next s) n"

definition rx_past :: "nat \<Rightarrow> 'a lnc_softc_scheme \<Rightarrow> 'a lnc_softc_scheme" where
  "rx_past n s = s\<lparr>recv_next := (recv_next s + n) mod rx_size s\<rparr>"

lemma rx_past_sel [simp]:
  "trace (rx_past n s) = trace s" "mem (rx_past n s) = mem s" "nrdre (rx_past n s) = nrdre s"
  "ntdre (rx_past n s) = ntdre s" "recv_ring (rx_past n s) = recv_ring s"
  "trans_ring (rx_past n s) = trans_ring s" "init_block (rx_past n s) = init_block s"
  "recv_next (rx_past n s) = (recv_next s + n) mod rx_size s" "if_flags (rx_past n s) = if_flags s"
  "rx_md (rx_past n s) j = rx_md s j" "tx_md (rx_past n s) j = tx_md s j"
  by (simp_all add: rx_past_def rx_md_def tx_md_def)

lemma rint_packet_chain:
  assumes c: "rx_chain s n"
  shows "rint_packet E la q (mds_status (rx_md s (recv_next s))) s =
    (if has (mds_status (rx_last s n)) RMD_ERR
     then map_option (RintNext q) (rint_drop (mds_status (rx_last s n)) (recv_next s) (rx_past n s))
     else map_option (\<lambda>(q, s). RintNext q s)
            (rint_deliver E (recv_next s) (rint_pkt_len (rx_last s n)) q (rx_past n s)))"
proof -
  let ?N = "rx_size s"
  have n: "1 \<le> n" "recv_next s < ?N" using c by (auto simp: rx_chain_def Let_def)
  have "LNC_INC_MD_PTR ((recv_next s + (n - 1)) mod ?N) (nrdre s) = Suc (recv_next s + (n - 1)) mod ?N"
    by (simp add: LNC_INC_mod mod_simps)
  also have "Suc (recv_next s + (n - 1)) = recv_next s + n" using n by simp
  finally have inc: "LNC_INC_MD_PTR ((recv_next s + (n - 1)) mod ?N) (nrdre s) = (recv_next s + n) mod ?N" .
  have past: "s\<lparr>recv_next := (recv_next s + (n - 1)) mod ?N\<rparr>\<lparr>recv_next := (recv_next s + n) mod ?N\<rparr> = rx_past n s"
    by (simp add: rx_past_def)
  show ?thesis
    unfolding rint_packet_def Let_def rint_find_end_chain[OF c]
    using inc past
    by (simp add: rx_last_def map_option_case split_def split: option.split)
qed

lemma rx_dist: "rx_chain s n \<Longrightarrow> cyc_dist (rx_size s) (recv_next s) ((recv_next s + n) mod rx_size s) = n"
  by (rule cyc_dist_add) (auto simp: rx_chain_def Let_def)

text \<open>A packet with an error is counted and dropped, and all its descriptors go back to the chip.\<close>

lemma rint_packet_error:
  assumes "rx_chain s n" "has (mds_status (rx_last s n)) RMD_ERR"
  shows "rint_packet E la q (mds_status (rx_md s (recv_next s))) s =
    Some (RintNext q (fold return_rx_md (rx_slots s n)
                        (rint_error_counts (mds_status (rx_last s n)) (rx_past n s))))"
proof -
  let ?u = "rint_error_counts (mds_status (rx_last s n)) (rx_past n s)"
  have sel: "nrdre ?u = nrdre s" "recv_next ?u = (recv_next s + n) mod rx_size s"
    by (simp_all add: rint_error_counts_def Let_def drv_ops)
  have l: "recv_next s < LNC_NDESC (nrdre s)" "recv_next ?u < LNC_NDESC (nrdre s)"
    using assms(1) by (simp_all add: rx_chain_def Let_def sel)
  have "rint_drop (mds_status (rx_last s n)) (recv_next s) (rx_past n s)
      = Some (fold return_rx_md (rx_slots s n) ?u)"
    using while_ring_seg[OF l, of drop_rx_md ?u] rx_dist[OF assms(1)]
    by (simp add: rint_drop_def Let_def fold_drop rx_slots_def sel)
  with assms(2) show ?thesis by (simp add: rint_packet_chain[OF assms(1)])
qed

text \<open>
  A good packet whose buffer cannot be allocated is counted; its descriptors stay as they
  are, not returned to the chip.
\<close>

lemma rint_packet_no_buffer:
  assumes "rx_chain s n" "\<not> has (mds_status (rx_last s n)) RMD_ERR" "\<not> os_ok E (trace s)"
  shows "rint_packet E la q (mds_status (rx_md s (recv_next s))) s =
    Some (RintNext q (BUMP_ETHER_COUNTER rx_resourceErrors_update
      (emit E (AllocPacket (rint_pkt_len (rx_last s n))) (rx_past n s))))"
  using assms
  by (simp add: rint_packet_chain rint_deliver_def mbuf_packet_fail)

text \<open>
  Otherwise it is delivered whole, byte for byte, unless it carries the driver's own source
  address, and all its descriptors go back to the chip.
\<close>

definition rx_payload :: "'a lnc_softc_scheme \<Rightarrow> nat \<Rightarrow> u8 list" where
  "rx_payload s n = map (rx_byte s (recv_next s)) [0..<unat (rint_pkt_len (rx_last s n))]"

definition fits :: "'a lnc_softc_scheme \<Rightarrow> nat \<Rightarrow> bool" where
  "fits s n \<longleftrightarrow> 12 \<le> unat (rint_pkt_len (rx_last s n)) \<and>
     unat (rint_pkt_len (rx_last s n)) \<le> LNC_RECVBUFSIZE * n"

lemma rint_packet_good:
  fixes E :: env and s :: pcnet and n :: nat
  assumes c: "rx_chain s n" and g: "\<not> has (mds_status (rx_last s n)) RMD_ERR" and a: "os_ok E (trace s)"
    and f: "fits s n"
  defines "u \<equiv> emit E (AllocPacket (rint_pkt_len (rx_last s n))) (rx_past n s)"
  defines "v \<equiv> fold return_rx_md (rx_slots s n) u"
    and "pkt \<equiv> map (rx_byte u (recv_next s)) [0..<unat (rint_pkt_len (rx_last s n))]"
  shows "rint_packet E la q (mds_status (rx_md s (recv_next s))) s = Some (
    if take 6 (drop 6 pkt) = ib_phys_addr (init_block s) then RintNext q (emit E FreePacket v)
    else RintNext True (BUMP_NET_COUNTER inputPackets_update (emit E (InputPacket pkt) v)))"
proof -
  let ?l = "rint_pkt_len (rx_last s n)"
  have i: "os_ok E (trace (rx_past n s))" "recv_next s < rx_size (rx_past n s)"
    "recv_next (rx_past n s) < rx_size (rx_past n s)"
    using a c by (auto simp: rx_chain_def Let_def)
  have m: "min (unat ?l) (LNC_RECVBUFSIZE * cyc_dist (rx_size s) (recv_next s) (recv_next (rx_past n s))) = unat ?l"
    using f by (simp add: rx_dist[OF c] fits_def)
  from mbuf_packet_copy[OF i, of ?l] obtain buf where
    b: "mbuf_packet E (recv_next s) ?l (rx_past n s) = Some (Some buf, v)"
      "\<forall>k<unat ?l. buf k = rx_byte u (recv_next s) k"
    using m by (auto simp: v_def u_def rx_slots_def rx_dist[OF c])
  have p: "map buf [0..<unat ?l] = pkt" using b(2) by (simp add: pkt_def)
  have src: "ether_shost buf = take 6 (drop 6 pkt)"
    using f unfolding p[symmetric] ether_shost_def fits_def
    by (simp add: take_map drop_map take_upt)
  have "same_vars u v"
    unfolding v_def by (rule fold_same_vars) simp
  then have "init_block v = init_block s" by (simp add: same_vars_sel u_def)
  with b(1) p src g show ?thesis
    by (simp add: rint_packet_chain[OF c] rint_deliver_def)
qed

subsection \<open>A whole interrupt\<close>

fun delivered :: "history \<Rightarrow> u8 list list" where
  "delivered [] = []"
| "delivered (InputPacket p # h) = delivered h @ [p]"
| "delivered (e # h) = delivered h"

definition quiet_chip :: "env \<Rightarrow> bool" where
  "quiet_chip E \<longleftrightarrow> (\<forall>h m. dma E h m = m)"

lemma quiet_mem: "quiet_chip E \<Longrightarrow> mem (emit E e s) = mem s"
  by (simp add: quiet_chip_def emit_mem)

text \<open>A slot with one complete good packet, and the packet.\<close>

definition rx_filled :: "'a lnc_softc_scheme \<Rightarrow> nat \<Rightarrow> bool" where
  "rx_filled s j \<longleftrightarrow>
     (let st = mds_status (rx_md s j); l = unat (rint_pkt_len (rx_md s j)) in
      has st RMD_STP \<and> has st RMD_ENP \<and> \<not> has st RMD_ERR \<and> \<not> has st RMD_OWN \<and>
      12 \<le> l \<and> l \<le> LNC_RECVBUFSIZE)"

definition payload_at :: "'a lnc_softc_scheme \<Rightarrow> nat \<Rightarrow> u8 list" where
  "payload_at s j = map (\<lambda>k. ram (mem s) (hre_data (recv_ring s ! j) + of_nat k))
     [0..<unat (rint_pkt_len (rx_md s j))]"

definition own_source :: "'a lnc_softc_scheme \<Rightarrow> u8 list \<Rightarrow> bool" where
  "own_source s p \<longleftrightarrow> take 6 (drop 6 p) = ib_phys_addr (init_block s)"

lemma rx_filled_chain:
  assumes "rx_filled s (recv_next s)" "recv_next s < rx_size s" "1 < rx_size s"
  shows "rx_chain s 1" "fits s 1" "rx_last s 1 = rx_md s (recv_next s)"
    "\<not> has (mds_status (rx_last s 1)) RMD_ERR"
  using assms by (simp_all add: rx_chain_def rx_last_def fits_def rx_filled_def has_mask_or Let_def)

lemma rint_step_filled:
  assumes q: "quiet_chip E" "\<forall>h. os_ok E h" and g: "ring_geom s"
    and f: "rx_filled s (recv_next s)" "recv_next s < rx_size s" "1 < rx_size s"
  shows "\<exists>q' t. rint_packet E la q (mds_status (rx_md s (recv_next s))) s = Some (RintNext q' t) \<and>
     delivered (trace t) = delivered (trace s) @
       filter (\<lambda>p. \<not> own_source s p) [payload_at s (recv_next s)] \<and>
     ring_geom t \<and> nrdre t = nrdre s \<and> recv_ring t = recv_ring s \<and> init_block t = init_block s \<and>
     ram (mem t) = ram (mem s) \<and> recv_next t = Suc (recv_next s) mod rx_size s \<and>
     (\<forall>j<rx_size s. rx_md t j = (if j = recv_next s
        then (rx_md s j)\<lparr>mds_status := RMD_OWN, mds_length := - of_nat LNC_RECVBUFSIZE\<rparr> else rx_md s j))"
proof -
  let ?r = "recv_next s" and ?l = "rint_pkt_len (rx_md s (recv_next s))"
  define u where "u = emit E (AllocPacket (rint_pkt_len (rx_last s 1))) (rx_past 1 s)"
  define v where "v = fold return_rx_md (rx_slots s 1) u"
  note c = rx_filled_chain[OF f]
  have u: "mem u = mem s" "ring_geom u" "nrdre u = nrdre s" "recv_ring u = recv_ring s"
      "init_block u = init_block s" "recv_next u = Suc ?r mod rx_size s"
      "delivered (trace u) = delivered (trace s)" "rx_md u j = rx_md s j" for j
    using g by (simp_all add: u_def quiet_mem[OF q(1)] ring_geom_def rx_md_def)
  have sl: "rx_slots s 1 = [?r]" using f by (simp add: rx_slots_def cyc_seg_def)
  have v0: "v = return_rx_md ?r u" unfolding v_def sl by simp
  have v: "same_vars u v" "trace v = trace u" "ram (mem v) = ram (mem s)"
      "\<forall>j<rx_size s. rx_md v j = (if j = ?r
        then (rx_md s j)\<lparr>mds_status := RMD_OWN, mds_length := - of_nat LNC_RECVBUFSIZE\<rparr> else rx_md s j)"
    using fold_return[of u "[?r]"] u f(2) by (simp_all add: v0)
  have pkt: "map (rx_byte u ?r) [0..<unat (rint_pkt_len (rx_last s 1))] = payload_at s ?r"
    unfolding payload_at_def c(3)
  proof (rule map_cong[OF refl])
    fix k assume "k \<in> set [0..<unat ?l]"
    then have "k < LNC_RECVBUFSIZE" using f(1) by (simp add: rx_filled_def Let_def)
    then show "rx_byte u ?r k = ram (mem s) (hre_data (recv_ring s ! ?r) + of_nat k)"
      using f(2) by (simp add: rx_byte_def u)
  qed
  have gv: "ring_geom v" using u(2) by (simp add: ring_geom_def same_vars_sel[OF v(1)])
  note r = rint_packet_good[OF c(1) c(4) q(2)[rule_format] c(2), of la q, folded u_def, folded v_def, unfolded pkt]
  have em: "rx_md (emit E e v) j = rx_md v j" "ring_geom (emit E e v)" "mem (emit E e v) = mem v" for e j
    using gv by (simp_all add: rx_md_def quiet_mem[OF q(1)] ring_geom_def)
  have bump: "rx_md (BUMP_NET_COUNTER x w) j = rx_md w j" "ring_geom (BUMP_NET_COUNTER x w) = ring_geom w"
      for x w j
    by (simp_all add: rx_md_def drv_ops)
  show ?thesis
  proof (cases "own_source s (payload_at s ?r)")
    case True
    then show ?thesis
      using r v em u by (simp add: own_source_def same_vars_sel[OF v(1)])
  next
    case False
    then show ?thesis
      using r v em u by (simp add: own_source_def same_vars_sel[OF v(1)] bump)
        (auto simp: drv_ops same_vars_sel[OF v(1)] u em v)
  qed
qed

text \<open>What the loop has done when it has emptied \<open>m\<close> slots, and what one packet does.\<close>

definition rx_emptied :: "pcnet \<Rightarrow> nat \<Rightarrow> pcnet \<Rightarrow> bool" where
  "rx_emptied s m t \<longleftrightarrow>
     delivered (trace t) = delivered (trace s) @
       filter (\<lambda>p. \<not> own_source s p) (map (payload_at s) (rx_slots s m)) \<and>
     recv_next t = (recv_next s + m) mod rx_size s \<and> ring_geom t \<and> nrdre t = nrdre s \<and>
     (\<forall>j\<in>set (rx_slots s m). mds_status (rx_md t j) = RMD_OWN) \<and>
     (\<forall>j<rx_size s. j \<notin> set (rx_slots s m) \<longrightarrow> rx_md t j = rx_md s j)"

definition rx_took :: "pcnet \<Rightarrow> pcnet \<Rightarrow> bool" where
  "rx_took s u \<longleftrightarrow>
     delivered (trace u) = delivered (trace s) @ filter (\<lambda>p. \<not> own_source s p) [payload_at s (recv_next s)] \<and>
     ring_geom u \<and> nrdre u = nrdre s \<and> recv_ring u = recv_ring s \<and> init_block u = init_block s \<and>
     ram (mem u) = ram (mem s) \<and> recv_next u = Suc (recv_next s) mod rx_size s \<and>
     (\<forall>j<rx_size s. rx_md u j = (if j = recv_next s
        then (rx_md s j)\<lparr>mds_status := RMD_OWN, mds_length := - of_nat LNC_RECVBUFSIZE\<rparr> else rx_md s j))"

lemma rx_emptied_Suc:
  assumes p: "recv_next s < rx_size s" "Suc m \<le> rx_size s" and u: "rx_took s u" and t: "rx_emptied u m t"
  shows "rx_emptied s (Suc m) t"
proof -
  let ?N = "rx_size s" and ?r = "recv_next s"
  have U: "delivered (trace u) = delivered (trace s) @ filter (\<lambda>p. \<not> own_source s p) [payload_at s ?r]" "nrdre u = nrdre s"
    "recv_ring u = recv_ring s" "init_block u = init_block s" "ram (mem u) = ram (mem s)" "recv_next u = Suc ?r mod ?N"
    "\<forall>j<?N. rx_md u j = (if j = ?r then (rx_md s j)\<lparr>mds_status := RMD_OWN, mds_length := - of_nat LNC_RECVBUFSIZE\<rparr> else rx_md s j)"
    using u by (simp_all add: rx_took_def)
  have sl: "rx_slots s (Suc m) = ?r # rx_slots u m"
    using p(1) by (simp add: rx_slots_def cyc_seg_Suc U(2,6))
  have "distinct (rx_slots s (Suc m))"
    unfolding rx_slots_def by (rule cyc_seg_distinct) (use p(2) in simp)
  then have nin: "?r \<notin> set (rx_slots u m)" by (simp add: sl)
  have lt: "j < ?N" if "j \<in> set (rx_slots u m)" for j
    using cyc_seg_less[of ?N j] that by (simp add: rx_slots_def U(2))
  have pl: "payload_at u j = payload_at s j" if "j \<in> set (rx_slots u m)" for j
  proof -
    have "rx_md u j = rx_md s j" using U(7) lt[OF that] nin that by auto
    then show ?thesis by (simp add: payload_at_def U(3,5))
  qed
  have own: "own_source u = own_source s" by (simp add: own_source_def U(4) fun_eq_iff)
  have "delivered (trace t) = delivered (trace s) @
       filter (\<lambda>p. \<not> own_source s p) (map (payload_at s) (rx_slots s (Suc m)))"
  proof -
    have m: "map (payload_at u) (rx_slots u m) = map (payload_at s) (rx_slots u m)" using pl by simp
    show ?thesis using t by (simp add: rx_emptied_def U(1) own sl m)
  qed
  moreover have "mds_status (rx_md t j) = RMD_OWN" if "j \<in> set (rx_slots s (Suc m))" for j
    using that t U(2,7) p(1) nin by (auto simp: sl rx_emptied_def)
  moreover have "rx_md t j = rx_md s j" if "j < ?N" "j \<notin> set (rx_slots s (Suc m))" for j
    using that t U(2,7) by (auto simp: sl rx_emptied_def)
  ultimately show ?thesis
    using t U(2,6) by (simp add: rx_emptied_def mod_simps)
qed

text \<open>The slots behind the packet taken are filled as before, and the one after them is not.\<close>

lemma rx_took_rest:
  assumes u: "rx_took s u" and p: "recv_next s < rx_size s" "Suc m \<le> rx_size s"
    "\<forall>l<Suc m. rx_filled s ((recv_next s + l) mod rx_size s)"
    "Suc m < rx_size s \<Longrightarrow> \<not> has (mds_status (rx_md s ((recv_next s + Suc m) mod rx_size s))) RMD_STP"
  shows "\<forall>l<m. rx_filled u ((recv_next u + l) mod rx_size u)"
    "\<not> has (mds_status (rx_md u ((recv_next u + m) mod rx_size u))) RMD_STP"
proof -
  let ?N = "rx_size s" and ?r = "recv_next s"
  have U: "nrdre u = nrdre s" "recv_next u = Suc ?r mod ?N"
    "\<forall>j<?N. rx_md u j = (if j = ?r then (rx_md s j)\<lparr>mds_status := RMD_OWN, mds_length := - of_nat LNC_RECVBUFSIZE\<rparr> else rx_md s j)"
    using u by (simp_all add: rx_took_def)
  have ne: "(?r + Suc l) mod ?N \<noteq> ?r" if "Suc l < ?N" for l
    using cyc_inj[of ?r "Suc l" ?N 0] that p(1) by auto
  have shift: "(recv_next u + l) mod ?N = (?r + Suc l) mod ?N" for l
    by (simp add: U(2) mod_simps)
  have old: "rx_md u ((?r + Suc l) mod ?N) = rx_md s ((?r + Suc l) mod ?N)" if "Suc l < ?N" for l
    using U(3) ne[OF that] by simp
  show "\<forall>l<m. rx_filled u ((recv_next u + l) mod rx_size u)"
    using p(2) p(3)[rule_format, of "Suc l" for l] old by (auto simp: U(1) shift rx_filled_def)
  show "\<not> has (mds_status (rx_md u ((recv_next u + m) mod rx_size u))) RMD_STP"
  proof (cases "Suc m < ?N")
    case True
    then show ?thesis using p(4) old[of m] by (simp add: U(1) shift)
  next
    case False
    with p(2) have "Suc m = ?N" by simp
    then have "(?r + Suc m) mod ?N = ?r" using p(1) by simp
    then show ?thesis using U(3) p(1)
      by (simp add: U(1) shift has_def) (simp add: hw_consts)
  qed
qed

text \<open>
  With the chip at rest and buffers available, the loop delivers the packets of all \<open>m\<close> filled
  slots in ring order, returns every one of their descriptors, and stops at the first slot
  that is not filled.
\<close>

lemma rint_loop_empties:
  assumes q: "quiet_chip E" "\<forall>h. os_ok E h"
    and s: "ring_geom s" "recv_next s < rx_size s" "1 < rx_size s" "m \<le> rx_size s"
      "\<forall>l<m. rx_filled s ((recv_next s + l) mod rx_size s)"
      "m < rx_size s \<Longrightarrow> \<not> has (mds_status (rx_md s ((recv_next s + m) mod rx_size s))) RMD_STP"
  shows "\<exists>q' t. rint_loop E la qd s = Some (True, q', t) \<and> rx_emptied s m t"
  using s
proof (induction m arbitrary: s la qd)
  case 0
  then have "\<not> has (mds_status (rx_md s (recv_next s))) RMD_STP" by simp
  then show ?case using 0 by (simp add: rint_loop.simps rx_slots_def rx_emptied_def)
next
  case (Suc m)
  note p = Suc.prems
  have f: "rx_filled s (recv_next s)" using p(5)[rule_format, of 0] p(2) by simp
  obtain q' u where u: "rint_packet E la qd (mds_status (rx_md s (recv_next s))) s = Some (RintNext q' u)" "rx_took s u"
    using rint_step_filled[OF q p(1) f p(2,3), of la qd] unfolding rx_took_def by blast
  note rest = rx_took_rest[OF u(2) p(2,4,5,6)]
  have g: "ring_geom u" "recv_next u < rx_size u" "1 < rx_size u" "m \<le> rx_size u" using u(2) p by (simp_all add: rx_took_def)
  from Suc.IH[OF g rest, of "la + 1" q'] obtain q'' t where
    t: "rint_loop E (la + 1) q' u = Some (True, q'', t)" "rx_emptied u m t" by blast
  have "has (mds_status (rx_md s (recv_next s))) RMD_STP" using f by (simp add: rx_filled_def Let_def)
  then have "rint_loop E la qd s = Some (True, q'', t)"
    using u(1) t(1) by (simp add: rint_loop.simps[of _ _ _ s])
  with rx_emptied_Suc[OF p(2,4) u(2) t(2)] show ?case by blast
qed

lemmas rint_loop_filled = rint_loop_empties[unfolded rx_emptied_def]

text \<open>A frame: \<open>lnc_rint\<close> ends with the acknowledgement of the interrupt.\<close>

lemma delivered_evolves_write: "delivered (trace (write_csr E p v s)) = delivered (trace s)"
  by (simp add: drv_ops)

lemma lnc_rint_filled:
  assumes "quiet_chip E" "\<forall>h. os_ok E h"
    and "ring_geom s" "recv_next s < rx_size s" "1 < rx_size s" "m \<le> rx_size s"
      "\<forall>l<m. rx_filled s ((recv_next s + l) mod rx_size s)"
      "m < rx_size s \<Longrightarrow> \<not> has (mds_status (rx_md s ((recv_next s + m) mod rx_size s))) RMD_STP"
  shows "\<exists>q' t. lnc_rint E qd s = Some (q', t) \<and>
     delivered (trace t) = delivered (trace s) @
       filter (\<lambda>p. \<not> own_source s p) (map (payload_at s) (rx_slots s m)) \<and>
     recv_next t = (recv_next s + m) mod rx_size s \<and>
     (\<forall>j\<in>set (rx_slots s m). mds_status (rx_md t j) = RMD_OWN)"
proof -
  obtain q' t where t: "rint_loop E 0 qd s = Some (True, q', t)"
     "delivered (trace t) = delivered (trace s) @
       filter (\<lambda>p. \<not> own_source s p) (map (payload_at s) (rx_slots s m))"
     "recv_next t = (recv_next s + m) mod rx_size s"
     "\<forall>j\<in>set (rx_slots s m). mds_status (rx_md t j) = RMD_OWN"
    using rint_loop_filled[OF assms, of 0 qd] by blast
  let ?t = "BUMP_ETHER_COUNTER rx_interrupts_update t"
  have "rx_md (write_csr E CSR (CSR_RINT OR CSR_IENA) ?t) j = rx_md t j" for j
    using assms(1) by (simp add: rx_md_def drv_ops quiet_mem)
  moreover have "trace ?t = trace t" "recv_next ?t = recv_next t" by (simp_all add: drv_ops)
  ultimately show ?thesis
    using t by (simp add: lnc_rint_def delivered_evolves_write)
qed

subsection \<open>Out of buffers\<close>

text \<open>
  With every slot filled, the chip waiting for a descriptor and no buffer to be had, the loop
  goes around the ring forever: a slot whose packet is dropped keeps its \<open>RMD_STP\<close>.
\<close>

definition rx_stuck :: "'a lnc_softc_scheme \<Rightarrow> bool" where
  "rx_stuck s \<longleftrightarrow> ring_geom s \<and> recv_next s < rx_size s \<and> 1 < rx_size s \<and>
     (\<forall>j<rx_size s. rx_filled s j)"

lemma rint_step_stuck:
  assumes "quiet_chip E" "\<forall>h. \<not> os_ok E h" "rx_stuck s"
  shows "\<exists>t. rint_packet E la q (mds_status (rx_md s (recv_next s))) s = Some (RintNext q t) \<and> rx_stuck t"
proof -
  have f: "rx_filled s (recv_next s)" "recv_next s < rx_size s" "1 < rx_size s"
    using assms(3) by (auto simp: rx_stuck_def)
  let ?t = "BUMP_ETHER_COUNTER rx_resourceErrors_update
      (emit E (AllocPacket (rint_pkt_len (rx_last s 1))) (rx_past 1 s))"
  note c = rx_filled_chain[OF f]
  have "rint_packet E la q (mds_status (rx_md s (recv_next s))) s = Some (RintNext q ?t)"
    using assms(2) by (intro rint_packet_no_buffer[OF c(1) c(4)]) simp
  moreover have "rx_stuck ?t"
    using assms(1,3) by (simp add: rx_stuck_def rx_filled_def ring_geom_def rx_md_def drv_ops quiet_mem Let_def)
  ultimately show ?thesis by blast
qed

lemma rint_loop_stuck:
  assumes e: "quiet_chip E" "\<forall>h. \<not> os_ok E h" and s: "rx_stuck s"
  shows "rint_loop E la q s = None"
proof -
  have none: "\<not> (E' = E \<and> rx_stuck s')" if "rint_loop E' la' q' s' = Some r" for E' la' q' s' r
  proof (rule rint_loop.raw_induct[where P = "\<lambda>E' la' q' s' r. \<not> (E' = E \<and> rx_stuck s')", OF _ that])
    fix f E' la' q' s' r
    assume IH: "\<And>E' la' q' s' r. f E' la' q' s' = Some r \<Longrightarrow> \<not> (E' = E \<and> rx_stuck s')"
      and eq: "(let status = mds_status (rx_md s' (recv_next s')) in
        if \<not> has status RMD_STP then Some (True, q', s')
        else rint_packet E' la' q' status s' \<bind>
             (\<lambda>r. case r of RintReset s \<Rightarrow> Some (False, q', s) | RintBreak s \<Rightarrow> Some (True, q', s)
                   | RintNext q s \<Rightarrow> f E' (la' + 1) q s)) = Some r"
    show "\<not> (E' = E \<and> rx_stuck s')"
    proof
      assume h: "E' = E \<and> rx_stuck s'"
      then obtain t where t: "rint_packet E la' q' (mds_status (rx_md s' (recv_next s'))) s' = Some (RintNext q' t)"
          "rx_stuck t"
        using rint_step_stuck[OF e] by blast
      have "has (mds_status (rx_md s' (recv_next s'))) RMD_STP"
        using h by (simp add: rx_stuck_def rx_filled_def Let_def)
      with eq t h have "f E (la' + 1) q' t = Some r" by (simp add: Let_def)
      with IH t(2) show False by blast
    qed
  qed
  show ?thesis
  proof (cases "rint_loop E la q s")
    case (Some r)
    from none[OF this] s show ?thesis by simp
  qed
qed

text \<open>The length of a frame shorter than its checksum wraps around.\<close>

lemma rint_pkt_len_unat:
  "unat (rint_pkt_len d) =
     (let m = unat (mds_misc d AND MDHEAD_LEN_MASK) in if m < 4 then m + 65532 else m - 4)"
proof -
  let ?m = "mds_misc d AND 0xFFF"
  have m: "unat ?m < 4096"
    using word_and_le1[of "mds_misc d" "0xFFF"] by (simp add: word_le_nat_alt)
  have sub: "unat (?m - 4) = (if 4 \<le> unat ?m then unat ?m - 4 else 4294967292 + unat ?m)"
    using unat_sub_if'[of ?m 4] by simp
  have "unat (rint_pkt_len d) = unat (?m - 4) mod 65536"
    by (simp add: rint_pkt_len_def hw_consts unsigned_ucast_eq take_bit_eq_mod)
  then have e: "unat (rint_pkt_len d) = (if 4 \<le> unat ?m then unat ?m - 4 else 4294967292 + unat ?m) mod 65536"
    unfolding sub .
  show ?thesis
  proof (cases "4 \<le> unat ?m")
    case True
    with e m show ?thesis by (simp add: Let_def MDHEAD_LEN_MASK_def)
  next
    case False
    have "(4294967292 + x) mod 65536 = x + 65532" if "\<not> 4 \<le> x" for x :: nat
    proof -
      from that have "x = 0 \<or> x = 1 \<or> x = 2 \<or> x = 3" by linarith
      then show ?thesis by (elim disjE) simp_all
    qed
    with e False show ?thesis by (simp add: Let_def MDHEAD_LEN_MASK_def)
  qed
qed

end
