(* ===== verification/Tx_Queue.thy ===== *)
theory Tx_Queue
  imports Tx_Facts
begin

text \<open>
  A transmit ring as its clients see it: a bounded FIFO queue whose consumer takes a prefix at a
  time. The contract is the locale \<open>fifo\<close>, and with progress \<open>bounded_fifo\<close>; what follows from them
  for any sequence of operations is proved there, and the driver's ring is an interpretation.
\<close>

datatype 'p fifo_op = Put 'p | Reap

text \<open>A run of the operations, with the items accepted. \<open>Reap\<close> on an empty queue does not happen.\<close>

fun fifo_run ::
  "('p \<Rightarrow> 's \<Rightarrow> bool \<times> 's) \<Rightarrow> ('s \<Rightarrow> 's option) \<Rightarrow> ('s \<Rightarrow> 'd list) \<Rightarrow> ('p \<Rightarrow> 'd) \<Rightarrow>
   'p fifo_op list \<Rightarrow> 's \<Rightarrow> ('d list \<times> 's) option" where
  "fifo_run put reap items data [] s = Some ([], s)"
| "fifo_run put reap items data (Put p # ops) s =
     (let (accepted, s) = put p s in do {
        (acc, s) \<leftarrow> fifo_run put reap items data ops s;
        Some (if accepted then data p # acc else acc, s)
      })"
| "fifo_run put reap items data (Reap # ops) s =
     (if items s = [] then fifo_run put reap items data ops s
      else do { s \<leftarrow> reap s; fifo_run put reap items data ops s })"

locale fifo =
  fixes put :: "'p \<Rightarrow> 's \<Rightarrow> bool \<times> 's"
    and reap :: "'s \<Rightarrow> 's option"
    and items :: "'s \<Rightarrow> 'd list"
    and data :: "'p \<Rightarrow> 'd"
    and inv :: "'s \<Rightarrow> bool"
    and cap :: "'s \<Rightarrow> nat"
    and ok :: "'p \<Rightarrow> bool"
  assumes put_any: "inv s \<Longrightarrow> ok p \<Longrightarrow> inv (snd (put p s)) \<and>
      items (snd (put p s)) = (if fst (put p s) then items s @ [data p] else items s)"
    and reap_any: "inv s \<Longrightarrow> items s \<noteq> [] \<Longrightarrow>
      \<exists>t k. reap s = Some t \<and> inv t \<and> k \<le> length (items s) \<and> items t = drop k (items s)"
    and bounded: "inv s \<Longrightarrow> length (items s) \<le> cap s"
begin

text \<open>
  Every run returns; what was in the queue, followed by what was accepted, is what was taken
  out, followed by what is in the queue: nothing is lost, duplicated or reordered.
\<close>

lemma run_fifo:
  assumes "inv s" "\<And>p. Put p \<in> set ops \<Longrightarrow> ok p"
  shows "\<exists>acc t taken. fifo_run put reap items data ops s = Some (acc, t) \<and> inv t \<and>
     items s @ acc = taken @ items t \<and> length (items t) \<le> cap t"
  using assms
proof (induction ops arbitrary: s)
  case Nil
  then show ?case using bounded by (intro exI[of _ "[]"]) simp
next
  case (Cons op ops)
  show ?case
  proof (cases op)
    case (Put p)
    obtain b u where u: "put p s = (b, u)" by (cases "put p s")
    with put_any[OF Cons.prems(1), of p] Cons.prems(2) Put
    have i: "inv u" "items u = (if b then items s @ [data p] else items s)" by simp_all
    from Cons.IH[OF i(1)] Cons.prems(2) obtain acc t taken where
      "fifo_run put reap items data ops u = Some (acc, t)" "inv t" "items u @ acc = taken @ items t"
      "length (items t) \<le> cap t"
      by auto
    then show ?thesis
      by - (rule exI[of _ "if b then data p # acc else acc"], rule exI[of _ t], rule exI[of _ taken],
        simp add: Put u i split: if_splits)
  next
    case Reap
    show ?thesis
    proof (cases "items s = []")
      case True
      with Cons.IH[OF Cons.prems(1)] Cons.prems(2) Reap show ?thesis by simp
    next
      case False
      from reap_any[OF Cons.prems(1) False] obtain u k where u: "reap s = Some u" "inv u"
        "items u = drop k (items s)" by blast
      from Cons.IH[OF u(2)] Cons.prems(2) obtain acc t taken where
        "fifo_run put reap items data ops u = Some (acc, t)" "inv t" "items u @ acc = taken @ items t"
        "length (items t) \<le> cap t"
        by auto
      moreover from this have "items s @ acc = (take k (items s) @ taken) @ items t"
        unfolding u(3) by (metis append.assoc append_take_drop_id)
      ultimately show ?thesis using Reap False u(1)
        by - (rule exI[of _ acc], rule exI[of _ t], rule exI[of _ "take k (items s) @ taken"], simp)
    qed
  qed
qed

end

text \<open>
  The ring refuses a packet only when it is full, and a consumer that is called takes something.
\<close>

locale bounded_fifo = fifo +
  assumes accepts: "inv s \<Longrightarrow> ok p \<Longrightarrow> fst (put p s) \<longleftrightarrow> length (items s) < cap s"
    and progress: "inv s \<Longrightarrow> items s \<noteq> [] \<Longrightarrow> reap s = Some t \<Longrightarrow> items t \<noteq> items s"
begin

lemma reap_shorter:
  assumes "inv s" "items s \<noteq> []"
  shows "\<exists>t. reap s = Some t \<and> inv t \<and> length (items t) < length (items s)"
proof -
  from reap_any[OF assms] obtain t k where t: "reap s = Some t" "inv t" "items t = drop k (items s)" by blast
  with progress[OF assms t(1)] have "k \<noteq> 0" by (intro notI) simp
  with t assms show ?thesis by simp
qed

text \<open>As many calls of the consumer as there are items empty the ring.\<close>

lemma drains: "inv s \<Longrightarrow> \<exists>t. fifo_run put reap items data (replicate (length (items s)) Reap) s = Some ([], t) \<and> items t = []"
proof -
  have "inv s \<Longrightarrow> length (items s) \<le> n \<Longrightarrow>
      \<exists>t. fifo_run put reap items data (replicate n Reap) s = Some ([], t) \<and> items t = []" for n
  proof (induction n arbitrary: s)
    case (Suc n)
    show ?case
    proof (cases "items s = []")
      case True
      with Suc.IH[of s] Suc.prems show ?thesis by simp
    next
      case False
      from reap_shorter[OF Suc.prems(1) False] obtain u where "reap s = Some u" "inv u" "length (items u) < length (items s)"
        by blast
      with Suc.IH[of u] Suc.prems(2) False show ?thesis by simp
    qed
  qed simp
  then show "inv s \<Longrightarrow> ?thesis" by blast
qed

end

text \<open>The operations of the driver: output from the stack's queue, and the transmit interrupt.\<close>

definition tx_enqueue :: "env \<Rightarrow> mbuf \<Rightarrow> pcnet \<Rightarrow> bool \<times> pcnet" where
  "tx_enqueue E pkt s = (let (r, t) = lnc_output_packet E pkt s in (r = kIOReturnOutputSuccess, t))"

definition tx_interrupt :: "env \<Rightarrow> pcnet \<Rightarrow> pcnet option" where
  "tx_interrupt E s = map_option snd (lnc_tint E False s)"

interpretation txq: bounded_fifo "tx_enqueue E" "tx_interrupt E" tx_queue pkt_bytes "tx_inv E" tx_size pkt_ok
  for E
proof
  fix s :: pcnet and E p
  assume i: "tx_inv E s"
  have l: "int (length (tx_queue s)) = pending_transmits s" using i by (rule tx_queue_length)
  have full: "tx_enqueue E p s = (False, s)" if "tx_size s \<le> length (tx_queue s)"
    using output_full[of s E p] that l by (simp add: tx_enqueue_def)
  have put: "fst (tx_enqueue E p s) \<and> tx_inv E (snd (tx_enqueue E p s)) \<and>
      tx_queue (snd (tx_enqueue E p s)) = tx_queue s @ [pkt_bytes p]"
    if "length (tx_queue s) < tx_size s" "pkt_ok p"
    using output_ok[OF i _ that(2)] that(1) l
    by (simp add: tx_enqueue_def split_def)
  show "length (tx_queue s) \<le> tx_size s" using i l by (simp add: tx_inv_def)
  show "fst (tx_enqueue E p s) \<longleftrightarrow> length (tx_queue s) < tx_size s" if "pkt_ok p"
    using full put that by (cases "tx_size s \<le> length (tx_queue s)") auto
  show "tx_inv E (snd (tx_enqueue E p s)) \<and>
      tx_queue (snd (tx_enqueue E p s)) = (if fst (tx_enqueue E p s) then tx_queue s @ [pkt_bytes p] else tx_queue s)"
    if "pkt_ok p"
    using full put that i by (cases "tx_size s \<le> length (tx_queue s)") auto
  have reap: "\<exists>t k. tx_interrupt E s = Some t \<and> tx_inv E t \<and> 1 \<le> k \<and> k \<le> length (tx_queue s) \<and>
      tx_queue t = drop k (tx_queue s)" if "tx_queue s \<noteq> []"
  proof -
    have "0 < pending_transmits s" using tx_queue_nonempty[OF i] that by simp
    from lnc_tint_fifo[OF i this, of False] show ?thesis by (auto simp: tx_interrupt_def)
  qed
  then show "\<exists>t k. tx_interrupt E s = Some t \<and> tx_inv E t \<and> k \<le> length (tx_queue s) \<and>
      tx_queue t = drop k (tx_queue s)" if "tx_queue s \<noteq> []"
    using that by blast
  show "tx_queue t \<noteq> tx_queue s" if t: "tx_queue s \<noteq> []" "tx_interrupt E s = Some t" for t
  proof -
    from reap[OF t(1)] t(2) obtain k where k: "1 \<le> k" "k \<le> length (tx_queue s)" "tx_queue t = drop k (tx_queue s)" by auto
    then have "length (tx_queue t) < length (tx_queue s)" by simp
    then show ?thesis by auto
  qed
qed

end
