(* ===== verification/Intr_Facts.thy ===== *)
theory Intr_Facts
  imports Lnc_Intr Rx_Facts Tx_Queue
begin

text \<open>
  The interrupt handler keeps the transmit ring's invariant whatever the chip reports,
  restores the register address port, and serves a transmit interrupt completely; and the
  case in which it never returns.
\<close>

unbundle bit_operations_syntax

subsection \<open>The driver's invariant through reception\<close>

lemma tx_inv_bump [simp]:
  "tx_inv E (BUMP_NET_COUNTER f s) = tx_inv E s" "tx_inv E (BUMP_ETHER_COUNTER g s) = tx_inv E s"
  by (simp_all add: drv_ops)

lemma tx_inv_recv_next: "tx_inv E s \<Longrightarrow> i < rx_size s \<Longrightarrow> tx_inv E (s\<lparr>recv_next := i\<rparr>)"
  by (subst tx_inv_def, simp add: tx_slots_def tx_geom_cong[of "s\<lparr>recv_next := i\<rparr>" s])
    (simp add: tx_inv_def tx_slots_def)

lemma tx_inv_geom: "tx_inv E s \<Longrightarrow> tx_geom E s"
  by (simp add: tx_inv_def)

lemma tx_inv_rint_reset:
  assumes "tx_inv E s"
  shows "\<exists>t. rint_reset E s = RintReset t \<and> tx_inv E t \<and> tx_queue t = []"
proof -
  let ?s = "BUMP_ETHER_COUNTER rx_resets_update (BUMP_NET_COUNTER inputErrors_update s)"
  have "tx_geom E ?s" using tx_inv_geom[of E ?s] assms by simp
  then show ?thesis by (simp add: rint_reset_def tx_geom_reset)
qed

lemma tx_inv_fold_return:
  assumes "tx_inv E s" "\<forall>i\<in>set is. i < rx_size s"
  shows "tx_inv E (fold return_rx_md is s)"
proof -
  have g: "ring_geom s" using assms(1) by (simp add: tx_inv_def tx_geom_def)
  from fold_return[OF g assms(2)] have f: "same_vars s (fold return_rx_md is s)"
    "\<And>j. j < tx_size s \<Longrightarrow> tx_md (fold return_rx_md is s) j = tx_md s j" by blast+
  have "tx_inv E (fold return_rx_md is s) = tx_inv E s"
    by (rule tx_inv_cong) (simp_all add: same_vars_sel[OF f(1)] f(2))
  then show ?thesis using assms(1) by (simp add: tx_inv_def same_vars_sel[OF f(1)])
qed

text \<open>Every outcome of one packet, whatever the descriptors hold.\<close>

fun rint_state :: "rint_outcome \<Rightarrow> pcnet" where
  "rint_state (RintReset s) = s" | "rint_state (RintBreak s) = s" | "rint_state (RintNext q s) = s"

lemma rint_find_end_inv:
  assumes i: "tx_inv E s" and r: "rint_find_end E la st s = Some x"
  shows "case x of Inl out \<Rightarrow> tx_inv E (rint_state out) \<and> (\<forall>q t. out \<noteq> RintNext q t)
     | Inr (st', t) \<Rightarrow> tx_inv E t \<and> nrdre t = nrdre s"
proof (cases "has st (RMD_ENP OR RMD_ERR)")
  case True
  with i r show ?thesis by (auto simp: rint_find_end_def Let_def)
next
  case False
  with r obtain j where j: "find_where (\<lambda>i. has (mds_status (rx_md s i)) (RMD_STP OR RMD_OWN OR RMD_ENP OR RMD_ERR))
      (nrdre s) (recv_next s) = Some j"
    by (auto simp: rint_find_end_def Let_def split: bind_splits)
  then have "j < rx_size s" using find_where_Some by blast
  with i have "tx_inv E (s\<lparr>recv_next := j\<rparr>)" by (rule tx_inv_recv_next)
  with tx_inv_rint_reset[OF this] i False r j show ?thesis
    by (auto simp: rint_find_end_def Let_def split: if_splits)
qed

lemma mbuf_packet_inv:
  assumes i: "tx_inv E s" and st: "start < rx_size s" and r: "mbuf_packet E start l s = Some (buf, t)"
  shows "tx_inv E t"
proof (cases "os_ok E (trace s)")
  case False
  with r i show ?thesis by (auto simp: mbuf_packet_fail tx_inv_emit)
next
  case True
  let ?is = "cyc_seg (rx_size s) start (cyc_dist (rx_size s) start (recv_next s))"
  from mbuf_packet_copy[OF True st, of l] i r have "t = fold return_rx_md ?is (emit E (AllocPacket l) s)"
    by (auto simp: tx_inv_def)
  then show ?thesis using i
    by (auto intro!: tx_inv_fold_return tx_inv_emit intro: cyc_seg_less)
qed

lemma rint_packet_inv:
  assumes i: "tx_inv E s" and r: "rint_packet E la q st s = Some out"
  shows "tx_inv E (rint_state out)"
proof -
  from r obtain x where x: "rint_find_end E la st s = Some x"
    by (auto simp: rint_packet_def Let_def split: bind_splits)
  note f = rint_find_end_inv[OF i x]
  show ?thesis
  proof (cases x)
    case (Inl o1)
    with f r x show ?thesis by (auto simp: rint_packet_def Let_def)
  next
    case (Inr y)
    obtain st' u where y: "y = (st', u)" by (cases y)
    with f Inr have u: "tx_inv E u" "nrdre u = nrdre s" by simp_all
    let ?v = "u\<lparr>recv_next := LNC_INC_MD_PTR (recv_next u) (nrdre u)\<rparr>"
    have v: "tx_inv E ?v" by (rule tx_inv_recv_next[OF u(1)]) simp
    have st: "recv_next s < rx_size u" using i u(2) by (simp add: tx_inv_def)
    show ?thesis
    proof (cases "has st' RMD_ERR")
      case True
      let ?w = "rint_error_counts st' ?v"
      have w: "tx_inv E ?w" "nrdre ?w = nrdre u" "recv_next ?w = recv_next ?v"
        using v by (simp_all add: rint_error_counts_def Let_def) (simp_all add: drv_ops)
      have "rint_drop st' (recv_next s) ?v
          = Some (fold return_rx_md (cyc_seg (rx_size u) (recv_next s) (cyc_dist (rx_size u) (recv_next s) (recv_next ?w))) ?w)"
        using while_ring_seg[of "recv_next s" "nrdre u" "recv_next ?w" drop_rx_md ?w] st w
        by (simp add: rint_drop_def Let_def fold_drop del: fun_upd_apply)
      then have "rint_state out = fold return_rx_md (cyc_seg (rx_size u) (recv_next s)
          (cyc_dist (rx_size u) (recv_next s) (recv_next ?w))) ?w"
        using r x Inr y True by (auto simp: rint_packet_def Let_def)
      then show ?thesis using w
        by (auto intro!: tx_inv_fold_return intro: cyc_seg_less)
    next
      case False
      then obtain buf t where t: "mbuf_packet E (recv_next s) (rint_pkt_len (rx_md u (recv_next u))) ?v = Some (buf, t)"
        and o1: "rint_state out = (case buf of None \<Rightarrow> BUMP_ETHER_COUNTER rx_resourceErrors_update t
           | Some b \<Rightarrow> if ether_shost b = ib_phys_addr (init_block t) then emit E FreePacket t
               else BUMP_NET_COUNTER inputPackets_update
                 (emit E (InputPacket (map b [0..<unat (rint_pkt_len (rx_md u (recv_next u)))])) t))"
        using r x Inr y by (auto simp: rint_packet_def rint_deliver_def Let_def split: bind_splits option.splits if_splits)
      have "tx_inv E t" by (rule mbuf_packet_inv[OF v _ t]) (use st in simp)
      then show ?thesis by (auto simp: o1 tx_inv_emit split: option.split)
    qed
  qed
qed

lemma rint_loop_inv:
  assumes r: "rint_loop E la q s = Some (b, q', t)" and i: "tx_inv E s"
  shows "tx_inv E t"
proof -
  have "tx_inv E s \<longrightarrow> tx_inv E (snd (snd r))" if "rint_loop E la q s = Some r" for E la q s r
  proof (rule rint_loop.raw_induct[where P = "\<lambda>E la q s r. tx_inv E s \<longrightarrow> tx_inv E (snd (snd r))", OF _ that])
    fix f E la q s r
    assume IH: "\<And>E la q s r. f E la q s = Some r \<Longrightarrow> tx_inv E s \<longrightarrow> tx_inv E (snd (snd r))"
      and eq: "(let status = mds_status (rx_md s (recv_next s)) in
        if \<not> has status RMD_STP then Some (True, q, s)
        else rint_packet E la q status s \<bind>
             (\<lambda>r. case r of RintReset s \<Rightarrow> Some (False, q, s) | RintBreak s \<Rightarrow> Some (True, q, s)
                   | RintNext q s \<Rightarrow> f E (la + 1) q s)) = Some r"
    show "tx_inv E s \<longrightarrow> tx_inv E (snd (snd r))"
    proof
      assume i: "tx_inv E s"
      show "tx_inv E (snd (snd r))"
      proof (cases "has (mds_status (rx_md s (recv_next s))) RMD_STP")
        case False
        with eq i show ?thesis by (auto simp: Let_def)
      next
        case True
        with eq obtain x where x: "rint_packet E la q (mds_status (rx_md s (recv_next s))) s = Some x"
          by (auto simp: Let_def split: bind_splits)
        with rint_packet_inv[OF i x] eq True IH show ?thesis
          by (cases x) (auto simp: Let_def)
      qed
    qed
  qed
  with r i show ?thesis by fastforce
qed

lemma lnc_rint_inv:
  assumes "lnc_rint E q s = Some (q', t)" "tx_inv E s"
  shows "tx_inv E t"
  using assms
  by (auto simp: lnc_rint_def split: bind_splits dest!: rint_loop_inv
      intro!: tx_inv_evolves[OF evolves_write_csr])

lemma lnc_tint_inv:
  assumes "lnc_tint E r s = Some (r', t)" "tx_inv E s"
  shows "tx_inv E t"
proof -
  have "0 < pending_transmits s"
    using lnc_tint_idle[OF assms(2), of r] assms by (fastforce simp: tx_inv_def)
  from lnc_tint_fifo[OF assms(2) this, of r] assms(1) show ?thesis by auto
qed

subsection \<open>The handler keeps the invariant\<close>

lemma intr_error_counts_inv: "tx_inv E (intr_error_counts c s) = tx_inv E s"
  by (simp add: intr_error_counts_def Let_def)

lemma intr_pass_inv:
  assumes r: "intr_pass E csr0 fq sq s = Some (fq', sq', t)" and i: "tx_inv E s"
  shows "tx_inv E t"
proof -
  let ?w = "if has csr0 CSR_ERR then intr_error_counts csr0 (write_csr E CSR csr0 s) else write_csr E CSR csr0 s"
  have w: "tx_inv E ?w"
    using tx_inv_evolves[OF evolves_write_csr i] by (simp add: intr_error_counts_inv)
  show ?thesis
  proof (cases "has csr0 CSR_ERR \<and> has csr0 CSR_MERR")
    case True
    with r have "t = lnc_reset E ?w" by (auto simp: intr_pass_def Let_def)
    with w show ?thesis by (auto simp: tx_geom_reset tx_inv_geom)
  next
    case False
    with r obtain fq1 s1 where s1: "(if has csr0 CSR_RINT then lnc_rint E fq ?w else Some (fq, ?w)) = Some (fq1, s1)"
      and t: "(if has csr0 CSR_TINT then lnc_tint E sq s1 else Some (sq, s1)) = Some (sq', t)"
      by (auto simp: intr_pass_def Let_def split: bind_splits)
    have "tx_inv E s1"
      using s1 w lnc_rint_inv by (cases "has csr0 CSR_RINT") (auto simp del: if_split_asm split: if_splits)
    then show ?thesis using t lnc_tint_inv by (auto split: if_splits)
  qed
qed

lemma intr_loop_inv:
  assumes r: "intr_loop E fq sq s = Some (fq', sq', t)" and i: "tx_inv E s"
  shows "tx_inv E t"
proof -
  have "tx_inv E s \<longrightarrow> tx_inv E (snd (snd r))" if "intr_loop E fq sq s = Some r" for E fq sq s r
  proof (rule intr_loop.raw_induct[where P = "\<lambda>E fq sq s r. tx_inv E s \<longrightarrow> tx_inv E (snd (snd r))", OF _ that])
    fix f E fq sq s r
    assume IH: "\<And>E fq sq s r. f E fq sq s = Some r \<Longrightarrow> tx_inv E s \<longrightarrow> tx_inv E (snd (snd r))"
      and eq: "(let (csr0, s) = read_csr E CSR s in
         if \<not> has csr0 CSR_INTR then Some (fq, sq, s)
         else intr_pass E csr0 fq sq s \<bind> (\<lambda>(fq, sq, s). f E fq sq s)) = Some r"
    show "tx_inv E s \<longrightarrow> tx_inv E (snd (snd r))"
    proof
      assume "tx_inv E s"
      then have i: "tx_inv E (snd (read_csr E CSR s))" by (rule tx_inv_evolves[OF evolves_read_csr])
      show "tx_inv E (snd (snd r))"
      proof (cases "has (fst (read_csr E CSR s)) CSR_INTR")
        case False
        with eq i show ?thesis by (auto simp: Let_def split_def)
      next
        case True
        with eq obtain fq1 sq1 s1 where
          "intr_pass E (fst (read_csr E CSR s)) fq sq (snd (read_csr E CSR s)) = Some (fq1, sq1, s1)"
          "f E fq1 sq1 s1 = Some r"
          by (auto simp: Let_def split_def split: bind_splits)
        with IH intr_pass_inv[OF _ i] show ?thesis by blast
      qed
    qed
  qed
  with r i show ?thesis by fastforce
qed

lemma evolves_rap [simp]: "evolves E s (snd (save_rap E s))" "evolves E s (restore_rap E v s)"
  by (auto simp: drv_ops)

lemma lnc_intr_inv:
  assumes "lnc_intr E fq sq s = Some (fq', sq', t)" "tx_inv E s"
  shows "tx_inv E t"
proof -
  have "tx_inv E (snd (save_rap E s))" using assms(2) by (rule tx_inv_evolves[OF evolves_rap(1)])
  with assms(1) show ?thesis
    by (auto simp: lnc_intr_def Let_def split_def split: bind_splits
        intro!: tx_inv_evolves[OF evolves_rap(2)] intro: intr_loop_inv)
qed

lemma handleInterrupt_inv:
  assumes "handleInterrupt E s = Some t" "tx_inv E s"
  shows "tx_inv E t"
  using assms by (auto simp: handleInterrupt_def Let_def tx_inv_emit split: if_splits bind_splits
      dest!: lnc_intr_inv)

text \<open>When the handler returns, the address port selects the register it selected before.\<close>

lemma sel_reg_restore: "sel_reg (trace (restore_rap E v s)) = v"
  by (simp add: drv_ops hw_consts)

lemma lnc_intr_rap:
  assumes "lnc_intr E fq sq s = Some (fq', sq', t)"
  shows "sel_reg (trace t) = fst (save_rap E s)"
  using assms by (auto simp: lnc_intr_def Let_def split_def sel_reg_restore split: bind_splits)

subsection \<open>Transmit interrupts, and the handler that does not return\<close>

text \<open>The state in which the first cause word is handled, and that word.\<close>

definition intr_cause :: "env \<Rightarrow> pcnet \<Rightarrow> u16" where
  "intr_cause E s = fst (read_csr E CSR (snd (save_rap E s)))"

definition intr_acked :: "env \<Rightarrow> pcnet \<Rightarrow> pcnet" where
  "intr_acked E s = write_csr E CSR (intr_cause E s) (snd (read_csr E CSR (snd (save_rap E s))))"

lemma evolves_intr_acked: "evolves E s (intr_acked E s)"
  unfolding intr_acked_def
  by (intro evolves_trans[OF _ evolves_write_csr] evolves_trans[OF _ evolves_read_csr] evolves_rap)

lemma intr_loop_first:
  "has (intr_cause E s) CSR_INTR \<Longrightarrow> \<not> has (intr_cause E s) CSR_ERR \<Longrightarrow>
   intr_loop E fq sq (snd (save_rap E s)) = do {
     (fq, u) \<leftarrow> (if has (intr_cause E s) CSR_RINT then lnc_rint E fq (intr_acked E s) else Some (fq, intr_acked E s));
     (sq, u) \<leftarrow> (if has (intr_cause E s) CSR_TINT then lnc_tint E sq u else Some (sq, u));
     intr_loop E fq sq u
   }"
  by (subst intr_loop.simps)
    (simp add: intr_pass_def intr_cause_def intr_acked_def Let_def split_def)

lemma lnc_intr_tint:
  assumes i: "tx_inv E s" "0 < pending_transmits s"
    and c: "has (intr_cause E s) CSR_INTR" "has (intr_cause E s) CSR_TINT"
      "\<not> has (intr_cause E s) CSR_ERR" "\<not> has (intr_cause E s) CSR_RINT"
    and calm: "\<And>r t. lnc_tint E sq (intr_acked E s) = Some (r, t) \<Longrightarrow> \<not> has (fst (read_csr E CSR t)) CSR_INTR"
  shows "\<exists>sq' t k. lnc_intr E fq sq s = Some (fq, sq', t) \<and> tx_inv E t \<and>
     1 \<le> k \<and> k \<le> length (tx_queue s) \<and> tx_queue t = drop k (tx_queue s)"
proof -
  have a: "tx_inv E (intr_acked E s) \<and> tx_queue (intr_acked E s) = tx_queue s"
    by (rule tx_evolves[OF evolves_intr_acked i(1)])
  moreover have "pending_transmits (intr_acked E s) = pending_transmits s"
    using evolves_same_vars[OF evolves_intr_acked] by (simp add: same_vars_sel)
  ultimately obtain r t k where t: "lnc_tint E sq (intr_acked E s) = Some (r, t)" "tx_inv E t"
      "1 \<le> k" "k \<le> length (tx_queue s)" "tx_queue t = drop k (tx_queue s)"
    using lnc_tint_fifo[of E "intr_acked E s" sq] i(2) by auto
  let ?u = "restore_rap E (fst (save_rap E s)) (snd (read_csr E CSR t))"
  have "intr_loop E fq r t = Some (fq, r, snd (read_csr E CSR t))"
    using calm[OF t(1)] by (simp add: intr_loop.simps Let_def split_def)
  then have "lnc_intr E fq sq s = Some (fq, r, ?u)"
    using c t(1) by (simp add: lnc_intr_def Let_def split_def intr_loop_first)
  moreover have "tx_inv E ?u \<and> tx_queue ?u = tx_queue t"
    by (rule tx_evolves[OF evolves_trans[OF evolves_read_csr evolves_rap(2)] t(2)])
  ultimately show ?thesis using t(3-5) by metis
qed

text \<open>A packet start directly after an unfinished packet: the receive handler resets the driver.\<close>

definition rx_torn :: "'a lnc_softc_scheme \<Rightarrow> bool" where
  "rx_torn s \<longleftrightarrow>
     has (mds_status (rx_md s (recv_next s))) RMD_STP \<and>
     \<not> has (mds_status (rx_md s (recv_next s))) (RMD_ENP OR RMD_ERR) \<and>
     has (mds_status (rx_md s (Suc (recv_next s) mod rx_size s))) RMD_STP"

lemma lnc_rint_torn:
  assumes i: "tx_inv E s" and torn: "rx_torn s"
  shows "\<exists>t. lnc_rint E q s = Some (q, t) \<and> tx_inv E t \<and> pending_transmits t = 0"
proof -
  let ?n = "Suc (recv_next s) mod rx_size s"
  have n: "recv_next s < rx_size s" using i by (simp add: tx_inv_def)
  have f: "find_where (\<lambda>i. has (mds_status (rx_md s i)) (RMD_STP OR RMD_OWN OR RMD_ENP OR RMD_ERR))
      (nrdre s) (recv_next s) = Some ?n"
    by (rule find_where_next[OF n]) (use torn in \<open>simp add: rx_torn_def has_mask_or\<close>)
  have "tx_inv E (s\<lparr>recv_next := ?n\<rparr>)" by (rule tx_inv_recv_next[OF i]) simp
  from tx_inv_rint_reset[OF this] obtain t where
    t: "rint_reset E (s\<lparr>recv_next := ?n\<rparr>) = RintReset t" "tx_inv E t" "tx_queue t = []" by blast
  have "rint_packet E 0 q (mds_status (rx_md s (recv_next s))) s = Some (RintReset t)"
    using torn f t(1) by (simp add: rint_packet_def rint_find_end_def rx_torn_def Let_def)
  then have "lnc_rint E q s = Some (q, t)"
    using torn by (simp add: lnc_rint_def rint_loop.simps rx_torn_def Let_def)
  moreover have "pending_transmits t = 0" using tx_queue_length[OF t(2)] t(3) by simp
  ultimately show ?thesis using t(2) by blast
qed

lemma lnc_intr_hang:
  assumes "tx_inv E s" "rx_torn (intr_acked E s)"
    "has (intr_cause E s) CSR_INTR" "has (intr_cause E s) CSR_RINT" "has (intr_cause E s) CSR_TINT"
    "\<not> has (intr_cause E s) CSR_ERR"
  shows "lnc_intr E fq sq s = None"
proof -
  have "tx_inv E (intr_acked E s)" using evolves_intr_acked assms(1) by (rule tx_inv_evolves)
  from lnc_rint_torn[OF this assms(2), of fq] obtain t where
    "lnc_rint E fq (intr_acked E s) = Some (fq, t)" "tx_inv E t" "pending_transmits t = 0" by blast
  then have "intr_loop E fq sq (snd (save_rap E s)) = None"
    using assms lnc_tint_idle[of E t sq] by (simp add: intr_loop_first)
  then show ?thesis by (simp add: lnc_intr_def split_def)
qed

end
