(* ===== verification/Frames.thy ===== *)
theory Frames
  imports Intr_Facts
begin

text \<open>
  The part of the driver object that belongs to the IOKit class (its activation level, flags,
  event sources and medium state) and the location and size of the descriptor memory: no
  operation of the \<open>lnc\<close> layer changes them, returning or not by whatever path. What is shown is
  more general: the locale \<open>lnc_frame\<close> is a function of the state that sees nothing but that
  part and the history, and does not notice the events the layer makes; every operation of the
  layer keeps its value.
\<close>

record shell_view =
  v_objects :: "bool list"
  v_table :: "u32 \<Rightarrow> medium option"
  v_level :: u32
  v_enabled :: "bool \<times> bool"
  v_interrupts :: bool
  v_medium :: "u32 \<times> u32"
  v_memory :: "bool \<times> u32 \<times> nat \<times> nat"

definition shell :: "pcnet \<Rightarrow> shell_view" where
  "shell s =
     \<lparr>v_objects = [netif s, pciNub s, workLoop s, interruptSrc s, transmitQueue s, timerSrc s, csrMap s, mediumDict s],
      v_table = mediumTable s, v_level = currentLevel s, v_enabled = (enabledByBSD s, enabledByKDP s),
      v_interrupts = interruptEnabled s, v_medium = (currentMediumIndex s, mediumIndexLastReported s),
      v_memory = (memDescr s, ring_base s, nrdre s, ntdre s)\<rparr>"

lemma shell_sel:
  assumes "shell t = shell s"
  shows "netif t = netif s" "pciNub t = pciNub s" "workLoop t = workLoop s" "interruptSrc t = interruptSrc s"
    "transmitQueue t = transmitQueue s" "timerSrc t = timerSrc s" "csrMap t = csrMap s" "mediumDict t = mediumDict s"
    "mediumTable t = mediumTable s" "currentLevel t = currentLevel s" "enabledByBSD t = enabledByBSD s"
    "enabledByKDP t = enabledByKDP s" "interruptEnabled t = interruptEnabled s"
    "currentMediumIndex t = currentMediumIndex s" "mediumIndexLastReported t = mediumIndexLastReported s"
    "memDescr t = memDescr s" "ring_base t = ring_base s" "nrdre t = nrdre s" "ntdre t = ntdre s"
  using assms by (simp_all add: shell_def)

lemma shell_same: "same_vars s t \<Longrightarrow> shell t = shell s"
  by (simp add: shell_def same_vars_sel same_vars_sel_pcnet)

lemma shell_evolves: "evolves E s t \<Longrightarrow> shell t = shell s"
  by (rule shell_same[OF evolves_same_vars])

lemma shell_emit [simp]: "shell (emit E e s) = shell s"
  by (rule shell_same) simp

lemma shell_vars [simp]:
  "shell (s\<lparr>if_drv_flags := a\<rparr>) = shell s" "shell (s\<lparr>if_flags := b\<rparr>) = shell s"
  "shell (s\<lparr>flags := c\<rparr>) = shell s" "shell (s\<lparr>nic_mode := d\<rparr>) = shell s" "shell (s\<lparr>dwio := e\<rparr>) = shell s"
  "shell (s\<lparr>ladrb := f\<rparr>) = shell s" "shell (s\<lparr>init_block := g\<rparr>) = shell s"
  "shell (s\<lparr>recv_next := h\<rparr>) = shell s" "shell (s\<lparr>trans_next := i\<rparr>) = shell s"
  "shell (s\<lparr>next_to_send := j\<rparr>) = shell s" "shell (s\<lparr>pending_transmits := k\<rparr>) = shell s"
  "shell (s\<lparr>netStats := l\<rparr>) = shell s" "shell (s\<lparr>etherStats := m\<rparr>) = shell s"
  "shell (s\<lparr>mem := q\<rparr>) = shell s"
  by (simp_all add: shell_def)

lemma shell_carve [simp]: "shell (carve_rings s) = shell s" "trace (carve_rings s) = trace s"
  by (simp_all add: shell_def carve_rings_def carve_eq Let_def)

subsection \<open>What the \<open>lnc\<close> layer does not see\<close>

text \<open>The events of the layer: port accesses, packet buffers, delays, and asynchronous queue service.\<close>

fun lnc_event :: "ev \<Rightarrow> bool" where
  "lnc_event (In8 p) = True" | "lnc_event (In16 p) = True" | "lnc_event (In32 p) = True"
| "lnc_event (Out8 p a) = True" | "lnc_event (Out16 p b) = True" | "lnc_event (Out32 p c) = True"
| "lnc_event (Sleep n) = True"
| "lnc_event (AllocPacket l) = True" | "lnc_event FreePacket = True" | "lnc_event (InputPacket bs) = True"
| "lnc_event (QService async) = async"
| "lnc_event e = False"

lemma while_ring_keeps:
  assumes "\<And>i s. f (body i s) = f s" "while_ring body n i stop s = Some t"
  shows "f t = f s"
proof -
  have "body' = body \<longrightarrow> f t = f s" if "while_ring body' n i stop s = Some t" for body' n i stop s t
  proof (rule while_ring.raw_induct[where P = "\<lambda>body' n i stop s t. body' = body \<longrightarrow> f t = f s", OF _ that])
    fix g body' n i stop s t
    assume "\<And>body' n i stop s t. g body' n i stop s = Some t \<Longrightarrow> body' = body \<longrightarrow> f t = f s"
      "(if i = stop then Some s else g body' n (LNC_INC_MD_PTR i n) stop (body' i s)) = Some t"
    then show "body' = body \<longrightarrow> f t = f s" using assms(1) by (auto split: if_splits)
  qed
  with assms(2) show ?thesis by blast
qed

lemma do_ring_keeps:
  "(\<And>i s. f (body i s) = f s) \<Longrightarrow> do_ring body n i stop s = Some t \<Longrightarrow> f t = f s"
  unfolding do_ring_def by (metis while_ring_keeps)

fun tint_state :: "tint_outcome \<Rightarrow> pcnet" where
  "tint_state (TintReset s) = s" | "tint_state (TintBreak s) = s" | "tint_state (TintNext s) = s"

locale lnc_frame =
  fixes f :: "pcnet \<Rightarrow> 'v"
  assumes sees: "\<And>s t. shell t = shell s \<Longrightarrow> trace t = trace s \<Longrightarrow> f t = f s"
    and unseen: "\<And>E e s. lnc_event e \<Longrightarrow> f (emit E e s) = f s"
begin

lemma frame_vars [simp]:
  "f (s\<lparr>if_drv_flags := a\<rparr>) = f s" "f (s\<lparr>if_flags := b\<rparr>) = f s"
  "f (s\<lparr>flags := c\<rparr>) = f s" "f (s\<lparr>nic_mode := d\<rparr>) = f s" "f (s\<lparr>dwio := e\<rparr>) = f s"
  "f (s\<lparr>ladrb := x\<rparr>) = f s" "f (s\<lparr>init_block := g\<rparr>) = f s"
  "f (s\<lparr>recv_next := h\<rparr>) = f s" "f (s\<lparr>trans_next := i\<rparr>) = f s"
  "f (s\<lparr>next_to_send := j\<rparr>) = f s" "f (s\<lparr>pending_transmits := k\<rparr>) = f s"
  "f (s\<lparr>netStats := l\<rparr>) = f s" "f (s\<lparr>etherStats := m\<rparr>) = f s"
  "f (s\<lparr>mem := q\<rparr>) = f s" "f (carve_rings s) = f s"
  by (rule sees; simp)+

lemma frame_bump [simp]: "f (BUMP_NET_COUNTER x s) = f s" "f (BUMP_ETHER_COUNTER y s) = f s"
  by (simp_all add: drv_ops)

lemma frame_md [simp]: "f (upd_tx_md i g s) = f s" "f (upd_rx_md i g s) = f s"
  by (simp_all add: upd_tx_md_def upd_rx_md_def upd_mds_def)

lemma frame_regs [simp]:
  "f (snd (read_csr E p s)) = f s" "f (write_csr E p v s) = f s" "f (snd (read_bcr E p s)) = f s"
  "f (write_bcr E p v s) = f s" "f (pcnet32_reset E s) = f s" "f (pcnet32_stop E s) = f s"
  "f (pcnet32_start E s) = f s" "f (snd (save_rap E s)) = f s" "f (restore_rap E r s) = f s"
  by (simp_all add: drv_ops unseen)

lemma frame_set_medium [simp]: "f (snd (lnc_set_medium E m s)) = f s"
  by (simp add: lnc_set_medium_def Let_def split_def)

subsection \<open>Initialization\<close>

lemma frame_poll [simp]: "f (poll_idon E n s) = f s"
  by (induction n arbitrary: s) (simp_all add: Let_def split_def)

lemma frame_prom [simp]: "f (snd (read_prom E is s)) = f s"
  by (induction "is" arbitrary: s) (simp_all add: Let_def split_def csrRead8_def unseen)

lemma frame_program [simp]: "f (program_chip E s) = f s"
  by (simp add: program_chip_def load_init_address_def Let_def split_def)

lemma frame_init_rings [simp]: "f (init_rings E s) = f s"
  by (simp add: init_rings_def Let_def init_rx_md_def init_tx_md_def fold_keeps[where f = f])

lemma frame_detect [simp]: "f (detect_dwio E s) = f s"
  by (auto simp: detect_dwio_def drv_ops unseen Let_def split: prod.splits if_splits)

lemma frame_init [simp]: "f (lnc_init E s) = f s"
  by (simp add: lnc_init_def prepare_init_def fill_init_block_def Let_def split_def unseen)

lemma frame_reset [simp]: "f (lnc_reset E s) = f s"
  by (simp add: lnc_reset_def unseen)

subsection \<open>Transmission\<close>

lemma frame_output [simp]: "f (snd (lnc_output_packet E pkt s)) = f s"
  by (simp add: lnc_output_packet_def mbuf_to_buffer_def Let_def)

lemma frame_tint_counts [simp]:
  "f (tint_clear_md i s) = f s" "f (tint_clear_tbuff s) = f s" "f (tint_error_counts s) = f s" "f (tint_sent s) = f s"
  by (simp_all add: tint_clear_md_def tint_error_counts_def tint_sent_def tint_clear_tbuff_def Let_def)

lemma frame_tint_reclaim: "tint_reclaim E st s = Some t \<Longrightarrow> f t = f s"
  by (auto simp: tint_reclaim_def Let_def unseen split: bind_splits dest: do_ring_keeps[where f = f, rotated])

lemma frame_tint_packet: "tint_packet E la s = Some out \<Longrightarrow> f (tint_state out) = f s"
  by (auto simp: tint_packet_def tint_find_end_def tint_error_def tint_reset_def Let_def
      split: bind_splits if_splits tint_outcome.splits dest!: frame_tint_reclaim)

lemma frame_tint_loop: "tint_loop E la s = Some (b, t) \<Longrightarrow> f t = f s"
proof -
  have "f (snd r) = f s" if "tint_loop E la s = Some r" for E la s r
  proof (rule tint_loop.raw_induct[where P = "\<lambda>E la s r. f (snd r) = f s", OF _ that])
    fix g E la s r
    assume IH: "\<And>E la s r. g E la s = Some r \<Longrightarrow> f (snd r) = f s"
      and eq: "tint_packet E la s \<bind> (\<lambda>r. case r of TintReset s \<Rightarrow> Some (False, s) | TintBreak s \<Rightarrow> Some (True, s)
         | TintNext s \<Rightarrow>
             if pending_transmits s \<noteq> 0 \<and> \<not> has (mds_status (tx_md s (trans_next s))) TMD_OWN
             then g E (la + 1) s else Some (True, s)) = Some r"
    from eq obtain x where x: "tint_packet E la s = Some x" by (auto split: bind_splits)
    with eq IH frame_tint_packet[OF x] show "f (snd r) = f s"
      by (cases x) (auto split: if_splits)
  qed
  then show "tint_loop E la s = Some (b, t) \<Longrightarrow> f t = f s" by fastforce
qed

lemma frame_tint: "lnc_tint E r s = Some (r', t) \<Longrightarrow> f t = f s"
  by (auto simp: lnc_tint_def split: bind_splits if_splits dest!: frame_tint_loop)

subsection \<open>Reception\<close>

lemma frame_return [simp]: "f (return_rx_md i s) = f s" "f (drop_rx_md i s) = f s"
  by (simp_all add: return_rx_md_def drop_rx_md_def)

lemma frame_copy: "f (snd (snd (snd (copy_md i st)))) = f (snd (snd (snd st)))"
  by (cases st) (simp add: copy_md_def Let_def)

lemma frame_mbuf_packet: "mbuf_packet E st l s = Some (buf, t) \<Longrightarrow> f t = f s"
  using while_ring_keeps[where f = "\<lambda>st. f (snd (snd (snd st)))" and body = copy_md, OF frame_copy]
  by (fastforce simp: mbuf_packet_def os_call_def Let_def unseen split: bind_splits if_splits)

lemma frame_rint_drop: "rint_drop x st s = Some t \<Longrightarrow> f t = f s"
proof -
  assume d: "rint_drop x st s = Some t"
  have "f (rint_error_counts x s) = f s" by (simp add: rint_error_counts_def Let_def)
  with d while_ring_keeps[where f = f and body = drop_rx_md] show ?thesis
    by (fastforce simp: rint_drop_def Let_def)
qed

lemma frame_rint_deliver: "rint_deliver E st l q s = Some (q', t) \<Longrightarrow> f t = f s"
  by (auto simp: rint_deliver_def unseen split: bind_splits option.splits if_splits dest!: frame_mbuf_packet)

lemma frame_rint_packet: "rint_packet E la q st s = Some out \<Longrightarrow> f (rint_state out) = f s"
  by (auto simp: rint_packet_def rint_find_end_def rint_reset_def Let_def
      split: bind_splits if_splits sum.splits dest!: frame_rint_drop frame_rint_deliver)

lemma frame_rint_loop: "rint_loop E la q s = Some (b, q', t) \<Longrightarrow> f t = f s"
proof -
  have "f (snd (snd r)) = f s" if "rint_loop E la q s = Some r" for E la q s r
  proof (rule rint_loop.raw_induct[where P = "\<lambda>E la q s r. f (snd (snd r)) = f s", OF _ that])
    fix g E la q s r
    assume IH: "\<And>E la q s r. g E la q s = Some r \<Longrightarrow> f (snd (snd r)) = f s"
      and eq: "(let status = mds_status (rx_md s (recv_next s)) in
        if \<not> has status RMD_STP then Some (True, q, s)
        else rint_packet E la q status s \<bind>
             (\<lambda>r. case r of RintReset s \<Rightarrow> Some (False, q, s) | RintBreak s \<Rightarrow> Some (True, q, s)
                   | RintNext q s \<Rightarrow> g E (la + 1) q s)) = Some r"
    show "f (snd (snd r)) = f s"
    proof (cases "has (mds_status (rx_md s (recv_next s))) RMD_STP")
      case False
      with eq show ?thesis by (auto simp: Let_def)
    next
      case True
      with eq obtain x where x: "rint_packet E la q (mds_status (rx_md s (recv_next s))) s = Some x"
        by (auto simp: Let_def split: bind_splits)
      with frame_rint_packet[OF x] eq True IH show ?thesis
        by (cases x) (auto simp: Let_def)
    qed
  qed
  then show "rint_loop E la q s = Some (b, q', t) \<Longrightarrow> f t = f s" by fastforce
qed

lemma frame_rint: "lnc_rint E q s = Some (q', t) \<Longrightarrow> f t = f s"
  by (auto simp: lnc_rint_def split: bind_splits dest!: frame_rint_loop)

subsection \<open>The interrupt handler\<close>

lemma frame_intr_pass: "intr_pass E c fq sq s = Some (fq', sq', t) \<Longrightarrow> f t = f s"
  by (auto simp: intr_pass_def intr_error_counts_def Let_def split: bind_splits if_splits
      dest!: frame_rint frame_tint)

lemma frame_intr_loop: "intr_loop E fq sq s = Some (fq', sq', t) \<Longrightarrow> f t = f s"
proof -
  have "f (snd (snd r)) = f s" if "intr_loop E fq sq s = Some r" for E fq sq s r
  proof (rule intr_loop.raw_induct[where P = "\<lambda>E fq sq s r. f (snd (snd r)) = f s", OF _ that])
    fix g E fq sq s r
    assume IH: "\<And>E fq sq s r. g E fq sq s = Some r \<Longrightarrow> f (snd (snd r)) = f s"
      and eq: "(let (csr0, s) = read_csr E CSR s in
         if \<not> has csr0 CSR_INTR then Some (fq, sq, s)
         else intr_pass E csr0 fq sq s \<bind> (\<lambda>(fq, sq, s). g E fq sq s)) = Some r"
    show "f (snd (snd r)) = f s"
    proof (cases "has (fst (read_csr E CSR s)) CSR_INTR")
      case False
      with eq show ?thesis by (auto simp: Let_def split_def)
    next
      case True
      with eq obtain fq1 sq1 s1 where
        "intr_pass E (fst (read_csr E CSR s)) fq sq (snd (read_csr E CSR s)) = Some (fq1, sq1, s1)"
        "g E fq1 sq1 s1 = Some r"
        by (auto simp: Let_def split_def split: bind_splits)
      with IH[of E fq1 sq1 s1 r] frame_intr_pass show ?thesis by fastforce
    qed
  qed
  then show "intr_loop E fq sq s = Some (fq', sq', t) \<Longrightarrow> f t = f s" by fastforce
qed

lemma frame_lnc_intr: "lnc_intr E fq sq s = Some (fq', sq', t) \<Longrightarrow> f t = f s"
  by (auto simp: lnc_intr_def Let_def split_def split: bind_splits dest!: frame_intr_loop)

lemma frame_outputPacket [simp]: "f (snd (outputPacket E pkt s)) = f s"
  by (simp add: outputPacket_def Let_def split_def unseen)

end

subsection \<open>The class variables\<close>

interpretation shell_frame: lnc_frame shell
  by unfold_locales simp_all

lemmas shell_ops [simp] = shell_frame.frame_regs shell_frame.frame_set_medium
lemmas shell_init [simp] = shell_frame.frame_init
lemmas shell_outputPacket [simp] = shell_frame.frame_outputPacket

lemma shell_handleInterrupt: "handleInterrupt E s = Some t \<Longrightarrow> shell t = shell s"
  by (auto simp: handleInterrupt_def Let_def split: bind_splits if_splits dest!: shell_frame.frame_lnc_intr)

end
