(* ===== verification/Life_Facts.thy ===== *)
theory Life_Facts
  imports Lifecycle Phy_Facts Frames
begin

text \<open>
  The activation levels: every request returns, and reaches its level or reports failure. The
  invariant \<open>sys_inv\<close> of the whole driver object ties the level to the interrupt gate, to the
  client's flag and to the transmit ring.
\<close>

unbundle bit_operations_syntax

subsection \<open>The transmit invariant and the class variables\<close>

lemma tx_inv_pcnet [simp]:
  "tx_inv E (s\<lparr>currentLevel := a\<rparr>) = tx_inv E s" "tx_inv E (s\<lparr>enabledByBSD := b\<rparr>) = tx_inv E s"
  "tx_inv E (s\<lparr>interruptEnabled := c\<rparr>) = tx_inv E s" "tx_inv E (s\<lparr>currentMediumIndex := d\<rparr>) = tx_inv E s"
  "tx_inv E (s\<lparr>mediumIndexLastReported := e\<rparr>) = tx_inv E s"
  by (rule tx_inv_cong; simp add: tx_md_def)+

text \<open>What \<open>lnc_init\<close> needs to establish it: memory of the right size, and a chip within its contract.\<close>

definition mem_ready :: "env \<Rightarrow> 'a lnc_softc_scheme \<Rightarrow> bool" where
  "mem_ready E s \<longleftrightarrow> lnc_mem_size (nrdre s) (ntdre s) \<le> 2 ^ 32 \<and> tx_chip E (trans_ring (carve_rings s))"

lemma mem_ready_cong:
  assumes "ring_base t = ring_base s" "nrdre t = nrdre s" "ntdre t = ntdre s"
  shows "mem_ready E t = mem_ready E s"
proof -
  have "trans_ring (carve_rings t) = trans_ring (carve_rings s)"
    using assms by (simp add: carve_rings_def carve_eq Let_def)
  then show ?thesis unfolding mem_ready_def assms(2,3) by simp
qed

lemma mem_ready_shell: "shell t = shell s \<Longrightarrow> mem_ready E t = mem_ready E s"
  by (rule mem_ready_cong; rule shell_sel)

lemma mem_ready_init: "mem_ready E s \<Longrightarrow> tx_inv E (lnc_init E s)"
  using lnc_init_tx_inv by (simp add: mem_ready_def)

subsection \<open>Media\<close>

lemma evolves_watchdog [simp]: "evolves E s (lnc_watchdog E s)"
  by (auto simp: drv_ops)

lemma evolves_medium_ops [simp]:
  "evolves E s (snd (lnc_is_medium_available E s))" "evolves E s (snd (lnc_get_medium E s))"
  by (simp_all add: lnc_is_medium_available_def lnc_get_medium_def Let_def split_def)

text \<open>A link report is a sequence of events, apart from the index it remembers.\<close>

lemma report_evolves:
  "\<exists>t. evolves E s t \<and> (phyReportLinkStatus E force s = t \<or>
     (\<exists>i. phyReportLinkStatus E force s = t\<lparr>mediumIndexLastReported := i\<rparr>))"
proof -
  define a where "a = snd (lnc_is_medium_available E s)"
  define b where "b = snd (lnc_get_medium E (lnc_watchdog E a))"
  have ab: "evolves E s a" "evolves E s b"
    unfolding a_def b_def
    by (simp, intro evolves_trans[OF _ evolves_medium_ops(2)] evolves_trans[OF _ evolves_watchdog]
        evolves_medium_ops(1))
  let ?P = "\<lambda>u. \<exists>t. evolves E s t \<and> (u = t \<or> (\<exists>i. u = t\<lparr>mediumIndexLastReported := i\<rparr>))"
  have P: "?P t" "?P (t\<lparr>mediumIndexLastReported := i\<rparr>)" "?P ((emit E e t)\<lparr>mediumIndexLastReported := i\<rparr>)"
    if "evolves E s t" for t e i
    using that evolves_emit[OF that, of e] by blast+
  have r: "phyReportLinkStatus E force s =
      (if fst (lnc_is_medium_available E s)
       then let i = fst (lnc_get_medium E (lnc_watchdog E a))
            in (if force \<or> i \<noteq> mediumIndexLastReported b
                then emit E (SetLinkStatus {kIONetworkLinkValid, kIONetworkLinkActive} (phyGetMediumWithIndex i b)) b
                else b)\<lparr>mediumIndexLastReported := i\<rparr>
       else if force \<or> mediumIndexLastReported a \<noteq> MEDIUM_INDEX_NONE
       then (emit E (SetLinkStatus {kIONetworkLinkValid} None) a)\<lparr>mediumIndexLastReported := MEDIUM_INDEX_NONE\<rparr>
       else a)"
    by (simp add: phyReportLinkStatus_def Let_def split_def a_def b_def)
  show ?thesis unfolding r Let_def using P[OF ab(1)] P[OF ab(2)] by (simp only: simp_thms split: if_split)
qed

text \<open>Of the class variables, link reports and media change the two medium indices alone.\<close>

definition core :: "pcnet \<Rightarrow> shell_view" where
  "core s = (shell s)\<lparr>v_medium := (0, 0)\<rparr>"

lemma core_sel:
  assumes "core t = core s"
  shows "currentLevel t = currentLevel s" "enabledByBSD t = enabledByBSD s" "enabledByKDP t = enabledByKDP s"
    "interruptEnabled t = interruptEnabled s" "pciNub t = pciNub s" "transmitQueue t = transmitQueue s"
    "mediumTable t = mediumTable s"
    "ring_base t = ring_base s" "nrdre t = nrdre s" "ntdre t = ntdre s"
  using assms by (simp_all add: core_def shell_def)

lemma core_shell: "shell t = shell s \<Longrightarrow> core t = core s"
  by (simp add: core_def)

lemma core_medium [simp]:
  "core (s\<lparr>mediumIndexLastReported := i\<rparr>) = core s" "core (s\<lparr>currentMediumIndex := i\<rparr>) = core s"
  by (simp_all add: core_def shell_def)

lemma core_emit [simp]: "core (emit E e s) = core s"
  by (rule core_shell) simp

lemma report_keeps:
  "core (phyReportLinkStatus E force s) = core s \<and>
   (tx_inv E s \<longrightarrow> tx_inv E (phyReportLinkStatus E force s))"
proof -
  obtain t where t: "evolves E s t" "phyReportLinkStatus E force s = t \<or>
      (\<exists>i. phyReportLinkStatus E force s = t\<lparr>mediumIndexLastReported := i\<rparr>)"
    using report_evolves by blast
  have "core t = core s" by (rule core_shell[OF shell_evolves[OF t(1)]])
  moreover have "tx_inv E s \<longrightarrow> tx_inv E t" using tx_inv_evolves[OF t(1)] by blast
  ultimately show ?thesis using t(2) by auto
qed

lemma phySetMedium_keeps:
  "core (snd (phySetMedium E i s)) = core s \<and> (tx_inv E s \<longrightarrow> tx_inv E (snd (phySetMedium E i s)))"
proof -
  have "core (snd (lnc_set_medium E i s)) = core s" by (rule core_shell) simp
  moreover have "tx_inv E s \<longrightarrow> tx_inv E (snd (lnc_set_medium E i s))"
    using tx_inv_evolves[OF evolves_set_medium] by blast
  ultimately show ?thesis by (simp add: phySetMedium_def Let_def split_def)
qed

lemma selectMedium_keeps:
  "core (snd (selectMedium E m s)) = core s \<and> (tx_inv E s \<longrightarrow> tx_inv E (snd (selectMedium E m s)))"
proof (cases "case m of None \<Rightarrow> phyGetMediumWithIndex MEDIUM_INDEX_DEFAULT s | Some m \<Rightarrow> Some m")
  case None
  then show ?thesis by (simp add: selectMedium_def Let_def)
next
  case (Some x)
  define u where "u = snd (phySetMedium E (md_index x) s)"
  have u: "core u = core s" "tx_inv E s \<longrightarrow> tx_inv E u" using phySetMedium_keeps by (simp_all add: u_def)
  let ?v = "emit E (SetLinkStatus {kIONetworkLinkValid} None) (emit E (SetCurrentMedium x) u)"
  have "snd (selectMedium E m s) =
      (if fst (phySetMedium E (md_index x) s) then phyReportLinkStatus E True ?v else u)"
    using Some by (simp add: selectMedium_def phySetMedium_medium_def Let_def split_def u_def)
  then show ?thesis using report_keeps[of E True ?v] u by (simp add: tx_inv_emit)
qed

subsection \<open>One level up or down\<close>

lemma core_vars [simp]:
  "core (s\<lparr>currentLevel := l\<rparr>) = (core s)\<lparr>v_level := l\<rparr>"
  "core (s\<lparr>interruptEnabled := b\<rparr>) = (core s)\<lparr>v_interrupts := b\<rparr>"
  "core (s\<lparr>if_drv_flags := f\<rparr>) = core s"
  by (simp_all add: core_def shell_def)

lemma initAdapter_keeps:
  "core (snd (initAdapter E opt s)) = (core s)\<lparr>v_interrupts := False\<rparr>"
  "fst (initAdapter E opt s)"
  by (simp_all add: initAdapter_def disableHardwareInterrupts_def core_shell[OF shell_init]
      core_shell[OF shell_ops(5)] core_shell[OF shell_ops(6)] Let_def)

lemma mem_ready_vars [simp]:
  "mem_ready E (s\<lparr>interruptEnabled := b\<rparr>) = mem_ready E s"
  "mem_ready E (s\<lparr>mediumIndexLastReported := i\<rparr>) = mem_ready E s"
  "mem_ready E (s\<lparr>currentLevel := l\<rparr>) = mem_ready E s"
  "mem_ready E (s\<lparr>enabledByBSD := c\<rparr>) = mem_ready E s"
  by (rule mem_ready_cong; simp)+

lemma mem_ready_core: "core t = core s \<Longrightarrow> mem_ready E t = mem_ready E s"
  by (rule mem_ready_cong; rule core_sel)

lemma initAdapter_full_inv: "mem_ready E s \<Longrightarrow> tx_inv E (snd (initAdapter E kFullInitialization s))"
  by (simp add: initAdapter_def disableHardwareInterrupts_def Let_def has_def hw_consts mem_ready_init)

lemma initAdapter_reset_inv: "tx_inv E s \<Longrightarrow> tx_inv E (snd (initAdapter E kResetChip s))"
  by (auto simp: initAdapter_def disableHardwareInterrupts_def Let_def has_def hw_consts
      intro!: tx_inv_emit tx_inv_evolves[OF evolves_reset] tx_inv_evolves[OF evolves_stop])

lemma enableAdapter_1:
  assumes "mem_ready E s"
  shows "(fst (enableAdapter E kActivationLevel1 s) \<longrightarrow>
           core (snd (enableAdapter E kActivationLevel1 s)) = (core s)\<lparr>v_interrupts := False\<rparr> \<and>
           tx_inv E (snd (enableAdapter E kActivationLevel1 s))) \<and>
    (\<not> fst (enableAdapter E kActivationLevel1 s) \<longrightarrow>
       core (snd (enableAdapter E kActivationLevel1 s)) \<in> {core s, (core s)\<lparr>v_interrupts := False\<rparr>})"
proof -
  define u where "u = emit E (Kernel ''open'') s"
  define v where "v = snd (initAdapter E kFullInitialization u)"
  define x where "x = selectMedium E (selectedMedium E (trace v)) v"
  have "core u = core s" by (simp add: u_def)
  then have c: "core v = (core s)\<lparr>v_interrupts := False\<rparr>" by (simp add: v_def initAdapter_keeps)
  have "mem_ready E u" using mem_ready_core[OF \<open>core u = core s\<close>] assms by simp
  then have "tx_inv E v" unfolding v_def by (rule initAdapter_full_inv)
  then have x: "core (snd x) = (core s)\<lparr>v_interrupts := False\<rparr>" "tx_inv E (snd x)"
    using selectMedium_keeps[of E "selectedMedium E (trace v)" v] c by (simp_all add: x_def)
  have "enableAdapter E kActivationLevel1 s =
      (if \<not> pciNub s then (False, s)
       else if \<not> os_ok E (trace s) then (False, u)
       else if fst x \<noteq> kIOReturnSuccess then (False, snd x)
       else (True, emit E (TimerSet kWatchdogTimerPeriod) (snd x)))"
    using initAdapter_keeps(2)[of E kFullInitialization u]
    by (simp add: enableAdapter_def and_then_def os_call_def split_def Let_def u_def[symmetric]
        v_def[symmetric] x_def[symmetric])
  then show ?thesis using x \<open>core u = core s\<close> by (simp add: tx_inv_emit)
qed

lemma enableAdapter_2:
  "fst (enableAdapter E kActivationLevel2 s)"
  "core (snd (enableAdapter E kActivationLevel2 s)) = (core s)\<lparr>v_interrupts := True\<rparr>"
  "tx_inv E s \<Longrightarrow> tx_inv E (snd (enableAdapter E kActivationLevel2 s))"
  by (simp_all add: enableAdapter_def kActivationLevel1_def kActivationLevel2_def
      enableHardwareInterrupts_def Let_def tx_inv_emit)

lemma disableAdapter_2:
  "fst (disableAdapter E kActivationLevel2 s)"
  "core (snd (disableAdapter E kActivationLevel2 s)) = (core s)\<lparr>v_interrupts := False\<rparr>"
  "tx_inv E s \<Longrightarrow> tx_inv E (snd (disableAdapter E kActivationLevel2 s))"
  by (simp_all add: disableAdapter_def kActivationLevel1_def kActivationLevel2_def
      disableHardwareInterrupts_def Let_def tx_inv_emit)

lemma lnc_down_keeps:
  "core (lnc_down E s) = core s" "tx_inv E s \<Longrightarrow> tx_inv E (lnc_down E s)"
  by (simp_all add: lnc_down_def Let_def core_shell[OF shell_ops(6)] tx_inv_evolves[OF evolves_stop])

lemma disableAdapter_1:
  "fst (disableAdapter E kActivationLevel1 s)"
  "core (snd (disableAdapter E kActivationLevel1 s)) = (core s)\<lparr>v_interrupts := False\<rparr>"
  "tx_inv E s \<Longrightarrow> tx_inv E (snd (disableAdapter E kActivationLevel1 s))"
  by (simp_all add: disableAdapter_def Let_def split_def phySetMedium_keeps lnc_down_keeps
      initAdapter_keeps tx_inv_emit initAdapter_reset_inv)

subsection \<open>\<open>setActivationLevel\<close>\<close>

text \<open>Between two requests: interrupts pass exactly at level 2, and the ring is set up from level 1 on.\<close>

definition level_inv :: "env \<Rightarrow> pcnet \<Rightarrow> bool" where
  "level_inv E s \<longleftrightarrow> mem_ready E s \<and> currentLevel s \<in> {kActivationLevel0, kActivationLevel1, kActivationLevel2} \<and>
     (interruptEnabled s \<longleftrightarrow> currentLevel s = kActivationLevel2) \<and>
     (currentLevel s \<noteq> kActivationLevel0 \<longrightarrow> tx_inv E s)"

lemma level_neq [simp]:
  "kActivationLevel0 \<noteq> kActivationLevel1" "kActivationLevel0 \<noteq> kActivationLevel2"
  "kActivationLevel1 \<noteq> kActivationLevel2" "kActivationLevel1 \<noteq> kActivationLevel0"
  "kActivationLevel2 \<noteq> kActivationLevel0" "kActivationLevel2 \<noteq> kActivationLevel1"
  "\<not> x < kActivationLevel0" "\<not> kActivationLevel2 < kActivationLevel1" "\<not> kActivationLevel2 < kActivationLevel2"
  "\<not> kActivationLevel1 < kActivationLevel1"
  "kActivationLevel0 < kActivationLevel1" "kActivationLevel0 < kActivationLevel2"
  "kActivationLevel1 < kActivationLevel2"
  "kActivationLevel2 - 1 = kActivationLevel1" "kActivationLevel1 - 1 = kActivationLevel0"
  "kActivationLevel2 - 2 = kActivationLevel0" "2 + kActivationLevel0 = kActivationLevel2"
  "kActivationLevel0 + 1 = kActivationLevel1" "kActivationLevel1 + 1 = kActivationLevel2"
  by (simp_all add: hw_consts)

definition at_level :: "u32 \<Rightarrow> pcnet \<Rightarrow> pcnet \<Rightarrow> bool" where
  "at_level l s t \<longleftrightarrow> core t = (core s)\<lparr>v_level := l, v_interrupts := (l = kActivationLevel2)\<rparr>"

lemma at_level_sel: "at_level l s t \<Longrightarrow> currentLevel t = l \<and> (interruptEnabled t \<longleftrightarrow> l = kActivationLevel2) \<and>
   enabledByBSD t = enabledByBSD s \<and> enabledByKDP t = enabledByKDP s"
proof -
  assume a: "at_level l s t"
  have "v_level (core t) = currentLevel t" "v_interrupts (core t) = interruptEnabled t"
    "v_enabled (core t) = (enabledByBSD t, enabledByKDP t)"
    "v_enabled (core s) = (enabledByBSD s, enabledByKDP s)" by (simp_all add: core_def shell_def)
  with a show ?thesis by (simp add: at_level_def)
qed

lemma at_level_mem: "at_level l s t \<Longrightarrow> mem_ready E t = mem_ready E s"
proof -
  assume a: "at_level l s t"
  have "v_memory (core t) = (memDescr t, ring_base t, nrdre t, ntdre t)"
    "v_memory (core s) = (memDescr s, ring_base s, nrdre s, ntdre s)" by (simp_all add: core_def shell_def)
  with a show ?thesis by (intro mem_ready_cong) (simp_all add: at_level_def)
qed

lemma at_level_trans: "at_level k s t \<Longrightarrow> at_level l t u \<Longrightarrow> at_level l s u"
  by (simp add: at_level_def)

lemma at_level_refl: "level_inv E s \<Longrightarrow> at_level (currentLevel s) s s"
  by (simp add: at_level_def level_inv_def core_def shell_def)

lemma level_invI:
  "at_level l s t \<Longrightarrow> mem_ready E s \<Longrightarrow> l \<in> {kActivationLevel0, kActivationLevel1, kActivationLevel2} \<Longrightarrow>
   (l \<noteq> kActivationLevel0 \<Longrightarrow> tx_inv E t) \<Longrightarrow> level_inv E t"
  by (simp add: level_inv_def at_level_sel at_level_mem)

lemma level_step_down:
  assumes "level_inv E s" "currentLevel s \<noteq> kActivationLevel0"
  defines "t \<equiv> (snd (disableAdapter E (currentLevel s) s))\<lparr>currentLevel := currentLevel s - 1\<rparr>"
  shows "fst (disableAdapter E (currentLevel s) s) \<and> level_inv E t \<and> at_level (currentLevel s - 1) s t
     \<and> currentLevel (snd (disableAdapter E (currentLevel s) s)) = currentLevel s"
proof -
  have ti: "tx_inv E s" and m: "mem_ready E s" using assms by (simp_all add: level_inv_def)
  consider "currentLevel s = kActivationLevel1" | "currentLevel s = kActivationLevel2"
    using assms by (auto simp: level_inv_def)
  then show ?thesis
  proof cases
    case 1
    have a: "at_level kActivationLevel0 s t" by (simp add: t_def 1 at_level_def disableAdapter_1)
    moreover have "v_level (core (snd (disableAdapter E kActivationLevel1 s))) = v_level (core s)"
      by (simp add: disableAdapter_1)
    then have "currentLevel (snd (disableAdapter E kActivationLevel1 s)) = currentLevel s"
      by (simp add: core_def shell_def)
    ultimately show ?thesis using 1 m by (auto simp: disableAdapter_1 intro: level_invI)
  next
    case 2
    have a: "at_level kActivationLevel1 s t" by (simp add: t_def 2 at_level_def disableAdapter_2)
    moreover have "v_level (core (snd (disableAdapter E kActivationLevel2 s))) = v_level (core s)"
      by (simp add: disableAdapter_2)
    then have "currentLevel (snd (disableAdapter E kActivationLevel2 s)) = currentLevel s"
      by (simp add: core_def shell_def)
    moreover have "tx_inv E t" unfolding t_def using disableAdapter_2(3)[OF ti] by (simp add: 2)
    ultimately show ?thesis using 2 m by (auto simp: disableAdapter_2 intro!: level_invI)
  qed
qed

lemma level_down_all:
  assumes "level_inv E s" "l \<in> {kActivationLevel0, kActivationLevel1, kActivationLevel2}"
  shows "\<exists>ok t. level_down E l b s = Some (ok, t) \<and> level_inv E t \<and> at_level (currentLevel t) s t \<and>
     (if l < currentLevel s then ok \<and> currentLevel t = l else t = s \<and> ok = b)"
proof -
  have one: "\<exists>t. level_down E l b s = level_down E l True t \<and> level_inv E t \<and>
      at_level (currentLevel s - 1) s t \<and> currentLevel t = currentLevel s - 1"
    if "level_inv E s" "l < currentLevel s" for s b
  proof -
    from that have "currentLevel s \<noteq> kActivationLevel0" by auto
    note d = level_step_down[OF that(1) this]
    then show ?thesis using that(2) at_level_sel
      by (intro exI[of _ "(snd (disableAdapter E (currentLevel s) s))\<lparr>currentLevel := currentLevel s - 1\<rparr>"])
        (simp add: level_down.simps[of E l b s] split_def Let_def)
  qed
  have stop: "level_down E l b s = Some (b, s)" if "\<not> l < currentLevel s" for b s
    using that by (simp add: level_down.simps)
  show ?thesis
  proof (cases "l < currentLevel s")
    case False
    then show ?thesis using stop[OF False, of b] at_level_refl[OF assms(1)] assms(1) by auto
  next
    case True
    obtain t where t: "level_down E l b s = level_down E l True t" "level_inv E t"
        "at_level (currentLevel s - 1) s t" "currentLevel t = currentLevel s - 1"
      using one[OF assms(1) True] by blast
    show ?thesis
    proof (cases "l < currentLevel t")
      case False
      have "currentLevel t = l" using False True t(4) assms by (auto simp: level_inv_def)
      then show ?thesis using t stop[OF False] True by auto
    next
      case again: True
      obtain u where u: "level_down E l True t = level_down E l True u" "level_inv E u"
          "at_level (currentLevel t - 1) t u" "currentLevel u = currentLevel t - 1"
        using one[OF t(2) again] by blast
      have l: "currentLevel u = l" "\<not> l < currentLevel u"
        using again True t(4) u(4) assms by (auto simp: level_inv_def)
      have "at_level (currentLevel u) s u" using t(3) u(3,4) at_level_trans by metis
      then show ?thesis using t u stop[OF l(2)] l True by auto
    qed
  qed
qed

lemma level_step_up:
  assumes "level_inv E s" "currentLevel s \<noteq> kActivationLevel2"
  defines "r \<equiv> enableAdapter E (currentLevel s + 1) s"
  shows "if fst r
     then level_inv E ((snd r)\<lparr>currentLevel := currentLevel s + 1\<rparr>) \<and>
       at_level (currentLevel s + 1) s ((snd r)\<lparr>currentLevel := currentLevel s + 1\<rparr>) \<and>
       currentLevel (snd r) = currentLevel s
     else level_inv E (snd r) \<and> at_level (currentLevel s) s (snd r) \<and> currentLevel s = kActivationLevel0"
proof -
  have m: "mem_ready E s" using assms by (simp add: level_inv_def)
  have lev: "v_level (core t) = currentLevel t" for t by (simp add: core_def shell_def)
  consider "currentLevel s = kActivationLevel0" | "currentLevel s = kActivationLevel1"
    using assms by (auto simp: level_inv_def)
  then show ?thesis
  proof cases
    case 1
    have off: "(core s)\<lparr>v_interrupts := False\<rparr> = core s" "(core s)\<lparr>v_level := kActivationLevel0\<rparr> = core s"
      "(core s)\<lparr>v_level := kActivationLevel1, v_interrupts := False\<rparr> = (core s)\<lparr>v_level := kActivationLevel1\<rparr>"
      using assms(1) 1 by (simp_all add: level_inv_def core_def shell_def)
    note e = enableAdapter_1[OF m]
    show ?thesis
    proof (cases "fst r")
      case True
      then have t: "core (snd r) = core s" "tx_inv E (snd r)"
        using e off by (simp_all add: r_def 1)
      then have "at_level kActivationLevel1 s ((snd r)\<lparr>currentLevel := kActivationLevel1\<rparr>)"
        using off by (simp add: at_level_def)
      moreover have "currentLevel (snd r) = currentLevel s" using t(1) lev by metis
      ultimately show ?thesis using True t m by (auto simp: 1 intro!: level_invI)
    next
      case False
      then have "core (snd r) = core s" using e off by (auto simp: r_def 1)
      then have "at_level kActivationLevel0 s (snd r)" using off by (simp add: at_level_def)
      then show ?thesis using False m by (auto simp: 1 intro: level_invI)
    qed
  next
    case 2
    have ti: "tx_inv E s" using assms(1) 2 by (simp add: level_inv_def)
    have ok: "fst r" and c: "core (snd r) = (core s)\<lparr>v_interrupts := True\<rparr>" and t: "tx_inv E (snd r)"
      using enableAdapter_2[of E s] ti by (simp_all add: r_def 2)
    have "at_level kActivationLevel2 s ((snd r)\<lparr>currentLevel := kActivationLevel2\<rparr>)"
      using c by (simp add: at_level_def)
    moreover have "v_level (core (snd r)) = v_level (core s)" by (simp add: c)
    ultimately show ?thesis using ok t m lev by (auto simp: 2 intro!: level_invI)
  qed
qed

text \<open>One round of raising the level: it goes on from the next level, or ends at this one.\<close>

lemma level_up_one:
  assumes "level_inv E s" "l \<in> {kActivationLevel0, kActivationLevel1, kActivationLevel2}" "currentLevel s < l"
  shows "(\<exists>t. level_up E l (currentLevel s + 1) b s = level_up E l (currentLevel t + 1) True t \<and> level_inv E t \<and>
      at_level (currentLevel s + 1) s t \<and> currentLevel t = currentLevel s + 1) \<or>
     (\<exists>t. level_up E l (currentLevel s + 1) b s = Some (False, t) \<and> level_inv E t \<and>
        at_level (currentLevel t) s t \<and> currentLevel t = currentLevel s \<and> currentLevel s = kActivationLevel0)"
proof -
  let ?r = "enableAdapter E (currentLevel s + 1) s"
  from assms(2,3) have "currentLevel s \<noteq> kActivationLevel2" by auto
  note u = level_step_up[OF assms(1) this]
  show ?thesis
  proof (cases "fst ?r")
    case True
    let ?t = "(snd ?r)\<lparr>currentLevel := currentLevel s + 1\<rparr>"
    have "level_up E l (currentLevel s + 1) b s = level_up E l (currentLevel ?t + 1) True ?t"
      using True assms(3) u by (simp add: level_up.simps[of E l _ b s] split_def Let_def)
    then show ?thesis using True u by (intro disjI1 exI[of _ ?t]) simp
  next
    case False
    have "level_up E l (currentLevel s + 1) b s = Some (False, snd ?r)"
      using False assms(3) by (simp add: level_up.simps[of E l _ b s] split_def Let_def)
    moreover have "level_inv E (snd ?r)" "at_level (currentLevel s) s (snd ?r)" "currentLevel s = kActivationLevel0"
      using u[unfolded if_not_P[OF False]] by blast+
    moreover from this(2) have "currentLevel (snd ?r) = currentLevel s" using at_level_sel by blast
    ultimately show ?thesis by metis
  qed
qed

lemma level_up_all:
  assumes "level_inv E s" "l \<in> {kActivationLevel0, kActivationLevel1, kActivationLevel2}"
  shows "\<exists>ok t. level_up E l (currentLevel s + 1) b s = Some (ok, t) \<and> level_inv E t \<and> at_level (currentLevel t) s t \<and>
     (if currentLevel s < l then (ok \<longleftrightarrow> currentLevel t = l) \<and> (\<not> ok \<longrightarrow> currentLevel t = currentLevel s \<and> currentLevel s = kActivationLevel0)
      else t = s \<and> ok = b)"
proof -
  note one = level_up_one[OF _ assms(2)]
  have stop: "level_up E l n b s = Some (b, s)" if "\<not> currentLevel s < l" for n b s
    using that by (simp add: level_up.simps)
  show ?thesis
  proof (cases "currentLevel s < l")
    case False
    then show ?thesis using stop[OF False, of _ b] at_level_refl[OF assms(1)] assms(1) by auto
  next
    case True
    from one[OF assms(1) True, of b] show ?thesis
    proof (elim disjE exE conjE)
      fix t assume "level_up E l (currentLevel s + 1) b s = Some (False, t)" "level_inv E t"
        "at_level (currentLevel t) s t" "currentLevel t = currentLevel s" "currentLevel s = kActivationLevel0"
      then show ?thesis using True by auto
    next
      fix t assume t: "level_up E l (currentLevel s + 1) b s = level_up E l (currentLevel t + 1) True t"
        "level_inv E t" "at_level (currentLevel s + 1) s t" "currentLevel t = currentLevel s + 1"
      show ?thesis
      proof (cases "currentLevel t < l")
        case False
        have "currentLevel t = l" using False True t(4) assms by (auto simp: level_inv_def)
        then show ?thesis using t stop[OF False] True by auto
      next
        case again: True
        from one[OF t(2) again, of True] show ?thesis
        proof (elim disjE exE conjE)
          fix u assume u: "level_up E l (currentLevel t + 1) True t = Some (False, u)" "level_inv E u"
            "at_level (currentLevel u) t u" "currentLevel u = currentLevel t" "currentLevel t = kActivationLevel0"
          have "currentLevel s + 1 \<noteq> kActivationLevel0" using True assms by (auto simp: level_inv_def)
          with t(4) u(5) show ?thesis by simp
        next
          fix u assume u: "level_up E l (currentLevel t + 1) True t = level_up E l (currentLevel u + 1) True u"
            "level_inv E u" "at_level (currentLevel t + 1) t u" "currentLevel u = currentLevel t + 1"
          have l: "currentLevel u = l" "\<not> currentLevel u < l"
            using again True t(4) u(4) assms by (auto simp: level_inv_def)
          have "at_level (currentLevel u) s u" using at_level_trans[OF t(3) u(3)] u(4) by simp
          then show ?thesis using True t(1) u stop[OF l(2)] l by auto
        qed
      qed
    qed
  qed
qed

text \<open>
  Every request for a level returns; it succeeds exactly when the level is reached, and fails only from
  level 0, where it then stays.
\<close>

lemma setActivationLevel_all:
  assumes "level_inv E s" "l \<in> {kActivationLevel0, kActivationLevel1, kActivationLevel2}"
  shows "\<exists>ok t. setActivationLevel E l s = Some (ok, t) \<and> level_inv E t \<and> at_level (currentLevel t) s t \<and>
     (ok \<longleftrightarrow> currentLevel t = l) \<and> (l \<le> currentLevel s \<longrightarrow> ok) \<and>
     (\<not> ok \<longrightarrow> currentLevel t = currentLevel s \<and> currentLevel s = kActivationLevel0)"
proof (cases "currentLevel s = l")
  case True
  then show ?thesis using assms(1) at_level_refl[OF assms(1)] by (auto simp: setActivationLevel_def)
next
  case False
  obtain ok t where t: "level_down E l False s = Some (ok, t)" "level_inv E t" "at_level (currentLevel t) s t"
      "if l < currentLevel s then ok \<and> currentLevel t = l else t = s \<and> ok = False"
    using level_down_all[OF assms, of False] by blast
  obtain ok' u where u: "level_up E l (currentLevel t + 1) ok t = Some (ok', u)" "level_inv E u"
      "at_level (currentLevel u) t u" "if currentLevel t < l then (ok' \<longleftrightarrow> currentLevel u = l) \<and> (\<not> ok' \<longrightarrow> currentLevel u = currentLevel t \<and> currentLevel t = kActivationLevel0)
       else u = t \<and> ok' = ok"
    using level_up_all[OF t(2) assms(2), of ok] by blast
  have "setActivationLevel E l s = Some (ok', u)"
    using False t(1) u(1) by (simp add: setActivationLevel_def)
  moreover have "at_level (currentLevel u) s u" using at_level_trans[OF t(3) u(3)] .
  moreover have "(ok' \<longleftrightarrow> currentLevel u = l) \<and> (l \<le> currentLevel s \<longrightarrow> ok') \<and>
      (\<not> ok' \<longrightarrow> currentLevel u = currentLevel s \<and> currentLevel s = kActivationLevel0)"
  proof (cases "l < currentLevel s")
    case True
    then have "ok \<and> currentLevel t = l" using t(4) by simp
    then show ?thesis using u(4) by simp
  next
    case le: False
    with False have l: "currentLevel s < l" by (simp add: order.strict_iff_order not_less)
    have "t = s" using le t(4) by simp
    with l have "currentLevel t < l" by simp
    note u' = u(4)[unfolded if_P[OF this]]
    have "\<not> l \<le> currentLevel s" using l by (simp add: not_le)
    with u' show ?thesis unfolding \<open>t = s\<close> by blast
  qed
  ultimately show ?thesis using u(2) by blast
qed

end
