(* ===== verification/System.thy ===== *)
theory System
  imports Life_Facts
begin

text \<open>
  The driver as a transition system: its entry points as IOKit calls them, in any order, from
  a successful \<open>start\<close> on, and the invariant of every reachable state.
\<close>

unbundle bit_operations_syntax

subsection \<open>After \<open>start\<close>\<close>

definition life :: "pcnet \<Rightarrow> u32 \<times> bool \<times> bool \<times> bool" where
  "life s = (currentLevel s, enabledByBSD s, enabledByKDP s, interruptEnabled s)"

text \<open>The superclass does not know the private variables of the class.\<close>

definition super_keeps :: "(pcnet \<Rightarrow> bool \<times> pcnet) \<Rightarrow> bool" where
  "super_keeps super_start \<longleftrightarrow> (\<forall>s. life (snd (super_start s)) = life s)"

lemma and_then_True: "and_then m g = (True, t) \<longleftrightarrow> (\<exists>s. m = (True, s) \<and> g s = (True, t))"
  by (cases m) (auto simp: and_then_def)

lemma life_emit [simp]: "life (emit E e s) = life s"
  by (simp add: life_def)

lemma core_views:
  "v_level (core t) = currentLevel t" "v_enabled (core t) = (enabledByBSD t, enabledByKDP t)"
  "v_interrupts (core t) = interruptEnabled t" "v_memory (core t) = (memDescr t, ring_base t, nrdre t, ntdre t)"
  by (simp_all add: core_def shell_def)

lemma life_objects [simp]:
  "life (s\<lparr>workLoop := b\<rparr>) = life s" "life (s\<lparr>transmitQueue := b\<rparr>) = life s"
  "life (s\<lparr>interruptSrc := b\<rparr>) = life s" "life (s\<lparr>timerSrc := b\<rparr>) = life s"
  "life (s\<lparr>mediumDict := b\<rparr>) = life s" "life (s\<lparr>pciNub := b\<rparr>) = life s" "life (s\<lparr>csrMap := b\<rparr>) = life s"
  "life (s\<lparr>netif := b\<rparr>) = life s" "life (s\<lparr>mediumTable := f\<rparr>) = life s" "life (s\<lparr>memDescr := b\<rparr>) = life s"
  "life (s\<lparr>ring_base := w\<rparr>) = life s" "life (s\<lparr>nrdre := n\<rparr>) = life s" "life (s\<lparr>ntdre := n\<rparr>) = life s"
  "life (s\<lparr>nic_mode := w\<rparr>) = life s" "life (s\<lparr>if_flags := w\<rparr>) = life s" "life (s\<lparr>ladrb := l\<rparr>) = life s"
  "life (s\<lparr>mediumIndexLastReported := w\<rparr>) = life s"
  by (simp_all add: life_def)

lemma life_initEventSources: "initEventSources E s = (True, t) \<Longrightarrow> life t = life s \<and> nrdre t = nrdre s \<and> ntdre t = ntdre s"
  by (auto simp: initEventSources_def and_then_True os_call_def Let_def split: if_splits)

lemma life_pci_attach:
  "lnc_pci_attach E s = (True, t) \<Longrightarrow> life t = life s \<and> nrdre t = LNC_NRDRE \<and> ntdre t = LNC_NTDRE"
  by (auto simp: lnc_pci_attach_def lnc_attach_common_def os_call_def Let_def split: if_splits)

lemma life_pci_config: "life (snd (initPCIConfigSpace E s)) = life s"
  "nrdre (snd (initPCIConfigSpace E s)) = nrdre s" "ntdre (snd (initPCIConfigSpace E s)) = ntdre s" for s :: pcnet
  by (simp_all add: initPCIConfigSpace_def Let_def)

lemma life_probe: "life (phyProbeMediaCapability E s) = life s \<and>
   nrdre (phyProbeMediaCapability E s) = nrdre s \<and> ntdre (phyProbeMediaCapability E s) = ntdre s"
  by (simp add: phyProbeMediaCapability_def phyAddMediumType_def os_call_def Let_def split_def)

lemma life_reset_chip:
  assumes "initAdapter E kResetChip s = (ok, t)"
  shows "life t = (currentLevel s, enabledByBSD s, enabledByKDP s, False) \<and> nrdre t = nrdre s \<and> ntdre t = ntdre s"
proof -
  have c: "core t = (core s)\<lparr>v_interrupts := False\<rparr>"
    using initAdapter_keeps(1)[of E kResetChip s] assms by simp
  have "v_level (core t) = v_level (core s)" "v_enabled (core t) = v_enabled (core s)"
    "\<not> v_interrupts (core t)" "v_memory (core t) = v_memory (core s)" by (simp_all add: c)
  then show ?thesis by (simp add: core_views life_def)
qed

lemma probe_life:
  assumes u: "start_probe E super_start s = (True, u)" and k: "super_keeps super_start"
  shows "life u = (currentLevel s, enabledByBSD s, enabledByKDP s, False) \<and>
    nrdre u = LNC_NRDRE \<and> ntdre u = LNC_NTDRE"
proof -
  from u obtain s1 s4 s5 s7 s8 where
    1: "super_start s = (True, s1)" and
    4: "initEventSources E (emit E (Kernel ''open'') (emit E (Kernel ''retain'')
          ((emit E (Kernel ''OSDynamicCast'') s1)\<lparr>pciNub := True\<rparr>))) = (True, s4)" and
    5: "lnc_pci_attach E s4 = (True, s5)" and
    7: "initPCIConfigSpace E ((emit E (Kernel ''mapDeviceMemoryWithRegister'') s5)\<lparr>csrMap := True\<rparr>) = (True, s7)" and
    8: "initAdapter E kResetChip s7 = (True, s8)" and
    9: "u = emit E (Kernel ''publishMediumDictionary'') (phyProbeMediaCapability E s8)"
    by (auto simp: start_probe_def and_then_True os_call_def Let_def)
  have "life s1 = life s" using k 1 unfolding super_keeps_def by (metis snd_conv)
  then have "life s4 = life s" using life_initEventSources[OF 4] by simp
  then have s5: "life s5 = life s" "nrdre s5 = LNC_NRDRE" "ntdre s5 = LNC_NTDRE"
    using life_pci_attach[OF 5] by simp_all
  have s7: "life s7 = life s5" "nrdre s7 = nrdre s5" "ntdre s7 = ntdre s5"
    using life_pci_config[of E "(emit E (Kernel ''mapDeviceMemoryWithRegister'') s5)\<lparr>csrMap := True\<rparr>"]
    by (simp_all add: 7)
  from life_reset_chip[OF 8] s5 s7 show ?thesis
    using life_probe[of E s8] by (simp add: 9) (simp add: life_def)
qed

lemma start_life:
  assumes "start E super_start s = (True, t)" and k: "super_keeps super_start"
  shows "life t = (currentLevel s, enabledByBSD s, enabledByKDP s, False) \<and>
    nrdre t = LNC_NRDRE \<and> ntdre t = LNC_NTDRE"
proof -
  obtain u where u: "start_probe E super_start s = (True, u)"
      and t: "life t = life u" "nrdre t = nrdre u" "ntdre t = ntdre u"
    using assms(1) by (auto simp: start_def os_call_def Let_def split: prod.splits if_splits)
  then show ?thesis using probe_life[OF u k] by simp
qed

lemma mem_size_default: "lnc_mem_size LNC_NRDRE LNC_NTDRE \<le> 2 ^ 32"
  by (simp add: lnc_mem_size_def LNC_NDESC_def hw_consts)

subsection \<open>Entry points and reachable states\<close>

datatype entry =
    Enable | Disable | Timeout | Interrupt
  | Output mbuf
  | Promiscuous bool
  | MulticastMode bool
  | MulticastList "u8 list list" u32
  | SelectMedium "medium option"

text \<open>
  The network stack outputs well-formed packets, and only once its queue has been started.
\<close>

inductive drv_step :: "env \<Rightarrow> entry \<Rightarrow> pcnet \<Rightarrow> pcnet \<Rightarrow> bool" for E where
  step_enable: "enable E s = Some (r, t) \<Longrightarrow> drv_step E Enable s t"
| step_disable: "disable E s = Some (r, t) \<Longrightarrow> drv_step E Disable s t"
| step_timeout: "drv_step E Timeout s (handleTimeout E s)"
| step_interrupt: "handleInterrupt E s = Some t \<Longrightarrow> drv_step E Interrupt s t"
| step_output: "currentLevel s = kActivationLevel2 \<Longrightarrow> pkt_ok pkt \<Longrightarrow>
    drv_step E (Output pkt) s (snd (outputPacket E pkt s))"
| step_promiscuous: "drv_step E (Promiscuous b) s (snd (setPromiscuousMode E b s))"
| step_multicast_mode: "drv_step E (MulticastMode b) s (snd (setMulticastMode E b s))"
| step_multicast_list: "drv_step E (MulticastList as n) s (snd (setMulticastList E as n s))"
| step_select: "drv_step E (SelectMedium m) s (snd (selectMedium E m s))"

inductive_cases drv_step_enable: "drv_step E Enable s t"
inductive_cases drv_step_disable: "drv_step E Disable s t"
inductive_cases drv_step_interrupt: "drv_step E Interrupt s t"
inductive_simps drv_step_output_simps: "drv_step E (Output pkt) s t"

inductive reachable :: "env \<Rightarrow> pcnet \<Rightarrow> pcnet \<Rightarrow> bool" for E s where
  reach_start: "reachable E s s"
| reach_step: "reachable E s t \<Longrightarrow> drv_step E e t u \<Longrightarrow> reachable E s u"

text \<open>
  The level follows from which of its two clients, the network stack and the kernel debugger, have
  asked for the adapter; the driver as it is built has no code for the second.
\<close>

definition client_level :: "bool \<Rightarrow> bool \<Rightarrow> u32" where
  "client_level bsd kdp = (if bsd then kActivationLevel2 else if kdp then kActivationLevel1 else kActivationLevel0)"

definition client_inv :: "env \<Rightarrow> pcnet \<Rightarrow> bool" where
  "client_inv E s \<longleftrightarrow> level_inv E s \<and> currentLevel s = client_level (enabledByBSD s) (enabledByKDP s)"

definition sys_inv :: "env \<Rightarrow> pcnet \<Rightarrow> bool" where
  "sys_inv E s \<longleftrightarrow> client_inv E s \<and> \<not> enabledByKDP s"

lemma client_level_simps [simp]:
  "client_level True k = kActivationLevel2" "client_level False True = kActivationLevel1"
  "client_level False False = kActivationLevel0"
  "client_level b k = kActivationLevel2 \<longleftrightarrow> b" "client_level b k = kActivationLevel0 \<longleftrightarrow> \<not> b \<and> \<not> k"
  by (auto simp: client_level_def)

text \<open>What every entry point but the client's two does to the class variables and the ring.\<close>

definition keeps_level :: "env \<Rightarrow> pcnet \<Rightarrow> pcnet \<Rightarrow> bool" where
  "keeps_level E s t \<longleftrightarrow> core t = core s \<and> (tx_inv E s \<longrightarrow> tx_inv E t)"

lemma level_inv_keeps: "level_inv E s \<Longrightarrow> keeps_level E s t \<Longrightarrow> level_inv E t"
  unfolding level_inv_def keeps_level_def using mem_ready_core[of t s E] core_sel[of t s] by auto

lemma client_inv_keeps: "client_inv E s \<Longrightarrow> keeps_level E s t \<Longrightarrow> client_inv E t"
  using level_inv_keeps[of E s t] core_sel[of t s] by (auto simp: client_inv_def keeps_level_def)

lemma sys_inv_keeps: "sys_inv E s \<Longrightarrow> keeps_level E s t \<Longrightarrow> sys_inv E t"
  using client_inv_keeps[of E s t] core_sel[of t s] by (auto simp: sys_inv_def keeps_level_def)

lemma level_inv_flags [simp]:
  "level_inv E (s\<lparr>enabledByBSD := b\<rparr>) = level_inv E s"
  by (simp add: level_inv_def)

text \<open>The two requests of the network stack, whatever the other client has asked for.\<close>

lemma client_enable:
  assumes "client_inv E s"
  shows "\<exists>r t. enable E s = Some (r, t) \<and> client_inv E t \<and> (r = kIOReturnSuccess \<longleftrightarrow> enabledByBSD t) \<and>
     enabledByKDP t = enabledByKDP s \<and> (enabledByBSD s \<or> enabledByKDP s \<longrightarrow> r = kIOReturnSuccess)"
proof (cases "enabledByBSD s")
  case True
  with assms show ?thesis by (simp add: enable_def)
next
  case False
  obtain ok t where t: "setActivationLevel E kActivationLevel2 s = Some (ok, t)" "level_inv E t"
      "at_level (currentLevel t) s t" "ok \<longleftrightarrow> currentLevel t = kActivationLevel2"
      "\<not> ok \<longrightarrow> currentLevel t = currentLevel s \<and> currentLevel s = kActivationLevel0"
    using setActivationLevel_all[of E s kActivationLevel2] assms by (auto simp: client_inv_def)
  have k: "enabledByKDP t = enabledByKDP s" using at_level_sel[OF t(3)] by simp
  have "client_inv E (t\<lparr>enabledByBSD := ok\<rparr>)"
    using t(2,4,5) k assms False by (cases ok) (auto simp: client_inv_def)
  then show ?thesis using t k False assms by (auto simp: enable_def Let_def client_inv_def)
qed

lemma client_disable:
  assumes "client_inv E s"
  shows "\<exists>t. disable E s = Some (kIOReturnSuccess, t) \<and> client_inv E t \<and> \<not> enabledByBSD t \<and>
    enabledByKDP t = enabledByKDP s"
proof -
  let ?s = "s\<lparr>enabledByBSD := False\<rparr>" and ?l = "client_level False (enabledByKDP s)"
  have l: "?l \<le> currentLevel s" using assms
    by (cases "enabledByKDP s"; cases "enabledByBSD s") (simp_all add: client_inv_def hw_consts)
  have "level_inv E ?s" "?l \<in> {kActivationLevel0, kActivationLevel1, kActivationLevel2}"
    using assms by (simp_all add: client_inv_def client_level_def)
  from setActivationLevel_all[OF this] l obtain t where t: "setActivationLevel E ?l ?s = Some (True, t)" "level_inv E t"
      "at_level (currentLevel t) ?s t" "currentLevel t = ?l" by auto
  have f: "\<not> enabledByBSD t" "enabledByKDP t = enabledByKDP s" using at_level_sel[OF t(3)] by simp_all
  have "disable E s = Some (kIOReturnSuccess, t)" using t(1) by (simp add: disable_def client_level_def)
  then show ?thesis using t(2,4) f by (simp add: client_inv_def)
qed

lemma sys_inv_enable:
  assumes "sys_inv E s"
  shows "\<exists>r t. enable E s = Some (r, t) \<and> sys_inv E t \<and> (r = kIOReturnSuccess \<longleftrightarrow> currentLevel t = kActivationLevel2)"
  using client_enable[of E s] assms by (fastforce simp: sys_inv_def client_inv_def)

lemma sys_inv_disable:
  assumes "sys_inv E s"
  shows "\<exists>t. disable E s = Some (kIOReturnSuccess, t) \<and> sys_inv E t \<and> currentLevel t = kActivationLevel0 \<and>
    \<not> interruptEnabled t"
proof -
  obtain t where "disable E s = Some (kIOReturnSuccess, t)" "client_inv E t" "\<not> enabledByBSD t" "\<not> enabledByKDP t"
    using client_disable[of E s] assms by (auto simp: sys_inv_def)
  then show ?thesis by (auto simp: sys_inv_def client_inv_def level_inv_def)
qed

lemma promiscuous_keeps: "mem_ready E s \<Longrightarrow> keeps_level E s (snd (setPromiscuousMode E b s))"
proof -
  assume m: "mem_ready E s"
  have ti: "tx_inv E (lnc_init E (s\<lparr>if_flags := f, nic_mode := n\<rparr>))" for f n
  proof (rule mem_ready_init)
    have "mem_ready E (s\<lparr>if_flags := f, nic_mode := n\<rparr>) = mem_ready E s" by (rule mem_ready_cong) simp_all
    then show "mem_ready E (s\<lparr>if_flags := f, nic_mode := n\<rparr>)" using m by simp
  qed
  have c: "core (lnc_init E (s\<lparr>if_flags := f, nic_mode := n\<rparr>)) = core s" for f n
    by (rule core_shell) simp
  show ?thesis
    using c ti by (simp add: keeps_level_def setPromiscuousMode_def lnc_set_promiscuous_mode_def)
qed

lemma tx_inv_ladrb: "tx_inv E (lnc_setladrf addrs count s) = tx_inv E s"
  by (auto simp: lnc_setladrf_def Let_def split: option.split)

lemma evolves_write_laf: "evolves E s (write_laf E is s)"
proof (induction "is" arbitrary: s)
  case (Cons i "is")
  show ?case by (simp, rule evolves_trans[OF evolves_write_csr Cons])
qed simp

lemma multicast_keeps: "keeps_level E s (lnc_set_multicast E addrs count s)"
proof -
  let ?a = "lnc_setladrf addrs count (pcnet32_stop E s)"
  have e: "evolves E ?a (lnc_set_multicast E addrs count s)"
    unfolding lnc_set_multicast_def by (rule evolves_trans[OF evolves_write_laf evolves_start])
  have "shell ?a = shell s" by (auto simp: lnc_setladrf_def Let_def split: option.split)
  then have "core (lnc_set_multicast E addrs count s) = core s"
    using shell_evolves[OF e] by (intro core_shell) simp
  moreover have "tx_inv E s \<Longrightarrow> tx_inv E (lnc_set_multicast E addrs count s)"
    by (rule tx_inv_evolves[OF e]) (simp add: tx_inv_ladrb tx_inv_evolves[OF evolves_stop])
  ultimately show ?thesis by (simp add: keeps_level_def)
qed

lemma output_keeps: "pkt_ok pkt \<Longrightarrow> keeps_level E s (snd (outputPacket E pkt s))"
proof -
  assume p: "pkt_ok pkt"
  have "core (snd (outputPacket E pkt s)) = core s" by (rule core_shell) simp
  moreover have "tx_inv E (snd (outputPacket E pkt s))" if t: "tx_inv E s"
  proof (cases "int (tx_size s) \<le> pending_transmits s")
    case True
    then show ?thesis using t by (simp add: outputPacket_def output_full)
  next
    case False
    with output_ok[OF t _ p] show ?thesis
      by (simp add: outputPacket_def Let_def split_def tx_inv_emit)
  qed
  ultimately show ?thesis by (simp add: keeps_level_def)
qed

lemma step_keeps:
  assumes "drv_step E e s t" "e \<noteq> Enable" "e \<noteq> Disable" "mem_ready E s"
  shows "keeps_level E s t"
  using assms
proof (induction rule: drv_step.induct)
  case (step_timeout s)
  show ?case by (simp add: keeps_level_def handleTimeout_def report_keeps tx_inv_emit)
next
  case (step_interrupt s t)
  then show ?case by (auto simp: keeps_level_def intro: core_shell shell_handleInterrupt handleInterrupt_inv)
next
  case (step_select m s)
  show ?case by (simp add: keeps_level_def selectMedium_keeps)
qed (simp_all add: output_keeps promiscuous_keeps multicast_keeps setMulticastMode_def setMulticastList_def)

theorem sys_inv_step:
  assumes "drv_step E e s t" "sys_inv E s"
  shows "sys_inv E t"
proof (cases "e = Enable \<or> e = Disable")
  case True
  with assms show ?thesis
    using sys_inv_enable[OF assms(2)] sys_inv_disable[OF assms(2)]
    by (auto elim!: drv_step_enable drv_step_disable)
next
  case False
  with assms show ?thesis
    by (intro sys_inv_keeps[OF assms(2)] step_keeps[OF assms(1)]) (auto simp: sys_inv_def client_inv_def level_inv_def)
qed

theorem sys_inv_reachable:
  assumes "reachable E s t" "sys_inv E s"
  shows "sys_inv E t"
  using assms by (induction rule: reachable.induct) (auto intro: sys_inv_step)

end
