(* ===== verification/Services.thy ===== *)
theory Services
  imports System
begin

text \<open>
  Facts about the remaining services of the driver: the link report, the medium after a
  reset, promiscuous mode, the hardware address, shutdown, PCI configuration, and \<open>free\<close>.
\<close>

unbundle bit_operations_syntax

subsection \<open>The link report\<close>

text \<open>The statuses reported to the kernel, oldest first.\<close>

fun reports :: "history \<Rightarrow> (link_flag set \<times> medium option) list" where
  "reports [] = []"
| "reports (SetLinkStatus f m # h) = reports h @ [(f, m)]"
| "reports (e # h) = reports h"

text \<open>The medium index the chip shows, and the status that goes with it.\<close>

definition link_index :: "env \<Rightarrow> pcnet \<Rightarrow> u32" where
  "link_index E s =
     (let (up, s) = lnc_is_medium_available E s in
      if up then fst (lnc_get_medium E (lnc_watchdog E s)) else MEDIUM_INDEX_NONE)"

definition link_status :: "u32 \<Rightarrow> pcnet \<Rightarrow> link_flag set \<times> medium option" where
  "link_status i s =
     (if i = MEDIUM_INDEX_NONE then ({kIONetworkLinkValid}, None)
      else ({kIONetworkLinkValid, kIONetworkLinkActive}, phyGetMediumWithIndex i s))"

lemma reports_ops [simp]:
  "reports (trace (snd (lnc_is_medium_available E s))) = reports (trace s)"
  "reports (trace (snd (lnc_get_medium E s))) = reports (trace s)"
  "reports (trace (lnc_watchdog E s)) = reports (trace s)"
  by (simp_all add: drv_ops)

lemma media_ops_sel:
  "mediumTable (snd (lnc_is_medium_available E s)) = mediumTable s"
  "mediumTable (snd (lnc_get_medium E s)) = mediumTable s" "mediumTable (lnc_watchdog E s) = mediumTable s"
  "mediumIndexLastReported (snd (lnc_is_medium_available E s)) = mediumIndexLastReported s"
  "mediumIndexLastReported (snd (lnc_get_medium E s)) = mediumIndexLastReported s"
  "mediumIndexLastReported (lnc_watchdog E s) = mediumIndexLastReported s"
  by (simp_all add: lnc_is_medium_available_def lnc_get_medium_def lnc_watchdog_def Let_def split_def)

lemma lnc_get_medium_index: "fst (lnc_get_medium E s) \<noteq> MEDIUM_INDEX_NONE"
  by (simp add: lnc_get_medium_def Let_def split_def hw_consts)

lemma phyReportLinkStatus_reports:
  "reports (trace (phyReportLinkStatus E force s)) = reports (trace s) @
     (if force \<or> link_index E s \<noteq> mediumIndexLastReported s then [link_status (link_index E s) s] else []) \<and>
   mediumIndexLastReported (phyReportLinkStatus E force s) = link_index E s"
  by (auto simp: phyReportLinkStatus_def link_index_def link_status_def Let_def split_def
      media_ops_sel lnc_get_medium_index phyGetMediumWithIndex_def)

subsection \<open>The medium after a reset\<close>

text \<open>
  \<open>lnc_init\<close> always selects full duplex, without recording it: choosing the medium that
  was current before is then taken for done.
\<close>

lemma medium_after_init:
  assumes r: "register_file E" and m: "currentMediumIndex s = MEDIUM_INDEX_10_HD"
  shows "phySetMedium E MEDIUM_INDEX_10_HD (lnc_init E s) = (True, lnc_init E s) \<and>
     fst (lnc_get_medium E (lnc_init E s)) = MEDIUM_INDEX_10_FD"
proof -
  have "currentMediumIndex (lnc_init E s) = MEDIUM_INDEX_10_HD"
    using m by (simp add: shell_sel[OF shell_init])
  moreover obtain v where "bcr_last (trace (lnc_init E s)) FDCTL = Some v" "has v FDCTL_FDEN"
    using lnc_init_full_duplex by blast
  then have "has (fst (read_bcr E FDCTL (lnc_init E s))) FDCTL_FDEN"
    by (simp add: bcr.rd_last[OF r])
  ultimately show ?thesis by (simp add: phySetMedium_def lnc_get_medium_def Let_def split_def)
qed

subsection \<open>Promiscuous mode\<close>

lemma lnc_init_nic_mode: "nic_mode (lnc_init E s) = nic_mode s"
proof -
  have "nic_mode (prepare_init E s) = nic_mode s"
    by (simp add: prepare_init_def fill_init_block_def Let_def split_def)
  then show ?thesis by (simp add: lnc_init_def Let_def split_def)
qed

lemma lnc_init_if_flags:
  "if_flags (lnc_init E s) = if_flags s OR (LNC_IFF_BROADCAST OR LNC_IFF_SIMPLEX OR LNC_IFF_MULTICAST)"
proof -
  have i: "if_flags (init_rings E u) = if_flags u" for u :: pcnet
  proof -
    obtain t where t: "same_vars (carve_rings (u\<lparr>recv_next := 0, trans_next := 0\<rparr>)) t"
      "init_rings E u = t\<lparr>next_to_send := 0\<rparr>" using init_rings_vars[of u E] by blast
    show ?thesis unfolding t(2) by (simp add: same_vars_sel[OF t(1)]) (simp add: carve_rings_def Let_def split_def)
  qed
  have d: "if_flags (detect_dwio E u) = if_flags u" for u :: pcnet
    by (simp add: detect_dwio_def pcnet32_check_wio_def read_csr_wio_def read_csr_dwio_def drv_ops Let_def split_def)
  have "if_flags (prepare_init E s) = if_flags s OR (LNC_IFF_BROADCAST OR LNC_IFF_SIMPLEX OR LNC_IFF_MULTICAST)"
    by (simp add: prepare_init_def fill_init_block_def Let_def split_def i d)
  then show ?thesis by (simp add: lnc_init_def Let_def split_def)
qed

text \<open>The mode word of the initialization block follows \<open>nic_mode\<close>.\<close>

lemma lnc_init_mode:
  assumes "lnc_mem_size (nrdre s) (ntdre s) \<le> 2 ^ 32"
  shows "ib_mode (init_block (lnc_init E s)) = ucast (nic_mode s)"
  using lnc_init_ready[OF assms, of E] by (simp add: driver_ready_def lnc_init_nic_mode)

lemma lnc_init_size: "nrdre (lnc_init E s) = nrdre s" "ntdre (lnc_init E s) = ntdre s"
  using shell_sel[OF shell_init] by simp_all

lemma andnot_or_same: "(x OR k) AND NOT k = x AND NOT (k :: u32)"
  by (rule bit_word_eqI) (auto simp: bit_simps)

lemma setPromiscuousMode_on:
  assumes "lnc_mem_size (nrdre s) (ntdre s) \<le> 2 ^ 32"
  shows "has (ib_mode (init_block (snd (setPromiscuousMode E True s)))) (ucast MODE_PROM) \<and>
     has (if_flags (snd (setPromiscuousMode E True s))) LNC_IFF_PROMISC"
proof -
  have "has (ucast (x OR MODE_PROM) :: u16) (ucast MODE_PROM)" for x
    proof -
    have "bit (ucast (x OR MODE_PROM) AND ucast MODE_PROM :: u16) 15"
      by (simp add: bit_simps hw_consts)
    then show ?thesis by (auto simp: has_def)
  qed
  moreover have "has LNC_IFF_PROMISC LNC_IFF_PROMISC" by (simp add: has_def hw_consts)
  ultimately show ?thesis using assms
    by (simp add: setPromiscuousMode_def lnc_set_promiscuous_mode_def lnc_init_mode lnc_init_if_flags has_or)
qed

lemma setPromiscuousMode_off_on:
  assumes "lnc_mem_size (nrdre s) (ntdre s) \<le> 2 ^ 32"
  shows "nic_mode (snd (setPromiscuousMode E False (snd (setPromiscuousMode E True s)))) = nic_mode s AND NOT MODE_PROM \<and>
     ib_mode (init_block (snd (setPromiscuousMode E False (snd (setPromiscuousMode E True s)))))
       = ucast (nic_mode s AND NOT MODE_PROM)"
proof -
  let ?on = "snd (setPromiscuousMode E True s)"
  have n: "nrdre ?on = nrdre s" "ntdre ?on = ntdre s" "nic_mode ?on = nic_mode s OR MODE_PROM"
    by (simp_all add: setPromiscuousMode_def lnc_set_promiscuous_mode_def lnc_init_size lnc_init_nic_mode)
  have "has (if_flags ?on) LNC_IFF_PROMISC" using setPromiscuousMode_on[OF assms] by blast
  then show ?thesis using assms
    by (simp add: setPromiscuousMode_def[of E False] lnc_set_promiscuous_mode_def[of E False]
        lnc_init_nic_mode lnc_init_mode n andnot_or_same)
qed

subsection \<open>The hardware address\<close>

text \<open>
  The address PROM shows the same bytes to 8-bit and to 32-bit reads.
\<close>

definition prom_holds :: "env \<Rightarrow> u8 list \<Rightarrow> bool" where
  "prom_holds E adr \<longleftrightarrow> length adr = ETHER_ADDR_LEN \<and>
     (\<forall>h. \<forall>i<ETHER_ADDR_LEN. in8 E h (of_nat i) = adr ! i) \<and>
     (\<forall>h. \<forall>k<4. idr_byte (in32 E h PCN_IO32_APROM00) k = adr ! k) \<and>
     (\<forall>h. \<forall>k<2. idr_byte (in32 E h PCN_IO32_APROM01) k = adr ! (4 + k))"

lemma read_prom_bytes:
  "prom_holds E adr \<Longrightarrow> \<forall>i\<in>set is. i < ETHER_ADDR_LEN \<Longrightarrow> fst (read_prom E is s) = map ((!) adr) is"
  by (induction "is" arbitrary: s) (auto simp: prom_holds_def drv_ops split_def)

lemma lnc_init_phys_addr:
  "prom_holds E adr \<Longrightarrow> ib_phys_addr (init_block (lnc_init E s)) = adr"
proof -
  assume p: "prom_holds E adr"
  have "fst (read_prom E [0..<ETHER_ADDR_LEN] u) = adr" for u :: pcnet
    using read_prom_bytes[OF p, of "[0..<ETHER_ADDR_LEN]" u] p
    by (simp add: prom_holds_def) (metis map_nth)
  then have "ib_phys_addr (init_block (prepare_init E s)) = adr"
    by (simp add: prepare_init_def fill_init_block_def Let_def split_def)
  then show ?thesis by (simp add: lnc_init_def Let_def split_def)
qed

lemma getHardwareAddress_bytes: "prom_holds E adr \<Longrightarrow> fst (getHardwareAddress E s) = adr"
proof -
  assume p: "prom_holds E adr"
  then have l: "length adr = 6" by (simp add: prom_holds_def ETHER_ADDR_LEN_def)
  have "fst (getHardwareAddress E s) = map ((!) adr) [0, 1, 2, 3, 4, 5]"
    using p by (simp add: getHardwareAddress_def csrRead32_def prom_holds_def Let_def split_def)
  also have "[0, 1, 2, 3, 4, 5] = [0..<6]" by (simp add: upt_rec)
  finally show ?thesis using l by (metis map_nth)
qed

subsection \<open>PCI configuration and shutdown\<close>

lemma initPCIConfigSpace_bits:
  fixes s :: "'a hist_scheme"
  assumes "(kIOPCICommandBusMaster E OR kIOPCICommandIOSpace E OR kIOPCICommandMemWrInvalidate E)
     AND kIOPCICommandMemorySpace E = 0"
  shows "\<exists>reg. trace (snd (initPCIConfigSpace E s)) = CfgWrite16 reg # Kernel ''configRead16'' # trace s \<and>
     reg AND kIOPCICommandBusMaster E = kIOPCICommandBusMaster E \<and>
     reg AND kIOPCICommandIOSpace E = kIOPCICommandIOSpace E \<and>
     reg AND kIOPCICommandMemorySpace E = 0"
proof -
  let ?reg = "(pciCommand E (trace s) OR (kIOPCICommandBusMaster E OR kIOPCICommandIOSpace E OR
      kIOPCICommandMemWrInvalidate E)) AND NOT (kIOPCICommandMemorySpace E)"
  have "?reg AND kIOPCICommandBusMaster E = kIOPCICommandBusMaster E \<and>
     ?reg AND kIOPCICommandIOSpace E = kIOPCICommandIOSpace E \<and>
     ?reg AND kIOPCICommandMemorySpace E = 0"
    using assms by (auto simp: bit_eq_iff bit_simps)
  then show ?thesis
    by (intro exI[of _ ?reg]) (simp add: initPCIConfigSpace_def Let_def)
qed

text \<open>The flag of the running driver survives \<open>lnc_down\<close>.\<close>

lemma lnc_down_flags:
  "if_drv_flags (lnc_down E s) =
     (if has (if_drv_flags s) 1 then if_drv_flags s AND NOT LNC_IFF_DRV_RUNNING else if_drv_flags s)"
  by (simp add: lnc_down_def Let_def hw_consts)

subsection \<open>\<open>free\<close>\<close>

text \<open>How many objects the driver holds, and how often it has called \<^verbatim>\<open>release\<close>.\<close>

definition held :: "pcnet \<Rightarrow> nat" where
  "held s = length (filter id [netif s, interruptSrc s, timerSrc s, csrMap s, mediumDict s, pciNub s, workLoop s])"

definition releases :: "'a hist_scheme \<Rightarrow> nat" where
  "releases s = length (filter (\<lambda>e. e = Kernel ''release'') (trace s))"

lemma releases_emit [simp]:
  "releases (emit E e s) = (if e = Kernel ''release'' then 1 else 0) + releases s"
  by (simp add: releases_def)

lemma releases_vars [simp]:
  fixes s :: pcnet
  shows "releases (s\<lparr>netif := b\<rparr>) = releases s" "releases (s\<lparr>interruptSrc := b\<rparr>) = releases s"
  "releases (s\<lparr>timerSrc := b\<rparr>) = releases s" "releases (s\<lparr>csrMap := b\<rparr>) = releases s"
  "releases (s\<lparr>mediumDict := b\<rparr>) = releases s" "releases (s\<lparr>pciNub := b\<rparr>) = releases s"
  "releases (s\<lparr>workLoop := b\<rparr>) = releases s" "releases (s\<lparr>memDescr := b\<rparr>) = releases s"
  "releases (s\<lparr>ring_base := w\<rparr>) = releases s" "releases (s\<lparr>recv_ring := r\<rparr>) = releases s"
  "releases (s\<lparr>trans_ring := r\<rparr>) = releases s"
  by (simp_all add: releases_def)

lemma release_if_simps [simp]: "release_if E True s = emit E (Kernel ''release'') s" "release_if E False s = s"
  by (simp_all add: release_if_def)

lemma release_if_sel [simp]:
  fixes s :: pcnet
  shows "netif (release_if E b s) = netif s" "interruptSrc (release_if E b s) = interruptSrc s"
  "timerSrc (release_if E b s) = timerSrc s" "csrMap (release_if E b s) = csrMap s"
  "mediumDict (release_if E b s) = mediumDict s" "pciNub (release_if E b s) = pciNub s"
  "workLoop (release_if E b s) = workLoop s" "memDescr (release_if E b s) = memDescr s"
  "releases (release_if E b s) = of_bool b + releases s"
  by (simp_all add: release_if_def)

lemma free_releases:
  assumes "memDescr s"
  shows "\<exists>t. free E s = Some t \<and> held t = 0 \<and> \<not> memDescr t \<and> recv_ring t = [] \<and> trans_ring t = [] \<and>
     releases t = releases s + held s + 1"
  using assms by (simp add: free_def lnc_release_resources_def held_def Let_def)

lemma free_without_memory: "free E s = None \<longleftrightarrow> \<not> memDescr s"
  by (simp add: free_def lnc_release_resources_def Let_def)

text \<open>A \<open>start\<close> that fails before the memory is allocated leaves an object that cannot be freed.\<close>

lemma start_super_fails:
  assumes "\<not> fst (super_start s)" "\<not> pciNub (snd (super_start s))" "\<not> memDescr (snd (super_start s))"
  shows "start E super_start s = (False, snd (super_start s)) \<and> free E (snd (super_start s)) = None"
  using assms by (cases "super_start s") (simp add: start_def start_probe_def and_then_def free_without_memory)

subsection \<open>Kernel calls of the adapter\<close>

text \<open>The names of the IOKit functions called, newest first.\<close>

fun kcalls :: "history \<Rightarrow> string list" where
  "kcalls [] = []"
| "kcalls (Kernel f # h) = f # kcalls h"
| "kcalls (e # h) = kcalls h"

lemma kcalls_ops [simp]:
  "kcalls (trace (snd (read_csr E p s))) = kcalls (trace s)" "kcalls (trace (write_csr E p v s)) = kcalls (trace s)"
  "kcalls (trace (snd (read_bcr E p s))) = kcalls (trace s)" "kcalls (trace (write_bcr E p v s)) = kcalls (trace s)"
  "kcalls (trace (pcnet32_reset E s)) = kcalls (trace s)" "kcalls (trace (pcnet32_stop E s)) = kcalls (trace s)"
  "kcalls (trace (pcnet32_start E s)) = kcalls (trace s)"
  by (simp_all add: drv_ops)

lemma kcalls_poll [simp]: "kcalls (trace (poll_idon E n s)) = kcalls (trace s)"
  by (induction n arbitrary: s) (simp_all add: Let_def split_def)

lemma kcalls_prom [simp]: "kcalls (trace (snd (read_prom E is s))) = kcalls (trace s)"
  by (induction "is" arbitrary: s) (simp_all add: Let_def split_def csrRead8_def)

lemma kcalls_detect [simp]: "kcalls (trace (detect_dwio E s)) = kcalls (trace s)"
  by (simp add: detect_dwio_def drv_ops Let_def split_def)

lemma kcalls_init [simp]: "kcalls (trace (lnc_init E s)) = kcalls (trace s)"
  by (simp add: lnc_init_def program_chip_def load_init_address_def lnc_set_medium_def prepare_init_def
      fill_init_block_def Let_def split_def)

text \<open>
  When no medium can be selected, \<open>enable\<close> fails with the provider open, and \<open>disable\<close>
  does not close it.
\<close>

lemma enable_leaves_open:
  assumes l: "currentLevel s = kActivationLevel0" "\<not> enabledByBSD s" "\<not> enabledByKDP s" "pciNub s"
    and o: "os_ok E (trace s)" and m: "\<And>h. selectedMedium E h = None" "mediumTable s MEDIUM_INDEX_DEFAULT = None"
  shows "\<exists>t u. enable E s = Some (kIOReturnIOError, t) \<and> disable E t = Some (kIOReturnSuccess, u) \<and>
     kcalls (trace u) = ''open'' # kcalls (trace s)"
proof -
  let ?i = "lnc_init E ((emit E (Kernel ''open'') s)\<lparr>interruptEnabled := False, mediumIndexLastReported := MEDIUM_INDEX_UNDEF\<rparr>)"
  have sel: "currentLevel ?i = kActivationLevel0" "mediumTable ?i MEDIUM_INDEX_DEFAULT = None" "\<not> enabledByKDP ?i"
    using l m(2) shell_sel[OF shell_init] by simp_all
  have i: "initAdapter E kFullInitialization (emit E (Kernel ''open'') s) = (True, ?i)"
    by (simp add: initAdapter_def disableHardwareInterrupts_def hw_consts)
  have "enableAdapter E kActivationLevel1 s = (False, ?i)"
    using l(4) o i m(1) sel(2)
    by (simp add: enableAdapter_def os_call_def and_then_def selectMedium_def phyGetMediumWithIndex_def)
  then have "level_up E kActivationLevel2 (kActivationLevel0 + 1) False s = Some (False, ?i)"
    using l(1) by (subst level_up.simps) simp
  moreover have "level_down E kActivationLevel2 False s = Some (False, s)"
    using l(1) by (subst level_down.simps) simp
  ultimately have "enable E s = Some (kIOReturnIOError, ?i\<lparr>enabledByBSD := False\<rparr>)"
    using l by (simp add: enable_def setActivationLevel_def)
  moreover have "disable E (?i\<lparr>enabledByBSD := False\<rparr>) = Some (kIOReturnSuccess, ?i\<lparr>enabledByBSD := False\<rparr>)"
    using sel by (simp add: disable_def setActivationLevel_def)
  ultimately show ?thesis by simp
qed

subsection \<open>After a successful \<open>start\<close>\<close>

lemma sys_inv_fresh:
  assumes "life t = (currentLevel s, enabledByBSD s, enabledByKDP s, False) \<and> nrdre t = LNC_NRDRE \<and> ntdre t = LNC_NTDRE"
    and "currentLevel s = kActivationLevel0" "\<not> enabledByBSD s" "\<not> enabledByKDP s" "tx_chip E (trans_ring (carve_rings t))"
  shows "sys_inv E t"
  using assms mem_size_default by (simp add: sys_inv_def client_inv_def level_inv_def mem_ready_def life_def)

lemma sys_inv_started:
  assumes st: "start E super_start s = (True, t)" and k: "super_keeps super_start"
    and l: "currentLevel s = kActivationLevel0" "\<not> enabledByBSD s" "\<not> enabledByKDP s"
    and c: "tx_chip E (trans_ring (carve_rings t))"
  shows "sys_inv E t"
  using sys_inv_fresh[OF start_life[OF st k] l c] .

end
