(* ===== verification/Debugger.thy ===== *)
theory Debugger
  imports Services
begin

text \<open>
  The driver built with \<^verbatim>\<open>KDB_SUPPORT\<close>, which \<^verbatim>\<open>PCNet.h\<close> leaves off: a kernel debugger is a second client
  of the adapter (\<open>enable\<close> and \<open>disable\<close> of \<^verbatim>\<open>PCNet.cpp\<close> with an \<^verbatim>\<open>IOKernelDebugger\<close>), and the interrupt
  and output paths (\<^verbatim>\<open>PCNet_Private.cpp\<close>) hold the debugger's lock while they work on the rings. The
  polled transfers of the debugger have empty bodies. Shown are that \<open>start\<close> and \<open>free\<close> are those of the
  normal build but for the debugger object, the level the two clients' requests lead to, and what
  happens under the lock.
\<close>

unbundle bit_operations_syntax

subsection \<open>The debugger as a client\<close>

definition kdb_enable :: "env \<Rightarrow> pcnet \<Rightarrow> (io_return \<times> pcnet) option" where
  "kdb_enable E s =
     (if enabledByKDP s \<or> enabledByBSD s then Some (kIOReturnSuccess, s\<lparr>enabledByKDP := True\<rparr>)
      else do {
        (ok, s) \<leftarrow> setActivationLevel E kActivationLevel1 s;
        let s = s\<lparr>enabledByKDP := ok\<rparr>;
        Some (if enabledByKDP s then kIOReturnSuccess else kIOReturnIOError, s)
      })"

definition kdb_disable :: "env \<Rightarrow> pcnet \<Rightarrow> (io_return \<times> pcnet) option" where
  "kdb_disable E s =
     (let s = s\<lparr>enabledByKDP := False\<rparr> in
      if \<not> enabledByBSD s
      then do {
        (_, s) \<leftarrow> setActivationLevel E kActivationLevel0 s;
        Some (kIOReturnSuccess, s)
      }
      else Some (kIOReturnSuccess, s))"

text \<open>The object with the member \<^verbatim>\<open>debugger\<close>, a pointer as the others: whether it is non-null.\<close>

record kdb_object =
  kdb_self :: pcnet
  debugger :: bool

definition kdb_start :: "env \<Rightarrow> (pcnet \<Rightarrow> bool \<times> pcnet) \<Rightarrow> kdb_object \<Rightarrow> bool \<times> kdb_object" where
  "kdb_start E super_start d =
     (let (success, s) = start_probe E super_start (kdb_self d);
          s = (if pciNub s then emit E (Kernel ''close'') s else s)
      in if \<not> success then (False, d\<lparr>kdb_self := s\<rparr>)
         else let (ok, s) = os_call E (Kernel ''attachInterface'') s;
                  s = s\<lparr>netif := ok\<rparr>
              in if \<not> ok then (False, d\<lparr>kdb_self := s\<rparr>)
                 else let (att, s) = os_call E (Kernel ''attachDebuggerClient'') s
                      in (True, d\<lparr>kdb_self := emit E (Kernel ''registerService'') s, debugger := att\<rparr>))"

definition kdb_free :: "env \<Rightarrow> kdb_object \<Rightarrow> kdb_object option" where
  "kdb_free E d =
     (let s = kdb_self d;
          s = (if interruptSrc s \<and> workLoop s then emit E (Kernel ''removeEventSource'') s else s);
          s = (release_if E (netif s) s)\<lparr>netif := False\<rparr>;
          s = release_if E (debugger d) s;
          s = (release_if E (interruptSrc s) s)\<lparr>interruptSrc := False\<rparr>;
          s = (release_if E (timerSrc s) s)\<lparr>timerSrc := False\<rparr>;
          s = (release_if E (csrMap s) s)\<lparr>csrMap := False\<rparr>;
          s = (release_if E (mediumDict s) s)\<lparr>mediumDict := False\<rparr>;
          s = (release_if E (pciNub s) s)\<lparr>pciNub := False\<rparr>;
          s = (release_if E (workLoop s) s)\<lparr>workLoop := False\<rparr>
      in do {
        s \<leftarrow> lnc_release_resources E s;
        Some (d\<lparr>kdb_self := emit E (Kernel ''free'') s, debugger := False\<rparr>)
      })"

subsection \<open>Interrupts and output under the debugger's lock\<close>

definition debugger_lock :: ev where "debugger_lock = Kernel ''IODebuggerLock''"
definition debugger_unlock :: ev where "debugger_unlock = Kernel ''IODebuggerUnlock''"

definition kdb_handleInterrupt :: "env \<Rightarrow> pcnet \<Rightarrow> pcnet option" where
  "kdb_handleInterrupt E s =
     (if \<not> interruptEnabled s then Some s
      else do {
        let s = emit E debugger_lock s;
        (flushInputQ, serviceOutputQ, s) \<leftarrow> lnc_intr E False False s;
        let s = emit E debugger_unlock s;
        let s = (if flushInputQ then emit E FlushInput s else s);
        Some (if serviceOutputQ then emit E (QService False) s else s)
      })"

definition kdb_outputPacket :: "env \<Rightarrow> mbuf \<Rightarrow> pcnet \<Rightarrow> output_return \<times> pcnet" where
  "kdb_outputPacket E pkt s =
     (let s = emit E debugger_lock s;
          (ret, s) = lnc_output_packet E pkt s;
          s = emit E debugger_unlock s
      in (ret, if ret = kIOReturnOutputSuccess
               then BUMP_NET_COUNTER outputPackets_update (emit E FreePacket s) else s))"

text \<open>
  The transfers in polled mode: everything inside the braces is commented out. The length is what the
  caller's \<^verbatim>\<open>*pkt_len\<close> holds.
\<close>

definition sendPacket :: "u8 list \<Rightarrow> u32 \<Rightarrow> pcnet \<Rightarrow> pcnet" where
  "sendPacket pkt pkt_len s = s"

definition reclaimTransmitBuffer :: "pcnet \<Rightarrow> pcnet" where
  "reclaimTransmitBuffer s = s"

definition receivePacket :: "u8 list \<Rightarrow> u32 \<Rightarrow> u32 \<Rightarrow> pcnet \<Rightarrow> (u8 list \<times> u32) \<times> pcnet" where
  "receivePacket pkt pkt_len timeout s = ((pkt, pkt_len), s)"

subsection \<open>The level follows the clients\<close>

lemma level_inv_kdp [simp]: "level_inv E (s\<lparr>enabledByKDP := b\<rparr>) = level_inv E s"
proof -
  have "mem_ready E (s\<lparr>enabledByKDP := b\<rparr>) = mem_ready E s" by (rule mem_ready_cong) simp_all
  moreover have "tx_inv E (s\<lparr>enabledByKDP := b\<rparr>) = tx_inv E s" by (rule tx_inv_cong) (simp_all add: tx_md_def)
  ultimately show ?thesis by (simp add: level_inv_def)
qed

lemma kdb_enable_client:
  assumes "client_inv E s"
  shows "\<exists>r t. kdb_enable E s = Some (r, t) \<and> client_inv E t \<and> (r = kIOReturnSuccess \<longleftrightarrow> enabledByKDP t) \<and>
     enabledByBSD t = enabledByBSD s \<and> (enabledByBSD s \<or> enabledByKDP s \<longrightarrow> r = kIOReturnSuccess)"
proof (cases "enabledByKDP s \<or> enabledByBSD s")
  case True
  then have "client_level (enabledByBSD s) True = client_level (enabledByBSD s) (enabledByKDP s)"
    by (auto simp: client_level_def)
  with True assms show ?thesis by (simp add: kdb_enable_def client_inv_def)
next
  case False
  obtain ok t where t: "setActivationLevel E kActivationLevel1 s = Some (ok, t)" "level_inv E t"
      "at_level (currentLevel t) s t" "ok \<longleftrightarrow> currentLevel t = kActivationLevel1"
      "\<not> ok \<longrightarrow> currentLevel t = currentLevel s \<and> currentLevel s = kActivationLevel0"
    using setActivationLevel_all[of E s kActivationLevel1] assms by (auto simp: client_inv_def)
  have b: "enabledByBSD t = enabledByBSD s" using at_level_sel[OF t(3)] by simp
  have "client_inv E (t\<lparr>enabledByKDP := ok\<rparr>)" using t(2,4,5) b False by (cases ok) (auto simp: client_inv_def)
  then show ?thesis using t(1) b False by (auto simp: kdb_enable_def Let_def)
qed

lemma kdb_disable_client:
  assumes "client_inv E s"
  shows "\<exists>t. kdb_disable E s = Some (kIOReturnSuccess, t) \<and> client_inv E t \<and> \<not> enabledByKDP t \<and>
     enabledByBSD t = enabledByBSD s"
proof (cases "enabledByBSD s")
  case True
  with assms show ?thesis by (simp add: kdb_disable_def client_inv_def)
next
  case False
  let ?s = "s\<lparr>enabledByKDP := False\<rparr>"
  have "kActivationLevel0 \<le> currentLevel ?s" by (simp add: hw_consts)
  with setActivationLevel_all[of E ?s kActivationLevel0] assms obtain t where
    t: "setActivationLevel E kActivationLevel0 ?s = Some (True, t)" "level_inv E t"
      "at_level (currentLevel t) ?s t" "currentLevel t = kActivationLevel0"
    by (auto simp: client_inv_def)
  have "\<not> enabledByKDP t" "enabledByBSD t = enabledByBSD s" using at_level_sel[OF t(3)] by simp_all
  then show ?thesis using t False by (simp add: kdb_disable_def client_inv_def)
qed

subsection \<open>The object's life\<close>

text \<open>A successful \<open>start\<close> of this build leaves the adapter off, with neither client served.\<close>

lemma kdb_start_life:
  assumes "kdb_start E super_start d = (True, t)" and k: "super_keeps super_start"
  shows "life (kdb_self t) = (currentLevel (kdb_self d), enabledByBSD (kdb_self d), enabledByKDP (kdb_self d), False) \<and>
    nrdre (kdb_self t) = LNC_NRDRE \<and> ntdre (kdb_self t) = LNC_NTDRE"
proof -
  obtain u where u: "start_probe E super_start (kdb_self d) = (True, u)"
      and t: "life (kdb_self t) = life u" "nrdre (kdb_self t) = nrdre u" "ntdre (kdb_self t) = ntdre u"
    using assms(1) by (auto simp: kdb_start_def os_call_def Let_def split: prod.splits if_splits)
  then show ?thesis using probe_life[OF u k] by simp
qed

lemma kdb_started:
  assumes "kdb_start E super_start d = (True, t)" "super_keeps super_start"
    and "currentLevel (kdb_self d) = kActivationLevel0" "\<not> enabledByBSD (kdb_self d)" "\<not> enabledByKDP (kdb_self d)"
    and "tx_chip E (trans_ring (carve_rings (kdb_self t)))"
  shows "client_inv E (kdb_self t)"
  using sys_inv_fresh[OF kdb_start_life[OF assms(1,2)] assms(3-6)] by (simp add: sys_inv_def)

text \<open>Without a debugger object it is the \<open>free\<close> of the normal build; the object, if there is one, is released too.\<close>

lemma kdb_free_releases:
  assumes "memDescr (kdb_self d)"
  shows "\<exists>t. kdb_free E d = Some t \<and> held (kdb_self t) = 0 \<and> \<not> debugger t \<and> \<not> memDescr (kdb_self t) \<and>
     releases (kdb_self t) = releases (kdb_self d) + held (kdb_self d) + of_bool (debugger d) + 1"
  using assms by (simp add: kdb_free_def lnc_release_resources_def held_def Let_def)

lemma kdb_free_without:
  assumes "\<not> debugger d"
  shows "map_option kdb_self (kdb_free E d) = free E (kdb_self d)"
  using assms by (cases "memDescr (kdb_self d)") (simp_all add: kdb_free_def free_def lnc_release_resources_def Let_def)

subsection \<open>Entry points of this build\<close>

datatype kdb_entry = Stack entry | KdbEnable | KdbDisable | KdbSend "u8 list" u32 | KdbReceive "u8 list" u32 u32

fun uses_ring :: "entry \<Rightarrow> bool" where
  "uses_ring Interrupt = True" | "uses_ring (Output pkt) = True" | "uses_ring e = False"

inductive kdb_step :: "env \<Rightarrow> kdb_entry \<Rightarrow> pcnet \<Rightarrow> pcnet \<Rightarrow> bool" for E where
  kdb_stack: "drv_step E e s t \<Longrightarrow> \<not> uses_ring e \<Longrightarrow> kdb_step E (Stack e) s t"
| kdb_interrupt: "kdb_handleInterrupt E s = Some t \<Longrightarrow> kdb_step E (Stack Interrupt) s t"
| kdb_output: "currentLevel s = kActivationLevel2 \<Longrightarrow> pkt_ok pkt \<Longrightarrow>
    kdb_step E (Stack (Output pkt)) s (snd (kdb_outputPacket E pkt s))"
| kdb_on: "kdb_enable E s = Some (r, t) \<Longrightarrow> kdb_step E KdbEnable s t"
| kdb_off: "kdb_disable E s = Some (r, t) \<Longrightarrow> kdb_step E KdbDisable s t"
| kdb_send: "kdb_step E (KdbSend pkt n) s (sendPacket pkt n s)"
| kdb_receive: "kdb_step E (KdbReceive pkt n m) s (snd (receivePacket pkt n m s))"

inductive_cases kdb_step_interrupt: "kdb_step E (Stack Interrupt) s t"
inductive_cases kdb_step_on: "kdb_step E KdbEnable s t"

inductive kdb_reachable :: "env \<Rightarrow> pcnet \<Rightarrow> pcnet \<Rightarrow> bool" for E s where
  kdb_reach_start: "kdb_reachable E s s"
| kdb_reach_step: "kdb_reachable E s t \<Longrightarrow> kdb_step E e t u \<Longrightarrow> kdb_reachable E s u"

lemma kdb_interrupt_cases:
  assumes "kdb_handleInterrupt E s = Some t"
  obtains "\<not> interruptEnabled s" "t = s"
  | fq sq u where "interruptEnabled s" "lnc_intr E False False (emit E debugger_lock s) = Some (fq, sq, u)"
      "t = (let v = emit E debugger_unlock u; v = (if fq then emit E FlushInput v else v)
            in if sq then emit E (QService False) v else v)"
  using assms by (auto simp: kdb_handleInterrupt_def Let_def bind_eq_Some_conv split: if_splits)

lemma kdb_interrupt_keeps: "kdb_handleInterrupt E s = Some t \<Longrightarrow> keeps_level E s t"
proof (erule kdb_interrupt_cases)
  fix fq sq u
  assume u: "lnc_intr E False False (emit E debugger_lock s) = Some (fq, sq, u)"
    and t: "t = (let v = emit E debugger_unlock u; v = (if fq then emit E FlushInput v else v)
            in if sq then emit E (QService False) v else v)"
  have "shell t = shell s" using shell_frame.frame_lnc_intr[OF u] by (simp add: t Let_def)
  moreover have "tx_inv E t" if i: "tx_inv E s"
    using lnc_intr_inv[OF u tx_inv_emit[OF i]] by (simp add: t Let_def tx_inv_emit)
  ultimately show ?thesis unfolding keeps_level_def using core_shell by blast
qed (simp add: keeps_level_def)

lemma kdb_output_keeps: "pkt_ok pkt \<Longrightarrow> keeps_level E s (snd (kdb_outputPacket E pkt s))"
proof -
  assume p: "pkt_ok pkt"
  let ?l = "emit E debugger_lock s"
  have "core (snd (kdb_outputPacket E pkt s)) = core s"
    by (rule core_shell) (simp add: kdb_outputPacket_def Let_def split_def shell_frame.frame_output)
  moreover have "tx_inv E (snd (kdb_outputPacket E pkt s))" if "tx_inv E s"
  proof -
    have l: "tx_inv E ?l" using that by (simp add: tx_inv_emit)
    have "tx_inv E (snd (lnc_output_packet E pkt ?l))"
    proof (cases "pending_transmits ?l < int (tx_size ?l)")
      case True
      from output_ok[OF l True p] show ?thesis by blast
    next
      case False
      then have "lnc_output_packet E pkt ?l = (kIOReturnOutputStall, ?l)" by (intro output_full) (simp only: not_less)
      then show ?thesis using l by (simp only: snd_conv)
    qed
    then show ?thesis by (simp add: kdb_outputPacket_def Let_def split_def tx_inv_emit)
  qed
  ultimately show ?thesis by (simp add: keeps_level_def)
qed

lemma kdb_step_client:
  assumes "kdb_step E e s t" "client_inv E s"
  shows "client_inv E t"
  using assms
proof (induction rule: kdb_step.induct)
  case (kdb_stack e s t)
  show ?case
  proof (cases "e = Enable \<or> e = Disable")
    case True
    with kdb_stack show ?thesis using client_enable[of E s] client_disable[of E s]
      by (auto elim!: drv_step_enable drv_step_disable)
  next
    case False
    with kdb_stack show ?thesis
      by (intro client_inv_keeps[OF kdb_stack(3)] step_keeps[OF kdb_stack(1)]) (auto simp: client_inv_def level_inv_def)
  qed
next
  case (kdb_on s r t)
  then show ?case using kdb_enable_client[of E s] by auto
next
  case (kdb_off s r t)
  then show ?case using kdb_disable_client[of E s] by auto
qed (auto simp: sendPacket_def receivePacket_def intro: client_inv_keeps kdb_interrupt_keeps kdb_output_keeps)

lemma kdb_reachable_client:
  assumes "kdb_reachable E s t" "client_inv E s"
  shows "client_inv E t"
  using assms by (induction rule: kdb_reachable.induct) (auto intro: kdb_step_client)

subsection \<open>The debugger's lock\<close>

text \<open>
  Over the history: whether the lock is held, and \<open>None\<close> once it was taken twice, given back without
  having been taken, or held during a call into the network stack that may come back to \<^verbatim>\<open>outputPacket\<close>.
\<close>

definition stack_call :: "ev \<Rightarrow> bool" where
  "stack_call e \<longleftrightarrow> e = QService False \<or> e = FlushInput"

fun lock_held :: "history \<Rightarrow> bool option" where
  "lock_held [] = Some False"
| "lock_held (e # h) = (case lock_held h of None \<Rightarrow> None | Some b \<Rightarrow>
     if e = debugger_lock then (if b then None else Some True)
     else if e = debugger_unlock then (if b then Some False else None)
     else if b \<and> stack_call e then None else Some b)"

definition lock_event :: "ev \<Rightarrow> bool" where
  "lock_event e \<longleftrightarrow> e = debugger_lock \<or> e = debugger_unlock"

lemma lock_event_simps [simp]:
  "\<not> lock_event (In8 p)" "\<not> lock_event (In16 p)" "\<not> lock_event (In32 p)" "\<not> lock_event (Out8 p a)"
  "\<not> lock_event (Out16 p b)" "\<not> lock_event (Out32 p c)" "\<not> lock_event (Sleep n)" "\<not> lock_event (AllocPacket l)"
  "\<not> lock_event FreePacket" "\<not> lock_event (InputPacket bs)" "\<not> lock_event FlushInput" "\<not> lock_event (QService y)"
  "\<not> lock_event (QSetCapacity n)" "\<not> lock_event QStart" "\<not> lock_event QStop" "\<not> lock_event QFlush"
  "\<not> lock_event (SetLinkStatus fl m)" "\<not> lock_event (SetCurrentMedium x)" "\<not> lock_event (TimerSet n)"
  "\<not> lock_event TimerCancel" "lock_event (Kernel k) \<longleftrightarrow> k = ''IODebuggerLock'' \<or> k = ''IODebuggerUnlock''"
  by (auto simp: lock_event_def debugger_lock_def debugger_unlock_def)

text \<open>A function of the history that only the lock's events change; the operations of the driver have no others.\<close>

locale lock_view =
  fixes g :: "history \<Rightarrow> 'v"
  assumes other [simp]: "\<not> lock_event e \<Longrightarrow> g (e # h) = g h"

sublocale lock_view \<subseteq> lnc_frame "\<lambda>s. g (trace s)"
proof
  fix E e and s :: pcnet
  assume "lnc_event e"
  then have "\<not> lock_event e" by (cases e) simp_all
  then show "g (trace (emit E e s)) = g (trace s)" by simp
qed simp

context lock_view
begin

lemma view_medium [simp]:
  "g (trace (lnc_watchdog E s)) = g (trace s)" "g (trace (snd (lnc_is_medium_available E s))) = g (trace s)"
  "g (trace (snd (lnc_get_medium E s))) = g (trace s)" "g (trace (lnc_down E s)) = g (trace s)" for s :: pcnet
  by (simp_all add: lnc_watchdog_def lnc_is_medium_available_def lnc_get_medium_def lnc_down_def Let_def split_def)

lemma view_phy [simp]:
  "g (trace (phyReportLinkStatus E b s)) = g (trace s)" "g (trace (snd (phySetMedium E i s))) = g (trace s)"
  by (simp_all add: phyReportLinkStatus_def phySetMedium_def Let_def split_def)

lemma view_select [simp]: "g (trace (snd (selectMedium E m s))) = g (trace s)"
  by (simp add: selectMedium_def phySetMedium_medium_def Let_def split_def split: option.split)

lemma view_init [simp]: "g (trace (snd (initAdapter E opt s))) = g (trace s)"
  by (simp add: initAdapter_def disableHardwareInterrupts_def Let_def)

lemma view_adapter [simp]:
  "g (trace (snd (enableAdapter E l s))) = g (trace s)" "g (trace (snd (disableAdapter E l s))) = g (trace s)"
  by (simp_all add: enableAdapter_def disableAdapter_def and_then_def os_call_def enableHardwareInterrupts_def
      disableHardwareInterrupts_def Let_def split_def)

lemma view_level_down: "level_down E l b s = Some (ok, t) \<Longrightarrow> g (trace t) = g (trace s)"
proof -
  have "g (trace (snd r)) = g (trace s)" if "level_down E l b s = Some r" for E l b s r
  proof (rule level_down.raw_induct[where P = "\<lambda>E l b s r. g (trace (snd r)) = g (trace s)", OF _ that])
    fix f E l b s r
    assume IH: "\<And>E l b s r. f E l b s = Some r \<Longrightarrow> g (trace (snd r)) = g (trace s)"
      and eq: "(if \<not> l < currentLevel s then Some (b, s)
        else let (b, s) = disableAdapter E (currentLevel s) s
             in if \<not> b then Some (False, s) else f E l b (s\<lparr>currentLevel := currentLevel s - 1\<rparr>)) = Some r"
    show "g (trace (snd r)) = g (trace s)"
      using eq by (auto simp: split_def Let_def split: if_splits dest!: IH)
  qed
  then show "level_down E l b s = Some (ok, t) \<Longrightarrow> g (trace t) = g (trace s)" by fastforce
qed

lemma view_level_up: "level_up E l n b s = Some (ok, t) \<Longrightarrow> g (trace t) = g (trace s)"
proof -
  have "g (trace (snd r)) = g (trace s)" if "level_up E l n b s = Some r" for E l n b s r
  proof (rule level_up.raw_induct[where P = "\<lambda>E l n b s r. g (trace (snd r)) = g (trace s)", OF _ that])
    fix f E l n b s r
    assume IH: "\<And>E l n b s r. f E l n b s = Some r \<Longrightarrow> g (trace (snd r)) = g (trace s)"
      and eq: "(if \<not> currentLevel s < l then Some (b, s)
        else let (b, s) = enableAdapter E n s
             in if \<not> b then Some (False, s) else f E l (n + 1) b (s\<lparr>currentLevel := currentLevel s + 1\<rparr>)) = Some r"
    show "g (trace (snd r)) = g (trace s)"
      using eq by (auto simp: split_def Let_def split: if_splits dest!: IH)
  qed
  then show "level_up E l n b s = Some (ok, t) \<Longrightarrow> g (trace t) = g (trace s)" by fastforce
qed

lemma view_set_level: "setActivationLevel E l s = Some (ok, t) \<Longrightarrow> g (trace t) = g (trace s)"
  by (auto simp: setActivationLevel_def split: if_splits bind_splits dest!: view_level_down view_level_up)

lemma view_requests:
  "enable E s = Some (r, t) \<Longrightarrow> g (trace t) = g (trace s)" "disable E s = Some (r, t) \<Longrightarrow> g (trace t) = g (trace s)"
  "kdb_enable E s = Some (r, t) \<Longrightarrow> g (trace t) = g (trace s)" "kdb_disable E s = Some (r, t) \<Longrightarrow> g (trace t) = g (trace s)"
  by (auto simp: enable_def disable_def kdb_enable_def kdb_disable_def Let_def split: if_splits bind_splits dest!: view_set_level)

lemma view_multicast [simp]: "g (trace (lnc_set_multicast E addrs n s)) = g (trace s)" for s :: pcnet
proof -
  have "g (trace (write_laf E is s)) = g (trace s)" for "is" and s :: pcnet
    by (induction "is" arbitrary: s) (simp_all add: Let_def)
  moreover have "trace (lnc_setladrf addrs n u) = trace u" for u :: pcnet
    by (auto simp: lnc_setladrf_def Let_def split: option.split)
  ultimately show ?thesis by (simp add: lnc_set_multicast_def Let_def)
qed

lemma view_step: "drv_step E e s t \<Longrightarrow> \<not> uses_ring e \<Longrightarrow> g (trace t) = g (trace s)"
  by (induction rule: drv_step.induct)
    (auto simp: handleTimeout_def setPromiscuousMode_def lnc_set_promiscuous_mode_def setMulticastMode_def
      setMulticastList_def dest: view_requests)

end

subsection \<open>The lock is held while the rings are worked on, and not longer\<close>

text \<open>That the lock is free is a view of the history; so is the lock's state for the operations of the \<open>lnc\<close> layer.\<close>

definition lock_free :: "history \<Rightarrow> bool" where
  "lock_free h \<longleftrightarrow> lock_held h = Some False"

interpretation free_view: lock_view lock_free
  by unfold_locales (simp add: lock_free_def lock_event_def split: option.split)

interpretation held_frame: lnc_frame "\<lambda>s. lock_held (trace s)"
proof
  fix E e and s :: pcnet
  assume "lnc_event e"
  then have "\<not> lock_event e" "\<not> stack_call e" by (cases e; simp add: stack_call_def)+
  then show "lock_held (trace (emit E e s)) = lock_held (trace s)"
    by (simp add: lock_event_def split: option.split)
qed simp

lemma lock_neq [simp]: "debugger_unlock \<noteq> debugger_lock" "debugger_lock \<noteq> debugger_unlock"
  by (simp_all add: debugger_lock_def debugger_unlock_def)

lemma lock_taken: "lock_held h = Some False \<Longrightarrow> lock_held (debugger_lock # h) = Some True"
  by simp

lemma lock_returned: "lock_held h = Some True \<Longrightarrow> lock_free (debugger_unlock # h)"
  by (simp add: lock_free_def)

lemma interrupt_lock_free:
  assumes "kdb_handleInterrupt E s = Some t" "lock_free (trace s)"
  shows "lock_free (trace t)"
  using assms(1)
proof (rule kdb_interrupt_cases)
  fix fq sq u
  assume u: "lnc_intr E False False (emit E debugger_lock s) = Some (fq, sq, u)"
    and t: "t = (let v = emit E debugger_unlock u; v = (if fq then emit E FlushInput v else v)
            in if sq then emit E (QService False) v else v)"
  have "lock_held (trace u) = Some True"
    using held_frame.frame_lnc_intr[OF u] lock_taken assms(2) by (simp add: lock_free_def)
  then show ?thesis using lock_returned by (simp add: t Let_def)
qed (use assms(2) in simp)

lemma output_lock_free: "lock_free (trace s) \<Longrightarrow> lock_free (trace (snd (kdb_outputPacket E pkt s)))"
proof -
  assume f: "lock_free (trace s)"
  let ?u = "snd (lnc_output_packet E pkt (emit E debugger_lock s))"
  have "lock_held (trace ?u) = Some True" using f by (simp add: held_frame.frame_output lock_free_def)
  then have "lock_free (debugger_unlock # trace ?u)" by (rule lock_returned)
  then show ?thesis by (simp add: kdb_outputPacket_def Let_def split_def BUMP_NET_COUNTER_def)
qed

lemma kdb_step_lock:
  assumes "kdb_step E e s t" "lock_free (trace s)"
  shows "lock_free (trace t)"
  using assms
  by (induction rule: kdb_step.induct)
    (auto simp: sendPacket_def receivePacket_def free_view.view_step free_view.view_requests
      intro: interrupt_lock_free output_lock_free)

lemma kdb_reachable_lock:
  assumes "kdb_reachable E s t" "lock_free (trace s)"
  shows "lock_free (trace t)"
  using assms by (induction rule: kdb_reachable.induct) (auto intro: kdb_step_lock)

end
