(* ===== verification/Dump.thy ===== *)
theory Dump
  imports Init_Facts
begin

text \<open>
  The state dump of DEBUG builds (\<open>lnc_dump_state\<close> of \<^verbatim>\<open>PCNet_lnc.cpp\<close>): what it prints, as a list of
  lines, and the four registers it reads. It changes nothing of the driver; after \<open>lnc_init\<close> it shows
  the ring lengths and buffer sizes the driver was built with.
\<close>

unbundle bit_operations_syntax

subsection \<open>The lines\<close>

text \<open>One constructor for each format; a pointer is the address it prints.\<close>

datatype dump_line =
    DumpTitle string
  | DumpRing string u32 nat u32
  | DumpEntry nat u32 u32 u32
  | DumpBlock u32
  | DumpBlockWords u16 int u32 int u32
  | DumpRxDesc nat u32 int u32 u16
  | DumpTxDesc nat u32 int u16 u16
  | DumpIndices nat nat nat
  | DumpCsrs "u16 list"

text \<open>\<^verbatim>\<open>-(short) length\<close> of a 16-bit field.\<close>

definition dump_bcnt :: "u16 \<Rightarrow> int" where
  "dump_bcnt len = - sint len"

definition dump_entry :: "u32 \<Rightarrow> host_ring_entry list \<Rightarrow> nat \<Rightarrow> dump_line" where
  "dump_entry base ring i =
     DumpEntry i (base + of_nat (i * sizeof_host_ring_entry)) (hre_md (ring ! i)) (hre_data (ring ! i))"

definition dump_rx :: "'a lnc_softc_scheme \<Rightarrow> nat \<Rightarrow> dump_line" where
  "dump_rx s i = (let d = rx_md s i in
     DumpRxDesc i (mds_buffer d) (dump_bcnt (mds_length d)) (mds_misc d) (mds_status d))"

definition dump_tx :: "'a lnc_softc_scheme \<Rightarrow> nat \<Rightarrow> dump_line" where
  "dump_tx s i = (let d = tx_md s i in
     DumpTxDesc i (mds_buffer d) (dump_bcnt (mds_length d)) (mds_status d) (ext_status d))"

definition dump_memory :: "'a lnc_softc_scheme \<Rightarrow> dump_line list" where
  "dump_memory s =
     (let rx = ring_base s; tx = trans_ring_at (ring_base s) (nrdre s); b = init_block s in
      [DumpTitle ''Driver/NIC state dump'', DumpTitle ''Host memory'', DumpTitle ''-----------'',
       DumpRing ''Receive ring'' rx (recv_next s) (rx + of_nat (recv_next s * sizeof_host_ring_entry))] @
      map (dump_entry rx (recv_ring s)) [0..<LNC_NDESC (nrdre s)] @
      [DumpRing ''Transmit ring'' tx (trans_next s) (tx + of_nat (trans_next s * sizeof_host_ring_entry))] @
      map (dump_entry tx (trans_ring s)) [0..<LNC_NDESC (ntdre s)] @
      [DumpTitle ''Lance memory (may be on host(DMA) or card(SHMEM))'', DumpBlock (init_block_addr s),
       DumpBlockWords (ib_mode b) (uint (drop_bit 4 (ib_tlen_rlen b)) mod 16) (ib_rx_ring b)
         (uint (drop_bit 12 (ib_tlen_rlen b))) (ib_tx_ring b),
       DumpTitle ''Receive descriptor ring''] @
      map (dump_rx s) [0..<LNC_NDESC (nrdre s)] @
      [DumpTitle ''Transmit descriptor ring''] @
      map (dump_tx s) [0..<LNC_NDESC (ntdre s)] @
      [DumpIndices (next_to_send s) (trans_next s) (recv_next s)])"

text \<open>
  The four reads are arguments of one call, which the compiler may evaluate in any order; \<open>order\<close> is the
  one it chooses, a permutation of the four register numbers.
\<close>

fun dump_read :: "env \<Rightarrow> u16 list \<Rightarrow> 'a lnc_softc_scheme \<Rightarrow> (u16 \<Rightarrow> u16) \<times> 'a lnc_softc_scheme" where
  "dump_read E [] s = (\<lambda>_. 0, s)"
| "dump_read E (p # ps) s =
     (let (v, s) = read_csr E p s; (f, s) = dump_read E ps s in (f(p := v), s))"

definition dump_order :: "u16 list \<Rightarrow> bool" where
  "dump_order order \<longleftrightarrow> distinct order \<and> set order = {CSR, CSR + 1, CSR + 2, CSR + 3}"

definition lnc_dump_state :: "env \<Rightarrow> u16 list \<Rightarrow> 'a lnc_softc_scheme \<Rightarrow> dump_line list \<times> 'a lnc_softc_scheme" where
  "lnc_dump_state E order s =
     (let (f, t) = dump_read E order s
      in (dump_memory s @ [DumpCsrs (map f [CSR, CSR + 1, CSR + 2, CSR + 3])], t))"

subsection \<open>It changes nothing\<close>

lemma evolves_dump_read: "evolves E s (snd (dump_read E ps s))"
proof (induction ps arbitrary: s)
  case (Cons p ps)
  show ?case using evolves_trans[OF evolves_read_csr Cons] by (simp add: Let_def split_def)
qed simp

lemma dump_keeps_driver: "same_vars s (snd (lnc_dump_state E order s))"
  by (simp add: lnc_dump_state_def Let_def split_def evolves_same_vars[OF evolves_dump_read])

text \<open>With storage registers, the three address and mask registers print the same in every order.\<close>

lemma dump_read_stored:
  assumes "register_file E" "p \<noteq> CSR" "p \<in> set ps" "csr_last (trace s) p = Some v"
  shows "fst (dump_read E ps s) p = v"
  using assms(3,4)
proof (induction ps arbitrary: s)
  case (Cons q ps)
  have l: "csr_last (trace (snd (read_csr E q s))) p = Some v" using Cons.prems(2) by (simp add: csr.rd_keeps)
  show ?case
  proof (cases "q = p")
    case True
    then show ?thesis using csr.rd_last[OF assms(1,2) Cons.prems(2)] by (simp add: Let_def split_def)
  next
    case False
    then show ?thesis using Cons.IH[OF _ l] Cons.prems(1) by (simp add: Let_def split_def)
  qed
qed simp

lemma dump_order_irrelevant:
  assumes "register_file E" "dump_order order" "csr_last (trace s) (CSR + 1) = Some a"
    "csr_last (trace s) (CSR + 2) = Some b" "csr_last (trace s) (CSR + 3) = Some c"
  shows "\<exists>v. last (fst (lnc_dump_state E order s)) = DumpCsrs [v, a, b, c]"
proof -
  have "CSR + 1 \<noteq> CSR" "CSR + 2 \<noteq> CSR" "CSR + 3 \<noteq> CSR" by (simp_all add: hw_consts)
  with assms show ?thesis
    by (simp add: lnc_dump_state_def Let_def split_def dump_order_def dump_read_stored)
qed

subsection \<open>After the initialization\<close>

lemma dump_bcnt_simps [simp]: "dump_bcnt (- of_nat LNC_RECVBUFSIZE) = int LNC_RECVBUFSIZE" "dump_bcnt 0 = 0"
  by (simp_all add: dump_bcnt_def hw_consts)

lemma dump_fresh:
  assumes "rings_fresh E s"
  shows "\<And>i. i < LNC_NDESC (nrdre s) \<Longrightarrow> dump_rx s i =
       DumpRxDesc i (iokit_kvtop E (ring_base s) (hre_data (recv_ring s ! i))) (int LNC_RECVBUFSIZE) 0 RMD_OWN"
    and "\<And>i. i < LNC_NDESC (ntdre s) \<Longrightarrow> dump_tx s i =
       DumpTxDesc i (iokit_kvtop E (ring_base s) (hre_data (trans_ring s ! i))) 0 0 0"
  using assms by (auto simp: rings_fresh_def dump_rx_def dump_tx_def Let_def)

text \<open>The two length codes of the block are in separate nibbles.\<close>

lemma tlen_rlen_codes:
  assumes "r < 16" "t < 16"
  defines "w \<equiv> push_bit 12 (of_nat t) OR push_bit 4 (of_nat r) :: u16"
  shows "uint (drop_bit 4 w) mod 16 = int r" "uint (drop_bit 12 w) = int t"
proof -
  have "\<forall>r\<in>set [0..<16]. \<forall>t\<in>set [0..<16]. uint (drop_bit 4 (push_bit 12 (of_nat t) OR push_bit 4 (of_nat r) :: u16)) mod 16 = int r \<and>
     uint (drop_bit 12 (push_bit 12 (of_nat t) OR push_bit 4 (of_nat r) :: u16)) = int t"
    by code_simp
  then show "uint (drop_bit 4 w) mod 16 = int r" "uint (drop_bit 12 w) = int t"
    using assms by simp_all
qed


text \<open>The line of the initialization block shows the codes of the two ring lengths.\<close>

lemma dump_block_ready:
  assumes "driver_ready E s" "nrdre s < 16" "ntdre s < 16"
  shows "DumpBlockWords (ucast (nic_mode s)) (int (nrdre s)) (iokit_kvtop E (ring_base s) (hre_md (recv_ring s ! 0)))
     (int (ntdre s)) (iokit_kvtop E (ring_base s) (hre_md (trans_ring s ! 0))) \<in> set (fst (lnc_dump_state E order s))"
proof -
  let ?b = "init_block s"
  have "DumpBlockWords (ib_mode ?b) (uint (drop_bit 4 (ib_tlen_rlen ?b)) mod 16) (ib_rx_ring ?b)
      (uint (drop_bit 12 (ib_tlen_rlen ?b))) (ib_tx_ring ?b) \<in> set (fst (lnc_dump_state E order s))"
    by (simp add: lnc_dump_state_def dump_memory_def Let_def split_def)
  then show ?thesis using assms(1) tlen_rlen_codes[OF assms(2,3)] unfolding driver_ready_def by metis
qed

end
