(* ===== verification/Fbsd.thy ===== *)
theory Fbsd
  imports Multicast Lnc_Init
begin

text \<open>
  The FreeBSD driver \<^verbatim>\<open>lnc\<close> (\<^verbatim>\<open>FreeBSD/if_lnc.c\<close>), from which the Darwin driver was ported: its
  constants, its state, the mbufs of the FreeBSD kernel, and the operations below the packet
  handlers (registers, probing, resources, multicast filter, clusters). It drives the chip in
  its 16-bit Lance format. Pointers are addresses, 0 the null pointer.
\<close>

unbundle bit_operations_syntax

subsection \<open>Constants\<close>

definition FB_CSR0 :: u16 where [hw_consts]: "FB_CSR0 = 0"
definition FB_CSR1 :: u16 where [hw_consts]: "FB_CSR1 = 1"
definition FB_CSR2 :: u16 where [hw_consts]: "FB_CSR2 = 2"
definition FB_CSR3 :: u16 where [hw_consts]: "FB_CSR3 = 3"
definition BCR49 :: u16 where [hw_consts]: "BCR49 = 49"
definition ERR :: u16 where [hw_consts]: "ERR = 0x8000"
definition BABL :: u16 where [hw_consts]: "BABL = 0x4000"
definition CERR :: u16 where [hw_consts]: "CERR = 0x2000"
definition MISS :: u16 where [hw_consts]: "MISS = 0x1000"
definition MERR :: u16 where [hw_consts]: "MERR = 0x0800"
definition RINT :: u16 where [hw_consts]: "RINT = 0x0400"
definition TINT :: u16 where [hw_consts]: "TINT = 0x0200"
definition IDON :: u16 where [hw_consts]: "IDON = 0x0100"
definition INTR :: u16 where [hw_consts]: "INTR = 0x0080"
definition INEA :: u16 where [hw_consts]: "INEA = 0x0040"
definition TDMD :: u16 where [hw_consts]: "TDMD = 0x0008"
definition STOP :: u16 where [hw_consts]: "STOP = 0x0004"
definition STRT :: u16 where [hw_consts]: "STRT = 0x0002"
definition INIT :: u16 where [hw_consts]: "INIT = 0x0001"
definition PROM :: u32 where [hw_consts]: "PROM = 0x8000"
definition OWN :: u16 where [hw_consts]: "OWN = 0x8000"
definition MDERR :: u16 where [hw_consts]: "MDERR = 0x4000"
definition STP :: u16 where [hw_consts]: "STP = 0x0200"
definition ENP :: u16 where [hw_consts]: "ENP = 0x0100"
definition HADR :: u16 where [hw_consts]: "HADR = 0x00FF"
definition MCNT :: u16 where [hw_consts]: "MCNT = 0x0FFF"
definition MORE :: u16 where [hw_consts]: "MORE = 0x1000"
definition ONE :: u16 where [hw_consts]: "ONE = 0x0800"
definition TBUFF :: u16 where [hw_consts]: "TBUFF = 0x8000"
definition UFLO :: u16 where [hw_consts]: "UFLO = 0x4000"
definition LCOL :: u16 where [hw_consts]: "LCOL = 0x1000"
definition RTRY :: u16 where [hw_consts]: "RTRY = 0x0400"
definition FCS_LEN :: int where [hw_consts]: "FCS_LEN = 4"
definition NRDRE :: nat where [hw_consts]: "NRDRE = 3"
definition NTDRE :: nat where [hw_consts]: "NTDRE = 3"
definition RECVBUFSIZE :: nat where [hw_consts]: "RECVBUFSIZE = 1518"
definition TRANSBUFSIZE :: nat where [hw_consts]: "TRANSBUFSIZE = 1518"
definition MBUF_CACHE_LIMIT :: int where [hw_consts]: "MBUF_CACHE_LIMIT = 0"
definition MEM_SLEW :: nat where [hw_consts]: "MEM_SLEW = 8"
definition FB_INITIALISED :: u32 where [hw_consts]: "FB_INITIALISED = 1"
definition FB_ALLMULTI :: u32 where [hw_consts]: "FB_ALLMULTI = 2"
definition PCNET_RDP :: u16 where [hw_consts]: "PCNET_RDP = 0x10"
definition PCNET_RAP :: u16 where [hw_consts]: "PCNET_RAP = 0x12"
definition PCNET_BDP :: u16 where [hw_consts]: "PCNET_BDP = 0x16"
definition sizeof_lance_mds :: nat where [hw_consts]: "sizeof_lance_mds = 8"
definition sizeof_lance_block :: nat where [hw_consts]: "sizeof_lance_block = 24"

text \<open>Chip types, board types and memory modes; the values are those of \<^verbatim>\<open>if_lncvar.h\<close>.\<close>

datatype lnc_ic = UNKNOWN | LANCE | C_LANCE | PCnet_ISA | PCnet_ISAplus | PCnet_ISA_II | PCnet_32 | PCnet_PCI
  | PCnet_PCI_II | PCnet_FAST | PCnet_FASTplus | PCnet_Home

datatype lnc_ident = IDENT_UNKNOWN | BICC | NE2100 | DEPCA | CNET98S

datatype lnc_mem_mode = DMA_FIXED | DMA_MBUF | SHMEM

subsection \<open>State\<close>

record lance_block =
  lb_mode :: u16
  lb_padr :: "u8 list"
  lb_ladrf :: "u8 list"
  lb_rdra :: u16
  lb_rlen :: u16
  lb_tdra :: u16
  lb_tlen :: u16

text \<open>The union \<^verbatim>\<open>buff\<close> of a ring entry is one pointer: to an mbuf, or to the data.\<close>

record fb_entry =
  fre_md :: u32
  fre_buff :: u32

text \<open>
  The fields of an mbuf that the driver reads and writes; its data are bytes of the memory.
\<close>

record bsd_mbuf =
  m_next :: u32
  m_data :: u32
  m_len :: int
  m_ext :: bool
  m_ext_buf :: u32
  m_pkthdr :: bool
  m_pkthdr_len :: int
  m_rcvif :: bool
  m_pktdat :: u32

text \<open>
  The softc with its network interface (\<open>fi_\<close>), its \<^verbatim>\<open>nic\<close> and, last, the mbufs of the kernel.
  A resource is a \<open>bool\<close>: whether its pointer is non-null.
\<close>

record fb_softc = hist +
  f_irqres :: bool
  f_drqres :: bool
  f_portres :: bool
  f_dmat :: bool
  f_dmamap :: bool
  f_ifp :: bool
  fi_flags :: u32
  fi_drv_flags :: u32
  fi_timer :: nat
  fi_ierrors :: u32
  fi_oerrors :: u32
  fi_ipackets :: u32
  fi_opackets :: u32
  fi_collisions :: u32
  fi_snd :: "u32 list"
  fi_multiaddrs :: "(bool \<times> u8 list) list"
  fi_enaddr :: "u8 list"
  f_ident :: lnc_ident
  f_ic :: lnc_ic
  f_mem_mode :: lnc_mem_mode
  f_iobase :: u32
  f_mode :: u32
  f_nrdre :: nat
  f_ring_base :: u32
  f_recv_ring :: "fb_entry list"
  f_recv_next :: nat
  f_ntdre :: nat
  f_trans_ring :: "fb_entry list"
  f_trans_next :: nat
  f_init_block :: lance_block
  f_init_block_addr :: u32
  f_pending :: int
  f_next_to_send :: nat
  f_mbufs :: u32
  f_mbuf_count :: int
  f_flags :: u32
  f_rap :: u16
  f_rdp :: u16
  f_bdp :: u16
  f_mb :: "u32 \<Rightarrow> bsd_mbuf"

text \<open>
  What the driver uses of the FreeBSD kernel: the allocators (an address or 0, from the history,
  and the fresh mbuf), address translation, the free space behind the data of an mbuf, the CRC,
  the memory as allocated, and the values of its header constants.
\<close>

record bsd =
  bk_mget :: "history \<Rightarrow> u32"
  bk_mbuf :: "history \<Rightarrow> bsd_mbuf"
  bk_mclget :: "history \<Rightarrow> u32"
  bk_kvtop :: "u32 \<Rightarrow> u32"
  bk_trailingspace :: "bsd_mbuf \<Rightarrow> int"
  bk_crc32_le :: "u8 list \<Rightarrow> u32"
  bk_entry :: "history \<Rightarrow> nat \<Rightarrow> fb_entry"
  bk_dmamem :: "history \<Rightarrow> u32"
  bk_ether_ioctl :: "history \<Rightarrow> int"
  bk_pci_command :: "history \<Rightarrow> u32"
  bk_MCLBYTES :: int
  bk_MINCLSIZE :: int
  bk_sizeof_pkthdr :: int
  bk_IFF_UP :: u32
  bk_IFF_BROADCAST :: u32
  bk_IFF_SIMPLEX :: u32
  bk_IFF_MULTICAST :: u32
  bk_IFF_NEEDSGIANT :: u32
  bk_IFF_PROMISC :: u32
  bk_IFF_ALLMULTI :: u32
  bk_IFF_DRV_RUNNING :: u32
  bk_IFF_DRV_OACTIVE :: u32
  bk_PCIM_CMD_PORTEN :: u32
  bk_PCIM_CMD_BUSMASTEREN :: u32

text \<open>The kernel's unsigned \<^verbatim>\<open>min\<close> and \<^verbatim>\<open>max\<close> of two C integers, and the conversion to \<^verbatim>\<open>short\<close>.\<close>

definition umin :: "int \<Rightarrow> int \<Rightarrow> int" where
  "umin a b = signed_take_bit 31 (min (take_bit 32 a) (take_bit 32 b))"

definition umax :: "int \<Rightarrow> int \<Rightarrow> int" where
  "umax a b = signed_take_bit 31 (max (take_bit 32 a) (take_bit 32 b))"

definition c_short :: "int \<Rightarrow> int" where
  "c_short x = signed_take_bit 15 x"

text \<open>Descriptors of ring entries, and \<^verbatim>\<open>bcopy\<close> inside the memory.\<close>

definition fb_rx_md :: "fb_softc \<Rightarrow> nat \<Rightarrow> lance_mds" where
  "fb_rx_md s i = lmds (mem s) (fre_md (f_recv_ring s ! i))"

definition fb_tx_md :: "fb_softc \<Rightarrow> nat \<Rightarrow> lance_mds" where
  "fb_tx_md s i = lmds (mem s) (fre_md (f_trans_ring s ! i))"

definition upd_fb_rx :: "nat \<Rightarrow> (lance_mds \<Rightarrow> lance_mds) \<Rightarrow> fb_softc \<Rightarrow> fb_softc" where
  "upd_fb_rx i f s = upd_lmds (fre_md (f_recv_ring s ! i)) f s"

definition upd_fb_tx :: "nat \<Rightarrow> (lance_mds \<Rightarrow> lance_mds) \<Rightarrow> fb_softc \<Rightarrow> fb_softc" where
  "upd_fb_tx i f s = upd_lmds (fre_md (f_trans_ring s ! i)) f s"

definition ram_copy :: "u32 \<Rightarrow> u32 \<Rightarrow> int \<Rightarrow> fb_softc \<Rightarrow> fb_softc" where
  "ram_copy src dst n s = s\<lparr>mem := (mem s)\<lparr>ram := \<lambda>x.
     if unat (x - dst) < unat (of_int n :: u32) then ram (mem s) (src + (x - dst)) else ram (mem s) x\<rparr>\<rparr>"

definition upd_mb :: "u32 \<Rightarrow> (bsd_mbuf \<Rightarrow> bsd_mbuf) \<Rightarrow> fb_softc \<Rightarrow> fb_softc" where
  "upd_mb m f s = s\<lparr>f_mb := (f_mb s)(m := f (f_mb s m))\<rparr>"

subsection \<open>Registers and probing\<close>

definition fb_read_csr :: "env \<Rightarrow> u16 \<Rightarrow> fb_softc \<Rightarrow> u16 \<times> fb_softc" where
  [drv_ops]: "fb_read_csr E port s = csrRead16 E (f_rdp s) (csrWrite16 E (f_rap s) port s)"

definition fb_write_csr :: "env \<Rightarrow> u16 \<Rightarrow> u16 \<Rightarrow> fb_softc \<Rightarrow> fb_softc" where
  [drv_ops]: "fb_write_csr E port val s = csrWrite16 E (f_rdp s) val (csrWrite16 E (f_rap s) port s)"

definition fb_write_bcr :: "env \<Rightarrow> u16 \<Rightarrow> u16 \<Rightarrow> fb_softc \<Rightarrow> fb_softc" where
  [drv_ops]: "fb_write_bcr E port val s = csrWrite16 E (f_bdp s) val (csrWrite16 E (f_rap s) port s)"

definition fb_read_bcr :: "env \<Rightarrow> u16 \<Rightarrow> fb_softc \<Rightarrow> u16 \<times> fb_softc" where
  [drv_ops]: "fb_read_bcr E port s = csrRead16 E (f_bdp s) (csrWrite16 E (f_rap s) port s)"

definition lance_probe :: "env \<Rightarrow> fb_softc \<Rightarrow> lnc_ic \<times> fb_softc" where
  "lance_probe E s =
     (let s = fb_write_csr E FB_CSR0 STOP s;
          (v, s) = csrRead16 E (f_rdp s) s in
      if \<not> has v STOP then (UNKNOWN, s)
      else let (w, s) = fb_read_csr E FB_CSR3 s in
      if w \<noteq> 0 then (UNKNOWN, s)
      else let s = fb_write_csr E FB_CSR0 INEA s;
               (v, s) = fb_read_csr E FB_CSR0 s
           in (if has v INEA then C_LANCE else LANCE, s))"

definition fb_lnc_stop :: "env \<Rightarrow> fb_softc \<Rightarrow> fb_softc" where
  "fb_lnc_stop E s = fb_write_csr E FB_CSR0 STOP s"

text \<open>The pointers released here are not cleared.\<close>

definition fb_lnc_release_resources :: "env \<Rightarrow> fb_softc \<Rightarrow> fb_softc" where
  "fb_lnc_release_resources E s =
     (let s = (if f_irqres s then emit E (Kernel ''bus_release_irq'') (emit E (Kernel ''bus_teardown_intr'') s) else s);
          s = (if f_portres s then emit E (Kernel ''bus_release_ioport'') s else s);
          s = (if f_drqres s then emit E (Kernel ''bus_release_drq'') s else s)
      in if f_dmat s
         then let s = (if f_dmamap s
                       then emit E (Kernel ''bus_dmamem_free'') (emit E (Kernel ''bus_dmamap_unload'') s) else s)
              in emit E (Kernel ''bus_dma_tag_destroy'') s
         else s)"

subsection \<open>The multicast filter\<close>

definition fb_ladrf_set :: "bsd \<Rightarrow> u8 list \<Rightarrow> u8 list \<Rightarrow> u8 list" where
  "fb_ladrf_set K a f =
     (let index = drop_bit 26 (bk_crc32_le K (take ETHER_ADDR_LEN a)); k = unat (drop_bit 3 index)
      in f[k := f ! k OR push_bit (unat (index AND 7)) 1])"

text \<open>The flag of a multicast entry says whether its address family is \<^verbatim>\<open>AF_LINK\<close>.\<close>

definition fb_lnc_setladrf :: "bsd \<Rightarrow> fb_softc \<Rightarrow> fb_softc" where
  "fb_lnc_setladrf K s =
     (if has (f_flags s) (bk_IFF_ALLMULTI K)
      then s\<lparr>f_init_block := (f_init_block s)\<lparr>lb_ladrf := replicate MULTICAST_FILTER_LEN 0xFF\<rparr>\<rparr>
      else s\<lparr>f_init_block := (f_init_block s)\<lparr>lb_ladrf :=
             fold (fb_ladrf_set K) (map snd (filter fst (fi_multiaddrs s))) (replicate MULTICAST_FILTER_LEN 0)\<rparr>\<rparr>)"

subsection \<open>mbufs\<close>

definition MGET :: "env \<Rightarrow> bsd \<Rightarrow> fb_softc \<Rightarrow> u32 \<times> fb_softc" where
  "MGET E K s =
     (let m = bk_mget K (trace s); d = bk_mbuf K (trace s);
          s = emit E (Kernel ''MGET'') s
      in (m, if m = 0 then s else upd_mb m (\<lambda>_. d) s))"

definition MGETHDR :: "env \<Rightarrow> bsd \<Rightarrow> fb_softc \<Rightarrow> u32 \<times> fb_softc" where
  "MGETHDR E K s =
     (let m = bk_mget K (trace s); d = bk_mbuf K (trace s);
          s = emit E (Kernel ''MGETHDR'') s
      in (m, if m = 0 then s else upd_mb m (\<lambda>_. d\<lparr>m_pkthdr := True\<rparr>) s))"

definition MCLGET :: "env \<Rightarrow> bsd \<Rightarrow> u32 \<Rightarrow> fb_softc \<Rightarrow> fb_softc" where
  "MCLGET E K m s =
     (let b = bk_mclget K (trace s);
          s = emit E (Kernel ''MCLGET'') s
      in upd_mb m (\<lambda>d. if b = 0 then d\<lparr>m_ext_buf := 0\<rparr> else d\<lparr>m_ext_buf := b, m_ext := True, m_data := b\<rparr>) s)"

text \<open>\<^verbatim>\<open>m_free\<close> returns the mbuf behind the one freed.\<close>

definition bsd_m_free :: "env \<Rightarrow> u32 \<Rightarrow> fb_softc \<Rightarrow> u32 \<times> fb_softc" where
  "bsd_m_free E m s = (m_next (f_mb s m), emit E (Call ''m_free'' [m]) s)"

definition bsd_m_freem :: "env \<Rightarrow> u32 \<Rightarrow> fb_softc \<Rightarrow> fb_softc" where
  "bsd_m_freem E m s = emit E (Call ''m_freem'' [m]) s"

definition free_entry_mbuf :: "env \<Rightarrow> fb_entry \<Rightarrow> fb_softc \<Rightarrow> fb_softc" where
  "free_entry_mbuf E e s = (if fre_buff e \<noteq> 0 then snd (bsd_m_free E (fre_buff e) s) else s)"

definition lnc_free_mbufs :: "env \<Rightarrow> fb_softc \<Rightarrow> fb_softc" where
  "lnc_free_mbufs E s =
     (let s = fold (free_entry_mbuf E) (take (LNC_NDESC (f_nrdre s)) (f_recv_ring s)) s;
          s = fold (free_entry_mbuf E) (take (LNC_NDESC (f_ntdre s)) (f_trans_ring s)) s
      in if f_mbuf_count s \<noteq> 0 then bsd_m_freem E (f_mbufs s) s else s)"

text \<open>A cluster for the receive entry \<open>i\<close>; the result is the failure flag.\<close>

definition take_cluster :: "env \<Rightarrow> bsd \<Rightarrow> fb_softc \<Rightarrow> u32 \<times> fb_softc" where
  "take_cluster E K s =
     (if f_mbuf_count s \<noteq> 0
      then let s = s\<lparr>f_mbuf_count := f_mbuf_count s - 1\<rparr>; m = f_mbufs s
           in (m, s\<lparr>f_mbufs := m_next (f_mb s m)\<rparr>)
      else let (m, s) = MGET E K s in
           if m = 0 then (0, s)
           else let s = MCLGET E K m s in
                if m_ext_buf (f_mb s m) = 0 then (0, snd (bsd_m_free E m s)) else (m, s))"

definition alloc_mbuf_cluster :: "env \<Rightarrow> bsd \<Rightarrow> nat \<Rightarrow> fb_softc \<Rightarrow> bool \<times> fb_softc" where
  "alloc_mbuf_cluster E K i s =
     (let (m, s) = take_cluster E K s in
      if m = 0 then (True, s)
      else let s = s\<lparr>f_recv_ring := (f_recv_ring s)[i := (f_recv_ring s ! i)\<lparr>fre_buff := m\<rparr>]\<rparr>;
               addr = bk_kvtop K (m_data (f_mb s m));
               s = upd_fb_rx i (\<lambda>d. d\<lparr>md0 := ucast addr\<rparr>) s;
               s = upd_fb_rx i (\<lambda>d. d\<lparr>md1 := ucast (drop_bit 16 addr AND 0xff) OR OWN\<rparr>) s;
               s = upd_fb_rx i (\<lambda>d. d\<lparr>md2 := of_int (- c_short (bk_MCLBYTES K - bk_sizeof_pkthdr K))\<rparr>) s
           in (False, upd_fb_rx i (\<lambda>d. d\<lparr>md3 := 0\<rparr>) s))"

text \<open>\<open>mbuf_to_buffer\<close> along the chain; a cyclic chain is copied forever.\<close>

partial_function (option) fb_mbuf_to_buffer :: "u32 \<Rightarrow> u32 \<Rightarrow> int \<Rightarrow> fb_softc \<Rightarrow> (int \<times> fb_softc) option" where
  "fb_mbuf_to_buffer m buffer len s =
     (if m = 0 then Some (len, s)
      else let d = f_mb s m;
               s = ram_copy (m_data d) buffer (m_len d) s
           in fb_mbuf_to_buffer (m_next d) (buffer + of_int (m_len d)) (len + m_len d) s)"

text \<open>The result 0 is the null pointer; then \<open>m\<close> is not freed.\<close>

definition chain_to_cluster :: "env \<Rightarrow> bsd \<Rightarrow> u32 \<Rightarrow> fb_softc \<Rightarrow> (u32 \<times> fb_softc) option" where
  "chain_to_cluster E K m s =
     (let (new, s) = MGET E K s in
      if new = 0 then Some (0, s)
      else let s = MCLGET E K new s in
      if m_ext_buf (f_mb s new) = 0 then Some (0, snd (bsd_m_free E new s))
      else do {
        (len, s) \<leftarrow> fb_mbuf_to_buffer m (m_data (f_mb s new)) 0 s;
        let s = upd_mb new (\<lambda>d. d\<lparr>m_len := len\<rparr>) s;
        Some (new, bsd_m_freem E m s)
      })"

end
