(* ===== verification/Fbsd_Net.thy ===== *)
theory Fbsd_Net
  imports Fbsd
begin

text \<open>
  The packet side of the FreeBSD driver: initialisation, output, the receive and transmit
  interrupts, the interrupt handler, the interface calls and the PCI attachment. A loop the
  code does not bound is partial, \<open>None\<close> when it never returns. A failed output resets the driver,
  which starts output again: \<open>fb_lnc_start\<close> therefore contains the call of \<open>lnc_init\<close> as its
  non-recursive part followed by itself.
\<close>

unbundle bit_operations_syntax

subsection \<open>Memory and initialisation\<close>

definition fb_lnc_mem :: "fb_softc \<Rightarrow> u32" where
  "fb_lnc_mem s =
     (let p = (if f_mem_mode s = SHMEM then f_iobase s
               else f_ring_base s + of_nat (sizeof_host_ring_entry * (LNC_NDESC (f_nrdre s) + LNC_NDESC (f_ntdre s))))
      in (p + 1) AND NOT 1)"

definition set_mds :: "fb_entry list \<Rightarrow> u32 list \<Rightarrow> fb_entry list" where
  "set_mds es as = map2 (\<lambda>e a. e\<lparr>fre_md := a\<rparr>) es as"

text \<open>The pointers to the descriptors; the second result is the memory behind them.\<close>

definition fb_carve_mds :: "fb_softc \<Rightarrow> u32 \<times> fb_softc" where
  "fb_carve_mds s =
     (let ib = fb_lnc_mem s AND NOT 1;
          mem0 = (ib + of_nat sizeof_lance_block + 7) AND NOT 7;
          (ras, mem1) = carve mem0 sizeof_lance_mds (LNC_NDESC (f_nrdre s));
          (tas, mem2) = carve mem1 sizeof_lance_mds (LNC_NDESC (f_ntdre s))
      in (mem2, s\<lparr>f_recv_next := 0, f_trans_next := 0, f_init_block_addr := ib,
            f_recv_ring := set_mds (f_recv_ring s) ras, f_trans_ring := set_mds (f_trans_ring s) tas\<rparr>))"

definition fixed_rx_md :: "bsd \<Rightarrow> nat \<times> u32 \<Rightarrow> fb_softc \<Rightarrow> fb_softc" where
  "fixed_rx_md K = (\<lambda>(i, p) s.
     let s = upd_fb_rx i (\<lambda>d. d\<lparr>md0 := ucast (bk_kvtop K p)\<rparr>) s;
         s = upd_fb_rx i (\<lambda>d. d\<lparr>md1 := ucast (drop_bit 16 (bk_kvtop K p) AND 0xff) OR OWN\<rparr>) s;
         s = upd_fb_rx i (\<lambda>d. d\<lparr>md2 := - of_nat RECVBUFSIZE\<rparr>) s;
         s = upd_fb_rx i (\<lambda>d. d\<lparr>md3 := 0\<rparr>) s
     in s\<lparr>f_recv_ring := (f_recv_ring s)[i := (f_recv_ring s ! i)\<lparr>fre_buff := p\<rparr>]\<rparr>)"

definition fixed_tx_md :: "bsd \<Rightarrow> nat \<times> u32 \<Rightarrow> fb_softc \<Rightarrow> fb_softc" where
  "fixed_tx_md K = (\<lambda>(i, p) s.
     let s = upd_fb_tx i (\<lambda>d. d\<lparr>md0 := ucast (bk_kvtop K p)\<rparr>) s;
         s = upd_fb_tx i (\<lambda>d. d\<lparr>md1 := ucast (drop_bit 16 (bk_kvtop K p) AND 0xff)\<rparr>) s;
         s = upd_fb_tx i (\<lambda>d. d\<lparr>md2 := 0\<rparr>) s;
         s = upd_fb_tx i (\<lambda>d. d\<lparr>md3 := 0\<rparr>) s
     in s\<lparr>f_trans_ring := (f_trans_ring s)[i := (f_trans_ring s ! i)\<lparr>fre_buff := p\<rparr>]\<rparr>)"

definition fb_fixed_rings :: "bsd \<Rightarrow> u32 \<Rightarrow> fb_softc \<Rightarrow> fb_softc" where
  "fb_fixed_rings K p s =
     (let (rbs, q) = carve p RECVBUFSIZE (LNC_NDESC (f_nrdre s));
          (tbs, _) = carve q TRANSBUFSIZE (LNC_NDESC (f_ntdre s));
          s = fold (fixed_rx_md K) (zip [0..<LNC_NDESC (f_nrdre s)] rbs) s
      in fold (fixed_tx_md K) (zip [0..<LNC_NDESC (f_ntdre s)] tbs) s)"

fun alloc_clusters :: "env \<Rightarrow> bsd \<Rightarrow> nat list \<Rightarrow> fb_softc \<Rightarrow> bool \<times> fb_softc" where
  "alloc_clusters E K [] s = (False, s)"
| "alloc_clusters E K (i # is) s =
     (let (fail, s) = alloc_mbuf_cluster E K i s in if fail then (True, s) else alloc_clusters E K is s)"

definition clear_tx_entry :: "nat \<Rightarrow> fb_softc \<Rightarrow> fb_softc" where
  "clear_tx_entry i s =
     (let s = s\<lparr>f_trans_ring := (f_trans_ring s)[i := (f_trans_ring s ! i)\<lparr>fre_buff := 0\<rparr>]\<rparr>
      in upd_fb_tx i (\<lambda>_. \<lparr>md0 = 0, md1 = 0, md2 = 0, md3 = 0\<rparr>) s)"

definition fb_mbuf_rings :: "env \<Rightarrow> bsd \<Rightarrow> fb_softc \<Rightarrow> bool \<times> fb_softc" where
  "fb_mbuf_rings E K s =
     (let s = s\<lparr>f_mbufs := 0, f_mbuf_count := 0\<rparr>;
          s = (if has (f_flags s) FB_INITIALISED then lnc_free_mbufs E s else s);
          (fail, s) = alloc_clusters E K [0..<LNC_NDESC (f_nrdre s)] s
      in if fail then (True, s) else (False, fold clear_tx_entry [0..<LNC_NDESC (f_ntdre s)] s))"

text \<open>The initialization block, and the flag that the memory is valid.\<close>

definition fb_fill_block :: "bsd \<Rightarrow> fb_softc \<Rightarrow> fb_softc" where
  "fb_fill_block K s =
     (let s = s\<lparr>f_next_to_send := 0\<rparr>;
          s = s\<lparr>f_init_block := (f_init_block s)\<lparr>lb_mode := ucast (f_mode s), lb_padr := take ETHER_ADDR_LEN (fi_enaddr s)\<rparr>\<rparr>;
          s = fb_lnc_setladrf K s;
          r = bk_kvtop K (fre_md (f_recv_ring s ! 0)); t = bk_kvtop K (fre_md (f_trans_ring s ! 0));
          s = s\<lparr>f_init_block := (f_init_block s)\<lparr>
                 lb_rdra := ucast r, lb_rlen := ucast (drop_bit 16 r AND 0xff) OR push_bit 13 (of_nat (f_nrdre s)),
                 lb_tdra := ucast t, lb_tlen := ucast (drop_bit 16 t AND 0xff) OR push_bit 13 (of_nat (f_ntdre s))\<rparr>\<rparr>
      in s\<lparr>f_flags := f_flags s OR FB_INITIALISED, f_pending := 0\<rparr>)"

fun fb_poll_idon :: "env \<Rightarrow> nat \<Rightarrow> fb_softc \<Rightarrow> fb_softc" where
  "fb_poll_idon E 0 s = s"
| "fb_poll_idon E (Suc n) s =
     (let (v, s) = fb_read_csr E FB_CSR0 s in if has v IDON then s else fb_poll_idon E n s)"

definition fb_program_chip :: "env \<Rightarrow> bsd \<Rightarrow> fb_softc \<Rightarrow> fb_softc" where
  "fb_program_chip E K s =
     (let s = (if f_ic s = PCnet_Home
               then let (media, s) = fb_read_bcr E BCR49 s in fb_write_bcr E BCR49 (media AND NOT 3 OR 1) s
               else s);
          ib = bk_kvtop K (f_init_block_addr s);
          s = fb_write_csr E FB_CSR1 (ucast ib) s;
          s = fb_write_csr E FB_CSR2 (ucast (drop_bit 16 ib AND 0xff)) s;
          s = fb_write_csr E FB_CSR3 0 s;
          s = fb_write_csr E FB_CSR0 INIT s
      in fb_poll_idon E 1000 s)"

text \<open>\<open>lnc_init\<close> up to its call of \<open>lnc_start\<close>; the flag says whether it is reached.\<close>

definition fb_init_chip :: "env \<Rightarrow> bsd \<Rightarrow> fb_softc \<Rightarrow> bool \<times> fb_softc" where
  "fb_init_chip E K s =
     (let s = fb_lnc_stop E s;
          s = s\<lparr>fi_flags := fi_flags s OR (bk_IFF_BROADCAST K OR bk_IFF_SIMPLEX K OR bk_IFF_MULTICAST K)\<rparr>;
          (p, s) = fb_carve_mds s;
          (fail, s) = (if f_mem_mode s = DMA_MBUF then fb_mbuf_rings E K s else (False, fb_fixed_rings K p s))
      in if fail then (False, s)
         else let s = fb_program_chip E K (fb_fill_block K s);
                  (v, s) = fb_read_csr E FB_CSR0 s
              in if has v IDON
                 then let s = fb_write_csr E FB_CSR0 (STRT OR INEA) s;
                          s = s\<lparr>fi_drv_flags := fi_drv_flags s OR bk_IFF_DRV_RUNNING K\<rparr>
                      in (True, s\<lparr>fi_drv_flags := fi_drv_flags s AND NOT (bk_IFF_DRV_OACTIVE K)\<rparr>)
                 else (False, s))"

subsection \<open>Output\<close>

text \<open>The number of mbufs of a chain.\<close>

partial_function (option) chain_count :: "u32 \<Rightarrow> int \<Rightarrow> fb_softc \<Rightarrow> int option" where
  "chain_count m n s = (if m = 0 then Some n else chain_count (m_next (f_mb s m)) (n + 1) s)"

text \<open>The Lance needs 100 bytes in the first descriptor: bytes move forward in the chain.\<close>

partial_function (option) pull_up :: "env \<Rightarrow> u32 \<Rightarrow> u32 \<Rightarrow> int \<Rightarrow> fb_softc \<Rightarrow> fb_softc option" where
  "pull_up E head m len s =
     (if m = 0 \<or> len \<le> 0 then Some s
      else let chunk = umin len (m_len (f_mb s m));
               s = ram_copy (m_data (f_mb s m)) (m_data (f_mb s head) + of_int (m_len (f_mb s head))) chunk s;
               s = upd_mb head (\<lambda>d. d\<lparr>m_len := m_len d + chunk\<rparr>) s;
               s = upd_mb m (\<lambda>d. d\<lparr>m_len := m_len d - chunk, m_data := m_data d + of_int chunk\<rparr>) s
           in if m_len (f_mb s m) \<le> 0
              then let (m, s) = bsd_m_free E m s
                   in pull_up E head m (len - chunk) (upd_mb head (\<lambda>d. d\<lparr>m_next := m\<rparr>) s)
              else pull_up E head m (len - chunk) s)"

definition lance_first_100 :: "env \<Rightarrow> bsd \<Rightarrow> u32 \<Rightarrow> fb_softc \<Rightarrow> fb_softc option" where
  "lance_first_100 E K head s =
     (if (f_ic s = LANCE \<or> f_ic s = C_LANCE) \<and> m_len (f_mb s head) < 100 \<and> m_next (f_mb s head) \<noteq> 0
      then let len = 100 - m_len (f_mb s head);
               s = (if bk_trailingspace K (f_mb s head) < len
                    then upd_mb head (\<lambda>d. d\<lparr>m_data := m_pktdat d\<rparr>)
                           (ram_copy (m_data (f_mb s head)) (m_pktdat (f_mb s head)) (m_len (f_mb s head)) s)
                    else s)
           in pull_up E head (m_next (f_mb s head)) len s
      else Some s)"

text \<open>One descriptor for every mbuf of the chain; the results are the next slot and the padding.\<close>

partial_function (option) put_mbufs :: "bsd \<Rightarrow> u32 \<Rightarrow> nat \<Rightarrow> int \<Rightarrow> fb_softc \<Rightarrow> (nat \<times> int \<times> fb_softc) option" where
  "put_mbufs K m tmp len s =
     (if m = 0 then Some (tmp, len, s)
      else let s = s\<lparr>f_trans_ring := (f_trans_ring s)[tmp := (f_trans_ring s ! tmp)\<lparr>fre_buff := m\<rparr>]\<rparr>;
               addr = bk_kvtop K (m_data (f_mb s m));
               s = upd_fb_tx tmp (\<lambda>d. d\<lparr>md0 := ucast addr\<rparr>) s;
               s = upd_fb_tx tmp (\<lambda>d. d\<lparr>md1 := ucast (drop_bit 16 addr AND 0xff)\<rparr>) s;
               s = upd_fb_tx tmp (\<lambda>d. d\<lparr>md3 := 0\<rparr>) s;
               s = upd_fb_tx tmp (\<lambda>d. d\<lparr>md2 := of_int (- m_len (f_mb s m))\<rparr>) s;
               s = s\<lparr>f_pending := f_pending s + 1\<rparr>
           in put_mbufs K (m_next (f_mb s m)) (LNC_INC_MD_PTR tmp (f_ntdre s)) (len - m_len (f_mb s m)) s)"

text \<open>Ownership is given from the last descriptor back to the second.\<close>

partial_function (option) own_backwards :: "nat \<Rightarrow> fb_softc \<Rightarrow> fb_softc option" where
  "own_backwards tmp s =
     (if tmp = f_next_to_send s then Some s
      else own_backwards (nat (LNC_DEC_MD_PTR (int tmp) (f_ntdre s))) (upd_fb_tx tmp (\<lambda>d. d\<lparr>md1 := md1 d OR OWN\<rparr>) s))"

definition send_mbufs :: "bsd \<Rightarrow> u32 \<Rightarrow> fb_softc \<Rightarrow> fb_softc option" where
  "send_mbufs K head s = do {
     (end_of_packet, len, s) \<leftarrow> put_mbufs K head (f_next_to_send s) (int ETHER_MIN_LEN) s;
     let tmp = nat (LNC_DEC_MD_PTR (int end_of_packet) (f_ntdre s));
     let s = upd_fb_tx tmp (\<lambda>d. d\<lparr>md1 := md1 d OR ENP\<rparr>) s;
     let s = (if 0 < len then upd_fb_tx tmp (\<lambda>d. d\<lparr>md2 := md2 d - of_int len\<rparr>) s else s);
     s \<leftarrow> own_backwards tmp s;
     let first = f_next_to_send s;
     Some (upd_fb_tx first (\<lambda>d. d\<lparr>md1 := md1 d OR (STP OR OWN)\<rparr>) (s\<lparr>f_next_to_send := end_of_packet\<rparr>))
   }"

definition send_copy :: "u32 \<Rightarrow> fb_softc \<Rightarrow> fb_softc option" where
  "send_copy head s =
     (let s = s\<lparr>f_pending := f_pending s + 1\<rparr>; desc = f_next_to_send s in do {
        (len, s) \<leftarrow> fb_mbuf_to_buffer head (fre_buff (f_trans_ring s ! desc)) 0 s;
        let s = upd_fb_tx desc (\<lambda>d. d\<lparr>md3 := 0\<rparr>) s;
        let s = upd_fb_tx desc (\<lambda>d. d\<lparr>md2 := of_int (- umax len (int (ETHER_MIN_LEN - ETHER_CRC_LEN)))\<rparr>) s;
        let s = upd_fb_tx desc (\<lambda>d. d\<lparr>md1 := md1 d OR (OWN OR STP OR ENP)\<rparr>) s;
        Some (s\<lparr>f_next_to_send := LNC_INC_MD_PTR (f_next_to_send s) (f_ntdre s)\<rparr>)
      })"

text \<open>
  The packet made ready for the ring in the mode that sends mbufs directly; \<open>None\<close> in the first
  component: no cluster, the driver has to be reset.
\<close>

definition fit_chain :: "env \<Rightarrow> bsd \<Rightarrow> u32 \<Rightarrow> fb_softc \<Rightarrow> (u32 option \<times> fb_softc) option" where
  "fit_chain E K head s = do {
     needed \<leftarrow> chain_count head 0 s;
     if needed > int (LNC_NDESC (f_ntdre s)) - f_pending s
     then do { (new, s) \<leftarrow> chain_to_cluster E K head s; Some (if new = 0 then None else Some new, s) }
     else do { s \<leftarrow> lance_first_100 E K head s; Some (Some head, s) }
   }"

partial_function (option) fb_lnc_start :: "env \<Rightarrow> bsd \<Rightarrow> fb_softc \<Rightarrow> fb_softc option" where
  "fb_lnc_start E K s =
     (case fi_snd s of
        [] \<Rightarrow> Some s
      | head # rest \<Rightarrow> do {
          let s = s\<lparr>fi_snd := rest\<rparr>;
          (head, s) \<leftarrow> (if f_mem_mode s = DMA_MBUF then fit_chain E K head s else Some (Some head, s));
          case head of
            None \<Rightarrow> let (go, s) = fb_init_chip E K s in (if go then fb_lnc_start E K s else Some s)
          | Some head \<Rightarrow> do {
              s \<leftarrow> (if f_mem_mode s = DMA_MBUF then send_mbufs K head s else send_copy head s);
              let s = csrWrite16 E (f_rdp s) (TDMD OR INEA) s;
              let s = emit E (Call ''BPF_MTAP'' [head]) (s\<lparr>fi_timer := 2\<rparr>);
              let s = (if f_mem_mode s \<noteq> DMA_MBUF then bsd_m_freem E head s else s);
              if f_pending s < int (LNC_NDESC (f_ntdre s)) then fb_lnc_start E K s
              else Some (s\<lparr>fi_drv_flags := fi_drv_flags s OR bk_IFF_DRV_OACTIVE K\<rparr>)
            }
        })"

definition fb_lnc_init :: "env \<Rightarrow> bsd \<Rightarrow> fb_softc \<Rightarrow> fb_softc option" where
  "fb_lnc_init E K s = (let (go, s) = fb_init_chip E K s in if go then fb_lnc_start E K s else Some s)"

definition fb_lnc_reset :: "env \<Rightarrow> bsd \<Rightarrow> fb_softc \<Rightarrow> fb_softc option" where
  "fb_lnc_reset E K s = fb_lnc_init E K s"

subsection \<open>Reception\<close>

text \<open>The clusters of the packet as a chain, replaced in the ring; 0 when a cluster is missing.\<close>

partial_function (option) chain_loop :: "env \<Rightarrow> bsd \<Rightarrow> nat \<Rightarrow> int \<Rightarrow> fb_softc \<Rightarrow> (bool \<times> fb_softc) option" where
  "chain_loop E K start_of_packet pkt_len s =
     (let m = fre_buff (f_recv_ring s ! start_of_packet);
          s = upd_mb m (\<lambda>d. d\<lparr>m_len := umin (bk_MCLBYTES K - bk_sizeof_pkthdr K) pkt_len\<rparr>) s;
          pkt_len = pkt_len - m_len (f_mb s m);
          (fail, s) = alloc_mbuf_cluster E K start_of_packet s in
      if fail then Some (False, s)
      else let start_of_packet = LNC_INC_MD_PTR start_of_packet (f_nrdre s);
               s = upd_mb m (\<lambda>d. d\<lparr>m_next := fre_buff (f_recv_ring s ! start_of_packet)\<rparr>) s
           in if start_of_packet \<noteq> f_recv_next s then chain_loop E K start_of_packet pkt_len s
              else Some (True, upd_mb m (\<lambda>d. d\<lparr>m_next := 0\<rparr>) s))"

definition chain_mbufs :: "env \<Rightarrow> bsd \<Rightarrow> nat \<Rightarrow> int \<Rightarrow> fb_softc \<Rightarrow> (u32 \<times> fb_softc) option" where
  "chain_mbufs E K start_of_packet pkt_len s =
     (let head = fre_buff (f_recv_ring s ! start_of_packet);
          s = upd_mb head (\<lambda>d. d\<lparr>m_pkthdr := True, m_pkthdr_len := 0, m_rcvif := False\<rparr>) s
      in do { (ok, s) \<leftarrow> chain_loop E K start_of_packet pkt_len s; Some (if ok then head else 0, s) })"

text \<open>A descriptor back to the chip: its status cleared, its buffer address kept.\<close>

definition fb_return_md :: "nat \<Rightarrow> fb_softc \<Rightarrow> fb_softc" where
  "fb_return_md i s =
     (let s = upd_fb_rx i (\<lambda>d. d\<lparr>md1 := md1 d AND HADR\<rparr>) s;
          s = upd_fb_rx i (\<lambda>d. d\<lparr>md1 := md1 d OR OWN\<rparr>) s
      in upd_fb_rx i (\<lambda>d. d\<lparr>md2 := - of_nat RECVBUFSIZE\<rparr>) s)"

text \<open>The mbuf to copy to and the amount; a new mbuf when the last one is full.\<close>

definition copy_space ::
  "env \<Rightarrow> bsd \<Rightarrow> int \<Rightarrow> int \<Rightarrow> u32 \<Rightarrow> u32 \<Rightarrow> fb_softc \<Rightarrow> (u32 \<times> int \<times> u32) option \<times> fb_softc" where
  "copy_space E K pkt_len blen m mbuf_data s =
     (let amount = umin blen (bk_trailingspace K (f_mb s m)) in
      if amount \<noteq> 0 then (Some (m, amount, mbuf_data), s)
      else let (new, s) = MGET E K s in
      if new = 0 then (None, s)
      else let s = (if pkt_len \<ge> bk_MINCLSIZE K then MCLGET E K new s else s);
               s = upd_mb new (\<lambda>d. d\<lparr>m_len := 0\<rparr>) s;
               s = upd_mb m (\<lambda>d. d\<lparr>m_next := new\<rparr>) s
           in (Some (new, umin blen (bk_trailingspace K (f_mb s new)), m_data (f_mb s new)), s))"

partial_function (option) fb_copy_packet ::
  "env \<Rightarrow> bsd \<Rightarrow> u32 \<Rightarrow> nat \<Rightarrow> int \<Rightarrow> int \<Rightarrow> u32 \<Rightarrow> u32 \<Rightarrow> u32 \<Rightarrow> fb_softc \<Rightarrow> (u32 \<times> fb_softc) option" where
  "fb_copy_packet E K head start_of_packet pkt_len blen m data mbuf_data s =
     (if start_of_packet = f_recv_next s then Some (head, s)
      else let blen = (if pkt_len < blen then c_short pkt_len else blen);
               (r, s) = copy_space E K pkt_len blen m mbuf_data s in
      case r of
        None \<Rightarrow> Some (0, bsd_m_freem E head s)
      | Some (m, amount, mbuf_data) \<Rightarrow>
          let s = ram_copy data mbuf_data amount s;
              blen = c_short (blen - amount);
              pkt_len = pkt_len - amount;
              s = upd_mb m (\<lambda>d. d\<lparr>m_len := m_len d + amount\<rparr>) s;
              data = data + of_int amount;
              mbuf_data = mbuf_data + of_int amount
          in if blen = 0
             then let s = fb_return_md start_of_packet s;
                      start_of_packet = LNC_INC_MD_PTR start_of_packet (f_nrdre s)
                  in fb_copy_packet E K head start_of_packet pkt_len (int RECVBUFSIZE) m
                       (fre_buff (f_recv_ring s ! start_of_packet)) mbuf_data s
             else fb_copy_packet E K head start_of_packet pkt_len blen m data mbuf_data s)"

definition fb_mbuf_packet :: "env \<Rightarrow> bsd \<Rightarrow> nat \<Rightarrow> int \<Rightarrow> fb_softc \<Rightarrow> (u32 \<times> fb_softc) option" where
  "fb_mbuf_packet E K start_of_packet pkt_len s =
     (let (head, s) = MGETHDR E K s in
      if head = 0 then Some (0, s)
      else let s = upd_mb head (\<lambda>d. d\<lparr>m_len := 0\<rparr>) s
           in fb_copy_packet E K head start_of_packet pkt_len (int RECVBUFSIZE) head
                (fre_buff (f_recv_ring s ! start_of_packet)) (m_data (f_mb s head)) s)"

text \<open>How one pass of a packet loop ends.\<close>

datatype fb_outcome = FbReset fb_softc | FbBreak fb_softc | FbNext fb_softc

definition fb_out_reset :: "env \<Rightarrow> bsd \<Rightarrow> fb_softc \<Rightarrow> fb_outcome option" where
  "fb_out_reset E K s = do { s \<leftarrow> fb_lnc_reset E K s; Some (FbReset s) }"

definition fb_rint_find_end :: "env \<Rightarrow> bsd \<Rightarrow> nat \<Rightarrow> u16 \<Rightarrow> fb_softc \<Rightarrow> (fb_outcome + u16 \<times> fb_softc) option" where
  "fb_rint_find_end E K lookahead fl s =
     (let start_of_packet = f_recv_next s in
      if has fl (ENP OR MDERR) then Some (Inr (fl, s))
      else do {
        i \<leftarrow> find_where (\<lambda>i. has (md1 (fb_rx_md s i)) (STP OR OWN OR ENP OR MDERR)) (f_nrdre s) start_of_packet;
        let s = s\<lparr>f_recv_next := i\<rparr>;
        let fl = md1 (fb_rx_md s i);
        if has fl STP then do { r \<leftarrow> fb_out_reset E K s; Some (Inl r) }
        else if has fl OWN
        then if lookahead \<noteq> 0 then Some (Inl (FbBreak (s\<lparr>f_recv_next := start_of_packet\<rparr>)))
             else do { r \<leftarrow> fb_out_reset E K s; Some (Inl r) }
        else Some (Inr (fl, s))
      })"

definition fb_drop_md :: "nat \<Rightarrow> fb_softc \<Rightarrow> fb_softc" where
  "fb_drop_md i s =
     (let s = upd_fb_rx i (\<lambda>d. d\<lparr>md2 := - of_nat RECVBUFSIZE\<rparr>) s;
          s = upd_fb_rx i (\<lambda>d. d\<lparr>md1 := md1 d AND HADR\<rparr>) s
      in upd_fb_rx i (\<lambda>d. d\<lparr>md1 := md1 d OR OWN\<rparr>) s)"

text \<open>The source address is bytes 6 to 11 at the start of the data.\<close>

definition fb_deliver :: "env \<Rightarrow> u32 \<Rightarrow> int \<Rightarrow> fb_softc \<Rightarrow> fb_softc" where
  "fb_deliver E head pkt_len s =
     (if head = 0 then s
      else let s = upd_mb head (\<lambda>d. d\<lparr>m_rcvif := True, m_pkthdr_len := pkt_len\<rparr>) s;
               shost = map (\<lambda>k. ram (mem s) (m_data (f_mb s head) + of_nat k)) [6..<12]
           in if shost = take ETHER_ADDR_LEN (fi_enaddr s) then bsd_m_freem E head s
              else emit E (Call ''if_input'' [head]) s)"

definition fb_rint_packet :: "env \<Rightarrow> bsd \<Rightarrow> nat \<Rightarrow> u16 \<Rightarrow> fb_softc \<Rightarrow> fb_outcome option" where
  "fb_rint_packet E K lookahead fl s =
     (let start_of_packet = f_recv_next s in do {
        r \<leftarrow> fb_rint_find_end E K lookahead fl s;
        case r of
          Inl out \<Rightarrow> Some out
        | Inr (fl, s) \<Rightarrow>
            (let pkt_len = int (unat (md3 (fb_rx_md s (f_recv_next s)) AND MCNT)) - FCS_LEN;
                 s = s\<lparr>f_recv_next := LNC_INC_MD_PTR (f_recv_next s) (f_nrdre s)\<rparr>
             in if has fl MDERR
                then do {
                  s \<leftarrow> while_ring fb_drop_md (f_nrdre s) start_of_packet (f_recv_next s) (s\<lparr>fi_ierrors := fi_ierrors s + 1\<rparr>);
                  Some (FbNext s)
                }
                else do {
                  let s = s\<lparr>fi_ipackets := fi_ipackets s + 1\<rparr>;
                  (head, s) \<leftarrow> (if f_mem_mode s = DMA_MBUF then chain_mbufs E K start_of_packet pkt_len s
                                else fb_mbuf_packet E K start_of_packet pkt_len s);
                  Some (FbNext (fb_deliver E head pkt_len s))
                })
      })"

partial_function (option) fb_rint_loop :: "env \<Rightarrow> bsd \<Rightarrow> nat \<Rightarrow> fb_softc \<Rightarrow> (bool \<times> fb_softc) option" where
  "fb_rint_loop E K lookahead s =
     (let fl = md1 (fb_rx_md s (f_recv_next s)) in
      if \<not> has fl STP then Some (True, s)
      else do {
        r \<leftarrow> fb_rint_packet E K lookahead fl s;
        case r of
          FbReset s \<Rightarrow> Some (False, s)
        | FbBreak s \<Rightarrow> Some (True, s)
        | FbNext s \<Rightarrow> fb_rint_loop E K (lookahead + 1) s
      })"

definition fb_lnc_rint :: "env \<Rightarrow> bsd \<Rightarrow> fb_softc \<Rightarrow> fb_softc option" where
  "fb_lnc_rint E K s = do {
     (finished, s) \<leftarrow> fb_rint_loop E K 0 s;
     Some (if finished then csrWrite16 E (f_rdp s) (RINT OR INEA) s else s)
   }"

subsection \<open>The transmit interrupt\<close>

definition fb_tint_find_end :: "env \<Rightarrow> bsd \<Rightarrow> nat \<Rightarrow> fb_softc \<Rightarrow> fb_outcome option" where
  "fb_tint_find_end E K lookahead s =
     (let start_of_packet = f_trans_next s in
      if has (md1 (fb_tx_md s start_of_packet)) (ENP OR MDERR) then Some (FbNext s)
      else do {
        i \<leftarrow> find_where (\<lambda>i. has (md1 (fb_tx_md s i)) (STP OR OWN OR ENP OR MDERR)) (f_ntdre s) start_of_packet;
        let s = s\<lparr>f_trans_next := i\<rparr>;
        if has (md1 (fb_tx_md s i)) STP then fb_out_reset E K s
        else if has (md1 (fb_tx_md s i)) OWN
        then if lookahead \<noteq> 0 then Some (FbBreak (s\<lparr>f_trans_next := start_of_packet\<rparr>)) else fb_out_reset E K s
        else Some (FbNext s)
      })"

definition clear_tbuff :: "fb_softc \<Rightarrow> fb_softc" where
  "clear_tbuff s = upd_fb_tx (f_trans_next s) (\<lambda>d. d\<lparr>md3 := md3 d AND NOT TBUFF\<rparr>) s"

definition fb_tint_error :: "env \<Rightarrow> bsd \<Rightarrow> fb_softc \<Rightarrow> fb_outcome option" where
  "fb_tint_error E K s =
     (let next = f_trans_next s;
          s = s\<lparr>fi_oerrors := fi_oerrors s + 1\<rparr>;
          s = (if has (md3 (fb_tx_md s next)) LCOL then clear_tbuff (s\<lparr>fi_collisions := fi_collisions s + 1\<rparr>) else s);
          s = (if has (md3 (fb_tx_md s next)) RTRY then clear_tbuff (s\<lparr>fi_collisions := fi_collisions s + 16\<rparr>) else s)
      in if has (md3 (fb_tx_md s next)) UFLO then fb_out_reset E K s
         else do {
           i \<leftarrow> find_where (\<lambda>i. has (md1 (fb_tx_md s i)) STP \<or> i = f_next_to_send s) (f_ntdre s) next;
           Some (FbNext (s\<lparr>f_trans_next := i\<rparr>))
         })"

definition fb_tint_sent :: "fb_softc \<Rightarrow> fb_softc" where
  "fb_tint_sent s =
     (let fl = md1 (fb_tx_md s (f_trans_next s));
          s = s\<lparr>fi_opackets := fi_opackets s + 1\<rparr>;
          s = (if has fl MORE then s\<lparr>fi_collisions := fi_collisions s + 2\<rparr> else s);
          s = (if has fl ONE then s\<lparr>fi_collisions := fi_collisions s + 1\<rparr> else s)
      in s\<lparr>f_trans_next := LNC_INC_MD_PTR (f_trans_next s) (f_ntdre s)\<rparr>)"

text \<open>A sent cluster goes into the cache of the driver, whose limit is 0, or is freed.\<close>

definition recycle_mbuf :: "env \<Rightarrow> nat \<Rightarrow> fb_softc \<Rightarrow> fb_softc" where
  "recycle_mbuf E i s =
     (let m = fre_buff (f_trans_ring s ! i);
          s = (if m_ext (f_mb s m) \<and> f_mbuf_count s < MBUF_CACHE_LIMIT
               then let s = (if f_mbuf_count s \<noteq> 0 then upd_mb m (\<lambda>d. d\<lparr>m_next := f_mbufs s\<rparr>) s else s)
                    in s\<lparr>f_mbufs := m, f_mbuf_count := f_mbuf_count s + 1\<rparr>
               else snd (bsd_m_free E m s))
      in s\<lparr>f_trans_ring := (f_trans_ring s)[i := (f_trans_ring s ! i)\<lparr>fre_buff := 0\<rparr>]\<rparr>)"

definition fb_clear_md :: "env \<Rightarrow> nat \<Rightarrow> fb_softc \<Rightarrow> fb_softc" where
  "fb_clear_md E i s =
     (let s = upd_fb_tx i (\<lambda>d. d\<lparr>md1 := md1 d AND HADR\<rparr>) s;
          s = (if f_mem_mode s = DMA_MBUF then recycle_mbuf E i s else s)
      in s\<lparr>f_pending := f_pending s - 1\<rparr>)"

definition fb_tint_packet :: "env \<Rightarrow> bsd \<Rightarrow> nat \<Rightarrow> fb_softc \<Rightarrow> fb_outcome option" where
  "fb_tint_packet E K lookahead s =
     (let start_of_packet = f_trans_next s in do {
        r \<leftarrow> fb_tint_find_end E K lookahead s;
        case r of
          FbNext s \<Rightarrow> do {
            r \<leftarrow> (if has (md1 (fb_tx_md s (f_trans_next s))) MDERR then fb_tint_error E K s
                 else Some (FbNext (fb_tint_sent s)));
            case r of
              FbNext s \<Rightarrow> do {
                s \<leftarrow> do_ring (fb_clear_md E) (f_ntdre s) start_of_packet (f_trans_next s) s;
                Some (FbNext (s\<lparr>fi_drv_flags := fi_drv_flags s AND NOT (bk_IFF_DRV_OACTIVE K)\<rparr>))
              }
            | _ \<Rightarrow> Some r
          }
        | _ \<Rightarrow> Some r
      })"

partial_function (option) fb_tint_loop :: "env \<Rightarrow> bsd \<Rightarrow> nat \<Rightarrow> fb_softc \<Rightarrow> (bool \<times> fb_softc) option" where
  "fb_tint_loop E K lookahead s = do {
     r \<leftarrow> fb_tint_packet E K lookahead s;
     case r of
       FbReset s \<Rightarrow> Some (False, s)
     | FbBreak s \<Rightarrow> Some (True, s)
     | FbNext s \<Rightarrow>
         if f_pending s \<noteq> 0 \<and> \<not> has (md1 (fb_tx_md s (f_trans_next s))) OWN
         then fb_tint_loop E K (lookahead + 1) s
         else Some (True, s)
   }"

definition fb_lnc_tint :: "env \<Rightarrow> bsd \<Rightarrow> fb_softc \<Rightarrow> fb_softc option" where
  "fb_lnc_tint E K s = do {
     (finished, s) \<leftarrow> fb_tint_loop E K 0 s;
     Some (if finished then csrWrite16 E (f_rdp s) (TINT OR INEA) s else s)
   }"

subsection \<open>The interrupt handler\<close>

definition fb_intr_errors :: "u16 \<Rightarrow> fb_softc \<Rightarrow> fb_softc" where
  "fb_intr_errors csr0 s =
     (let s = (if has csr0 BABL then s\<lparr>fi_oerrors := fi_oerrors s + 1\<rparr> else s)
      in if has csr0 MISS then s\<lparr>fi_ierrors := fi_ierrors s + 1\<rparr> else s)"

definition fb_intr_pass :: "env \<Rightarrow> bsd \<Rightarrow> u16 \<Rightarrow> fb_softc \<Rightarrow> fb_softc option" where
  "fb_intr_pass E K csr0 s =
     (let s = (if has csr0 ERR then fb_intr_errors csr0 s else s) in
      if has csr0 ERR \<and> has csr0 MERR then fb_lnc_reset E K s
      else do {
        s \<leftarrow> (if has csr0 RINT then fb_lnc_rint E K s else Some s);
        s \<leftarrow> (if has csr0 TINT then fb_lnc_tint E K (s\<lparr>fi_timer := 0\<rparr>) else Some s);
        if has (fi_drv_flags s) (bk_IFF_DRV_OACTIVE K) then Some s else fb_lnc_start E K s
      })"

partial_function (option) lncintr :: "env \<Rightarrow> bsd \<Rightarrow> fb_softc \<Rightarrow> fb_softc option" where
  "lncintr E K s =
     (let (csr0, s) = csrRead16 E (f_rdp s) s in
      if \<not> has csr0 INTR then Some s
      else do { s \<leftarrow> fb_intr_pass E K csr0 (csrWrite16 E (f_rdp s) csr0 s); lncintr E K s })"

subsection \<open>Interface calls\<close>

datatype if_command = SIOCSIFFLAGS | SIOCADDMULTI | SIOCDELMULTI | OtherCommand

definition ioctl_promisc :: "env \<Rightarrow> bsd \<Rightarrow> fb_softc \<Rightarrow> fb_softc option" where
  "ioctl_promisc E K s =
     (if has (fi_flags s) (bk_IFF_PROMISC K)
      then if \<not> has (f_mode s) PROM then fb_lnc_init E K (s\<lparr>f_mode := f_mode s OR PROM\<rparr>) else Some s
      else if has (f_mode s) PROM then fb_lnc_init E K (s\<lparr>f_mode := f_mode s AND NOT PROM\<rparr>) else Some s)"

definition ioctl_allmulti :: "env \<Rightarrow> bsd \<Rightarrow> fb_softc \<Rightarrow> fb_softc option" where
  "ioctl_allmulti E K s =
     (if has (fi_flags s) (bk_IFF_ALLMULTI K) \<and> \<not> has (f_flags s) FB_ALLMULTI
      then fb_lnc_init E K (s\<lparr>f_flags := f_flags s OR FB_ALLMULTI\<rparr>)
      else if \<not> has (fi_flags s) (bk_IFF_ALLMULTI K) \<and> has (f_flags s) FB_ALLMULTI
      then fb_lnc_init E K (s\<lparr>f_flags := f_flags s AND NOT FB_ALLMULTI\<rparr>)
      else Some s)"

definition ioctl_updown :: "env \<Rightarrow> bsd \<Rightarrow> fb_softc \<Rightarrow> fb_softc option" where
  "ioctl_updown E K s =
     (let up = has (fi_flags s) (bk_IFF_UP K); running = has (fi_drv_flags s) (bk_IFF_DRV_RUNNING K) in
      if \<not> up \<and> running
      then let s = fb_lnc_stop E s in Some (s\<lparr>fi_drv_flags := fi_drv_flags s AND NOT (bk_IFF_DRV_RUNNING K)\<rparr>)
      else if up \<and> \<not> running then fb_lnc_init E K s else Some s)"

definition lnc_ioctl :: "env \<Rightarrow> bsd \<Rightarrow> if_command \<Rightarrow> fb_softc \<Rightarrow> (int \<times> fb_softc) option" where
  "lnc_ioctl E K command s =
     (case command of
        SIOCSIFFLAGS \<Rightarrow> do {
          s \<leftarrow> ioctl_promisc E K s; s \<leftarrow> ioctl_allmulti E K s; s \<leftarrow> ioctl_updown E K s; Some (0, s) }
      | SIOCADDMULTI \<Rightarrow> do { s \<leftarrow> fb_lnc_init E K s; Some (0, s) }
      | SIOCDELMULTI \<Rightarrow> do { s \<leftarrow> fb_lnc_init E K s; Some (0, s) }
      | OtherCommand \<Rightarrow> Some (bk_ether_ioctl K (trace s), emit E (Kernel ''ether_ioctl'') s))"

definition fb_lnc_watchdog :: "env \<Rightarrow> bsd \<Rightarrow> fb_softc \<Rightarrow> fb_softc option" where
  "fb_lnc_watchdog E K s = fb_lnc_reset E K (s\<lparr>fi_oerrors := fi_oerrors s + 1\<rparr>)"

subsection \<open>Attachment\<close>

fun read_eaddr :: "env \<Rightarrow> nat \<Rightarrow> nat list \<Rightarrow> fb_softc \<Rightarrow> u8 list \<times> fb_softc" where
  "read_eaddr E skip [] s = ([], s)"
| "read_eaddr E skip (i # is) s =
     (let (b, s) = csrRead8 E (of_nat (i * skip)) s; (bs, s) = read_eaddr E skip is s in (b # bs, s))"

text \<open>The result is the C truth value; \<^verbatim>\<open>ether_ifattach\<close> records the address.\<close>

definition fb_lnc_attach_common :: "env \<Rightarrow> bsd \<Rightarrow> fb_softc \<Rightarrow> bool \<times> fb_softc" where
  "fb_lnc_attach_common E K s =
     (let skip = (if f_ident s = BICC \<or> f_ident s = CNET98S then 2 else 1);
          s = s\<lparr>f_mode := 0\<rparr>;
          (ok, s) = os_call E (Kernel ''if_alloc'') s;
          s = s\<lparr>f_ifp := ok\<rparr> in
      if \<not> ok then (False, s)
      else let s = s\<lparr>fi_flags := bk_IFF_BROADCAST K OR bk_IFF_SIMPLEX K OR bk_IFF_MULTICAST K OR bk_IFF_NEEDSGIANT K,
                     fi_timer := 0\<rparr>;
               (eaddr, s) = read_eaddr E skip [0..<ETHER_ADDR_LEN] s
           in (True, (emit E (Kernel ''ether_ifattach'') s)\<lparr>fi_enaddr := eaddr\<rparr>))"

definition lnc_detach_common :: "env \<Rightarrow> fb_softc \<Rightarrow> fb_softc" where
  "lnc_detach_common E s =
     (let s = emit E (Kernel ''if_free'') (emit E (Kernel ''ether_ifdetach'') s)
      in fb_lnc_release_resources E (fb_lnc_stop E s))"

datatype fb_ret = FbOk | ENXIO | FB_ENOMEM

text \<open>\<^verbatim>\<open>BUS_PROBE_DEFAULT\<close> is the success of a probe.\<close>

definition lnc_pci_probe :: "u16 \<Rightarrow> u16 \<Rightarrow> fb_ret" where
  "lnc_pci_probe vendor device =
     (if vendor \<noteq> 0x1022 then ENXIO else if device = 0x2000 \<or> device = 0x2001 then FbOk else ENXIO)"

definition fb_mem_size :: "nat \<Rightarrow> nat \<Rightarrow> nat" where
  "fb_mem_size r t =
     (LNC_NDESC r + LNC_NDESC t) * sizeof_host_ring_entry +
     (sizeof_lance_block + sizeof_lance_mds * (LNC_NDESC r + LNC_NDESC t) + MEM_SLEW) +
     (LNC_NDESC r * RECVBUFSIZE + LNC_NDESC t * TRANSBUFSIZE)"

definition fb_nic_setup :: "fb_softc \<Rightarrow> fb_softc" where
  "fb_nic_setup s = s\<lparr>f_ic := PCnet_PCI, f_ident := NE2100, f_mem_mode := DMA_FIXED, f_nrdre := NRDRE, f_ntdre := NTDRE,
     f_rap := PCNET_RAP, f_rdp := PCNET_RDP, f_bdp := PCNET_BDP\<rparr>"

text \<open>The memory of the rings as the kernel hands it over.\<close>

definition fb_ring_memory :: "bsd \<Rightarrow> fb_softc \<Rightarrow> fb_softc" where
  "fb_ring_memory K s =
     s\<lparr>f_dmamap := True, f_ring_base := bk_dmamem K (trace s),
       f_recv_ring := map (bk_entry K (trace s)) [0..<LNC_NDESC (f_nrdre s)],
       f_trans_ring := map (bk_entry K (trace s)) [LNC_NDESC (f_nrdre s)..<LNC_NDESC (f_nrdre s) + LNC_NDESC (f_ntdre s)]\<rparr>"

definition fb_lnc_pci_attach :: "env \<Rightarrow> bsd \<Rightarrow> fb_softc \<Rightarrow> fb_ret \<times> fb_softc" where
  "fb_lnc_pci_attach E K s =
     (let command = bk_pci_command K (trace s) OR (bk_PCIM_CMD_PORTEN K OR bk_PCIM_CMD_BUSMASTEREN K);
          s = emit E (Call ''pci_write_config'' [command]) s;
          (ok, s) = os_call E (Kernel ''bus_alloc_ioport'') s;
          s = s\<lparr>f_portres := ok\<rparr> in
      if \<not> ok then (ENXIO, fb_lnc_release_resources E s)
      else let (ok, s) = os_call E (Kernel ''bus_alloc_irq'') s;
               s = s\<lparr>f_irqres := ok\<rparr> in
      if \<not> ok then (ENXIO, fb_lnc_release_resources E s)
      else let (ok, s) = os_call E (Kernel ''bus_setup_intr'') s in
      if \<not> ok then (ENXIO, fb_lnc_release_resources E s)
      else let s = fb_nic_setup s;
               (ok, s) = os_call E (Call ''bus_dma_tag_create'' [of_nat (fb_mem_size (f_nrdre s) (f_ntdre s))]) s;
               s = s\<lparr>f_dmat := ok\<rparr> in
      if \<not> ok then (FB_ENOMEM, fb_lnc_release_resources E s)
      else let (ok, s) = os_call E (Kernel ''bus_dmamem_alloc'') s in
      if \<not> ok then (FB_ENOMEM, fb_lnc_release_resources E s)
      else let s = emit E (Kernel ''bus_dmamap_load'') (fb_ring_memory K s);
               (ok, s) = fb_lnc_attach_common E K s in
      if \<not> ok then (ENXIO, fb_lnc_release_resources E s) else (FbOk, s))"

end
