(* ===== verification/Fbsd_Facts.thy ===== *)
theory Fbsd_Facts
  imports Fbsd_Net Layout Rx_Facts
begin

text \<open>
  Facts on the FreeBSD driver: the memory its attachment allocates is enough for what its
  initialisation carves out of it, a failed attachment releases what it acquired, detaching what it holds, its
  multicast filter is that of the port, and its transmit interrupt has the port's endless scan.
\<close>

unbundle bit_operations_syntax

subsection \<open>The memory layout\<close>

definition fb_areas :: "fb_softc \<Rightarrow> (u32 \<times> nat) list" where
  "fb_areas s =
     [(f_ring_base s, sizeof_host_ring_entry * LNC_NDESC (f_nrdre s)),
      (f_ring_base s + of_nat (sizeof_host_ring_entry * LNC_NDESC (f_nrdre s)), sizeof_host_ring_entry * LNC_NDESC (f_ntdre s)),
      (f_init_block_addr s, sizeof_lance_block)]
     @ map (\<lambda>e. (fre_md e, sizeof_lance_mds)) (f_recv_ring s)
     @ map (\<lambda>e. (fre_md e, sizeof_lance_mds)) (f_trans_ring s)
     @ map (\<lambda>e. (fre_buff e, RECVBUFSIZE)) (f_recv_ring s)
     @ map (\<lambda>e. (fre_buff e, TRANSBUFSIZE)) (f_trans_ring s)"

text \<open>The part of \<open>lnc_init\<close> that carves the memory, in the mode the PCI attachment selects.\<close>

definition fb_layout :: "bsd \<Rightarrow> fb_softc \<Rightarrow> fb_softc" where
  "fb_layout K s = (let (p, s) = fb_carve_mds s in fb_fixed_rings K p s)"

lemma upd_fb_sel [simp]:
  "f_recv_ring (upd_fb_rx i f s) = f_recv_ring s" "f_trans_ring (upd_fb_rx i f s) = f_trans_ring s"
  "f_recv_ring (upd_fb_tx i f s) = f_recv_ring s" "f_trans_ring (upd_fb_tx i f s) = f_trans_ring s"
  "f_ring_base (upd_fb_rx i f s) = f_ring_base s" "f_ring_base (upd_fb_tx i f s) = f_ring_base s"
  "f_init_block_addr (upd_fb_rx i f s) = f_init_block_addr s" "f_init_block_addr (upd_fb_tx i f s) = f_init_block_addr s"
  "f_nrdre (upd_fb_rx i f s) = f_nrdre s" "f_ntdre (upd_fb_rx i f s) = f_ntdre s"
  "f_nrdre (upd_fb_tx i f s) = f_nrdre s" "f_ntdre (upd_fb_tx i f s) = f_ntdre s"
  by (simp_all add: upd_fb_rx_def upd_fb_tx_def upd_lmds_def)

abbreviation same_geometry :: "fb_softc \<Rightarrow> fb_softc \<Rightarrow> bool" where
  "same_geometry s t \<equiv> f_ring_base t = f_ring_base s \<and> f_init_block_addr t = f_init_block_addr s \<and>
     f_nrdre t = f_nrdre s \<and> f_ntdre t = f_ntdre s"

definition set_buffs :: "fb_entry list \<Rightarrow> u32 list \<Rightarrow> fb_entry list" where
  "set_buffs es ps = map2 (\<lambda>e p. e\<lparr>fre_buff := p\<rparr>) (take (length ps) es) ps @ drop (length ps) es"

lemma length_set_buffs [simp]: "length ps \<le> length es \<Longrightarrow> length (set_buffs es ps) = length es"
  by (simp add: set_buffs_def)

lemma set_buffs_nth:
  "length ps \<le> length es \<Longrightarrow> j < length es \<Longrightarrow>
     set_buffs es ps ! j = (if j < length ps then (es ! j)\<lparr>fre_buff := ps ! j\<rparr> else es ! j)"
  by (simp add: set_buffs_def nth_append)

lemma set_buffs_snoc:
  assumes "length ps < length es"
  shows "(set_buffs es ps)[length ps := (set_buffs es ps ! length ps)\<lparr>fre_buff := p\<rparr>] = set_buffs es (ps @ [p])"
proof (rule nth_equalityI)
  fix j assume "j < length ((set_buffs es ps)[length ps := (set_buffs es ps ! length ps)\<lparr>fre_buff := p\<rparr>])"
  then have "j < length es" using assms by simp
  then show "(set_buffs es ps)[length ps := (set_buffs es ps ! length ps)\<lparr>fre_buff := p\<rparr>] ! j = set_buffs es (ps @ [p]) ! j"
    using assms by (cases "j < length ps"; cases "j = length ps") (simp_all add: set_buffs_nth nth_append)
qed (use assms in simp)

lemma fold_fixed_rx:
  "length ps \<le> length (f_recv_ring s) \<Longrightarrow>
     f_recv_ring (fold (fixed_rx_md K) (zip [0..<length ps] ps) s) = set_buffs (f_recv_ring s) ps \<and>
     f_trans_ring (fold (fixed_rx_md K) (zip [0..<length ps] ps) s) = f_trans_ring s \<and>
     same_geometry s (fold (fixed_rx_md K) (zip [0..<length ps] ps) s)"
proof (induction ps rule: rev_induct)
  case (snoc p ps)
  let ?t = "fold (fixed_rx_md K) (zip [0..<length ps] ps) s"
  have "zip [0..<length (ps @ [p])] (ps @ [p]) = zip [0..<length ps] ps @ [(length ps, p)]" by simp
  then have f: "fold (fixed_rx_md K) (zip [0..<length (ps @ [p])] (ps @ [p])) s = fixed_rx_md K (length ps, p) ?t"
    by simp
  show ?case unfolding f using snoc set_buffs_snoc[of ps "f_recv_ring s" p]
    by (simp add: fixed_rx_md_def Let_def)
qed (simp add: set_buffs_def)

lemma fold_fixed_tx:
  "length ps \<le> length (f_trans_ring s) \<Longrightarrow>
     f_trans_ring (fold (fixed_tx_md K) (zip [0..<length ps] ps) s) = set_buffs (f_trans_ring s) ps \<and>
     f_recv_ring (fold (fixed_tx_md K) (zip [0..<length ps] ps) s) = f_recv_ring s \<and>
     same_geometry s (fold (fixed_tx_md K) (zip [0..<length ps] ps) s)"
proof (induction ps rule: rev_induct)
  case (snoc p ps)
  let ?t = "fold (fixed_tx_md K) (zip [0..<length ps] ps) s"
  have "zip [0..<length (ps @ [p])] (ps @ [p]) = zip [0..<length ps] ps @ [(length ps, p)]" by simp
  then have f: "fold (fixed_tx_md K) (zip [0..<length (ps @ [p])] (ps @ [p])) s = fixed_tx_md K (length ps, p) ?t"
    by simp
  show ?case unfolding f using snoc set_buffs_snoc[of ps "f_trans_ring s" p]
    by (simp add: fixed_tx_md_def Let_def)
qed (simp add: set_buffs_def)

lemma map_set_buffs:
  assumes "length ps = length es"
  shows "map fre_md (set_buffs es ps) = map fre_md es" "map fre_buff (set_buffs es ps) = ps"
  using assms by (auto simp: set_buffs_def intro!: nth_equalityI)

lemma map_set_mds: "length as = length es \<Longrightarrow> map fre_md (set_mds es as) = as" "length (set_mds es as) = min (length es) (length as)"
  by (auto simp: set_mds_def intro!: nth_equalityI)

lemma fb_layout_rings:
  fixes K :: bsd and s :: fb_softc
  assumes "length (f_recv_ring s) = LNC_NDESC (f_nrdre s)" "length (f_trans_ring s) = LNC_NDESC (f_ntdre s)"
  defines "R \<equiv> LNC_NDESC (f_nrdre s)" and "T \<equiv> LNC_NDESC (f_ntdre s)" and "t \<equiv> fb_layout K s"
    and "ib \<equiv> fb_lnc_mem s AND NOT 1"
  defines "d \<equiv> (ib + of_nat sizeof_lance_block + 7) AND NOT 7"
  shows "f_init_block_addr t = ib \<and> f_ring_base t = f_ring_base s \<and> f_nrdre t = f_nrdre s \<and> f_ntdre t = f_ntdre s \<and>
    map fre_md (f_recv_ring t) = map (\<lambda>i. d + of_nat (i * 8)) [0..<R] \<and>
    map fre_md (f_trans_ring t) = map (\<lambda>i. d + of_nat (R * 8 + i * 8)) [0..<T] \<and>
    map fre_buff (f_recv_ring t) = map (\<lambda>i. d + of_nat (R * 8 + T * 8 + i * RECVBUFSIZE)) [0..<R] \<and>
    map fre_buff (f_trans_ring t) = map (\<lambda>i. d + of_nat (R * 8 + T * 8 + R * RECVBUFSIZE + i * TRANSBUFSIZE)) [0..<T]"
proof -
  let ?ras = "map (\<lambda>i. d + of_nat (i * 8)) [0..<R]" and ?tas = "map (\<lambda>i. d + of_nat (R * 8 + i * 8)) [0..<T]"
  let ?rbs = "map (\<lambda>i. d + of_nat (R * 8 + T * 8 + i * RECVBUFSIZE)) [0..<R]"
  let ?tbs = "map (\<lambda>i. d + of_nat (R * 8 + T * 8 + R * RECVBUFSIZE + i * TRANSBUFSIZE)) [0..<T]"
  let ?u = "s\<lparr>f_recv_next := 0, f_trans_next := 0, f_init_block_addr := ib,
            f_recv_ring := set_mds (f_recv_ring s) ?ras, f_trans_ring := set_mds (f_trans_ring s) ?tas\<rparr>"
  let ?p = "d + of_nat (R * 8 + T * 8)"
  have c: "fb_carve_mds s = (?p, ?u)"
    unfolding fb_carve_mds_def Let_def ib_def[symmetric] d_def[symmetric] R_def[symmetric] T_def[symmetric]
    by (simp add: carve_eq sizeof_lance_mds_def add.assoc)
  have rb: "carve ?p RECVBUFSIZE R = (?rbs, ?p + of_nat (R * RECVBUFSIZE))"
    "carve (?p + of_nat (R * RECVBUFSIZE)) TRANSBUFSIZE T = (?tbs, ?p + of_nat (R * RECVBUFSIZE) + of_nat (T * TRANSBUFSIZE))"
    by (simp_all add: carve_eq add.assoc)
  let ?v = "fold (fixed_rx_md K) (zip [0..<R] ?rbs) ?u"
  have lu: "length (f_recv_ring ?u) = R" "length (f_trans_ring ?u) = T"
    using assms(1,2) by (simp_all add: map_set_mds R_def T_def)
  have v: "f_recv_ring ?v = set_buffs (f_recv_ring ?u) ?rbs \<and> f_trans_ring ?v = f_trans_ring ?u \<and> same_geometry ?u ?v"
    using fold_fixed_rx[of ?rbs ?u K] lu by simp
  have n: "f_nrdre ?u = f_nrdre s" "f_ntdre ?u = f_ntdre s" "f_ntdre ?v = f_ntdre s" using v by simp_all
  have t: "t = fold (fixed_tx_md K) (zip [0..<T] ?tbs) ?v"
    unfolding t_def fb_layout_def c
    by (simp only: Let_def prod.case fb_fixed_rings_def n R_def[symmetric] T_def[symmetric] rb)
  have w: "f_trans_ring t = set_buffs (f_trans_ring ?v) ?tbs \<and> f_recv_ring t = f_recv_ring ?v \<and> same_geometry ?v t"
    using fold_fixed_tx[of ?tbs ?v K] v lu unfolding t by simp
  show ?thesis
    using v w lu map_set_buffs[of ?rbs "f_recv_ring ?u"] map_set_buffs[of ?tbs "f_trans_ring ?u"]
      map_set_mds(1)[of ?ras "f_recv_ring s"] map_set_mds(1)[of ?tas "f_trans_ring s"] assms(1,2)
    by (simp add: R_def[symmetric] T_def[symmetric])
qed

lemma fb_areas_chain:
  assumes "length (f_recv_ring s) = LNC_NDESC (f_nrdre s)" "length (f_trans_ring s) = LNC_NDESC (f_ntdre s)"
    "f_mem_mode s \<noteq> SHMEM"
  shows "\<exists>items. fb_areas (fb_layout K s) = map (\<lambda>(off, len). (f_ring_base s + of_nat off, len)) items \<and>
     chain 0 items (fb_mem_size (f_nrdre s) (f_ntdre s))"
proof -
  define R where "R = LNC_NDESC (f_nrdre s)"
  define T where "T = LNC_NDESC (f_ntdre s)"
  define b where "b = f_ring_base s"
  obtain a where a: "a \<le> 1" "((b + of_nat (8 * (R + T))) + 1) AND NOT 1 = (b + of_nat (8 * (R + T))) + of_nat a"
    using align_up[where x = "b + of_nat (8 * (R + T))" and m = 1] unfolding unat_1 by blast
  have ib: "fb_lnc_mem s AND NOT 1 = b + of_nat (8 * (R + T) + a)"
  proof -
    have "fb_lnc_mem s = ((b + of_nat (8 * (R + T))) + 1) AND NOT 1"
      using assms(3) by (simp only: fb_lnc_mem_def Let_def if_False b_def R_def T_def sizeof_host_ring_entry_def)
    then have "fb_lnc_mem s AND NOT 1 = ((b + of_nat (8 * (R + T))) + 1) AND NOT 1"
      by (simp only: and.assoc and.idem)
    with a(2) show ?thesis by (simp only: of_nat_add add.assoc)
  qed
  have u7: "unat (7 :: u32) = 7" by simp
  obtain c where c: "c \<le> 7" "((b + of_nat (8 * (R + T) + a + 24)) + 7) AND NOT 7 = (b + of_nat (8 * (R + T) + a + 24)) + of_nat c"
    using align_up[where x = "b + of_nat (8 * (R + T) + a + 24)" and m = 7] unfolding u7 by blast
  let ?D = "8 * (R + T) + a + 24 + c"
  have d: "((fb_lnc_mem s AND NOT 1) + of_nat sizeof_lance_block + 7) AND NOT 7 = b + of_nat ?D"
  proof -
    have "(fb_lnc_mem s AND NOT 1) + of_nat sizeof_lance_block = b + of_nat (8 * (R + T) + a + 24)"
      unfolding ib sizeof_lance_block_def by (simp only: of_nat_add add.assoc)
    with c(2) show ?thesis by (simp only: of_nat_add add.assoc)
  qed
  note rings = fb_layout_rings[OF assms(1,2), of K, unfolded d, unfolded ib, folded R_def T_def b_def]
  let ?E = "?D + R * 8" let ?F = "?E + T * 8" let ?G = "?F + R * RECVBUFSIZE"
  let ?items = "[(0, 8 * R), (8 * R, 8 * T), (8 * (R + T) + a, 24)]
     @ map (\<lambda>i. (?D + i * 8, 8)) [0..<R] @ map (\<lambda>i. (?E + i * 8, 8)) [0..<T]
     @ map (\<lambda>i. (?F + i * RECVBUFSIZE, RECVBUFSIZE)) [0..<R] @ map (\<lambda>i. (?G + i * TRANSBUFSIZE, TRANSBUFSIZE)) [0..<T]"
  have "chain 0 ?items (?G + T * TRANSBUFSIZE)"
    by (rule chain_append[where mid = ?D], simp,
        rule chain_append[where mid = ?E, OF chain_steps],
        rule chain_append[where mid = ?F, OF chain_steps],
        rule chain_append[where mid = ?G, OF chain_steps], rule chain_steps)
  moreover have "?G + T * TRANSBUFSIZE \<le> fb_mem_size (f_nrdre s) (f_ntdre s)"
    using a(1) c(1) by (simp add: fb_mem_size_def R_def[symmetric] T_def[symmetric] hw_consts)
  moreover have "chain lo xs hi'" if "chain lo xs hi" "hi \<le> hi'" for lo xs hi hi'
    using that by (induction lo xs hi rule: chain.induct) auto
  ultimately have ch: "chain 0 ?items (fb_mem_size (f_nrdre s) (f_ntdre s))" by blast
  have m: "map (\<lambda>e. (g e, n)) xs = map (\<lambda>x. (x, n)) (map g xs)" for g :: "fb_entry \<Rightarrow> u32" and n :: nat and xs by simp
  have "fb_areas (fb_layout K s) = map (\<lambda>(off, len). (f_ring_base s + of_nat off, len)) ?items"
    unfolding fb_areas_def m[of fre_md] m[of fre_buff] b_def[symmetric]
    using rings by (simp add: b_def[symmetric] R_def[symmetric] T_def[symmetric] hw_consts comp_def add.assoc)
  with ch show ?thesis by blast
qed

lemma fb_layout_sound:
  assumes "length (f_recv_ring s) = LNC_NDESC (f_nrdre s)" "length (f_trans_ring s) = LNC_NDESC (f_ntdre s)"
    "f_mem_mode s \<noteq> SHMEM" "fb_mem_size (f_nrdre s) (f_ntdre s) \<le> 2 ^ 32"
  shows "(\<forall>x\<in>set (fb_areas (fb_layout K s)).
            area_bytes x \<subseteq> area_bytes (f_ring_base s, fb_mem_size (f_nrdre s) (f_ntdre s))) \<and>
         (\<forall>j<length (fb_areas (fb_layout K s)). \<forall>i<j.
            area_bytes (fb_areas (fb_layout K s) ! i) \<inter> area_bytes (fb_areas (fb_layout K s) ! j) = {})"
  using fb_areas_chain[OF assms(1-3), of K] chain_layout[OF _ _ assms(4)] by blast

subsection \<open>Attachment\<close>

text \<open>No resource is held yet.\<close>

definition fb_blank_device :: "fb_softc \<Rightarrow> bool" where
  "fb_blank_device s \<longleftrightarrow> \<not> f_irqres s \<and> \<not> f_drqres s \<and> \<not> f_portres s \<and> \<not> f_dmat s \<and> \<not> f_dmamap s"

text \<open>The events since the state \<open>s\<close>, newest first.\<close>

definition events_since :: "fb_softc \<Rightarrow> fb_softc \<Rightarrow> ev set" where
  "events_since s t = set (take (length (trace t) - length (trace s)) (trace t))"

lemma events_since_append: "trace t = es @ trace s \<Longrightarrow> events_since s t = set es"
  by (simp add: events_since_def)

lemma read_eaddr_keeps:
  "\<exists>es. trace (snd (read_eaddr E k is s)) = es @ trace s \<and> set es \<subseteq> range In8 \<and>
     same_vars s (snd (read_eaddr E k is s))"
proof (induction "is" arbitrary: s)
  case (Cons i "is")
  let ?s = "snd (csrRead8 E (of_nat (i * k)) s)"
  obtain es where "trace (snd (read_eaddr E k is ?s)) = es @ trace ?s \<and> set es \<subseteq> range In8 \<and>
      same_vars ?s (snd (read_eaddr E k is ?s))" using Cons.IH[of ?s] by blast
  moreover have "same_vars s ?s" "trace ?s = In8 (of_nat (i * k)) # trace s" by (simp_all add: csrRead8_def)
  ultimately show ?case
    by (intro exI[of _ "es @ [In8 (of_nat (i * k))]"]) (auto simp: split_def Let_def intro: same_vars_trans)
qed (intro exI[of _ "[]"], simp)

lemma same_vars_fb:
  fixes s t :: fb_softc
  assumes "same_vars s t"
  shows "f_irqres t = f_irqres s" "f_drqres t = f_drqres s" "f_portres t = f_portres s" "f_dmat t = f_dmat s"
    "f_dmamap t = f_dmamap s" "f_ifp t = f_ifp s"
  using assms unfolding same_vars_def by (cases s; cases t; simp)+

lemma emit_sel_fb [simp]:
  fixes s :: fb_softc
  shows "f_irqres (emit E e s) = f_irqres s" "f_drqres (emit E e s) = f_drqres s" "f_portres (emit E e s) = f_portres s"
    "f_dmat (emit E e s) = f_dmat s" "f_dmamap (emit E e s) = f_dmamap s" "f_ifp (emit E e s) = f_ifp s"
    "f_nrdre (emit E e s) = f_nrdre s" "f_ntdre (emit E e s) = f_ntdre s" "f_ident (emit E e s) = f_ident s"
  by (cases s, simp add: emit_def)+

lemma attach_common_cases:
  assumes "fb_lnc_attach_common E K s = (ok, t)"
  shows "\<exists>es. trace t = es @ trace s \<and> set es \<subseteq> range In8 \<union> {Kernel ''if_alloc'', Kernel ''ether_ifattach''} \<and>
     f_ifp t = ok \<and> f_irqres t = f_irqres s \<and> f_drqres t = f_drqres s \<and> f_portres t = f_portres s \<and>
     f_dmat t = f_dmat s \<and> f_dmamap t = f_dmamap s"
proof (cases "os_ok E (trace s)")
  case False
  then show ?thesis using assms
    by (intro exI[of _ "[Kernel ''if_alloc'']"]) (auto simp: fb_lnc_attach_common_def os_call_def)
next
  case True
  define k :: nat where "k = (if f_ident s = BICC \<or> f_ident s = CNET98S then 2 else 1)"
  define u where "u = (emit E (Kernel ''if_alloc'') (s\<lparr>f_mode := 0\<rparr>))\<lparr>f_ifp := True,
     fi_flags := bk_IFF_BROADCAST K OR bk_IFF_SIMPLEX K OR bk_IFF_MULTICAST K OR bk_IFF_NEEDSGIANT K, fi_timer := 0\<rparr>"
  obtain es where es: "trace (snd (read_eaddr E k [0..<ETHER_ADDR_LEN] u)) = es @ trace u" "set es \<subseteq> range In8"
    "same_vars u (snd (read_eaddr E k [0..<ETHER_ADDR_LEN] u))" using read_eaddr_keeps by blast
  obtain a v where v: "read_eaddr E k [0..<ETHER_ADDR_LEN] u = (a, v)" by fastforce
  have t: "ok" "t = (emit E (Kernel ''ether_ifattach'') v)\<lparr>fi_enaddr := a\<rparr>"
    using assms True v by (simp_all add: fb_lnc_attach_common_def os_call_def Let_def k_def[symmetric] u_def[symmetric])
  show ?thesis using es v t same_vars_fb[OF es(3)]
    by (intro exI[of _ "Kernel ''ether_ifattach'' # es @ [Kernel ''if_alloc'']"]) (auto simp: u_def)
qed

text \<open>What \<open>lnc_release_resources\<close> adds to the history.\<close>

definition release_events :: "fb_softc \<Rightarrow> ev list" where
  "release_events s =
     (if f_dmat s then Kernel ''bus_dma_tag_destroy'' #
        (if f_dmamap s then [Kernel ''bus_dmamem_free'', Kernel ''bus_dmamap_unload''] else []) else []) @
     (if f_drqres s then [Kernel ''bus_release_drq''] else []) @
     (if f_portres s then [Kernel ''bus_release_ioport''] else []) @
     (if f_irqres s then [Kernel ''bus_release_irq'', Kernel ''bus_teardown_intr''] else [])"

lemma release_trace: "trace (fb_lnc_release_resources E s) = release_events s @ trace s"
  by (simp add: fb_lnc_release_resources_def release_events_def Let_def)

lemma release_keeps:
  "f_irqres (fb_lnc_release_resources E s) = f_irqres s" "f_portres (fb_lnc_release_resources E s) = f_portres s"
  "f_dmat (fb_lnc_release_resources E s) = f_dmat s" "f_dmamap (fb_lnc_release_resources E s) = f_dmamap s"
  by (simp_all add: fb_lnc_release_resources_def Let_def)

definition release_calls :: "ev set" where
  "release_calls = Kernel ` {''bus_release_irq'', ''bus_teardown_intr'', ''bus_release_ioport'', ''bus_release_drq'',
     ''bus_dmamem_free'', ''bus_dmamap_unload'', ''bus_dma_tag_destroy''}"

definition releases_exactly :: "fb_softc \<Rightarrow> fb_softc \<Rightarrow> bool" where
  "releases_exactly s t \<longleftrightarrow>
     (Kernel ''bus_release_ioport'' \<in> events_since s t \<longleftrightarrow> f_portres t) \<and>
     (Kernel ''bus_release_irq'' \<in> events_since s t \<longleftrightarrow> f_irqres t) \<and>
     (Kernel ''bus_dma_tag_destroy'' \<in> events_since s t \<longleftrightarrow> f_dmat t) \<and>
     (Kernel ''bus_dmamem_free'' \<in> events_since s t \<longleftrightarrow> f_dmat t \<and> f_dmamap t)"

lemma release_clean:
  assumes "trace u = es @ trace s" "set es \<inter> release_calls = {}"
  shows "releases_exactly s (fb_lnc_release_resources E u)"
proof -
  have e: "events_since s (fb_lnc_release_resources E u) = set (release_events u @ es)"
    by (rule events_since_append) (simp add: release_trace assms(1))
  have "Kernel n \<notin> set es" if "Kernel n \<in> release_calls" for n using assms(2) that by blast
  then have "Kernel ''bus_release_ioport'' \<notin> set es" "Kernel ''bus_release_irq'' \<notin> set es"
    "Kernel ''bus_dma_tag_destroy'' \<notin> set es" "Kernel ''bus_dmamem_free'' \<notin> set es"
    by (simp_all add: release_calls_def)
  then show ?thesis unfolding releases_exactly_def e release_keeps
    by (auto simp: release_events_def)
qed

lemma fb_fields [simp]:
  "f_irqres (fb_ring_memory K s) = f_irqres s" "f_portres (fb_ring_memory K s) = f_portres s"
  "f_dmat (fb_ring_memory K s) = f_dmat s" "f_dmamap (fb_ring_memory K s)" "f_irqres (fb_nic_setup s) = f_irqres s"
  "f_portres (fb_nic_setup s) = f_portres s" "trace (fb_ring_memory K s) = trace s" "trace (fb_nic_setup s) = trace s"
  by (simp_all add: fb_ring_memory_def fb_nic_setup_def)

lemma attach_outcome:
  assumes "fb_lnc_pci_attach E K s = (r, t)"
  shows "if r = FbOk then f_portres t \<and> f_irqres t \<and> f_dmat t \<and> f_dmamap t \<and> f_ifp t \<and> events_since s t \<inter> release_calls = {}
         else releases_exactly s t"
proof -
  define s1 where "s1 = emit E (Call ''pci_write_config'' [bk_pci_command K (trace s) OR (bk_PCIM_CMD_PORTEN K OR bk_PCIM_CMD_BUSMASTEREN K)]) s"
  define o1 where "o1 = os_ok E (trace s1)"
  define s2 where "s2 = (emit E (Kernel ''bus_alloc_ioport'') s1)\<lparr>f_portres := o1\<rparr>"
  define o2 where "o2 = os_ok E (trace s2)"
  define s3 where "s3 = (emit E (Kernel ''bus_alloc_irq'') s2)\<lparr>f_irqres := o2\<rparr>"
  define o3 where "o3 = os_ok E (trace s3)"
  define s4 where "s4 = fb_nic_setup (emit E (Kernel ''bus_setup_intr'') s3)"
  define o4 where "o4 = os_ok E (trace s4)"
  define s5 where "s5 = (emit E (Call ''bus_dma_tag_create'' [of_nat (fb_mem_size (f_nrdre s4) (f_ntdre s4))]) s4)\<lparr>f_dmat := o4\<rparr>"
  define o5 where "o5 = os_ok E (trace s5)"
  define s6 where "s6 = emit E (Kernel ''bus_dmamap_load'') (fb_ring_memory K (emit E (Kernel ''bus_dmamem_alloc'') s5))"
  obtain o6 s7 where 7: "fb_lnc_attach_common E K s6 = (o6, s7)" by fastforce
  have tr: "\<exists>es. trace u = es @ trace s \<and> set es \<inter> release_calls = {}"
    if "u \<in> {s2, s3, emit E (Kernel ''bus_setup_intr'') s3, s5, emit E (Kernel ''bus_dmamem_alloc'') s5, s6}" for u
  proof -
    have "trace u = take (length (trace u) - length (trace s)) (trace u) @ trace s"
      "set (take (length (trace u) - length (trace s)) (trace u)) \<inter> release_calls = {}"
      using that by (auto simp: s1_def s2_def s3_def s4_def s5_def s6_def release_calls_def Suc_diff_le)
    then show ?thesis by blast
  qed
  obtain es6 where es6: "trace s6 = es6 @ trace s" "set es6 \<inter> release_calls = {}" using tr[of s6] by blast
  obtain es7 where es7: "trace s7 = es7 @ trace s6" "set es7 \<subseteq> range In8 \<union> {Kernel ''if_alloc'', Kernel ''ether_ifattach''}"
    "f_ifp s7 = o6" "f_irqres s7 = f_irqres s6" "f_portres s7 = f_portres s6" "f_dmat s7 = f_dmat s6" "f_dmamap s7 = f_dmamap s6"
    using attach_common_cases[OF 7] by blast
  have t7: "trace s7 = (es7 @ es6) @ trace s" "set (es7 @ es6) \<inter> release_calls = {}"
    using es7(1,2) es6 by (auto simp: release_calls_def)
  have out: "(r, t) = (if \<not> o1 then (ENXIO, fb_lnc_release_resources E s2)
      else if \<not> o2 then (ENXIO, fb_lnc_release_resources E s3)
      else if \<not> o3 then (ENXIO, fb_lnc_release_resources E (emit E (Kernel ''bus_setup_intr'') s3))
      else if \<not> o4 then (FB_ENOMEM, fb_lnc_release_resources E s5)
      else if \<not> o5 then (FB_ENOMEM, fb_lnc_release_resources E (emit E (Kernel ''bus_dmamem_alloc'') s5))
      else if \<not> o6 then (ENXIO, fb_lnc_release_resources E s7) else (FbOk, s7))"
    unfolding assms[symmetric] fb_lnc_pci_attach_def os_call_def Let_def prod.case
      s1_def[symmetric] o1_def[symmetric] s2_def[symmetric] o2_def[symmetric] s3_def[symmetric] o3_def[symmetric]
      s4_def[symmetric] o4_def[symmetric] s5_def[symmetric] o5_def[symmetric] s6_def[symmetric] 7 ..
  have clean: "releases_exactly s (fb_lnc_release_resources E u)"
    if "u \<in> {s2, s3, emit E (Kernel ''bus_setup_intr'') s3, s5, emit E (Kernel ''bus_dmamem_alloc'') s5}" for u
  proof -
    have "u \<in> {s2, s3, emit E (Kernel ''bus_setup_intr'') s3, s5, emit E (Kernel ''bus_dmamem_alloc'') s5, s6}"
      using that by blast
    from tr[OF this] show ?thesis using release_clean by blast
  qed
  have clean7: "releases_exactly s (fb_lnc_release_resources E s7)" by (rule release_clean[OF t7])
  have fl: "f_portres s6 = o1" "f_irqres s6 = o2" "f_dmat s6 = o4" "f_dmamap s6"
    by (simp_all add: s2_def s3_def s4_def s5_def s6_def)
  show ?thesis
    using out clean clean7 es7(3-7) fl events_since_append[OF t7(1)] t7(2) by (auto split: if_splits)
qed

text \<open>
  Detaching releases exactly the resources held, once the chip is stopped; the interface is given back
  before that, while the interrupt is still set up.
\<close>

lemma detach_releases:
  "releases_exactly s (lnc_detach_common E s)"
  "trace (lnc_detach_common E s) = release_events s @ trace (fb_lnc_stop E (emit E (Kernel ''if_free'') (emit E (Kernel ''ether_ifdetach'') s)))"
  "{Kernel ''ether_ifdetach'', Kernel ''if_free''} \<subseteq> events_since s (lnc_detach_common E s)"
proof -
  define u where "u = fb_lnc_stop E (emit E (Kernel ''if_free'') (emit E (Kernel ''ether_ifdetach'') s))"
  define es where "es = [Out16 (f_rdp s) STOP, Out16 (f_rap s) FB_CSR0, Kernel ''if_free'', Kernel ''ether_ifdetach'']"
  have tr: "trace u = es @ trace s" "set es \<inter> release_calls = {}"
    by (auto simp: u_def es_def fb_lnc_stop_def fb_write_csr_def csrWrite16_def Let_def release_calls_def emit_def)
  have d: "lnc_detach_common E s = fb_lnc_release_resources E u" by (simp add: lnc_detach_common_def u_def)
  show "releases_exactly s (lnc_detach_common E s)" unfolding d by (rule release_clean[OF tr])
  have "release_events u = release_events s"
    by (simp add: release_events_def u_def fb_lnc_stop_def fb_write_csr_def csrWrite16_def Let_def)
  then show "trace (lnc_detach_common E s) = release_events s @ trace (fb_lnc_stop E (emit E (Kernel ''if_free'') (emit E (Kernel ''ether_ifdetach'') s)))"
    by (simp add: d release_trace u_def)
  have "events_since s (lnc_detach_common E s) = set (release_events u @ es)"
    by (rule events_since_append) (simp add: d release_trace tr(1))
  then show "{Kernel ''ether_ifdetach'', Kernel ''if_free''} \<subseteq> events_since s (lnc_detach_common E s)" by (simp add: es_def)
qed

subsection \<open>The multicast filter\<close>

text \<open>
  The flags of the softc are \<open>LNC_INITIALISED\<close> and \<open>LNC_ALLMULTI\<close>; the all-multicast branch tests
  a bit of the interface flags in them.
\<close>

lemma allmulti_dead:
  assumes "f_flags s AND NOT (FB_INITIALISED OR FB_ALLMULTI) = 0" "bk_IFF_ALLMULTI K = 0x200"
  shows "\<not> has (f_flags s) (bk_IFF_ALLMULTI K)"
proof -
  have "bit (f_flags s AND NOT (FB_INITIALISED OR FB_ALLMULTI)) 9 = False" using assms(1) by simp
  then have b: "\<not> bit (f_flags s) 9" by (simp add: bit_simps FB_INITIALISED_def FB_ALLMULTI_def)
  have "f_flags s AND 2 ^ 9 = 0" unfolding and_exp_eq_0_iff_not_bit by (rule b)
  then have "f_flags s AND 0x200 = 0" by simp
  then show ?thesis using assms(2) by (simp add: has_def)
qed

lemma fb_ladrf_same: "bk_crc32_le K = ether_crc32_le \<Longrightarrow> fb_ladrf_set K = ladrf_set"
  by (rule ext)+ (simp add: fb_ladrf_set_def ladrf_set_def ladrf_index_def)

lemma fb_filter:
  assumes "bk_crc32_le K = ether_crc32_le" "f_flags s AND NOT (FB_INITIALISED OR FB_ALLMULTI) = 0" "bk_IFF_ALLMULTI K = 0x200"
  defines "as \<equiv> map snd (filter fst (fi_multiaddrs s))"
  shows "lb_ladrf (f_init_block (fb_lnc_setladrf K s)) = fold ladrf_set as (replicate MULTICAST_FILTER_LEN 0)"
  using allmulti_dead[OF assms(2,3)] fb_ladrf_same[OF assms(1)] by (simp add: fb_lnc_setladrf_def as_def)

subsection \<open>The transmit interrupt on an idle ring\<close>

lemma fb_tint_idle:
  assumes "f_trans_next s < LNC_NDESC (f_ntdre s)"
    and "\<forall>j<LNC_NDESC (f_ntdre s). \<not> has (md1 (fb_tx_md s j)) (STP OR OWN OR ENP OR MDERR)"
  shows "fb_lnc_tint E K s = None"
proof -
  have "\<not> has (md1 (fb_tx_md s (f_trans_next s))) (ENP OR MDERR)"
    using assms by (simp add: has_mask_or)
  moreover have "find_where (\<lambda>i. has (md1 (fb_tx_md s i)) (STP OR OWN OR ENP OR MDERR)) (f_ntdre s) (f_trans_next s) = None"
    using assms(2) by (rule find_where_diverges)
  ultimately have "fb_tint_find_end E K 0 s = None" by (simp add: fb_tint_find_end_def)
  then have "fb_tint_packet E K 0 s = None" by (simp add: fb_tint_packet_def)
  then have "fb_tint_loop E K 0 s = None" by (subst fb_tint_loop.simps) simp
  then show ?thesis by (simp add: fb_lnc_tint_def)
qed

end
