(* ===== verification/Fbsd_Init.thy ===== *)
theory Fbsd_Init
  imports Fbsd_Facts
begin

text \<open>
  Initialisation of the FreeBSD driver in the mode of the PCI attachment (fixed buffers): what
  \<open>lnc_init\<close> leaves in the descriptors, as the chip reads them, and that the memory the
  attachment allocated is enough for it.
\<close>

unbundle bit_operations_syntax

subsection \<open>Addresses of 24 bits\<close>

text \<open>The chip's reading of a word and the low byte of the next one as an address.\<close>

definition addr24 :: "u16 \<Rightarrow> u16 \<Rightarrow> u32" where
  "addr24 lo hi = push_bit 16 (ucast hi AND 0xff) OR ucast lo"

lemma mask_8: "0xff = (mask 8 :: 'a::len word)"
  by (simp add: mask_eq_exp_minus_1)

lemma addr24_split:
  fixes a :: u32 and x :: u16
  assumes "a < 2 ^ 24" "x AND 0xff = 0"
  shows "addr24 (ucast a) (ucast (drop_bit 16 a AND 0xff) OR x) = a"
proof (rule bit_word_eqI)
  fix n assume n: "n < LENGTH(32)"
  have a: "bit a n \<longleftrightarrow> n < 24 \<and> bit a n"
  proof -
    have "a AND mask 24 = a" using less_mask_eq[OF assms(1)] .
    then have "bit a n \<longleftrightarrow> bit (a AND mask 24) n" by simp
    then show ?thesis by (auto simp: bit_simps)
  qed
  have x: "\<not> bit x k" if "k < 8" for k
  proof -
    have "\<not> bit (x AND 0xff) k" using assms(2) by simp
    then show ?thesis using that by (simp add: mask_8 bit_simps)
  qed
  show "bit (addr24 (ucast a) (ucast (drop_bit 16 a AND 0xff) OR x)) n = bit a n"
    using n a x[of "n - 16"] unfolding addr24_def mask_8 by (auto simp: bit_simps)
qed

lemma addr24_plain: "a < 2 ^ 24 \<Longrightarrow> addr24 (ucast a) (ucast (drop_bit 16 a AND 0xff)) = a"
  using addr24_split[of a 0] by simp

subsection \<open>Descriptors of the two rings\<close>

definition fb_geom :: "fb_softc \<Rightarrow> bool" where
  "fb_geom s \<longleftrightarrow> length (f_recv_ring s) = LNC_NDESC (f_nrdre s) \<and> length (f_trans_ring s) = LNC_NDESC (f_ntdre s) \<and>
     distinct (map fre_md (f_recv_ring s @ f_trans_ring s))"

lemma md_index_eq:
  "distinct (map f es) \<Longrightarrow> i < length es \<Longrightarrow> j < length es \<Longrightarrow> f (es ! j) = f (es ! i) \<longleftrightarrow> j = i"
  using nth_eq_iff_index_eq[of "map f es" j i] by (simp del: distinct_map)

text \<open>Writing a descriptor changes that descriptor alone.\<close>

lemma fb_md_upd:
  assumes "fb_geom s"
  shows "i < LNC_NDESC (f_nrdre s) \<Longrightarrow> j < LNC_NDESC (f_nrdre s) \<Longrightarrow>
      fb_rx_md (upd_fb_rx i f s) j = (if j = i then f (fb_rx_md s i) else fb_rx_md s j)"
    "i < LNC_NDESC (f_ntdre s) \<Longrightarrow> j < LNC_NDESC (f_ntdre s) \<Longrightarrow>
      fb_tx_md (upd_fb_tx i f s) j = (if j = i then f (fb_tx_md s i) else fb_tx_md s j)"
    "i < LNC_NDESC (f_nrdre s) \<Longrightarrow> j < LNC_NDESC (f_ntdre s) \<Longrightarrow> fb_tx_md (upd_fb_rx i f s) j = fb_tx_md s j"
    "i < LNC_NDESC (f_ntdre s) \<Longrightarrow> j < LNC_NDESC (f_nrdre s) \<Longrightarrow> fb_rx_md (upd_fb_tx i f s) j = fb_rx_md s j"
proof -
  have d: "distinct (map fre_md (f_recv_ring s))" "distinct (map fre_md (f_trans_ring s))"
      "fre_md ` set (f_recv_ring s) \<inter> fre_md ` set (f_trans_ring s) = {}"
    and l: "length (f_recv_ring s) = LNC_NDESC (f_nrdre s)" "length (f_trans_ring s) = LNC_NDESC (f_ntdre s)"
    using assms by (simp_all add: fb_geom_def)
  have x: "fre_md (f_recv_ring s ! i) \<noteq> fre_md (f_trans_ring s ! j)"
    if "i < LNC_NDESC (f_nrdre s)" "j < LNC_NDESC (f_ntdre s)" for i j
  proof -
    have "fre_md (f_recv_ring s ! i) \<in> fre_md ` set (f_recv_ring s)" by (rule imageI, rule nth_mem) (simp only: l that)
    moreover have "fre_md (f_trans_ring s ! j) \<in> fre_md ` set (f_trans_ring s)" by (rule imageI, rule nth_mem) (simp only: l that)
    ultimately show ?thesis using d(3) by fastforce
  qed
  have r: "fre_md (f_recv_ring s ! j) = fre_md (f_recv_ring s ! i) \<longleftrightarrow> j = i"
    if "i < LNC_NDESC (f_nrdre s)" "j < LNC_NDESC (f_nrdre s)"
    by (rule md_index_eq[OF d(1)]) (simp_all only: l that)
  have t: "fre_md (f_trans_ring s ! j) = fre_md (f_trans_ring s ! i) \<longleftrightarrow> j = i"
    if "i < LNC_NDESC (f_ntdre s)" "j < LNC_NDESC (f_ntdre s)"
    by (rule md_index_eq[OF d(2)]) (simp_all only: l that)
  note defs = fb_rx_md_def fb_tx_md_def upd_fb_rx_def upd_fb_tx_def upd_lmds_def
  show "i < LNC_NDESC (f_nrdre s) \<Longrightarrow> j < LNC_NDESC (f_nrdre s) \<Longrightarrow>
      fb_rx_md (upd_fb_rx i f s) j = (if j = i then f (fb_rx_md s i) else fb_rx_md s j)"
    using r by (simp add: defs)
  show "i < LNC_NDESC (f_ntdre s) \<Longrightarrow> j < LNC_NDESC (f_ntdre s) \<Longrightarrow>
      fb_tx_md (upd_fb_tx i f s) j = (if j = i then f (fb_tx_md s i) else fb_tx_md s j)"
    using t by (simp add: defs)
  show "i < LNC_NDESC (f_nrdre s) \<Longrightarrow> j < LNC_NDESC (f_ntdre s) \<Longrightarrow> fb_tx_md (upd_fb_rx i f s) j = fb_tx_md s j"
    using x[of i j] by (simp add: defs)
  show "i < LNC_NDESC (f_ntdre s) \<Longrightarrow> j < LNC_NDESC (f_nrdre s) \<Longrightarrow> fb_rx_md (upd_fb_tx i f s) j = fb_rx_md s j"
    using x[of j i] by (simp add: defs)
qed

definition fixed_rx_desc :: "bsd \<Rightarrow> u32 \<Rightarrow> lance_mds" where
  "fixed_rx_desc K p = \<lparr>md0 = ucast (bk_kvtop K p), md1 = ucast (drop_bit 16 (bk_kvtop K p) AND 0xff) OR OWN,
     md2 = - of_nat RECVBUFSIZE, md3 = 0\<rparr>"

definition fixed_tx_desc :: "bsd \<Rightarrow> u32 \<Rightarrow> lance_mds" where
  "fixed_tx_desc K p = \<lparr>md0 = ucast (bk_kvtop K p), md1 = ucast (drop_bit 16 (bk_kvtop K p) AND 0xff), md2 = 0, md3 = 0\<rparr>"

text \<open>Four writes to a descriptor are one; the buffer pointer of the entry does not matter to it.\<close>

lemma md_buff_nth: "fre_md (es[i := (es ! i)\<lparr>fre_buff := p\<rparr>] ! j) = fre_md (es ! j)"
  by (cases "j = i"; cases "i < length es") (simp_all add: list_update_beyond)

lemma fb_md_buff:
  "fb_rx_md (s\<lparr>f_recv_ring := (f_recv_ring s)[i := (f_recv_ring s ! i)\<lparr>fre_buff := p\<rparr>]\<rparr>) j = fb_rx_md s j"
  "fb_tx_md (s\<lparr>f_recv_ring := rs\<rparr>) j = fb_tx_md s j" "fb_rx_md (s\<lparr>f_trans_ring := rs\<rparr>) j = fb_rx_md s j"
  "fb_tx_md (s\<lparr>f_trans_ring := (f_trans_ring s)[i := (f_trans_ring s ! i)\<lparr>fre_buff := p\<rparr>]\<rparr>) j = fb_tx_md s j"
  by (simp_all add: fb_rx_md_def fb_tx_md_def md_buff_nth)

lemma map_md_buff: "map fre_md (es[i := (es ! i)\<lparr>fre_buff := p\<rparr>]) = map fre_md es"
  by (metis (no_types) fb_entry.select_convs(1) fb_entry.surjective fb_entry.update_convs(2) list_update_id map_update)

lemma md_all_fields: "d\<lparr>md0 := a, md1 := b, md2 := c, md3 := e\<rparr> = \<lparr>md0 = a, md1 = b, md2 = c, md3 = e\<rparr>"
  by (cases d) simp

lemma fixed_md_writes:
  "fixed_rx_md K (i, p) s = (upd_fb_rx i (\<lambda>_. fixed_rx_desc K p) s)
     \<lparr>f_recv_ring := (f_recv_ring s)[i := (f_recv_ring s ! i)\<lparr>fre_buff := p\<rparr>]\<rparr>"
  "fixed_tx_md K (i, p) s = (upd_fb_tx i (\<lambda>_. fixed_tx_desc K p) s)
     \<lparr>f_trans_ring := (f_trans_ring s)[i := (f_trans_ring s ! i)\<lparr>fre_buff := p\<rparr>]\<rparr>"
  by (simp_all add: fixed_rx_md_def fixed_tx_md_def upd_fb_rx_def upd_fb_tx_def upd_lmds_def fixed_rx_desc_def
      fixed_tx_desc_def Let_def md_all_fields)

lemma fb_geom_upd:
  "fb_geom (upd_fb_rx i f s) = fb_geom s" "fb_geom (upd_fb_tx i f s) = fb_geom s"
  "fb_geom (s\<lparr>f_recv_ring := (f_recv_ring s)[i := (f_recv_ring s ! i)\<lparr>fre_buff := p\<rparr>]\<rparr>) = fb_geom s"
  "fb_geom (s\<lparr>f_trans_ring := (f_trans_ring s)[i := (f_trans_ring s ! i)\<lparr>fre_buff := p\<rparr>]\<rparr>) = fb_geom s"
  by (simp_all add: fb_geom_def map_md_buff set_map[symmetric] del: set_map)

lemma fixed_md_step:
  assumes "fb_geom s"
  shows "i < LNC_NDESC (f_nrdre s) \<Longrightarrow>
      (\<forall>j<LNC_NDESC (f_nrdre s). fb_rx_md (fixed_rx_md K (i, p) s) j = (if j = i then fixed_rx_desc K p else fb_rx_md s j)) \<and>
      (\<forall>j<LNC_NDESC (f_ntdre s). fb_tx_md (fixed_rx_md K (i, p) s) j = fb_tx_md s j) \<and> fb_geom (fixed_rx_md K (i, p) s)"
    "i < LNC_NDESC (f_ntdre s) \<Longrightarrow>
      (\<forall>j<LNC_NDESC (f_ntdre s). fb_tx_md (fixed_tx_md K (i, p) s) j = (if j = i then fixed_tx_desc K p else fb_tx_md s j)) \<and>
      (\<forall>j<LNC_NDESC (f_nrdre s). fb_rx_md (fixed_tx_md K (i, p) s) j = fb_rx_md s j) \<and> fb_geom (fixed_tx_md K (i, p) s)"
  using assms fb_md_buff(1)[of "upd_fb_rx i (\<lambda>_. fixed_rx_desc K p) s" i p]
    fb_md_buff(4)[of "upd_fb_tx i (\<lambda>_. fixed_tx_desc K p) s" i p]
    fb_geom_upd(3)[of "upd_fb_rx i (\<lambda>_. fixed_rx_desc K p) s" i p]
    fb_geom_upd(4)[of "upd_fb_tx i (\<lambda>_. fixed_tx_desc K p) s" i p]
  by (simp_all add: fixed_md_writes fb_md_buff fb_md_upd fb_geom_upd)

lemma zip_snoc_upt: "zip [0..<length (ps @ [p])] (ps @ [p]) = zip [0..<length ps] ps @ [(length ps, p)]"
  by simp

lemma fold_fixed_rx_md:
  fixes K :: bsd
  assumes "fb_geom s"
  defines "u \<equiv> \<lambda>ps. fold (fixed_rx_md K) (zip [0..<length ps] ps) s"
  shows "length ps \<le> LNC_NDESC (f_nrdre s) \<Longrightarrow> fb_geom (u ps) \<and> same_geometry s (u ps) \<and>
     (\<forall>j<LNC_NDESC (f_nrdre s). fb_rx_md (u ps) j = (if j < length ps then fixed_rx_desc K (ps ! j) else fb_rx_md s j)) \<and>
     (\<forall>j<LNC_NDESC (f_ntdre s). fb_tx_md (u ps) j = fb_tx_md s j)"
proof (induction ps rule: rev_induct)
  case (snoc p ps)
  have u: "u (ps @ [p]) = fixed_rx_md K (length ps, p) (u ps)" unfolding u_def zip_snoc_upt by simp
  have l: "length ps < LNC_NDESC (f_nrdre s)" using snoc.prems by simp
  have sg: "same_geometry (u ps) (fixed_rx_md K (length ps, p) (u ps))" by (simp add: fixed_rx_md_def Let_def)
  have IH: "fb_geom (u ps)" "same_geometry s (u ps)"
     "\<forall>j<LNC_NDESC (f_nrdre s). fb_rx_md (u ps) j = (if j < length ps then fixed_rx_desc K (ps ! j) else fb_rx_md s j)"
     "\<forall>j<LNC_NDESC (f_ntdre s). fb_tx_md (u ps) j = fb_tx_md s j"
    using snoc.IH l by simp_all
  show ?case unfolding u using fixed_md_step(1)[OF IH(1), of "length ps" K p] IH(2-4) l sg
    by (auto simp: nth_append less_Suc_eq)
qed (use assms in simp)

lemma fold_fixed_tx_md:
  fixes K :: bsd
  assumes "fb_geom s"
  defines "u \<equiv> \<lambda>ps. fold (fixed_tx_md K) (zip [0..<length ps] ps) s"
  shows "length ps \<le> LNC_NDESC (f_ntdre s) \<Longrightarrow> fb_geom (u ps) \<and> same_geometry s (u ps) \<and>
     (\<forall>j<LNC_NDESC (f_ntdre s). fb_tx_md (u ps) j = (if j < length ps then fixed_tx_desc K (ps ! j) else fb_tx_md s j)) \<and>
     (\<forall>j<LNC_NDESC (f_nrdre s). fb_rx_md (u ps) j = fb_rx_md s j)"
proof (induction ps rule: rev_induct)
  case (snoc p ps)
  have u: "u (ps @ [p]) = fixed_tx_md K (length ps, p) (u ps)" unfolding u_def zip_snoc_upt by simp
  have l: "length ps < LNC_NDESC (f_ntdre s)" using snoc.prems by simp
  have sg: "same_geometry (u ps) (fixed_tx_md K (length ps, p) (u ps))" by (simp add: fixed_tx_md_def Let_def)
  have IH: "fb_geom (u ps)" "same_geometry s (u ps)"
     "\<forall>j<LNC_NDESC (f_ntdre s). fb_tx_md (u ps) j = (if j < length ps then fixed_tx_desc K (ps ! j) else fb_tx_md s j)"
     "\<forall>j<LNC_NDESC (f_nrdre s). fb_rx_md (u ps) j = fb_rx_md s j"
    using snoc.IH l by simp_all
  show ?case unfolding u using fixed_md_step(2)[OF IH(1), of "length ps" K p] IH(2-4) l sg
    by (auto simp: nth_append less_Suc_eq)
qed (use assms in simp)

subsection \<open>The rings after the memory is carved\<close>

lemma fixed_rings_descs:
  fixes K :: bsd and p :: u32
  assumes "fb_geom s"
  defines "t \<equiv> fb_fixed_rings K p s"
  shows "fb_geom t \<and> same_geometry s t \<and>
     (\<forall>j<LNC_NDESC (f_nrdre s). fb_rx_md t j = fixed_rx_desc K (fre_buff (f_recv_ring t ! j))) \<and>
     (\<forall>j<LNC_NDESC (f_ntdre s). fb_tx_md t j = fixed_tx_desc K (fre_buff (f_trans_ring t ! j)))"
proof -
  let ?R = "LNC_NDESC (f_nrdre s)" and ?T = "LNC_NDESC (f_ntdre s)"
  obtain rbs q where r: "carve p RECVBUFSIZE ?R = (rbs, q)" "length rbs = ?R" by (simp add: carve_eq)
  obtain tbs q' where b: "carve q TRANSBUFSIZE ?T = (tbs, q')" "length tbs = ?T" by (simp add: carve_eq)
  let ?v = "fold (fixed_rx_md K) (zip [0..<length rbs] rbs) s"
  have l: "length (f_recv_ring s) = ?R" "length (f_trans_ring s) = ?T" using assms by (simp_all add: fb_geom_def)
  have v: "fb_geom ?v" "same_geometry s ?v" "\<forall>j<?R. fb_rx_md ?v j = fixed_rx_desc K (rbs ! j)"
    using fold_fixed_rx_md[OF assms(1), of rbs K] r(2) by simp_all
  have v': "f_recv_ring ?v = set_buffs (f_recv_ring s) rbs" "f_trans_ring ?v = f_trans_ring s"
    using fold_fixed_rx[of rbs s K] l r(2) by simp_all
  have t: "t = fold (fixed_tx_md K) (zip [0..<length tbs] tbs) ?v"
    using v(2) unfolding t_def fb_fixed_rings_def r(1) b(1) Let_def prod.case r(2) b(2) by simp
  have w: "fb_geom t" "same_geometry ?v t" "\<forall>j<?T. fb_tx_md t j = fixed_tx_desc K (tbs ! j)"
      "\<forall>j<?R. fb_rx_md t j = fb_rx_md ?v j"
    using fold_fixed_tx_md[OF v(1), of tbs K] b(2) v(2) unfolding t by simp_all
  have w': "f_trans_ring t = set_buffs (f_trans_ring s) tbs" "f_recv_ring t = set_buffs (f_recv_ring s) rbs"
    using fold_fixed_tx[of tbs ?v K] l b(2) v' unfolding t by simp_all
  show ?thesis using v w l r(2) b(2) by (simp add: w' set_buffs_nth)
qed

lemma carve_mds_geometry:
  assumes "length (f_recv_ring s) = LNC_NDESC (f_nrdre s)" "length (f_trans_ring s) = LNC_NDESC (f_ntdre s)"
    "fb_carve_mds s = (p, u)"
  shows "f_nrdre u = f_nrdre s \<and> f_ntdre u = f_ntdre s \<and> f_ring_base u = f_ring_base s \<and>
     f_recv_next u = 0 \<and> f_trans_next u = 0 \<and> f_mode u = f_mode s \<and> f_mem_mode u = f_mem_mode s \<and>
     length (f_recv_ring u) = LNC_NDESC (f_nrdre s) \<and> length (f_trans_ring u) = LNC_NDESC (f_ntdre s)"
  using assms(3) unfolding fb_carve_mds_def Let_def
  by (auto simp: carve_eq map_set_mds assms(1,2))

lemma fixed_rings_mds:
  assumes "length (f_recv_ring u) = LNC_NDESC (f_nrdre u)" "length (f_trans_ring u) = LNC_NDESC (f_ntdre u)"
  shows "map fre_md (f_recv_ring (fb_fixed_rings K p u)) = map fre_md (f_recv_ring u) \<and>
    map fre_md (f_trans_ring (fb_fixed_rings K p u)) = map fre_md (f_trans_ring u)"
proof -
  let ?R = "LNC_NDESC (f_nrdre u)" and ?T = "LNC_NDESC (f_ntdre u)"
  obtain rbs q where r: "carve p RECVBUFSIZE ?R = (rbs, q)" "length rbs = ?R" by (simp add: carve_eq)
  obtain tbs q' where b: "carve q TRANSBUFSIZE ?T = (tbs, q')" "length tbs = ?T" by (simp add: carve_eq)
  let ?v = "fold (fixed_rx_md K) (zip [0..<length rbs] rbs) u"
  have v: "f_recv_ring ?v = set_buffs (f_recv_ring u) rbs" "f_trans_ring ?v = f_trans_ring u" "same_geometry u ?v"
    using fold_fixed_rx[of rbs u K] assms r(2) by simp_all
  have t: "fb_fixed_rings K p u = fold (fixed_tx_md K) (zip [0..<length tbs] tbs) ?v"
    using v(3) unfolding fb_fixed_rings_def r(1) b(1) Let_def prod.case r(2) b(2) by simp
  show ?thesis unfolding t using fold_fixed_tx[of tbs ?v K] assms b(2) r(2) v
    by (simp add: map_set_buffs)
qed

lemma fb_areas_md:
  "i < length (f_recv_ring s) + length (f_trans_ring s) \<Longrightarrow>
     fb_areas s ! (3 + i) = (fre_md ((f_recv_ring s @ f_trans_ring s) ! i), sizeof_lance_mds)"
  by (auto simp: fb_areas_def nth_append numeral_3_eq_3)

lemma fb_layout_geom:
  assumes "length (f_recv_ring s) = LNC_NDESC (f_nrdre s)" "length (f_trans_ring s) = LNC_NDESC (f_ntdre s)"
    "f_mem_mode s \<noteq> SHMEM" "fb_mem_size (f_nrdre s) (f_ntdre s) \<le> 2 ^ 32"
  shows "fb_geom (fb_layout K s)"
proof -
  let ?t = "fb_layout K s"
  let ?ms = "map fre_md (f_recv_ring ?t @ f_trans_ring ?t)"
  note rings = fb_layout_rings[OF assms(1,2), of K]
  have lr: "length (f_recv_ring ?t) = LNC_NDESC (f_nrdre ?t)" "length (f_trans_ring ?t) = LNC_NDESC (f_ntdre ?t)"
    using rings by (auto dest!: arg_cong[of "map fre_md _" _ length])
  have len: "length (fb_areas ?t) = 3 + 2 * length ?ms"
    by (simp add: fb_areas_def)
  have "?ms ! i \<noteq> ?ms ! j" if "i < length ?ms" "j < i" for i j
  proof -
    have "area_bytes (fb_areas ?t ! (3 + j)) \<inter> area_bytes (fb_areas ?t ! (3 + i)) = {}"
      using fb_layout_sound[OF assms, of K] that len by auto
    then show ?thesis using that area_start[of sizeof_lance_mds "?ms ! i"]
      by (auto simp: fb_areas_md sizeof_lance_mds_def simp del: map_append)
  qed
  then have "distinct ?ms" unfolding distinct_conv_nth by (metis linorder_neqE_nat)
  with lr show ?thesis unfolding fb_geom_def by blast
qed

text \<open>What the chip will find: all receive descriptors are its own, all transmit descriptors are the driver's.\<close>

definition fb_descs_fresh :: "bsd \<Rightarrow> fb_softc \<Rightarrow> bool" where
  "fb_descs_fresh K s \<longleftrightarrow>
     (\<forall>j<LNC_NDESC (f_nrdre s). fb_rx_md s j = fixed_rx_desc K (fre_buff (f_recv_ring s ! j))) \<and>
     (\<forall>j<LNC_NDESC (f_ntdre s). fb_tx_md s j = fixed_tx_desc K (fre_buff (f_trans_ring s ! j)))"

lemma fb_layout_fresh:
  assumes "length (f_recv_ring s) = LNC_NDESC (f_nrdre s)" "length (f_trans_ring s) = LNC_NDESC (f_ntdre s)"
    "f_mem_mode s \<noteq> SHMEM" "fb_mem_size (f_nrdre s) (f_ntdre s) \<le> 2 ^ 32"
  shows "fb_descs_fresh K (fb_layout K s)"
proof -
  obtain p u where c: "fb_carve_mds s = (p, u)" by fastforce
  note g = carve_mds_geometry[OF assms(1,2) c]
  have t: "fb_layout K s = fb_fixed_rings K p u" by (simp add: fb_layout_def c)
  have "fb_geom u"
    using fb_layout_geom[OF assms, of K] fixed_rings_mds[of u K p] g unfolding t fb_geom_def by (simp del: distinct_append)
  from fixed_rings_descs[OF this, of K p] show ?thesis unfolding t fb_descs_fresh_def by simp
qed

subsection \<open>The state when the chip is initialised\<close>

lemma evolves_fb_regs [simp]:
  "evolves E s (snd (fb_read_csr E p s))" "evolves E s (fb_write_csr E p v s)"
  "evolves E s (snd (fb_read_bcr E p s))" "evolves E s (fb_write_bcr E p v s)" "evolves E s (fb_lnc_stop E s)"
  by (auto simp: drv_ops fb_lnc_stop_def)

lemma evolves_fb_poll [simp]: "evolves E s (fb_poll_idon E n s)"
proof (induction n arbitrary: s)
  case (Suc n)
  show ?case using evolves_trans[OF evolves_fb_regs(1) Suc] by (simp add: Let_def split_def)
qed simp

lemma evolves_fb_program [simp]: "evolves E s (fb_program_chip E K s)"
proof -
  have "evolves E s (snd (fb_read_bcr E r (fb_write_bcr E r v s)))" for r v
    by (rule evolves_trans[OF evolves_fb_regs(4) evolves_fb_regs(3)])
  moreover have "evolves E s (fb_write_bcr E r v (snd (fb_read_bcr E r s)))" for r v
    by (rule evolves_trans[OF evolves_fb_regs(3) evolves_fb_regs(4)])
  ultimately show ?thesis unfolding fb_program_chip_def Let_def split_def
    by (intro evolves_trans[OF _ evolves_fb_poll] evolves_trans[OF _ evolves_fb_regs(2)]) simp
qed

lemma same_vars_fb_sel:
  fixes s t :: fb_softc
  assumes "same_vars s t"
  shows "f_recv_ring t = f_recv_ring s" "f_trans_ring t = f_trans_ring s" "f_nrdre t = f_nrdre s" "f_ntdre t = f_ntdre s"
    "f_ring_base t = f_ring_base s" "f_init_block_addr t = f_init_block_addr s" "f_init_block t = f_init_block s"
    "f_mem_mode t = f_mem_mode s" "f_mode t = f_mode s" "f_recv_next t = f_recv_next s" "f_trans_next t = f_trans_next s"
    "f_next_to_send t = f_next_to_send s" "f_pending t = f_pending s" "f_flags t = f_flags s" "f_rdp t = f_rdp s"
    "f_rap t = f_rap s" "fi_snd t = fi_snd s" "f_mb t = f_mb s" "fi_enaddr t = fi_enaddr s"
  using assms unfolding same_vars_def by (cases s; cases t; simp)+

definition fb_fresh :: "bsd \<Rightarrow> fb_softc \<Rightarrow> bool" where
  "fb_fresh K s \<longleftrightarrow> fb_geom s \<and> fb_descs_fresh K s \<and> f_recv_next s = 0 \<and> f_trans_next s = 0 \<and>
     f_next_to_send s = 0 \<and> f_pending s = 0"

definition fb_areas_ok :: "fb_softc \<Rightarrow> bool" where
  "fb_areas_ok s \<longleftrightarrow>
     (\<forall>x\<in>set (fb_areas s). area_bytes x \<subseteq> area_bytes (f_ring_base s, fb_mem_size (f_nrdre s) (f_ntdre s))) \<and>
     (\<forall>j<length (fb_areas s). \<forall>i<j. area_bytes (fb_areas s ! i) \<inter> area_bytes (fb_areas s ! j) = {})"

text \<open>The addresses of the rings in the initialization block, and the mode.\<close>

definition fb_block_ok :: "bsd \<Rightarrow> fb_softc \<Rightarrow> bool" where
  "fb_block_ok K s \<longleftrightarrow> (let b = f_init_block s; r = bk_kvtop K (fre_md (f_recv_ring s ! 0)); t = bk_kvtop K (fre_md (f_trans_ring s ! 0)) in
     lb_mode b = ucast (f_mode s) \<and> lb_padr b = take ETHER_ADDR_LEN (fi_enaddr s) \<and>
     lb_rdra b = ucast r \<and> lb_rlen b = ucast (drop_bit 16 r AND 0xff) OR push_bit 13 (of_nat (f_nrdre s)) \<and>
     lb_tdra b = ucast t \<and> lb_tlen b = ucast (drop_bit 16 t AND 0xff) OR push_bit 13 (of_nat (f_ntdre s)))"

text \<open>\<open>lnc_init\<close> up to the programming of the chip.\<close>

definition fb_init_memory :: "env \<Rightarrow> bsd \<Rightarrow> fb_softc \<Rightarrow> fb_softc" where
  "fb_init_memory E K s = fb_fill_block K (fb_layout K ((fb_lnc_stop E s)
     \<lparr>fi_flags := fi_flags (fb_lnc_stop E s) OR (bk_IFF_BROADCAST K OR bk_IFF_SIMPLEX K OR bk_IFF_MULTICAST K)\<rparr>))"

lemma fb_init_chip_fixed:
  assumes "f_mem_mode s \<noteq> DMA_MBUF"
  shows "\<exists>u fl. evolves E (fb_init_memory E K s) u \<and> snd (fb_init_chip E K s) = u\<lparr>fi_drv_flags := fl\<rparr>"
proof -
  let ?w = "snd (fb_read_csr E FB_CSR0 (fb_program_chip E K (fb_init_memory E K s)))"
  let ?v = "fst (fb_read_csr E FB_CSR0 (fb_program_chip E K (fb_init_memory E K s)))"
  have m: "f_mem_mode (fb_lnc_stop E s) \<noteq> DMA_MBUF"
    using assms by (simp add: same_vars_fb_sel[OF evolves_same_vars[OF evolves_fb_regs(5)]])
  have cm: "f_mem_mode (snd (fb_carve_mds x)) = f_mem_mode x" for x
    by (simp add: fb_carve_mds_def Let_def split_def)
  obtain p u where c: "fb_carve_mds ((fb_lnc_stop E s)\<lparr>fi_flags := fi_flags (fb_lnc_stop E s) OR
      (bk_IFF_BROADCAST K OR bk_IFF_SIMPLEX K OR bk_IFF_MULTICAST K)\<rparr>) = (p, u)" by fastforce
  have mu: "f_mem_mode u \<noteq> DMA_MBUF"
    using cm[of "(fb_lnc_stop E s)\<lparr>fi_flags := fi_flags (fb_lnc_stop E s) OR
      (bk_IFF_BROADCAST K OR bk_IFF_SIMPLEX K OR bk_IFF_MULTICAST K)\<rparr>"] m by (simp add: c)
  have im: "fb_init_memory E K s = fb_fill_block K (fb_fixed_rings K p u)"
    by (simp add: fb_init_memory_def fb_layout_def c)
  have w: "evolves E (fb_init_memory E K s) ?w"
    by (rule evolves_trans[OF evolves_fb_program evolves_fb_regs(1)])
  have r: "snd (fb_init_chip E K s) =
     (if has ?v IDON then (fb_write_csr E FB_CSR0 (STRT OR INEA) ?w)\<lparr>fi_drv_flags :=
         (fi_drv_flags (fb_write_csr E FB_CSR0 (STRT OR INEA) ?w) OR bk_IFF_DRV_RUNNING K) AND NOT (bk_IFF_DRV_OACTIVE K)\<rparr>
      else ?w)"
    unfolding fb_init_chip_def Let_def c prod.case if_not_P[OF mu] im split_def by (simp add: mu)
  show ?thesis
  proof (cases "has ?v IDON")
    case True
    then show ?thesis using r evolves_trans[OF w evolves_fb_regs(2)] by auto
  next
    case False
    have "?w = ?w\<lparr>fi_drv_flags := fi_drv_flags ?w\<rparr>" by simp
    then show ?thesis using r False w by (intro exI[of _ ?w] exI[of _ "fi_drv_flags ?w"]) simp
  qed
qed

lemma fb_setladrf_keeps: "\<exists>b. fb_lnc_setladrf K s = s\<lparr>f_init_block := (f_init_block s)\<lparr>lb_ladrf := b\<rparr>\<rparr>"
  by (auto simp: fb_lnc_setladrf_def)

lemma fb_fill_block_sound:
  "fb_descs_fresh K (fb_fill_block K s) = fb_descs_fresh K s" "fb_areas_ok (fb_fill_block K s) = fb_areas_ok s"
  "fb_geom (fb_fill_block K s) = fb_geom s" "fb_block_ok K (fb_fill_block K s)"
  "f_recv_next (fb_fill_block K s) = f_recv_next s" "f_trans_next (fb_fill_block K s) = f_trans_next s"
  "f_next_to_send (fb_fill_block K s) = 0" "f_pending (fb_fill_block K s) = 0"
  by (simp_all add: fb_fill_block_def fb_lnc_setladrf_def fb_descs_fresh_def fb_rx_md_def fb_tx_md_def fb_areas_ok_def
      fb_areas_def fb_geom_def fb_block_ok_def Let_def)

lemma fb_layout_next:
  assumes "length (f_recv_ring s) = LNC_NDESC (f_nrdre s)" "length (f_trans_ring s) = LNC_NDESC (f_ntdre s)"
  shows "f_recv_next (fb_layout K s) = 0 \<and> f_trans_next (fb_layout K s) = 0"
proof -
  have rx: "f_recv_next (fold (fixed_rx_md K) xs s) = f_recv_next s \<and> f_trans_next (fold (fixed_rx_md K) xs s) = f_trans_next s"
    for xs s by (induction xs arbitrary: s) (auto simp: fixed_rx_md_def Let_def upd_fb_rx_def upd_lmds_def)
  have tx: "f_recv_next (fold (fixed_tx_md K) xs s) = f_recv_next s \<and> f_trans_next (fold (fixed_tx_md K) xs s) = f_trans_next s"
    for xs s by (induction xs arbitrary: s) (auto simp: fixed_tx_md_def Let_def upd_fb_tx_def upd_lmds_def)
  show ?thesis by (simp add: fb_layout_def fb_fixed_rings_def fb_carve_mds_def Let_def split_def rx tx)
qed

lemma fb_init_memory_sound:
  assumes "length (f_recv_ring s) = LNC_NDESC (f_nrdre s)" "length (f_trans_ring s) = LNC_NDESC (f_ntdre s)"
    "f_mem_mode s \<noteq> SHMEM" "fb_mem_size (f_nrdre s) (f_ntdre s) \<le> 2 ^ 32"
  shows "fb_fresh K (fb_init_memory E K s) \<and> fb_areas_ok (fb_init_memory E K s) \<and> fb_block_ok K (fb_init_memory E K s)"
proof -
  define s' where "s' = (fb_lnc_stop E s)\<lparr>fi_flags := fi_flags (fb_lnc_stop E s) OR
      (bk_IFF_BROADCAST K OR bk_IFF_SIMPLEX K OR bk_IFF_MULTICAST K)\<rparr>"
  note sel = same_vars_fb_sel[OF evolves_same_vars[OF evolves_fb_regs(5)]]
  have a: "length (f_recv_ring s') = LNC_NDESC (f_nrdre s')" "length (f_trans_ring s') = LNC_NDESC (f_ntdre s')"
    "f_mem_mode s' \<noteq> SHMEM" "fb_mem_size (f_nrdre s') (f_ntdre s') \<le> 2 ^ 32"
    using assms by (simp_all add: s'_def sel)
  have i: "fb_init_memory E K s = fb_fill_block K (fb_layout K s')" by (simp add: fb_init_memory_def s'_def)
  have "f_ring_base (fb_layout K s') = f_ring_base s' \<and> f_nrdre (fb_layout K s') = f_nrdre s' \<and> f_ntdre (fb_layout K s') = f_ntdre s'"
    using fb_layout_rings[OF a(1,2), of K] by blast
  then have "fb_areas_ok (fb_layout K s')" unfolding fb_areas_ok_def using fb_layout_sound[OF a, of K] by simp
  then show ?thesis
    using fb_layout_fresh[OF a, of K] fb_layout_geom[OF a, of K] fb_layout_next[OF a(1,2), of K]
    unfolding i fb_fresh_def by (simp add: fb_fill_block_sound)
qed

lemma fb_init_chip_sound:
  assumes "length (f_recv_ring s) = LNC_NDESC (f_nrdre s)" "length (f_trans_ring s) = LNC_NDESC (f_ntdre s)"
    "f_mem_mode s = DMA_FIXED" "fb_mem_size (f_nrdre s) (f_ntdre s) \<le> 2 ^ 32"
  shows "fb_areas_ok (snd (fb_init_chip E K s)) \<and> fb_block_ok K (snd (fb_init_chip E K s)) \<and>
     (quiet_chip E \<longrightarrow> fb_fresh K (snd (fb_init_chip E K s)))"
proof -
  have m: "f_mem_mode s \<noteq> DMA_MBUF" "f_mem_mode s \<noteq> SHMEM" using assms(3) by simp_all
  obtain u fl where u: "evolves E (fb_init_memory E K s) u" "snd (fb_init_chip E K s) = u\<lparr>fi_drv_flags := fl\<rparr>"
    using fb_init_chip_fixed[OF m(1), of E K] by blast
  have q: "quiet_chip E \<Longrightarrow> mem u = mem (fb_init_memory E K s)"
    using u(1) by (induction rule: evolves.induct) (simp_all add: quiet_mem)
  note sel = same_vars_fb_sel[OF evolves_same_vars[OF u(1)]]
  note im = fb_init_memory_sound[OF assms(1,2) m(2) assms(4), of K E]
  have "fb_areas_ok (u\<lparr>fi_drv_flags := fl\<rparr>)" using im by (simp add: fb_areas_ok_def fb_areas_def sel)
  moreover have "fb_block_ok K (u\<lparr>fi_drv_flags := fl\<rparr>)" using im by (simp add: fb_block_ok_def sel)
  moreover have "quiet_chip E \<longrightarrow> fb_fresh K (u\<lparr>fi_drv_flags := fl\<rparr>)"
    using im q by (simp add: fb_fresh_def fb_descs_fresh_def fb_geom_def fb_rx_md_def fb_tx_md_def sel)
  ultimately show ?thesis unfolding u(2) by blast
qed

lemma fb_init_chip_geometry:
  assumes "length (f_recv_ring s) = LNC_NDESC (f_nrdre s)" "length (f_trans_ring s) = LNC_NDESC (f_ntdre s)"
    "f_mem_mode s = DMA_FIXED"
  shows "f_ring_base (snd (fb_init_chip E K s)) = f_ring_base s \<and> f_nrdre (snd (fb_init_chip E K s)) = f_nrdre s \<and>
     f_ntdre (snd (fb_init_chip E K s)) = f_ntdre s"
proof -
  obtain u fl where u: "evolves E (fb_init_memory E K s) u" "snd (fb_init_chip E K s) = u\<lparr>fi_drv_flags := fl\<rparr>"
    using fb_init_chip_fixed[of s E K] assms(3) by auto
  note sel = same_vars_fb_sel[OF evolves_same_vars[OF u(1)]]
  note stop = same_vars_fb_sel[OF evolves_same_vars[OF evolves_fb_regs(5)]]
  have fill: "f_ring_base (fb_fill_block K x) = f_ring_base x \<and> f_nrdre (fb_fill_block K x) = f_nrdre x \<and>
      f_ntdre (fb_fill_block K x) = f_ntdre x" for x
    by (simp add: fb_fill_block_def fb_lnc_setladrf_def Let_def)
  let ?s = "(fb_lnc_stop E s)\<lparr>fi_flags := fi_flags (fb_lnc_stop E s) OR (bk_IFF_BROADCAST K OR bk_IFF_SIMPLEX K OR bk_IFF_MULTICAST K)\<rparr>"
  have "f_ring_base (fb_layout K ?s) = f_ring_base ?s \<and> f_nrdre (fb_layout K ?s) = f_nrdre ?s \<and> f_ntdre (fb_layout K ?s) = f_ntdre ?s"
    using fb_layout_rings[of ?s K] assms(1,2) by (simp add: stop)
  then show ?thesis by (simp add: u(2) sel fb_init_memory_def fill stop)
qed

text \<open>The descriptors as the chip reads them: an address of 24 bits survives the packing.\<close>

lemma fixed_desc_addr:
  assumes "bk_kvtop K p < 2 ^ 24"
  shows "addr24 (md0 (fixed_rx_desc K p)) (md1 (fixed_rx_desc K p)) = bk_kvtop K p"
    "addr24 (md0 (fixed_tx_desc K p)) (md1 (fixed_tx_desc K p)) = bk_kvtop K p"
  using addr24_split[OF assms, of OWN] addr24_plain[OF assms] by (simp_all add: fixed_rx_desc_def fixed_tx_desc_def OWN_def)

lemma fixed_desc_own: "has (md1 (fixed_rx_desc K p)) OWN" "\<not> has (md1 (fixed_tx_desc K p)) OWN"
  "\<not> has (md1 (fixed_tx_desc K p)) (STP OR OWN OR ENP OR MDERR)"
proof -
  have "(ucast (drop_bit 16 a AND 0xff :: u32) :: u16) AND x = 0" if "x AND 0xff = 0" for a x
  proof (rule bit_word_eqI)
    fix n assume "n < LENGTH(16)"
    have "\<not> bit (x AND 0xff) n" using that by simp
    then show "bit ((ucast (drop_bit 16 a AND 0xff :: u32) :: u16) AND x) n = bit 0 n"
      unfolding mask_8 by (auto simp: bit_simps)
  qed
  then show "\<not> has (md1 (fixed_tx_desc K p)) OWN" "\<not> has (md1 (fixed_tx_desc K p)) (STP OR OWN OR ENP OR MDERR)"
    by (simp_all add: has_def fixed_tx_desc_def OWN_def STP_def ENP_def MDERR_def)
  show "has (md1 (fixed_rx_desc K p)) OWN"
    by (simp add: fixed_rx_desc_def has_or) (simp add: has_def OWN_def)
qed

subsection \<open>After a successful attachment\<close>

definition fb_attached :: "fb_softc \<Rightarrow> bool" where
  "fb_attached s \<longleftrightarrow> length (f_recv_ring s) = LNC_NDESC (f_nrdre s) \<and> length (f_trans_ring s) = LNC_NDESC (f_ntdre s) \<and>
     f_mem_mode s = DMA_FIXED \<and> f_nrdre s = NRDRE \<and> f_ntdre s = NTDRE"

lemma attached_same: "same_vars s t \<Longrightarrow> fb_attached t = fb_attached s"
  by (simp add: fb_attached_def same_vars_fb_sel)

lemma attach_common_attached: "fb_attached (snd (fb_lnc_attach_common E K s)) = fb_attached s"
proof -
  have m: "fb_attached (x\<lparr>f_mode := m\<rparr>) = fb_attached x" "fb_attached (x\<lparr>f_ifp := b\<rparr>) = fb_attached x"
    "fb_attached (x\<lparr>fi_flags := fl, fi_timer := n\<rparr>) = fb_attached x" "fb_attached (x\<lparr>fi_enaddr := e\<rparr>) = fb_attached x"
    for x m b fl n e by (simp_all add: fb_attached_def)
  have r: "fb_attached (snd (read_eaddr E k is x)) = fb_attached x" for k "is" x
    using read_eaddr_keeps[of E k "is" x] attached_same by blast
  have e: "fb_attached (emit E ev x) = fb_attached x" for ev x by (rule attached_same) simp
  show ?thesis by (simp add: fb_lnc_attach_common_def os_call_def Let_def split_def m r e)
qed

lemma attach_ok_attached:
  assumes "fb_lnc_pci_attach E K s = (FbOk, t)"
  shows "fb_attached t \<and> fb_mem_size (f_nrdre t) (f_ntdre t) \<le> 2 ^ 32"
proof -
  have e: "fb_attached (emit E ev x) = fb_attached x" for ev x by (rule attached_same) simp
  have r: "fb_attached (fb_ring_memory K (emit E e1 ((emit E e2 (fb_nic_setup x))\<lparr>f_dmat := True\<rparr>)))" for e1 e2 x
  proof -
    let ?y = "emit E e1 ((emit E e2 (fb_nic_setup x))\<lparr>f_dmat := True\<rparr>)"
    have "f_nrdre ?y = NRDRE \<and> f_ntdre ?y = NTDRE \<and> f_mem_mode ?y = DMA_FIXED"
      by (simp add: same_vars_fb_sel[OF same_vars_emit] fb_nic_setup_def)
    then show ?thesis by (simp add: fb_attached_def fb_ring_memory_def)
  qed
  from assms have "fb_attached t"
    unfolding fb_lnc_pci_attach_def os_call_def Let_def
    by (auto split: if_splits prod.splits simp: e r dest!: arg_cong[where f = "\<lambda>x. fb_attached (snd x)"] simp: attach_common_attached)
  then show ?thesis by (simp add: fb_attached_def fb_mem_size_def hw_consts LNC_NDESC_def)
qed

end
