(* ===== verification/Fbsd_Send.thy ===== *)
theory Fbsd_Send
  imports Fbsd_Init
begin

text \<open>
  Output of the FreeBSD driver in the mode of the PCI attachment: the chains in the interface
  queue are copied into the buffers of the ring, one descriptor each, until the queue is empty or
  the ring full. An mbuf chain is a linked list in the kernel's memory.
\<close>

unbundle bit_operations_syntax

subsection \<open>Chains\<close>

primrec mchain :: "(u32 \<Rightarrow> bsd_mbuf) \<Rightarrow> u32 \<Rightarrow> u32 list \<Rightarrow> bool" where
  "mchain mb p [] \<longleftrightarrow> p = 0"
| "mchain mb p (a # as) \<longleftrightarrow> p \<noteq> 0 \<and> p = a \<and> mchain mb (m_next (mb p)) as"

definition mbuf_area :: "bsd_mbuf \<Rightarrow> u32 \<times> nat" where
  "mbuf_area d = (m_data d, nat (m_len d))"

definition area_data :: "(u32 \<Rightarrow> u8) \<Rightarrow> u32 \<times> nat \<Rightarrow> u8 list" where
  "area_data r a = map (\<lambda>k. r (fst a + of_nat k)) [0..<snd a]"

definition chain_data :: "(u32 \<Rightarrow> bsd_mbuf) \<Rightarrow> (u32 \<Rightarrow> u8) \<Rightarrow> u32 list \<Rightarrow> u8 list" where
  "chain_data mb r ms = concat (map (\<lambda>m. area_data r (mbuf_area (mb m))) ms)"

lemma length_area_data [simp]: "length (area_data r a) = snd a"
  by (simp add: area_data_def)

lemma area_data_cong: "(\<And>x. x \<in> area_bytes a \<Longrightarrow> r x = r' x) \<Longrightarrow> area_data r a = area_data r' a"
  by (auto simp: area_data_def area_bytes_def)

lemma chain_data_Cons: "chain_data mb r (m # ms) = area_data r (mbuf_area (mb m)) @ chain_data mb r ms"
  by (simp add: chain_data_def)

lemma length_chain_data: "length (chain_data mb r ms) = (\<Sum>m\<leftarrow>ms. nat (m_len (mb m)))"
  by (simp add: chain_data_def length_concat comp_def mbuf_area_def)

lemma chain_data_cong:
  "(\<And>m x. m \<in> set ms \<Longrightarrow> x \<in> area_bytes (mbuf_area (mb m)) \<Longrightarrow> r x = r' x) \<Longrightarrow> chain_data mb r ms = chain_data mb r' ms"
  unfolding chain_data_def by (rule arg_cong[where f = concat], rule map_cong[OF refl], rule area_data_cong) blast

text \<open>One copy is a write of the bytes read.\<close>

lemma ram_copy_poke:
  assumes "0 \<le> m_len d" "m_len d < 2 ^ 32"
  shows "ram_copy (m_data d) dst (m_len d) s =
     s\<lparr>mem := (mem s)\<lparr>ram := poke dst (area_data (ram (mem s)) (mbuf_area d)) (ram (mem s))\<rparr>\<rparr>"
proof -
  have "unat (of_int (m_len d) :: u32) = nat (m_len d)"
  proof -
    obtain n where n: "m_len d = int n" using assms(1) nonneg_int_cases by blast
    with assms(2) have "n mod 2 ^ LENGTH(32) = n" by simp
    then show ?thesis using n by (simp only: of_int_of_nat_eq nat_int unat_of_nat)
  qed
  then show ?thesis by (auto simp: ram_copy_def poke_def area_data_def mbuf_area_def fun_eq_iff)
qed

definition chain_apart :: "fb_softc \<Rightarrow> u32 list \<Rightarrow> u32 \<Rightarrow> bool" where
  "chain_apart s ms buffer \<longleftrightarrow>
     (\<forall>m\<in>set ms. 0 \<le> m_len (f_mb s m) \<and> m_len (f_mb s m) \<le> int TRANSBUFSIZE \<and>
        area_bytes (mbuf_area (f_mb s m)) \<inter> area_bytes (buffer, TRANSBUFSIZE) = {})"

lemma mbuf_to_buffer_run:
  assumes "mchain (f_mb s) m ms" "chain_apart s ms buffer" "off + length (chain_data (f_mb s) (ram (mem s)) ms) \<le> TRANSBUFSIZE"
  shows "fb_mbuf_to_buffer m (buffer + of_nat off) len s =
     Some (len + int (length (chain_data (f_mb s) (ram (mem s)) ms)),
       s\<lparr>mem := (mem s)\<lparr>ram := poke (buffer + of_nat off) (chain_data (f_mb s) (ram (mem s)) ms) (ram (mem s))\<rparr>\<rparr>)"
  using assms
proof (induction ms arbitrary: m off len s)
  case Nil
  then show ?case by (subst fb_mbuf_to_buffer.simps) (simp add: chain_data_def poke_def)
next
  case (Cons a ms)
  let ?d = "f_mb s m" and ?r = "ram (mem s)" and ?dst = "buffer + of_nat off"
  let ?b = "area_data ?r (mbuf_area ?d)"
  let ?s = "s\<lparr>mem := (mem s)\<lparr>ram := poke ?dst ?b ?r\<rparr>\<rparr>"
  have m: "m \<noteq> 0" "a = m" "mchain (f_mb s) (m_next ?d) ms" using Cons.prems(1) by auto
  have l: "0 \<le> m_len ?d" "m_len ?d < 2 ^ 32" "length ?b = nat (m_len ?d)"
    using Cons.prems(2) m(2) by (auto simp: chain_apart_def mbuf_area_def TRANSBUFSIZE_def)
  have tot: "off + length ?b + length (chain_data (f_mb s) ?r ms) \<le> TRANSBUFSIZE"
    using Cons.prems(3) m(2) by (simp add: chain_data_Cons)
  have ap: "chain_apart ?s ms buffer" using Cons.prems(2) by (simp add: chain_apart_def)
  have same: "chain_data (f_mb s) (poke ?dst ?b ?r) ms = chain_data (f_mb s) ?r ms"
  proof (rule chain_data_cong, rule poke_miss)
    fix m' x assume "m' \<in> set ms" "x \<in> area_bytes (mbuf_area (f_mb s m'))"
    then have "x \<notin> area_bytes (buffer, TRANSBUFSIZE)" using Cons.prems(2) by (auto simp: chain_apart_def)
    moreover have "area_bytes (buffer + of_nat off, length ?b) \<subseteq> area_bytes (buffer, TRANSBUFSIZE)"
      by (rule area_bytes_within) (use tot in simp)
    ultimately show "x \<notin> area_bytes (?dst, length ?b)" by blast
  qed
  have nx: "?dst + of_int (m_len ?d) = buffer + of_nat (off + length ?b)"
    using l by (simp add: add.assoc flip: of_int_of_nat_eq[of "nat (m_len ?d)"])
  have app: "poke (buffer + of_nat (off + length ?b)) (chain_data (f_mb s) ?r ms) (poke ?dst ?b ?r)
      = poke ?dst (?b @ chain_data (f_mb s) ?r ms) ?r"
    using poke_append[of ?b "chain_data (f_mb s) ?r ms" ?dst ?r] tot by (simp add: TRANSBUFSIZE_def add.assoc)
  have "fb_mbuf_to_buffer m ?dst len s = fb_mbuf_to_buffer (m_next ?d) (?dst + of_int (m_len ?d)) (len + m_len ?d) ?s"
    by (subst fb_mbuf_to_buffer.simps) (simp add: m(1) ram_copy_poke[OF l(1,2)] Let_def)
  also have "\<dots> = fb_mbuf_to_buffer (m_next ?d) (buffer + of_nat (off + length ?b)) (len + m_len ?d) ?s"
    by (simp only: nx)
  also have "\<dots> = Some (len + m_len ?d + int (length (chain_data (f_mb s) ?r ms)),
      ?s\<lparr>mem := (mem ?s)\<lparr>ram := poke (buffer + of_nat (off + length ?b)) (chain_data (f_mb s) ?r ms) (ram (mem ?s))\<rparr>\<rparr>)"
    using Cons.IH[of ?s "m_next ?d" "off + length ?b" "len + m_len ?d"] m(3) ap tot same by simp
  finally show ?case using l app m(2) by (simp add: chain_data_Cons)
qed

subsection \<open>One packet\<close>

lemma quiet_emit: "quiet_chip E \<Longrightarrow> emit E e s = s\<lparr>trace := e # trace s\<rparr>" for s :: fb_softc
  by (cases s) (simp add: emit_def quiet_chip_def)

lemma upd_fb_tx_twice: "upd_fb_tx i f (upd_fb_tx i g s) = upd_fb_tx i (f \<circ> g) s"
  by (simp add: upd_fb_tx_def upd_lmds_def)

lemma umax_small: "0 \<le> a \<Longrightarrow> a < 2 ^ 31 \<Longrightarrow> 0 \<le> b \<Longrightarrow> b < 2 ^ 31 \<Longrightarrow> umax a b = max a b"
  by (simp add: umax_def take_bit_int_eq_self signed_take_bit_int_eq_self max_def)

definition fb_slot_holds :: "fb_softc \<Rightarrow> nat \<Rightarrow> u8 list \<Rightarrow> bool" where
  "fb_slot_holds s j bs \<longleftrightarrow>
     has (md1 (fb_tx_md s j)) OWN \<and> has (md1 (fb_tx_md s j)) STP \<and> has (md1 (fb_tx_md s j)) ENP \<and>
     md2 (fb_tx_md s j) = - of_nat (max (length bs) (ETHER_MIN_LEN - ETHER_CRC_LEN)) \<and>
     area_data (ram (mem s)) (fre_buff (f_trans_ring s ! j), length bs) = bs"

definition fb_slot_same :: "fb_softc \<Rightarrow> fb_softc \<Rightarrow> nat \<Rightarrow> bool" where
  "fb_slot_same s t j \<longleftrightarrow> fb_tx_md t j = fb_tx_md s j \<and>
     (\<forall>x\<in>area_bytes (fre_buff (f_trans_ring s ! j), TRANSBUFSIZE). ram (mem t) x = ram (mem s) x)"

lemma fb_slot_same_holds:
  "fb_slot_same s t j \<Longrightarrow> f_trans_ring t = f_trans_ring s \<Longrightarrow> length bs \<le> TRANSBUFSIZE \<Longrightarrow> fb_slot_holds s j bs \<Longrightarrow>
     fb_slot_holds t j bs"
proof -
  assume a: "fb_slot_same s t j" "f_trans_ring t = f_trans_ring s" "length bs \<le> TRANSBUFSIZE" "fb_slot_holds s j bs"
  have "area_bytes (fre_buff (f_trans_ring s ! j), length bs) \<subseteq> area_bytes (fre_buff (f_trans_ring s ! j), TRANSBUFSIZE)"
    using area_bytes_within[of 0 "length bs" TRANSBUFSIZE "fre_buff (f_trans_ring s ! j)"] a(3) by simp
  then have "area_data (ram (mem t)) (fre_buff (f_trans_ring s ! j), length bs)
     = area_data (ram (mem s)) (fre_buff (f_trans_ring s ! j), length bs)"
    using a(1) by (intro area_data_cong) (auto simp: fb_slot_same_def)
  with a show ?thesis by (simp add: fb_slot_same_def fb_slot_holds_def)
qed

text \<open>Packets that fit, outside the transmit buffers, and buffers apart.\<close>

definition fb_tx_buffers_apart :: "fb_softc \<Rightarrow> bool" where
  "fb_tx_buffers_apart s \<longleftrightarrow> (\<forall>i<LNC_NDESC (f_ntdre s). \<forall>j<LNC_NDESC (f_ntdre s). i \<noteq> j \<longrightarrow>
     area_bytes (fre_buff (f_trans_ring s ! i), TRANSBUFSIZE) \<inter> area_bytes (fre_buff (f_trans_ring s ! j), TRANSBUFSIZE) = {})"

definition fb_pkt_ok :: "fb_softc \<Rightarrow> u32 \<Rightarrow> u32 list \<Rightarrow> bool" where
  "fb_pkt_ok s h ms \<longleftrightarrow> mchain (f_mb s) h ms \<and> length (chain_data (f_mb s) (ram (mem s)) ms) \<le> TRANSBUFSIZE \<and>
     (\<forall>j<LNC_NDESC (f_ntdre s). chain_apart s ms (fre_buff (f_trans_ring s ! j)))"

definition fb_sent :: "u32 list \<Rightarrow> u8 list \<Rightarrow> fb_softc \<Rightarrow> fb_softc" where
  "fb_sent hs bs s = (upd_fb_tx (f_next_to_send s)
       (\<lambda>d. d\<lparr>md3 := 0, md2 := - of_nat (max (length bs) (ETHER_MIN_LEN - ETHER_CRC_LEN)), md1 := md1 d OR (OWN OR STP OR ENP)\<rparr>)
       (s\<lparr>fi_snd := hs, f_pending := f_pending s + 1,
          mem := (mem s)\<lparr>ram := poke (fre_buff (f_trans_ring s ! f_next_to_send s)) bs (ram (mem s))\<rparr>\<rparr>))
     \<lparr>f_next_to_send := LNC_INC_MD_PTR (f_next_to_send s) (f_ntdre s)\<rparr>"

lemma send_copy_run:
  assumes "fb_pkt_ok s h ms" "f_next_to_send s < LNC_NDESC (f_ntdre s)"
  shows "send_copy h (s\<lparr>fi_snd := hs\<rparr>) = Some (fb_sent hs (chain_data (f_mb s) (ram (mem s)) ms) s)"
proof -
  let ?bs = "chain_data (f_mb s) (ram (mem s)) ms" and ?b = "fre_buff (f_trans_ring s ! f_next_to_send s)"
  let ?s = "s\<lparr>fi_snd := hs, f_pending := f_pending s + 1\<rparr>"
  have l: "length ?bs \<le> 1518" using assms(1) by (simp add: fb_pkt_ok_def TRANSBUFSIZE_def)
  have "chain_apart ?s ms ?b" using assms by (simp add: fb_pkt_ok_def chain_apart_def)
  then have m: "fb_mbuf_to_buffer h ?b 0 ?s = Some (int (length ?bs), ?s\<lparr>mem := (mem s)\<lparr>ram := poke ?b ?bs (ram (mem s))\<rparr>\<rparr>)"
    using mbuf_to_buffer_run[of ?s h ms ?b 0 0] assms(1) by (simp add: fb_pkt_ok_def)
  have "umax (int (length ?bs)) (int (ETHER_MIN_LEN - ETHER_CRC_LEN)) = int (max (length ?bs) (ETHER_MIN_LEN - ETHER_CRC_LEN))"
    using l by (simp add: umax_small hw_consts)
  then show ?thesis
    by (simp add: send_copy_def Let_def m upd_fb_tx_twice comp_def fb_sent_def)
       (simp add: upd_fb_tx_def upd_lmds_def)
qed

lemma fb_sent_sel:
  "f_trans_ring (fb_sent hs bs s) = f_trans_ring s" "f_recv_ring (fb_sent hs bs s) = f_recv_ring s"
  "f_nrdre (fb_sent hs bs s) = f_nrdre s" "f_ntdre (fb_sent hs bs s) = f_ntdre s" "f_mb (fb_sent hs bs s) = f_mb s"
  "fi_snd (fb_sent hs bs s) = hs" "f_pending (fb_sent hs bs s) = f_pending s + 1" "f_mem_mode (fb_sent hs bs s) = f_mem_mode s"
  "f_next_to_send (fb_sent hs bs s) = LNC_INC_MD_PTR (f_next_to_send s) (f_ntdre s)"
  "fi_drv_flags (fb_sent hs bs s) = fi_drv_flags s" "f_trans_next (fb_sent hs bs s) = f_trans_next s"
  "ram (mem (fb_sent hs bs s)) = poke (fre_buff (f_trans_ring s ! f_next_to_send s)) bs (ram (mem s))"
  by (simp_all add: fb_sent_def upd_fb_tx_def upd_lmds_def)

lemma fb_sent_outside:
  assumes "length bs \<le> TRANSBUFSIZE" "x \<notin> area_bytes (fre_buff (f_trans_ring s ! f_next_to_send s), TRANSBUFSIZE)"
  shows "ram (mem (fb_sent hs bs s)) x = ram (mem s) x"
proof -
  have "area_bytes (fre_buff (f_trans_ring s ! f_next_to_send s), length bs)
     \<subseteq> area_bytes (fre_buff (f_trans_ring s ! f_next_to_send s), TRANSBUFSIZE)"
    using area_bytes_within[of 0 "length bs" TRANSBUFSIZE "fre_buff (f_trans_ring s ! f_next_to_send s)"] assms(1) by simp
  then show ?thesis using assms(2) by (auto simp: fb_sent_sel intro: poke_miss)
qed

lemma fb_sent_md:
  assumes "fb_geom s" "f_next_to_send s < LNC_NDESC (f_ntdre s)" "j < LNC_NDESC (f_ntdre s)"
  shows "fb_tx_md (fb_sent hs bs s) j = (if j = f_next_to_send s
     then (fb_tx_md s j)\<lparr>md3 := 0, md2 := - of_nat (max (length bs) (ETHER_MIN_LEN - ETHER_CRC_LEN)),
         md1 := md1 (fb_tx_md s j) OR (OWN OR STP OR ENP)\<rparr>
     else fb_tx_md s j)"
proof -
  let ?s = "s\<lparr>fi_snd := hs, f_pending := f_pending s + 1,
      mem := (mem s)\<lparr>ram := poke (fre_buff (f_trans_ring s ! f_next_to_send s)) bs (ram (mem s))\<rparr>\<rparr>"
  have g: "fb_geom ?s" using assms(1) by (simp add: fb_geom_def)
  have t: "fb_tx_md ?s k = fb_tx_md s k" for k by (simp add: fb_tx_md_def)
  have n: "fb_tx_md (u\<lparr>f_next_to_send := i\<rparr>) k = fb_tx_md u k" for u i k by (simp add: fb_tx_md_def)
  show ?thesis using fb_md_upd(2)[OF g, of "f_next_to_send s" j] assms(2,3) by (simp add: fb_sent_def n t)
qed

lemma fb_sent_slots:
  assumes "fb_geom s" "f_next_to_send s < LNC_NDESC (f_ntdre s)" "length bs \<le> TRANSBUFSIZE"
  shows "fb_slot_holds (fb_sent hs bs s) (f_next_to_send s) bs"
    "fb_tx_buffers_apart s \<Longrightarrow> j < LNC_NDESC (f_ntdre s) \<Longrightarrow> j \<noteq> f_next_to_send s \<Longrightarrow> fb_slot_same s (fb_sent hs bs s) j"
proof -
  have o: "has (x OR (OWN OR STP OR ENP)) OWN" "has (x OR (OWN OR STP OR ENP)) STP" "has (x OR (OWN OR STP OR ENP)) ENP" for x
    unfolding has_or by (simp_all add: has_def OWN_def STP_def ENP_def)
  have "area_data (ram (mem (fb_sent hs bs s))) (fre_buff (f_trans_ring s ! f_next_to_send s), length bs) = bs"
    using assms(3) unfolding area_data_def fb_sent_sel
    by (intro nth_equalityI) (simp_all add: poke_hit TRANSBUFSIZE_def)
  then show "fb_slot_holds (fb_sent hs bs s) (f_next_to_send s) bs"
    using o by (simp add: fb_slot_holds_def fb_sent_md[OF assms(1,2)] assms(2) fb_sent_sel)
  show "fb_slot_same s (fb_sent hs bs s) j"
    if a: "fb_tx_buffers_apart s" "j < LNC_NDESC (f_ntdre s)" "j \<noteq> f_next_to_send s"
  proof -
    have "area_bytes (fre_buff (f_trans_ring s ! j), TRANSBUFSIZE)
        \<inter> area_bytes (fre_buff (f_trans_ring s ! f_next_to_send s), TRANSBUFSIZE) = {}"
      using a assms(2) by (simp add: fb_tx_buffers_apart_def)
    then show ?thesis
      using a by (auto simp: fb_slot_same_def fb_sent_md[OF assms(1,2)] intro!: fb_sent_outside[OF assms(3)])
  qed
qed

lemma fb_pkt_ok_sent:
  assumes "fb_pkt_ok s h ms" "length bs \<le> TRANSBUFSIZE" "f_next_to_send s < LNC_NDESC (f_ntdre s)"
  shows "chain_data (f_mb s) (ram (mem (fb_sent hs bs s))) ms = chain_data (f_mb s) (ram (mem s)) ms"
    "fb_pkt_ok (fb_sent hs bs s) h ms"
proof -
  show e: "chain_data (f_mb s) (ram (mem (fb_sent hs bs s))) ms = chain_data (f_mb s) (ram (mem s)) ms"
  proof (rule chain_data_cong, rule fb_sent_outside[OF assms(2)])
    fix m x assume "m \<in> set ms" "x \<in> area_bytes (mbuf_area (f_mb s m))"
    then show "x \<notin> area_bytes (fre_buff (f_trans_ring s ! f_next_to_send s), TRANSBUFSIZE)"
      using assms(1,3) by (fastforce simp: fb_pkt_ok_def chain_apart_def)
  qed
  show "fb_pkt_ok (fb_sent hs bs s) h ms"
    using assms(1) e by (simp add: fb_pkt_ok_def fb_sent_sel chain_apart_def del: fb_sent_sel(12))
qed

subsection \<open>The loop\<close>

definition fb_send_ok :: "fb_softc \<Rightarrow> u32 list list \<Rightarrow> bool" where
  "fb_send_ok s pkts \<longleftrightarrow> fb_geom s \<and> fb_tx_buffers_apart s \<and> f_mem_mode s = DMA_FIXED \<and>
     f_next_to_send s < LNC_NDESC (f_ntdre s) \<and> list_all2 (fb_pkt_ok s) (fi_snd s) pkts"

definition fb_pkt_bytes :: "fb_softc \<Rightarrow> u32 list \<Rightarrow> u8 list" where
  "fb_pkt_bytes s ms = chain_data (f_mb s) (ram (mem s)) ms"

text \<open>The state after one packet: the commands to the chip, the time-out, the tap and the release.\<close>

definition fb_after_one :: "u32 \<Rightarrow> u32 list \<Rightarrow> u8 list \<Rightarrow> fb_softc \<Rightarrow> fb_softc" where
  "fb_after_one h hs bs s = (fb_sent hs bs s)\<lparr>fi_timer := 2,
     trace := Call ''m_freem'' [h] # Call ''BPF_MTAP'' [h] # Out16 (f_rdp s) (TDMD OR INEA) # trace s\<rparr>"

lemma fb_after_one_sel:
  "f_trans_ring (fb_after_one h hs bs s) = f_trans_ring s" "f_ntdre (fb_after_one h hs bs s) = f_ntdre s"
  "f_mb (fb_after_one h hs bs s) = f_mb s" "fi_snd (fb_after_one h hs bs s) = hs"
  "f_pending (fb_after_one h hs bs s) = f_pending s + 1" "f_mem_mode (fb_after_one h hs bs s) = f_mem_mode s"
  "f_next_to_send (fb_after_one h hs bs s) = LNC_INC_MD_PTR (f_next_to_send s) (f_ntdre s)"
  "fi_drv_flags (fb_after_one h hs bs s) = fi_drv_flags s" "f_trans_next (fb_after_one h hs bs s) = f_trans_next s"
  "f_recv_ring (fb_after_one h hs bs s) = f_recv_ring s" "f_nrdre (fb_after_one h hs bs s) = f_nrdre s"
  "mem (fb_after_one h hs bs s) = mem (fb_sent hs bs s)" "fb_tx_md (fb_after_one h hs bs s) j = fb_tx_md (fb_sent hs bs s) j"
  by (simp_all add: fb_after_one_def fb_sent_sel fb_tx_md_def)

lemma fb_start_step:
  assumes "quiet_chip E" "fb_send_ok s (ms # pkts)" "fi_snd s = h # hs"
  defines "t \<equiv> fb_after_one h hs (fb_pkt_bytes s ms) s"
  shows "fb_lnc_start E K s = (if f_pending t < int (LNC_NDESC (f_ntdre s)) then fb_lnc_start E K t
       else Some (t\<lparr>fi_drv_flags := fi_drv_flags t OR bk_IFF_DRV_OACTIVE K\<rparr>))"
proof -
  have ok: "fb_pkt_ok s h ms" "f_next_to_send s < LNC_NDESC (f_ntdre s)" "f_mem_mode s = DMA_FIXED"
    using assms(2,3) by (simp_all add: fb_send_ok_def)
  have m: "f_mem_mode (fb_sent hs (fb_pkt_bytes s ms) s) = DMA_FIXED" by (simp add: fb_sent_sel ok(3))
  have r: "f_rdp (fb_sent hs (fb_pkt_bytes s ms) s) = f_rdp s" "trace (fb_sent hs (fb_pkt_bytes s ms) s) = trace s"
    by (simp_all add: fb_sent_def upd_fb_tx_def upd_lmds_def)
  show ?thesis
    by (subst fb_lnc_start.simps)
      (simp add: assms(3) ok(3) send_copy_run[OF ok(1,2), folded fb_pkt_bytes_def] Let_def m csrWrite16_def r
        quiet_emit[OF assms(1)] bsd_m_freem_def t_def fb_after_one_def fb_sent_sel)
qed

definition fb_sent_upto :: "bsd \<Rightarrow> fb_softc \<Rightarrow> u32 list list \<Rightarrow> nat \<Rightarrow> fb_softc \<Rightarrow> bool" where
  "fb_sent_upto K s pkts k t \<longleftrightarrow> (let slots = cyc_seg (LNC_NDESC (f_ntdre s)) (f_next_to_send s) k in
     fi_snd t = drop k (fi_snd s) \<and> f_pending t = f_pending s + int k \<and>
     f_next_to_send t = (f_next_to_send s + k) mod LNC_NDESC (f_ntdre s) \<and>
     f_trans_ring t = f_trans_ring s \<and> f_ntdre t = f_ntdre s \<and> f_trans_next t = f_trans_next s \<and>
     f_recv_ring t = f_recv_ring s \<and> f_nrdre t = f_nrdre s \<and> f_mem_mode t = f_mem_mode s \<and>
     fi_drv_flags t = (if f_pending t = int (LNC_NDESC (f_ntdre s)) then fi_drv_flags s OR bk_IFF_DRV_OACTIVE K else fi_drv_flags s) \<and>
     list_all2 (fb_slot_holds t) slots (map (fb_pkt_bytes s) (take k pkts)) \<and>
     (\<forall>j<LNC_NDESC (f_ntdre s). j \<notin> set slots \<longrightarrow> fb_slot_same s t j))"

lemma fb_after_one_ok:
  assumes "fb_send_ok s (ms # pkts)" "fi_snd s = h # hs"
  defines "t \<equiv> fb_after_one h hs (fb_pkt_bytes s ms) s"
  shows "fb_send_ok t pkts" "map (fb_pkt_bytes t) pkts = map (fb_pkt_bytes s) pkts"
    "fb_slot_holds t (f_next_to_send s) (fb_pkt_bytes s ms)" "length (fb_pkt_bytes s ms) \<le> TRANSBUFSIZE"
    "\<forall>j<LNC_NDESC (f_ntdre s). j \<noteq> f_next_to_send s \<longrightarrow> fb_slot_same s t j"
proof -
  let ?u = "fb_sent hs (fb_pkt_bytes s ms) s"
  have ok: "fb_geom s" "fb_tx_buffers_apart s" "f_mem_mode s = DMA_FIXED" "f_next_to_send s < LNC_NDESC (f_ntdre s)"
    "fb_pkt_ok s h ms" "list_all2 (fb_pkt_ok s) hs pkts"
    using assms(1,2) by (simp_all add: fb_send_ok_def)
  show l: "length (fb_pkt_bytes s ms) \<le> TRANSBUFSIZE" using ok(5) by (simp add: fb_pkt_ok_def fb_pkt_bytes_def)
  have same: "fb_pkt_bytes t p = fb_pkt_bytes s p \<and> fb_pkt_ok t g p" if "fb_pkt_ok s g p" for g p
    using fb_pkt_ok_sent[OF that l ok(4), of hs] unfolding t_def
    by (simp add: fb_pkt_bytes_def fb_pkt_ok_def chain_apart_def fb_after_one_sel fb_sent_sel(1,4,5))
  have "\<forall>p\<in>set pkts. fb_pkt_bytes t p = fb_pkt_bytes s p"
    using ok(6) same by (metis in_set_conv_nth list_all2_conv_all_nth)
  then show "map (fb_pkt_bytes t) pkts = map (fb_pkt_bytes s) pkts" by simp
  have "list_all2 (fb_pkt_ok t) hs pkts" by (rule list_all2_mono[OF ok(6)]) (use same in blast)
  moreover have "fb_geom t" using ok(1) by (simp add: t_def fb_after_one_def fb_geom_def fb_sent_sel)
  ultimately show "fb_send_ok t pkts"
    using ok(2,3) by (simp add: fb_send_ok_def t_def fb_after_one_sel fb_tx_buffers_apart_def)
  show "fb_slot_holds t (f_next_to_send s) (fb_pkt_bytes s ms)"
    using fb_sent_slots(1)[OF ok(1,4) l, of hs] by (simp add: t_def fb_slot_holds_def fb_after_one_sel fb_sent_sel(1))
  show "\<forall>j<LNC_NDESC (f_ntdre s). j \<noteq> f_next_to_send s \<longrightarrow> fb_slot_same s t j"
    using fb_sent_slots(2)[OF ok(1,4) l ok(2), of _ hs] by (simp add: t_def fb_slot_same_def fb_after_one_sel)
qed

lemma fb_slot_same_refl [simp]: "fb_slot_same s s j"
  by (simp add: fb_slot_same_def)

lemma fb_slot_same_trans:
  "fb_slot_same s t j \<Longrightarrow> fb_slot_same t u j \<Longrightarrow> f_trans_ring t = f_trans_ring s \<Longrightarrow> fb_slot_same s u j"
  by (auto simp: fb_slot_same_def)

lemma fb_slot_flags:
  "fb_slot_holds (s\<lparr>fi_drv_flags := x\<rparr>) j bs = fb_slot_holds s j bs" "fb_slot_same s (t\<lparr>fi_drv_flags := x\<rparr>) j = fb_slot_same s t j"
  by (simp_all add: fb_slot_holds_def fb_slot_same_def fb_tx_md_def)

lemma fb_sent_upto_Suc:
  assumes "fb_send_ok s (ms # pkts)" "fi_snd s = h # hs" "0 \<le> f_pending s" "f_pending s + int (Suc k) \<le> int (LNC_NDESC (f_ntdre s))"
    and t: "t = fb_after_one h hs (fb_pkt_bytes s ms) s" and u: "fb_sent_upto K t pkts k u"
  shows "fb_sent_upto K s (ms # pkts) (Suc k) u"
proof -
  let ?N = "LNC_NDESC (f_ntdre s)" and ?n = "f_next_to_send s"
  note one = fb_after_one_ok[OF assms(1,2), folded t]
  have n: "?n < ?N" using assms(1) by (simp add: fb_send_ok_def)
  have sel: "f_trans_ring t = f_trans_ring s" "f_ntdre t = f_ntdre s" "fi_snd t = hs" "f_pending t = f_pending s + 1"
    "f_next_to_send t = Suc ?n mod ?N" "fi_drv_flags t = fi_drv_flags s" "f_trans_next t = f_trans_next s"
    "f_recv_ring t = f_recv_ring s" "f_nrdre t = f_nrdre s" "f_mem_mode t = f_mem_mode s"
    using n by (simp_all add: t fb_after_one_sel LNC_INC_mod)
  let ?sl = "cyc_seg ?N (Suc ?n mod ?N) k"
  have U: "fi_snd u = drop k hs" "f_pending u = f_pending s + 1 + int k" "f_next_to_send u = (Suc ?n mod ?N + k) mod ?N"
    "f_trans_ring u = f_trans_ring s" "f_ntdre u = f_ntdre s"
    "fi_drv_flags u = (if f_pending u = int ?N then fi_drv_flags s OR bk_IFF_DRV_OACTIVE K else fi_drv_flags s)"
    "list_all2 (fb_slot_holds u) ?sl (map (fb_pkt_bytes t) (take k pkts))"
    "\<forall>j<?N. j \<notin> set ?sl \<longrightarrow> fb_slot_same t u j"
    "f_trans_next u = f_trans_next s" "f_recv_ring u = f_recv_ring s" "f_nrdre u = f_nrdre s" "f_mem_mode u = f_mem_mode s"
    using u unfolding fb_sent_upto_def sel Let_def by simp_all
  have slots: "cyc_seg ?N ?n (Suc k) = ?n # ?sl" using n by (rule cyc_seg_Suc)
  have "distinct (cyc_seg ?N ?n (Suc k))" using assms(3,4) by (intro cyc_seg_distinct) simp
  then have fr: "?n \<notin> set ?sl" by (simp add: slots)
  have "fb_slot_holds u ?n (fb_pkt_bytes s ms)"
    using fb_slot_same_holds[OF _ _ one(4) one(3), of u] U(4,8) n fr sel(1) by simp
  moreover have "list_all2 (fb_slot_holds u) ?sl (map (fb_pkt_bytes s) (take k pkts))"
    using U(7) one(2) by (metis take_map)
  moreover have "fb_slot_same s u j" if "j < ?N" "j \<noteq> ?n" "j \<notin> set ?sl" for j
    using fb_slot_same_trans[of s t j u] one(5) U(8) that sel(1) by simp
  moreover have "(Suc ?n mod ?N + k) mod ?N = (?n + Suc k) mod ?N" by (simp add: mod_simps)
  ultimately show ?thesis using U(1-6,8-12) assms(2) unfolding fb_sent_upto_def slots Let_def by simp
qed

lemma fb_start_sends:
  assumes "quiet_chip E" "fb_send_ok s pkts" "0 \<le> f_pending s" "f_pending s < int (LNC_NDESC (f_ntdre s))"
  shows "\<exists>t. fb_lnc_start E K s = Some t \<and>
     fb_sent_upto K s pkts (min (length pkts) (nat (int (LNC_NDESC (f_ntdre s)) - f_pending s))) t"
  using assms(2-4)
proof (induction pkts arbitrary: s)
  case Nil
  then have "fi_snd s = []" by (simp add: fb_send_ok_def)
  then have "fb_lnc_start E K s = Some s" by (subst fb_lnc_start.simps) simp
  moreover have "fb_sent_upto K s [] 0 s" using Nil by (simp add: fb_sent_upto_def fb_send_ok_def Let_def)
  ultimately show ?case by simp
next
  case (Cons ms pkts)
  obtain h hs where q: "fi_snd s = h # hs" using Cons.prems(1) by (auto simp: fb_send_ok_def list_all2_Cons2)
  define t where "t = fb_after_one h hs (fb_pkt_bytes s ms) s"
  let ?N = "LNC_NDESC (f_ntdre s)"
  note step = fb_start_step[OF assms(1) Cons.prems(1) q, folded t_def, of K]
  have sel: "f_pending t = f_pending s + 1" "f_ntdre t = f_ntdre s" by (simp_all add: t_def fb_after_one_sel)
  have ok: "fb_send_ok t pkts" using fb_after_one_ok(1)[OF Cons.prems(1) q] by (simp add: t_def)
  show ?case
  proof (cases "f_pending t < int ?N")
    case True
    define k where "k = min (length pkts) (nat (int ?N - f_pending t))"
    obtain u where u: "fb_lnc_start E K t = Some u" "fb_sent_upto K t pkts k u"
      using Cons.IH[OF ok] Cons.prems(2) True sel by (auto simp: k_def)
    have "fb_sent_upto K s (ms # pkts) (Suc k) u"
      by (rule fb_sent_upto_Suc[OF Cons.prems(1) q Cons.prems(2) _ t_def u(2)]) (use sel True in \<open>simp add: k_def\<close>)
    moreover have "Suc k = min (length (ms # pkts)) (nat (int ?N - f_pending s))" using True sel by (simp add: k_def)
    ultimately show ?thesis using step True u(1) by auto
  next
    case False
    then have full: "f_pending t = int ?N" using sel Cons.prems(3) by simp
    let ?u = "t\<lparr>fi_drv_flags := fi_drv_flags t OR bk_IFF_DRV_OACTIVE K\<rparr>"
    have "fb_sent_upto K t pkts 0 ?u"
      using full ok sel(2) by (simp add: fb_sent_upto_def Let_def fb_slot_flags fb_send_ok_def)
    then have "fb_sent_upto K s (ms # pkts) (Suc 0) ?u"
      using fb_sent_upto_Suc[OF Cons.prems(1) q Cons.prems(2) _ t_def, of 0 K ?u] Cons.prems(3) by simp
    moreover have "min (length (ms # pkts)) (nat (int ?N - f_pending s)) = Suc 0" using full sel by simp
    ultimately show ?thesis using step False by auto
  qed
qed

subsection \<open>Initialisation, then output\<close>

text \<open>A queued packet whose data lie outside the memory of the rings.\<close>

definition fb_pkt_outside :: "fb_softc \<Rightarrow> u32 \<Rightarrow> u32 list \<Rightarrow> bool" where
  "fb_pkt_outside s h ms \<longleftrightarrow> mchain (f_mb s) h ms \<and> length (fb_pkt_bytes s ms) \<le> TRANSBUFSIZE \<and>
     (\<forall>m\<in>set ms. 0 \<le> m_len (f_mb s m) \<and> m_len (f_mb s m) \<le> int TRANSBUFSIZE \<and>
        area_bytes (mbuf_area (f_mb s m)) \<inter> area_bytes (f_ring_base s, fb_mem_size (f_nrdre s) (f_ntdre s)) = {})"

lemma fb_areas_tx_buffer:
  "j < length (f_trans_ring s) \<Longrightarrow> 3 + (length (f_recv_ring s) + length (f_trans_ring s)) + length (f_recv_ring s) + j < length (fb_areas s) \<and>
     fb_areas s ! (3 + (length (f_recv_ring s) + length (f_trans_ring s)) + length (f_recv_ring s) + j)
       = (fre_buff (f_trans_ring s ! j), TRANSBUFSIZE)"
  by (auto simp: fb_areas_def nth_append numeral_3_eq_3)

lemma fb_areas_ok_buffers:
  assumes "fb_areas_ok s" "fb_geom s"
  shows "fb_tx_buffers_apart s" "j < LNC_NDESC (f_ntdre s) \<Longrightarrow>
     area_bytes (fre_buff (f_trans_ring s ! j), TRANSBUFSIZE) \<subseteq> area_bytes (f_ring_base s, fb_mem_size (f_nrdre s) (f_ntdre s))"
proof -
  let ?o = "3 + (length (f_recv_ring s) + length (f_trans_ring s)) + length (f_recv_ring s)"
  have l: "length (f_trans_ring s) = LNC_NDESC (f_ntdre s)" using assms(2) by (simp add: fb_geom_def)
  have ok: "\<And>x. x \<in> set (fb_areas s) \<Longrightarrow> area_bytes x \<subseteq> area_bytes (f_ring_base s, fb_mem_size (f_nrdre s) (f_ntdre s))"
    "\<And>i j. i < j \<Longrightarrow> j < length (fb_areas s) \<Longrightarrow> area_bytes (fb_areas s ! i) \<inter> area_bytes (fb_areas s ! j) = {}"
    using assms(1) by (auto simp: fb_areas_ok_def)
  have at: "?o + j < length (fb_areas s)" "fb_areas s ! (?o + j) = (fre_buff (f_trans_ring s ! j), TRANSBUFSIZE)"
    if "j < LNC_NDESC (f_ntdre s)" for j
    using fb_areas_tx_buffer[of j s] that unfolding l by blast+
  have lt: "area_bytes (fre_buff (f_trans_ring s ! i), TRANSBUFSIZE) \<inter> area_bytes (fre_buff (f_trans_ring s ! j), TRANSBUFSIZE) = {}"
    if "i < j" "j < LNC_NDESC (f_ntdre s)" for i j
  proof -
    have *: "?o + i < ?o + j" "i < LNC_NDESC (f_ntdre s)" using that by simp_all
    from ok(2)[OF *(1) at(1)[OF that(2)]] show ?thesis unfolding at(2)[OF that(2)] at(2)[OF *(2)] .
  qed
  show "fb_tx_buffers_apart s"
    unfolding fb_tx_buffers_apart_def
  proof (intro allI impI)
    fix i j assume "i < LNC_NDESC (f_ntdre s)" "j < LNC_NDESC (f_ntdre s)" "i \<noteq> j"
    then show "area_bytes (fre_buff (f_trans_ring s ! i), TRANSBUFSIZE) \<inter> area_bytes (fre_buff (f_trans_ring s ! j), TRANSBUFSIZE) = {}"
      using lt[of i j] lt[of j i] by (cases "i < j") (auto simp: Int_commute)
  qed
  show "area_bytes (fre_buff (f_trans_ring s ! j), TRANSBUFSIZE) \<subseteq> area_bytes (f_ring_base s, fb_mem_size (f_nrdre s) (f_ntdre s))"
    if "j < LNC_NDESC (f_ntdre s)"
    using ok(1)[OF nth_mem[OF at(1)[OF that]]] unfolding at(2)[OF that] .
qed

text \<open>Initialisation writes descriptors only.\<close>

lemma fb_layout_kernel:
  "f_mb (fb_layout K s) = f_mb s \<and> ram (mem (fb_layout K s)) = ram (mem s) \<and> fi_snd (fb_layout K s) = fi_snd s \<and>
     f_mem_mode (fb_layout K s) = f_mem_mode s"
proof -
  define P where "P s = (f_mb s, ram (mem s), fi_snd s, f_mem_mode s)" for s :: fb_softc
  have rx: "P (fixed_rx_md K x s) = P s" for x s
    by (cases x) (simp add: P_def fixed_rx_md_def Let_def upd_fb_rx_def upd_lmds_def)
  have tx: "P (fixed_tx_md K x s) = P s" for x s
    by (cases x) (simp add: P_def fixed_tx_md_def Let_def upd_fb_tx_def upd_lmds_def)
  have c: "P (snd (fb_carve_mds s)) = P s" by (simp add: P_def fb_carve_mds_def Let_def split_def)
  have "P (fb_layout K s) = P s"
    unfolding fb_layout_def fb_fixed_rings_def Let_def split_def by (simp only: fold_keeps[of P, OF rx] fold_keeps[of P, OF tx] c)
  then show ?thesis by (simp add: P_def)
qed

lemma fb_init_chip_kernel:
  fixes E :: env and K :: bsd
  assumes "f_mem_mode s = DMA_FIXED" "quiet_chip E"
  defines "u \<equiv> snd (fb_init_chip E K s)"
  shows "f_mb u = f_mb s \<and> ram (mem u) = ram (mem s) \<and> fi_snd u = fi_snd s \<and> f_mem_mode u = DMA_FIXED"
proof -
  obtain v fl where v: "evolves E (fb_init_memory E K s) v" "u = v\<lparr>fi_drv_flags := fl\<rparr>"
    using fb_init_chip_fixed[of s E K] assms(1) by (auto simp: u_def)
  have q: "evolves E a b \<Longrightarrow> mem b = mem a" for a b
    by (induction rule: evolves.induct) (simp_all add: quiet_mem[OF assms(2)])
  note sv = same_vars_fb_sel[OF evolves_same_vars[OF v(1)]] q[OF v(1)]
  note stop = same_vars_fb_sel[OF evolves_same_vars[OF evolves_fb_regs(5)]] q[OF evolves_fb_regs(5)]
  have fill: "f_mb (fb_fill_block K x) = f_mb x \<and> mem (fb_fill_block K x) = mem x \<and> fi_snd (fb_fill_block K x) = fi_snd x \<and>
      f_mem_mode (fb_fill_block K x) = f_mem_mode x" for x
    by (simp add: fb_fill_block_def fb_lnc_setladrf_def Let_def)
  show ?thesis
    using assms(1) by (simp add: v(2) sv fb_init_memory_def fill fb_layout_kernel stop)
qed

lemma fb_init_sends:
  assumes "length (f_recv_ring s) = LNC_NDESC (f_nrdre s)" "length (f_trans_ring s) = LNC_NDESC (f_ntdre s)"
    "f_mem_mode s = DMA_FIXED" "fb_mem_size (f_nrdre s) (f_ntdre s) \<le> 2 ^ 32" "quiet_chip E"
    "fb_init_chip E K s = (True, u)" "list_all2 (fb_pkt_outside s) (fi_snd s) pkts"
  shows "\<exists>t. fb_lnc_init E K s = Some t \<and> fb_sent_upto K u pkts (min (length pkts) (LNC_NDESC (f_ntdre s))) t \<and>
     map (fb_pkt_bytes u) pkts = map (fb_pkt_bytes s) pkts"
proof -
  have u: "u = snd (fb_init_chip E K s)" by (simp add: assms(6))
  note sound = fb_init_chip_sound[OF assms(1-4), of E K, folded u]
  have fresh: "fb_geom u" "f_next_to_send u = 0" "f_pending u = 0"
    using sound assms(5) by (simp_all add: fb_fresh_def)
  note k = fb_init_chip_kernel[OF assms(3,5), of K, folded u]
  have geo: "f_ring_base u = f_ring_base s \<and> f_nrdre u = f_nrdre s \<and> f_ntdre u = f_ntdre s"
    unfolding u by (rule fb_init_chip_geometry[OF assms(1-3)])
  note buf = fb_areas_ok_buffers[OF _ fresh(1)]
  have bytes: "fb_pkt_bytes u ms = fb_pkt_bytes s ms" for ms using k by (simp add: fb_pkt_bytes_def)
  have ok: "fb_pkt_ok u h ms" if "fb_pkt_outside s h ms" for h ms
    unfolding fb_pkt_ok_def chain_apart_def
    using that k geo buf(2) sound bytes[of ms] by (fastforce simp: fb_pkt_outside_def fb_pkt_bytes_def)
  have "list_all2 (fb_pkt_ok u) (fi_snd u) pkts"
    using list_all2_mono[OF assms(7), of "fb_pkt_ok u"] ok k by simp
  then have "fb_send_ok u pkts" using fresh k buf(1) sound by (simp add: fb_send_ok_def)
  from fb_start_sends[OF assms(5) this, of K] fresh(3) geo bytes assms(6) show ?thesis
    by (simp add: fb_lnc_init_def)
qed

end
