(* ===== verification/Fbsd_Dump.thy ===== *)
theory Fbsd_Dump
  imports Dump Fbsd_Send
begin

text \<open>
  The dumps of the FreeBSD driver's DEBUG build (\<open>lnc_dump_state\<close> and \<open>mbuf_dump_chain\<close> of
  \<^verbatim>\<open>if_lnc.c\<close>): the lines they print, with the bit names of the kernel's \<^verbatim>\<open>%b\<close> format. The tables of
  names agree with the register masks; the dump leaves the driver as it is and the address port at
  CSR0; a chain is printed mbuf by mbuf, and a null chain is followed through its null pointer.
\<close>

unbundle bit_operations_syntax

subsection \<open>Bit names\<close>

text \<open>
  The argument of \<^verbatim>\<open>%b\<close>: pairs of a bit number, counted from 1, and a name. What is printed is the
  value and the names of the bits that are set, in the order of the table.
\<close>

type_synonym bit_names = "(nat \<times> string) list"

definition set_names :: "bit_names \<Rightarrow> nat \<Rightarrow> string list" where
  "set_names tab v = map snd (filter (\<lambda>(n, _). bit v (n - 1)) tab)"

definition MEM_MODES :: bit_names where
  "MEM_MODES = [(3, ''SHMEM''), (2, ''DMA_MBUF''), (1, ''DMA_FIXED'')]"

definition CSR0_FLAGS :: bit_names where
  "CSR0_FLAGS = [(16, ''ERR''), (15, ''BABL''), (14, ''CERR''), (13, ''MISS''), (12, ''MERR''), (11, ''RINT''),
     (10, ''TINT''), (9, ''IDON''), (8, ''INTR''), (7, ''INEA''), (6, ''RXON''), (5, ''TXON''), (4, ''TDMD''),
     (3, ''STOP''), (2, ''STRT''), (1, ''INIT'')]"

definition INIT_MODE :: bit_names where
  "INIT_MODE = [(16, ''PROM''), (7, ''INTL''), (6, ''DRTY''), (5, ''COLL''), (4, ''DTCR''), (3, ''LOOP''), (2, ''DTX''), (1, ''DRX'')]"

definition RECV_MD1 :: bit_names where
  "RECV_MD1 = [(8, ''OWN''), (7, ''ERR''), (6, ''FRAM''), (5, ''OFLO''), (4, ''CRC''), (3, ''BUFF''), (2, ''STP''), (1, ''ENP'')]"

definition TRANS_MD1 :: bit_names where
  "TRANS_MD1 = [(8, ''OWN''), (7, ''ERR''), (6, ''RES''), (5, ''MORE''), (4, ''ONE''), (3, ''DEF''), (2, ''STP''), (1, ''ENP'')]"

definition TRANS_MD3 :: bit_names where
  "TRANS_MD3 = [(6, ''BUFF''), (5, ''UFLO''), (4, ''RES''), (3, ''LCOL''), (2, ''LCAR''), (1, ''RTRY'')]"

definition MBUF_FLAGS :: bit_names where
  "MBUF_FLAGS = [(1, ''M_EXT''), (2, ''M_PKTHDR''), (3, ''M_EOR''), (4, ''UNKNOWN''), (5, ''M_BCAST''), (6, ''M_MCAST'')]"

lemmas name_tables = MEM_MODES_def CSR0_FLAGS_def INIT_MODE_def RECV_MD1_def TRANS_MD1_def TRANS_MD3_def MBUF_FLAGS_def

subsection \<open>The state dump\<close>

datatype fb_line =
    FbTitle string
  | FbMode nat "string list"
  | FbRing string u32 u32
  | FbEntry nat u32 u32 u32
  | FbBlock u32
  | FbBlockWords u16 "string list" u16 u16 u16 u16
  | FbRxDesc nat u16 u16 int u16 u16 "string list"
  | FbTxDesc nat u16 u16 int u16 "string list" u16 "string list"
  | FbIndex nat
  | FbCsrs u16 "string list" "u16 list"

fun mem_mode_value :: "lnc_mem_mode \<Rightarrow> nat" where
  "mem_mode_value DMA_FIXED = 1" | "mem_mode_value DMA_MBUF = 2" | "mem_mode_value SHMEM = 4"

definition fb_dump_entry :: "u32 \<Rightarrow> fb_entry list \<Rightarrow> nat \<Rightarrow> fb_line" where
  "fb_dump_entry base ring i =
     FbEntry i (base + of_nat (i * sizeof_host_ring_entry)) (fre_md (ring ! i)) (fre_buff (ring ! i))"

definition fb_dump_rx :: "fb_softc \<Rightarrow> nat \<Rightarrow> fb_line" where
  "fb_dump_rx s i =
     (let d = fb_rx_md s i; fl = drop_bit 8 (md1 d AND NOT HADR)
      in FbRxDesc i (md1 d AND HADR) (md0 d) (dump_bcnt (md2 d)) (md3 d) fl (set_names RECV_MD1 (unat fl)))"

definition fb_dump_tx :: "fb_softc \<Rightarrow> nat \<Rightarrow> fb_line" where
  "fb_dump_tx s i =
     (let d = fb_tx_md s i; fl = drop_bit 8 (md1 d); fl3 = drop_bit 10 (md3 d)
      in FbTxDesc i (md1 d AND HADR) (md0 d) (dump_bcnt (md2 d)) fl (set_names TRANS_MD1 (unat fl)) fl3 (set_names TRANS_MD3 (unat fl3)))"

definition fb_dump_memory :: "fb_softc \<Rightarrow> fb_line list" where
  "fb_dump_memory s =
     (let rx = f_ring_base s; tx = f_ring_base s + of_nat (LNC_NDESC (f_nrdre s) * sizeof_host_ring_entry);
          b = f_init_block s; mm = mem_mode_value (f_mem_mode s) in
      [FbTitle ''Driver/NIC state dump'', FbMode mm (set_names MEM_MODES mm), FbTitle ''Host memory'', FbTitle ''-----------'',
       FbRing ''Receive ring'' rx (rx + of_nat (f_recv_next s * sizeof_host_ring_entry))] @
      map (fb_dump_entry rx (f_recv_ring s)) [0..<LNC_NDESC (f_nrdre s)] @
      [FbRing ''Transmit ring'' tx (tx + of_nat (f_trans_next s * sizeof_host_ring_entry))] @
      map (fb_dump_entry tx (f_trans_ring s)) [0..<LNC_NDESC (f_ntdre s)] @
      [FbTitle ''Lance memory (may be on host(DMA) or card(SHMEM))'', FbBlock (f_init_block_addr s),
       FbBlockWords (lb_mode b) (set_names INIT_MODE (unat (lb_mode b))) (lb_rlen b) (lb_rdra b) (lb_tlen b) (lb_tdra b),
       FbTitle ''Receive descriptor ring''] @
      map (fb_dump_rx s) [0..<LNC_NDESC (f_nrdre s)] @
      [FbTitle ''Transmit descriptor ring''] @
      map (fb_dump_tx s) [0..<LNC_NDESC (f_ntdre s)] @
      [FbIndex (f_next_to_send s)])"

text \<open>The reads in the order the compiler chooses, and the address port back at CSR0.\<close>

fun fb_dump_read :: "env \<Rightarrow> u16 list \<Rightarrow> fb_softc \<Rightarrow> (u16 \<Rightarrow> u16) \<times> fb_softc" where
  "fb_dump_read E [] s = (\<lambda>_. 0, s)"
| "fb_dump_read E (p # ps) s =
     (let (v, s) = fb_read_csr E p s; (f, s) = fb_dump_read E ps s in (f(p := v), s))"

definition fb_dump_order :: "u16 list \<Rightarrow> bool" where
  "fb_dump_order order \<longleftrightarrow> distinct order \<and> set order = {FB_CSR0, FB_CSR1, FB_CSR2, FB_CSR3}"

definition fb_lnc_dump_state :: "env \<Rightarrow> u16 list \<Rightarrow> fb_softc \<Rightarrow> fb_line list \<times> fb_softc" where
  "fb_lnc_dump_state E order s =
     (let (f, t) = fb_dump_read E order s;
          line = FbCsrs (f FB_CSR0) (set_names CSR0_FLAGS (unat (f FB_CSR0))) (map f [FB_CSR1, FB_CSR2, FB_CSR3])
      in (fb_dump_memory s @ [line], csrWrite16 E (f_rap t) FB_CSR0 t))"

lemma evolves_fb_dump_read: "evolves E s (snd (fb_dump_read E ps s))"
proof (induction ps arbitrary: s)
  case (Cons p ps)
  show ?case using evolves_trans[OF evolves_fb_regs(1) Cons] by (simp add: Let_def split_def)
qed simp

lemma fb_dump_keeps:
  "same_vars s (snd (fb_lnc_dump_state E order s))"
  "hd (trace (snd (fb_lnc_dump_state E order s))) = Out16 (f_rap s) FB_CSR0"
proof -
  let ?t = "snd (fb_dump_read E order s)"
  have "same_vars s (csrWrite16 E p v ?t)" for p v
    unfolding csrWrite16_def by (rule evolves_same_vars[OF evolves_emit[OF evolves_fb_dump_read]])
  then show "same_vars s (snd (fb_lnc_dump_state E order s))"
    by (simp add: fb_lnc_dump_state_def Let_def split_def)
  show "hd (trace (snd (fb_lnc_dump_state E order s))) = Out16 (f_rap s) FB_CSR0"
    using same_vars_fb_sel[OF evolves_same_vars[OF evolves_fb_dump_read[of E s order]]]
    by (simp add: fb_lnc_dump_state_def Let_def split_def csrWrite16_def)
qed

subsection \<open>The names agree with the register masks\<close>

text \<open>A name of the table is printed exactly when the value has the bit of the mask.\<close>

lemma set_names_mem:
  assumes "distinct (map snd tab)" "(n, x) \<in> set tab"
  shows "x \<in> set (set_names tab v) \<longleftrightarrow> bit v (n - 1)"
proof
  assume "x \<in> set (set_names tab v)"
  then obtain m where m: "(m, x) \<in> set tab" "bit v (m - 1)" by (auto simp: set_names_def)
  have "inj_on snd (set tab)" using assms(1) by (simp add: distinct_map)
  then have "(m, x) = (n, x)" by (rule inj_onD) (use m(1) assms(2) in simp_all)
  with m(2) show "bit v (n - 1)" by simp
next
  assume "bit v (n - 1)"
  with assms(2) show "x \<in> set (set_names tab v)" by (force simp: set_names_def)
qed

lemma has_bit: "has w (2 ^ k) \<longleftrightarrow> bit (unat w) k" for w :: u16
proof -
  have "has w (push_bit k 1) \<longleftrightarrow> bit w k" unfolding has_def by (rule bit_iff_and_push_bit_not_eq_0[symmetric])
  then show ?thesis by (simp add: bit_unsigned_iff)
qed

lemma names_masks:
  "map (\<lambda>(n, x). (x, push_bit (n - 1) 1)) CSR0_FLAGS =
     [(''ERR'', ERR), (''BABL'', BABL), (''CERR'', CERR), (''MISS'', MISS), (''MERR'', MERR), (''RINT'', RINT), (''TINT'', TINT),
      (''IDON'', IDON), (''INTR'', INTR), (''INEA'', INEA), (''RXON'', 0x20), (''TXON'', 0x10), (''TDMD'', TDMD), (''STOP'', STOP),
      (''STRT'', STRT), (''INIT'', INIT)]"
  "map (\<lambda>(n, x). (x, push_bit (n - 1) 0x100)) RECV_MD1 =
     [(''OWN'', OWN), (''ERR'', MDERR), (''FRAM'', 0x2000), (''OFLO'', 0x1000), (''CRC'', 0x800), (''BUFF'', 0x400), (''STP'', STP), (''ENP'', ENP)]"
  "map (\<lambda>(n, x). (x, push_bit (n - 1) 0x100)) TRANS_MD1 =
     [(''OWN'', OWN), (''ERR'', MDERR), (''RES'', 0x2000), (''MORE'', MORE), (''ONE'', ONE), (''DEF'', 0x400), (''STP'', STP), (''ENP'', ENP)]"
  "map (\<lambda>(n, x). (x, push_bit (n - 1) 0x400)) TRANS_MD3 =
     [(''BUFF'', TBUFF), (''UFLO'', UFLO), (''RES'', 0x2000), (''LCOL'', LCOL), (''LCAR'', 0x800), (''RTRY'', RTRY)]"
  by (simp_all add: name_tables hw_consts push_bit_eq_mult)

lemma names_distinct [simp]:
  "distinct (map snd CSR0_FLAGS)" "distinct (map snd RECV_MD1)" "distinct (map snd TRANS_MD1)" "distinct (map snd TRANS_MD3)"
  by (simp_all add: name_tables)

text \<open>So the names printed for a status register are those of the masks it has.\<close>

lemma csr0_names:
  fixes v :: u16
  assumes "(x, m) \<in> set (map (\<lambda>(n, x). (x, push_bit (n - 1) 1)) CSR0_FLAGS)"
  shows "x \<in> set (set_names CSR0_FLAGS (unat v)) \<longleftrightarrow> has v m"
  using assms by (auto simp: set_names_mem has_bit)

subsection \<open>The chain dump\<close>

text \<open>What it prints of an mbuf and the model's mbufs do not have; nothing else in the driver uses it.\<close>

record mbuf_rest =
  mh_nextpkt :: u32
  mh_type :: int
  mh_flags_rest :: u32
  M_databuf :: u32
  MH_databuf :: u32
  mh_rcvif :: u32
  ext_free :: u32
  ext_size :: int

datatype mbuf_line = MbNull | MbPtr string u32 | MbInt string int | MbFlags u32 "string list"

definition mh_flags :: "bsd_mbuf \<Rightarrow> mbuf_rest \<Rightarrow> u32" where
  "mh_flags d r = (mh_flags_rest r AND NOT 3) OR (if m_ext d then 1 else 0) OR (if m_pkthdr d then 2 else 0)"

definition mbuf_lines :: "u32 \<Rightarrow> bsd_mbuf \<Rightarrow> mbuf_rest \<Rightarrow> mbuf_line list" where
  "mbuf_lines m d r =
     [MbPtr ''m'' m, MbPtr ''m_hdr.mh_next'' (m_next d), MbPtr ''m_hdr.mh_nextpkt'' (mh_nextpkt r),
      MbInt ''m_hdr.mh_len'' (m_len d), MbPtr ''m_hdr.mh_data'' (m_data d), MbInt ''m_hdr.mh_type'' (mh_type r),
      MbFlags (mh_flags d r) (set_names MBUF_FLAGS (unat (mh_flags d r)))] @
     (if \<not> (m_pkthdr d \<or> m_ext d) then [MbPtr ''M_dat.M_databuf'' (M_databuf r)]
      else
        (if m_pkthdr d then
           [MbInt ''M_dat.MH.MH_pkthdr.len'' (m_pkthdr_len d), MbPtr ''M_dat.MH.MH_pkthdr.rcvif'' (mh_rcvif r)] @
           (if \<not> m_ext d then [MbPtr ''M_dat.MH.MH_dat.MH_databuf'' (MH_databuf r)] else [])
         else []) @
        (if m_ext d then
           [MbPtr ''M_dat.MH.MH_dat.MH_ext.ext_buff'' (m_ext_buf d), MbPtr ''M_dat.MH.MH_dat.MH_ext.ext_free'' (ext_free r),
            MbInt ''M_dat.MH.MH_dat.MH_ext.ext_size'' (ext_size r)]
         else []))"

text \<open>The result: the lines, or the lines up to an access through the null pointer.\<close>

datatype dump_result = Printed "mbuf_line list" | NullAccess "mbuf_line list"

partial_function (option) chain_lines ::
  "(u32 \<Rightarrow> bsd_mbuf) \<Rightarrow> (u32 \<Rightarrow> mbuf_rest) \<Rightarrow> u32 \<Rightarrow> mbuf_line list \<Rightarrow> dump_result option" where
  "chain_lines mb rest m out =
     (if m = 0 then Some (NullAccess (out @ [MbPtr ''m'' 0]))
      else let out = out @ mbuf_lines m (mb m) (rest m)
           in if m_next (mb m) = 0 then Some (Printed out) else chain_lines mb rest (m_next (mb m)) out)"

definition mbuf_dump_chain :: "(u32 \<Rightarrow> bsd_mbuf) \<Rightarrow> (u32 \<Rightarrow> mbuf_rest) \<Rightarrow> u32 \<Rightarrow> dump_result option" where
  "mbuf_dump_chain mb rest m = chain_lines mb rest m (if m = 0 then [MbNull] else [])"

lemma chain_lines_all:
  "mchain mb m ms \<Longrightarrow> ms \<noteq> [] \<Longrightarrow>
   chain_lines mb rest m out = Some (Printed (out @ concat (map (\<lambda>a. mbuf_lines a (mb a) (rest a)) ms)))"
proof (induction ms arbitrary: m out)
  case (Cons a as)
  show ?case
  proof (cases as)
    case Nil
    with Cons.prems show ?thesis by (auto simp: chain_lines.simps[of mb rest a])
  next
    case (Cons b bs)
    with Cons.prems Cons.IH[of "m_next (mb a)"] show ?thesis by (auto simp: chain_lines.simps[of mb rest a])
  qed
qed simp

lemma dump_chain_prints:
  assumes "mchain mb m ms" "ms \<noteq> []"
  shows "mbuf_dump_chain mb rest m = Some (Printed (concat (map (\<lambda>a. mbuf_lines a (mb a) (rest a)) ms)))"
proof -
  have "m \<noteq> 0" using assms by (cases ms) auto
  then show ?thesis using chain_lines_all[OF assms, of rest "[]"] by (simp add: mbuf_dump_chain_def)
qed

text \<open>A null chain is reported, and then followed all the same.\<close>

lemma dump_chain_null: "mbuf_dump_chain mb rest 0 = Some (NullAccess [MbNull, MbPtr ''m'' 0])"
  by (simp add: mbuf_dump_chain_def chain_lines.simps)

end
