(* ===== verification/Sanos.thy ===== *)
theory Sanos
  imports Port_IO "HOL-Library.Monad_Syntax"
begin

text \<open>
  The PCnet32 driver of the Sanos kernel (\<^verbatim>\<open>pcnet32-sanos.c\<close>), one of the two drivers this one was
  written after: port access through a table of functions, the transmit and receive rings with
  their packet buffers, the deferred interrupt handler and \<open>install\<close>. The rings are arrays in
  the device structure, which the controller reaches at its physical address; here they are
  in the address-indexed store of descriptors.
\<close>

unbundle bit_operations_syntax

subsection \<open>Constants, state and kernel\<close>

definition TX_RING_SIZE :: nat where [hw_consts]: "TX_RING_SIZE = 16"
definition TX_RING_MOD_MASK :: nat where [hw_consts]: "TX_RING_MOD_MASK = TX_RING_SIZE - 1"
definition TX_RING_LEN_BITS :: u16 where [hw_consts]: "TX_RING_LEN_BITS = push_bit 12 4"
definition RX_RING_SIZE :: nat where [hw_consts]: "RX_RING_SIZE = 32"
definition RX_RING_MOD_MASK :: nat where [hw_consts]: "RX_RING_MOD_MASK = RX_RING_SIZE - 1"
definition RX_RING_LEN_BITS :: u16 where [hw_consts]: "RX_RING_LEN_BITS = push_bit 4 5"
definition ETHER_FRAME_LEN :: nat where [hw_consts]: "ETHER_FRAME_LEN = 1544"
definition CHIP_ID_LOWER :: u16 where [hw_consts]: "CHIP_ID_LOWER = 88"
definition CHIP_ID_UPPER :: u16 where [hw_consts]: "CHIP_ID_UPPER = 89"
definition CSR_RXON :: u16 where [hw_consts]: "CSR_RXON = 0x20"
definition CSR_TXON :: u16 where [hw_consts]: "CSR_TXON = 0x10"

text \<open>The tables of access functions, of which one is copied into the device structure.\<close>

datatype pcnet32_access = pcnet32_wio | pcnet32_dwio

record sn_init_block =
  sn_mode :: u16
  sn_tlen_rlen :: u16
  sn_ib_addr :: "u8 list"
  sn_filter :: "u32 list"
  sn_ib_rx_ring :: u32
  sn_ib_tx_ring :: u32

text \<open>
  A packet buffer: its address, its payload's, and the lengths of this part and of the chain
  it heads. A chain of buffers is the list of its parts, the null pointer the empty list.
\<close>

record pbuf =
  pb_ref :: u32
  pb_payload :: u32
  pb_len :: nat
  pb_tot_len :: nat

text \<open>\<open>pcnet32\<close>: a pointer to a packet buffer is an address, \<open>None\<close> the null pointer.\<close>

record pcnet32 = hist +
  rx_buffer :: "u32 option list"
  tx_buffer :: "u32 option list"
  phys_addr :: u32
  iobase :: u16
  irq :: u16
  membase :: u16
  next_rx :: nat
  sem_tx :: nat
  size_tx :: nat
  curr_tx :: nat
  next_tx :: nat
  hwaddr :: "u8 list"
  sn_block :: sn_init_block
  access :: pcnet32_access
  vendorname :: string
  productname :: string

text \<open>
  The Sanos kernel and its network stack: what an allocation returns (a null pointer or an
  address), the chain \<^verbatim>\<open>pbuf_linearize\<close> returns and whether \<^verbatim>\<open>dev_receive\<close> accepts a packet,
  from the history; the payload of a buffer; address translation; and the device unit.
\<close>

record sanos_os =
  pbuf_alloc :: "history \<Rightarrow> u32 option"
  pbuf_linearize :: "history \<Rightarrow> pbuf list \<Rightarrow> pbuf list"
  payload_of :: "u32 \<Rightarrow> u32"
  virt2phys :: "u32 \<Rightarrow> u32"
  dev_receive :: "history \<Rightarrow> bool"
  kmalloc :: "history \<Rightarrow> u32 option"
  bus_is_pci :: bool
  unit_iobase :: u16
  unit_irq :: u16
  unit_membase :: u16

datatype sn_ret = S_OK | EINVAL | ENOMEM | EIO | ETIMEOUT | ENOSYS

subsection \<open>Port access\<close>

definition pcnet32_wio_read_csr :: "env \<Rightarrow> u16 \<Rightarrow> u16 \<Rightarrow> 'a hist_scheme \<Rightarrow> u16 \<times> 'a hist_scheme" where
  [drv_ops]: "pcnet32_wio_read_csr E addr index s =
     csrRead16 E (addr + PCNET32_WIO_RDP) (csrWrite16 E (addr + PCNET32_WIO_RAP) index s)"

definition pcnet32_wio_write_csr :: "env \<Rightarrow> u16 \<Rightarrow> u16 \<Rightarrow> u16 \<Rightarrow> 'a hist_scheme \<Rightarrow> 'a hist_scheme" where
  [drv_ops]: "pcnet32_wio_write_csr E addr index val s =
     csrWrite16 E (addr + PCNET32_WIO_RDP) val (csrWrite16 E (addr + PCNET32_WIO_RAP) index s)"

definition pcnet32_wio_read_bcr :: "env \<Rightarrow> u16 \<Rightarrow> u16 \<Rightarrow> 'a hist_scheme \<Rightarrow> u16 \<times> 'a hist_scheme" where
  [drv_ops]: "pcnet32_wio_read_bcr E addr index s =
     csrRead16 E (addr + PCNET32_WIO_BDP) (csrWrite16 E (addr + PCNET32_WIO_RAP) index s)"

definition pcnet32_wio_write_bcr :: "env \<Rightarrow> u16 \<Rightarrow> u16 \<Rightarrow> u16 \<Rightarrow> 'a hist_scheme \<Rightarrow> 'a hist_scheme" where
  [drv_ops]: "pcnet32_wio_write_bcr E addr index val s =
     csrWrite16 E (addr + PCNET32_WIO_BDP) val (csrWrite16 E (addr + PCNET32_WIO_RAP) index s)"

definition pcnet32_wio_read_rap :: "env \<Rightarrow> u16 \<Rightarrow> 'a hist_scheme \<Rightarrow> u16 \<times> 'a hist_scheme" where
  [drv_ops]: "pcnet32_wio_read_rap E addr s = csrRead16 E (addr + PCNET32_WIO_RAP) s"

definition pcnet32_wio_write_rap :: "env \<Rightarrow> u16 \<Rightarrow> u16 \<Rightarrow> 'a hist_scheme \<Rightarrow> 'a hist_scheme" where
  [drv_ops]: "pcnet32_wio_write_rap E addr val s = csrWrite16 E (addr + PCNET32_WIO_RAP) val s"

definition pcnet32_wio_reset :: "env \<Rightarrow> u16 \<Rightarrow> 'a hist_scheme \<Rightarrow> 'a hist_scheme" where
  [drv_ops]: "pcnet32_wio_reset E addr s = snd (csrRead16 E (addr + PCNET32_WIO_RESET) s)"

definition pcnet32_wio_check :: "env \<Rightarrow> u16 \<Rightarrow> 'a hist_scheme \<Rightarrow> bool \<times> 'a hist_scheme" where
  [drv_ops]: "pcnet32_wio_check E addr s =
     (let s = csrWrite16 E (addr + PCNET32_WIO_RAP) 88 s;
          (v, s) = csrRead16 E (addr + PCNET32_WIO_RAP) s
      in (v = 88, s))"

definition pcnet32_dwio_read_csr :: "env \<Rightarrow> u16 \<Rightarrow> u16 \<Rightarrow> 'a hist_scheme \<Rightarrow> u16 \<times> 'a hist_scheme" where
  [drv_ops]: "pcnet32_dwio_read_csr E addr index s =
     (let s = csrWrite32 E (addr + PCNET32_DWIO_RAP) (ucast index) s;
          (v, s) = csrRead32 E (addr + PCNET32_DWIO_RDP) s
      in (ucast (v AND 0xffff), s))"

definition pcnet32_dwio_write_csr :: "env \<Rightarrow> u16 \<Rightarrow> u16 \<Rightarrow> u16 \<Rightarrow> 'a hist_scheme \<Rightarrow> 'a hist_scheme" where
  [drv_ops]: "pcnet32_dwio_write_csr E addr index val s =
     csrWrite32 E (addr + PCNET32_DWIO_RDP) (ucast val) (csrWrite32 E (addr + PCNET32_DWIO_RAP) (ucast index) s)"

definition pcnet32_dwio_read_bcr :: "env \<Rightarrow> u16 \<Rightarrow> u16 \<Rightarrow> 'a hist_scheme \<Rightarrow> u16 \<times> 'a hist_scheme" where
  [drv_ops]: "pcnet32_dwio_read_bcr E addr index s =
     (let s = csrWrite32 E (addr + PCNET32_DWIO_RAP) (ucast index) s;
          (v, s) = csrRead32 E (addr + PCNET32_DWIO_BDP) s
      in (ucast v AND 0xffff, s))"

definition pcnet32_dwio_write_bcr :: "env \<Rightarrow> u16 \<Rightarrow> u16 \<Rightarrow> u16 \<Rightarrow> 'a hist_scheme \<Rightarrow> 'a hist_scheme" where
  [drv_ops]: "pcnet32_dwio_write_bcr E addr index val s =
     csrWrite32 E (addr + PCNET32_DWIO_BDP) (ucast val) (csrWrite32 E (addr + PCNET32_DWIO_RAP) (ucast index) s)"

definition pcnet32_dwio_read_rap :: "env \<Rightarrow> u16 \<Rightarrow> 'a hist_scheme \<Rightarrow> u16 \<times> 'a hist_scheme" where
  [drv_ops]: "pcnet32_dwio_read_rap E addr s =
     (let (v, s) = csrRead32 E (addr + PCNET32_DWIO_RAP) s in (ucast v AND 0xffff, s))"

definition pcnet32_dwio_write_rap :: "env \<Rightarrow> u16 \<Rightarrow> u16 \<Rightarrow> 'a hist_scheme \<Rightarrow> 'a hist_scheme" where
  [drv_ops]: "pcnet32_dwio_write_rap E addr val s = csrWrite32 E (addr + PCNET32_DWIO_RAP) (ucast val) s"

definition pcnet32_dwio_reset :: "env \<Rightarrow> u16 \<Rightarrow> 'a hist_scheme \<Rightarrow> 'a hist_scheme" where
  [drv_ops]: "pcnet32_dwio_reset E addr s = snd (csrRead32 E (addr + PCNET32_DWIO_RESET) s)"

definition pcnet32_dwio_check :: "env \<Rightarrow> u16 \<Rightarrow> 'a hist_scheme \<Rightarrow> bool \<times> 'a hist_scheme" where
  [drv_ops]: "pcnet32_dwio_check E addr s =
     (let s = csrWrite32 E (addr + PCNET32_DWIO_RAP) 88 s;
          (v, s) = csrRead32 E (addr + PCNET32_DWIO_RAP) s
      in (v = 88, s))"

text \<open>Calls through the function pointers of the device structure.\<close>

definition sn_read_csr :: "env \<Rightarrow> u16 \<Rightarrow> pcnet32 \<Rightarrow> u16 \<times> pcnet32" where
  [drv_ops]: "sn_read_csr E i s = (case access s of
     pcnet32_wio \<Rightarrow> pcnet32_wio_read_csr E (iobase s) i s | pcnet32_dwio \<Rightarrow> pcnet32_dwio_read_csr E (iobase s) i s)"

definition sn_write_csr :: "env \<Rightarrow> u16 \<Rightarrow> u16 \<Rightarrow> pcnet32 \<Rightarrow> pcnet32" where
  [drv_ops]: "sn_write_csr E i v s = (case access s of
     pcnet32_wio \<Rightarrow> pcnet32_wio_write_csr E (iobase s) i v s | pcnet32_dwio \<Rightarrow> pcnet32_dwio_write_csr E (iobase s) i v s)"

definition sn_read_bcr :: "env \<Rightarrow> u16 \<Rightarrow> pcnet32 \<Rightarrow> u16 \<times> pcnet32" where
  [drv_ops]: "sn_read_bcr E i s = (case access s of
     pcnet32_wio \<Rightarrow> pcnet32_wio_read_bcr E (iobase s) i s | pcnet32_dwio \<Rightarrow> pcnet32_dwio_read_bcr E (iobase s) i s)"

definition sn_write_bcr :: "env \<Rightarrow> u16 \<Rightarrow> u16 \<Rightarrow> pcnet32 \<Rightarrow> pcnet32" where
  [drv_ops]: "sn_write_bcr E i v s = (case access s of
     pcnet32_wio \<Rightarrow> pcnet32_wio_write_bcr E (iobase s) i v s | pcnet32_dwio \<Rightarrow> pcnet32_dwio_write_bcr E (iobase s) i v s)"

definition sn_reset :: "env \<Rightarrow> pcnet32 \<Rightarrow> pcnet32" where
  [drv_ops]: "sn_reset E s = (case access s of
     pcnet32_wio \<Rightarrow> pcnet32_wio_reset E (iobase s) s | pcnet32_dwio \<Rightarrow> pcnet32_dwio_reset E (iobase s) s)"

text \<open>\<open>dump_csr\<close>, as the list of the bit names it prints.\<close>

definition dump_csr :: "u16 \<Rightarrow> string list" where
  "dump_csr csr = map snd (filter (\<lambda>(m, _). has csr m)
     [(CSR_ERR, ''ERR''), (CSR_BABL, ''BABL''), (CSR_CERR, ''CERR''), (CSR_MISS, ''MISS''), (CSR_MERR, ''MERR''),
      (CSR_RINT, ''RINT''), (CSR_TINT, ''TINT''), (CSR_IDON, ''IDON''), (CSR_INTR, ''INTR''), (CSR_IENA, ''IENA''),
      (CSR_RXON, ''RXON''), (CSR_TXON, ''TXON''), (CSR_TDMD, ''TDMD''), (CSR_STOP, ''STOP''), (CSR_STRT, ''STRT''),
      (CSR_INIT, ''INIT'')])"

subsection \<open>Descriptors\<close>

text \<open>The rings are the first two members of the structure: 32 and 16 descriptors of 16 bytes.\<close>

definition sn_rx_at :: "pcnet32 \<Rightarrow> nat \<Rightarrow> u32" where
  "sn_rx_at s i = phys_addr s + of_nat (sizeof_mds * i)"

definition sn_tx_at :: "pcnet32 \<Rightarrow> nat \<Rightarrow> u32" where
  "sn_tx_at s i = phys_addr s + of_nat (sizeof_mds * (RX_RING_SIZE + i))"

definition sn_block_at :: "pcnet32 \<Rightarrow> u32" where
  "sn_block_at s = phys_addr s + of_nat (sizeof_mds * (RX_RING_SIZE + TX_RING_SIZE))"

definition rx_head :: "pcnet32 \<Rightarrow> nat \<Rightarrow> pcnet32_mds" where
  "rx_head s i = mds (mem s) (sn_rx_at s i)"

definition tx_head :: "pcnet32 \<Rightarrow> nat \<Rightarrow> pcnet32_mds" where
  "tx_head s i = mds (mem s) (sn_tx_at s i)"

subsection \<open>Transmission\<close>

text \<open>
  Waiting for the semaphore: \<open>meanwhile\<close> is what the rest of the system (the deferred
  interrupt handler) does until the time-out.
\<close>

definition wait_for_sem :: "(pcnet32 \<Rightarrow> pcnet32) \<Rightarrow> pcnet32 \<Rightarrow> bool \<times> pcnet32" where
  "wait_for_sem meanwhile s =
     (let s = (if 0 < sem_tx s then s else meanwhile s)
      in if 0 < sem_tx s then (True, s\<lparr>sem_tx := sem_tx s - 1\<rparr>) else (False, s))"

fun wait_entries :: "env \<Rightarrow> (pcnet32 \<Rightarrow> pcnet32) \<Rightarrow> pbuf list \<Rightarrow> pcnet32 \<Rightarrow> bool \<times> pcnet32" where
  "wait_entries E meanwhile [] s = (True, s)"
| "wait_entries E meanwhile (q # qs) s =
     (if 0 < pb_len q then
        let (ok, s) = wait_for_sem meanwhile s in
        if ok then wait_entries E meanwhile qs s
        else (False, emit E (Kernel ''stats.link.drop'') s)
      else wait_entries E meanwhile qs s)"

text \<open>One part of the packet into the ring; \<open>first\<close> says whether it is the first of the chain.\<close>

definition put_part :: "sanos_os \<Rightarrow> bool \<Rightarrow> u16 \<Rightarrow> int \<Rightarrow> nat \<Rightarrow> pbuf \<Rightarrow> pcnet32 \<Rightarrow> pcnet32" where
  "put_part K first status left entry q s =
     (let status = (if left = 0 then status OR TMD_ENP else status);
          s = s\<lparr>tx_buffer := (tx_buffer s)[entry := if first then Some (pb_ref q) else None]\<rparr>;
          s = upd_mds (sn_tx_at s entry) (\<lambda>d. d\<lparr>mds_buffer := virt2phys K (pb_payload q)\<rparr>) s;
          s = upd_mds (sn_tx_at s entry) (\<lambda>d. d\<lparr>mds_length := - of_nat (pb_len q)\<rparr>) s;
          s = upd_mds (sn_tx_at s entry) (\<lambda>d. d\<lparr>mds_misc := 0\<rparr>) s;
          s = upd_mds (sn_tx_at s entry) (\<lambda>d. d\<lparr>mds_status := status\<rparr>) s
      in s\<lparr>next_tx := Suc entry AND TX_RING_MOD_MASK, size_tx := size_tx s + 1\<rparr>)"

fun put_parts :: "env \<Rightarrow> sanos_os \<Rightarrow> bool \<Rightarrow> u16 \<Rightarrow> int \<Rightarrow> nat \<Rightarrow> pbuf list \<Rightarrow> pcnet32 \<Rightarrow> pcnet32" where
  "put_parts E K first status left entry [] s = s"
| "put_parts E K first status left entry (q # qs) s =
     (let left = left - int (pb_len q);
          (s, entry, status) = (if 0 < pb_len q
             then (put_part K first status left entry q s, Suc entry AND TX_RING_MOD_MASK, TMD_OWN)
             else (s, entry, status));
          s = sn_write_csr E CSR (CSR_IENA OR CSR_TDMD) s
      in put_parts E K False status left entry qs s)"

text \<open>
  \<open>pcnet32_transmit\<close> as compiled, with \<^verbatim>\<open>WMWARE\<close> defined: one slot is waited for and the chain is
  made one buffer. \<open>None\<close> is the null pointer read when there is no memory for that buffer.
\<close>

definition pcnet32_transmit ::
  "env \<Rightarrow> sanos_os \<Rightarrow> (pcnet32 \<Rightarrow> pcnet32) \<Rightarrow> pbuf list \<Rightarrow> pcnet32 \<Rightarrow> (sn_ret \<times> pcnet32) option" where
  "pcnet32_transmit E K meanwhile p s =
     (let entry = next_tx s in
      if p = [] \<or> pb_len (hd p) = 0 then Some (EINVAL, s)
      else let (ok, s) = wait_for_sem meanwhile s in
      if \<not> ok then Some (ETIMEOUT, emit E (Kernel ''stats.link.drop'') s)
      else let q = pbuf_linearize K (trace s) p;
               s = emit E (Call ''pbuf_linearize'' [pb_ref (hd p)]) s in
      if q = [] then None
      else Some (S_OK, put_parts E K True (TMD_OWN OR TMD_STP) (int (pb_tot_len (hd q))) entry q s))"

text \<open>The same function compiled without \<^verbatim>\<open>WMWARE\<close>: every part takes a slot.\<close>

definition pcnet32_transmit_chain ::
  "env \<Rightarrow> sanos_os \<Rightarrow> (pcnet32 \<Rightarrow> pcnet32) \<Rightarrow> pbuf list \<Rightarrow> pcnet32 \<Rightarrow> sn_ret \<times> pcnet32" where
  "pcnet32_transmit_chain E K meanwhile p s =
     (let entry = next_tx s in
      if p = [] \<or> pb_len (hd p) = 0 then (EINVAL, s)
      else let (ok, s) = wait_entries E meanwhile p s in
      if \<not> ok then (ETIMEOUT, s)
      else (S_OK, put_parts E K True (TMD_OWN OR TMD_STP) (int (pb_tot_len (hd p))) entry p s))"

subsection \<open>Reception\<close>

text \<open>The replacement buffer of a slot; without one the slot stays with the driver.\<close>

definition sn_refill :: "env \<Rightarrow> sanos_os \<Rightarrow> nat \<Rightarrow> pcnet32 \<Rightarrow> pcnet32" where
  "sn_refill E K entry s =
     (let p = pbuf_alloc K (trace s);
          s = emit E (Call ''pbuf_alloc'' [of_nat ETHER_FRAME_LEN]) s;
          s = s\<lparr>rx_buffer := (rx_buffer s)[entry := p]\<rparr>
      in case p of
        Some b \<Rightarrow>
          let s = upd_mds (sn_rx_at s entry) (\<lambda>d. d\<lparr>mds_buffer := virt2phys K (payload_of K b)\<rparr>) s;
              s = upd_mds (sn_rx_at s entry) (\<lambda>d. d\<lparr>mds_length := - of_nat ETHER_FRAME_LEN\<rparr>) s
          in upd_mds (sn_rx_at s entry) (\<lambda>d. d\<lparr>mds_status := mds_status d OR RMD_OWN\<rparr>) s
      | None \<Rightarrow> emit E (Kernel ''stats.link.memerr'') s)"

definition sn_pass_up :: "env \<Rightarrow> sanos_os \<Rightarrow> u32 \<Rightarrow> u16 \<Rightarrow> pcnet32 \<Rightarrow> pcnet32" where
  "sn_pass_up E K p len s =
     (let s = emit E (Call ''pbuf_realloc'' [p, scast len]) s;
          ok = dev_receive K (trace s);
          s = emit E (Call ''dev_receive'' [p, scast len]) s
      in if ok then s else emit E (Call ''pbuf_free'' [p]) s)"

definition sn_len :: "pcnet32_mds \<Rightarrow> u16" where
  "sn_len d = ucast (mds_misc d AND 0xfff) - 4"

definition sn_receive_one :: "env \<Rightarrow> sanos_os \<Rightarrow> nat \<Rightarrow> pcnet32 \<Rightarrow> pcnet32" where
  "sn_receive_one E K entry s =
     (let len = sn_len (rx_head s entry);
          p = rx_buffer s ! entry;
          s = sn_refill E K entry s;
          s = (case p of Some b \<Rightarrow> sn_pass_up E K b len s | None \<Rightarrow> s)
      in s\<lparr>next_rx := Suc entry AND RX_RING_MOD_MASK\<rparr>)"

partial_function (option) receive_loop :: "env \<Rightarrow> sanos_os \<Rightarrow> nat \<Rightarrow> pcnet32 \<Rightarrow> pcnet32 option" where
  "receive_loop E K entry s =
     (if has (mds_status (rx_head s entry)) RMD_OWN then Some s
      else let status = drop_bit 8 (mds_status (rx_head s entry)) in
        if status \<noteq> 0x03 then receive_loop E K entry (emit E (Kernel ''stats.link.err'') s)
        else receive_loop E K (Suc entry AND RX_RING_MOD_MASK) (sn_receive_one E K entry s))"

definition pcnet32_receive :: "env \<Rightarrow> sanos_os \<Rightarrow> pcnet32 \<Rightarrow> pcnet32 option" where
  "pcnet32_receive E K s = receive_loop E K (next_rx s) s"

subsection \<open>Finished transmissions and the deferred handler\<close>

text \<open>The loop of \<open>pcnet32_transmitted\<close>, which tests the receive ring; the result counts.\<close>

function transmitted_loop :: "env \<Rightarrow> nat \<Rightarrow> nat \<Rightarrow> pcnet32 \<Rightarrow> nat \<times> pcnet32" where
  "transmitted_loop E entry freed s =
     (if 0 < size_tx s \<and> has (mds_status (rx_head s entry)) TMD_OWN then
        let s = (case tx_buffer s ! entry of
                   Some b \<Rightarrow> (emit E (Call ''pbuf_free'' [b]) s)\<lparr>tx_buffer := (tx_buffer s)[entry := None]\<rparr>
                 | None \<Rightarrow> s);
            entry = Suc entry AND TX_RING_MOD_MASK
        in transmitted_loop E entry (freed + 1) (s\<lparr>curr_tx := entry, size_tx := size_tx s - 1\<rparr>)
      else (freed, s))"
  by pat_completeness auto
termination
  by (relation "measure (\<lambda>(E, entry, freed, s). size_tx s)") (auto simp: emit_def split: option.splits)

declare transmitted_loop.simps [simp del]

definition pcnet32_transmitted :: "env \<Rightarrow> pcnet32 \<Rightarrow> pcnet32" where
  "pcnet32_transmitted E s =
     (let (freed, s) = transmitted_loop E (curr_tx s) 0 s in s\<lparr>sem_tx := sem_tx s + freed\<rparr>)"

partial_function (option) dpc_loop :: "env \<Rightarrow> sanos_os \<Rightarrow> pcnet32 \<Rightarrow> pcnet32 option" where
  "dpc_loop E K s =
     (let (csr, s) = sn_read_csr E CSR s in
      if \<not> has csr (CSR_ERR OR CSR_RINT OR CSR_TINT) then Some s
      else
        let s = sn_write_csr E CSR (csr AND NOT (CSR_IENA OR CSR_TDMD OR CSR_STOP OR CSR_STRT OR CSR_INIT)) s in do {
          s \<leftarrow> (if has csr CSR_RINT then pcnet32_receive E K s else Some s);
          dpc_loop E K (if has csr CSR_TINT then pcnet32_transmitted E s else s)
        })"

definition pcnet32_dpc :: "env \<Rightarrow> sanos_os \<Rightarrow> pcnet32 \<Rightarrow> pcnet32 option" where
  "pcnet32_dpc E K s = do {
     s \<leftarrow> dpc_loop E K s;
     let s = sn_write_csr E CSR (CSR_BABL OR CSR_CERR OR CSR_MISS OR CSR_MERR OR CSR_IDON OR CSR_IENA) s;
     Some (emit E (Kernel ''eoi'') s)
   }"

definition pcnet32_handler :: "env \<Rightarrow> pcnet32 \<Rightarrow> nat \<times> pcnet32" where
  "pcnet32_handler E s = (0, emit E (Kernel ''queue_irq_dpc'') s)"

definition pcnet32_ioctl :: "pcnet32 \<Rightarrow> sn_ret \<times> pcnet32" where
  "pcnet32_ioctl s = (ENOSYS, s)"

definition pcnet32_attach :: "pcnet32 \<Rightarrow> sn_ret \<times> u8 list" where
  "pcnet32_attach s = (S_OK, hwaddr s)"

definition pcnet32_detach :: "pcnet32 \<Rightarrow> sn_ret \<times> pcnet32" where
  "pcnet32_detach s = (S_OK, s)"

subsection \<open>\<open>install\<close>\<close>

definition product_of :: "u32 \<Rightarrow> string option" where
  "product_of version =
     (if version = 0x2420 then Some ''AMD PCI 79C970''
      else if version = 0x2430 then Some ''AMD PCI 79C970''
      else if version = 0x2621 then Some ''AMD PCI II 79C970A''
      else if version = 0x2623 then Some ''AMD FAST 79C971''
      else if version = 0x2624 then Some ''AMD FAST+ 79C972''
      else if version = 0x2625 then Some ''AMD FAST III 79C973''
      else if version = 0x2626 then Some ''AMD Home 79C978''
      else if version = 0x2627 then Some ''AMD FAST III 79C975''
      else None)"

definition zero_md :: "nat \<Rightarrow> pcnet32 \<Rightarrow> pcnet32" where
  "zero_md i s = upd_mds (sn_rx_at s i)
     (\<lambda>_. \<lparr>mds_buffer = 0, mds_length = 0, mds_status = 0, mds_misc = 0, mds_reserved = 0\<rparr>) s"

text \<open>\<^verbatim>\<open>kmalloc\<close>ed and zeroed, with the unit's resources.\<close>

definition new_device :: "sanos_os \<Rightarrow> u32 \<Rightarrow> pcnet32 \<Rightarrow> pcnet32" where
  "new_device K p s =
     (let s = s\<lparr>rx_buffer := replicate RX_RING_SIZE None, tx_buffer := replicate TX_RING_SIZE None,
                phys_addr := virt2phys K p, next_rx := 0, sem_tx := 0, size_tx := 0, curr_tx := 0, next_tx := 0,
                hwaddr := replicate 6 0, iobase := unit_iobase K, irq := unit_irq K, membase := unit_membase K\<rparr>
      in fold zero_md [0..<RX_RING_SIZE + TX_RING_SIZE] s)"

definition setup_access :: "env \<Rightarrow> pcnet32 \<Rightarrow> pcnet32_access option \<times> pcnet32" where
  "setup_access E s =
     (let (v, s) = pcnet32_wio_read_csr E (iobase s) 0 s;
          (wio, s) = (if v = 4 then pcnet32_wio_check E (iobase s) s else (False, s))
      in if wio then (Some pcnet32_wio, s)
         else let (v, s) = pcnet32_dwio_read_csr E (iobase s) 0 s;
                  (dwio, s) = (if v = 4 then pcnet32_dwio_check E (iobase s) s else (False, s))
              in (if dwio then Some pcnet32_dwio else None, s))"

definition chip_version :: "env \<Rightarrow> pcnet32 \<Rightarrow> u32 \<times> pcnet32" where
  "chip_version E s =
     (let (lo, s) = sn_read_csr E CHIP_ID_LOWER s;
          (hi, s) = pcnet32_wio_read_csr E (iobase s) CHIP_ID_UPPER s
      in (ucast lo OR push_bit 16 (ucast hi), s))"

fun read_mac :: "env \<Rightarrow> nat list \<Rightarrow> pcnet32 \<Rightarrow> u8 list \<times> pcnet32" where
  "read_mac E [] s = ([], s)"
| "read_mac E (i # is) s =
     (let (b, s) = csrRead8 E (iobase s + of_nat i) s; (bs, s) = read_mac E is s in (b # bs, s))"

text \<open>\<open>None\<close>: the payload of a null pointer, when a buffer cannot be allocated.\<close>

fun init_rx_ring :: "env \<Rightarrow> sanos_os \<Rightarrow> nat list \<Rightarrow> pcnet32 \<Rightarrow> pcnet32 option" where
  "init_rx_ring E K [] s = Some s"
| "init_rx_ring E K (i # is) s =
     (let p = pbuf_alloc K (trace s);
          s = emit E (Call ''pbuf_alloc'' [of_nat ETHER_FRAME_LEN]) s;
          s = s\<lparr>rx_buffer := (rx_buffer s)[i := p]\<rparr> in
      case p of None \<Rightarrow> None
      | Some b \<Rightarrow>
          let s = upd_mds (sn_rx_at s i) (\<lambda>d. d\<lparr>mds_buffer := virt2phys K (payload_of K b)\<rparr>) s;
              s = upd_mds (sn_rx_at s i) (\<lambda>d. d\<lparr>mds_length := - of_nat ETHER_FRAME_LEN\<rparr>) s;
              s = upd_mds (sn_rx_at s i) (\<lambda>d. d\<lparr>mds_status := RMD_OWN\<rparr>) s
          in init_rx_ring E K is s)"

definition init_tx_slot :: "nat \<Rightarrow> pcnet32 \<Rightarrow> pcnet32" where
  "init_tx_slot i s =
     (let s = s\<lparr>tx_buffer := (tx_buffer s)[i := None]\<rparr>;
          s = upd_mds (sn_tx_at s i) (\<lambda>d. d\<lparr>mds_buffer := 0\<rparr>) s
      in upd_mds (sn_tx_at s i) (\<lambda>d. d\<lparr>mds_status := 0\<rparr>) s)"

definition setup_init_block :: "pcnet32 \<Rightarrow> pcnet32" where
  "setup_init_block s =
     s\<lparr>sn_block := \<lparr>sn_mode = 0x0080, sn_tlen_rlen = TX_RING_LEN_BITS OR RX_RING_LEN_BITS,
         sn_ib_addr = hwaddr s, sn_filter = [0, 0], sn_ib_rx_ring = sn_rx_at s 0, sn_ib_tx_ring = sn_tx_at s 0\<rparr>\<rparr>"

fun wait_idon :: "env \<Rightarrow> nat \<Rightarrow> pcnet32 \<Rightarrow> pcnet32" where
  "wait_idon E 0 s = s"
| "wait_idon E (Suc n) s =
     (let (v, s) = sn_read_csr E CSR s in if has v CSR_IDON then s else wait_idon E n s)"

definition setup_rings :: "env \<Rightarrow> sanos_os \<Rightarrow> pcnet32 \<Rightarrow> pcnet32 option" where
  "setup_rings E K s = do {
     s \<leftarrow> init_rx_ring E K [0..<RX_RING_SIZE] s;
     let s = fold init_tx_slot [0..<TX_RING_SIZE] (s\<lparr>next_rx := 0\<rparr>);
     Some (s\<lparr>sem_tx := TX_RING_SIZE, size_tx := 0, curr_tx := 0, next_tx := 0\<rparr>)
   }"

definition start_chip :: "env \<Rightarrow> pcnet32 \<Rightarrow> pcnet32" where
  "start_chip E s =
     (let s = sn_reset E s;
          s = sn_write_bcr E 20 2 s;
          (v, s) = sn_read_bcr E 9 s;
          s = sn_write_bcr E 9 (v AND NOT 3 OR 1) s;
          ib = sn_block_at s;
          s = sn_write_csr E 1 (ucast (ib AND 0xffff)) s;
          s = sn_write_csr E 2 (ucast (drop_bit 16 ib)) s;
          s = sn_write_csr E 4 0x0915 s;
          s = sn_write_csr E 0 CSR_INIT s;
          s = wait_idon E 100 s
      in sn_write_csr E 0 (CSR_IENA OR CSR_STRT) s)"

definition install :: "env \<Rightarrow> sanos_os \<Rightarrow> pcnet32 \<Rightarrow> (sn_ret \<times> pcnet32) option" where
  "install E K s =
     (if \<not> bus_is_pci K then Some (EINVAL, s)
      else case kmalloc K (trace s) of
        None \<Rightarrow> Some (ENOMEM, emit E (Kernel ''kmalloc'') s)
      | Some p \<Rightarrow>
        let s = new_device K p (emit E (Kernel ''kmalloc'') s);
            s = emit E (Kernel ''pci_enable_busmastering'') s;
            s = pcnet32_wio_reset E (iobase s) (pcnet32_dwio_reset E (iobase s) s);
            (m, s) = setup_access E s in
        case m of
          None \<Rightarrow> Some (EIO, s)
        | Some m \<Rightarrow>
          let (version, s) = chip_version E (s\<lparr>access := m\<rparr>) in
          if version AND 0xfff \<noteq> 0x003 then Some (S_OK, s)
          else case product_of (drop_bit 12 version AND 0xffff) of
            None \<Rightarrow> Some (S_OK, s)
          | Some name \<Rightarrow>
            let s = s\<lparr>vendorname := ''AMD'', productname := name\<rparr>;
                s = emit E (Kernel ''enable_irq'') (emit E (Kernel ''register_interrupt'') (emit E (Kernel ''init_dpc'') s));
                (mac, s) = read_mac E [0..<6] s;
                s = setup_init_block (s\<lparr>hwaddr := mac\<rparr>)
            in do {
              s \<leftarrow> setup_rings E K s;
              Some (S_OK, emit E (Kernel ''dev_make'') (start_chip E s))
            })"

end
