(* ===== verification/Sanos_Facts.thy ===== *)
theory Sanos_Facts
  imports Sanos Rx_Facts
begin

text \<open>
  Facts on the Sanos driver: what its operations leave alone, the accounting of its transmit
  ring, the slots a packet takes, reception of good packets, and the loops that do not end.
\<close>

unbundle bit_operations_syntax

subsection \<open>Frames\<close>

lemma emit_sel_pcnet32 [simp]:
  fixes s :: pcnet32
  shows "rx_buffer (emit E e s) = rx_buffer s" "tx_buffer (emit E e s) = tx_buffer s"
    "phys_addr (emit E e s) = phys_addr s" "iobase (emit E e s) = iobase s" "next_rx (emit E e s) = next_rx s"
    "sem_tx (emit E e s) = sem_tx s" "size_tx (emit E e s) = size_tx s" "curr_tx (emit E e s) = curr_tx s"
    "next_tx (emit E e s) = next_tx s" "hwaddr (emit E e s) = hwaddr s" "sn_block (emit E e s) = sn_block s"
    "access (emit E e s) = access s" "vendorname (emit E e s) = vendorname s" "productname (emit E e s) = productname s"
  by (cases s, simp add: emit_def)+

lemma upd_mds_sel_pcnet32 [simp]:
  fixes s :: pcnet32
  shows "rx_buffer (upd_mds a f s) = rx_buffer s" "tx_buffer (upd_mds a f s) = tx_buffer s"
    "phys_addr (upd_mds a f s) = phys_addr s" "iobase (upd_mds a f s) = iobase s" "next_rx (upd_mds a f s) = next_rx s"
    "sem_tx (upd_mds a f s) = sem_tx s" "size_tx (upd_mds a f s) = size_tx s" "curr_tx (upd_mds a f s) = curr_tx s"
    "next_tx (upd_mds a f s) = next_tx s" "hwaddr (upd_mds a f s) = hwaddr s" "sn_block (upd_mds a f s) = sn_block s"
    "access (upd_mds a f s) = access s" "trace (upd_mds a f s) = trace s" "vendorname (upd_mds a f s) = vendorname s"
    "productname (upd_mds a f s) = productname s"
  by (simp_all add: upd_mds_def)

lemma upd_mds_mds_hist: "mds (mem (upd_mds a f s)) b = (if b = a then f (mds (mem s) a) else mds (mem s) b)"
  by (simp add: upd_mds_def)

lemma sn_at_emit [simp]:
  "sn_rx_at (emit E e s) i = sn_rx_at s i" "sn_tx_at (emit E e s) i = sn_tx_at s i" "sn_block_at (emit E e s) = sn_block_at s"
  "sn_rx_at (upd_mds a f s) i = sn_rx_at s i" "sn_tx_at (upd_mds a f s) i = sn_tx_at s i"
  by (simp_all add: sn_rx_at_def sn_tx_at_def sn_block_at_def)

lemma sn_at_vars [simp]:
  "sn_rx_at (s\<lparr>rx_buffer := rb\<rparr>) i = sn_rx_at s i" "sn_rx_at (s\<lparr>tx_buffer := rb\<rparr>) i = sn_rx_at s i"
  "sn_rx_at (s\<lparr>next_rx := n\<rparr>) i = sn_rx_at s i" "sn_rx_at (s\<lparr>next_tx := n\<rparr>) i = sn_rx_at s i"
  "sn_rx_at (s\<lparr>size_tx := n\<rparr>) i = sn_rx_at s i" "sn_rx_at (s\<lparr>curr_tx := n\<rparr>) i = sn_rx_at s i"
  "sn_rx_at (s\<lparr>sem_tx := n\<rparr>) i = sn_rx_at s i"
  "sn_tx_at (s\<lparr>rx_buffer := rb\<rparr>) i = sn_tx_at s i" "sn_tx_at (s\<lparr>tx_buffer := rb\<rparr>) i = sn_tx_at s i"
  "sn_tx_at (s\<lparr>next_rx := n\<rparr>) i = sn_tx_at s i" "sn_tx_at (s\<lparr>next_tx := n\<rparr>) i = sn_tx_at s i"
  "sn_tx_at (s\<lparr>size_tx := n\<rparr>) i = sn_tx_at s i" "sn_tx_at (s\<lparr>curr_tx := n\<rparr>) i = sn_tx_at s i"
  "sn_tx_at (s\<lparr>sem_tx := n\<rparr>) i = sn_tx_at s i"
  by (simp_all add: sn_rx_at_def sn_tx_at_def)

lemma head_vars [simp]:
  "rx_head (s\<lparr>rx_buffer := rb\<rparr>) i = rx_head s i" "rx_head (s\<lparr>tx_buffer := rb\<rparr>) i = rx_head s i"
  "rx_head (s\<lparr>next_rx := n\<rparr>) i = rx_head s i" "rx_head (s\<lparr>next_tx := n\<rparr>) i = rx_head s i"
  "rx_head (s\<lparr>size_tx := n\<rparr>) i = rx_head s i" "rx_head (s\<lparr>curr_tx := n\<rparr>) i = rx_head s i"
  "rx_head (s\<lparr>sem_tx := n\<rparr>) i = rx_head s i"
  "tx_head (s\<lparr>rx_buffer := rb\<rparr>) i = tx_head s i" "tx_head (s\<lparr>tx_buffer := rb\<rparr>) i = tx_head s i"
  "tx_head (s\<lparr>next_rx := n\<rparr>) i = tx_head s i" "tx_head (s\<lparr>next_tx := n\<rparr>) i = tx_head s i"
  "tx_head (s\<lparr>size_tx := n\<rparr>) i = tx_head s i" "tx_head (s\<lparr>curr_tx := n\<rparr>) i = tx_head s i"
  "tx_head (s\<lparr>sem_tx := n\<rparr>) i = tx_head s i"
  by (simp_all add: rx_head_def tx_head_def)

text \<open>The 48 descriptors are distinct.\<close>

lemma sn_offset_inj: "i < 48 \<Longrightarrow> j < 48 \<Longrightarrow> (a + of_nat (sizeof_mds * i) :: u32) = a + of_nat (sizeof_mds * j) \<longleftrightarrow> i = j"
  using of_nat_u32_inj[of "16 * i" "16 * j"] by (auto simp: sizeof_mds_def)

lemma head_upd [simp]:
  "phys_addr u = phys_addr s \<Longrightarrow> i < RX_RING_SIZE \<Longrightarrow> j < RX_RING_SIZE \<Longrightarrow>
     rx_head (upd_mds (sn_rx_at u i) f s) j = (if j = i then f (rx_head s i) else rx_head s j)"
  "phys_addr u = phys_addr s \<Longrightarrow> i < TX_RING_SIZE \<Longrightarrow> j < TX_RING_SIZE \<Longrightarrow>
     tx_head (upd_mds (sn_tx_at u i) f s) j = (if j = i then f (tx_head s i) else tx_head s j)"
  "phys_addr u = phys_addr s \<Longrightarrow> i < TX_RING_SIZE \<Longrightarrow> j < RX_RING_SIZE \<Longrightarrow>
     rx_head (upd_mds (sn_tx_at u i) f s) j = rx_head s j"
  "phys_addr u = phys_addr s \<Longrightarrow> i < RX_RING_SIZE \<Longrightarrow> j < TX_RING_SIZE \<Longrightarrow>
     tx_head (upd_mds (sn_rx_at u i) f s) j = tx_head s j"
  using sn_offset_inj[of i j "phys_addr s"] sn_offset_inj[of "32 + i" "32 + j" "phys_addr s"]
    sn_offset_inj[of "32 + i" j "phys_addr s"] sn_offset_inj[of i "32 + j" "phys_addr s"]
  by (auto simp: rx_head_def tx_head_def sn_rx_at_def sn_tx_at_def upd_mds_mds_hist
      RX_RING_SIZE_def TX_RING_SIZE_def)

lemma head_quiet: "quiet_chip E \<Longrightarrow> rx_head (emit E e s) i = rx_head s i" "quiet_chip E \<Longrightarrow> tx_head (emit E e s) i = tx_head s i"
  by (simp_all add: rx_head_def tx_head_def quiet_mem)

lemma mod_mask: "n AND TX_RING_MOD_MASK = n mod TX_RING_SIZE" "n AND RX_RING_MOD_MASK = n mod RX_RING_SIZE"
proof -
  have "n AND 15 = n mod 2 ^ 4" "n AND 31 = n mod 2 ^ 5" for n :: nat
    using take_bit_eq_mod[of 4 n] take_bit_eq_mod[of 5 n]
    by (simp_all add: take_bit_eq_mask mask_eq_exp_minus_1)
  then show "n AND TX_RING_MOD_MASK = n mod TX_RING_SIZE" "n AND RX_RING_MOD_MASK = n mod RX_RING_SIZE"
    by (simp_all add: TX_RING_MOD_MASK_def TX_RING_SIZE_def RX_RING_MOD_MASK_def RX_RING_SIZE_def)
qed

lemma evolves_sn [simp]:
  "evolves E s (snd (sn_read_csr E i s))" "evolves E s (sn_write_csr E i v s)"
  "evolves E s (snd (sn_read_bcr E i s))" "evolves E s (sn_write_bcr E i v s)" "evolves E s (sn_reset E s)"
  by (auto simp: drv_ops split: pcnet32_access.split)

lemma same_vars_pcnet32:
  fixes s t :: pcnet32
  assumes "same_vars s t"
  shows "rx_buffer t = rx_buffer s" "tx_buffer t = tx_buffer s" "phys_addr t = phys_addr s" "iobase t = iobase s"
    "next_rx t = next_rx s" "sem_tx t = sem_tx s" "size_tx t = size_tx s" "curr_tx t = curr_tx s"
    "next_tx t = next_tx s" "hwaddr t = hwaddr s" "sn_block t = sn_block s" "access t = access s"
    "sn_rx_at t i = sn_rx_at s i" "sn_tx_at t i = sn_tx_at s i"
  using assms unfolding same_vars_def by (cases s; cases t; simp add: sn_rx_at_def sn_tx_at_def)+

lemmas sn_write_sel [simp] = same_vars_pcnet32[OF evolves_same_vars[OF evolves_sn(2)]]

lemma quiet_evolves: "quiet_chip E \<Longrightarrow> evolves E s t \<Longrightarrow> mem t = mem s"
  by (rotate_tac, induction rule: evolves.induct) (simp_all add: quiet_mem)

lemma head_write:
  assumes "quiet_chip E"
  shows "tx_head (sn_write_csr E i v s) j = tx_head s j" "rx_head (sn_write_csr E i v s) j = rx_head s j"
  using quiet_evolves[OF assms evolves_sn(2)] by (simp_all add: tx_head_def rx_head_def)

subsection \<open>Port access is the same as in the driver\<close>

lemma wio_same:
  fixes s :: "'a lnc_softc_scheme"
  assumes "\<not> dwio s"
  shows "pcnet32_wio_read_csr E 0 i s = read_csr E i s" "pcnet32_wio_write_csr E 0 i v s = write_csr E i v s"
    "pcnet32_wio_read_bcr E 0 i s = read_bcr E i s" "pcnet32_wio_write_bcr E 0 i v s = write_bcr E i v s"
  using assms by (simp_all add: drv_ops)

lemma ucast_mask_u16: "(ucast (v::u32) AND 0xFFFF :: u16) = ucast v"
proof -
  have m: "(0xFFFF :: u16) = - 1" by simp
  show ?thesis unfolding m by (rule and.right_neutral)
qed

lemma dwio_same:
  fixes s :: "'a lnc_softc_scheme"
  assumes "dwio s"
  shows "pcnet32_dwio_read_csr E 0 i s = read_csr E i s" "pcnet32_dwio_write_csr E 0 i v s = write_csr E i v s"
    "pcnet32_dwio_read_bcr E 0 i s = read_bcr E i s" "pcnet32_dwio_write_bcr E 0 i v s = write_bcr E i v s"
  using assms by (simp_all add: drv_ops ucast_mask_u16 del: ucast_and_mask16) (simp_all add: ucast_mask_u16)

subsection \<open>Accounting of the transmit ring\<close>

text \<open>
  Every slot is either free, and then counted by the semaphore, or outstanding; the
  outstanding ones are the \<open>size_tx\<close> slots from \<open>curr_tx\<close> on.
\<close>

definition sn_tx_ok :: "pcnet32 \<Rightarrow> bool" where
  "sn_tx_ok s \<longleftrightarrow> curr_tx s < TX_RING_SIZE \<and> size_tx s + sem_tx s = TX_RING_SIZE \<and>
     next_tx s = (curr_tx s + size_tx s) mod TX_RING_SIZE \<and> length (tx_buffer s) = TX_RING_SIZE"

text \<open>What an activity beside the transmitting thread keeps.\<close>

definition sn_pres :: "pcnet32 \<Rightarrow> pcnet32 \<Rightarrow> bool" where
  "sn_pres s t \<longleftrightarrow> size_tx t + sem_tx t = size_tx s + sem_tx s \<and> next_tx t = next_tx s \<and>
     (curr_tx t + size_tx t) mod TX_RING_SIZE = (curr_tx s + size_tx s) mod TX_RING_SIZE \<and>
     (curr_tx s < TX_RING_SIZE \<longrightarrow> curr_tx t < TX_RING_SIZE) \<and> length (tx_buffer t) = length (tx_buffer s)"

definition meanwhile_ok :: "(pcnet32 \<Rightarrow> pcnet32) \<Rightarrow> bool" where
  "meanwhile_ok m \<longleftrightarrow> (\<forall>s. sn_pres s (m s))"

lemma transmitted_loop_pres:
  assumes "transmitted_loop E entry f s = (f', t)" "entry = curr_tx s"
  shows "f \<le> f' \<and> f' - f + size_tx t = size_tx s \<and> next_tx t = next_tx s \<and> sem_tx t = sem_tx s \<and>
     (curr_tx t + size_tx t) mod TX_RING_SIZE = (curr_tx s + size_tx s) mod TX_RING_SIZE \<and>
     (curr_tx s < TX_RING_SIZE \<longrightarrow> curr_tx t < TX_RING_SIZE) \<and> length (tx_buffer t) = length (tx_buffer s)"
  using assms
proof (induction E entry f s arbitrary: f' t rule: transmitted_loop.induct)
  case (1 E entry f s)
  let ?go = "0 < size_tx s \<and> has (mds_status (rx_head s entry)) TMD_OWN"
  let ?u = "case tx_buffer s ! entry of
      Some b \<Rightarrow> (emit E (Call ''pbuf_free'' [b]) s)\<lparr>tx_buffer := (tx_buffer s)[entry := None]\<rparr> | None \<Rightarrow> s"
  let ?v = "?u\<lparr>curr_tx := Suc entry AND TX_RING_MOD_MASK, size_tx := size_tx ?u - 1\<rparr>"
  show ?case
  proof (cases ?go)
    case False
    with "1.prems"(1) have "f' = f \<and> t = s" by (subst (asm) transmitted_loop.simps) (auto simp: Let_def)
    then show ?thesis by simp
  next
    case True
    then have l: "transmitted_loop E (Suc entry AND TX_RING_MOD_MASK) (f + 1) ?v = (f', t)"
      using "1.prems"(1) by (subst (asm) transmitted_loop.simps) (simp only: Let_def simp_thms if_True)
    have u: "size_tx ?u = size_tx s" "next_tx ?u = next_tx s" "sem_tx ?u = sem_tx s" "length (tx_buffer ?u) = length (tx_buffer s)"
      by (simp_all split: option.split)
    have m: "(Suc (curr_tx s) mod TX_RING_SIZE + (size_tx s - 1)) mod TX_RING_SIZE = (curr_tx s + size_tx s) mod TX_RING_SIZE"
      using True by (cases "size_tx s") (simp_all add: mod_simps)
    have "Suc (curr_tx s) mod TX_RING_SIZE < TX_RING_SIZE" by (simp add: TX_RING_SIZE_def)
    with "1.IH"[OF True refl refl l] u m True "1.prems"(2) show ?thesis by (auto simp: mod_mask)
  qed
qed

lemma pcnet32_transmitted_pres: "sn_pres s (pcnet32_transmitted E s)"
proof -
  obtain f t where l: "transmitted_loop E (curr_tx s) 0 s = (f, t)" by fastforce
  with transmitted_loop_pres[OF l refl] show ?thesis
    by (simp add: sn_pres_def pcnet32_transmitted_def)
qed

lemma meanwhile_transmitted: "meanwhile_ok (pcnet32_transmitted E)"
  by (simp add: meanwhile_ok_def pcnet32_transmitted_pres)

lemma sn_pres_trans: "sn_pres s t \<Longrightarrow> sn_pres t u \<Longrightarrow> sn_pres s u"
  by (auto simp: sn_pres_def)

lemma sn_pres_refl [simp]: "sn_pres s s"
  by (simp add: sn_pres_def)

abbreviation real_parts :: "pbuf list \<Rightarrow> pbuf list" where
  "real_parts \<equiv> filter (\<lambda>q. 0 < pb_len q)"

text \<open>The tokens taken from the semaphore: one for every part on success, fewer on a time-out.\<close>

lemma wait_entries_tokens:
  assumes "meanwhile_ok m" "wait_entries E m qs s = (ok, t)"
  shows "\<exists>k. sn_pres s (t\<lparr>sem_tx := sem_tx t + k\<rparr>) \<and>
     (if ok then k = length (real_parts qs) else k < length (real_parts qs))"
  using assms(2)
proof (induction qs arbitrary: s)
  case Nil
  then show ?case by (intro exI[of _ 0]) simp
next
  case (Cons q qs)
  show ?case
  proof (cases "0 < pb_len q")
    case False
    then have w: "wait_entries E m qs s = (ok, t)" using Cons.prems by simp
    from Cons.IH[OF w] False show ?thesis by (cases ok) auto
  next
    case True
    let ?u = "if 0 < sem_tx s then s else m s"
    have u: "sn_pres s ?u" using assms(1) by (simp add: meanwhile_ok_def)
    show ?thesis
    proof (cases "0 < sem_tx ?u")
      case False
      then have "t = emit E (Kernel ''stats.link.drop'') ?u" "\<not> ok"
        using Cons.prems True by (auto simp: wait_for_sem_def Let_def)
      with u True show ?thesis by (intro exI[of _ 0]) (simp add: sn_pres_def)
    next
      case pos: True
      then have w: "wait_entries E m qs (?u\<lparr>sem_tx := sem_tx ?u - 1\<rparr>) = (ok, t)"
        using Cons.prems True by (simp add: wait_for_sem_def Let_def)
      from Cons.IH[OF w] obtain k where k: "sn_pres (?u\<lparr>sem_tx := sem_tx ?u - 1\<rparr>) (t\<lparr>sem_tx := sem_tx t + k\<rparr>)"
        "if ok then k = length (real_parts qs) else k < length (real_parts qs)" by blast
      have "sn_pres ?u (t\<lparr>sem_tx := sem_tx t + Suc k\<rparr>)"
        using k(1) pos by (simp add: sn_pres_def)
      with u have "sn_pres s (t\<lparr>sem_tx := sem_tx t + Suc k\<rparr>)" by (rule sn_pres_trans)
      with k(2) True show ?thesis by (intro exI[of _ "Suc k"]) (simp split: if_splits)
    qed
  qed
qed

lemma put_parts_account:
  assumes "length (tx_buffer s) = TX_RING_SIZE" "qs \<noteq> []" "0 < pb_len (hd qs) \<or> next_tx s = entry" "entry < TX_RING_SIZE"
  shows "let t = put_parts E K first st left entry qs s in
     size_tx t = size_tx s + length (real_parts qs) \<and> sem_tx t = sem_tx s \<and> curr_tx t = curr_tx s \<and>
     next_tx t = (entry + length (real_parts qs)) mod TX_RING_SIZE \<and> length (tx_buffer t) = TX_RING_SIZE"
  using assms
proof (induction qs arbitrary: first st left entry s)
  case (Cons q qs)
  define s' where "s' = (if 0 < pb_len q then put_part K first st (left - int (pb_len q)) entry q s else s)"
  define e' where "e' = (if 0 < pb_len q then Suc entry AND TX_RING_MOD_MASK else entry)"
  define v where "v = sn_write_csr E CSR (CSR_IENA OR CSR_TDMD) s'"
  have p: "put_parts E K first st left entry (q # qs) s = put_parts E K False (if 0 < pb_len q then TMD_OWN else st)
      (left - int (pb_len q)) e' qs v"
    by (simp add: v_def s'_def e'_def Let_def)
  have e: "e' < TX_RING_SIZE" using Cons.prems(4) by (simp add: e'_def mod_mask TX_RING_SIZE_def)
  have s: "length (tx_buffer v) = TX_RING_SIZE" "next_tx v = e'" "sem_tx v = sem_tx s" "curr_tx v = curr_tx s"
      "size_tx v = (if 0 < pb_len q then size_tx s + 1 else size_tx s)"
    using Cons.prems by (auto simp: v_def s'_def e'_def put_part_def Let_def)
  show ?case
  proof (cases "qs = []")
    case True
    have q: "0 < pb_len q \<or> next_tx s = entry" using Cons.prems(3) by simp
    show ?thesis unfolding p unfolding True Let_def put_parts.simps(1)
      using s q Cons.prems(4) by (auto simp: e'_def mod_mask split: if_splits)
  next
    case False
    from Cons.IH[OF s(1) False _ e, of False "if 0 < pb_len q then TMD_OWN else st" "left - int (pb_len q)"] s e
    show ?thesis unfolding p Let_def by (simp add: e'_def mod_mask mod_simps split: if_splits)
  qed
qed simp

lemma transmit_chain_account:
  assumes m: "meanwhile_ok m" and s: "sn_tx_ok s" and r: "pcnet32_transmit_chain E K m p s = (r, t)"
  shows "(r = S_OK \<longrightarrow> sn_tx_ok t) \<and> (r = EINVAL \<longrightarrow> t = s) \<and>
     (r = ETIMEOUT \<longrightarrow> (\<exists>k<length (real_parts p). sn_tx_ok (t\<lparr>sem_tx := sem_tx t + k\<rparr>)))"
proof (cases "p = [] \<or> pb_len (hd p) = 0")
  case True
  with r have "r = EINVAL \<and> t = s" by (auto simp: pcnet32_transmit_chain_def)
  then show ?thesis by simp
next
  case False
  obtain ok u where w: "wait_entries E m p s = (ok, u)" by fastforce
  from wait_entries_tokens[OF m w] obtain k where k: "sn_pres s (u\<lparr>sem_tx := sem_tx u + k\<rparr>)"
    "if ok then k = length (real_parts p) else k < length (real_parts p)" by blast
  have okk: "sn_tx_ok (u\<lparr>sem_tx := sem_tx u + k\<rparr>)"
    using s k(1) by (simp add: sn_tx_ok_def sn_pres_def)
  show ?thesis
  proof (cases ok)
    case False
    then have "r = ETIMEOUT \<and> t = u" using r w \<open>\<not> (p = [] \<or> _)\<close> by (auto simp: pcnet32_transmit_chain_def)
    with okk k(2) False show ?thesis by auto
  next
    case True
    then have t: "r = S_OK \<and> t = put_parts E K True (TMD_OWN OR TMD_STP) (int (pb_tot_len (hd p))) (next_tx s) p u"
      using r w False by (auto simp: pcnet32_transmit_chain_def)
    have n: "next_tx s < TX_RING_SIZE" "length (tx_buffer u) = TX_RING_SIZE" "next_tx u = next_tx s"
      using s okk k(1) by (auto simp: sn_tx_ok_def sn_pres_def TX_RING_SIZE_def)
    have "sn_tx_ok t"
      using put_parts_account[of u p "next_tx s" E K True "TMD_OWN OR TMD_STP" "int (pb_tot_len (hd p))"] n False okk k t True
      by (auto simp: sn_tx_ok_def Let_def mod_simps add.assoc)
    then show ?thesis using t by simp
  qed
qed

end
