(* ===== verification/Sanos_Rx.thy ===== *)
theory Sanos_Rx
  imports Sanos_Facts
begin

text \<open>
  The receive loop of the Sanos driver: what it delivers when it returns, and the two ways in
  which it does not return.
\<close>

unbundle bit_operations_syntax

subsection \<open>One slot\<close>

text \<open>A whole packet in one buffer, no error; anything else the driver owns is an error.\<close>

definition sn_filled :: "pcnet32 \<Rightarrow> nat \<Rightarrow> bool" where
  "sn_filled s i \<longleftrightarrow> \<not> has (mds_status (rx_head s i)) RMD_OWN \<and> drop_bit 8 (mds_status (rx_head s i)) = 0x03"

definition sn_bad :: "pcnet32 \<Rightarrow> nat \<Rightarrow> bool" where
  "sn_bad s i \<longleftrightarrow> \<not> has (mds_status (rx_head s i)) RMD_OWN \<and> drop_bit 8 (mds_status (rx_head s i)) \<noteq> 0x03"

text \<open>The packets handed to \<^verbatim>\<open>dev_receive\<close>, oldest first, with their lengths.\<close>

fun sn_delivered :: "history \<Rightarrow> (u32 \<times> u32) list" where
  "sn_delivered [] = []"
| "sn_delivered (Call f [p, n] # h) = (if f = ''dev_receive'' then sn_delivered h @ [(p, n)] else sn_delivered h)"
| "sn_delivered (_ # h) = sn_delivered h"

definition slot_packet :: "pcnet32 \<Rightarrow> nat \<Rightarrow> (u32 \<times> u32) list" where
  "slot_packet s i = (case rx_buffer s ! i of Some p \<Rightarrow> [(p, scast (sn_len (rx_head s i)))] | None \<Rightarrow> [])"

definition sn_rx_ok :: "pcnet32 \<Rightarrow> bool" where
  "sn_rx_ok s \<longleftrightarrow> length (rx_buffer s) = RX_RING_SIZE \<and> next_rx s < RX_RING_SIZE"

definition tx_part :: "pcnet32 \<Rightarrow> nat \<times> nat \<times> nat \<times> nat \<times> u32 option list" where
  "tx_part s = (size_tx s, sem_tx s, curr_tx s, next_tx s, tx_buffer s)"

lemma mod_rx_less [simp]: "n AND RX_RING_MOD_MASK < RX_RING_SIZE"
  by (simp add: mod_mask RX_RING_SIZE_def)

lemma refill_sel [simp]:
  "length (rx_buffer (sn_refill E K i s)) = length (rx_buffer s)" "tx_part (sn_refill E K i s) = tx_part s"
  "sn_delivered (trace (sn_refill E K i s)) = sn_delivered (trace s)" "phys_addr (sn_refill E K i s) = phys_addr s"
  by (simp_all add: sn_refill_def Let_def tx_part_def split: option.split)

lemma pass_up_sel [simp]:
  "rx_buffer (sn_pass_up E K p n s) = rx_buffer s" "tx_part (sn_pass_up E K p n s) = tx_part s"
  "sn_delivered (trace (sn_pass_up E K p n s)) = sn_delivered (trace s) @ [(p, scast n)]"
  "phys_addr (sn_pass_up E K p n s) = phys_addr s"
  by (simp_all add: sn_pass_up_def Let_def tx_part_def)

lemma pass_up_head: "quiet_chip E \<Longrightarrow> rx_head (sn_pass_up E K p n s) j = rx_head s j"
  by (simp add: sn_pass_up_def Let_def head_quiet)

lemma receive_one_sel [simp]:
  "length (rx_buffer (sn_receive_one E K i s)) = length (rx_buffer s)"
  "next_rx (sn_receive_one E K i s) = Suc i AND RX_RING_MOD_MASK"
  "tx_part (sn_receive_one E K i s) = tx_part s"
proof -
  have "tx_part (u\<lparr>next_rx := n\<rparr>) = tx_part u" for u n by (simp add: tx_part_def)
  then show "length (rx_buffer (sn_receive_one E K i s)) = length (rx_buffer s)"
    "next_rx (sn_receive_one E K i s) = Suc i AND RX_RING_MOD_MASK"
    "tx_part (sn_receive_one E K i s) = tx_part s"
    by (simp_all add: sn_receive_one_def Let_def split: option.split)
qed

lemma receive_one_delivered:
  "sn_delivered (trace (sn_receive_one E K i s)) = sn_delivered (trace s) @ slot_packet s i"
  by (simp add: sn_receive_one_def slot_packet_def Let_def split: option.split)

text \<open>The descriptor of a slot with its new buffer.\<close>

definition refilled :: "sanos_os \<Rightarrow> u32 \<Rightarrow> pcnet32_mds \<Rightarrow> pcnet32_mds" where
  "refilled K b d = d\<lparr>mds_buffer := virt2phys K (payload_of K b), mds_length := - of_nat ETHER_FRAME_LEN,
     mds_status := mds_status d OR RMD_OWN\<rparr>"

lemma refilled_own [simp]: "has (mds_status (refilled K b d)) RMD_OWN"
  by (simp add: refilled_def has_or) (simp add: has_def hw_consts)

lemma receive_one_head:
  assumes "quiet_chip E" "i < RX_RING_SIZE" "j < RX_RING_SIZE"
  shows "rx_head (sn_receive_one E K i s) j = (if j = i then
      (case pbuf_alloc K (trace s) of Some b \<Rightarrow> refilled K b (rx_head s i) | None \<Rightarrow> rx_head s i) else rx_head s j)"
proof -
  have "rx_head (sn_refill E K i s) j = (if j = i then
      (case pbuf_alloc K (trace s) of Some b \<Rightarrow> refilled K b (rx_head s i) | None \<Rightarrow> rx_head s i) else rx_head s j)"
    using assms(2,3) by (simp add: sn_refill_def Let_def head_quiet[OF assms(1)] refilled_def split: option.split)
  then show ?thesis
    by (cases "j = i") (simp_all add: sn_receive_one_def Let_def pass_up_head[OF assms(1)] split: option.split)
qed

lemma receive_one_buffer:
  assumes "length (rx_buffer s) = RX_RING_SIZE" "i < RX_RING_SIZE" "j < RX_RING_SIZE"
  shows "rx_buffer (sn_receive_one E K i s) ! j = (if j = i then pbuf_alloc K (trace s) else rx_buffer s ! j)"
proof -
  have "rx_buffer (sn_refill E K i s) ! j = (if j = i then pbuf_alloc K (trace s) else rx_buffer s ! j)"
    using assms by (simp add: sn_refill_def Let_def split: option.split)
  then show ?thesis
    by (cases "j = i") (simp_all add: sn_receive_one_def Let_def split: option.split)
qed

subsection \<open>The loop over good packets\<close>

lemma receive_loop_own: "has (mds_status (rx_head s i)) RMD_OWN \<Longrightarrow> receive_loop E K i s = Some s"
  by (subst receive_loop.simps) simp

lemma receive_loop_filled:
  "sn_filled s i \<Longrightarrow> receive_loop E K i s = receive_loop E K (Suc i mod RX_RING_SIZE) (sn_receive_one E K i s)"
  by (subst receive_loop.simps) (simp add: sn_filled_def mod_mask)

lemma fold_receive:
  assumes "quiet_chip E" "distinct is" "\<forall>i\<in>set is. i < RX_RING_SIZE" "\<forall>h. pbuf_alloc K h \<noteq> None"
    "length (rx_buffer s) = RX_RING_SIZE"
  defines "t \<equiv> fold (sn_receive_one E K) is s"
  shows "(\<forall>j<RX_RING_SIZE. if j \<in> set is
       then \<exists>b. rx_buffer t ! j = Some b \<and> rx_head t j = refilled K b (rx_head s j)
       else rx_buffer t ! j = rx_buffer s ! j \<and> rx_head t j = rx_head s j) \<and>
     sn_delivered (trace t) = sn_delivered (trace s) @ concat (map (slot_packet s) is) \<and>
     next_rx t = (if is = [] then next_rx s else Suc (last is) mod RX_RING_SIZE) \<and> tx_part t = tx_part s \<and>
     length (rx_buffer t) = RX_RING_SIZE"
  using assms(2-5) unfolding t_def
proof (induction "is" arbitrary: s)
  case (Cons i "is")
  let ?u = "sn_receive_one E K i s"
  have i: "i < RX_RING_SIZE" "i \<notin> set is" using Cons.prems by simp_all
  obtain b where b: "pbuf_alloc K (trace s) = Some b" using Cons.prems(3) by blast
  have h: "rx_head ?u j = (if j = i then refilled K b (rx_head s i) else rx_head s j)"
    "rx_buffer ?u ! j = (if j = i then Some b else rx_buffer s ! j)" if "j < RX_RING_SIZE" for j
    using receive_one_head[OF assms(1) i(1) that] receive_one_buffer[OF Cons.prems(4) i(1) that] b by simp_all
  have "slot_packet ?u j = slot_packet s j" if "j \<in> set is" for j
  proof -
    have "j < RX_RING_SIZE" "j \<noteq> i" using that Cons.prems(2) i by auto
    then show ?thesis using h by (simp add: slot_packet_def split: option.split)
  qed
  then have p: "map (slot_packet ?u) is = map (slot_packet s) is" by simp
  have IH: "(\<forall>j<RX_RING_SIZE. if j \<in> set is
       then \<exists>b. rx_buffer (fold (sn_receive_one E K) is ?u) ! j = Some b \<and>
         rx_head (fold (sn_receive_one E K) is ?u) j = refilled K b (rx_head ?u j)
       else rx_buffer (fold (sn_receive_one E K) is ?u) ! j = rx_buffer ?u ! j \<and>
         rx_head (fold (sn_receive_one E K) is ?u) j = rx_head ?u j) \<and>
     sn_delivered (trace (fold (sn_receive_one E K) is ?u)) = sn_delivered (trace ?u) @ concat (map (slot_packet ?u) is) \<and>
     next_rx (fold (sn_receive_one E K) is ?u) = (if is = [] then next_rx ?u else Suc (last is) mod RX_RING_SIZE) \<and>
     tx_part (fold (sn_receive_one E K) is ?u) = tx_part ?u \<and>
     length (rx_buffer (fold (sn_receive_one E K) is ?u)) = RX_RING_SIZE"
    using Cons.prems by (intro Cons.IH) simp_all
  show ?case
    using IH h i by (auto simp: p receive_one_delivered mod_mask split: if_splits)
qed simp

lemma receive_loop_fold:
  assumes q: "quiet_chip E" and i: "i < RX_RING_SIZE" and k: "k \<le> RX_RING_SIZE"
    and f: "\<forall>l<k. sn_filled s ((i + l) mod RX_RING_SIZE)" and a: "\<forall>h. pbuf_alloc K h \<noteq> None"
    and b: "length (rx_buffer s) = RX_RING_SIZE"
  shows "receive_loop E K i s = receive_loop E K ((i + k) mod RX_RING_SIZE) (fold (sn_receive_one E K) (cyc_seg RX_RING_SIZE i k) s)"
  using k f
proof (induction k)
  case 0
  then show ?case using i by simp
next
  case (Suc k)
  let ?t = "fold (sn_receive_one E K) (cyc_seg RX_RING_SIZE i k) s"
  have j: "(i + k) mod RX_RING_SIZE < RX_RING_SIZE" by (simp add: RX_RING_SIZE_def)
  have d: "distinct (cyc_seg RX_RING_SIZE i (Suc k))" using Suc.prems(1) by (rule cyc_seg_distinct)
  have e: "cyc_seg RX_RING_SIZE i (Suc k) = cyc_seg RX_RING_SIZE i k @ [(i + k) mod RX_RING_SIZE]"
    using j cyc_seg_append[of RX_RING_SIZE i k 1] cyc_seg_Suc[of "(i + k) mod RX_RING_SIZE" RX_RING_SIZE 0] by simp
  have n: "(i + k) mod RX_RING_SIZE \<notin> set (cyc_seg RX_RING_SIZE i k)" "distinct (cyc_seg RX_RING_SIZE i k)"
    using d unfolding e by simp_all
  have l: "\<forall>j\<in>set (cyc_seg RX_RING_SIZE i k). j < RX_RING_SIZE"
    using cyc_seg_less by (metis j less_nat_zero_code neq0_conv)
  have "rx_head ?t ((i + k) mod RX_RING_SIZE) = rx_head s ((i + k) mod RX_RING_SIZE)"
    using fold_receive[OF q n(2) l a b] n(1) j by simp
  then have "sn_filled ?t ((i + k) mod RX_RING_SIZE)" using Suc.prems(2) by (simp add: sn_filled_def)
  from receive_loop_filled[OF this] Suc show ?case unfolding e by (simp add: mod_simps)
qed

lemma receive_delivers:
  assumes q: "quiet_chip E" and s: "sn_rx_ok s" and k: "k \<le> RX_RING_SIZE"
    and f: "\<forall>l<k. sn_filled s ((next_rx s + l) mod RX_RING_SIZE)" and a: "\<forall>h. pbuf_alloc K h \<noteq> None"
    and o: "k = RX_RING_SIZE \<or> has (mds_status (rx_head s ((next_rx s + k) mod RX_RING_SIZE))) RMD_OWN"
  defines "is \<equiv> cyc_seg RX_RING_SIZE (next_rx s) k"
  shows "\<exists>t. pcnet32_receive E K s = Some t \<and> sn_delivered (trace t) = sn_delivered (trace s) @ concat (map (slot_packet s) is) \<and>
     next_rx t = (next_rx s + k) mod RX_RING_SIZE \<and> sn_rx_ok t \<and>
     (\<forall>j<RX_RING_SIZE. if j \<in> set is
       then \<exists>b. rx_buffer t ! j = Some b \<and> rx_head t j = refilled K b (rx_head s j)
       else rx_buffer t ! j = rx_buffer s ! j \<and> rx_head t j = rx_head s j)"
proof -
  let ?t = "fold (sn_receive_one E K) is s" and ?j = "(next_rx s + k) mod RX_RING_SIZE"
  have b: "length (rx_buffer s) = RX_RING_SIZE" "next_rx s < RX_RING_SIZE" using s by (simp_all add: sn_rx_ok_def)
  have N: "0 < RX_RING_SIZE" by (simp add: RX_RING_SIZE_def)
  have d: "distinct is" "\<forall>i\<in>set is. i < RX_RING_SIZE"
    using cyc_seg_distinct[OF k] cyc_seg_less[OF N] by (auto simp: is_def)
  note t = fold_receive[OF q d a b(1)]
  have "has (mds_status (rx_head ?t ?j)) RMD_OWN"
  proof (cases "?j \<in> set is")
    case True
    then obtain x where "rx_head ?t ?j = refilled K x (rx_head s ?j)" using t N by (metis mod_less_divisor)
    then show ?thesis by simp
  next
    case False
    have "?j \<in> set is" if "k = RX_RING_SIZE"
    proof -
      have "is ! 0 = ?j" using that N b(2) by (simp add: is_def cyc_seg_nth)
      moreover have "0 < length is" using that N by (simp add: is_def)
      ultimately show ?thesis by (metis nth_mem)
    qed
    with False o have "has (mds_status (rx_head s ?j)) RMD_OWN" by blast
    moreover have "rx_head ?t ?j = rx_head s ?j" using False t N by (metis mod_less_divisor)
    ultimately show ?thesis by simp
  qed
  then have "pcnet32_receive E K s = Some ?t"
    using receive_loop_fold[OF q b(2) k f a b(1)] receive_loop_own by (simp add: pcnet32_receive_def is_def)
  moreover have "next_rx ?t = ?j"
  proof (cases k)
    case 0
    then show ?thesis using b(2) by (simp add: is_def)
  next
    case (Suc k')
    then have "is \<noteq> []" "last is = (next_rx s + k') mod RX_RING_SIZE"
      by (simp_all add: is_def last_conv_nth cyc_seg_nth flip: length_0_conv)
    then show ?thesis using t Suc by (simp add: mod_simps)
  qed
  ultimately show ?thesis using t N by (intro exI[of _ ?t]) (simp add: sn_rx_ok_def)
qed

subsection \<open>The loops that do not end\<close>

text \<open>
  A descriptor with an error is neither returned nor passed over, and when no buffer can be
  allocated nothing gives a slot back to the chip, so the loop goes round.
\<close>

lemma receive_diverges:
  assumes "\<And>i s. Bad i s \<Longrightarrow> \<not> has (mds_status (rx_head s i)) RMD_OWN"
    and "\<And>i s. Bad i s \<Longrightarrow> drop_bit 8 (mds_status (rx_head s i)) \<noteq> 0x03 \<Longrightarrow> Bad i (emit E (Kernel ''stats.link.err'') s)"
    and "\<And>i s. Bad i s \<Longrightarrow> drop_bit 8 (mds_status (rx_head s i)) = 0x03 \<Longrightarrow> Bad (Suc i AND RX_RING_MOD_MASK) (sn_receive_one E K i s)"
    and "Bad i s"
  shows "receive_loop E K i s = None"
proof -
  have "\<not> (E' = E \<and> K' = K \<and> Bad i s)" if "receive_loop E' K' i s = Some r" for E' K' i s r
  proof (rule receive_loop.raw_induct[where P = "\<lambda>E' K' i s r. \<not> (E' = E \<and> K' = K \<and> Bad i s)", OF _ that])
    fix f E' K' i s r
    assume IH: "\<And>E' K' i s r. f E' K' i s = Some r \<Longrightarrow> \<not> (E' = E \<and> K' = K \<and> Bad i s)"
      and eq: "(if has (mds_status (rx_head s i)) RMD_OWN then Some s
      else let status = drop_bit 8 (mds_status (rx_head s i)) in
        if status \<noteq> 0x03 then f E' K' i (emit E' (Kernel ''stats.link.err'') s)
        else f E' K' (Suc i AND RX_RING_MOD_MASK) (sn_receive_one E' K' i s)) = Some r"
    show "\<not> (E' = E \<and> K' = K \<and> Bad i s)"
      using eq IH assms(1,2,3)[of i s] by (auto simp: Let_def split: if_splits)
  qed
  with assms(4) show ?thesis by (cases "receive_loop E K i s") auto
qed

lemma receive_error_hangs:
  assumes "quiet_chip E" "sn_bad s (next_rx s)"
  shows "pcnet32_receive E K s = None"
  unfolding pcnet32_receive_def
  by (rule receive_diverges[where Bad = "\<lambda>i s. sn_bad s i"])
    (use assms in \<open>auto simp: sn_bad_def head_quiet\<close>)

lemma receive_no_memory_hangs:
  assumes "quiet_chip E" "next_rx s < RX_RING_SIZE" "\<forall>j<RX_RING_SIZE. sn_filled s j" "\<forall>h. pbuf_alloc K h = None"
  shows "pcnet32_receive E K s = None"
  unfolding pcnet32_receive_def
proof (rule receive_diverges[where Bad = "\<lambda>i s. i < RX_RING_SIZE \<and> (\<forall>j<RX_RING_SIZE. sn_filled s j)"])
  fix i s assume "i < RX_RING_SIZE \<and> (\<forall>j<RX_RING_SIZE. sn_filled s j)"
  then show "Suc i AND RX_RING_MOD_MASK < RX_RING_SIZE \<and> (\<forall>j<RX_RING_SIZE. sn_filled (sn_receive_one E K i s) j)"
    using receive_one_head[OF assms(1)] assms(4) by (simp add: sn_filled_def)
qed (use assms in \<open>auto simp: sn_filled_def\<close>)

subsection \<open>What every run keeps\<close>

lemma receive_loop_keeps:
  assumes "receive_loop E K i s = Some t" "sn_rx_ok s" "i < RX_RING_SIZE"
  shows "sn_rx_ok t \<and> tx_part t = tx_part s"
proof -
  have "sn_rx_ok s \<longrightarrow> i < RX_RING_SIZE \<longrightarrow> sn_rx_ok t \<and> tx_part t = tx_part s" if "receive_loop E K i s = Some t" for E K i s t
  proof (rule receive_loop.raw_induct[where P = "\<lambda>E K i s t. sn_rx_ok s \<longrightarrow> i < RX_RING_SIZE \<longrightarrow> sn_rx_ok t \<and> tx_part t = tx_part s", OF _ that])
    fix f E K i s t
    assume IH: "\<And>E K i s t. f E K i s = Some t \<Longrightarrow> sn_rx_ok s \<longrightarrow> i < RX_RING_SIZE \<longrightarrow> sn_rx_ok t \<and> tx_part t = tx_part s"
      and eq: "(if has (mds_status (rx_head s i)) RMD_OWN then Some s
      else let status = drop_bit 8 (mds_status (rx_head s i)) in
        if status \<noteq> 0x03 then f E K i (emit E (Kernel ''stats.link.err'') s)
        else f E K (Suc i AND RX_RING_MOD_MASK) (sn_receive_one E K i s)) = Some t"
    have e: "sn_rx_ok (emit E e s) = sn_rx_ok s" "tx_part (emit E e s) = tx_part s" for e
      by (simp_all add: sn_rx_ok_def tx_part_def)
    have r: "sn_rx_ok s \<Longrightarrow> sn_rx_ok (sn_receive_one E K i s)" by (simp add: sn_rx_ok_def)
    show "sn_rx_ok s \<longrightarrow> i < RX_RING_SIZE \<longrightarrow> sn_rx_ok t \<and> tx_part t = tx_part s"
      using eq IH[of E K i "emit E (Kernel ''stats.link.err'') s" t] r
        IH[of E K "Suc i AND RX_RING_MOD_MASK" "sn_receive_one E K i s" t]
      by (auto simp: Let_def e split: if_splits)
  qed
  with assms show ?thesis by blast
qed

lemma receive_keeps: "pcnet32_receive E K s = Some t \<Longrightarrow> sn_rx_ok s \<Longrightarrow> sn_rx_ok t \<and> tx_part t = tx_part s"
  using receive_loop_keeps[of E K "next_rx s" s t] by (simp add: pcnet32_receive_def sn_rx_ok_def)

end
