(* ===== verification/Sanos_System.thy ===== *)
theory Sanos_System
  imports Sanos_Rx
begin

text \<open>
  The Sanos driver as a whole: the descriptor a packet becomes, what the receive path and the
  deferred handler leave to the transmit side, what \<open>install\<close> establishes, and the invariant of
  every state reached by its entry points.
\<close>

unbundle bit_operations_syntax

subsection \<open>Transmission of a linearised packet\<close>

text \<open>\<^verbatim>\<open>pbuf_linearize\<close> returns a null pointer, or one buffer that holds the whole packet.\<close>

definition linearize_ok :: "sanos_os \<Rightarrow> bool" where
  "linearize_ok K \<longleftrightarrow> (\<forall>h p. pbuf_linearize K h p = [] \<or>
     (\<exists>q. pbuf_linearize K h p = [q] \<and> pb_tot_len q = pb_len q \<and> 0 < pb_len q))"

lemma wait_for_sem_cases:
  assumes "meanwhile_ok m" "wait_for_sem m s = (ok, t)"
  shows "if ok then sn_pres s (t\<lparr>sem_tx := sem_tx t + 1\<rparr>) else sn_pres s t"
proof -
  let ?u = "if 0 < sem_tx s then s else m s"
  have "sn_pres s ?u" using assms(1) by (simp add: meanwhile_ok_def)
  then show ?thesis using assms(2) by (auto simp: wait_for_sem_def Let_def sn_pres_def split: if_splits)
qed

lemma put_single:
  assumes "0 < pb_len q"
  shows "put_parts E K True st (int (pb_len q)) entry [q] s =
     sn_write_csr E CSR (CSR_IENA OR CSR_TDMD) (put_part K True st 0 entry q s)"
  using assms by simp

text \<open>The descriptor of a whole packet, as the chip sees it once it owns it.\<close>

definition sent_mds :: "sanos_os \<Rightarrow> pbuf \<Rightarrow> pcnet32_mds \<Rightarrow> pcnet32_mds" where
  "sent_mds K q d = d\<lparr>mds_buffer := virt2phys K (pb_payload q), mds_length := - of_nat (pb_len q),
     mds_misc := 0, mds_status := TMD_OWN OR TMD_STP OR TMD_ENP\<rparr>"

lemma put_part_head:
  assumes "entry < TX_RING_SIZE" "j < TX_RING_SIZE"
  shows "tx_head (put_part K True (TMD_OWN OR TMD_STP) 0 entry q s) j =
     (if j = entry then sent_mds K q (tx_head s j) else tx_head s j)"
  using assms by (simp add: put_part_def sent_mds_def Let_def or.assoc)

lemma put_part_rx_head:
  "entry < TX_RING_SIZE \<Longrightarrow> j < RX_RING_SIZE \<Longrightarrow> rx_head (put_part K f st l entry q s) j = rx_head s j"
  by (simp add: put_part_def Let_def)

lemma transmit_cases:
  assumes "linearize_ok K" "pcnet32_transmit E K m p s = Some (r, t)"
  obtains "r = EINVAL" "t = s" "p = [] \<or> pb_len (hd p) = 0"
  | u where "r = ETIMEOUT" "wait_for_sem m s = (False, u)" "t = emit E (Kernel ''stats.link.drop'') u"
  | u q where "r = S_OK" "wait_for_sem m s = (True, u)" "pbuf_linearize K (trace u) p = [q]" "pb_tot_len q = pb_len q"
      "0 < pb_len q" "t = sn_write_csr E CSR (CSR_IENA OR CSR_TDMD)
         (put_part K True (TMD_OWN OR TMD_STP) 0 (next_tx s) q (emit E (Call ''pbuf_linearize'' [pb_ref (hd p)]) u))"
proof -
  obtain ok u where w: "wait_for_sem m s = (ok, u)" by fastforce
  consider "p = [] \<or> pb_len (hd p) = 0" | "\<not> (p = [] \<or> pb_len (hd p) = 0)" "\<not> ok"
    | q where "\<not> (p = [] \<or> pb_len (hd p) = 0)" ok "pbuf_linearize K (trace u) p = [q]" "pb_tot_len q = pb_len q" "0 < pb_len q"
    using assms w unfolding linearize_ok_def by (auto simp: pcnet32_transmit_def Let_def split: if_splits)
  then show thesis
  proof cases
    case 1
    then show thesis using assms(2) by (intro that(1)) (auto simp: pcnet32_transmit_def)
  next
    case 2
    then show thesis using assms(2) w by (intro that(2)[of u]) (auto simp: pcnet32_transmit_def)
  next
    case 3
    then show thesis using assms(2) w put_single[OF 3(5)]
      by (intro that(3)[of u q]) (auto simp: pcnet32_transmit_def Let_def)
  qed
qed

lemma put_part_account:
  assumes "sn_tx_ok (s\<lparr>sem_tx := sem_tx s + 1\<rparr>)"
  shows "sn_tx_ok (put_part K f st l (next_tx s) q s)"
  using assms by (simp add: sn_tx_ok_def put_part_def Let_def mod_mask mod_simps)

lemma sn_tx_ok_pres: "sn_tx_ok s \<Longrightarrow> sn_pres s t \<Longrightarrow> sn_tx_ok t"
  by (simp add: sn_tx_ok_def sn_pres_def)

lemma sn_tx_ok_evolves: "same_vars s t \<Longrightarrow> sn_tx_ok t = sn_tx_ok s" for s t :: pcnet32
  by (simp add: sn_tx_ok_def same_vars_pcnet32[of s t])

lemma transmit_account:
  assumes k: "linearize_ok K" and m: "meanwhile_ok m" and s: "sn_tx_ok s"
    and r: "pcnet32_transmit E K m p s = Some (r, t)"
  shows "sn_tx_ok t"
  using k r
proof (cases rule: transmit_cases)
  case 1
  with s show ?thesis by simp
next
  case (2 u)
  then have "sn_tx_ok u" using wait_for_sem_cases[OF m 2(2)] s by (auto intro: sn_tx_ok_pres)
  then show ?thesis using 2(3) sn_tx_ok_evolves[OF same_vars_emit] by simp
next
  case (3 u q)
  let ?v = "emit E (Call ''pbuf_linearize'' [pb_ref (hd p)]) u"
  have p: "sn_pres s (u\<lparr>sem_tx := sem_tx u + 1\<rparr>)" using wait_for_sem_cases[OF m 3(2)] by simp
  with s have "sn_tx_ok (u\<lparr>sem_tx := sem_tx u + 1\<rparr>)" by (rule sn_tx_ok_pres)
  then have "sn_tx_ok (?v\<lparr>sem_tx := sem_tx ?v + 1\<rparr>)" by (simp add: sn_tx_ok_def)
  from put_part_account[OF this] p have "sn_tx_ok (put_part K True (TMD_OWN OR TMD_STP) 0 (next_tx s) q ?v)"
    by (simp add: sn_pres_def)
  then show ?thesis unfolding 3(6) sn_tx_ok_evolves[OF evolves_same_vars[OF evolves_sn(2)]] .
qed

lemma transmit_descriptor:
  assumes k: "linearize_ok K" and e: "quiet_chip E" and s: "sn_tx_ok s" "0 < sem_tx s"
    and p: "p \<noteq> []" "0 < pb_len (hd p)" "pbuf_linearize K (trace s) p = [q]"
  shows "\<exists>t. pcnet32_transmit E K m p s = Some (S_OK, t) \<and>
     (\<forall>j<TX_RING_SIZE. tx_head t j = (if j = next_tx s then sent_mds K q (tx_head s j) else tx_head s j)) \<and>
     (\<forall>j<RX_RING_SIZE. rx_head t j = rx_head s j) \<and>
     tx_buffer t = (tx_buffer s)[next_tx s := Some (pb_ref q)] \<and> size_tx t = size_tx s + 1 \<and> sem_tx t = sem_tx s - 1"
proof -
  let ?u = "s\<lparr>sem_tx := sem_tx s - 1\<rparr>"
  let ?v = "emit E (Call ''pbuf_linearize'' [pb_ref (hd p)]) ?u"
  let ?t = "sn_write_csr E CSR (CSR_IENA OR CSR_TDMD) (put_part K True (TMD_OWN OR TMD_STP) 0 (next_tx s) q ?v)"
  have q: "pb_tot_len q = pb_len q" "0 < pb_len q"
    using k p(3) unfolding linearize_ok_def by (metis list.inject list.simps(3))+
  have r: "pcnet32_transmit E K m p s = Some (S_OK, ?t)"
    using s p q put_single[OF q(2)] by (simp add: pcnet32_transmit_def wait_for_sem_def Let_def)
  have n: "next_tx s < TX_RING_SIZE" using s(1) by (simp add: sn_tx_ok_def TX_RING_SIZE_def)
  have h: "tx_head ?v j = tx_head s j" "rx_head ?v j = rx_head s j" for j
    by (simp_all add: head_quiet[OF e])
  have "tx_head ?t j = (if j = next_tx s then sent_mds K q (tx_head s j) else tx_head s j)" if "j < TX_RING_SIZE" for j
    unfolding head_write[OF e] put_part_head[OF n that] h by simp
  moreover have "rx_head ?t j = rx_head s j" if "j < RX_RING_SIZE" for j
    unfolding head_write[OF e] put_part_rx_head[OF n that] h by simp
  moreover have "tx_buffer ?t = (tx_buffer s)[next_tx s := Some (pb_ref q)]" "size_tx ?t = size_tx s + 1" "sem_tx ?t = sem_tx s - 1"
    by (simp_all add: put_part_def Let_def)
  ultimately show ?thesis using r by blast
qed

subsection \<open>Finished transmissions are taken from the receive ring\<close>

text \<open>
  \<^verbatim>\<open>pcnet32_transmitted\<close> looks at the ownership of receive descriptors: with the receive ring
  with the chip, all outstanding packets are freed and their slots counted free, sent or not.
\<close>

lemma transmitted_all:
  assumes "quiet_chip E" "\<forall>j<TX_RING_SIZE. has (mds_status (rx_head s j)) TMD_OWN" "curr_tx s < TX_RING_SIZE"
  shows "\<exists>t. transmitted_loop E (curr_tx s) n s = (n + size_tx s, t) \<and> size_tx t = 0 \<and> sem_tx t = sem_tx s \<and>
     (\<forall>j<TX_RING_SIZE. tx_head t j = tx_head s j)"
  using assms(2,3)
proof (induction "size_tx s" arbitrary: s n)
  case 0
  then show ?case by (intro exI[of _ s]) (subst transmitted_loop.simps, simp)
next
  case (Suc m)
  let ?i = "curr_tx s"
  let ?u = "case tx_buffer s ! ?i of
      Some b \<Rightarrow> (emit E (Call ''pbuf_free'' [b]) s)\<lparr>tx_buffer := (tx_buffer s)[?i := None]\<rparr> | None \<Rightarrow> s"
  let ?v = "?u\<lparr>curr_tx := Suc ?i AND TX_RING_MOD_MASK, size_tx := size_tx ?u - 1\<rparr>"
  have h: "rx_head ?v j = rx_head s j" "tx_head ?v j = tx_head s j" for j
    by (simp_all add: head_quiet[OF assms(1)] split: option.split)
  have v: "size_tx ?v = m" "sem_tx ?v = sem_tx s"
    using Suc(2)[symmetric] by (simp_all split: option.split)
  have "?i < RX_RING_SIZE" using Suc.prems(2) by (simp add: RX_RING_SIZE_def TX_RING_SIZE_def)
  then have l: "transmitted_loop E ?i n s = transmitted_loop E (curr_tx ?v) (n + 1) ?v"
    using Suc.prems Suc(2) by (subst transmitted_loop.simps) (simp add: Let_def split: option.split)
  have "\<forall>j<TX_RING_SIZE. has (mds_status (rx_head ?v j)) TMD_OWN" using Suc.prems(1) by (simp only: h)
  moreover have "curr_tx ?v < TX_RING_SIZE" by (simp add: mod_mask TX_RING_SIZE_def)
  moreover have "m = size_tx ?v" using v by simp
  ultimately obtain t where "transmitted_loop E (curr_tx ?v) (n + 1) ?v = (n + 1 + size_tx ?v, t) \<and> size_tx t = 0 \<and>
     sem_tx t = sem_tx ?v \<and> (\<forall>j<TX_RING_SIZE. tx_head t j = tx_head ?v j)" using Suc(1)[of ?v "n + 1"] by blast
  then have "transmitted_loop E ?i n s = (n + size_tx s, t) \<and> size_tx t = 0 \<and> sem_tx t = sem_tx s \<and>
     (\<forall>j<TX_RING_SIZE. tx_head t j = tx_head s j)" using Suc(2) unfolding l h v by simp
  then show ?case ..
qed

lemma transmitted_frees_unsent:
  assumes "quiet_chip E" "sn_tx_ok s" "\<forall>j<TX_RING_SIZE. has (mds_status (rx_head s j)) TMD_OWN"
  shows "size_tx (pcnet32_transmitted E s) = 0 \<and> sem_tx (pcnet32_transmitted E s) = TX_RING_SIZE \<and>
     (\<forall>j<TX_RING_SIZE. tx_head (pcnet32_transmitted E s) j = tx_head s j)"
proof -
  from transmitted_all[OF assms(1,3), of 0] assms(2) obtain t where
    "transmitted_loop E (curr_tx s) 0 s = (size_tx s, t)" "size_tx t = 0" "sem_tx t = sem_tx s"
    "\<forall>j<TX_RING_SIZE. tx_head t j = tx_head s j" by (auto simp: sn_tx_ok_def)
  then show ?thesis using assms(2) by (simp add: pcnet32_transmitted_def sn_tx_ok_def)
qed

subsection \<open>The deferred handler\<close>

definition sn_ok :: "pcnet32 \<Rightarrow> bool" where
  "sn_ok s \<longleftrightarrow> sn_tx_ok s \<and> sn_rx_ok s"

lemma sn_ok_same: "same_vars s t \<Longrightarrow> sn_ok t = sn_ok s \<and> sn_pres s t" for s t :: pcnet32
  by (simp add: sn_ok_def sn_tx_ok_def sn_rx_ok_def sn_pres_def same_vars_pcnet32[of s t])

lemma sn_pres_tx_part: "tx_part t = tx_part s \<Longrightarrow> sn_pres s t"
  by (simp add: tx_part_def sn_pres_def)

lemma sn_rx_ok_transmitted: "sn_rx_ok (pcnet32_transmitted E s) = sn_rx_ok s"
proof -
  have k: "sn_rx_ok (snd (transmitted_loop E i n s)) = sn_rx_ok s" for i n
  proof (induction E i n s rule: transmitted_loop.induct)
    case (1 E i n s)
    then show ?case
      by (subst transmitted_loop.simps) (simp add: Let_def sn_rx_ok_def split: option.splits)
  qed
  have "sn_rx_ok (t\<lparr>sem_tx := n\<rparr>) = sn_rx_ok t" for t n by (simp add: sn_rx_ok_def)
  then show ?thesis by (simp add: pcnet32_transmitted_def split_def Let_def k)
qed

text \<open>What the handler does to the accounts, whatever it finds in the rings.\<close>

definition sn_keeps :: "pcnet32 \<Rightarrow> pcnet32 \<Rightarrow> bool" where
  "sn_keeps s t \<longleftrightarrow> sn_pres s t \<and> (sn_rx_ok s \<longrightarrow> sn_rx_ok t)"

lemma sn_keeps_trans: "sn_keeps s t \<Longrightarrow> sn_keeps t u \<Longrightarrow> sn_keeps s u"
  by (auto simp: sn_keeps_def intro: sn_pres_trans)

lemma sn_keeps_evolves: "evolves E s t \<Longrightarrow> sn_keeps s t" for s t :: pcnet32
  using sn_ok_same[of s t] same_vars_pcnet32[of s t] evolves_same_vars[of E s t]
  by (simp add: sn_keeps_def sn_rx_ok_def)

lemma sn_keeps_ok: "sn_keeps s t \<Longrightarrow> sn_ok s \<Longrightarrow> sn_ok t"
  by (auto simp: sn_keeps_def sn_ok_def intro: sn_tx_ok_pres)

lemma sn_keeps_transmitted: "sn_keeps s (pcnet32_transmitted E s)"
  by (simp add: sn_keeps_def pcnet32_transmitted_pres sn_rx_ok_transmitted)

lemma sn_keeps_receive: "pcnet32_receive E K s = Some t \<Longrightarrow> sn_rx_ok s \<Longrightarrow> sn_keeps s t"
  using receive_keeps[of E K s t] by (simp add: sn_keeps_def sn_pres_tx_part)

lemma dpc_loop_keeps: "dpc_loop E K s = Some t \<Longrightarrow> sn_rx_ok s \<Longrightarrow> sn_keeps s t"
proof -
  assume d: "dpc_loop E K s = Some t" and r: "sn_rx_ok s"
  have "sn_rx_ok s \<longrightarrow> sn_keeps s t"
  proof (rule dpc_loop.raw_induct[where P = "\<lambda>E K s t. sn_rx_ok s \<longrightarrow> sn_keeps s t", OF _ d], intro impI)
    fix f E K s t
    assume IH: "\<And>E K s t. f E K s = Some t \<Longrightarrow> sn_rx_ok s \<longrightarrow> sn_keeps s t" and ok: "sn_rx_ok s"
      and eq: "(let (csr, s) = sn_read_csr E CSR s in
      if \<not> has csr (CSR_ERR OR CSR_RINT OR CSR_TINT) then Some s
      else
        let s = sn_write_csr E CSR (csr AND NOT (CSR_IENA OR CSR_TDMD OR CSR_STOP OR CSR_STRT OR CSR_INIT)) s in do {
          s \<leftarrow> (if has csr CSR_RINT then pcnet32_receive E K s else Some s);
          f E K (if has csr CSR_TINT then pcnet32_transmitted E s else s)
        }) = Some t"
    obtain csr u where c: "sn_read_csr E CSR s = (csr, u)" by fastforce
    let ?v = "sn_write_csr E CSR (csr AND NOT (CSR_IENA OR CSR_TDMD OR CSR_STOP OR CSR_STRT OR CSR_INIT)) u"
    have u: "sn_keeps s u" using sn_keeps_evolves[OF evolves_sn(1)[of E s CSR]] c by simp
    have v: "sn_keeps s ?v" using u sn_keeps_evolves[OF evolves_sn(2)] by (rule sn_keeps_trans)
    show "sn_keeps s t"
    proof (cases "has csr (CSR_ERR OR CSR_RINT OR CSR_TINT)")
      case False
      with eq c u show ?thesis by simp
    next
      case True
      then obtain w where w: "(if has csr CSR_RINT then pcnet32_receive E K ?v else Some ?v) = Some w"
        "f E K (if has csr CSR_TINT then pcnet32_transmitted E w else w) = Some t"
        using eq c by (auto simp: Let_def bind_eq_Some_conv split: if_splits)
      have "sn_keeps ?v w" using w(1) sn_keeps_receive[of E K ?v w] v ok
        by (auto simp: sn_keeps_def split: if_splits)
      with v have "sn_keeps s w" by (rule sn_keeps_trans)
      then have x: "sn_keeps s (if has csr CSR_TINT then pcnet32_transmitted E w else w)"
        using sn_keeps_transmitted by (auto intro: sn_keeps_trans)
      with IH[OF w(2)] ok show ?thesis by (auto simp: sn_keeps_def intro: sn_pres_trans)
    qed
  qed
  with r show "sn_keeps s t" by blast
qed

lemma dpc_keeps:
  assumes "pcnet32_dpc E K s = Some t" "sn_rx_ok s"
  shows "sn_keeps s t"
proof -
  obtain u where u: "dpc_loop E K s = Some u" "evolves E u t"
    using assms(1) by (auto simp: pcnet32_dpc_def bind_eq_Some_conv intro: evolves_emit[OF evolves_sn(2)])
  from dpc_loop_keeps[OF u(1) assms(2)] sn_keeps_evolves[OF u(2)] show ?thesis by (rule sn_keeps_trans)
qed

subsection \<open>\<open>install\<close>\<close>

lemma install_not_pci: "\<not> bus_is_pci K \<Longrightarrow> install E K s = Some (EINVAL, s)"
  by (simp add: install_def)

lemma install_no_memory:
  "bus_is_pci K \<Longrightarrow> kmalloc K (trace s) = None \<Longrightarrow> install E K s = Some (ENOMEM, emit E (Kernel ''kmalloc'') s)"
  by (simp add: install_def)

text \<open>The device of a unit before its chip is identified.\<close>

definition probed :: "env \<Rightarrow> sanos_os \<Rightarrow> u32 \<Rightarrow> pcnet32 \<Rightarrow> pcnet32" where
  "probed E K p s =
     (let s = emit E (Kernel ''pci_enable_busmastering'') (new_device K p (emit E (Kernel ''kmalloc'') s))
      in pcnet32_wio_reset E (iobase s) (pcnet32_dwio_reset E (iobase s) s))"

lemma install_probed:
  "bus_is_pci K \<Longrightarrow> kmalloc K (trace s) = Some p \<Longrightarrow> setup_access E (probed E K p s) = (None, t) \<Longrightarrow>
     install E K s = Some (EIO, t)"
  by (simp add: install_def probed_def Let_def)

lemma install_version:
  assumes "bus_is_pci K" "kmalloc K (trace s) = Some p" "setup_access E (probed E K p s) = (Some m, u)"
    "chip_version E (u\<lparr>access := m\<rparr>) = (v, t)"
    "v AND 0xfff \<noteq> 0x003 \<or> product_of (drop_bit 12 v AND 0xffff) = None"
  shows "install E K s = Some (S_OK, t)"
proof -
  let ?x = "emit E (Kernel ''pci_enable_busmastering'') (new_device K p (emit E (Kernel ''kmalloc'') s))"
  have "setup_access E (pcnet32_wio_reset E (iobase ?x) (pcnet32_dwio_reset E (iobase ?x) ?x)) = (Some m, u)"
    using assms(3) by (simp add: probed_def Let_def)
  then show ?thesis using assms(1,2,4,5)
    by (simp add: install_def Let_def del: emit_sel_pcnet32)
qed

lemma evolves_probe [simp]:
  "evolves E s (snd (pcnet32_wio_read_csr E a i s))" "evolves E s (snd (pcnet32_dwio_read_csr E a i s))"
  "evolves E s (snd (pcnet32_wio_check E a s))" "evolves E s (snd (pcnet32_dwio_check E a s))"
  "evolves E s (pcnet32_wio_reset E a s)" "evolves E s (pcnet32_dwio_reset E a s)"
  by (auto simp: drv_ops split_def Let_def)

lemmas evolves_after = evolves_probe[THEN evolves_trans[rotated]] evolves_sn[THEN evolves_trans[rotated]]

lemma evolves_setup_access: "evolves E s (snd (setup_access E s))"
  by (auto simp: setup_access_def split_def Let_def intro!: evolves_after)

lemma evolves_chip_version: "evolves E s (snd (chip_version E s))"
  by (auto simp: chip_version_def split_def Let_def intro!: evolves_after)

lemma evolves_read_mac: "evolves E s (snd (read_mac E is s))"
proof (induction "is" arbitrary: s)
  case (Cons i "is")
  have "evolves E s (snd (csrRead8 E (iobase s + of_nat i) s))" by (auto simp: drv_ops)
  with Cons[of "snd (csrRead8 E (iobase s + of_nat i) s)"] show ?case
    by (auto simp: split_def Let_def intro: evolves_trans)
qed simp

lemma fold_zero_md: "rx_buffer (fold zero_md is s) = rx_buffer s \<and> tx_buffer (fold zero_md is s) = tx_buffer s \<and>
    phys_addr (fold zero_md is s) = phys_addr s"
  by (induction "is" arbitrary: s) (simp_all add: zero_md_def)

lemma new_device_sel [simp]:
  "length (rx_buffer (new_device K p s)) = RX_RING_SIZE" "length (tx_buffer (new_device K p s)) = TX_RING_SIZE"
  "phys_addr (new_device K p s) = virt2phys K p"
  by (simp_all add: new_device_def Let_def fold_zero_md)

lemma evolves_lengths: "evolves E s t \<Longrightarrow> length (rx_buffer t) = length (rx_buffer s) \<and>
    length (tx_buffer t) = length (tx_buffer s) \<and> phys_addr t = phys_addr s" for s t :: pcnet32
  using same_vars_pcnet32[of s t] evolves_same_vars[of E s t] by simp

text \<open>An installation that ends with the registration of the device went through the rings.\<close>

definition registered :: "pcnet32 \<Rightarrow> bool" where
  "registered s \<longleftrightarrow> trace s \<noteq> [] \<and> hd (trace s) = Kernel ''dev_make''"

lemma chip_version_trace: "\<not> registered (snd (chip_version E s))"
  by (simp add: registered_def chip_version_def split_def Let_def) (simp add: drv_ops split_def Let_def)

lemma install_registered:
  assumes "install E K s = Some (S_OK, t)" "registered t"
  obtains u w where "length (rx_buffer u) = RX_RING_SIZE" "length (tx_buffer u) = TX_RING_SIZE"
    "phys_addr u = virt2phys K (the (kmalloc K (trace s)))"
    "sn_block u = \<lparr>sn_mode = 0x0080, sn_tlen_rlen = TX_RING_LEN_BITS OR RX_RING_LEN_BITS,
         sn_ib_addr = hwaddr u, sn_filter = [0, 0], sn_ib_rx_ring = sn_rx_at u 0, sn_ib_tx_ring = sn_tx_at u 0\<rparr>"
    "setup_rings E K u = Some w" "t = emit E (Kernel ''dev_make'') (start_chip E w)"
proof -
  have pci: "bus_is_pci K" using assms(1) install_not_pci[of K E s] by (cases "bus_is_pci K") simp_all
  obtain p where p: "kmalloc K (trace s) = Some p"
    using assms(1) install_no_memory[OF pci, of s E] by (cases "kmalloc K (trace s)") simp_all
  obtain m' u1 where a': "setup_access E (probed E K p s) = (m', u1)" by fastforce
  then obtain m where a: "setup_access E (probed E K p s) = (Some m, u1)"
    using assms(1) install_probed[OF pci p, of E u1] by (cases m') simp_all
  obtain v u2 where v: "chip_version E (u1\<lparr>access := m\<rparr>) = (v, u2)" by fastforce
  have ok: "\<not> (v AND 0xfff \<noteq> 0x003 \<or> product_of (drop_bit 12 v AND 0xffff) = None)"
  proof
    assume "v AND 0xfff \<noteq> 0x003 \<or> product_of (drop_bit 12 v AND 0xffff) = None"
    from install_version[OF pci p a v this] assms(1) have "t = u2" by simp
    with assms(2) chip_version_trace[of E "u1\<lparr>access := m\<rparr>"] v show False by simp
  qed
  then obtain name where name: "product_of (drop_bit 12 v AND 0xffff) = Some name" by auto
  define u3 where "u3 = emit E (Kernel ''enable_irq'') (emit E (Kernel ''register_interrupt'')
     (emit E (Kernel ''init_dpc'') (u2\<lparr>vendorname := ''AMD'', productname := name\<rparr>)))"
  obtain mac u4 where mac: "read_mac E [0..<6] u3 = (mac, u4)" by fastforce
  let ?u = "setup_init_block (u4\<lparr>hwaddr := mac\<rparr>)"
  let ?x = "emit E (Kernel ''pci_enable_busmastering'') (new_device K p (emit E (Kernel ''kmalloc'') s))"
  have a2: "setup_access E (pcnet32_wio_reset E (iobase ?x) (pcnet32_dwio_reset E (iobase ?x) ?x)) = (Some m, u1)"
    using a by (simp add: probed_def Let_def)
  have i: "install E K s = do { w \<leftarrow> setup_rings E K ?u; Some (S_OK, emit E (Kernel ''dev_make'') (start_chip E w)) }"
    using ok by (simp add: install_def pci p Let_def a2 v name u3_def[symmetric] mac del: emit_sel_pcnet32)
  from assms(1)[unfolded i bind_eq_Some_conv] obtain w where
    w: "setup_rings E K ?u = Some w" "t = emit E (Kernel ''dev_make'') (start_chip E w)" by auto
  have e1: "evolves E (new_device K p (emit E (Kernel ''kmalloc'') s)) u1"
  proof (rule evolves_trans)
    show "evolves E (new_device K p (emit E (Kernel ''kmalloc'') s)) (probed E K p s)"
      by (auto simp: probed_def Let_def intro!: evolves_after)
    show "evolves E (probed E K p s) u1" using evolves_setup_access[of E "probed E K p s"] a by simp
  qed
  have e2: "evolves E (u1\<lparr>access := m\<rparr>) u2" using evolves_chip_version[of E "u1\<lparr>access := m\<rparr>"] v by simp
  have e3: "evolves E u3 u4" using evolves_read_mac[of E u3 "[0..<6]"] mac by simp
  have l: "length (rx_buffer ?u) = RX_RING_SIZE \<and> length (tx_buffer ?u) = TX_RING_SIZE \<and> phys_addr ?u = virt2phys K p"
    using evolves_lengths[OF e1] evolves_lengths[OF e2] evolves_lengths[OF e3]
    by (simp add: setup_init_block_def u3_def)
  show thesis
    by (rule that[OF _ _ _ _ w]) (use l p in \<open>simp_all add: setup_init_block_def sn_rx_at_def sn_tx_at_def\<close>)
qed

lemma init_rx_ring_succeeds: "\<forall>h. pbuf_alloc K h \<noteq> None \<Longrightarrow> \<exists>t. init_rx_ring E K is s = Some t"
proof (induction "is" arbitrary: s)
  case (Cons i "is")
  then obtain b where "pbuf_alloc K (trace s) = Some b" by blast
  then show ?case using Cons by (simp add: Let_def)
qed simp

lemma install_succeeds:
  assumes "bus_is_pci K" "kmalloc K (trace s) = Some p" "setup_access E (probed E K p s) = (Some m, u)"
    "chip_version E (u\<lparr>access := m\<rparr>) = (v, t)" "v AND 0xfff = 0x003" "product_of (drop_bit 12 v AND 0xffff) = Some name"
    "\<forall>h. pbuf_alloc K h \<noteq> None"
  shows "\<exists>w. install E K s = Some (S_OK, w) \<and> registered w"
proof -
  let ?x = "emit E (Kernel ''pci_enable_busmastering'') (new_device K p (emit E (Kernel ''kmalloc'') s))"
  have a: "setup_access E (pcnet32_wio_reset E (iobase ?x) (pcnet32_dwio_reset E (iobase ?x) ?x)) = (Some m, u)"
    using assms(3) by (simp add: probed_def Let_def)
  have r: "\<exists>w. setup_rings E K x = Some w" for x
    using init_rx_ring_succeeds[OF assms(7), of E "[0..<RX_RING_SIZE]" x] by (auto simp: setup_rings_def)
  have "\<exists>x. install E K s = do { w \<leftarrow> setup_rings E K x; Some (S_OK, emit E (Kernel ''dev_make'') (start_chip E w)) }"
    by (simp add: install_def assms(1,2,5,6) Let_def a assms(4) split_def del: emit_sel_pcnet32) blast
  then obtain x where x: "install E K s = do { w \<leftarrow> setup_rings E K x; Some (S_OK, emit E (Kernel ''dev_make'') (start_chip E w)) }" ..
  obtain w where "setup_rings E K x = Some w" using r by blast
  then show ?thesis by (simp add: x registered_def)
qed

subsection \<open>The rings after \<open>install\<close>\<close>

lemma init_rx_ring_lengths:
  "init_rx_ring E K is s = Some t \<Longrightarrow> length (rx_buffer t) = length (rx_buffer s) \<and> length (tx_buffer t) = length (tx_buffer s) \<and>
     phys_addr t = phys_addr s \<and> hwaddr t = hwaddr s \<and> sn_block t = sn_block s"
  by (induction "is" arbitrary: s) (auto simp: Let_def split: option.splits)

lemma fold_init_tx_slot: "length (tx_buffer (fold init_tx_slot is s)) = length (tx_buffer s) \<and>
     rx_buffer (fold init_tx_slot is s) = rx_buffer s \<and> next_rx (fold init_tx_slot is s) = next_rx s \<and>
     phys_addr (fold init_tx_slot is s) = phys_addr s \<and> hwaddr (fold init_tx_slot is s) = hwaddr s \<and>
     sn_block (fold init_tx_slot is s) = sn_block s"
  by (induction "is" arbitrary: s) (simp_all add: init_tx_slot_def Let_def)

lemma evolves_wait_idon: "evolves E s (wait_idon E n s)"
proof (induction n arbitrary: s)
  case (Suc n)
  from evolves_trans[OF evolves_sn(1) Suc] show ?case by (simp add: split_def Let_def)
qed simp

lemma evolves_start_chip: "evolves E s (start_chip E s)"
  by (auto simp: start_chip_def split_def Let_def
      intro!: evolves_after evolves_wait_idon[THEN evolves_trans[rotated]])

lemma setup_rings_ok:
  assumes "setup_rings E K u = Some w" "length (rx_buffer u) = RX_RING_SIZE" "length (tx_buffer u) = TX_RING_SIZE"
  shows "sn_ok w \<and> sem_tx w = TX_RING_SIZE \<and> next_rx w = 0 \<and> phys_addr w = phys_addr u \<and> hwaddr w = hwaddr u \<and> sn_block w = sn_block u"
proof -
  obtain x where x: "init_rx_ring E K [0..<RX_RING_SIZE] u = Some x"
    "w = (fold init_tx_slot [0..<TX_RING_SIZE] (x\<lparr>next_rx := 0\<rparr>))\<lparr>sem_tx := TX_RING_SIZE, size_tx := 0, curr_tx := 0, next_tx := 0\<rparr>"
    using assms(1) by (auto simp: setup_rings_def bind_eq_Some_conv)
  from init_rx_ring_lengths[OF x(1)] fold_init_tx_slot[of "[0..<TX_RING_SIZE]" "x\<lparr>next_rx := 0\<rparr>"] assms(2,3)
  show ?thesis unfolding x(2) by (simp add: sn_ok_def sn_tx_ok_def sn_rx_ok_def) (simp add: TX_RING_SIZE_def RX_RING_SIZE_def)
qed

lemma install_ok:
  assumes "install E K s = Some (S_OK, t)" "registered t"
  shows "sn_ok t \<and> sem_tx t = TX_RING_SIZE \<and> next_rx t = 0 \<and> phys_addr t = virt2phys K (the (kmalloc K (trace s))) \<and>
    sn_block t = \<lparr>sn_mode = 0x0080, sn_tlen_rlen = TX_RING_LEN_BITS OR RX_RING_LEN_BITS,
         sn_ib_addr = hwaddr t, sn_filter = [0, 0], sn_ib_rx_ring = sn_rx_at t 0, sn_ib_tx_ring = sn_tx_at t 0\<rparr>"
  using assms
proof (cases rule: install_registered)
  case (1 u w)
  have e: "same_vars w t" unfolding 1(6)
    by (rule evolves_same_vars[OF evolves_emit[OF evolves_start_chip]])
  show ?thesis
    using setup_rings_ok[OF 1(5,1,2)] sn_ok_same[OF e] 1(3,4) same_vars_pcnet32[OF e]
    by (simp add: sn_rx_at_def sn_tx_at_def)
qed

subsection \<open>The receive and transmit rings of a fresh device\<close>

lemma init_rx_ring_head:
  assumes "quiet_chip E" "init_rx_ring E K is s = Some t" "distinct is" "\<forall>i\<in>set is. i < RX_RING_SIZE"
    "length (rx_buffer s) = RX_RING_SIZE"
  shows "\<forall>j<RX_RING_SIZE. if j \<in> set is
     then \<exists>b. rx_buffer t ! j = Some b \<and> mds_buffer (rx_head t j) = virt2phys K (payload_of K b) \<and>
       mds_length (rx_head t j) = - of_nat ETHER_FRAME_LEN \<and> mds_status (rx_head t j) = RMD_OWN
     else rx_buffer t ! j = rx_buffer s ! j \<and> rx_head t j = rx_head s j"
  using assms(2-5)
proof (induction "is" arbitrary: s)
  case (Cons i "is")
  obtain b where b: "pbuf_alloc K (trace s) = Some b" using Cons.prems(1) by (auto simp: Let_def split: option.splits)
  define u0 where "u0 = (emit E (Call ''pbuf_alloc'' [of_nat ETHER_FRAME_LEN]) s)\<lparr>rx_buffer := (rx_buffer s)[i := Some b]\<rparr>"
  define u where "u = upd_mds (sn_rx_at u0 i) (\<lambda>d. d\<lparr>mds_status := RMD_OWN\<rparr>)
     (upd_mds (sn_rx_at u0 i) (\<lambda>d. d\<lparr>mds_length := - of_nat ETHER_FRAME_LEN\<rparr>)
       (upd_mds (sn_rx_at u0 i) (\<lambda>d. d\<lparr>mds_buffer := virt2phys K (payload_of K b)\<rparr>) u0))"
  have t: "init_rx_ring E K is u = Some t"
    using Cons.prems(1) b by (simp add: Let_def u_def u0_def)
  have i: "i < RX_RING_SIZE" "i \<notin> set is" using Cons.prems by simp_all
  have h: "rx_head u j = (if j = i then (rx_head s j)\<lparr>mds_buffer := virt2phys K (payload_of K b),
      mds_length := - of_nat ETHER_FRAME_LEN, mds_status := RMD_OWN\<rparr> else rx_head s j)"
    "rx_buffer u ! j = (if j = i then Some b else rx_buffer s ! j)" if "j < RX_RING_SIZE" for j
    using i that Cons.prems(4) by (simp_all add: u_def u0_def head_quiet[OF assms(1)])
  have "length (rx_buffer u) = RX_RING_SIZE" using Cons.prems(4) by (simp add: u_def u0_def)
  from Cons.IH[OF t _ _ this] Cons.prems h i show ?case by (auto split: if_splits)
qed simp

lemma fold_init_tx_head:
  assumes "quiet_chip E" "\<forall>i\<in>set is. i < TX_RING_SIZE"
  shows "(\<forall>j<RX_RING_SIZE. rx_head (fold init_tx_slot is s) j = rx_head s j) \<and>
     (\<forall>j<TX_RING_SIZE. mds_status (tx_head (fold init_tx_slot is s) j) = (if j \<in> set is then 0 else mds_status (tx_head s j)))"
  using assms(2)
proof (induction "is" arbitrary: s)
  case (Cons i "is")
  have "rx_head (init_tx_slot i s) j = rx_head s j" if "j < RX_RING_SIZE" for j
    using Cons.prems that by (simp add: init_tx_slot_def Let_def)
  moreover have "mds_status (tx_head (init_tx_slot i s) j) = (if j = i then 0 else mds_status (tx_head s j))" if "j < TX_RING_SIZE" for j
    using Cons.prems that by (simp add: init_tx_slot_def Let_def)
  ultimately show ?case using Cons.IH[of "init_tx_slot i s"] Cons.prems by auto
qed simp

lemma install_rings:
  assumes q: "quiet_chip E" and i: "install E K s = Some (S_OK, t)" "registered t"
  shows "(\<forall>j<RX_RING_SIZE. \<exists>b. rx_buffer t ! j = Some b \<and> mds_buffer (rx_head t j) = virt2phys K (payload_of K b) \<and>
       mds_length (rx_head t j) = - of_nat ETHER_FRAME_LEN \<and> mds_status (rx_head t j) = RMD_OWN) \<and>
     (\<forall>j<TX_RING_SIZE. mds_status (tx_head t j) = 0)"
  using i
proof (cases rule: install_registered)
  case (1 u w)
  obtain x where x: "init_rx_ring E K [0..<RX_RING_SIZE] u = Some x"
    "w = (fold init_tx_slot [0..<TX_RING_SIZE] (x\<lparr>next_rx := 0\<rparr>))\<lparr>sem_tx := TX_RING_SIZE, size_tx := 0, curr_tx := 0, next_tx := 0\<rparr>"
    using 1(5) by (auto simp: setup_rings_def bind_eq_Some_conv)
  let ?f = "fold init_tx_slot [0..<TX_RING_SIZE] (x\<lparr>next_rx := 0\<rparr>)"
  have e: "evolves E w t" unfolding 1(6) by (rule evolves_emit[OF evolves_start_chip])
  have m: "mem t = mem w" using quiet_evolves[OF q e] .
  have h: "rx_head t j = rx_head w j" "tx_head t j = tx_head w j" "rx_buffer t = rx_buffer w" for j
    using same_vars_pcnet32[OF evolves_same_vars[OF e]] by (simp_all add: rx_head_def tx_head_def m)
  have w: "rx_head w j = rx_head ?f j" "tx_head w j = tx_head ?f j" "rx_buffer w = rx_buffer x" for j
    using fold_init_tx_slot[of "[0..<TX_RING_SIZE]" "x\<lparr>next_rx := 0\<rparr>"] unfolding x(2) by simp_all
  show ?thesis unfolding h w
    using init_rx_ring_head[OF q x(1) _ _ 1(1)] fold_init_tx_head[OF q, of "[0..<TX_RING_SIZE]" "x\<lparr>next_rx := 0\<rparr>"]
    by simp
qed

subsection \<open>The entry points and the states they reach\<close>

text \<open>
  While a thread waits for the semaphore the deferred handler may run: \<open>m\<close> is either nothing
  or a finished run of it. Its receive side relies on the receive ring being well formed.
\<close>

definition meanwhile_dpc :: "env \<Rightarrow> sanos_os \<Rightarrow> (pcnet32 \<Rightarrow> pcnet32) \<Rightarrow> bool" where
  "meanwhile_dpc E K m \<longleftrightarrow> (\<forall>s. m s = s \<or> sn_rx_ok s \<and> pcnet32_dpc E K s = Some (m s))"

lemma meanwhile_dpc_ok: "meanwhile_dpc E K m \<Longrightarrow> meanwhile_ok m"
  unfolding meanwhile_ok_def
proof
  fix s assume "meanwhile_dpc E K m"
  then have "m s = s \<or> sn_rx_ok s \<and> pcnet32_dpc E K s = Some (m s)" by (simp add: meanwhile_dpc_def)
  then show "sn_pres s (m s)" using dpc_keeps[of E K s "m s"] by (auto simp: sn_keeps_def)
qed

datatype sn_entry = Transmit "pbuf list" | Dpc | Handler | Ioctl | Attach | Detach

inductive sn_step :: "env \<Rightarrow> sanos_os \<Rightarrow> sn_entry \<Rightarrow> pcnet32 \<Rightarrow> pcnet32 \<Rightarrow> bool" for E K where
  sn_transmit: "meanwhile_dpc E K m \<Longrightarrow> pcnet32_transmit E K m p s = Some (r, t) \<Longrightarrow> sn_step E K (Transmit p) s t"
| sn_dpc: "pcnet32_dpc E K s = Some t \<Longrightarrow> sn_step E K Dpc s t"
| sn_handler: "sn_step E K Handler s (snd (pcnet32_handler E s))"
| sn_ioctl: "sn_step E K Ioctl s (snd (pcnet32_ioctl s))"
| sn_attach: "pcnet32_attach s = (r, a) \<Longrightarrow> sn_step E K Attach s s"
| sn_detach: "sn_step E K Detach s (snd (pcnet32_detach s))"

inductive_cases sn_step_transmit: "sn_step E K (Transmit p) s t"
inductive_simps sn_step_dpc: "sn_step E K Dpc s t"

inductive sn_reachable :: "env \<Rightarrow> sanos_os \<Rightarrow> pcnet32 \<Rightarrow> pcnet32 \<Rightarrow> bool" for E K s where
  sn_installed: "install E K s = Some (S_OK, t) \<Longrightarrow> registered t \<Longrightarrow> sn_reachable E K s t"
| sn_next: "sn_reachable E K s t \<Longrightarrow> sn_step E K e t u \<Longrightarrow> sn_reachable E K s u"

lemma wait_for_sem_rx:
  assumes "meanwhile_dpc E K m" "wait_for_sem m s = (ok, t)" "sn_rx_ok s"
  shows "sn_rx_ok t"
proof -
  have "m s = s \<or> sn_rx_ok s \<and> pcnet32_dpc E K s = Some (m s)" using assms(1) by (simp add: meanwhile_dpc_def)
  then have "sn_rx_ok (m s)" using assms(3) dpc_keeps[of E K s "m s"] by (auto simp: sn_keeps_def)
  then show ?thesis using assms(2,3) by (auto simp: wait_for_sem_def Let_def sn_rx_ok_def split: if_splits)
qed

lemma transmit_rx:
  assumes k: "linearize_ok K" and m: "meanwhile_dpc E K m" and r: "pcnet32_transmit E K m p s = Some (r, t)"
    and s: "sn_rx_ok s"
  shows "sn_rx_ok t"
  using k r
proof (cases rule: transmit_cases)
  case (2 u)
  then show ?thesis using wait_for_sem_rx[OF m 2(2) s] by (simp add: sn_rx_ok_def)
next
  case (3 u q)
  then show ?thesis using wait_for_sem_rx[OF m 3(2) s] by (simp add: sn_rx_ok_def put_part_def Let_def)
qed (use s in simp)

lemma sn_step_ok:
  assumes "linearize_ok K" "sn_step E K e s t" "sn_ok s"
  shows "sn_ok t"
  using assms(2)
proof cases
  case (sn_transmit m p r)
  then show ?thesis
    using transmit_account[OF assms(1) meanwhile_dpc_ok[OF sn_transmit(2)] _ sn_transmit(3)]
      transmit_rx[OF assms(1) sn_transmit(2,3)] assms(3)
    by (simp add: sn_ok_def)
next
  case sn_dpc
  then show ?thesis using dpc_keeps[of E K s t] assms(3) sn_keeps_ok by (simp add: sn_ok_def)
next
  case sn_handler
  then show ?thesis using assms(3) sn_ok_same[OF same_vars_emit] by (simp add: pcnet32_handler_def)
qed (use assms(3) in \<open>simp_all add: pcnet32_ioctl_def pcnet32_detach_def\<close>)

lemma sn_reachable_ok:
  assumes "linearize_ok K" "sn_reachable E K s t"
  shows "sn_ok t"
  using assms(2)
proof induction
  case (sn_installed t)
  then show ?case using install_ok by blast
next
  case (sn_next t e u)
  then show ?case using sn_step_ok[OF assms(1)] by blast
qed

end
