(* ===== verification/Fixtures.thy ===== *)
theory Fixtures
  imports Services Tx_Queue
begin

text \<open>
  Concrete environments and states that instantiate the hypotheses of the properties: a quiet
  controller that never writes memory by itself, the driver's rings as \<open>init_rings\<close> leaves
  them, and those rings with packets in them.
\<close>

unbundle bit_operations_syntax

subsection \<open>Environments\<close>

definition quiet_env :: env where
  "quiet_env = \<lparr>in8 = \<lambda>_ _. 0, in16 = \<lambda>_ _. 0, in32 = \<lambda>_ _. 0, dma = \<lambda>_ m. m, os_ok = \<lambda>_. True,
     fresh = \<lambda>_ _. 0, physSegment = \<lambda>x. x, past_ladrb = \<lambda>_ _. 0, block_base = \<lambda>_. 0x1000,
     selectedMedium = \<lambda>_. None, pciCommand = \<lambda>_. 0, kIOPCICommandBusMaster = 4,
     kIOPCICommandIOSpace = 1, kIOPCICommandMemWrInvalidate = 16, kIOPCICommandMemorySpace = 2\<rparr>"

text \<open>A kernel out of memory, and a register file that remembers what is written to it.\<close>

definition no_mem_env :: env where
  "no_mem_env = quiet_env\<lparr>os_ok := \<lambda>_. False\<rparr>"

definition storage_env :: env where
  "storage_env = quiet_env\<lparr>
     in16 := \<lambda>h p. if p = PCNET32_WIO_BDP then (case bcr_last h (sel_reg h) of Some v \<Rightarrow> v | None \<Rightarrow> 0)
                   else if p = PCNET32_WIO_RDP then (case csr_last h (sel_reg h) of Some v \<Rightarrow> v | None \<Rightarrow> 0) else 0,
     in32 := \<lambda>h p. if p = PCNET32_DWIO_BDP then (case bcr_last h (sel_reg h) of Some v \<Rightarrow> ucast v | None \<Rightarrow> 0)
                   else if p = PCNET32_DWIO_RDP then (case csr_last h (sel_reg h) of Some v \<Rightarrow> ucast v | None \<Rightarrow> 0) else 0\<rparr>"

text \<open>
  The first read of the status register after the history \<open>h0\<close>, right after RAP was saved,
  shows \<open>cause\<close>.
\<close>

definition intr_env :: "u16 \<Rightarrow> history \<Rightarrow> env" where
  "intr_env cause h0 = quiet_env\<lparr>in16 := \<lambda>h p.
     if h = Out16 PCNET32_WIO_RAP CSR # In16 PCNET32_WIO_RAP # h0 then cause else 0\<rparr>"

lemma env_dma [simp]:
  "dma quiet_env h m = m" "dma no_mem_env h m = m" "dma storage_env h m = m" "dma (intr_env c h0) h m = m"
  by (simp_all add: quiet_env_def no_mem_env_def storage_env_def intr_env_def)

lemma env_quiet [simp]:
  "quiet_chip quiet_env" "quiet_chip no_mem_env" "quiet_chip storage_env" "quiet_chip (intr_env c h0)"
  by (simp_all add: quiet_chip_def)

lemma quiet_chip_dma: "quiet_chip E \<Longrightarrow> quiet_dma E"
  by (simp add: quiet_chip_def quiet_dma_def)

lemma quiet_tx_chip: "quiet_chip E \<Longrightarrow> tx_chip E ring"
  by (simp add: tx_chip_def quiet_chip_def Let_def)

lemma env_os_ok [simp]: "os_ok quiet_env h" "\<not> os_ok no_mem_env h"
  by (simp_all add: quiet_env_def no_mem_env_def)

lemma storage_register_file: "register_file storage_env"
  by (simp add: register_file_def storage_env_def quiet_env_def hw_consts)

lemma quiet_prom: "prom_holds quiet_env [0, 0, 0, 0, 0, 0]"
proof -
  have "i < 6 \<Longrightarrow> [0, 0, 0, 0, 0, 0] ! i = (0::u8)" for i :: nat
    using nth_replicate[of i 6 "0::u8"] by (simp add: numeral_eq_Suc)
  moreover have "k < 2 \<Longrightarrow> [0, 0] ! k = (0::u8)" for k :: nat
    by (auto dest: less_2_cases)
  ultimately show ?thesis by (simp add: prom_holds_def quiet_env_def ETHER_ADDR_LEN_def idr_byte_def)
qed

subsection \<open>The driver with fresh rings\<close>

definition blank :: "nat \<Rightarrow> pcnet" where
  "blank n = \<lparr>trace = [], mem = \<lparr>mds = \<lambda>_. \<lparr>mds_buffer = 0, mds_length = 0, mds_status = 0, mds_misc = 0, mds_reserved = 0\<rparr>,
       lmds = \<lambda>_. \<lparr>md0 = 0, md1 = 0, md2 = 0, md3 = 0\<rparr>, ram = \<lambda>_. 0\<rparr>,
     memDescr = True, ring_base = 0x1000, nrdre = n, recv_ring = [], recv_next = 0, ntdre = n, trans_ring = [],
     trans_next = 0,
     init_block = \<lparr>ib_mode = 0, ib_tlen_rlen = 0, ib_phys_addr = [1, 2, 3, 4, 5, 6], ib_ladrb = [], ib_rx_ring = 0, ib_tx_ring = 0\<rparr>,
     init_block_addr = 0, pending_transmits = 0, next_to_send = 0, ladrb = replicate MULTICAST_FILTER_LEN 0,
     dwio = False, flags = 0, nic_mode = MODE_NORMAL, if_drv_flags = 0, if_flags = 0,
     netif = True, pciNub = True, workLoop = True, interruptSrc = True, transmitQueue = True, timerSrc = True,
     csrMap = True, mediumDict = True,
     netStats = \<lparr>inputPackets = 0, inputErrors = 0, outputPackets = 0, outputErrors = 0\<rparr>,
     etherStats = \<lparr>alignmentErrors = 0, fcsErrors = 0, singleCollisionFrames = 0, multipleCollisionFrames = 0,
       sqeTestErrors = 0, deferredTransmissions = 0, lateCollisions = 0, excessiveCollisions = 0,
       internalMacTransmitErrors = 0, carrierSenseErrors = 0, frameTooLongs = 0, internalMacReceiveErrors =
       0, etherChipSet = 0, missedFrames = 0, collFrequencies = replicate 16 0, rx_overruns = 0,
       rx_watchdogTimeouts = 0, rx_frameTooShorts = 0, rx_collisionErrors = 0, rx_phyErrors = 0,
       rx_timeouts = 0, rx_interrupts = 0, rx_resets = 0, rx_resourceErrors = 0, tx_underruns = 0,
       tx_jabbers = 0, tx_phyErrors = 0, tx_timeouts = 0, tx_interrupts = 0, tx_resets = 0,
       tx_resourceErrors = 0\<rparr>,
     mediumTable = \<lambda>_. None, currentLevel = kActivationLevel0, enabledByBSD = False, enabledByKDP = False,
     interruptEnabled = False, currentMediumIndex = MEDIUM_INDEX_10_HD, mediumIndexLastReported = MEDIUM_INDEX_NONE\<rparr>"

definition rings :: "nat \<Rightarrow> pcnet" where
  "rings n = init_rings quiet_env (blank n)"

lemma blank_sel [simp]:
  "trace (blank n) = []" "nrdre (blank n) = n" "ntdre (blank n) = n" "pending_transmits (blank n) = 0"
  "memDescr (blank n)" "flags (blank n) = 0" "dwio (blank n) = False" "ring_base (blank n) = 0x1000"
  "currentLevel (blank n) = kActivationLevel0" "\<not> enabledByBSD (blank n)" "\<not> enabledByKDP (blank n)"
  "\<not> interruptEnabled (blank n)" "pciNub (blank n)" "mediumTable (blank n) i = None"
  "currentMediumIndex (blank n) = MEDIUM_INDEX_10_HD" "ladrb (blank n) = replicate MULTICAST_FILTER_LEN 0"
  "if_drv_flags (blank n) = 0" "transmitQueue (blank n)"
  by (simp_all add: blank_def)

lemma mem_size_small: "n \<le> 5 \<Longrightarrow> lnc_mem_size n n \<le> 2 ^ 32"
proof -
  assume "n \<le> 5"
  then have "(2::nat) ^ n \<le> 2 ^ 5" by (rule power_increasing) simp
  then have "LNC_NDESC n \<le> 32" unfolding LNC_NDESC_def by simp
  then show ?thesis unfolding lnc_mem_size_def by (simp add: hw_consts)
qed

lemma rings_geom: "n \<le> 5 \<Longrightarrow> ring_geom (rings n) \<and> rings_fresh quiet_env (rings n)"
  using init_rings_fresh[of "blank n" quiet_env] mem_size_small[of n] by (simp add: rings_def)

lemma rings_sel [simp]:
  "trace (rings n) = []" "nrdre (rings n) = n" "ntdre (rings n) = n" "flags (rings n) = 0"
  by (simp_all add: rings_def)

lemma rings_dwio [simp]: "\<not> dwio (rings n)" "pending_transmits (rings n) = 0"
proof -
  obtain t where t: "same_vars (carve_rings ((blank n)\<lparr>recv_next := 0, trans_next := 0\<rparr>)) t"
    "init_rings quiet_env (blank n) = t\<lparr>next_to_send := 0\<rparr>" using init_rings_vars[of "blank n" quiet_env] by blast
  have "\<not> dwio t \<and> pending_transmits t = 0" unfolding same_vars_sel[OF t(1)]
    by (simp add: carve_rings_def Let_def split_def)
  then show "\<not> dwio (rings n)" "pending_transmits (rings n) = 0" unfolding rings_def t(2) by simp_all
qed

lemma rings_next [simp]: "n \<le> 5 \<Longrightarrow> recv_next (rings n) = 0" "n \<le> 5 \<Longrightarrow> trans_next (rings n) = 0"
    "n \<le> 5 \<Longrightarrow> next_to_send (rings n) = 0"
  using rings_geom[of n] by (simp_all add: rings_fresh_def)

lemma rings_tx_inv: "quiet_chip E \<Longrightarrow> n \<le> 5 \<Longrightarrow> tx_inv E (rings n) \<and> tx_queue (rings n) = []"
proof -
  assume q: "quiet_chip E" and n: "n \<le> 5"
  have "tx_idle quiet_env (rings n)" unfolding rings_def
    by (rule init_rings_tx_idle) (use mem_size_small[OF n] in \<open>simp_all add: quiet_tx_chip\<close>)
  then have "tx_idle E (rings n)" by (simp add: tx_idle_def tx_geom_def quiet_tx_chip q)
  then have "tx_inv E (rings n)" by (rule tx_idle_inv) (simp_all add: n)
  then show ?thesis using tx_queue_length[of E "rings n"] by simp
qed

subsection \<open>Packets to send\<close>

definition two_parts :: mbuf where
  "two_parts = \<lparr>pkthdr_len = 3, mbuf_datas = [[1, 2], [3]]\<rparr>"

lemma two_parts_ok [simp]: "pkt_ok two_parts" "pkt_bytes two_parts = [1, 2, 3]"
  by (simp_all add: two_parts_def pkt_ok_def pkt_bytes_def hw_consts)

definition sent :: "env \<Rightarrow> pcnet" where
  "sent E = snd (lnc_output_packet E two_parts (rings 1))"

lemma sent_inv:
  assumes "quiet_chip E"
  shows "tx_inv E (sent E)" "tx_queue (sent E) = [[1, 2, 3]]" "pending_transmits (sent E) = 1"
proof -
  have i: "tx_inv E (rings 1)" "tx_queue (rings 1) = []" using rings_tx_inv[OF assms, of 1] by simp_all
  have "pending_transmits (rings 1) < int (tx_size (rings 1))" by (simp add: LNC_NDESC_def)
  from output_ok[OF i(1) this two_parts_ok(1)] i(2)
  show "tx_inv E (sent E)" "tx_queue (sent E) = [[1, 2, 3]]" "pending_transmits (sent E) = 1"
    by (simp_all add: sent_def)
qed

lemma quiet_md: "quiet_chip E \<Longrightarrow> evolves E s t \<Longrightarrow> mem t = mem s"
  by (rotate_tac, induction rule: evolves.induct) (simp_all add: quiet_mem)

lemma sent_md:
  assumes "quiet_chip E"
  shows "mds_status (tx_md (sent E) 0) = TMD_OWN OR TMD_STP OR TMD_ENP" "trace (sent E) = trace (write_csr E CSR (CSR_TDMD OR CSR_IENA) (tx_put two_parts (rings 1)))"
    "trans_next (sent E) = 0" "recv_next (sent E) = 0" "nrdre (sent E) = 1" "ntdre (sent E) = 1"
    "rx_md (sent E) j = mds (mem (tx_put two_parts (rings 1))) (hre_md (recv_ring (rings 1) ! j))" "dwio (sent E) = False"
proof -
  let ?u = "tx_put two_parts (rings 1)"
  have s: "sent E = write_csr E CSR (CSR_TDMD OR CSR_IENA) ?u"
    by (simp add: sent_def lnc_output_packet_split LNC_NDESC_def)
  have m: "mem (sent E) = mem ?u" unfolding s by (rule quiet_md[OF assms evolves_write_csr])
  have "tx_md (sent E) 0 = tx_md ?u 0" unfolding tx_md_def m by (simp add: s)
  moreover have "mds_status (tx_md ?u 0) = TMD_OWN OR TMD_STP OR TMD_ENP"
    using tx_put_md[of "rings 1" 0 two_parts] rings_geom[of 1] by simp
  ultimately show "mds_status (tx_md (sent E) 0) = TMD_OWN OR TMD_STP OR TMD_ENP" by simp
  show "trace (sent E) = trace (write_csr E CSR (CSR_TDMD OR CSR_IENA) ?u)" by (simp add: s)
  show "trans_next (sent E) = 0" "recv_next (sent E) = 0" "nrdre (sent E) = 1" "ntdre (sent E) = 1"
    by (simp_all add: s)
  show "rx_md (sent E) j = mds (mem ?u) (hre_md (recv_ring (rings 1) ! j))"
    unfolding rx_md_def m by (simp add: s)
  show "dwio (sent E) = False"
    unfolding s by (simp add: tx_put_def mbuf_to_buffer_def Let_def)
qed

lemma sent_no_underflow: "quiet_chip E \<Longrightarrow> no_underflow (sent E)"
proof -
  assume q: "quiet_chip E"
  have "tx_slots (sent E) = [0]"
    using sent_md[OF q] sent_inv[OF q] by (simp add: tx_slots_def cyc_seg_def)
  moreover have "\<not> has (TMD_OWN OR TMD_STP OR TMD_ENP) TMD_ERR" by (simp add: has_def hw_consts)
  ultimately show ?thesis using sent_md(1)[OF q] by (simp add: no_underflow_def)
qed

subsection \<open>Packets received\<close>

text \<open>A descriptor as the chip leaves it: status and message length.\<close>

definition received :: "u16 \<Rightarrow> u32 \<Rightarrow> pcnet32_mds \<Rightarrow> pcnet32_mds" where
  "received st len d = d\<lparr>mds_status := st, mds_misc := len\<rparr>"

definition rx_state :: "nat \<Rightarrow> u16 \<Rightarrow> u32 \<Rightarrow> u16 \<Rightarrow> u32 \<Rightarrow> pcnet" where
  "rx_state n st0 l0 st1 l1 = upd_rx_md 1 (received st1 l1) (upd_rx_md 0 (received st0 l0) (rings n))"

lemma rx_state_facts:
  assumes "1 \<le> n" "n \<le> 5"
  shows "ring_geom (rx_state n a l b m)" "recv_next (rx_state n a l b m) = 0" "nrdre (rx_state n a l b m) = n"
    "trace (rx_state n a l b m) = []"
    "mds_status (rx_md (rx_state n a l b m) 0) = a" "mds_misc (rx_md (rx_state n a l b m) 0) = l"
    "mds_status (rx_md (rx_state n a l b m) 1) = b" "mds_misc (rx_md (rx_state n a l b m) 1) = m"
    "1 < rx_size (rx_state n a l b m)"
proof -
  have "(2::nat) ^ 1 \<le> 2 ^ n" using assms(1) by (rule power_increasing) simp
  then have n: "0 < LNC_NDESC n" "1 < LNC_NDESC n" by (simp_all add: LNC_NDESC_def)
  have g: "ring_geom (rings n)" using rings_geom[OF assms(2)] by simp
  have r: "rx_md (rx_state n a l b m) 0 = received a l (rx_md (rings n) 0)"
     "rx_md (rx_state n a l b m) 1 = received b m (rx_md (rings n) 1)"
    using n g by (simp_all add: rx_state_def rx_md_upd)
  show "mds_status (rx_md (rx_state n a l b m) 0) = a" "mds_misc (rx_md (rx_state n a l b m) 0) = l"
    "mds_status (rx_md (rx_state n a l b m) 1) = b" "mds_misc (rx_md (rx_state n a l b m) 1) = m"
    unfolding r by (simp_all add: received_def)
  show "ring_geom (rx_state n a l b m)" "recv_next (rx_state n a l b m) = 0" "nrdre (rx_state n a l b m) = n"
    "trace (rx_state n a l b m) = []" "1 < rx_size (rx_state n a l b m)"
    using assms g n by (simp_all add: rx_state_def)
qed

lemma rx_state_tx_inv: "quiet_chip E \<Longrightarrow> 1 \<le> n \<Longrightarrow> n \<le> 5 \<Longrightarrow> tx_inv E (rx_state n a l b m)"
proof -
  assume q: "quiet_chip E" and n: "1 \<le> n" "n \<le> 5"
  have "(2::nat) ^ 1 \<le> 2 ^ n" using n(1) by (rule power_increasing) simp
  then have "1 < LNC_NDESC n" by (simp add: LNC_NDESC_def)
  moreover have "ring_geom (rings n)" using rings_geom[OF n(2)] by simp
  ultimately have "tx_inv E (rx_state n a l b m) = tx_inv E (rings n)"
    by (intro tx_inv_cong) (simp_all add: rx_state_def tx_md_upd_rx)
  then show ?thesis using rings_tx_inv[OF q n(2)] by simp
qed

lemma rx_state_filled:
  assumes "1 \<le> n" "n \<le> 5" "a = RMD_STP OR RMD_ENP"
  shows "rx_filled (rx_state n a 64 b m) 0"
proof -
  have "unat (rint_pkt_len (rx_md (rx_state n a 64 b m) 0)) = 60"
    using rx_state_facts[OF assms(1,2), of a 64 b m] by (simp add: rint_pkt_len_unat Let_def hw_consts)
  then show ?thesis using rx_state_facts[OF assms(1,2), of a 64 b m] assms(3)
    by (simp add: rx_filled_def Let_def has_def hw_consts)
qed

lemma rx_state_stuck:
  assumes "a = RMD_STP OR RMD_ENP"
  shows "rx_stuck (rx_state 1 a 64 a 64)"
proof -
  let ?s = "rx_state 1 a 64 a 64"
  have "unat (rint_pkt_len (rx_md ?s 1)) = 60"
    using rx_state_facts[of 1 a 64 a 64] by (simp add: rint_pkt_len_unat Let_def hw_consts)
  then have "rx_filled ?s 1" using rx_state_facts[of 1 a 64 a 64] assms
    by (simp add: rx_filled_def Let_def has_def hw_consts)
  moreover have "rx_filled ?s 0" using assms by (rule rx_state_filled[rotated 2]) simp_all
  ultimately show ?thesis using rx_state_facts[of 1 a 64 a 64]
    by (auto simp: rx_stuck_def LNC_NDESC_def dest: less_2_cases)
qed

lemma rx_state_chain:
  assumes "a = RMD_STP" "b = RMD_ENP OR e" "\<not> has e RMD_STP" "\<not> has e RMD_OWN"
  shows "rx_chain (rx_state 2 a 0 b 2000) 2" "rx_last (rx_state 2 a 0 b 2000) 2 = rx_md (rx_state 2 a 0 b 2000) 1"
proof -
  let ?s = "rx_state 2 a 0 b 2000"
  have f: "has RMD_STP RMD_STP" "\<not> has RMD_STP (RMD_ENP OR RMD_ERR)" "\<not> has RMD_ENP RMD_STP" "\<not> has RMD_ENP RMD_OWN"
    "has RMD_ENP (RMD_ENP OR RMD_ERR)"
    by (simp_all add: has_def hw_consts)
  show "rx_chain ?s 2"
    using rx_state_facts[of 2 a 0 b 2000] assms f
    by (auto simp: rx_chain_def Let_def LNC_NDESC_def has_or dest!: less_2_cases)
  show "rx_last ?s 2 = rx_md ?s 1"
    using rx_state_facts[of 2 a 0 b 2000] by (simp add: rx_last_def LNC_NDESC_def)
qed

subsection \<open>Interrupts\<close>

lemma intr_env_cause: "trace s = h0 \<Longrightarrow> \<not> dwio s \<Longrightarrow> intr_cause (intr_env c h0) s = c"
  by (simp add: intr_cause_def intr_env_def quiet_env_def save_rap_def read_csr_def read_csr_wio_def
      csrRead16_def csrWrite16_def)

lemma quiet_acked:
  assumes "quiet_chip E"
  shows "tx_md (intr_acked E s) j = tx_md s j" "rx_md (intr_acked E s) j = rx_md s j"
    "tx_slots (intr_acked E s) = tx_slots s" "pending_transmits (intr_acked E s) = pending_transmits s"
  using quiet_md[OF assms evolves_intr_acked[of E s]] same_vars_sel[OF evolves_same_vars[OF evolves_intr_acked[of E s]]]
  by (simp_all add: tx_md_def rx_md_def tx_slots_def)

lemma tint_then_calm:
  assumes i: "tx_inv (intr_env c h0) s" "0 < pending_transmits s" "no_underflow s"
    and t: "lnc_tint (intr_env c h0) r s = Some (r', t)"
  shows "\<not> has (fst (read_csr (intr_env c h0) CSR t)) CSR_INTR"
proof -
  let ?E = "intr_env c h0"
  obtain u where "tint_loop ?E 0 s = Some (True, u)"
    using tint_loop_released[OF quiet_chip_dma i(1,2,3), of 0] by auto
  then have "t = write_csr ?E CSR (CSR_TINT OR CSR_IENA) (BUMP_ETHER_COUNTER tx_interrupts_update u)"
    using t by (simp add: lnc_tint_def)
  then have "fst (read_csr ?E CSR t) = 0"
    by (simp add: read_csr_def read_csr_wio_def read_csr_dwio_def csrRead16_def csrRead32_def csrWrite16_def
        csrWrite32_def write_csr_def intr_env_def quiet_env_def)
  then show ?thesis by simp
qed

subsection \<open>The life cycle\<close>

lemma blank_inv: "level_inv quiet_env (blank 5)" "sys_inv quiet_env (blank 5)"
  using mem_size_small[of 5] by (simp_all add: level_inv_def sys_inv_def client_inv_def mem_ready_def quiet_tx_chip)

lemma quiet_os_call: "os_call quiet_env e s = (True, emit quiet_env e s)" for s :: pcnet
  by (simp add: os_call_def)

lemma quiet_probe: "fst (start_probe quiet_env (\<lambda>s. (True, s)) (blank 5))"
proof -
  note ok = quiet_os_call
  have "fst (lnc_pci_attach quiet_env s)" "fst (initEventSources quiet_env s) \<longleftrightarrow> workLoop s"
    "workLoop (snd (initEventSources quiet_env s)) = workLoop s" for s :: pcnet
    by (simp_all add: lnc_pci_attach_def lnc_attach_common_def initEventSources_def ok Let_def and_then_def)
  moreover have "fst (initPCIConfigSpace quiet_env s)" for s :: pcnet by (simp add: initPCIConfigSpace_def Let_def)
  ultimately show ?thesis
    by (simp add: start_probe_def and_then_def ok Let_def split_def initAdapter_keeps(2)) (simp add: blank_def)
qed

lemma quiet_start: "fst (start quiet_env (\<lambda>s. (True, s)) (blank 5))"
  using quiet_probe by (simp add: start_def quiet_os_call Let_def split_def)

end
