(* ===== verification/Sanos_Fixtures.thy ===== *)
theory Sanos_Fixtures
  imports Sanos_System Fixtures
begin

text \<open>
  A concrete Sanos kernel, a chip that identifies itself as an Am79C973, and the device that
  \<open>install\<close> makes of them, with a packet sent or received: instances for the hypotheses of the
  properties.
\<close>

unbundle bit_operations_syntax

definition sanos_kernel :: sanos_os where
  "sanos_kernel = \<lparr>pbuf_alloc = \<lambda>_. Some 0x8000,
     pbuf_linearize = \<lambda>h p. let n = sum_list (map pb_len p) in
       if n = 0 then [] else [(hd p)\<lparr>pb_len := n, pb_tot_len := n\<rparr>],
     payload_of = \<lambda>b. b + 16, virt2phys = \<lambda>x. x, dev_receive = \<lambda>_. True, kmalloc = \<lambda>_. Some 0x4000,
     bus_is_pci = True, unit_iobase = 0, unit_irq = 11, unit_membase = 0\<rparr>"

text \<open>The chip answers according to the register just selected.\<close>

definition sanos_chip :: env where
  "sanos_chip = quiet_env\<lparr>in16 := \<lambda>h p. if p = PCNET32_WIO_RAP then 88 else
     (case h of Out16 _ r # _ \<Rightarrow> if r = 0 then 4 else if r = CHIP_ID_LOWER then 0x5003 else if r = CHIP_ID_UPPER then 0x262 else 0
      | _ \<Rightarrow> 0)\<rparr>"

definition sanos_blank :: pcnet32 where
  "sanos_blank = \<lparr>trace = [], mem = \<lparr>mds = \<lambda>_. \<lparr>mds_buffer = 0, mds_length = 0, mds_status = 0, mds_misc = 0, mds_reserved = 0\<rparr>,
       lmds = \<lambda>_. \<lparr>md0 = 0, md1 = 0, md2 = 0, md3 = 0\<rparr>, ram = \<lambda>_. 0\<rparr>, rx_buffer = [], tx_buffer = [], phys_addr = 0, iobase = 0, irq = 0, membase = 0, next_rx = 0,
     sem_tx = 0, size_tx = 0, curr_tx = 0, next_tx = 0, hwaddr = [],
     sn_block = \<lparr>sn_mode = 0, sn_tlen_rlen = 0, sn_ib_addr = [], sn_filter = [], sn_ib_rx_ring = 0, sn_ib_tx_ring = 0\<rparr>,
     access = pcnet32_wio, vendorname = [], productname = []\<rparr>"

definition sanos_dev :: pcnet32 where
  "sanos_dev = snd (the (install sanos_chip sanos_kernel sanos_blank))"

lemma sanos_chip_quiet [simp]: "quiet_chip sanos_chip"
  by (simp add: quiet_chip_def sanos_chip_def quiet_env_def)

lemma sanos_kernel_ok [simp]: "linearize_ok sanos_kernel"
proof -
  have "0 < sum_list (map pb_len p)" if "sum_list (map pb_len p) \<noteq> 0" for p using that by linarith
  then show ?thesis by (auto simp: linearize_ok_def sanos_kernel_def Let_def simp del: sum_list_eq_0_iff)
qed

lemma probed_sel [simp]: "iobase (probed E K p s) = unit_iobase K"
proof -
  have "iobase (fold zero_md is s) = iobase s" for "is" s
    by (induction "is" arbitrary: s) (simp_all add: zero_md_def)
  then have "iobase (new_device K p s) = unit_iobase K" for s by (simp add: new_device_def Let_def)
  then show ?thesis by (simp add: probed_def Let_def drv_ops)
qed

lemma sanos_identified:
  "\<exists>u t. setup_access sanos_chip (probed sanos_chip sanos_kernel 0x4000 s) = (Some pcnet32_wio, u) \<and>
     chip_version sanos_chip (u\<lparr>access := pcnet32_wio\<rparr>) = (0x2625003, t)"
proof -
  have i: "iobase (probed sanos_chip sanos_kernel 0x4000 s) = 0" unfolding probed_sel by (simp add: sanos_kernel_def)
  have q: "in16 sanos_chip = (\<lambda>h p. if p = PCNET32_WIO_RAP then 88 else
     (case h of Out16 _ r # _ \<Rightarrow> if r = 0 then 4 else if r = CHIP_ID_LOWER then 0x5003 else if r = CHIP_ID_UPPER then 0x262 else 0
      | _ \<Rightarrow> 0))" by (simp add: sanos_chip_def)
  show ?thesis
    by (simp add: setup_access_def chip_version_def Let_def split_def drv_ops i[simplified] q hw_consts)
qed

lemma sanos_installed: "install sanos_chip sanos_kernel sanos_blank = Some (S_OK, sanos_dev) \<and> registered sanos_dev"
proof -
  obtain u t where u: "setup_access sanos_chip (probed sanos_chip sanos_kernel 0x4000 sanos_blank) = (Some pcnet32_wio, u)"
     "chip_version sanos_chip (u\<lparr>access := pcnet32_wio\<rparr>) = (0x2625003, t)" using sanos_identified by blast
  have "\<exists>w. install sanos_chip sanos_kernel sanos_blank = Some (S_OK, w) \<and> registered w"
    by (rule install_succeeds[OF _ _ u]) (simp_all add: sanos_kernel_def product_of_def)
  then show ?thesis by (auto simp: sanos_dev_def)
qed

lemma sanos_dev_facts:
  "sn_ok sanos_dev" "sem_tx sanos_dev = TX_RING_SIZE" "size_tx sanos_dev = 0" "next_rx sanos_dev = 0"
  "j < RX_RING_SIZE \<Longrightarrow> mds_status (rx_head sanos_dev j) = RMD_OWN"
  "j < RX_RING_SIZE \<Longrightarrow> \<exists>b. rx_buffer sanos_dev ! j = Some b"
  using install_ok[of sanos_chip sanos_kernel sanos_blank sanos_dev] sanos_installed
    install_rings[OF sanos_chip_quiet, of sanos_kernel sanos_blank sanos_dev]
  by (auto simp: sn_ok_def sn_tx_ok_def)

subsection \<open>A packet sent\<close>

definition sanos_parts :: "pbuf list" where
  "sanos_parts = [\<lparr>pb_ref = 0x9000, pb_payload = 0x9010, pb_len = 40, pb_tot_len = 60\<rparr>,
     \<lparr>pb_ref = 0xA000, pb_payload = 0xA010, pb_len = 20, pb_tot_len = 20\<rparr>]"

abbreviation sanos_whole :: pbuf where
  "sanos_whole \<equiv> \<lparr>pb_ref = 0x9000, pb_payload = 0x9010, pb_len = 60, pb_tot_len = 60\<rparr>"

definition sanos_sent :: pcnet32 where
  "sanos_sent = snd (the (pcnet32_transmit sanos_chip sanos_kernel id sanos_parts sanos_dev))"

lemma sanos_parts_facts:
  "sanos_parts \<noteq> []" "0 < pb_len (hd sanos_parts)" "pbuf_linearize sanos_kernel h sanos_parts = [sanos_whole]"
  by (simp_all add: sanos_parts_def sanos_kernel_def)

lemma sanos_sent_facts:
  "pcnet32_transmit sanos_chip sanos_kernel id sanos_parts sanos_dev = Some (S_OK, sanos_sent)"
  "size_tx sanos_sent = 1" "sn_ok sanos_sent" "j < RX_RING_SIZE \<Longrightarrow> rx_head sanos_sent j = rx_head sanos_dev j"
proof -
  have tok: "sn_tx_ok sanos_dev" "0 < sem_tx sanos_dev"
    using sanos_dev_facts by (simp_all add: sn_ok_def TX_RING_SIZE_def)
  obtain t where t: "pcnet32_transmit sanos_chip sanos_kernel id sanos_parts sanos_dev = Some (S_OK, t)"
     "size_tx t = 1" "\<forall>j<RX_RING_SIZE. rx_head t j = rx_head sanos_dev j"
    using transmit_descriptor[OF sanos_kernel_ok sanos_chip_quiet tok sanos_parts_facts, of id] sanos_dev_facts(3) by auto
  then have s: "sanos_sent = t" by (simp add: sanos_sent_def)
  have "meanwhile_dpc sanos_chip sanos_kernel id" by (simp add: meanwhile_dpc_def)
  then have "sn_step sanos_chip sanos_kernel (Transmit sanos_parts) sanos_dev t" using t(1) by (rule sn_transmit)
  with sanos_dev_facts(1) have "sn_ok t" by (rule sn_step_ok[OF sanos_kernel_ok, rotated])
  with t show "pcnet32_transmit sanos_chip sanos_kernel id sanos_parts sanos_dev = Some (S_OK, sanos_sent)"
    "size_tx sanos_sent = 1" "sn_ok sanos_sent" "j < RX_RING_SIZE \<Longrightarrow> rx_head sanos_sent j = rx_head sanos_dev j"
    by (simp_all add: s)
qed

lemma sanos_sent_reachable: "sn_reachable sanos_chip sanos_kernel sanos_blank sanos_sent"
proof (rule sn_next)
  show "sn_reachable sanos_chip sanos_kernel sanos_blank sanos_dev" using sanos_installed by (blast intro: sn_installed)
  show "sn_step sanos_chip sanos_kernel (Transmit sanos_parts) sanos_dev sanos_sent"
    by (rule sn_transmit[where m = id]) (simp_all add: meanwhile_dpc_def sanos_sent_facts)
qed

text \<open>A chain of more parts than the ring has slots, with nobody to free one.\<close>

lemma wait_entries_replicate:
  "0 < pb_len q \<Longrightarrow> wait_entries E id (replicate n q) s =
     (if n \<le> sem_tx s then (True, s\<lparr>sem_tx := sem_tx s - n\<rparr>)
      else (False, emit E (Kernel ''stats.link.drop'') (s\<lparr>sem_tx := 0\<rparr>)))"
proof (induction n arbitrary: s)
  case (Suc n)
  show ?case
  proof (cases "sem_tx s = 0")
    case True
    then have e: "s\<lparr>sem_tx := 0\<rparr> = s" by (cases s) simp
    show ?thesis unfolding e using True Suc.prems by (simp add: wait_for_sem_def)
  next
    case False
    with Suc show ?thesis by (auto simp: wait_for_sem_def Let_def)
  qed
qed simp

lemma sanos_long_chain:
  "pcnet32_transmit_chain sanos_chip sanos_kernel id (replicate 17 sanos_whole) sanos_dev =
     (ETIMEOUT, emit sanos_chip (Kernel ''stats.link.drop'') (sanos_dev\<lparr>sem_tx := 0\<rparr>))"
proof -
  have "sem_tx sanos_dev = 16" using sanos_dev_facts(2) by (simp add: TX_RING_SIZE_def)
  then show ?thesis
    using wait_entries_replicate[of sanos_whole sanos_chip 17 sanos_dev] by (simp add: pcnet32_transmit_chain_def)
qed

subsection \<open>A slot the chip gave back\<close>

definition sanos_rx :: "u16 \<Rightarrow> u32 \<Rightarrow> pcnet32" where
  "sanos_rx st len = upd_mds (sn_rx_at sanos_dev 0) (received st len) sanos_dev"

lemma sanos_rx_facts:
  "sn_rx_ok (sanos_rx st len)" "next_rx (sanos_rx st len) = 0"
  "mds_status (rx_head (sanos_rx st len) 0) = st" "mds_misc (rx_head (sanos_rx st len) 0) = len"
  "has (mds_status (rx_head (sanos_rx st len) 1)) RMD_OWN" "\<exists>b. slot_packet (sanos_rx st len) 0 = [(b, scast (ucast (len AND 0xfff) - 4 :: u16))]"
proof -
  have r: "0 < RX_RING_SIZE" "1 < RX_RING_SIZE" by (simp_all add: RX_RING_SIZE_def)
  show "sn_rx_ok (sanos_rx st len)" "next_rx (sanos_rx st len) = 0"
    using sanos_dev_facts(1,4) by (simp_all add: sanos_rx_def sn_ok_def sn_rx_ok_def)
  show h: "mds_status (rx_head (sanos_rx st len) 0) = st" "mds_misc (rx_head (sanos_rx st len) 0) = len"
    using r by (simp_all add: sanos_rx_def received_def)
  show "has (mds_status (rx_head (sanos_rx st len) 1)) RMD_OWN"
    using r sanos_dev_facts(5)[OF r(2)] by (simp add: sanos_rx_def del: One_nat_def) (simp add: has_def hw_consts)
  obtain b where "rx_buffer sanos_dev ! 0 = Some b" using sanos_dev_facts(6)[OF r(1)] ..
  then have b: "rx_buffer (sanos_rx st len) ! 0 = Some b" by (simp add: sanos_rx_def)
  show "\<exists>b. slot_packet (sanos_rx st len) 0 = [(b, scast (ucast (len AND 0xfff) - 4 :: u16))]"
    using h(2) by (simp add: slot_packet_def sn_len_def b)
qed

end
