(* ===== verification/Fbsd_Reclaim.thy ===== *)
theory Fbsd_Reclaim
  imports Fbsd_Send
begin

text \<open>
  The transmit interrupt of the FreeBSD driver in the mode that copies packets: the invariant of the
  ring, the packets one interrupt reclaims, and the packets of the interface queue that take
  their place.
\<close>

unbundle bit_operations_syntax

subsection \<open>The invariant of the ring\<close>

abbreviation fb_tx_size :: "fb_softc \<Rightarrow> nat" where
  "fb_tx_size s \<equiv> LNC_NDESC (f_ntdre s)"

text \<open>The slots of the packets not reclaimed yet, oldest first.\<close>

definition fb_tx_slots :: "fb_softc \<Rightarrow> nat list" where
  "fb_tx_slots s = cyc_seg (fb_tx_size s) (f_trans_next s) (nat (f_pending s))"

definition fb_tx_ok :: "fb_softc \<Rightarrow> bool" where
  "fb_tx_ok s \<longleftrightarrow> fb_geom s \<and> fb_tx_buffers_apart s \<and> f_mem_mode s = DMA_FIXED \<and> f_trans_next s < fb_tx_size s \<and>
     0 \<le> f_pending s \<and> f_pending s \<le> int (fb_tx_size s) \<and>
     f_next_to_send s = (f_trans_next s + nat (f_pending s)) mod fb_tx_size s \<and>
     (\<forall>j\<in>set (fb_tx_slots s). has (md1 (fb_tx_md s j)) STP \<and> has (md1 (fb_tx_md s j)) ENP) \<and>
     (\<forall>j<fb_tx_size s. j \<notin> set (fb_tx_slots s) \<longrightarrow> \<not> has (md1 (fb_tx_md s j)) (STP OR OWN OR ENP OR MDERR))"

lemma fb_tx_slots_less: "j \<in> set (fb_tx_slots s) \<Longrightarrow> j < fb_tx_size s"
  unfolding fb_tx_slots_def by (rule cyc_seg_less) simp_all

lemma fb_tx_slots_head:
  assumes "fb_tx_ok s" "0 < f_pending s"
  shows "fb_tx_slots s = f_trans_next s # cyc_seg (fb_tx_size s) (Suc (f_trans_next s) mod fb_tx_size s) (nat (f_pending s - 1))"
proof -
  have "nat (f_pending s) = Suc (nat (f_pending s - 1))" using assms(2) by simp
  then show ?thesis using assms(1) by (simp only: fb_tx_slots_def) (simp add: cyc_seg_Suc fb_tx_ok_def)
qed

text \<open>The variables of the transmit side that an interrupt leaves alone.\<close>

definition fb_tx_rest :: "fb_softc \<Rightarrow> fb_softc \<Rightarrow> bool" where
  "fb_tx_rest s t \<longleftrightarrow> f_trans_ring t = f_trans_ring s \<and> f_recv_ring t = f_recv_ring s \<and> f_nrdre t = f_nrdre s \<and>
     f_ntdre t = f_ntdre s \<and> f_mb t = f_mb s \<and> fi_snd t = fi_snd s \<and> f_mem_mode t = f_mem_mode s \<and>
     f_next_to_send t = f_next_to_send s \<and> f_rdp t = f_rdp s \<and> ram (mem t) = ram (mem s)"

lemma fb_tx_rest_refl [simp]: "fb_tx_rest s s"
  by (simp add: fb_tx_rest_def)

lemma fb_tx_rest_trans: "fb_tx_rest s t \<Longrightarrow> fb_tx_rest t u \<Longrightarrow> fb_tx_rest s u"
  by (simp add: fb_tx_rest_def)

lemma fb_tx_rest_geom:
  "fb_tx_rest s t \<Longrightarrow> fb_geom t = fb_geom s" "fb_tx_rest s t \<Longrightarrow> fb_tx_buffers_apart t = fb_tx_buffers_apart s"
  by (simp_all add: fb_tx_rest_def fb_geom_def fb_tx_buffers_apart_def)

lemma fb_tx_rest_upd [simp]: "fb_tx_rest s (upd_fb_tx i f t) = fb_tx_rest s t"
  by (simp add: fb_tx_rest_def upd_fb_tx_def upd_lmds_def)

lemma fb_tx_rest_vars [simp]:
  "fb_tx_rest s (t\<lparr>fi_oerrors := a\<rparr>) = fb_tx_rest s t" "fb_tx_rest s (t\<lparr>fi_collisions := a\<rparr>) = fb_tx_rest s t"
  "fb_tx_rest s (t\<lparr>fi_opackets := a\<rparr>) = fb_tx_rest s t" "fb_tx_rest s (t\<lparr>f_trans_next := n\<rparr>) = fb_tx_rest s t"
  "fb_tx_rest s (t\<lparr>f_pending := p\<rparr>) = fb_tx_rest s t" "fb_tx_rest s (t\<lparr>fi_drv_flags := a\<rparr>) = fb_tx_rest s t"
  "fb_tx_rest s (t\<lparr>fi_timer := n\<rparr>) = fb_tx_rest s t" "fb_tx_rest s (t\<lparr>trace := h\<rparr>) = fb_tx_rest s t"
  by (simp_all add: fb_tx_rest_def)

lemma fb_tx_md_vars [simp]:
  "fb_tx_md (t\<lparr>fi_oerrors := a\<rparr>) j = fb_tx_md t j" "fb_tx_md (t\<lparr>fi_collisions := a\<rparr>) j = fb_tx_md t j"
  "fb_tx_md (t\<lparr>fi_opackets := a\<rparr>) j = fb_tx_md t j" "fb_tx_md (t\<lparr>f_trans_next := n\<rparr>) j = fb_tx_md t j"
  "fb_tx_md (t\<lparr>f_pending := p\<rparr>) j = fb_tx_md t j" "fb_tx_md (t\<lparr>fi_drv_flags := a\<rparr>) j = fb_tx_md t j"
  "fb_tx_md (t\<lparr>fi_timer := n\<rparr>) j = fb_tx_md t j" "fb_tx_md (t\<lparr>trace := h\<rparr>) j = fb_tx_md t j"
  by (simp_all add: fb_tx_md_def)

text \<open>One packet out of the ring.\<close>

definition fb_popped :: "fb_softc \<Rightarrow> fb_softc \<Rightarrow> bool" where
  "fb_popped s t \<longleftrightarrow> fb_tx_rest s t \<and> f_trans_next t = Suc (f_trans_next s) mod fb_tx_size s \<and> f_pending t = f_pending s - 1 \<and>
     \<not> has (md1 (fb_tx_md t (f_trans_next s))) (STP OR OWN OR ENP OR MDERR) \<and>
     (\<forall>j<fb_tx_size s. j \<noteq> f_trans_next s \<longrightarrow> fb_tx_md t j = fb_tx_md s j)"

lemma fb_popped_ok:
  assumes i: "fb_tx_ok s" "0 < f_pending s" and p: "fb_popped s t"
  shows "fb_tx_ok t" "fb_tx_slots s = f_trans_next s # fb_tx_slots t" "f_trans_next s \<notin> set (fb_tx_slots t)"
proof -
  have same: "f_ntdre t = f_ntdre s" "f_mem_mode t = f_mem_mode s" "f_next_to_send t = f_next_to_send s"
    using p by (simp_all add: fb_popped_def fb_tx_rest_def)
  show slots: "fb_tx_slots s = f_trans_next s # fb_tx_slots t"
    using fb_tx_slots_head[OF i] p same by (simp add: fb_tx_slots_def fb_popped_def)
  have "distinct (fb_tx_slots s)"
    unfolding fb_tx_slots_def by (rule cyc_seg_distinct) (use i in \<open>simp add: fb_tx_ok_def nat_le_iff\<close>)
  then show nin: "f_trans_next s \<notin> set (fb_tx_slots t)" by (simp add: slots)
  have ns: "f_next_to_send t = (f_trans_next t + nat (f_pending t)) mod fb_tx_size t"
  proof -
    have "nat (f_pending s) = Suc (nat (f_pending s - 1))" using i(2) by simp
    then show ?thesis using i(1) p same by (simp add: fb_tx_ok_def fb_popped_def mod_simps)
  qed
  have md: "fb_tx_md t j = fb_tx_md s j" if "j \<in> set (fb_tx_slots t)" for j
    using p that nin fb_tx_slots_less[of j t] same(1) by (auto simp: fb_popped_def)
  have "has (md1 (fb_tx_md t j)) STP \<and> has (md1 (fb_tx_md t j)) ENP" if "j \<in> set (fb_tx_slots t)" for j
    using i(1) that by (simp add: md fb_tx_ok_def slots)
  moreover have "\<not> has (md1 (fb_tx_md t j)) (STP OR OWN OR ENP OR MDERR)" if "j < fb_tx_size t" "j \<notin> set (fb_tx_slots t)" for j
    using i(1) that p same(1) slots by (cases "j = f_trans_next s") (auto simp: fb_popped_def fb_tx_ok_def)
  ultimately show "fb_tx_ok t"
    using i p ns same fb_tx_rest_geom[of s t] by (simp add: fb_tx_ok_def fb_popped_def)
qed

subsection \<open>One packet\<close>

definition fb_uflo :: "fb_softc \<Rightarrow> nat \<Rightarrow> bool" where
  "fb_uflo s j \<longleftrightarrow> has (md1 (fb_tx_md s j)) MDERR \<and> has (md3 (fb_tx_md s j)) UFLO"

lemma cleared_flags: "\<not> has (x AND HADR) (STP OR OWN OR ENP OR MDERR)"
  by (simp add: has_def HADR_def STP_def OWN_def ENP_def MDERR_def and.assoc)

lemma clear_tbuff_facts:
  assumes "fb_geom s" "f_trans_next s < fb_tx_size s"
  shows "fb_tx_rest u (clear_tbuff s) = fb_tx_rest u s" "f_trans_next (clear_tbuff s) = f_trans_next s"
    "f_pending (clear_tbuff s) = f_pending s" "fi_drv_flags (clear_tbuff s) = fi_drv_flags s" "trace (clear_tbuff s) = trace s"
    "j < fb_tx_size s \<Longrightarrow> md1 (fb_tx_md (clear_tbuff s) j) = md1 (fb_tx_md s j)"
    "j < fb_tx_size s \<Longrightarrow> j \<noteq> f_trans_next s \<Longrightarrow> fb_tx_md (clear_tbuff s) j = fb_tx_md s j"
    "has (md3 (fb_tx_md (clear_tbuff s) (f_trans_next s))) UFLO = has (md3 (fb_tx_md s (f_trans_next s))) UFLO"
proof -
  have "has (x AND NOT TBUFF) UFLO = has x UFLO" for x
    by (rule has_andnot_disjoint) (simp add: TBUFF_def UFLO_def)
  then show "has (md3 (fb_tx_md (clear_tbuff s) (f_trans_next s))) UFLO = has (md3 (fb_tx_md s (f_trans_next s))) UFLO"
    using assms by (simp add: clear_tbuff_def fb_md_upd)
  show "j < fb_tx_size s \<Longrightarrow> md1 (fb_tx_md (clear_tbuff s) j) = md1 (fb_tx_md s j)"
    "j < fb_tx_size s \<Longrightarrow> j \<noteq> f_trans_next s \<Longrightarrow> fb_tx_md (clear_tbuff s) j = fb_tx_md s j"
    using assms by (simp_all add: clear_tbuff_def fb_md_upd)
qed (simp_all add: clear_tbuff_def upd_fb_tx_def upd_lmds_def fb_tx_rest_def)

text \<open>What the counting of an error keeps.\<close>

definition fb_counted :: "fb_softc \<Rightarrow> fb_softc \<Rightarrow> bool" where
  "fb_counted s t \<longleftrightarrow> fb_tx_rest s t \<and> f_trans_next t = f_trans_next s \<and> f_pending t = f_pending s \<and>
     fi_drv_flags t = fi_drv_flags s \<and> trace t = trace s \<and>
     (\<forall>j<fb_tx_size s. md1 (fb_tx_md t j) = md1 (fb_tx_md s j)) \<and>
     (\<forall>j<fb_tx_size s. j \<noteq> f_trans_next s \<longrightarrow> fb_tx_md t j = fb_tx_md s j) \<and>
     has (md3 (fb_tx_md t (f_trans_next s))) UFLO = has (md3 (fb_tx_md s (f_trans_next s))) UFLO"

lemma fb_counted_refl [simp]: "fb_counted s s"
  by (simp add: fb_counted_def)

lemma fb_counted_vars [simp]:
  "fb_counted s (t\<lparr>fi_oerrors := a\<rparr>) = fb_counted s t" "fb_counted s (t\<lparr>fi_collisions := a\<rparr>) = fb_counted s t"
  by (simp_all add: fb_counted_def)

lemma fb_counted_tbuff:
  assumes "fb_counted s t" "fb_geom s" "f_trans_next s < fb_tx_size s"
  shows "fb_counted s (clear_tbuff t)"
proof -
  have "fb_geom t" "f_trans_next t < fb_tx_size t" "fb_tx_size t = fb_tx_size s"
    using assms fb_tx_rest_geom(1)[of s t] by (simp_all add: fb_counted_def fb_tx_rest_def)
  from clear_tbuff_facts[OF this(1,2)] this(3) assms(1) show ?thesis by (simp add: fb_counted_def)
qed

lemma fb_clear_one:
  assumes i: "fb_tx_ok s" "0 < f_pending s" and c: "fb_counted s u"
  defines "v \<equiv> u\<lparr>f_trans_next := Suc (f_trans_next s) mod fb_tx_size s\<rparr>"
  shows "do_ring (fb_clear_md E) (f_ntdre s) (f_trans_next s) (f_trans_next v) v = Some (fb_clear_md E (f_trans_next s) v)"
    "fb_popped s (fb_clear_md E (f_trans_next s) v)" "fi_drv_flags (fb_clear_md E (f_trans_next s) v) = fi_drv_flags s"
    "trace (fb_clear_md E (f_trans_next s) v) = trace s"
proof -
  let ?n = "f_trans_next s"
  have n: "?n < fb_tx_size s" using i by (simp add: fb_tx_ok_def)
  have r: "fb_tx_rest s u" "f_pending u = f_pending s" "fi_drv_flags u = fi_drv_flags s" "trace u = trace s"
    using c by (simp_all add: fb_counted_def)
  have w: "fb_clear_md E ?n v = (upd_fb_tx ?n (\<lambda>d. d\<lparr>md1 := md1 d AND HADR\<rparr>) v)\<lparr>f_pending := f_pending s - 1\<rparr>"
    using i r by (simp add: fb_clear_md_def v_def Let_def upd_fb_tx_def upd_lmds_def fb_tx_ok_def fb_tx_rest_def)
  show "do_ring (fb_clear_md E) (f_ntdre s) ?n (f_trans_next v) v = Some (fb_clear_md E ?n v)"
    unfolding v_def by (simp add: do_ring_one[OF n])
  have g: "fb_geom v" "f_ntdre v = f_ntdre s"
    using i r fb_tx_rest_geom(1)[of s v] by (simp_all add: v_def fb_tx_ok_def fb_tx_rest_def)
  have md: "fb_tx_md v j = fb_tx_md u j" for j by (simp add: v_def)
  show "fb_popped s (fb_clear_md E ?n v)"
    unfolding w using c n fb_md_upd(2)[OF g(1), unfolded g(2)]
    by (simp add: fb_popped_def fb_counted_def cleared_flags md) (simp add: v_def upd_fb_tx_def upd_lmds_def)
  show "fi_drv_flags (fb_clear_md E ?n v) = fi_drv_flags s" "trace (fb_clear_md E ?n v) = trace s"
    unfolding w using r by (simp_all add: v_def upd_fb_tx_def upd_lmds_def)
qed

lemma fb_popped_flags: "fb_popped s (t\<lparr>fi_drv_flags := a\<rparr>) = fb_popped s t"
  by (simp add: fb_popped_def)

lemma fb_tint_packet_pop:
  assumes i: "fb_tx_ok s" "0 < f_pending s" and nu: "\<not> fb_uflo s (f_trans_next s)"
  shows "\<exists>t. fb_tint_packet E K la s = Some (FbNext t) \<and> fb_popped s t \<and>
     fi_drv_flags t = fi_drv_flags s AND NOT (bk_IFF_DRV_OACTIVE K) \<and> trace t = trace s"
proof -
  let ?n = "f_trans_next s" and ?m = "Suc (f_trans_next s) mod fb_tx_size s"
  have n: "?n < fb_tx_size s" and g: "fb_geom s" using i by (simp_all add: fb_tx_ok_def)
  have "?n \<in> set (fb_tx_slots s)" by (simp add: fb_tx_slots_head[OF i])
  then have f: "fb_tint_find_end E K la s = Some (FbNext s)"
    using i by (simp add: fb_tint_find_end_def has_mask_or fb_tx_ok_def)
  have "\<exists>u. fb_counted s u \<and> (if has (md1 (fb_tx_md s ?n)) MDERR then fb_tint_error E K s else Some (FbNext (fb_tint_sent s)))
      = Some (FbNext (u\<lparr>f_trans_next := ?m\<rparr>))"
  proof (cases "has (md1 (fb_tx_md s ?n)) MDERR")
    case False
    have "fb_tint_sent s = ((fb_tint_sent s)\<lparr>f_trans_next := ?n\<rparr>)\<lparr>f_trans_next := ?m\<rparr>"
      "fb_counted s ((fb_tint_sent s)\<lparr>f_trans_next := ?n\<rparr>)"
      by (simp_all add: fb_tint_sent_def Let_def LNC_INC_mod[OF n] fb_counted_def)
    with False show ?thesis by metis
  next
    case True
    define a where "a = s\<lparr>fi_oerrors := fi_oerrors s + 1\<rparr>"
    define b where "b = (if has (md3 (fb_tx_md a ?n)) LCOL then clear_tbuff (a\<lparr>fi_collisions := fi_collisions a + 1\<rparr>) else a)"
    define c where "c = (if has (md3 (fb_tx_md b ?n)) RTRY then clear_tbuff (b\<lparr>fi_collisions := fi_collisions b + 16\<rparr>) else b)"
    have "fb_counted s a" by (simp add: a_def)
    then have "fb_counted s b" by (simp add: b_def fb_counted_tbuff[OF _ g n])
    then have cc: "fb_counted s c" by (simp add: c_def fb_counted_tbuff[OF _ g n])
    then have sel: "f_ntdre c = f_ntdre s" "f_trans_next c = ?n" "f_next_to_send c = f_next_to_send s"
      by (simp_all add: fb_counted_def fb_tx_rest_def)
    have "\<not> has (md3 (fb_tx_md c ?n)) UFLO" using cc nu True by (simp add: fb_counted_def fb_uflo_def)
    moreover have "has (md1 (fb_tx_md c ?m)) STP \<or> ?m = f_next_to_send c"
    proof (cases "f_pending s = 1")
      case True
      then show ?thesis using i sel by (simp add: fb_tx_ok_def)
    next
      case False
      with i(2) have "nat (f_pending s - 1) = Suc (nat (f_pending s - 2))" by arith
      then have "?m \<in> set (fb_tx_slots s)" using fb_tx_slots_head[OF i] by (simp add: cyc_seg_Suc)
      then show ?thesis using i cc fb_tx_slots_less[of ?m s] by (auto simp: fb_tx_ok_def fb_counted_def)
    qed
    then have "find_where (\<lambda>i. has (md1 (fb_tx_md c i)) STP \<or> i = f_next_to_send c) (f_ntdre c) ?n = Some ?m"
      using find_where_next[OF n, of "\<lambda>i. has (md1 (fb_tx_md c i)) STP \<or> i = f_next_to_send c"] sel by simp
    ultimately have "fb_tint_error E K s = Some (FbNext (c\<lparr>f_trans_next := ?m\<rparr>))"
      unfolding fb_tint_error_def Let_def a_def[symmetric] b_def[symmetric] c_def[symmetric] sel by simp
    with True cc show ?thesis by auto
  qed
  then obtain u where u: "fb_counted s u" and e: "(if has (md1 (fb_tx_md s ?n)) MDERR then fb_tint_error E K s
      else Some (FbNext (fb_tint_sent s))) = Some (FbNext (u\<lparr>f_trans_next := ?m\<rparr>))" by blast
  have "f_ntdre u = f_ntdre s" using u by (simp add: fb_counted_def fb_tx_rest_def)
  with e have "fb_tint_packet E K la s = Some (FbNext ((fb_clear_md E ?n (u\<lparr>f_trans_next := ?m\<rparr>))
      \<lparr>fi_drv_flags := fi_drv_flags s AND NOT (bk_IFF_DRV_OACTIVE K)\<rparr>))"
    using fb_clear_one(1,3)[OF i u] by (simp add: fb_tint_packet_def f)
  with fb_clear_one(2,4)[OF i u] show ?thesis by (simp add: fb_popped_flags)
qed

subsection \<open>The interrupt\<close>

text \<open>The packets the interrupt takes out: the first, and those behind it that the chip has finished.\<close>

definition fb_released :: "fb_softc \<Rightarrow> nat" where
  "fb_released s = Suc (length (takeWhile (\<lambda>j. \<not> has (md1 (fb_tx_md s j)) OWN) (tl (fb_tx_slots s))))"

definition fb_reclaimed :: "bsd \<Rightarrow> fb_softc \<Rightarrow> nat \<Rightarrow> fb_softc \<Rightarrow> bool" where
  "fb_reclaimed K s r t \<longleftrightarrow> fb_tx_ok t \<and> fb_tx_rest s t \<and> fb_tx_slots t = drop r (fb_tx_slots s) \<and>
     f_pending t = f_pending s - int r \<and> fi_drv_flags t = fi_drv_flags s AND NOT (bk_IFF_DRV_OACTIVE K) \<and>
     (\<forall>j\<in>set (fb_tx_slots t). fb_tx_md t j = fb_tx_md s j)"

lemma fb_popped_reclaimed:
  assumes "fb_tx_ok s" "0 < f_pending s" "fb_popped s t" "fi_drv_flags t = fi_drv_flags s AND NOT (bk_IFF_DRV_OACTIVE K)"
  shows "fb_reclaimed K s 1 t"
  using assms(3,4) fb_popped_ok[OF assms(1-3)] fb_tx_slots_less[of _ s] by (auto simp: fb_reclaimed_def fb_popped_def)

lemma fb_reclaimed_trans:
  assumes "fb_reclaimed K s a t" "fb_reclaimed K t b u"
  shows "fb_reclaimed K s (a + b) u"
  using assms fb_tx_rest_trans[of s t u] set_drop_subset[of b "fb_tx_slots t"]
  by (auto simp: fb_reclaimed_def and.assoc add.commute)

lemma fb_tint_loop_released:
  assumes "fb_tx_ok s" "0 < f_pending s" "\<forall>j\<in>set (fb_tx_slots s). \<not> fb_uflo s j"
  shows "\<exists>t. fb_tint_loop E K la s = Some (True, t) \<and> fb_reclaimed K s (fb_released s) t \<and> trace t = trace s"
  using assms
proof (induction "nat (f_pending s)" arbitrary: s la rule: less_induct)
  case less
  note i = less.prems(1,2)
  have "\<not> fb_uflo s (f_trans_next s)" using less.prems(3) by (simp add: fb_tx_slots_head[OF i])
  from fb_tint_packet_pop[OF i this, of E K la] obtain t where t: "fb_tint_packet E K la s = Some (FbNext t)" "fb_popped s t"
    "fi_drv_flags t = fi_drv_flags s AND NOT (bk_IFF_DRV_OACTIVE K)" "trace t = trace s" by blast
  note ok = fb_popped_ok[OF i t(2)]
  have p: "f_pending t = f_pending s - 1" using t(2) by (simp add: fb_popped_def)
  have one: "fb_reclaimed K s 1 t" by (rule fb_popped_reclaimed[OF i t(2,3)])
  then have md: "\<forall>j\<in>set (fb_tx_slots t). fb_tx_md t j = fb_tx_md s j" by (simp add: fb_reclaimed_def)
  have tl: "tl (fb_tx_slots s) = fb_tx_slots t" by (simp add: ok(2))
  show ?case
  proof (cases "f_pending t \<noteq> 0 \<and> \<not> has (md1 (fb_tx_md t (f_trans_next t))) OWN")
    case True
    then have pt: "0 < f_pending t" using p i(2) by simp
    note h = fb_tx_slots_head[OF ok(1) pt]
    have "\<forall>j\<in>set (fb_tx_slots t). \<not> fb_uflo t j" using less.prems(3) md ok(2) by (simp add: fb_uflo_def)
    from less.hyps[OF _ ok(1) pt this, of "la + 1"] p i(2) obtain u where
      u: "fb_tint_loop E K (la + 1) t = Some (True, u)" "fb_reclaimed K t (fb_released t) u" "trace u = trace t" by auto
    have "takeWhile (\<lambda>j. \<not> has (md1 (fb_tx_md s j)) OWN) (fb_tx_slots t) = takeWhile (\<lambda>j. \<not> has (md1 (fb_tx_md t j)) OWN) (fb_tx_slots t)"
      by (rule takeWhile_cong) (use md in simp_all)
    also have "\<dots> = f_trans_next t # takeWhile (\<lambda>j. \<not> has (md1 (fb_tx_md t j)) OWN) (tl (fb_tx_slots t))"
      using True by (simp add: h)
    finally have "fb_released s = 1 + fb_released t" by (simp add: fb_released_def tl)
    with fb_reclaimed_trans[OF one u(2)] u(1,3) t(1,4) True show ?thesis by (subst fb_tint_loop.simps) simp
  next
    case False
    have "takeWhile (\<lambda>j. \<not> has (md1 (fb_tx_md s j)) OWN) (fb_tx_slots t) = []"
    proof (cases "f_pending t = 0")
      case True
      then show ?thesis by (simp add: fb_tx_slots_def)
    next
      case nz: False
      then have "fb_tx_slots t = f_trans_next t # tl (fb_tx_slots t)"
        using fb_tx_slots_head[OF ok(1)] p i(2) by simp
      with False nz md show ?thesis by (metis list.set_intros(1) takeWhile.simps(2))
    qed
    then have "fb_released s = 1" by (simp add: fb_released_def tl)
    with one t(1,4) False show ?thesis by (subst fb_tint_loop.simps) auto
  qed
qed

subsection \<open>One round of the interrupt handler\<close>

text \<open>Output keeps the invariant: the new packets follow those in the ring.\<close>

lemma fb_sent_upto_ok:
  assumes "fb_tx_ok s" "fb_sent_upto K s pkts k t" "f_pending s + int k \<le> int (fb_tx_size s)"
  shows "fb_tx_ok t" "fb_tx_slots t = fb_tx_slots s @ cyc_seg (fb_tx_size s) (f_next_to_send s) k"
    "\<forall>j\<in>set (fb_tx_slots s). fb_slot_same s t j"
proof -
  let ?N = "fb_tx_size s" and ?sl = "cyc_seg (fb_tx_size s) (f_next_to_send s) k"
  have T: "f_pending t = f_pending s + int k" "f_next_to_send t = (f_next_to_send s + k) mod ?N" "f_trans_ring t = f_trans_ring s"
    "f_ntdre t = f_ntdre s" "f_trans_next t = f_trans_next s" "f_recv_ring t = f_recv_ring s" "f_nrdre t = f_nrdre s"
    "f_mem_mode t = f_mem_mode s" "list_all2 (fb_slot_holds t) ?sl (map (fb_pkt_bytes s) (take k pkts))"
    "\<forall>j<?N. j \<notin> set ?sl \<longrightarrow> fb_slot_same s t j"
    using assms(2) unfolding fb_sent_upto_def Let_def by simp_all
  have S: "0 \<le> f_pending s" "f_next_to_send s = (f_trans_next s + nat (f_pending s)) mod ?N"
    using assms(1) by (simp_all add: fb_tx_ok_def)
  have n: "nat (f_pending t) = nat (f_pending s) + k" using T(1) S(1) by simp
  show slots: "fb_tx_slots t = fb_tx_slots s @ ?sl"
    unfolding fb_tx_slots_def T(4,5) n cyc_seg_append S(2) ..
  have "distinct (fb_tx_slots t)"
    unfolding fb_tx_slots_def by (rule cyc_seg_distinct) (use assms(3) T(1,4) S(1) in simp)
  then have apart: "set (fb_tx_slots s) \<inter> set ?sl = {}" by (simp add: slots)
  show same: "\<forall>j\<in>set (fb_tx_slots s). fb_slot_same s t j"
    using T(10) apart fb_tx_slots_less[of _ s] by blast
  have new: "has (md1 (fb_tx_md t j)) STP \<and> has (md1 (fb_tx_md t j)) ENP" if "j \<in> set ?sl" for j
  proof -
    from that have "\<exists>i<length ?sl. ?sl ! i = j" by (simp only: in_set_conv_nth)
    then obtain i where i: "i < length ?sl" "?sl ! i = j" by (elim exE conjE)
    from list_all2_nthD[OF T(9) i(1)] show ?thesis unfolding i(2) by (simp add: fb_slot_holds_def)
  qed
  have "has (md1 (fb_tx_md t j)) STP \<and> has (md1 (fb_tx_md t j)) ENP" if "j \<in> set (fb_tx_slots t)" for j
    using that new same assms(1) by (auto simp: slots fb_slot_same_def fb_tx_ok_def)
  moreover have "\<not> has (md1 (fb_tx_md t j)) (STP OR OWN OR ENP OR MDERR)" if "j < ?N" "j \<notin> set (fb_tx_slots t)" for j
    using that T(10) assms(1) by (auto simp: slots fb_slot_same_def fb_tx_ok_def)
  moreover have "f_next_to_send t = (f_trans_next t + nat (f_pending t)) mod ?N"
    unfolding n T(2,5) S(2) by (simp add: mod_simps add.assoc)
  moreover have "fb_geom t" "fb_tx_buffers_apart t"
    using assms(1) T(3-7) by (simp_all add: fb_tx_ok_def fb_geom_def fb_tx_buffers_apart_def)
  ultimately show "fb_tx_ok t" using assms(1,3) T(1,4,5,8) by (simp add: fb_tx_ok_def)
qed

lemma fb_tx_trace [simp]:
  "fb_tx_slots (s\<lparr>trace := h\<rparr>) = fb_tx_slots s" "fb_tx_ok (s\<lparr>trace := h\<rparr>) = fb_tx_ok s"
  by (simp_all add: fb_tx_slots_def fb_tx_ok_def fb_geom_def fb_tx_buffers_apart_def)

text \<open>Freshly initialised rings are empty; what \<open>lnc_init\<close> then sends keeps the invariant.\<close>

lemma fb_fresh_tx_ok:
  assumes "fb_fresh K s" "fb_tx_buffers_apart s" "f_mem_mode s = DMA_FIXED"
  shows "fb_tx_ok s" "fb_tx_slots s = []"
proof -
  have "ucast (x AND 0xff) = (ucast x AND HADR :: u16)" for x :: u32 by (simp add: HADR_def unsigned_and_eq)
  then have "\<not> has (md1 (fixed_tx_desc K p)) (STP OR OWN OR ENP OR MDERR)" for p by (simp add: fixed_tx_desc_def cleared_flags)
  then show "fb_tx_ok s" "fb_tx_slots s = []"
    using assms by (simp_all add: fb_tx_ok_def fb_fresh_def fb_descs_fresh_def fb_tx_slots_def)
qed

lemma fb_init_tx_ok:
  assumes "length (f_recv_ring s) = LNC_NDESC (f_nrdre s)" "length (f_trans_ring s) = LNC_NDESC (f_ntdre s)"
    "f_mem_mode s = DMA_FIXED" "fb_mem_size (f_nrdre s) (f_ntdre s) \<le> 2 ^ 32" "quiet_chip E"
    "fb_init_chip E K s = (True, u)" "list_all2 (fb_pkt_outside s) (fi_snd s) pkts"
  shows "\<exists>t. fb_lnc_init E K s = Some t \<and> fb_sent_upto K u pkts (min (length pkts) (LNC_NDESC (f_ntdre s))) t \<and>
     map (fb_pkt_bytes u) pkts = map (fb_pkt_bytes s) pkts \<and> fb_tx_ok t"
proof -
  have u: "u = snd (fb_init_chip E K s)" by (simp add: assms(6))
  have sound: "fb_areas_ok u" "fb_fresh K u" using fb_init_chip_sound[OF assms(1-4), of E K] assms(5) u by simp_all
  have geo: "f_ntdre u = f_ntdre s" using fb_init_chip_geometry[OF assms(1-3), of E K] u by simp
  have "fb_tx_ok u"
    using fb_fresh_tx_ok(1)[OF sound(2)] fb_areas_ok_buffers(1)[OF sound(1)] fb_init_chip_kernel[OF assms(3,5), of K] sound(2) u
    by (simp add: fb_fresh_def)
  moreover have "f_pending u + int (min (length pkts) (LNC_NDESC (f_ntdre s))) \<le> int (fb_tx_size u)"
    using sound(2) geo by (simp add: fb_fresh_def)
  ultimately show ?thesis using fb_init_sends[OF assms] fb_sent_upto_ok(1) by blast
qed

text \<open>What one round does for a transmit interrupt: the finished packets go, queued ones follow.\<close>

definition fb_cycled :: "bsd \<Rightarrow> fb_softc \<Rightarrow> u32 list list \<Rightarrow> nat \<Rightarrow> nat \<Rightarrow> fb_softc \<Rightarrow> bool" where
  "fb_cycled K s pkts r k t \<longleftrightarrow> (let new = cyc_seg (fb_tx_size s) (f_next_to_send s) k in
     fb_tx_ok t \<and> fb_tx_slots t = drop r (fb_tx_slots s) @ new \<and> fi_snd t = drop k (fi_snd s) \<and>
     fi_drv_flags t = (fi_drv_flags s AND NOT (bk_IFF_DRV_OACTIVE K)) OR
       (if length (fb_tx_slots t) = fb_tx_size s then bk_IFF_DRV_OACTIVE K else 0) \<and>
     (\<forall>j\<in>set (drop r (fb_tx_slots s)). fb_slot_same s t j) \<and>
     list_all2 (fb_slot_holds t) new (map (fb_pkt_bytes s) (take k pkts)))"

lemma fb_tint_cycle:
  assumes q: "quiet_chip E" and i: "fb_tx_ok s" "0 < f_pending s" "\<forall>j\<in>set (fb_tx_slots s). \<not> fb_uflo s j"
    and pk: "list_all2 (fb_pkt_ok s) (fi_snd s) pkts"
  shows "\<exists>t. do { s \<leftarrow> fb_lnc_tint E K s; if has (fi_drv_flags s) (bk_IFF_DRV_OACTIVE K) then Some s else fb_lnc_start E K s } = Some t \<and>
     fb_cycled K s pkts (fb_released s) (min (length pkts) (fb_tx_size s - length (fb_tx_slots s) + fb_released s)) t"
proof -
  let ?r = "fb_released s" and ?N = "fb_tx_size s"
  obtain t0 where t0: "fb_tint_loop E K 0 s = Some (True, t0)" "fb_reclaimed K s ?r t0"
    using fb_tint_loop_released[OF i, of E K 0] by blast
  define t where "t = t0\<lparr>trace := Out16 (f_rdp t0) (TINT OR INEA) # trace t0\<rparr>"
  have tint: "fb_lnc_tint E K s = Some t"
    by (simp add: fb_lnc_tint_def t0(1) csrWrite16_def quiet_emit[OF q] t_def)
  have R: "fb_tx_rest s t" "fb_tx_slots t = drop ?r (fb_tx_slots s)" "f_pending t = f_pending s - int ?r" "fb_tx_ok t"
    "fi_drv_flags t = fi_drv_flags s AND NOT (bk_IFF_DRV_OACTIVE K)" "\<forall>j\<in>set (fb_tx_slots t). fb_tx_md t j = fb_tx_md s j"
    using t0(2) by (simp_all add: fb_reclaimed_def t_def)
  have len: "length (fb_tx_slots s) = nat (f_pending s)" by (simp add: fb_tx_slots_def)
  have same: "f_ntdre t = f_ntdre s" "f_mb t = f_mb s" "fi_snd t = fi_snd s" "f_next_to_send t = f_next_to_send s"
    "ram (mem t) = ram (mem s)" "f_trans_ring t = f_trans_ring s"
    using R(1) by (simp_all add: fb_tx_rest_def)
  have P: "0 \<le> f_pending t" "f_pending t < int ?N"
    using R(3,4) i same(1) by (simp_all add: fb_tx_ok_def fb_released_def)
  have "fb_pkt_ok t = fb_pkt_ok s" by (intro ext) (simp add: fb_pkt_ok_def chain_apart_def same)
  then have "fb_send_ok t pkts" using R(4) pk P same by (simp add: fb_send_ok_def fb_tx_ok_def)
  from fb_start_sends[OF q this P(1), of K] P(2) same(1) obtain u where
    u: "fb_lnc_start E K t = Some u" "fb_sent_upto K t pkts (min (length pkts) (nat (int ?N - f_pending t))) u" by auto
  have k: "nat (int ?N - f_pending t) = ?N - length (fb_tx_slots s) + ?r"
  proof -
    have "f_pending s \<le> int ?N" using i(1) by (simp add: fb_tx_ok_def)
    with R(3) P i(2) show ?thesis unfolding len by arith
  qed
  let ?k = "min (length pkts) (?N - length (fb_tx_slots s) + ?r)"
  have "f_pending t + int ?k \<le> int (fb_tx_size t)" unfolding k[symmetric] same(1) using P by linarith
  note ok = fb_sent_upto_ok[OF R(4) u(2)[unfolded k] this]
  have bytes: "fb_pkt_bytes t ms = fb_pkt_bytes s ms" for ms by (simp add: fb_pkt_bytes_def same)
  have "fb_slot_same s u j" if "j \<in> set (fb_tx_slots t)" for j
    using that ok(3) R(6) by (simp add: fb_slot_same_def same)
  moreover have "fi_snd u = drop ?k (fi_snd s)" "list_all2 (fb_slot_holds u) (cyc_seg ?N (f_next_to_send s) ?k) (map (fb_pkt_bytes s) (take ?k pkts))"
    using u(2)[unfolded k] by (simp_all add: fb_sent_upto_def Let_def same bytes cong: map_cong)
  moreover have "fi_drv_flags u = (fi_drv_flags s AND NOT (bk_IFF_DRV_OACTIVE K)) OR
      (if length (fb_tx_slots u) = ?N then bk_IFF_DRV_OACTIVE K else 0)"
  proof -
    have "0 \<le> f_pending u" using ok(1) by (simp add: fb_tx_ok_def)
    then have "length (fb_tx_slots u) = ?N \<longleftrightarrow> f_pending u = int ?N" by (auto simp: fb_tx_slots_def)
    moreover have "fi_drv_flags u = (if f_pending u = int ?N then fi_drv_flags t OR bk_IFF_DRV_OACTIVE K else fi_drv_flags t)"
      using u(2) by (simp add: fb_sent_upto_def Let_def same)
    ultimately show ?thesis by (simp add: R(5))
  qed
  ultimately have "fb_cycled K s pkts ?r ?k u"
    using ok(1,2) R(2) same unfolding fb_cycled_def Let_def by simp
  moreover have "\<not> has (fi_drv_flags t) (bk_IFF_DRV_OACTIVE K)" by (simp add: R(5))
  ultimately show ?thesis using tint u(1) by auto
qed

lemma fb_timer_same [simp]:
  "fb_tx_slots (s\<lparr>fi_timer := n\<rparr>) = fb_tx_slots s" "fb_tx_ok (s\<lparr>fi_timer := n\<rparr>) = fb_tx_ok s"
  "fb_uflo (s\<lparr>fi_timer := n\<rparr>) j = fb_uflo s j" "fb_released (s\<lparr>fi_timer := n\<rparr>) = fb_released s"
  "fb_pkt_ok (s\<lparr>fi_timer := n\<rparr>) = fb_pkt_ok s" "fb_pkt_bytes (s\<lparr>fi_timer := n\<rparr>) = fb_pkt_bytes s"
  "fb_slot_same (s\<lparr>fi_timer := n\<rparr>) t j = fb_slot_same s t j"
  by (simp_all add: fb_tx_slots_def fb_tx_ok_def fb_geom_def fb_tx_buffers_apart_def fb_uflo_def fb_released_def fb_pkt_ok_def
      chain_apart_def fb_pkt_bytes_def fb_slot_same_def fun_eq_iff)

lemma fb_pass_cycle:
  assumes "quiet_chip E" "fb_tx_ok s" "0 < f_pending s" "\<forall>j\<in>set (fb_tx_slots s). \<not> fb_uflo s j"
    and "list_all2 (fb_pkt_ok s) (fi_snd s) pkts" "has csr0 TINT" "\<not> has csr0 RINT" "\<not> has csr0 ERR"
  shows "\<exists>t. fb_intr_pass E K csr0 s = Some t \<and>
     fb_cycled K s pkts (fb_released s) (min (length pkts) (fb_tx_size s - length (fb_tx_slots s) + fb_released s)) t"
  using fb_tint_cycle[OF assms(1), of "s\<lparr>fi_timer := 0\<rparr>" pkts K] assms(2-8)
  by (simp add: fb_intr_pass_def fb_cycled_def Let_def)

end
