(* ===== verification/Fbsd_Rx.thy ===== *)
theory Fbsd_Rx
  imports Fbsd_Send
begin

text \<open>
  Reception of the FreeBSD driver in the mode that copies packets: a good packet of one descriptor
  goes into a header mbuf and, when it is longer than the room there, a second mbuf, and up to the
  network stack unless the driver sent it itself; the descriptor goes back to the chip. The receive
  interrupt does so for every filled slot ahead, in ring order, and stops behind them.
\<close>

unbundle bit_operations_syntax

subsection \<open>The mbufs of a packet\<close>

text \<open>The two mbufs as they are allocated: the header, and the one for the rest of the packet.\<close>

definition mb_head :: "bsd \<Rightarrow> history \<Rightarrow> bsd_mbuf" where
  "mb_head K h = (bk_mbuf K h)\<lparr>m_pkthdr := True, m_len := 0\<rparr>"

definition mb_rest :: "bsd \<Rightarrow> int \<Rightarrow> history \<Rightarrow> bsd_mbuf" where
  "mb_rest K rest h =
     (let d = bk_mbuf K h; b = bk_mclget K (Kernel ''MGET'' # h)
      in (if bk_MINCLSIZE K \<le> rest then d\<lparr>m_ext_buf := b, m_ext := True, m_data := b\<rparr> else d)\<lparr>m_len := 0\<rparr>)"

text \<open>
  What the kernel promises of them: they are new, empty, not chained to others, apart from each other and
  from the receive buffer, and the second has room for what the first does not hold.
\<close>

definition mb_head_ok :: "bsd \<Rightarrow> history \<Rightarrow> u32 \<Rightarrow> bool" where
  "mb_head_ok K h buf \<longleftrightarrow> bk_mget K h \<noteq> 0 \<and> m_next (mb_head K h) = 0 \<and>
     0 < bk_trailingspace K (mb_head K h) \<and> bk_trailingspace K (mb_head K h) < 2 ^ 31 \<and>
     area_bytes (m_data (mb_head K h), nat (bk_trailingspace K (mb_head K h))) \<inter> area_bytes (buf, RECVBUFSIZE) = {}"

definition mb_rest_ok :: "bsd \<Rightarrow> history \<Rightarrow> u32 \<Rightarrow> int \<Rightarrow> bool" where
  "mb_rest_ok K h buf len \<longleftrightarrow>
     (let d = mb_head K h; room = bk_trailingspace K d; h' = Kernel ''MGETHDR'' # h; rest = len - room; d' = mb_rest K rest h' in
      bk_trailingspace K (d\<lparr>m_len := room\<rparr>) = 0 \<and> bk_mget K h' \<noteq> 0 \<and> bk_mget K h' \<noteq> bk_mget K h \<and> m_next d' = 0 \<and>
      (bk_MINCLSIZE K \<le> rest \<longrightarrow> bk_mclget K (Kernel ''MGET'' # h') \<noteq> 0) \<and>
      rest \<le> bk_trailingspace K d' \<and> bk_trailingspace K d' < 2 ^ 31 \<and>
      area_bytes (m_data d', nat rest) \<inter> area_bytes (buf, RECVBUFSIZE) = {} \<and>
      area_bytes (m_data d', nat rest) \<inter> area_bytes (m_data d, nat room) = {})"

definition mb_chain :: "bsd \<Rightarrow> history \<Rightarrow> int \<Rightarrow> u32 list" where
  "mb_chain K h len = (if len \<le> bk_trailingspace K (mb_head K h) then [bk_mget K h]
     else [bk_mget K h, bk_mget K (Kernel ''MGETHDR'' # h)])"

subsection \<open>The copy\<close>

lemma umin_small: "0 \<le> a \<Longrightarrow> a < 2 ^ 31 \<Longrightarrow> 0 \<le> b \<Longrightarrow> b < 2 ^ 31 \<Longrightarrow> umin a b = min a b"
  by (simp add: umin_def take_bit_int_eq_self signed_take_bit_int_eq_self min_def)

lemma c_short_small: "0 \<le> a \<Longrightarrow> a < 32768 \<Longrightarrow> c_short a = a"
  by (simp add: c_short_def signed_take_bit_int_eq_self)

lemma ram_copy_area:
  assumes "0 \<le> n" "n < 2 ^ 32"
  shows "ram_copy src dst n s = s\<lparr>mem := (mem s)\<lparr>ram := poke dst (area_data (ram (mem s)) (src, nat n)) (ram (mem s))\<rparr>\<rparr>"
  using ram_copy_poke[of "d\<lparr>m_data := src, m_len := n\<rparr>" dst s for d] assms by (simp add: mbuf_area_def)

text \<open>The last step: the mbuf \<open>copy_space\<close> finds takes the rest of the packet.\<close>

lemma copy_step_last:
  assumes "i \<noteq> f_recv_next s" "0 < len" "len < 32768" "len \<le> blen" "LNC_INC_MD_PTR i (f_nrdre s) = f_recv_next s"
    and c: "copy_space E K len len m mbuf_data s = (Some (m', len, to), u)" "f_recv_next u = f_recv_next s" "f_nrdre u = f_nrdre s"
  shows "fb_copy_packet E K head i len blen m data mbuf_data s =
     Some (head, fb_return_md i (upd_mb m' (\<lambda>d. d\<lparr>m_len := m_len d + len\<rparr>) (ram_copy data to len u)))"
proof -
  have b: "(if len < blen then c_short len else blen) = len" using assms(2-4) by (simp add: c_short_small)
  define t where "t = fb_return_md i (upd_mb m' (\<lambda>d. d\<lparr>m_len := m_len d + len\<rparr>) (ram_copy data to len u))"
  have r: "f_recv_next t = f_recv_next s" "f_nrdre t = f_nrdre s"
    using c(2,3) by (simp_all add: t_def fb_return_md_def Let_def upd_fb_rx_def upd_lmds_def upd_mb_def ram_copy_def)
  have "c_short 0 = 0" by (simp add: c_short_def)
  then have "fb_copy_packet E K head i len blen m data mbuf_data s =
     fb_copy_packet E K head (f_recv_next s) 0 (int RECVBUFSIZE) m' (fre_buff (f_recv_ring t ! f_recv_next s)) (to + of_int len) t"
    using assms(1,5) by (subst fb_copy_packet.simps) (simp add: b c Let_def t_def[symmetric] r)
  also have "\<dots> = Some (head, t)" by (subst fb_copy_packet.simps) (simp add: r)
  finally show ?thesis by (simp add: t_def)
qed

text \<open>A step that fills the mbuf and leaves a rest.\<close>

lemma copy_step_fills:
  assumes "i \<noteq> f_recv_next s" "0 < room" "room < len" "len < 32768" "len \<le> blen" "bk_trailingspace K (f_mb s m) = room"
  shows "fb_copy_packet E K head i len blen m data mbuf_data s =
     fb_copy_packet E K head i (len - room) (len - room) m (data + of_int room) (mbuf_data + of_int room)
       (upd_mb m (\<lambda>d. d\<lparr>m_len := m_len d + room\<rparr>) (ram_copy data mbuf_data room s))"
proof -
  have b: "(if len < blen then c_short len else blen) = len" using assms(2-5) by (simp add: c_short_small)
  have "umin len room = room" using assms(2-4) by (simp add: umin_small)
  then have c: "copy_space E K len len m mbuf_data s = (Some (m, room, mbuf_data), s)" using assms(2,6) by (simp add: copy_space_def)
  have "c_short (len - room) = len - room" using assms(2-4) by (simp add: c_short_small)
  then show ?thesis using assms(1,3) by (subst fb_copy_packet.simps) (simp add: b c Let_def)
qed

text \<open>A new mbuf behind a full one.\<close>

definition mb_chained :: "bsd \<Rightarrow> int \<Rightarrow> u32 \<Rightarrow> fb_softc \<Rightarrow> fb_softc" where
  "mb_chained K rest m s = upd_mb m (\<lambda>d. d\<lparr>m_next := bk_mget K (trace s)\<rparr>)
     (upd_mb (bk_mget K (trace s)) (\<lambda>_. mb_rest K rest (trace s))
       (s\<lparr>trace := (if bk_MINCLSIZE K \<le> rest then [Kernel ''MCLGET''] else []) @ Kernel ''MGET'' # trace s\<rparr>))"

lemma copy_space_new:
  assumes "quiet_chip E" "bk_trailingspace K (f_mb s m) = 0" "0 < rest" "rest < 32768"
    and new: "bk_mget K (trace s) \<noteq> 0" "bk_mget K (trace s) \<noteq> m" "bk_MINCLSIZE K \<le> rest \<longrightarrow> bk_mclget K (Kernel ''MGET'' # trace s) \<noteq> 0"
    and room: "rest \<le> bk_trailingspace K (mb_rest K rest (trace s))" "bk_trailingspace K (mb_rest K rest (trace s)) < 2 ^ 31"
  shows "copy_space E K rest rest m to s =
     (Some (bk_mget K (trace s), rest, m_data (mb_rest K rest (trace s))), mb_chained K rest m s)"
proof -
  let ?a = "bk_mget K (trace s)"
  have z: "umin rest 0 = 0" using assms(3,4) by (simp add: umin_small)
  have "umin rest (bk_trailingspace K (mb_rest K rest (trace s))) = rest" using assms(3,4) room by (simp add: umin_small)
  moreover have "f_mb (mb_chained K rest m s) ?a = mb_rest K rest (trace s)" using new(2) by (simp add: mb_chained_def upd_mb_def)
  moreover have "(let (new, u) = MGET E K s; u = (if bk_MINCLSIZE K \<le> rest then MCLGET E K new u else u); u = upd_mb new (\<lambda>d. d\<lparr>m_len := 0\<rparr>) u
      in upd_mb m (\<lambda>d. d\<lparr>m_next := new\<rparr>) u) = mb_chained K rest m s"
    using new by (simp add: MGET_def MCLGET_def quiet_emit[OF assms(1)] Let_def mb_chained_def mb_rest_def upd_mb_def)
  ultimately show ?thesis
    using assms(2) new(1) by (simp add: copy_space_def z Let_def split_def MGET_def)
qed

subsection \<open>A packet in mbufs\<close>

lemma area_data_split:
  assumes "0 \<le> a" "0 \<le> b"
  shows "area_data r (p, nat (a + b)) = area_data r (p, nat a) @ area_data r (p + of_int a, nat b)"
proof -
  have a: "of_nat (nat a) = (of_int a :: u32)" using assms(1) by (metis of_int_of_nat_eq int_nat_eq)
  have "[0..<nat a + nat b] = [0..<nat a] @ [nat a..<nat a + nat b]" by (rule upt_add_eq_append) simp
  moreover have "[nat a..<nat a + nat b] = map (\<lambda>k. k + nat a) [0..<nat b]" by (simp only: map_add_upt add.commute[of "nat b"])
  moreover have "nat (a + b) = nat a + nat b" using assms by (rule nat_add_distrib)
  ultimately show ?thesis unfolding area_data_def fst_conv snd_conv by (simp only: map_append map_map comp_def of_nat_add a add_ac)
qed

lemma area_data_poke: "length bs \<le> 2 ^ 32 \<Longrightarrow> area_data (poke p bs r) (p, length bs) = bs"
  by (rule nth_equalityI) (simp_all add: area_data_def poke_hit)

lemma area_data_apart:
  assumes "area_bytes (q, n) \<inter> area_bytes (p, length bs) = {}"
  shows "area_data (poke p bs r) (q, n) = area_data r (q, n)"
  by (rule area_data_cong, rule poke_miss) (use assms in blast)

text \<open>Two copies, of the beginning and of the rest of a block, to places apart.\<close>

lemma area_data_two:
  fixes r :: "u32 \<Rightarrow> u8"
  assumes "0 \<le> a" "0 \<le> b" "a < 2 ^ 32" "b < 2 ^ 32"
    and "area_bytes (to2, nat b) \<inter> area_bytes (to1, nat a) = {}" "area_bytes (from + of_int a, nat b) \<inter> area_bytes (to1, nat a) = {}"
  defines "r1 \<equiv> poke to1 (area_data r (from, nat a)) r"
  defines "r2 \<equiv> poke to2 (area_data r1 (from + of_int a, nat b)) r1"
  shows "area_data r2 (to1, nat a) @ area_data r2 (to2, nat b) = area_data r (from, nat (a + b))"
proof -
  have v: "area_data r1 (from + of_int a, nat b) = area_data r (from + of_int a, nat b)"
    unfolding r1_def by (rule area_data_apart) (use assms(6) in simp)
  have "area_data r2 (to1, nat a) = area_data r1 (to1, nat a)"
    unfolding r2_def by (rule area_data_apart) (use assms(5) in auto)
  also have "\<dots> = area_data r (from, nat a)"
    using area_data_poke[of "area_data r (from, nat a)" to1 r] assms(3) by (simp add: r1_def)
  finally have "area_data r2 (to1, nat a) = area_data r (from, nat a)" .
  moreover have "area_data r2 (to2, nat b) = area_data r (from + of_int a, nat b)"
    using area_data_poke[of "area_data r1 (from + of_int a, nat b)" to2 r1] assms(4) by (simp add: r2_def v)
  ultimately show ?thesis using area_data_split[OF assms(1,2), of r "from"] by simp
qed

definition mb_only :: "fb_softc \<Rightarrow> fb_softc \<Rightarrow> bool" where
  "mb_only s t \<longleftrightarrow> t\<lparr>trace := trace s, mem := (mem t)\<lparr>ram := ram (mem s)\<rparr>, f_mb := f_mb s\<rparr> = s"

lemma mb_only_refl: "mb_only s s"
  by (simp add: mb_only_def)

lemma mb_only_intro:
  "mb_only s t \<Longrightarrow> mb_only s (upd_mb m f t)" "mb_only s t \<Longrightarrow> mb_only s (ram_copy src dst n t)"
  "mb_only s t \<Longrightarrow> mb_only s (t\<lparr>trace := h\<rparr>)" "mb_only s t \<Longrightarrow> mb_only s (mb_chained K rest m t)"
  by (simp_all add: mb_only_def upd_mb_def ram_copy_def mb_chained_def)

text \<open>The chain \<open>ms\<close> holds the bytes \<open>bs\<close>; those of its first mbuf are their beginning.\<close>

definition mb_holds :: "fb_softc \<Rightarrow> u32 list \<Rightarrow> u8 list \<Rightarrow> bool" where
  "mb_holds s ms bs \<longleftrightarrow> mchain (f_mb s) (hd ms) ms \<and> chain_data (f_mb s) (ram (mem s)) ms = bs"

text \<open>The mbufs a packet of this length needs are there.\<close>

definition mb_room :: "bsd \<Rightarrow> history \<Rightarrow> u32 \<Rightarrow> int \<Rightarrow> bool" where
  "mb_room K h buf len \<longleftrightarrow> mb_head_ok K h buf \<and> 12 \<le> bk_trailingspace K (mb_head K h) \<and>
     (bk_trailingspace K (mb_head K h) < len \<longrightarrow> mb_rest_ok K h buf len)"

text \<open>The copy leaves every other receive buffer as it is.\<close>

definition mb_spares :: "bsd \<Rightarrow> fb_softc \<Rightarrow> int \<Rightarrow> fb_softc \<Rightarrow> bool" where
  "mb_spares K s len t \<longleftrightarrow> (\<forall>b. mb_room K (trace s) b len \<longrightarrow>
     area_data (ram (mem t)) (b, RECVBUFSIZE) = area_data (ram (mem s)) (b, RECVBUFSIZE))"

lemma copied_one:
  assumes "quiet_chip E" "LNC_INC_MD_PTR i (f_nrdre s) = f_recv_next s" "i \<noteq> f_recv_next s"
    and len: "0 < len" "len \<le> int RECVBUFSIZE"
    and ok: "mb_head_ok K (trace s) (fre_buff (f_recv_ring s ! i))" and fits: "len \<le> bk_trailingspace K (mb_head K (trace s))"
  shows "\<exists>t. fb_mbuf_packet E K i len s = Some (bk_mget K (trace s), fb_return_md i t) \<and> mb_only s t \<and>
     mb_holds t [bk_mget K (trace s)] (area_data (ram (mem s)) (fre_buff (f_recv_ring s ! i), nat len)) \<and>
     m_data (f_mb t (bk_mget K (trace s))) = m_data (mb_head K (trace s)) \<and> m_len (f_mb t (bk_mget K (trace s))) = len \<and>
     mb_spares K s len t"
proof -
  let ?h = "trace s" and ?a = "bk_mget K (trace s)" and ?d = "mb_head K (trace s)" and ?buf = "fre_buff (f_recv_ring s ! i)"
  define s0 where "s0 = upd_mb ?a (\<lambda>_. ?d) (s\<lparr>trace := Kernel ''MGETHDR'' # ?h\<rparr>)"
  have H: "?a \<noteq> 0" "m_next ?d = 0" "bk_trailingspace K ?d < 2 ^ 31" using ok by (simp_all add: mb_head_ok_def)
  have sel: "f_recv_next s0 = f_recv_next s" "f_nrdre s0 = f_nrdre s" "f_mb s0 ?a = ?d" "f_recv_ring s0 = f_recv_ring s" "mem s0 = mem s"
    by (simp_all add: s0_def upd_mb_def)
  have l: "len < 32768" "len < 2 ^ 32" using len by (simp_all add: RECVBUFSIZE_def)
  have e: "fb_mbuf_packet E K i len s = fb_copy_packet E K ?a i len (int RECVBUFSIZE) ?a ?buf (m_data ?d) s0"
    using H(1) by (simp add: fb_mbuf_packet_def MGETHDR_def quiet_emit[OF assms(1)] Let_def s0_def upd_mb_def mb_head_def)
  define t where "t = upd_mb ?a (\<lambda>d. d\<lparr>m_len := m_len d + len\<rparr>) (ram_copy ?buf (m_data ?d) len s0)"
  have "umin len (bk_trailingspace K ?d) = len" using fits H(3) len(1) l by (simp add: umin_small)
  then have "copy_space E K len len ?a (m_data ?d) s0 = (Some (?a, len, m_data ?d), s0)"
    using len(1) by (simp add: copy_space_def sel)
  from copy_step_last[OF _ len(1) l(1) len(2) _ this] assms(2,3) e
  have "fb_mbuf_packet E K i len s = Some (?a, fb_return_md i t)" by (simp add: sel t_def)
  moreover have "mb_only s t" unfolding t_def s0_def by (intro mb_only_intro mb_only_refl)
  moreover have mb: "f_mb t ?a = ?d\<lparr>m_len := len\<rparr>" by (simp add: t_def upd_mb_def ram_copy_def sel mb_head_def)
  moreover have "ram (mem t) = poke (m_data ?d) (area_data (ram (mem s)) (?buf, nat len)) (ram (mem s))"
    using len(1) l(2) by (simp add: t_def upd_mb_def ram_copy_area sel)
  note rt = this
  then have "mb_holds t [?a] (area_data (ram (mem s)) (?buf, nat len))"
    using mb H(1,2) area_data_poke[of "area_data (ram (mem s)) (?buf, nat len)" "m_data ?d"] len
    by (simp add: mb_holds_def chain_data_def mbuf_area_def RECVBUFSIZE_def)
  moreover have "mb_spares K s len t"
    unfolding mb_spares_def rt
  proof (intro allI impI)
    fix b assume "mb_room K ?h b len"
    then have "area_bytes (m_data ?d, nat (bk_trailingspace K ?d)) \<inter> area_bytes (b, RECVBUFSIZE) = {}"
      by (simp add: mb_room_def mb_head_ok_def)
    moreover have "area_bytes (m_data ?d, nat len) \<subseteq> area_bytes (m_data ?d, nat (bk_trailingspace K ?d))"
      using fits by (intro area_bytes_mono nat_mono)
    ultimately have "area_bytes (b, RECVBUFSIZE) \<inter> area_bytes (m_data ?d, nat len) = {}" by blast
    then show "area_data (poke (m_data ?d) (area_data (ram (mem s)) (?buf, nat len)) (ram (mem s))) (b, RECVBUFSIZE)
        = area_data (ram (mem s)) (b, RECVBUFSIZE)" by (intro area_data_apart) simp
  qed
  ultimately show ?thesis by auto
qed

lemma copied_two:
  assumes q: "quiet_chip E" and last: "LNC_INC_MD_PTR i (f_nrdre s) = f_recv_next s" "i \<noteq> f_recv_next s"
    and len: "len \<le> int RECVBUFSIZE"
    and ok: "mb_head_ok K (trace s) (fre_buff (f_recv_ring s ! i))" "mb_rest_ok K (trace s) (fre_buff (f_recv_ring s ! i)) len"
    and long: "bk_trailingspace K (mb_head K (trace s)) < len"
  shows "\<exists>t. fb_mbuf_packet E K i len s = Some (bk_mget K (trace s), fb_return_md i t) \<and> mb_only s t \<and>
     mb_holds t [bk_mget K (trace s), bk_mget K (Kernel ''MGETHDR'' # trace s)] (area_data (ram (mem s)) (fre_buff (f_recv_ring s ! i), nat len)) \<and>
     m_data (f_mb t (bk_mget K (trace s))) = m_data (mb_head K (trace s)) \<and>
     m_len (f_mb t (bk_mget K (trace s))) = bk_trailingspace K (mb_head K (trace s)) \<and> mb_spares K s len t"
proof -
  let ?h = "trace s" and ?a = "bk_mget K (trace s)" and ?d = "mb_head K (trace s)" and ?buf = "fre_buff (f_recv_ring s ! i)"
  let ?h' = "Kernel ''MGETHDR'' # trace s"
  let ?b = "bk_mget K ?h'"
  define room where "room = bk_trailingspace K ?d"
  define rest where "rest = len - room"
  define d' where "d' = mb_rest K rest ?h'"
  have H: "?a \<noteq> 0" "m_next ?d = 0" "0 < room" "room < 2 ^ 31" "area_bytes (m_data ?d, nat room) \<inter> area_bytes (?buf, RECVBUFSIZE) = {}"
    using ok(1) by (simp_all add: mb_head_ok_def room_def)
  have M: "bk_trailingspace K (?d\<lparr>m_len := room\<rparr>) = 0" "?b \<noteq> 0" "?b \<noteq> ?a" "m_next d' = 0"
    "bk_MINCLSIZE K \<le> rest \<longrightarrow> bk_mclget K (Kernel ''MGET'' # ?h') \<noteq> 0" "rest \<le> bk_trailingspace K d'" "bk_trailingspace K d' < 2 ^ 31"
    "area_bytes (m_data d', nat rest) \<inter> area_bytes (?buf, RECVBUFSIZE) = {}"
    "area_bytes (m_data d', nat rest) \<inter> area_bytes (m_data ?d, nat room) = {}"
    using ok(2) unfolding mb_rest_ok_def Let_def room_def[symmetric] rest_def[symmetric] d'_def[symmetric] by simp_all
  have l: "room < len" "0 < rest" "rest < 32768" "len < 32768" "len = room + rest" "rest \<le> len" using long len H(3)
    by (simp_all add: rest_def room_def RECVBUFSIZE_def)
  define s0 where "s0 = upd_mb ?a (\<lambda>_. ?d) (s\<lparr>trace := ?h'\<rparr>)"
  define s1 where "s1 = upd_mb ?a (\<lambda>d. d\<lparr>m_len := m_len d + room\<rparr>) (ram_copy ?buf (m_data ?d) room s0)"
  define s2 where "s2 = mb_chained K rest ?a s1"
  define t where "t = upd_mb ?b (\<lambda>d. d\<lparr>m_len := m_len d + rest\<rparr>) (ram_copy (?buf + of_int room) (m_data d') rest s2)"
  have sel: "f_recv_next s0 = f_recv_next s" "f_nrdre s0 = f_nrdre s" "f_mb s0 ?a = ?d" "mem s0 = mem s"
    "f_recv_next s1 = f_recv_next s" "f_nrdre s1 = f_nrdre s" "f_mb s1 ?a = ?d\<lparr>m_len := room\<rparr>" "trace s1 = ?h'"
    "f_recv_next s2 = f_recv_next s" "f_nrdre s2 = f_nrdre s" "mem s2 = mem s1"
    by (simp_all add: s0_def s1_def s2_def upd_mb_def ram_copy_def mb_chained_def mb_head_def)
  have "fb_mbuf_packet E K i len s = fb_copy_packet E K ?a i len (int RECVBUFSIZE) ?a ?buf (m_data ?d) s0"
    using H(1) by (simp add: fb_mbuf_packet_def MGETHDR_def quiet_emit[OF q] Let_def s0_def upd_mb_def mb_head_def)
  also have "\<dots> = fb_copy_packet E K ?a i rest rest ?a (?buf + of_int room) (m_data ?d + of_int room) s1"
    unfolding rest_def s1_def by (rule copy_step_fills) (use last H(3) l(1,4) len sel in \<open>simp_all add: room_def\<close>)
  also have "\<dots> = Some (?a, fb_return_md i t)"
    unfolding t_def
  proof (rule copy_step_last)
    show "copy_space E K rest rest ?a (m_data ?d + of_int room) s1 = (Some (?b, rest, m_data d'), s2)"
      using copy_space_new[OF q, of K s1 ?a rest "m_data ?d + of_int room"] M l(2,3) sel by (simp add: d'_def s2_def)
  qed (use last l sel in simp_all)
  finally have run: "fb_mbuf_packet E K i len s = Some (?a, fb_return_md i t)" .
  have only: "mb_only s t" unfolding t_def s2_def s1_def s0_def by (intro mb_only_intro mb_only_refl)
  have mb: "f_mb t ?a = ?d\<lparr>m_len := room, m_next := ?b\<rparr>" "f_mb t ?b = d'\<lparr>m_len := rest\<rparr>"
    using M(3) sel(7,8) by (simp_all add: t_def s2_def upd_mb_def ram_copy_def mb_chained_def d'_def mb_rest_def Let_def)
  have b32: "room < 2 ^ 32" "rest < 2 ^ 32" using l H(3) by simp_all
  have in_buf: "area_bytes (?buf + of_int room, nat rest) \<subseteq> area_bytes (?buf, RECVBUFSIZE)"
    using area_bytes_within[of "nat room" "nat rest" RECVBUFSIZE ?buf] l len H(3) by (simp add: nat_add_distrib[symmetric])
  have "ram (mem s1) = poke (m_data ?d) (area_data (ram (mem s)) (?buf, nat room)) (ram (mem s))"
    using H(3) b32 by (simp add: s1_def upd_mb_def ram_copy_area sel)
  then have "ram (mem t) = (let r = poke (m_data ?d) (area_data (ram (mem s)) (?buf, nat room)) (ram (mem s))
      in poke (m_data d') (area_data r (?buf + of_int room, nat rest)) r)"
    using l(2) b32 by (simp add: t_def upd_mb_def ram_copy_area sel Let_def)
  note rt = this
  with area_data_two[of room rest "m_data d'" "m_data ?d" ?buf "ram (mem s)"] b32 H(3) l(2,5) M(9)
  have "area_data (ram (mem t)) (m_data ?d, nat room) @ area_data (ram (mem t)) (m_data d', nat rest) = area_data (ram (mem s)) (?buf, nat len)"
    using in_buf H(5) by (fastforce simp: Let_def)
  then have "mb_holds t [?a, ?b] (area_data (ram (mem s)) (?buf, nat len))"
    using mb H(1) M(2,4) by (simp add: mb_holds_def chain_data_def mbuf_area_def)
  moreover have "mb_spares K s len t"
    unfolding mb_spares_def
  proof (intro allI impI)
    fix b assume b: "mb_room K ?h b len"
    have "area_bytes (b, RECVBUFSIZE) \<inter> area_bytes (m_data ?d, nat room) = {}" "area_bytes (b, RECVBUFSIZE) \<inter> area_bytes (m_data d', nat rest) = {}"
      using b l(1) unfolding mb_room_def mb_head_ok_def mb_rest_ok_def Let_def room_def[symmetric] rest_def[symmetric] d'_def[symmetric]
      by (simp_all add: Int_commute)
    then show "area_data (ram (mem t)) (b, RECVBUFSIZE) = area_data (ram (mem s)) (b, RECVBUFSIZE)"
      unfolding rt Let_def by (simp add: area_data_apart)
  qed
  ultimately show ?thesis using run only mb by (auto simp: room_def)
qed

subsection \<open>One packet of the receive loop\<close>

lemma fb_mbuf_packet_copies:
  assumes "quiet_chip E" "LNC_INC_MD_PTR i (f_nrdre s) = f_recv_next s" "i \<noteq> f_recv_next s" "0 < len" "len \<le> int RECVBUFSIZE"
    "mb_room K (trace s) (fre_buff (f_recv_ring s ! i)) len"
  shows "\<exists>t. fb_mbuf_packet E K i len s = Some (bk_mget K (trace s), fb_return_md i t) \<and> mb_only s t \<and>
     mb_holds t (mb_chain K (trace s) len) (area_data (ram (mem s)) (fre_buff (f_recv_ring s ! i), nat len)) \<and>
     m_len (f_mb t (bk_mget K (trace s))) = min len (bk_trailingspace K (mb_head K (trace s))) \<and> mb_spares K s len t"
proof (cases "len \<le> bk_trailingspace K (mb_head K (trace s))")
  case True
  with copied_one[OF assms(1-5) _ True] assms(6) show ?thesis by (auto simp: mb_chain_def mb_room_def min_def)
next
  case False
  then have l: "bk_trailingspace K (mb_head K (trace s)) < len" by simp
  with assms(6) have ok: "mb_head_ok K (trace s) (fre_buff (f_recv_ring s ! i))" "mb_rest_ok K (trace s) (fre_buff (f_recv_ring s ! i)) len"
    by (simp_all add: mb_room_def)
  from copied_two[OF assms(1-3,5) ok l] l show ?thesis by (auto simp: mb_chain_def)
qed

lemma mb_holds_prefix:
  assumes "mb_holds s (a # ms) bs" "k \<le> nat (m_len (f_mb s a))"
  shows "area_data (ram (mem s)) (m_data (f_mb s a), k) = take k bs"
proof -
  have "bs = area_data (ram (mem s)) (m_data (f_mb s a), nat (m_len (f_mb s a))) @ chain_data (f_mb s) (ram (mem s)) ms"
    using assms(1) by (simp add: mb_holds_def chain_data_Cons mbuf_area_def)
  moreover have "take k (area_data (ram (mem s)) (m_data (f_mb s a), nat (m_len (f_mb s a)))) = area_data (ram (mem s)) (m_data (f_mb s a), k)"
    using assms(2) by (simp add: area_data_def take_map)
  ultimately show ?thesis using assms(2) by simp
qed

lemma mb_source:
  assumes "mb_holds s (a # ms) bs" "12 \<le> m_len (f_mb s a)"
  shows "map (\<lambda>k. ram (mem s) (m_data (f_mb s a) + of_nat k)) [6..<12] = take ETHER_ADDR_LEN (drop ETHER_ADDR_LEN bs)"
proof -
  have "12 \<le> nat (m_len (f_mb s a))" using assms(2) by arith
  from mb_holds_prefix[OF assms(1) this] have "drop 6 (area_data (ram (mem s)) (m_data (f_mb s a), 12)) = take 6 (drop 6 bs)"
    by (simp add: take_drop)
  then show ?thesis by (simp add: area_data_def drop_map ETHER_ADDR_LEN_def)
qed

lemma mb_holds_upd:
  "mb_holds (fb_return_md i s) ms bs = mb_holds s ms bs"
  "(\<And>d. m_next (f d) = m_next d \<and> m_data (f d) = m_data d \<and> m_len (f d) = m_len d) \<Longrightarrow> mb_holds (upd_mb a f s) ms bs = mb_holds s ms bs"
  "mb_holds (s\<lparr>trace := h\<rparr>) ms bs = mb_holds s ms bs"
proof -
  assume f: "\<And>d. m_next (f d) = m_next d \<and> m_data (f d) = m_data d \<and> m_len (f d) = m_len d"
  have "mchain (f_mb (upd_mb a f s)) p ms = mchain (f_mb s) p ms" for p
    by (induction ms arbitrary: p) (simp_all add: upd_mb_def f)
  moreover have "mbuf_area (f_mb (upd_mb a f s) m) = mbuf_area (f_mb s m)" for m by (simp add: upd_mb_def mbuf_area_def f)
  moreover have "mem (upd_mb a f s) = mem s" by (simp add: upd_mb_def)
  ultimately show "mb_holds (upd_mb a f s) ms bs = mb_holds s ms bs" by (simp add: mb_holds_def chain_data_def)
qed (simp_all add: mb_holds_def fb_return_md_def Let_def upd_fb_rx_def upd_lmds_def)

text \<open>Its descriptor as it goes back to the chip.\<close>

definition fb_returned :: "lance_mds \<Rightarrow> lance_mds" where
  "fb_returned d = d\<lparr>md1 := (md1 d AND HADR) OR OWN, md2 := - of_nat RECVBUFSIZE\<rparr>"

lemma fb_return_md_upd: "fb_return_md i s = upd_fb_rx i fb_returned s"
  by (simp add: fb_return_md_def fb_returned_def Let_def upd_fb_rx_def upd_lmds_def)

text \<open>
  The packet handed up: the chain \<open>ms\<close> holds it, its length is in the header, and the last call is that
  of the stack, or frees the chain when the source address is the driver's own.
\<close>

definition fb_passed :: "fb_softc \<Rightarrow> u32 list \<Rightarrow> u8 list \<Rightarrow> fb_softc \<Rightarrow> bool" where
  "fb_passed s ms bs t \<longleftrightarrow> mb_holds t ms bs \<and> m_pkthdr_len (f_mb t (hd ms)) = int (length bs) \<and>
     hd (trace t) = Call (if take ETHER_ADDR_LEN (drop ETHER_ADDR_LEN bs) = take ETHER_ADDR_LEN (fi_enaddr s)
       then ''m_freem'' else ''if_input'') [hd ms] \<and>
     f_recv_next t = LNC_INC_MD_PTR (f_recv_next s) (f_nrdre s) \<and> fi_ipackets t = fi_ipackets s + 1 \<and>
     (\<forall>j<LNC_NDESC (f_nrdre s). fb_rx_md t j = (if j = f_recv_next s then fb_returned (fb_rx_md s j) else fb_rx_md s j)) \<and>
     (\<forall>j<LNC_NDESC (f_ntdre s). fb_tx_md t j = fb_tx_md s j)"

text \<open>What the reception of a packet leaves alone besides.\<close>

definition fb_kept :: "bsd \<Rightarrow> fb_softc \<Rightarrow> int \<Rightarrow> fb_softc \<Rightarrow> bool" where
  "fb_kept K s len t \<longleftrightarrow> f_recv_ring t = f_recv_ring s \<and> f_trans_ring t = f_trans_ring s \<and> f_nrdre t = f_nrdre s \<and>
     f_ntdre t = f_ntdre s \<and> f_mem_mode t = f_mem_mode s \<and> f_rdp t = f_rdp s \<and> fi_enaddr t = fi_enaddr s \<and> mb_spares K s len t"

lemma fb_rx_packet:
  assumes q: "quiet_chip E" and g: "fb_geom s" "f_mem_mode s \<noteq> DMA_MBUF" "f_recv_next s < LNC_NDESC (f_nrdre s)" "1 < LNC_NDESC (f_nrdre s)"
    and fl: "fl = md1 (fb_rx_md s (f_recv_next s))" "has fl ENP" "\<not> has fl MDERR"
    and len: "len = int (unat (md3 (fb_rx_md s (f_recv_next s)) AND MCNT)) - FCS_LEN" "12 \<le> len" "len \<le> int RECVBUFSIZE"
    and room: "mb_room K (trace s) (fre_buff (f_recv_ring s ! f_recv_next s)) len"
  shows "\<exists>t. fb_rint_packet E K la fl s = Some (FbNext t) \<and>
     fb_passed s (mb_chain K (trace s) len) (area_data (ram (mem s)) (fre_buff (f_recv_ring s ! f_recv_next s), nat len)) t \<and>
     fb_kept K s len t"
proof -
  let ?i = "f_recv_next s" and ?a = "bk_mget K (trace s)" and ?ms = "mb_chain K (trace s) len"
  let ?buf = "fre_buff (f_recv_ring s ! f_recv_next s)"
  let ?bs = "area_data (ram (mem s)) (?buf, nat len)"
  define u where "u = s\<lparr>f_recv_next := LNC_INC_MD_PTR ?i (f_nrdre s), fi_ipackets := fi_ipackets s + 1\<rparr>"
  have inc: "LNC_INC_MD_PTR ?i (f_nrdre s) \<noteq> ?i" using g(3,4) by (simp add: LNC_INC_mod mod_Suc)
  have "\<exists>t. fb_mbuf_packet E K ?i len u = Some (bk_mget K (trace u), fb_return_md ?i t) \<and> mb_only u t \<and>
     mb_holds t (mb_chain K (trace u) len) (area_data (ram (mem u)) (fre_buff (f_recv_ring u ! ?i), nat len)) \<and>
     m_len (f_mb t (bk_mget K (trace u))) = min len (bk_trailingspace K (mb_head K (trace u))) \<and> mb_spares K u len t"
    by (rule fb_mbuf_packet_copies[OF q]) (use inc len room in \<open>simp_all add: u_def\<close>)
  then obtain v where v: "fb_mbuf_packet E K ?i len u = Some (?a, fb_return_md ?i v)" "mb_only u v" "mb_holds v ?ms ?bs"
    "m_len (f_mb v ?a) = min len (bk_trailingspace K (mb_head K (trace s)))" "mb_spares K s len v"
    by (auto simp: u_def mb_spares_def)
  define w where "w = upd_mb ?a (\<lambda>d. d\<lparr>m_rcvif := True, m_pkthdr_len := len\<rparr>) (fb_return_md ?i v)"
  define c where "c = (if take ETHER_ADDR_LEN (drop ETHER_ADDR_LEN ?bs) = take ETHER_ADDR_LEN (fi_enaddr s) then ''m_freem'' else ''if_input'')"
  obtain ms where ms: "?ms = ?a # ms" by (cases "len \<le> bk_trailingspace K (mb_head K (trace s))") (simp_all add: mb_chain_def)
  have hold: "mb_holds w ?ms ?bs" using v(3) by (simp add: w_def mb_holds_upd)
  have mb: "m_len (f_mb w ?a) = m_len (f_mb v ?a)" "fi_enaddr w = fi_enaddr v"
    by (simp_all add: w_def upd_mb_def fb_return_md_upd upd_fb_rx_def upd_lmds_def)
  have only: "f_recv_next v = f_recv_next u" "fi_ipackets v = fi_ipackets u" "f_recv_ring v = f_recv_ring s" "f_trans_ring v = f_trans_ring s"
    "f_nrdre v = f_nrdre s" "f_ntdre v = f_ntdre s" "lmds (mem v) = lmds (mem s)" "fi_enaddr v = fi_enaddr s"
    "f_mem_mode v = f_mem_mode s" "f_rdp v = f_rdp s"
    using v(2) by (auto simp: mb_only_def u_def dest!: arg_cong[where f = "\<lambda>s. (f_recv_next s, fi_ipackets s, f_recv_ring s, f_trans_ring s, f_nrdre s, f_ntdre s, lmds (mem s), fi_enaddr s, f_mem_mode s, f_rdp s)"])
  have a: "?a \<noteq> 0" using room by (simp add: mb_room_def mb_head_ok_def)
  have "12 \<le> m_len (f_mb w ?a)" using room len(2) by (simp add: mb v(4) mb_room_def)
  note shost = mb_source[OF hold[unfolded ms] this]
  define t where "t = w\<lparr>trace := Call c [?a] # trace w\<rparr>"
  have "fb_deliver E ?a len (fb_return_md ?i v) = t"
    using a shost only(8) mb(2) unfolding fb_deliver_def Let_def w_def[symmetric] t_def c_def
    by (simp add: bsd_m_freem_def quiet_emit[OF q])
  moreover have "has fl (ENP OR MDERR)" using fl(2) by (simp add: has_mask_or)
  ultimately have "fb_rint_packet E K la fl s = Some (FbNext t)"
    using fl(3) g(2) v(1) len(1) by (simp add: fb_rint_packet_def fb_rint_find_end_def Let_def u_def)
  moreover have "fb_passed s ?ms ?bs t"
  proof -
    have g': "fb_geom v" using g(1) only by (simp add: fb_geom_def)
    have same: "fb_rx_md t j = fb_rx_md (upd_fb_rx ?i fb_returned v) j" "fb_tx_md t j = fb_tx_md (upd_fb_rx ?i fb_returned v) j" for j
      by (simp_all add: t_def w_def upd_mb_def fb_return_md_upd fb_rx_md_def fb_tx_md_def)
    have orig: "fb_rx_md v j = fb_rx_md s j" "fb_tx_md v j = fb_tx_md s j" for j
      using only by (simp_all add: fb_rx_md_def fb_tx_md_def)
    have l: "int (length ?bs) = len" using len(2) by simp
    have "m_pkthdr_len (f_mb t ?a) = len" "f_recv_next t = f_recv_next u" "fi_ipackets t = fi_ipackets u"
      using only by (simp_all add: t_def w_def upd_mb_def fb_return_md_upd upd_fb_rx_def upd_lmds_def)
    moreover have "hd (trace t) = Call c [?a]" "mb_holds t ?ms ?bs" using hold by (simp_all add: t_def mb_holds_upd)
    ultimately show ?thesis
      using fb_md_upd(1,3)[OF g', of ?i _ fb_returned] only(5,6) g(3)
      unfolding fb_passed_def ms list.sel l same orig by (simp add: c_def u_def ms)
  qed
  moreover have "fb_kept K s len t"
    using only v(5) by (simp add: fb_kept_def mb_spares_def t_def w_def upd_mb_def fb_return_md_upd upd_fb_rx_def upd_lmds_def)
  ultimately show ?thesis by blast
qed

text \<open>Without memory the packet is skipped, and its descriptor is not given back to the chip.\<close>

lemma fb_rx_no_mbuf:
  assumes "quiet_chip E" "f_mem_mode s \<noteq> DMA_MBUF" "has fl ENP" "\<not> has fl MDERR" "bk_mget K (trace s) = 0"
  shows "\<exists>t. fb_rint_packet E K la fl s = Some (FbNext t) \<and> mem t = mem s \<and> f_recv_ring t = f_recv_ring s \<and>
     f_recv_next t = LNC_INC_MD_PTR (f_recv_next s) (f_nrdre s)"
  using assms by (simp add: fb_rint_packet_def fb_rint_find_end_def has_mask_or Let_def fb_mbuf_packet_def MGETHDR_def
      quiet_emit fb_deliver_def)


subsection \<open>The receive interrupt\<close>

definition fb_rx_len :: "fb_softc \<Rightarrow> nat \<Rightarrow> int" where
  "fb_rx_len s j = int (unat (md3 (fb_rx_md s j) AND MCNT)) - FCS_LEN"

definition fb_rx_bytes :: "fb_softc \<Rightarrow> nat \<Rightarrow> u8 list" where
  "fb_rx_bytes s j = area_data (ram (mem s)) (fre_buff (f_recv_ring s ! j), nat (fb_rx_len s j))"

text \<open>A slot with a good packet in it, and that there are mbufs for every packet.\<close>

definition fb_rx_filled :: "fb_softc \<Rightarrow> nat \<Rightarrow> bool" where
  "fb_rx_filled s j \<longleftrightarrow> has (md1 (fb_rx_md s j)) STP \<and> has (md1 (fb_rx_md s j)) ENP \<and> \<not> has (md1 (fb_rx_md s j)) MDERR \<and>
     12 \<le> fb_rx_len s j \<and> fb_rx_len s j \<le> int RECVBUFSIZE"

definition mb_supply :: "bsd \<Rightarrow> fb_softc \<Rightarrow> bool" where
  "mb_supply K s \<longleftrightarrow> (\<forall>h. \<forall>j<LNC_NDESC (f_nrdre s). \<forall>len. 12 \<le> len \<and> len \<le> int RECVBUFSIZE \<longrightarrow>
     mb_room K h (fre_buff (f_recv_ring s ! j)) len)"

text \<open>Packets handed up one after the other, each with its bytes in the mbufs at the moment it is.\<close>

inductive fb_passes :: "fb_softc \<Rightarrow> u8 list list \<Rightarrow> fb_softc \<Rightarrow> bool" where
  passes_none: "fb_passes s [] s"
| passes_one: "fb_passed s ms bs u \<Longrightarrow> fb_passes u bss t \<Longrightarrow> fb_passes s (bs # bss) t"

lemma fb_passed_counts: "fb_passes s bss t \<Longrightarrow> fi_ipackets t = fi_ipackets s + of_nat (length bss)"
  by (induction rule: fb_passes.induct) (simp_all add: fb_passed_def)

text \<open>What stays true from packet to packet.\<close>

definition fb_rx_ok :: "bsd \<Rightarrow> fb_softc \<Rightarrow> bool" where
  "fb_rx_ok K s \<longleftrightarrow> fb_geom s \<and> f_mem_mode s \<noteq> DMA_MBUF \<and> f_recv_next s < LNC_NDESC (f_nrdre s) \<and>
     1 < LNC_NDESC (f_nrdre s) \<and> mb_supply K s"

lemma fb_returned_stp: "\<not> has (md1 (fb_returned d)) STP"
proof -
  have "HADR AND STP = 0" "OWN AND STP = 0" by (simp_all add: hw_consts)
  then show ?thesis by (simp add: fb_returned_def has_def bit.conj_disj_distrib2 and.assoc)
qed

lemma fb_rx_step:
  assumes q: "quiet_chip E" and ok: "fb_rx_ok K s" and f: "fb_rx_filled s (f_recv_next s)"
  shows "\<exists>ms u. fb_rint_loop E K la s = fb_rint_loop E K (la + 1) u \<and>
     fb_passed s ms (fb_rx_bytes s (f_recv_next s)) u \<and> fb_rx_ok K u \<and> f_nrdre u = f_nrdre s \<and> f_rdp u = f_rdp s \<and>
     f_recv_next u = LNC_INC_MD_PTR (f_recv_next s) (f_nrdre s) \<and>
     (\<forall>j<LNC_NDESC (f_nrdre s). fb_rx_md u j = (if j = f_recv_next s then fb_returned (fb_rx_md s j) else fb_rx_md s j)) \<and>
     (\<forall>j<LNC_NDESC (f_nrdre s). j \<noteq> f_recv_next s \<longrightarrow> fb_rx_filled s j \<longrightarrow> fb_rx_filled u j \<and> fb_rx_bytes u j = fb_rx_bytes s j)"
proof -
  let ?i = "f_recv_next s" and ?len = "fb_rx_len s (f_recv_next s)"
  have o: "fb_geom s" "f_mem_mode s \<noteq> DMA_MBUF" "?i < LNC_NDESC (f_nrdre s)" "1 < LNC_NDESC (f_nrdre s)" "mb_supply K s"
    using ok by (simp_all add: fb_rx_ok_def)
  have g: "has (md1 (fb_rx_md s ?i)) STP" "has (md1 (fb_rx_md s ?i)) ENP" "\<not> has (md1 (fb_rx_md s ?i)) MDERR"
    "12 \<le> ?len" "?len \<le> int RECVBUFSIZE" using f by (simp_all add: fb_rx_filled_def)
  have "mb_room K (trace s) (fre_buff (f_recv_ring s ! ?i)) ?len" using o(3,5) g(4,5) by (simp add: mb_supply_def)
  from fb_rx_packet[OF q o(1-4) refl g(2,3) fb_rx_len_def g(4,5) this, of la]
  obtain u where u: "fb_rint_packet E K la (md1 (fb_rx_md s ?i)) s = Some (FbNext u)"
      "fb_passed s (mb_chain K (trace s) ?len) (fb_rx_bytes s ?i) u" "fb_kept K s ?len u"
    unfolding fb_rx_bytes_def by blast
  have k: "f_recv_ring u = f_recv_ring s" "f_trans_ring u = f_trans_ring s" "f_nrdre u = f_nrdre s" "f_ntdre u = f_ntdre s"
    "f_mem_mode u = f_mem_mode s" "f_rdp u = f_rdp s" "mb_spares K s ?len u"
    using u(3) by (simp_all add: fb_kept_def)
  have n: "f_recv_next u = LNC_INC_MD_PTR ?i (f_nrdre s)"
    and md: "\<And>j. j < LNC_NDESC (f_nrdre s) \<Longrightarrow> fb_rx_md u j = (if j = ?i then fb_returned (fb_rx_md s j) else fb_rx_md s j)"
    using u(2) by (simp_all add: fb_passed_def)
  have ok': "fb_rx_ok K u"
    using ok n by (simp add: fb_rx_ok_def fb_geom_def mb_supply_def k LNC_INC_mod LNC_NDESC_def)
  have "fb_rx_filled u j \<and> fb_rx_bytes u j = fb_rx_bytes s j"
    if j: "j < LNC_NDESC (f_nrdre s)" "j \<noteq> ?i" "fb_rx_filled s j" for j
  proof -
    let ?b = "fre_buff (f_recv_ring s ! j)"
    have l: "fb_rx_md u j = fb_rx_md s j" "fb_rx_len u j = fb_rx_len s j" using md j by (simp_all add: fb_rx_len_def)
    have "mb_room K (trace s) ?b ?len" using o(5) j(1) g(4,5) by (simp add: mb_supply_def)
    then have a: "area_data (ram (mem u)) (?b, RECVBUFSIZE) = area_data (ram (mem s)) (?b, RECVBUFSIZE)"
      using k(7) by (simp add: mb_spares_def)
    have "nat (fb_rx_len s j) \<le> RECVBUFSIZE" using j(3) by (simp add: fb_rx_filled_def nat_le_iff)
    then have "area_data r (?b, nat (fb_rx_len s j)) = take (nat (fb_rx_len s j)) (area_data r (?b, RECVBUFSIZE))" for r
      by (simp add: area_data_def take_map)
    with a have "fb_rx_bytes u j = fb_rx_bytes s j" by (simp add: fb_rx_bytes_def l(2) k(1))
    moreover have "fb_rx_filled u j" using j(3) by (simp add: fb_rx_filled_def l)
    ultimately show ?thesis by simp
  qed
  moreover have "fb_rint_loop E K la s = fb_rint_loop E K (la + 1) u"
    using g(1) u(1) by (subst fb_rint_loop.simps) (simp add: Let_def)
  ultimately show ?thesis using u(2) ok' n md k(3,6) by blast
qed


text \<open>The slots ahead, up to the first the chip still has, or all of them.\<close>

lemma fb_rx_run:
  assumes "quiet_chip E" "fb_rx_ok K s" "k \<le> LNC_NDESC (f_nrdre s)"
    and "\<forall>l<k. fb_rx_filled s ((f_recv_next s + l) mod LNC_NDESC (f_nrdre s))"
    and "k = LNC_NDESC (f_nrdre s) \<or> \<not> has (md1 (fb_rx_md s ((f_recv_next s + k) mod LNC_NDESC (f_nrdre s)))) STP"
  shows "\<exists>t. fb_rint_loop E K la s = Some (True, t) \<and> f_rdp t = f_rdp s \<and>
     fb_passes s (map (fb_rx_bytes s) (cyc_seg (LNC_NDESC (f_nrdre s)) (f_recv_next s) k)) t \<and>
     f_recv_next t = (f_recv_next s + k) mod LNC_NDESC (f_nrdre s) \<and>
     (\<forall>j<LNC_NDESC (f_nrdre s). fb_rx_md t j =
       (if j \<in> set (cyc_seg (LNC_NDESC (f_nrdre s)) (f_recv_next s) k) then fb_returned (fb_rx_md s j) else fb_rx_md s j))"
  using assms(2-)
proof (induction k arbitrary: s la)
  case 0
  then have "f_recv_next s mod LNC_NDESC (f_nrdre s) = f_recv_next s" "0 < LNC_NDESC (f_nrdre s)" by (simp_all add: fb_rx_ok_def)
  with 0 show ?case by (subst fb_rint_loop.simps) (simp add: passes_none)
next
  case (Suc k)
  let ?N = "LNC_NDESC (f_nrdre s)" and ?i = "f_recv_next s"
  have i: "?i < ?N" "?i mod ?N = ?i" using Suc.prems(1) by (simp_all add: fb_rx_ok_def)
  have "fb_rx_filled s ?i" using Suc.prems(3)[rule_format, of 0] i(2) by simp
  from fb_rx_step[OF assms(1) Suc.prems(1) this, of la] obtain ms u where
    u: "fb_rint_loop E K la s = fb_rint_loop E K (la + 1) u" "fb_passed s ms (fb_rx_bytes s ?i) u" "fb_rx_ok K u"
      "f_nrdre u = f_nrdre s" "f_rdp u = f_rdp s" "f_recv_next u = LNC_INC_MD_PTR ?i (f_nrdre s)" and
    md: "\<And>j. j < ?N \<Longrightarrow> fb_rx_md u j = (if j = ?i then fb_returned (fb_rx_md s j) else fb_rx_md s j)" and
    keep: "\<And>j. j < ?N \<Longrightarrow> j \<noteq> ?i \<Longrightarrow> fb_rx_filled s j \<Longrightarrow> fb_rx_filled u j \<and> fb_rx_bytes u j = fb_rx_bytes s j"
    by blast
  have n: "f_recv_next u = Suc ?i mod ?N" using u(6) i(1) by (simp add: LNC_INC_mod)
  have at: "(f_recv_next u + l) mod ?N = (?i + Suc l) mod ?N" for l by (simp add: n mod_simps)
  have away: "(?i + Suc l) mod ?N \<noteq> ?i" if "l < k" for l
    using cyc_inj[of ?i "Suc l" ?N 0] that Suc.prems(2) i by auto
  have filled: "fb_rx_filled u ((f_recv_next u + l) mod ?N) \<and>
      fb_rx_bytes u ((f_recv_next u + l) mod ?N) = fb_rx_bytes s ((f_recv_next u + l) mod ?N)" if "l < k" for l
    unfolding at using keep[OF _ away[OF that]] Suc.prems(3)[rule_format, of "Suc l"] that i(1) by simp
  have last: "\<not> has (md1 (fb_rx_md u ((f_recv_next u + k) mod ?N))) STP"
  proof (cases "Suc k = ?N")
    case True
    then have "(?i + Suc k) mod ?N = ?i" using i(2) by simp
    then show ?thesis unfolding at using md[OF i(1)] fb_returned_stp by simp
  next
    case False
    then show ?thesis unfolding at using Suc.prems(4) md[of "(?i + Suc k) mod ?N"] i(1) fb_returned_stp by simp
  qed
  have seg: "cyc_seg ?N ?i (Suc k) = ?i # cyc_seg ?N (f_recv_next u) k" using cyc_seg_Suc[OF i(1)] n by simp
  have bytes: "map (fb_rx_bytes u) (cyc_seg ?N (f_recv_next u) k) = map (fb_rx_bytes s) (cyc_seg ?N (f_recv_next u) k)"
    using filled by (simp add: cyc_seg_def)
  obtain t where t: "fb_rint_loop E K (la + 1) u = Some (True, t)" "f_rdp t = f_rdp u"
      "fb_passes u (map (fb_rx_bytes u) (cyc_seg ?N (f_recv_next u) k)) t" "f_recv_next t = (f_recv_next u + k) mod ?N"
      "\<forall>j<?N. fb_rx_md t j = (if j \<in> set (cyc_seg ?N (f_recv_next u) k) then fb_returned (fb_rx_md u j) else fb_rx_md u j)"
    using Suc.IH[OF u(3), of "la + 1"] Suc.prems(2) filled last unfolding u(4) by auto
  have "?i \<notin> set (cyc_seg ?N (f_recv_next u) k)"
    using cyc_seg_distinct[of "Suc k" ?N ?i] Suc.prems(2) seg by simp
  then have "\<forall>j<?N. fb_rx_md t j = (if j \<in> set (cyc_seg ?N ?i (Suc k)) then fb_returned (fb_rx_md s j) else fb_rx_md s j)"
    using t(5) md by (auto simp: seg)
  moreover have "fb_passes s (map (fb_rx_bytes s) (cyc_seg ?N ?i (Suc k))) t"
    using passes_one[OF u(2) t(3)] by (simp add: seg bytes)
  ultimately show ?case using u(1,5) t(1,2,4) at by (simp add: u(5))
qed


lemma fb_rint_delivers:
  assumes "quiet_chip E" "fb_rx_ok K s" "k \<le> LNC_NDESC (f_nrdre s)"
    and "\<forall>l<k. fb_rx_filled s ((f_recv_next s + l) mod LNC_NDESC (f_nrdre s))"
    and "k = LNC_NDESC (f_nrdre s) \<or> \<not> has (md1 (fb_rx_md s ((f_recv_next s + k) mod LNC_NDESC (f_nrdre s)))) STP"
  shows "\<exists>u. fb_lnc_rint E K s = Some (csrWrite16 E (f_rdp s) (RINT OR INEA) u) \<and>
     fb_passes s (map (fb_rx_bytes s) (cyc_seg (LNC_NDESC (f_nrdre s)) (f_recv_next s) k)) u \<and>
     f_recv_next u = (f_recv_next s + k) mod LNC_NDESC (f_nrdre s) \<and> fi_ipackets u = fi_ipackets s + of_nat k \<and>
     (\<forall>j<LNC_NDESC (f_nrdre s). fb_rx_md u j =
       (if j \<in> set (cyc_seg (LNC_NDESC (f_nrdre s)) (f_recv_next s) k) then fb_returned (fb_rx_md s j) else fb_rx_md s j))"
proof -
  obtain u where u: "fb_rint_loop E K 0 s = Some (True, u)" "f_rdp u = f_rdp s"
      "fb_passes s (map (fb_rx_bytes s) (cyc_seg (LNC_NDESC (f_nrdre s)) (f_recv_next s) k)) u"
      "f_recv_next u = (f_recv_next s + k) mod LNC_NDESC (f_nrdre s)"
      "\<forall>j<LNC_NDESC (f_nrdre s). fb_rx_md u j =
         (if j \<in> set (cyc_seg (LNC_NDESC (f_nrdre s)) (f_recv_next s) k) then fb_returned (fb_rx_md s j) else fb_rx_md s j)"
    using fb_rx_run[OF assms, of 0] by blast
  have "fb_lnc_rint E K s = Some (csrWrite16 E (f_rdp s) (RINT OR INEA) u)" by (simp add: fb_lnc_rint_def u(1,2))
  then show ?thesis using u(3-5) fb_passed_counts[OF u(3)] by (intro exI[of _ u]) simp
qed

end
