(* ===== verification/Fbsd_Fixtures.thy ===== *)
theory Fbsd_Fixtures
  imports Fbsd_Reclaim Fbsd_Rx Fixtures
begin

text \<open>A concrete FreeBSD kernel and a softc with empty rings, for the witnesses.\<close>

unbundle bit_operations_syntax

definition fb_mbuf0 :: bsd_mbuf where
  "fb_mbuf0 = \<lparr>m_next = 0, m_data = 0x9000, m_len = 0, m_ext = False, m_ext_buf = 0, m_pkthdr = False,
     m_pkthdr_len = 0, m_rcvif = False, m_pktdat = 0x9000\<rparr>"

definition bsd_kernel :: bsd where
  "bsd_kernel = \<lparr>bk_mget = \<lambda>_. 0x8000, bk_mbuf = \<lambda>_. fb_mbuf0, bk_mclget = \<lambda>_. 0xA000, bk_kvtop = \<lambda>x. x,
     bk_trailingspace = \<lambda>_. 2048, bk_crc32_le = ether_crc32_le, bk_entry = \<lambda>_ _. \<lparr>fre_md = 0, fre_buff = 0\<rparr>,
     bk_dmamem = \<lambda>_. 0x1000, bk_ether_ioctl = \<lambda>_. 0, bk_pci_command = \<lambda>_. 0, bk_MCLBYTES = 2048, bk_MINCLSIZE = 208,
     bk_sizeof_pkthdr = 24, bk_IFF_UP = 1, bk_IFF_BROADCAST = 2, bk_IFF_SIMPLEX = 0x800, bk_IFF_MULTICAST = 0x8000,
     bk_IFF_NEEDSGIANT = 0x20000000, bk_IFF_PROMISC = 0x100, bk_IFF_ALLMULTI = 0x200, bk_IFF_DRV_RUNNING = 0x40,
     bk_IFF_DRV_OACTIVE = 0x400, bk_PCIM_CMD_PORTEN = 1, bk_PCIM_CMD_BUSMASTEREN = 4\<rparr>"

definition fb_dev :: fb_softc where
  "fb_dev = \<lparr>trace = [], mem = \<lparr>mds = \<lambda>_. \<lparr>mds_buffer = 0, mds_length = 0, mds_status = 0, mds_misc = 0, mds_reserved = 0\<rparr>,
       lmds = \<lambda>_. \<lparr>md0 = 0, md1 = 0, md2 = 0, md3 = 0\<rparr>, ram = \<lambda>_. 0\<rparr>,
     f_irqres = False, f_drqres = False, f_portres = False, f_dmat = False, f_dmamap = False, f_ifp = False, fi_flags = 0,
     fi_drv_flags = 0, fi_timer = 0, fi_ierrors = 0, fi_oerrors = 0, fi_ipackets = 0, fi_opackets = 0, fi_collisions = 0,
     fi_snd = [], fi_multiaddrs = [(True, [1, 0, 0x5E, 0, 0, 1]), (False, [])], fi_enaddr = [], f_ident = NE2100,
     f_ic = PCnet_PCI, f_mem_mode = DMA_FIXED, f_iobase = 0, f_mode = 0, f_nrdre = 3, f_ring_base = 0x1000,
     f_recv_ring = replicate 8 \<lparr>fre_md = 0, fre_buff = 0\<rparr>, f_recv_next = 0, f_ntdre = 3,
     f_trans_ring = replicate 8 \<lparr>fre_md = 0, fre_buff = 0\<rparr>, f_trans_next = 0,
     f_init_block = \<lparr>lb_mode = 0, lb_padr = [], lb_ladrf = [], lb_rdra = 0, lb_rlen = 0, lb_tdra = 0, lb_tlen = 0\<rparr>,
     f_init_block_addr = 0, f_pending = 0, f_next_to_send = 0, f_mbufs = 0, f_mbuf_count = 0,
     f_flags = FB_INITIALISED OR FB_ALLMULTI, f_rap = PCNET_RAP, f_rdp = PCNET_RDP, f_bdp = PCNET_BDP, f_mb = \<lambda>_. fb_mbuf0\<rparr>"

lemma fb_dev_rings [simp]:
  "length (f_recv_ring fb_dev) = LNC_NDESC (f_nrdre fb_dev)" "length (f_trans_ring fb_dev) = LNC_NDESC (f_ntdre fb_dev)"
  "f_mem_mode fb_dev \<noteq> SHMEM" "f_ring_base fb_dev = 0x1000" "fb_mem_size (f_nrdre fb_dev) (f_ntdre fb_dev) \<le> 2 ^ 32"
  by (simp_all add: fb_dev_def LNC_NDESC_def fb_mem_size_def hw_consts)

lemma fb_dev_idle: "\<not> has (md1 (fb_tx_md fb_dev j)) m"
  by (simp add: fb_tx_md_def fb_dev_def)

lemma fb_dev_flags: "f_flags fb_dev AND NOT (FB_INITIALISED OR FB_ALLMULTI) = 0" "bk_crc32_le bsd_kernel = ether_crc32_le"
    "bk_IFF_ALLMULTI bsd_kernel = 0x200" "has (f_flags fb_dev) FB_ALLMULTI"
  by (simp_all add: fb_dev_def bsd_kernel_def FB_INITIALISED_def FB_ALLMULTI_def has_def)

lemma fb_attach_no_memory: "fst (fb_lnc_pci_attach no_mem_env bsd_kernel fb_dev) = ENXIO"
  by (simp add: fb_lnc_pci_attach_def os_call_def Let_def)

text \<open>A chip that reports its initialisation, and one packet of three bytes in the queue.\<close>

definition idon_env :: env where
  "idon_env = quiet_env\<lparr>in16 := \<lambda>_ _. IDON\<rparr>"

definition fb_queued :: fb_softc where
  "fb_queued = fb_dev\<lparr>fi_snd := [0x8000], f_mb := \<lambda>_. fb_mbuf0\<lparr>m_len := 3\<rparr>\<rparr>"

lemma idon_quiet [simp]: "quiet_chip idon_env"
  by (simp add: idon_env_def quiet_chip_def quiet_env_def)

lemma fb_queued_rings [simp]:
  "length (f_recv_ring fb_queued) = LNC_NDESC (f_nrdre fb_queued)" "length (f_trans_ring fb_queued) = LNC_NDESC (f_ntdre fb_queued)"
  "f_mem_mode fb_queued = DMA_FIXED" "fb_mem_size (f_nrdre fb_queued) (f_ntdre fb_queued) \<le> 2 ^ 32" "f_ntdre fb_queued = 3"
  by (simp_all add: fb_queued_def fb_dev_def LNC_NDESC_def fb_mem_size_def hw_consts)

lemma fb_queued_packet: "list_all2 (fb_pkt_outside fb_queued) (fi_snd fb_queued) [[0x8000]]"
proof -
  have s: "fb_mem_size (f_nrdre fb_queued) (f_ntdre fb_queued) = 24576"
    by (simp add: fb_queued_def fb_dev_def LNC_NDESC_def fb_mem_size_def hw_consts)
  have "area_bytes (0x1000 + of_nat 0, 24576) \<inter> area_bytes (0x1000 + of_nat 0x8000, 3) = {}"
    by (rule area_bytes_disjoint) simp_all
  then have "area_bytes (0x9000, 3) \<inter> area_bytes (0x1000, 24576) = {}" by (simp add: Int_commute)
  then show ?thesis unfolding fb_pkt_outside_def s
    by (simp add: fb_queued_def fb_dev_def fb_mbuf0_def fb_pkt_bytes_def length_chain_data mbuf_area_def TRANSBUFSIZE_def)
qed

lemma fb_queued_init: "fb_init_chip idon_env bsd_kernel fb_queued = (True, snd (fb_init_chip idon_env bsd_kernel fb_queued))"
proof -
  have m: "f_mem_mode (snd (fb_carve_mds x)) = f_mem_mode x" for x by (simp add: fb_carve_mds_def Let_def split_def)
  have r: "fst (fb_read_csr idon_env p x) = IDON" for p x by (simp add: fb_read_csr_def csrRead16_def idon_env_def)
  have i: "has IDON IDON" by (simp add: has_def IDON_def)
  have "fst (fb_init_chip idon_env bsd_kernel fb_queued)"
    by (simp add: fb_init_chip_def Let_def split_def m r i same_vars_fb_sel[OF evolves_same_vars[OF evolves_fb_regs(5)]])
  then show ?thesis by (metis prod.collapse)
qed

lemma fb_attach_succeeds: "fst (fb_lnc_pci_attach quiet_env bsd_kernel fb_dev) = FbOk"
  by (simp add: fb_lnc_pci_attach_def fb_lnc_attach_common_def os_call_def Let_def split_def)

text \<open>A ring with one packet the chip has sent, and another packet in the queue.\<close>

definition fb_one :: fb_softc where
  "fb_one = fb_queued\<lparr>
     f_recv_ring := map (\<lambda>i. \<lparr>fre_md = of_nat (4096 + 8 * i), fre_buff = of_nat (8192 + 2048 * i)\<rparr>) [0..<8],
     f_trans_ring := map (\<lambda>i. \<lparr>fre_md = of_nat (4160 + 8 * i), fre_buff = 0x10000 + of_nat (2048 * i)\<rparr>) [0..<8],
     mem := (mem fb_queued)\<lparr>lmds := (lmds (mem fb_queued))(4160 := \<lparr>md0 = 0, md1 = 0x0300, md2 = 0, md3 = 0\<rparr>)\<rparr>,
     f_pending := 1, f_next_to_send := 1\<rparr>"

lemma fb_one_sel:
  "f_ntdre fb_one = 3" "f_nrdre fb_one = 3" "f_pending fb_one = 1" "f_trans_next fb_one = 0" "f_next_to_send fb_one = 1"
  "f_mem_mode fb_one = DMA_FIXED" "fi_snd fb_one = [0x8000]" "f_mb fb_one = (\<lambda>_. fb_mbuf0\<lparr>m_len := 3\<rparr>)"
  "fb_tx_slots fb_one = [0]"
  by (simp_all add: fb_one_def fb_queued_def fb_dev_def fb_tx_slots_def cyc_seg_def LNC_NDESC_def)

lemma fb_one_buffer: "j < 8 \<Longrightarrow> fre_buff (f_trans_ring fb_one ! j) = 0x10000 + of_nat (2048 * j)"
  by (simp add: fb_one_def)

lemma fb_one_md: "j < 8 \<Longrightarrow> md1 (fb_tx_md fb_one j) = (if j = 0 then 0x0300 else 0)"
proof -
  assume j: "j < 8"
  have "4160 + (8::u32) * of_nat j = 4160 \<longleftrightarrow> j = 0"
  proof -
    have "j \<in> {0, 1, 2, 3, 4, 5, 6, 7}" using j by auto
    then show ?thesis by auto
  qed
  then show ?thesis using j by (simp add: fb_tx_md_def fb_one_def fb_queued_def fb_dev_def)
qed

lemma fb_one_ok: "fb_tx_ok fb_one"
proof -
  have "fb_tx_buffers_apart fb_one"
    unfolding fb_tx_buffers_apart_def
  proof (intro allI impI)
    fix i j assume a: "i < LNC_NDESC (f_ntdre fb_one)" "j < LNC_NDESC (f_ntdre fb_one)" "i \<noteq> j"
    then have l: "i < 8" "j < 8" by (simp_all add: fb_one_sel LNC_NDESC_def)
    show "area_bytes (fre_buff (f_trans_ring fb_one ! i), TRANSBUFSIZE) \<inter> area_bytes (fre_buff (f_trans_ring fb_one ! j), TRANSBUFSIZE) = {}"
      unfolding fb_one_buffer[OF l(1)] fb_one_buffer[OF l(2)]
    proof (cases "i < j")
      case True
      then show "area_bytes (0x10000 + of_nat (2048 * i), TRANSBUFSIZE) \<inter> area_bytes (0x10000 + of_nat (2048 * j), TRANSBUFSIZE) = {}"
        using l by (intro area_bytes_disjoint) (simp_all add: TRANSBUFSIZE_def)
    next
      case False
      then have "area_bytes (0x10000 + of_nat (2048 * j), TRANSBUFSIZE) \<inter> area_bytes (0x10000 + of_nat (2048 * i), TRANSBUFSIZE) = {}"
        using l a(3) by (intro area_bytes_disjoint) (simp_all add: TRANSBUFSIZE_def)
      then show "area_bytes (0x10000 + of_nat (2048 * i), TRANSBUFSIZE) \<inter> area_bytes (0x10000 + of_nat (2048 * j), TRANSBUFSIZE) = {}"
        by (simp only: Int_commute)
    qed
  qed
  moreover have "fb_geom fb_one"
    by (simp add: fb_geom_def fb_one_def fb_queued_def fb_dev_def LNC_NDESC_def upt_rec)
  ultimately show ?thesis
    by (auto simp: fb_tx_ok_def fb_one_sel fb_one_md LNC_NDESC_def has_def hw_consts)
qed

lemma fb_one_packet: "list_all2 (fb_pkt_ok fb_one) (fi_snd fb_one) [[0x8000]]"
proof -
  have "area_bytes (0x9000, 3) \<inter> area_bytes (0x10000 + of_nat (2048 * j), TRANSBUFSIZE) = {}" if "j < 8" for j
    using area_bytes_disjoint[of 0 3 "0x7000 + 2048 * j" TRANSBUFSIZE "0x9000"] that by (simp add: TRANSBUFSIZE_def add.assoc[symmetric])
  then have "\<forall>j<8. area_bytes (0x9000, 3) \<inter> area_bytes (fre_buff (f_trans_ring fb_one ! j), TRANSBUFSIZE) = {}"
    by (simp add: fb_one_buffer)
  then show ?thesis
    by (simp add: fb_pkt_ok_def chain_apart_def fb_one_sel fb_mbuf0_def mbuf_area_def length_chain_data TRANSBUFSIZE_def LNC_NDESC_def)
qed

lemma fb_one_sent: "\<forall>j\<in>set (fb_tx_slots fb_one). \<not> fb_uflo fb_one j" "fb_released fb_one = 1"
  by (simp_all add: fb_one_sel fb_uflo_def fb_one_md has_def MDERR_def fb_released_def)

text \<open>
  Two received packets of 60 bytes; mbufs of 40 bytes behind a header and of 208 without, and clusters, at
  two addresses each in turn.
\<close>

definition rx_kernel :: bsd where
  "rx_kernel = bsd_kernel\<lparr>bk_mget := \<lambda>h. if even (length h) then 0x8000 else 0x8100,
     bk_mbuf := \<lambda>h. fb_mbuf0\<lparr>m_data := if even (length h) then of_nat 0x10000 else of_nat 0x11000\<rparr>,
     bk_mclget := \<lambda>h. if even (length h) then of_nat 0x12000 else of_nat 0x13000,
     bk_trailingspace := \<lambda>d. (if m_pkthdr d then 40 else if m_ext d then 2048 else 208) - m_len d\<rparr>"

definition fb_recv :: fb_softc where
  "fb_recv = fb_one\<lparr>mem := (mem fb_one)\<lparr>lmds := (lmds (mem fb_one))(4096 := \<lparr>md0 = 0, md1 = 0x0300, md2 = 0, md3 = 64\<rparr>,
     4104 := \<lparr>md0 = 0, md1 = 0x0300, md2 = 0, md3 = 64\<rparr>)\<rparr>\<rparr>"

lemma fb_recv_sel:
  "fb_geom fb_recv" "f_nrdre fb_recv = 3" "f_recv_next fb_recv = 0" "f_mem_mode fb_recv = DMA_FIXED" "trace fb_recv = []"
  "\<And>j. j < 8 \<Longrightarrow> fre_buff (f_recv_ring fb_recv ! j) = of_nat (8192 + 2048 * j)"
  "fb_rx_md fb_recv 0 = \<lparr>md0 = 0, md1 = 0x0300, md2 = 0, md3 = 64\<rparr>" "fb_rx_md fb_recv 1 = \<lparr>md0 = 0, md1 = 0x0300, md2 = 0, md3 = 64\<rparr>"
  "md1 (fb_rx_md fb_recv 2) = 0" "fi_enaddr fb_recv = []" "fi_ipackets fb_recv = 0" "f_rdp fb_recv = PCNET_RDP"
  using fb_one_ok by (simp_all add: fb_tx_ok_def fb_geom_def fb_recv_def fb_one_def fb_queued_def fb_dev_def fb_rx_md_def)

lemma area_nat_apart:
  assumes "o1 + l1 \<le> o2 \<or> o2 + l2 \<le> o1" "o1 + l1 \<le> 2 ^ 32" "o2 + l2 \<le> 2 ^ 32"
  shows "area_bytes (of_nat o1, l1) \<inter> area_bytes (of_nat o2, l2) = {}"
  using area_bytes_disjoint[of o1 l1 o2 l2 0] area_bytes_disjoint[of o2 l2 o1 l1 0] assms by (auto simp: Int_commute)

lemma rx_kernel_supply: "mb_supply rx_kernel fb_recv"
  unfolding mb_supply_def
proof (intro allI impI)
  fix h j len
  assume "j < LNC_NDESC (f_nrdre fb_recv)" and l: "12 \<le> len \<and> len \<le> int RECVBUFSIZE"
  then have j: "j < 8" by (simp add: fb_recv_sel LNC_NDESC_def)
  have a: "area_bytes (of_nat p, nat n) \<inter> area_bytes (of_nat (8192 + 2048 * j), RECVBUFSIZE) = {}"
    if "p \<in> {0x10000, 0x11000, 0x12000, 0x13000}" "n \<le> 2048" for p n
    by (rule area_nat_apart) (use that j in \<open>auto simp: RECVBUFSIZE_def\<close>)
  have b: "area_bytes (of_nat p, nat n) \<inter> area_bytes (of_nat q, 40) = {}"
    if "p \<in> {0x10000, 0x11000, 0x12000, 0x13000}" "q \<in> {0x10000, 0x11000}" "p \<noteq> q" "n \<le> 2048" for p q n
    by (rule area_nat_apart) (use that in auto)
  have n: "len - 40 \<le> 2048" "len \<le> 1518" using l by (simp_all add: RECVBUFSIZE_def)
  have head: "mb_head_ok rx_kernel h (of_nat (8192 + 2048 * j))"
    using a[of "0x10000" 40] a[of "0x11000" 40] by (simp add: mb_head_ok_def mb_head_def rx_kernel_def fb_mbuf0_def)
  have rest: "mb_rest_ok rx_kernel h (of_nat (8192 + 2048 * j)) len"
  proof (cases "even (length h)")
    case True
    then show ?thesis using n a[of "0x11000" "len - 40"] a[of "0x12000" "len - 40"] b[of "0x11000" "0x10000" "len - 40"] b[of "0x12000" "0x10000" "len - 40"]
      by (simp add: mb_rest_ok_def mb_head_def mb_rest_def rx_kernel_def bsd_kernel_def fb_mbuf0_def Let_def)
  next
    case False
    then show ?thesis using n a[of "0x10000" "len - 40"] a[of "0x13000" "len - 40"] b[of "0x10000" "0x11000" "len - 40"] b[of "0x13000" "0x11000" "len - 40"]
      by (simp add: mb_rest_ok_def mb_head_def mb_rest_def rx_kernel_def bsd_kernel_def fb_mbuf0_def Let_def)
  qed
  have "12 \<le> bk_trailingspace rx_kernel (mb_head rx_kernel h)" by (simp add: mb_head_def rx_kernel_def)
  then show "mb_room rx_kernel h (fre_buff (f_recv_ring fb_recv ! j)) len"
    using head rest fb_recv_sel(6)[OF j] by (simp only: mb_room_def simp_thms)
qed

lemma fb_recv_ready: "fb_rx_ok rx_kernel fb_recv" "fb_rx_filled fb_recv 0" "fb_rx_filled fb_recv 1"
  using rx_kernel_supply fb_recv_sel
  by (simp_all add: fb_rx_ok_def fb_rx_filled_def fb_rx_len_def LNC_NDESC_def has_def hw_consts)

end
