(* ===== verification/Slots.thy ===== *)
theory Slots
  imports Sanos_Facts
begin

text \<open>
  A ring of optional items with free-running indices, as the Linux driver keeps its transmit ring:
  the occupied slots are the \<open>n\<close> from slot \<open>d\<close> on. The second half relates 32-bit indices that wrap
  around to slots.
\<close>

unbundle bit_operations_syntax

subsection \<open>Occupied slots\<close>

definition ring_holds :: "'a option list \<Rightarrow> nat \<Rightarrow> nat \<Rightarrow> bool" where
  "ring_holds xs d n \<longleftrightarrow> d < length xs \<and> n \<le> length xs \<and>
     (\<forall>k<length xs. xs ! ((d + k) mod length xs) \<noteq> None \<longleftrightarrow> k < n)"

definition ring_contents :: "'a option list \<Rightarrow> nat \<Rightarrow> nat \<Rightarrow> 'a list" where
  "ring_contents xs d n = map (\<lambda>k. the (xs ! ((d + k) mod length xs))) [0..<n]"

lemma length_ring_contents [simp]: "length (ring_contents xs d n) = n"
  by (simp add: ring_contents_def)

lemma ring_put:
  fixes b :: 'a
  assumes h: "ring_holds xs d n" and n: "n < length xs"
  defines "ys \<equiv> xs[(d + n) mod length xs := Some b]"
  shows "ring_holds ys d (Suc n)" "ring_contents ys d (Suc n) = ring_contents xs d n @ [b]"
    "xs ! ((d + n) mod length xs) = None"
proof -
  have i: "(d + n) mod length xs < length xs" using n by (intro mod_less_divisor) linarith
  have at: "ys ! ((d + k) mod length xs) = (if k = n then Some b else xs ! ((d + k) mod length xs))" if "k < length xs" for k
    using that n i cyc_inj[of d n "length xs" k] by (auto simp: ys_def nth_list_update)
  show "ring_holds ys d (Suc n)"
    using h n at by (auto simp: ring_holds_def less_Suc_eq ys_def)
  show "ring_contents ys d (Suc n) = ring_contents xs d n @ [b]"
    using n at by (simp add: ring_contents_def ys_def)
  show "xs ! ((d + n) mod length xs) = None" using h n by (auto simp: ring_holds_def)
qed

lemma ring_take:
  assumes h: "ring_holds xs d (Suc n)"
  defines "ys \<equiv> xs[d := None]" and "e \<equiv> Suc d mod length xs"
  shows "ring_holds ys e n" "ring_contents xs d (Suc n) = the (xs ! d) # ring_contents ys e n" "xs ! d \<noteq> None"
proof -
  from h have l: "d < length xs" "n < length xs" by (simp_all add: ring_holds_def)
  have next_slot: "(e + k) mod length xs = (d + Suc k) mod length xs" for k
    by (simp add: e_def mod_simps)
  have wrap: "(d + length xs) mod length xs = d" using l by simp
  have other: "(d + Suc k) mod length xs \<noteq> d" if "Suc k < length xs" for k
  proof
    assume "(d + Suc k) mod length xs = d"
    then have "(d + 0) mod length xs = (d + Suc k) mod length xs" using l by simp
    from cyc_inj[OF this _ that] that show False by linarith
  qed
  have at: "ys ! ((e + k) mod length xs) = (if Suc k = length xs then None else xs ! ((d + Suc k) mod length xs))"
    if "k < length xs" for k
    using that l other[of k] wrap by (cases "Suc k = length xs") (auto simp: ys_def next_slot simp del: add_Suc_right)
  have less: "e < length xs" unfolding e_def by (rule mod_less_divisor) (use l in linarith)
  show "xs ! d \<noteq> None" using h l by (auto simp: ring_holds_def dest!: spec[of _ 0])
  show "ring_holds ys e n"
    unfolding ring_holds_def
  proof (intro conjI allI impI)
    show "e < length ys" "n \<le> length ys" using l less by (simp_all add: ys_def)
    fix k assume k: "k < length ys"
    then have "xs ! ((d + Suc k) mod length xs) \<noteq> None \<longleftrightarrow> k < n" if "Suc k < length xs"
      using h that by (simp only: ring_holds_def Suc_less_eq)
    then show "ys ! ((e + k) mod length ys) \<noteq> None \<longleftrightarrow> k < n"
      using k l at[of k] by (cases "Suc k = length xs") (auto simp: ys_def)
  qed
  have "ring_contents xs d (Suc n) = the (xs ! d) # map (\<lambda>k. the (xs ! ((d + Suc k) mod length xs))) [0..<n]"
    using l by (simp add: ring_contents_def map_upt_Suc del: upt_Suc)
  also have "map (\<lambda>k. the (xs ! ((d + Suc k) mod length xs))) [0..<n] = ring_contents ys e n"
    using l at by (simp add: ring_contents_def ys_def)
  finally show "ring_contents xs d (Suc n) = the (xs ! d) # ring_contents ys e n" .
qed

lemma ring_empty: "0 < length xs \<Longrightarrow> \<forall>i<length xs. xs ! i = None \<Longrightarrow> ring_holds xs 0 0"
  by (simp add: ring_holds_def)

subsection \<open>Slots of 32-bit indices\<close>

definition lx_slot :: "u32 \<Rightarrow> nat" where
  "lx_slot d = unat (d AND of_nat TX_RING_MOD_MASK)"

lemma lx_slot_mod: "lx_slot d = unat d mod TX_RING_SIZE"
proof -
  have "d AND 15 = take_bit 4 d" by (simp add: take_bit_eq_mask mask_eq_exp_minus_1)
  then have "unat (d AND 15) = take_bit 4 (unat d)" by (simp only: unsigned_take_bit_eq)
  then have "unat (d AND 15) = unat d mod 16" by (simp only: take_bit_eq_mod) simp
  then show ?thesis by (simp add: lx_slot_def TX_RING_MOD_MASK_def TX_RING_SIZE_def)
qed

lemma lx_slot_less [simp]: "lx_slot d < TX_RING_SIZE"
  by (simp add: lx_slot_mod TX_RING_SIZE_def)

lemma lx_slot_add: "lx_slot (d + e) = (lx_slot d + unat e) mod TX_RING_SIZE"
proof -
  have "unat (d + e) mod 16 = (unat d + unat e) mod 16"
    unfolding unat_word_ariths by (subst mod_mod_cancel) simp_all
  then show ?thesis by (simp add: lx_slot_mod TX_RING_SIZE_def mod_simps)
qed

lemma lx_slot_cur: "lx_slot c = (lx_slot d + unat (c - d)) mod TX_RING_SIZE"
  using lx_slot_add[of d "c - d"] by simp

lemma lx_slot_next: "lx_slot (d + 1) = Suc (lx_slot d) mod TX_RING_SIZE"
  by (simp add: lx_slot_add)

lemma pending_put: "unat (c - d) < TX_RING_SIZE \<Longrightarrow> unat (c + 1 - d) = Suc (unat (c - d))" for c d :: u32
proof -
  assume "unat (c - d) < TX_RING_SIZE"
  then have "unat (c - d) + 1 < 2 ^ 32" by (simp add: TX_RING_SIZE_def)
  then have "unat (c - d + 1) = unat (c - d) + 1" by (simp add: unat_add_lem[THEN iffD1])
  then show ?thesis by (simp add: algebra_simps)
qed

lemma pending_take: "d \<noteq> c \<Longrightarrow> unat (c - d) = Suc (unat (c - (d + 1)))" for c d :: u32
proof -
  assume "d \<noteq> c"
  then have "c - d \<noteq> 0" by simp
  then have "unat (c - d - 1) = unat (c - d) - 1" "unat (c - d) \<noteq> 0"
    by (simp_all add: unat_eq_0 unat_minus_one)
  then show ?thesis by (simp add: diff_diff_add)
qed

end
