(* ===== verification/Linux.thy ===== *)
theory Linux
  imports Sanos Multicast Lnc_Tx
begin

text \<open>
  The Linux driver for the chip (\<^verbatim>\<open>pcnet32-linux.c\<close>): the device structure and its rings, output,
  the interrupt handler, restart, open and close, the multicast filter and the management
  registers. The port offsets, the tags of the two access tables and the layout of the initialization
  block are those of the Sanos driver, which copied them. A pointer to a socket buffer is an option; \<open>None\<close> as the result of an
  operation is a null pointer that is followed. Of the messages only the register reads among their
  arguments are kept, under the message's flag; the spin lock leaves no trace, and the time stamps
  (\<^verbatim>\<open>trans_start\<close>, \<^verbatim>\<open>last_rx\<close>) are left out.
\<close>

unbundle bit_operations_syntax

subsection \<open>Constants and state\<close>

definition PKT_BUF_SZ :: nat where [hw_consts]: "PKT_BUF_SZ = 1544"
definition PCNET32_PORT_AUI :: u32 where [hw_consts]: "PCNET32_PORT_AUI = 0x00"
definition PCNET32_PORT_10BT :: u32 where [hw_consts]: "PCNET32_PORT_10BT = 0x01"
definition PCNET32_PORT_GPSI :: u32 where [hw_consts]: "PCNET32_PORT_GPSI = 0x02"
definition PCNET32_PORT_MII :: u32 where [hw_consts]: "PCNET32_PORT_MII = 0x03"
definition PCNET32_PORT_PORTSEL :: u32 where [hw_consts]: "PCNET32_PORT_PORTSEL = 0x03"
definition PCNET32_PORT_ASEL :: u32 where [hw_consts]: "PCNET32_PORT_ASEL = 0x04"
definition PCNET32_PORT_100 :: u32 where [hw_consts]: "PCNET32_PORT_100 = 0x40"
definition PCNET32_PORT_FD :: u32 where [hw_consts]: "PCNET32_PORT_FD = 0x80"

text \<open>A socket buffer: its address, the start of its data and their length.\<close>

record skb =
  sk_ref :: u32
  sk_data :: u32
  sk_len :: nat

record lx_stats =
  ls_rx_packets :: u32
  ls_tx_packets :: u32
  ls_rx_bytes :: u32
  ls_tx_bytes :: u32
  ls_rx_errors :: u32
  ls_tx_errors :: u32
  ls_rx_dropped :: u32
  ls_collisions :: u32
  ls_rx_over_errors :: u32
  ls_rx_crc_errors :: u32
  ls_rx_frame_errors :: u32
  ls_rx_fifo_errors :: u32
  ls_rx_missed_errors :: u32
  ls_tx_aborted_errors :: u32
  ls_tx_carrier_errors :: u32
  ls_tx_fifo_errors :: u32
  ls_tx_window_errors :: u32

text \<open>
  \<open>pcnet32_private\<close> and, from \<open>l_base\<close> on, what the driver uses of its \<^verbatim>\<open>net_device\<close>, and the module's
  count of cards; the rings and the initialization block are at the front of the structure, at
  \<open>l_dma_addr\<close> for the chip.
\<close>

record lx = hist +
  l_dma_addr :: u32
  l_block :: sn_init_block
  l_tx_skbuff :: "skb option list"
  l_rx_skbuff :: "skb option list"
  l_tx_dma :: "u32 list"
  l_rx_dma :: "u32 list"
  l_a :: pcnet32_access
  l_cur_rx :: u32
  l_cur_tx :: u32
  l_dirty_rx :: u32
  l_dirty_tx :: u32
  l_stats :: lx_stats
  l_tx_full :: bool
  l_options :: u32
  l_shared_irq :: bool
  l_dxsuflo :: bool
  l_mii :: bool
  l_full_duplex :: bool
  l_phy_id :: u32
  l_name :: string
  l_blink :: bool
  l_base :: u16
  l_dev_addr :: "u8 list"
  l_irq :: u32
  l_flags :: u32
  l_mc_list :: "u8 list list"
  l_queue_stopped :: bool
  l_running :: bool
  l_pci_dev :: bool
  l_msg_enable :: u32
  l_cards_found :: nat

text \<open>
  What the driver uses of the Linux kernel: the socket buffer \<^verbatim>\<open>dev_alloc_skb\<close> returns, the bus
  address of a mapping, the CRC, the test of a station address, the MII library (by function name;
  it calls back \<open>mdio_read\<close> and \<open>mdio_write\<close>), whether the interrupt line can be had, flag values;
  the answers to the probe functions; and the module parameters, \<^verbatim>\<open>pcnet32_debug\<close> among them.
  \<open>lk_max_seconds\<close> is the longest time-out in seconds, \<open>lk_past_options\<close> the byte after the table
  \<^verbatim>\<open>options_mapping\<close>.
\<close>

record lk =
  lk_skb :: "history \<Rightarrow> skb option"
  lk_map :: "u32 \<Rightarrow> u32"
  lk_crc :: "u8 list \<Rightarrow> u32"
  lk_valid_addr :: "u8 list \<Rightarrow> bool"
  lk_mii :: "string \<Rightarrow> lx \<Rightarrow> int \<times> lx"
  lk_irq_free :: "history \<Rightarrow> bool"
  lk_IFF_PROMISC :: u32
  lk_IFF_ALLMULTI :: u32
  lk_NETIF_MSG :: "string \<Rightarrow> u32"
  lk_debug :: u32
  lk_max_work :: int
  lk_rx_copybreak :: int
  lk_max_seconds :: u32
  lk_alloc_dev :: "history \<Rightarrow> bool"
  lk_consistent :: "history \<Rightarrow> u32 option"
  lk_register :: "history \<Rightarrow> bool"
  lk_region :: "history \<Rightarrow> bool"
  lk_probed_irq :: "history \<Rightarrow> u32"
  lk_pci_irq :: u32
  lk_pci_enable :: "history \<Rightarrow> int"
  lk_pci_resource :: u16
  lk_pci_dma :: bool
  lk_options :: "u32 list"
  lk_full_duplex :: "u32 list"
  lk_homepna :: "u32 list"
  lk_past_options :: u32

definition bump :: "((u32 \<Rightarrow> u32) \<Rightarrow> lx_stats \<Rightarrow> lx_stats) \<Rightarrow> lx \<Rightarrow> lx" where
  "bump upd s = s\<lparr>l_stats := upd (\<lambda>x. x + 1) (l_stats s)\<rparr>"

definition bump_if :: "bool \<Rightarrow> ((u32 \<Rightarrow> u32) \<Rightarrow> lx_stats \<Rightarrow> lx_stats) \<Rightarrow> lx \<Rightarrow> lx" where
  "bump_if c upd s = (if c then bump upd s else s)"

subsection \<open>Port access\<close>

definition lx_wio_read_csr :: "env \<Rightarrow> u16 \<Rightarrow> u16 \<Rightarrow> 'a hist_scheme \<Rightarrow> u16 \<times> 'a hist_scheme" where
  [drv_ops]: "lx_wio_read_csr E addr index s =
     csrRead16 E (addr + PCNET32_WIO_RDP) (csrWrite16 E (addr + PCNET32_WIO_RAP) index s)"

definition lx_wio_write_csr :: "env \<Rightarrow> u16 \<Rightarrow> u16 \<Rightarrow> u16 \<Rightarrow> 'a hist_scheme \<Rightarrow> 'a hist_scheme" where
  [drv_ops]: "lx_wio_write_csr E addr index val s =
     csrWrite16 E (addr + PCNET32_WIO_RDP) val (csrWrite16 E (addr + PCNET32_WIO_RAP) index s)"

definition lx_wio_read_bcr :: "env \<Rightarrow> u16 \<Rightarrow> u16 \<Rightarrow> 'a hist_scheme \<Rightarrow> u16 \<times> 'a hist_scheme" where
  [drv_ops]: "lx_wio_read_bcr E addr index s =
     csrRead16 E (addr + PCNET32_WIO_BDP) (csrWrite16 E (addr + PCNET32_WIO_RAP) index s)"

definition lx_wio_write_bcr :: "env \<Rightarrow> u16 \<Rightarrow> u16 \<Rightarrow> u16 \<Rightarrow> 'a hist_scheme \<Rightarrow> 'a hist_scheme" where
  [drv_ops]: "lx_wio_write_bcr E addr index val s =
     csrWrite16 E (addr + PCNET32_WIO_BDP) val (csrWrite16 E (addr + PCNET32_WIO_RAP) index s)"

definition lx_wio_read_rap :: "env \<Rightarrow> u16 \<Rightarrow> 'a hist_scheme \<Rightarrow> u16 \<times> 'a hist_scheme" where
  [drv_ops]: "lx_wio_read_rap E addr s = csrRead16 E (addr + PCNET32_WIO_RAP) s"

definition lx_wio_write_rap :: "env \<Rightarrow> u16 \<Rightarrow> u16 \<Rightarrow> 'a hist_scheme \<Rightarrow> 'a hist_scheme" where
  [drv_ops]: "lx_wio_write_rap E addr val s = csrWrite16 E (addr + PCNET32_WIO_RAP) val s"

definition lx_wio_reset :: "env \<Rightarrow> u16 \<Rightarrow> 'a hist_scheme \<Rightarrow> 'a hist_scheme" where
  [drv_ops]: "lx_wio_reset E addr s = snd (csrRead16 E (addr + PCNET32_WIO_RESET) s)"

definition lx_wio_check :: "env \<Rightarrow> u16 \<Rightarrow> 'a hist_scheme \<Rightarrow> bool \<times> 'a hist_scheme" where
  [drv_ops]: "lx_wio_check E addr s =
     (let s = csrWrite16 E (addr + PCNET32_WIO_RAP) 88 s;
          (v, s) = csrRead16 E (addr + PCNET32_WIO_RAP) s
      in (v = 88, s))"

definition lx_dwio_read_csr :: "env \<Rightarrow> u16 \<Rightarrow> u16 \<Rightarrow> 'a hist_scheme \<Rightarrow> u16 \<times> 'a hist_scheme" where
  [drv_ops]: "lx_dwio_read_csr E addr index s =
     (let s = csrWrite32 E (addr + PCNET32_DWIO_RAP) (ucast index) s;
          (v, s) = csrRead32 E (addr + PCNET32_DWIO_RDP) s
      in (ucast (v AND 0xffff), s))"

definition lx_dwio_write_csr :: "env \<Rightarrow> u16 \<Rightarrow> u16 \<Rightarrow> u16 \<Rightarrow> 'a hist_scheme \<Rightarrow> 'a hist_scheme" where
  [drv_ops]: "lx_dwio_write_csr E addr index val s =
     csrWrite32 E (addr + PCNET32_DWIO_RDP) (ucast val) (csrWrite32 E (addr + PCNET32_DWIO_RAP) (ucast index) s)"

definition lx_dwio_read_bcr :: "env \<Rightarrow> u16 \<Rightarrow> u16 \<Rightarrow> 'a hist_scheme \<Rightarrow> u16 \<times> 'a hist_scheme" where
  [drv_ops]: "lx_dwio_read_bcr E addr index s =
     (let s = csrWrite32 E (addr + PCNET32_DWIO_RAP) (ucast index) s;
          (v, s) = csrRead32 E (addr + PCNET32_DWIO_BDP) s
      in (ucast (v AND 0xffff), s))"

definition lx_dwio_write_bcr :: "env \<Rightarrow> u16 \<Rightarrow> u16 \<Rightarrow> u16 \<Rightarrow> 'a hist_scheme \<Rightarrow> 'a hist_scheme" where
  [drv_ops]: "lx_dwio_write_bcr E addr index val s =
     csrWrite32 E (addr + PCNET32_DWIO_BDP) (ucast val) (csrWrite32 E (addr + PCNET32_DWIO_RAP) (ucast index) s)"

definition lx_dwio_read_rap :: "env \<Rightarrow> u16 \<Rightarrow> 'a hist_scheme \<Rightarrow> u16 \<times> 'a hist_scheme" where
  [drv_ops]: "lx_dwio_read_rap E addr s =
     (let (v, s) = csrRead32 E (addr + PCNET32_DWIO_RAP) s in (ucast (v AND 0xffff), s))"

definition lx_dwio_write_rap :: "env \<Rightarrow> u16 \<Rightarrow> u16 \<Rightarrow> 'a hist_scheme \<Rightarrow> 'a hist_scheme" where
  [drv_ops]: "lx_dwio_write_rap E addr val s = csrWrite32 E (addr + PCNET32_DWIO_RAP) (ucast val) s"

definition lx_dwio_reset :: "env \<Rightarrow> u16 \<Rightarrow> 'a hist_scheme \<Rightarrow> 'a hist_scheme" where
  [drv_ops]: "lx_dwio_reset E addr s = snd (csrRead32 E (addr + PCNET32_DWIO_RESET) s)"

definition lx_dwio_check :: "env \<Rightarrow> u16 \<Rightarrow> 'a hist_scheme \<Rightarrow> bool \<times> 'a hist_scheme" where
  [drv_ops]: "lx_dwio_check E addr s =
     (let s = csrWrite32 E (addr + PCNET32_DWIO_RAP) 88 s;
          (v, s) = csrRead32 E (addr + PCNET32_DWIO_RAP) s
      in (v AND 0xffff = 88, s))"

subsection \<open>Calls through the access table\<close>

definition lx_read_csr :: "env \<Rightarrow> u16 \<Rightarrow> lx \<Rightarrow> u16 \<times> lx" where
  [drv_ops]: "lx_read_csr E i s = (case l_a s of
     pcnet32_wio \<Rightarrow> lx_wio_read_csr E (l_base s) i s | pcnet32_dwio \<Rightarrow> lx_dwio_read_csr E (l_base s) i s)"

definition lx_write_csr :: "env \<Rightarrow> u16 \<Rightarrow> u16 \<Rightarrow> lx \<Rightarrow> lx" where
  [drv_ops]: "lx_write_csr E i v s = (case l_a s of
     pcnet32_wio \<Rightarrow> lx_wio_write_csr E (l_base s) i v s | pcnet32_dwio \<Rightarrow> lx_dwio_write_csr E (l_base s) i v s)"

definition lx_read_bcr :: "env \<Rightarrow> u16 \<Rightarrow> lx \<Rightarrow> u16 \<times> lx" where
  [drv_ops]: "lx_read_bcr E i s = (case l_a s of
     pcnet32_wio \<Rightarrow> lx_wio_read_bcr E (l_base s) i s | pcnet32_dwio \<Rightarrow> lx_dwio_read_bcr E (l_base s) i s)"

definition lx_write_bcr :: "env \<Rightarrow> u16 \<Rightarrow> u16 \<Rightarrow> lx \<Rightarrow> lx" where
  [drv_ops]: "lx_write_bcr E i v s = (case l_a s of
     pcnet32_wio \<Rightarrow> lx_wio_write_bcr E (l_base s) i v s | pcnet32_dwio \<Rightarrow> lx_dwio_write_bcr E (l_base s) i v s)"

definition lx_read_rap :: "env \<Rightarrow> lx \<Rightarrow> u16 \<times> lx" where
  [drv_ops]: "lx_read_rap E s = (case l_a s of
     pcnet32_wio \<Rightarrow> lx_wio_read_rap E (l_base s) s | pcnet32_dwio \<Rightarrow> lx_dwio_read_rap E (l_base s) s)"

definition lx_write_rap :: "env \<Rightarrow> u16 \<Rightarrow> lx \<Rightarrow> lx" where
  [drv_ops]: "lx_write_rap E v s = (case l_a s of
     pcnet32_wio \<Rightarrow> lx_wio_write_rap E (l_base s) v s | pcnet32_dwio \<Rightarrow> lx_dwio_write_rap E (l_base s) v s)"

definition lx_reset :: "env \<Rightarrow> lx \<Rightarrow> lx" where
  [drv_ops]: "lx_reset E s = (case l_a s of
     pcnet32_wio \<Rightarrow> lx_wio_reset E (l_base s) s | pcnet32_dwio \<Rightarrow> lx_dwio_reset E (l_base s) s)"

text \<open>At most \<open>n\<close> reads of CSR0 until a bit of the mask is set.\<close>

fun lx_poll :: "env \<Rightarrow> u16 \<Rightarrow> nat \<Rightarrow> lx \<Rightarrow> lx" where
  "lx_poll E m 0 s = s"
| "lx_poll E m (Suc n) s = (let (v, s) = lx_read_csr E 0 s in if has v m then s else lx_poll E m n s)"

text \<open>The register read for a message, when the message is on.\<close>

definition lx_msg_csr0 :: "env \<Rightarrow> lk \<Rightarrow> string \<Rightarrow> lx \<Rightarrow> lx" where
  [drv_ops]: "lx_msg_csr0 E K m s = (if has (l_msg_enable s) (lk_NETIF_MSG K m) then snd (lx_read_csr E 0 s) else s)"

subsection \<open>Descriptors and socket buffers\<close>

definition lx_rx_at :: "lx \<Rightarrow> nat \<Rightarrow> u32" where
  "lx_rx_at s i = l_dma_addr s + of_nat (sizeof_mds * i)"

definition lx_tx_at :: "lx \<Rightarrow> nat \<Rightarrow> u32" where
  "lx_tx_at s i = l_dma_addr s + of_nat (sizeof_mds * (RX_RING_SIZE + i))"

definition lx_block_at :: "lx \<Rightarrow> u32" where
  "lx_block_at s = l_dma_addr s + of_nat (sizeof_mds * (RX_RING_SIZE + TX_RING_SIZE))"

definition lx_rx :: "lx \<Rightarrow> nat \<Rightarrow> pcnet32_mds" where
  "lx_rx s i = mds (mem s) (lx_rx_at s i)"

definition lx_tx :: "lx \<Rightarrow> nat \<Rightarrow> pcnet32_mds" where
  "lx_tx s i = mds (mem s) (lx_tx_at s i)"

definition upd_lx_rx :: "nat \<Rightarrow> (pcnet32_mds \<Rightarrow> pcnet32_mds) \<Rightarrow> lx \<Rightarrow> lx" where
  "upd_lx_rx i f s = upd_mds (lx_rx_at s i) f s"

definition upd_lx_tx :: "nat \<Rightarrow> (pcnet32_mds \<Rightarrow> pcnet32_mds) \<Rightarrow> lx \<Rightarrow> lx" where
  "upd_lx_tx i f s = upd_mds (lx_tx_at s i) f s"

definition dev_alloc_skb :: "env \<Rightarrow> lk \<Rightarrow> nat \<Rightarrow> lx \<Rightarrow> skb option \<times> lx" where
  "dev_alloc_skb E K n s = (lk_skb K (trace s), emit E (Call ''dev_alloc_skb'' [of_nat n]) s)"

definition skb_reserve :: "nat \<Rightarrow> skb \<Rightarrow> skb" where
  "skb_reserve n b = b\<lparr>sk_data := sk_data b + of_nat n\<rparr>"

definition skb_put :: "nat \<Rightarrow> skb \<Rightarrow> skb" where
  "skb_put n b = b\<lparr>sk_len := sk_len b + n\<rparr>"

definition pci_map_single :: "env \<Rightarrow> lk \<Rightarrow> u32 \<Rightarrow> nat \<Rightarrow> lx \<Rightarrow> u32 \<times> lx" where
  "pci_map_single E K a n s = (lk_map K a, emit E (Call ''pci_map_single'' [a, of_nat n]) s)"

definition pci_unmap_single :: "env \<Rightarrow> u32 \<Rightarrow> nat \<Rightarrow> lx \<Rightarrow> lx" where
  "pci_unmap_single E a n s = emit E (Call ''pci_unmap_single'' [a, of_nat n]) s"

definition kfree_skb :: "env \<Rightarrow> skb \<Rightarrow> lx \<Rightarrow> lx" where
  "kfree_skb E b s = emit E (Call ''kfree_skb'' [sk_ref b]) s"

text \<open>The bytes of a socket buffer.\<close>

definition skb_bytes :: "lx \<Rightarrow> skb \<Rightarrow> u8 list" where
  "skb_bytes s b = map (\<lambda>k. ram (mem s) (sk_data b + of_nat k)) [0..<sk_len b]"

subsection \<open>The rings\<close>

definition purge_slot :: "env \<Rightarrow> nat \<Rightarrow> lx \<Rightarrow> lx" where
  "purge_slot E i s =
     (let s = upd_lx_tx i (\<lambda>d. d\<lparr>mds_status := 0\<rparr>) s;
          s = (case l_tx_skbuff s ! i of None \<Rightarrow> s
               | Some b \<Rightarrow> kfree_skb E b (pci_unmap_single E (l_tx_dma s ! i) (sk_len b) s))
      in s\<lparr>l_tx_skbuff := (l_tx_skbuff s)[i := None], l_tx_dma := (l_tx_dma s)[i := 0]\<rparr>)"

definition pcnet32_purge_tx_ring :: "env \<Rightarrow> lx \<Rightarrow> lx" where
  "pcnet32_purge_tx_ring E s = fold (purge_slot E) [0..<TX_RING_SIZE] s"

text \<open>One slot of the receive ring; the result says whether there was no memory.\<close>

definition init_rx_slot :: "env \<Rightarrow> lk \<Rightarrow> nat \<Rightarrow> lx \<Rightarrow> bool \<times> lx" where
  "init_rx_slot E K i s =
     (let (fail, s) = (case l_rx_skbuff s ! i of Some b \<Rightarrow> (False, s)
         | None \<Rightarrow> (let (b, s) = dev_alloc_skb E K PKT_BUF_SZ s in
             case b of None \<Rightarrow> (True, s)
             | Some b \<Rightarrow> (False, s\<lparr>l_rx_skbuff := (l_rx_skbuff s)[i := Some (skb_reserve 2 b)]\<rparr>))) in
      if fail then (True, s)
      else let b = the (l_rx_skbuff s ! i);
               s = (if l_rx_dma s ! i = 0
                    then let (a, s) = pci_map_single E K (sk_data b + of_nat (sk_len b)) (PKT_BUF_SZ - 2) s
                         in s\<lparr>l_rx_dma := (l_rx_dma s)[i := a]\<rparr>
                    else s);
               s = upd_lx_rx i (\<lambda>d. d\<lparr>mds_buffer := l_rx_dma s ! i\<rparr>) s;
               s = upd_lx_rx i (\<lambda>d. d\<lparr>mds_length := 2 - of_nat PKT_BUF_SZ\<rparr>) s
           in (False, upd_lx_rx i (\<lambda>d. d\<lparr>mds_status := 0x8000\<rparr>) s))"

fun init_rx_slots :: "env \<Rightarrow> lk \<Rightarrow> nat list \<Rightarrow> lx \<Rightarrow> bool \<times> lx" where
  "init_rx_slots E K [] s = (False, s)"
| "init_rx_slots E K (i # is) s =
     (let (fail, s) = init_rx_slot E K i s in if fail then (True, s) else init_rx_slots E K is s)"

definition clear_tx_slot :: "nat \<Rightarrow> lx \<Rightarrow> lx" where
  "clear_tx_slot i s =
     (let s = upd_lx_tx i (\<lambda>d. d\<lparr>mds_status := 0\<rparr>) s;
          s = upd_lx_tx i (\<lambda>d. d\<lparr>mds_buffer := 0\<rparr>) s
      in s\<lparr>l_tx_dma := (l_tx_dma s)[i := 0]\<rparr>)"

definition pcnet32_init_ring :: "env \<Rightarrow> lk \<Rightarrow> lx \<Rightarrow> bool \<times> lx" where
  "pcnet32_init_ring E K s =
     (let s = s\<lparr>l_tx_full := False\<rparr>;
          s = s\<lparr>l_cur_rx := 0, l_cur_tx := 0\<rparr>;
          s = s\<lparr>l_dirty_rx := 0, l_dirty_tx := 0\<rparr>;
          (fail, s) = init_rx_slots E K [0..<RX_RING_SIZE] s in
      if fail then (True, s)
      else let s = fold clear_tx_slot [0..<TX_RING_SIZE] s
           in (False, s\<lparr>l_block := (l_block s)\<lparr>sn_tlen_rlen := TX_RING_LEN_BITS OR RX_RING_LEN_BITS,
                sn_ib_addr := take 6 (l_dev_addr s), sn_ib_rx_ring := lx_rx_at s 0, sn_ib_tx_ring := lx_tx_at s 0\<rparr>\<rparr>))"

definition pcnet32_restart :: "env \<Rightarrow> lk \<Rightarrow> u16 \<Rightarrow> lx \<Rightarrow> lx" where
  "pcnet32_restart E K csr0_bits s =
     (let s = lx_poll E 0x0004 100 s;
          s = pcnet32_purge_tx_ring E s;
          (fail, s) = pcnet32_init_ring E K s in
      if fail then s
      else let s = lx_write_csr E 0 1 s;
               s = lx_poll E 0x0100 1000 s
           in lx_write_csr E 0 csr0_bits s)"

definition netif_wake_queue :: "env \<Rightarrow> lx \<Rightarrow> lx" where
  "netif_wake_queue E s = (emit E (Kernel ''netif_wake_queue'') s)\<lparr>l_queue_stopped := False\<rparr>"

definition netif_stop_queue :: "env \<Rightarrow> lx \<Rightarrow> lx" where
  "netif_stop_queue E s = (emit E (Kernel ''netif_stop_queue'') s)\<lparr>l_queue_stopped := True\<rparr>"

definition pcnet32_tx_timeout :: "env \<Rightarrow> lk \<Rightarrow> lx \<Rightarrow> lx" where
  "pcnet32_tx_timeout E K s =
     (let s = (if has (lk_debug K) (lk_NETIF_MSG K ''DRV'') then snd (lx_read_csr E 0 s) else s);
          s = lx_write_csr E 0 0x0004 s;
          s = bump ls_tx_errors_update s;
          s = pcnet32_restart E K 0x0042 s
      in netif_wake_queue E s)"

subsection \<open>Output\<close>

text \<open>The descriptor and the records of a slot; the ownership bit comes last.\<close>

definition lx_fill_slot :: "env \<Rightarrow> lk \<Rightarrow> nat \<Rightarrow> skb \<Rightarrow> lx \<Rightarrow> lx" where
  "lx_fill_slot E K entry b s =
     (let s = upd_lx_tx entry (\<lambda>d. d\<lparr>mds_length := - of_nat (sk_len b)\<rparr>) s;
          s = upd_lx_tx entry (\<lambda>d. d\<lparr>mds_misc := 0\<rparr>) s;
          s = s\<lparr>l_tx_skbuff := (l_tx_skbuff s)[entry := Some b]\<rparr>;
          (a, s) = pci_map_single E K (sk_data b) (sk_len b) s;
          s = s\<lparr>l_tx_dma := (l_tx_dma s)[entry := a]\<rparr>;
          s = upd_lx_tx entry (\<lambda>d. d\<lparr>mds_buffer := l_tx_dma s ! entry\<rparr>) s
      in upd_lx_tx entry (\<lambda>d. d\<lparr>mds_status := 0x8300\<rparr>) s)"

definition pcnet32_start_xmit :: "env \<Rightarrow> lk \<Rightarrow> skb \<Rightarrow> lx \<Rightarrow> int \<times> lx" where
  "pcnet32_start_xmit E K b s =
     (let s = lx_msg_csr0 E K ''TX_QUEUED'' s;
          entry = unat (l_cur_tx s AND of_nat TX_RING_MOD_MASK);
          s = lx_fill_slot E K entry b s;
          s = s\<lparr>l_cur_tx := l_cur_tx s + 1\<rparr>;
          s = s\<lparr>l_stats := ls_tx_bytes_update (\<lambda>x. x + of_nat (sk_len b)) (l_stats s)\<rparr>;
          s = lx_write_csr E 0 0x0048 s;
          s = (if mds_buffer (lx_tx s (Suc entry AND TX_RING_MOD_MASK)) \<noteq> 0
               then netif_stop_queue E (s\<lparr>l_tx_full := True\<rparr>) else s)
      in (0, s))"

subsection \<open>Finished transmissions\<close>

definition lx_tx_error :: "u32 \<Rightarrow> bool \<Rightarrow> lx \<Rightarrow> bool \<times> lx" where
  "lx_tx_error err_status must_restart s =
     (let s = bump ls_tx_errors_update s;
          s = bump_if (has err_status 0x04000000) ls_tx_aborted_errors_update s;
          s = bump_if (has err_status 0x08000000) ls_tx_carrier_errors_update s;
          s = bump_if (has err_status 0x10000000) ls_tx_window_errors_update s;
          s = bump_if (has err_status 0x40000000) ls_tx_fifo_errors_update s
      in (must_restart \<or> has err_status 0x40000000, s))"

text \<open>One descriptor the chip has released.\<close>

definition lx_tx_one :: "env \<Rightarrow> nat \<Rightarrow> u16 \<Rightarrow> bool \<Rightarrow> lx \<Rightarrow> bool \<times> lx" where
  "lx_tx_one E entry status must_restart s =
     (let s = upd_lx_tx entry (\<lambda>d. d\<lparr>mds_buffer := 0\<rparr>) s;
          (must_restart, s) = (if has status 0x4000 then lx_tx_error (mds_misc (lx_tx s entry)) must_restart s
             else (must_restart, bump ls_tx_packets_update (bump_if (has status 0x1800) ls_collisions_update s)))
      in (must_restart,
          case l_tx_skbuff s ! entry of None \<Rightarrow> s
          | Some b \<Rightarrow> let s = kfree_skb E b (pci_unmap_single E (l_tx_dma s ! entry) (sk_len b) s)
              in s\<lparr>l_tx_skbuff := (l_tx_skbuff s)[entry := None], l_tx_dma := (l_tx_dma s)[entry := 0]\<rparr>))"

lemma lx_tx_one_cur: "l_cur_tx (snd (lx_tx_one E entry status m s)) = l_cur_tx s"
  by (cases s) (simp add: lx_tx_one_def lx_tx_error_def bump_if_def bump_def upd_lx_tx_def upd_mds_def Let_def split_def
      kfree_skb_def pci_unmap_single_def emit_def split: option.split)

lemma dirty_less: "d \<noteq> c \<Longrightarrow> unat (c - (d + 1)) < unat (c - d)" for c d :: u32
proof -
  assume "d \<noteq> c"
  then have "c - d \<noteq> 0" by simp
  then have "unat (c - d) \<noteq> 0" "unat (c - d - 1) = unat (c - d) - 1"
    by (simp_all add: unat_eq_0 unat_minus_one)
  then have "unat (c - d - 1) < unat (c - d)" by simp
  then show ?thesis by (simp add: diff_diff_add)
qed

text \<open>The loop over the descriptors handed to the chip; it ends at the first the chip still owns.\<close>

function lx_tx_loop :: "env \<Rightarrow> u32 \<Rightarrow> bool \<Rightarrow> lx \<Rightarrow> u32 \<times> bool \<times> lx" where
  "lx_tx_loop E dirty_tx must_restart s =
     (if dirty_tx = l_cur_tx s then (dirty_tx, must_restart, s)
      else let entry = unat (dirty_tx AND of_nat TX_RING_MOD_MASK); status = mds_status (lx_tx s entry) in
        if has status TMD_OWN then (dirty_tx, must_restart, s)
        else lx_tx_loop E (dirty_tx + 1) (fst (lx_tx_one E entry status must_restart s)) (snd (lx_tx_one E entry status must_restart s)))"
  by pat_completeness auto
termination
proof (relation "measure (\<lambda>(E, d, m, s). unat (l_cur_tx s - d))")
  fix E d m entry status and s :: lx
  assume d: "d \<noteq> l_cur_tx s"
  obtain m' s' where t: "lx_tx_one E entry status m s = (m', s')" by fastforce
  with lx_tx_one_cur[of E entry status m s] have "l_cur_tx s' = l_cur_tx s" by simp
  with d show "((E, d + 1, fst (lx_tx_one E entry status m s), snd (lx_tx_one E entry status m s)), E, d, m, s)
     \<in> measure (\<lambda>(E, d, m, s). unat (l_cur_tx s - d))"
    using dirty_less[of d "l_cur_tx s"] by (simp add: t)
qed simp

declare lx_tx_loop.simps [simp del]

definition lx_tx_done :: "env \<Rightarrow> lx \<Rightarrow> bool \<times> lx" where
  "lx_tx_done E s =
     (let (dirty_tx, must_restart, s) = lx_tx_loop E (l_dirty_tx s) False s;
          delta = unat ((l_cur_tx s - dirty_tx) AND of_nat (TX_RING_MOD_MASK + TX_RING_SIZE));
          (dirty_tx, delta) = (if delta > TX_RING_SIZE then (dirty_tx + of_nat TX_RING_SIZE, delta - TX_RING_SIZE)
                               else (dirty_tx, delta));
          s = (if l_tx_full s \<and> l_queue_stopped s \<and> delta < TX_RING_SIZE - 2
               then netif_wake_queue E (s\<lparr>l_tx_full := False\<rparr>) else s)
      in (must_restart, s\<lparr>l_dirty_tx := dirty_tx\<rparr>))"

subsection \<open>Reception\<close>

definition lx_rx_error :: "nat \<Rightarrow> u16 \<Rightarrow> lx \<Rightarrow> lx" where
  "lx_rx_error entry status s =
     (let s = bump_if (has status 0x01) ls_rx_errors_update s;
          s = bump_if (has status 0x20) ls_rx_frame_errors_update s;
          s = bump_if (has status 0x10) ls_rx_over_errors_update s;
          s = bump_if (has status 0x08) ls_rx_crc_errors_update s;
          s = bump_if (has status 0x04) ls_rx_fifo_errors_update s
      in upd_lx_rx entry (\<lambda>d. d\<lparr>mds_status := mds_status d AND 0x03ff\<rparr>) s)"

text \<open>
  The buffer to pass up: for a long packet that of the ring, replaced by a new one, for a short
  packet a new one to copy to. The outer \<open>None\<close> is the ring's pointer being null, the inner one
  that there is no memory.
\<close>

definition lx_rx_in_place :: "env \<Rightarrow> lk \<Rightarrow> nat \<Rightarrow> nat \<Rightarrow> lx \<Rightarrow> (skb option \<times> lx) option" where
  "lx_rx_in_place E K entry pkt_len s =
     (let (newskb, s) = dev_alloc_skb E K PKT_BUF_SZ s in
      case newskb of None \<Rightarrow> Some (None, s)
      | Some newskb \<Rightarrow> do {
          let newskb = skb_reserve 2 newskb;
          b \<leftarrow> l_rx_skbuff s ! entry;
          let s = pci_unmap_single E (l_rx_dma s ! entry) (PKT_BUF_SZ - 2) s;
          let b = skb_put pkt_len b;
          let s = s\<lparr>l_rx_skbuff := (l_rx_skbuff s)[entry := Some newskb]\<rparr>;
          let (a, s) = pci_map_single E K (sk_data newskb + of_nat (sk_len newskb)) (PKT_BUF_SZ - 2) s;
          let s = s\<lparr>l_rx_dma := (l_rx_dma s)[entry := a]\<rparr>;
          Some (Some b, upd_lx_rx entry (\<lambda>d. d\<lparr>mds_buffer := a\<rparr>) s)
        })"

definition lx_rx_copy :: "env \<Rightarrow> lk \<Rightarrow> nat \<Rightarrow> nat \<Rightarrow> lx \<Rightarrow> (skb option \<times> lx) option" where
  "lx_rx_copy E K entry pkt_len s =
     (let (b, s) = dev_alloc_skb E K (pkt_len + 2) s in
      case b of None \<Rightarrow> Some (None, s)
      | Some b \<Rightarrow> do {
          let b = skb_put pkt_len (skb_reserve 2 b);
          let s = emit E (Kernel ''pci_dma_sync_single_for_cpu'') s;
          r \<leftarrow> l_rx_skbuff s ! entry;
          let src = skb_bytes s (r\<lparr>sk_data := sk_data r + of_nat (sk_len r), sk_len := pkt_len\<rparr>);
          let s = s\<lparr>mem := (mem s)\<lparr>ram := poke (sk_data b) src (ram (mem s))\<rparr>\<rparr>;
          Some (Some b, emit E (Kernel ''pci_dma_sync_single_for_device'') s)
        })"

text \<open>Without memory the packet stays in the ring, unless the ring is full of packets.\<close>

definition lx_rx_squeeze :: "nat \<Rightarrow> lx \<Rightarrow> lx" where
  "lx_rx_squeeze entry s =
     (let i = length (takeWhile (\<lambda>i. \<not> has (mds_status (lx_rx s ((entry + i) AND RX_RING_MOD_MASK))) RMD_OWN) [0..<RX_RING_SIZE])
      in if i > RX_RING_SIZE - 2
         then let s = bump ls_rx_dropped_update s;
                  s = upd_lx_rx entry (\<lambda>d. d\<lparr>mds_status := mds_status d OR 0x8000\<rparr>) s
              in s\<lparr>l_cur_rx := l_cur_rx s + 1\<rparr>
         else s)"

definition lx_pass_up :: "env \<Rightarrow> skb \<Rightarrow> lx \<Rightarrow> lx" where
  "lx_pass_up E b s =
     (let s = s\<lparr>l_stats := ls_rx_bytes_update (\<lambda>x. x + of_nat (sk_len b)) (l_stats s)\<rparr>;
          s = emit E (Call ''eth_type_trans'' [sk_ref b]) s;
          s = emit E (InputPacket (skb_bytes s b)) s
      in bump ls_rx_packets_update s)"

definition lx_rx_buffer :: "env \<Rightarrow> lk \<Rightarrow> nat \<Rightarrow> int \<Rightarrow> lx \<Rightarrow> (skb option \<times> lx) option" where
  "lx_rx_buffer E K entry pkt_len s =
     (if pkt_len > lk_rx_copybreak K then lx_rx_in_place E K entry (nat pkt_len) s
      else lx_rx_copy E K entry (nat pkt_len) s)"

definition lx_pkt_len :: "pcnet32_mds \<Rightarrow> int" where
  "lx_pkt_len d = int (unat (mds_misc d AND 0xfff)) - 4"

text \<open>A good descriptor; the flag is \<open>True\<close> when the loop is left.\<close>

definition lx_rx_good :: "env \<Rightarrow> lk \<Rightarrow> nat \<Rightarrow> lx \<Rightarrow> (bool \<times> lx) option" where
  "lx_rx_good E K entry s =
     (let pkt_len = lx_pkt_len (lx_rx s entry) in
      if pkt_len > int (PKT_BUF_SZ - 2) then Some (False, bump ls_rx_errors_update s)
      else if pkt_len < 60 then Some (False, bump ls_rx_errors_update s)
      else do {
        (b, s) \<leftarrow> lx_rx_buffer E K entry pkt_len s;
        case b of None \<Rightarrow> Some (True, lx_rx_squeeze entry s)
        | Some b \<Rightarrow> Some (False, lx_pass_up E b s)
      })"

definition lx_rx_return :: "nat \<Rightarrow> lx \<Rightarrow> lx" where
  "lx_rx_return entry s =
     (let s = upd_lx_rx entry (\<lambda>d. d\<lparr>mds_length := 2 - of_nat PKT_BUF_SZ\<rparr>) s;
          s = upd_lx_rx entry (\<lambda>d. d\<lparr>mds_status := mds_status d OR 0x8000\<rparr>) s
      in s\<lparr>l_cur_rx := l_cur_rx s + 1\<rparr>)"

text \<open>The loop, of at most \<open>n\<close> rounds.\<close>

fun lx_rx_loop :: "env \<Rightarrow> lk \<Rightarrow> nat \<Rightarrow> lx \<Rightarrow> lx option" where
  "lx_rx_loop E K 0 s = Some s"
| "lx_rx_loop E K (Suc n) s =
     (let entry = unat (l_cur_rx s AND of_nat RX_RING_MOD_MASK) in
      if has (mds_status (lx_rx s entry)) RMD_OWN then Some s
      else let status = drop_bit 8 (mds_status (lx_rx s entry)) in do {
        (stop, s) \<leftarrow> (if status \<noteq> 0x03 then Some (False, lx_rx_error entry status s) else lx_rx_good E K entry s);
        if stop then Some s else lx_rx_loop E K n (lx_rx_return entry s)
      })"

definition pcnet32_rx :: "env \<Rightarrow> lk \<Rightarrow> lx \<Rightarrow> lx option" where
  "pcnet32_rx E K s = lx_rx_loop E K (RX_RING_SIZE div 2) s"

subsection \<open>The interrupt handler\<close>

definition lx_intr_restart :: "env \<Rightarrow> lk \<Rightarrow> lx \<Rightarrow> lx" where
  "lx_intr_restart E K s =
     (let s = lx_reset E s;
          s = lx_write_csr E 4 0x0915 s;
          s = pcnet32_restart E K 0x0002 s
      in netif_wake_queue E s)"

definition lx_intr_pass :: "env \<Rightarrow> lk \<Rightarrow> u16 \<Rightarrow> lx \<Rightarrow> lx option" where
  "lx_intr_pass E K csr0 s = do {
     let s = lx_write_csr E 0 (csr0 AND NOT 0x004f) s;
     let s = lx_msg_csr0 E K ''INTR'' s;
     s \<leftarrow> (if has csr0 0x0400 then pcnet32_rx E K s else Some s);
     let (must_restart, s) = (if has csr0 0x0200 then lx_tx_done E s else (False, s));
     let s = bump_if (has csr0 0x4000) ls_tx_errors_update s;
     s \<leftarrow> (if has csr0 0x1000 then do { s \<leftarrow> pcnet32_rx E K s; Some (bump ls_rx_errors_update s) } else Some s);
     Some (if must_restart then lx_intr_restart E K s else s)
   }"

fun lx_intr_loop :: "env \<Rightarrow> lk \<Rightarrow> nat \<Rightarrow> lx \<Rightarrow> lx option" where
  "lx_intr_loop E K 0 s = Some (snd (lx_read_csr E 0 s))"
| "lx_intr_loop E K (Suc n) s =
     (let (csr0, s) = lx_read_csr E 0 s in
      if \<not> has csr0 0x8f00 \<or> csr0 = 0xffff then Some s
      else do { s \<leftarrow> lx_intr_pass E K csr0 s; lx_intr_loop E K n s })"

definition pcnet32_interrupt :: "env \<Rightarrow> lk \<Rightarrow> lx \<Rightarrow> lx option" where
  "pcnet32_interrupt E K s = do {
     let (rap, s) = lx_read_rap E s;
     s \<leftarrow> lx_intr_loop E K (nat (lk_max_work K)) s;
     let s = lx_write_csr E 0 0x0040 s;
     let s = lx_write_rap E rap s;
     Some (lx_msg_csr0 E K ''INTR'' s)
   }"

definition pcnet32_poll_controller :: "env \<Rightarrow> lk \<Rightarrow> lx \<Rightarrow> lx option" where
  "pcnet32_poll_controller E K s = do {
     let s = emit E (Call ''disable_irq'' [l_irq s]) s;
     s \<leftarrow> pcnet32_interrupt E K s;
     Some (emit E (Call ''enable_irq'' [l_irq s]) s)
   }"

end
