(* ===== verification/Linux_Dev.thy ===== *)
theory Linux_Dev
  imports Linux
begin

text \<open>
  The rest of the Linux driver's device methods: open and close, the statistics, the multicast
  filter, the management registers, and what \<^verbatim>\<open>ethtool\<close> asks for: link state, ring parameters, the
  loopback test, the blinking LEDs and the register dump.
\<close>

unbundle bit_operations_syntax

datatype lx_err = E_AGAIN | E_INVAL | E_NOMEM | E_NODEV | E_BUSY | E_OPNOTSUPP | E_code int

subsection \<open>The multicast filter\<close>

text \<open>The table of 16-bit words \<^verbatim>\<open>mcast_table\<close> lies over the two 32-bit words of the filter.\<close>

definition lx_mcast_set :: "lk \<Rightarrow> u8 list \<Rightarrow> u32 list \<Rightarrow> u32 list" where
  "lx_mcast_set K addrs f =
     (let crc = drop_bit 26 (lk_crc K (take 6 addrs)); k = unat (drop_bit 4 crc)
      in f[k div 2 := f ! (k div 2) OR push_bit (16 * (k mod 2) + unat (crc AND 0xf)) 1])"

definition pcnet32_load_multicast :: "lk \<Rightarrow> lx \<Rightarrow> lx" where
  "pcnet32_load_multicast K s =
     (if has (l_flags s) (lk_IFF_ALLMULTI K)
      then s\<lparr>l_block := (l_block s)\<lparr>sn_filter := [0xffffffff, 0xffffffff]\<rparr>\<rparr>
      else let f = fold (\<lambda>addrs f. if has (addrs ! 0) 1 then lx_mcast_set K addrs f else f) (l_mc_list s) [0, 0]
           in s\<lparr>l_block := (l_block s)\<lparr>sn_filter := f\<rparr>\<rparr>)"

definition lx_mode :: "lx \<Rightarrow> u16" where
  "lx_mode s = push_bit 7 (ucast (l_options s AND PCNET32_PORT_PORTSEL))"

definition pcnet32_set_multicast_list :: "env \<Rightarrow> lk \<Rightarrow> lx \<Rightarrow> lx" where
  "pcnet32_set_multicast_list E K s =
     (let s = (if has (l_flags s) (lk_IFF_PROMISC K)
               then s\<lparr>l_block := (l_block s)\<lparr>sn_mode := 0x8000 OR lx_mode s\<rparr>\<rparr>
               else pcnet32_load_multicast K (s\<lparr>l_block := (l_block s)\<lparr>sn_mode := lx_mode s\<rparr>\<rparr>));
          s = lx_write_csr E 0 0x0004 s;
          s = pcnet32_restart E K 0x0042 s
      in netif_wake_queue E s)"

subsection \<open>Open and close\<close>

definition lx_free_irq :: "env \<Rightarrow> lx \<Rightarrow> lx" where
  "lx_free_irq E s = emit E (Call ''free_irq'' [l_irq s]) s"

definition netif_start_queue :: "env \<Rightarrow> lx \<Rightarrow> lx" where
  "netif_start_queue E s = (emit E (Kernel ''netif_start_queue'') s)\<lparr>l_queue_stopped := False\<rparr>"

definition free_rx_slot :: "env \<Rightarrow> nat \<Rightarrow> lx \<Rightarrow> lx" where
  "free_rx_slot E i s =
     (let s = upd_lx_rx i (\<lambda>d. d\<lparr>mds_status := 0\<rparr>) s;
          s = (case l_rx_skbuff s ! i of None \<Rightarrow> s
               | Some b \<Rightarrow> kfree_skb E b (pci_unmap_single E (l_rx_dma s ! i) (PKT_BUF_SZ - 2) s))
      in s\<lparr>l_rx_skbuff := (l_rx_skbuff s)[i := None], l_rx_dma := (l_rx_dma s)[i := 0]\<rparr>)"

definition lx_set_autoselect :: "env \<Rightarrow> lx \<Rightarrow> lx" where
  "lx_set_autoselect E s =
     (let (v, s) = lx_read_bcr E 2 s; v = v AND NOT 2
      in lx_write_bcr E 2 (if has (l_options s) PCNET32_PORT_ASEL then v OR 2 else v) s)"

definition lx_chip_id :: "env \<Rightarrow> lx \<Rightarrow> u32 \<times> lx" where
  "lx_chip_id E s = (let (lo, s) = lx_read_csr E 88 s; (hi, s) = lx_read_csr E 89 s
                     in (ucast lo OR push_bit 16 (ucast hi), s))"

definition lx_set_duplex :: "env \<Rightarrow> lx \<Rightarrow> lx" where
  "lx_set_duplex E s =
     (if l_full_duplex s then
        let (v, s) = lx_read_bcr E 9 s; v = v AND NOT 3;
            (v, s) = (if has (l_options s) PCNET32_PORT_FD
               then (if l_options s = PCNET32_PORT_FD OR PCNET32_PORT_AUI then v OR 1 OR 2 else v OR 1, s)
               else if has (l_options s) PCNET32_PORT_ASEL
               then let (i, s) = lx_chip_id E s
                    in (if drop_bit 12 i AND 0xffff = 0x2627 then v OR 3 else v, s)
               else (v, s))
        in lx_write_bcr E 9 v s
      else s)"

definition lx_set_gpsi :: "env \<Rightarrow> lx \<Rightarrow> lx" where
  "lx_set_gpsi E s =
     (let (v, s) = lx_read_csr E 124 s; v = v AND NOT 0x10
      in lx_write_csr E 124 (if l_options s AND PCNET32_PORT_PORTSEL = PCNET32_PORT_GPSI then v OR 0x10 else v) s)"

definition lx_set_phy :: "env \<Rightarrow> lx \<Rightarrow> lx" where
  "lx_set_phy E s =
     (if l_mii s \<and> \<not> has (l_options s) PCNET32_PORT_ASEL then
        let (v, s) = lx_read_bcr E 32 s;
            s = lx_write_bcr E 32 (v OR 0x0080) s;
            (v, s) = lx_read_bcr E 32 s;
            v = v AND NOT 0xb8;
            v = (if has (l_options s) PCNET32_PORT_FD then v OR 0x10 else v);
            v = (if has (l_options s) PCNET32_PORT_100 then v OR 0x08 else v)
        in lx_write_bcr E 32 v s
      else if has (l_options s) PCNET32_PORT_ASEL then
        let (v, s) = lx_read_bcr E 32 s;
            s = lx_write_bcr E 32 (v OR 0x0080) s;
            (v, s) = lx_read_bcr E 32 s
        in lx_write_bcr E 32 ((v AND NOT 0x98) OR 0x20) s
      else s)"

text \<open>The address of the initialization block, into CSR1 and CSR2.\<close>

definition lx_load_block_address :: "env \<Rightarrow> lx \<Rightarrow> lx" where
  "lx_load_block_address E s =
     (let s = lx_write_csr E 1 (ucast (lx_block_at s AND 0xffff)) s
      in lx_write_csr E 2 (ucast (drop_bit 16 (lx_block_at s))) s)"

definition lx_start :: "env \<Rightarrow> lk \<Rightarrow> lx \<Rightarrow> lx" where
  "lx_start E K s =
     (let s = lx_load_block_address E s;
          s = lx_write_csr E 4 0x0915 s;
          s = lx_write_csr E 0 0x0001 s;
          s = netif_start_queue E s;
          s = (if l_mii s then emit E (Kernel ''mod_timer(watchdog)'') (snd (lk_mii K ''mii_check_media'' s)) else s);
          s = lx_poll E 0x0100 100 s;
          s = lx_write_csr E 0 0x0042 s
      in lx_msg_csr0 E K ''IFUP'' s)"

text \<open>The error is \<open>None\<close> on success.\<close>

definition pcnet32_open :: "env \<Rightarrow> lk \<Rightarrow> lx \<Rightarrow> lx_err option \<times> lx" where
  "pcnet32_open E K s =
     (let free = lk_irq_free K (trace s);
          s = emit E (Call ''request_irq'' [l_irq s]) s in
      if \<not> free then (Some E_AGAIN, s)
      else if \<not> lk_valid_addr K (l_dev_addr s) then (Some E_INVAL, lx_free_irq E s)
      else let s = lx_reset E s;
               s = lx_write_bcr E 20 2 s;
               s = lx_set_autoselect E s;
               s = lx_set_duplex E s;
               s = lx_set_gpsi E s;
               s = lx_set_phy E s;
               s = s\<lparr>l_block := (l_block s)\<lparr>sn_mode := lx_mode s\<rparr>\<rparr>;
               s = pcnet32_load_multicast K s;
               (fail, s) = pcnet32_init_ring E K s in
      if fail then
        let s = fold (free_rx_slot E) [0..<RX_RING_SIZE] s;
            s = lx_write_bcr E 20 4 s
        in (Some E_NOMEM, lx_free_irq E s)
      else (None, lx_start E K s))"

definition pcnet32_close :: "env \<Rightarrow> lk \<Rightarrow> lx \<Rightarrow> lx" where
  "pcnet32_close E K s =
     (let s = emit E (Kernel ''del_timer_sync(watchdog)'') s;
          s = netif_stop_queue E s;
          (v, s) = lx_read_csr E 112 s;
          s = s\<lparr>l_stats := (l_stats s)\<lparr>ls_rx_missed_errors := ucast v\<rparr>\<rparr>;
          s = lx_msg_csr0 E K ''IFDOWN'' s;
          s = lx_write_csr E 0 0x0004 s;
          s = lx_write_bcr E 20 4 s;
          s = lx_free_irq E s;
          s = fold (free_rx_slot E) [0..<RX_RING_SIZE] s
      in fold (purge_slot E) [0..<TX_RING_SIZE] s)"

definition pcnet32_get_stats :: "env \<Rightarrow> lx \<Rightarrow> lx_stats \<times> lx" where
  "pcnet32_get_stats E s =
     (let (saved_addr, s) = lx_read_rap E s;
          (v, s) = lx_read_csr E 112 s;
          s = s\<lparr>l_stats := (l_stats s)\<lparr>ls_rx_missed_errors := ucast v\<rparr>\<rparr>;
          s = lx_write_rap E saved_addr s
      in (l_stats s, s))"

subsection \<open>Management registers\<close>

definition mdio_addr :: "u32 \<Rightarrow> u32 \<Rightarrow> u16" where
  "mdio_addr phy_id reg_num = ucast (push_bit 5 (phy_id AND 0x1f) OR (reg_num AND 0x1f))"

definition mdio_read :: "env \<Rightarrow> u32 \<Rightarrow> u32 \<Rightarrow> lx \<Rightarrow> u16 \<times> lx" where
  "mdio_read E phy_id reg_num s =
     (if \<not> l_mii s then (0, s)
      else lx_read_bcr E 34 (lx_write_bcr E 33 (mdio_addr phy_id reg_num) s))"

definition mdio_write :: "env \<Rightarrow> u32 \<Rightarrow> u32 \<Rightarrow> u32 \<Rightarrow> lx \<Rightarrow> lx" where
  "mdio_write E phy_id reg_num val s =
     (if \<not> l_mii s then s
      else lx_write_bcr E 34 (ucast val) (lx_write_bcr E 33 (mdio_addr phy_id reg_num) s))"

text \<open>The methods that hand over to the MII library, where the chip has the registers.\<close>

definition lx_mii_call :: "lk \<Rightarrow> string \<Rightarrow> lx \<Rightarrow> (lx_err + int) \<times> lx" where
  "lx_mii_call K f s = (if l_mii s then (let (r, s) = lk_mii K f s in (Inr r, s)) else (Inl E_OPNOTSUPP, s))"

definition lx_ioctl :: "lk \<Rightarrow> lx \<Rightarrow> (lx_err + int) \<times> lx" where
  "lx_ioctl K s = lx_mii_call K ''generic_mii_ioctl'' s"

definition pcnet32_watchdog :: "env \<Rightarrow> lk \<Rightarrow> lx \<Rightarrow> lx" where
  "pcnet32_watchdog E K s =
     emit E (Kernel ''mod_timer(watchdog)'') (if l_mii s then snd (lk_mii K ''mii_check_media'' s) else s)"

definition pcnet32_get_settings :: "lk \<Rightarrow> lx \<Rightarrow> (lx_err + int) \<times> lx" where
  "pcnet32_get_settings K s =
     (if l_mii s then (Inr 0, snd (lk_mii K ''mii_ethtool_gset'' s)) else (Inl E_OPNOTSUPP, s))"

definition pcnet32_set_settings :: "lk \<Rightarrow> lx \<Rightarrow> (lx_err + int) \<times> lx" where
  "pcnet32_set_settings K s = lx_mii_call K ''mii_ethtool_sset'' s"

definition pcnet32_nway_reset :: "lk \<Rightarrow> lx \<Rightarrow> (lx_err + int) \<times> lx" where
  "pcnet32_nway_reset K s = lx_mii_call K ''mii_nway_restart'' s"

definition pcnet32_get_link :: "env \<Rightarrow> lk \<Rightarrow> lx \<Rightarrow> int \<times> lx" where
  "pcnet32_get_link E K s =
     (if l_mii s then lk_mii K ''mii_link_ok'' s
      else let (v, s) = lx_read_bcr E 4 s in (if v \<noteq> 0xc0 then 1 else 0, s))"

definition pcnet32_get_msglevel :: "lx \<Rightarrow> u32" where
  "pcnet32_get_msglevel s = l_msg_enable s"

definition pcnet32_set_msglevel :: "u32 \<Rightarrow> lx \<Rightarrow> lx" where
  "pcnet32_set_msglevel value s = s\<lparr>l_msg_enable := value\<rparr>"

text \<open>Maximum and number of pending transmit and receive descriptors.\<close>

definition pcnet32_get_ringparam :: "lx \<Rightarrow> u32 \<times> u32 \<times> u32 \<times> u32" where
  "pcnet32_get_ringparam s =
     (of_nat (TX_RING_SIZE - 1), l_cur_tx s - l_dirty_tx s,
      of_nat (RX_RING_SIZE - 1), l_cur_rx s AND of_nat RX_RING_MOD_MASK)"

text \<open>The names of the self tests, each padded with zeros to \<open>width\<close> bytes, and their number.\<close>

definition pcnet32_gstrings_test :: "string list" where
  "pcnet32_gstrings_test = [''Loopback test  (offline)'']"

definition pcnet32_get_strings :: "nat \<Rightarrow> string" where
  "pcnet32_get_strings width = concat (map (\<lambda>n. n @ replicate (width - length n) (CHR 0x00)) pcnet32_gstrings_test)"

definition pcnet32_self_test_count :: nat where
  "pcnet32_self_test_count = length pcnet32_gstrings_test"

subsection \<open>The loopback test\<close>

definition lx_test_len :: nat where "lx_test_len = 60"

text \<open>The packet number \<open>x\<close>: two addresses, the type, the number and the data.\<close>

definition lx_test_packet :: "lx \<Rightarrow> nat \<Rightarrow> u8 list" where
  "lx_test_packet s x = take 6 (l_dev_addr s) @ take 6 (l_dev_addr s) @ [0x08, 0x06] @ [of_nat x] @ map of_nat [0..<lx_test_len]"

fun lx_put_packets :: "env \<Rightarrow> lk \<Rightarrow> nat list \<Rightarrow> lx \<Rightarrow> bool \<times> lx" where
  "lx_put_packets E K [] s = (True, s)"
| "lx_put_packets E K (x # xs) s =
     (let (b, s) = dev_alloc_skb E K (lx_test_len + 15) s in
      case b of None \<Rightarrow> (False, s)
      | Some b \<Rightarrow>
          let packet = sk_data b;
              b = skb_put (lx_test_len + 15) b;
              s = s\<lparr>l_tx_skbuff := (l_tx_skbuff s)[x := Some b]\<rparr>;
              s = upd_lx_tx x (\<lambda>d. d\<lparr>mds_length := - of_nat (sk_len b)\<rparr>) s;
              s = upd_lx_tx x (\<lambda>d. d\<lparr>mds_misc := 0\<rparr>) s;
              s = s\<lparr>mem := (mem s)\<lparr>ram := poke packet (lx_test_packet s x) (ram (mem s))\<rparr>\<rparr>;
              (a, s) = pci_map_single E K (sk_data b) (sk_len b) s;
              s = s\<lparr>l_tx_dma := (l_tx_dma s)[x := a]\<rparr>;
              s = upd_lx_tx x (\<lambda>d. d\<lparr>mds_buffer := a\<rparr>) s;
              s = upd_lx_tx x (\<lambda>d. d\<lparr>mds_status := 0x8300\<rparr>) s
          in lx_put_packets E K xs s)"

text \<open>Up to \<open>n\<close> milliseconds until the chip has given a receive descriptor back; \<open>False\<close> when it has not.\<close>

fun lx_wait_desc :: "env \<Rightarrow> nat \<Rightarrow> nat \<Rightarrow> lx \<Rightarrow> bool \<times> lx" where
  "lx_wait_desc E x 0 s = (False, s)"
| "lx_wait_desc E x (Suc n) s =
     (if has (mds_status (lx_rx s x)) 0x8000 then lx_wait_desc E x n (emit E (Sleep 1) s) else (True, s))"

fun lx_wait_descs :: "env \<Rightarrow> nat list \<Rightarrow> lx \<Rightarrow> lx" where
  "lx_wait_descs E [] s = s"
| "lx_wait_descs E (x # xs) s = (let (ok, s) = lx_wait_desc E x 200 s in if ok then lx_wait_descs E xs s else s)"

text \<open>The comparison, which stops at the first difference; \<open>None\<close> is a null pointer followed.\<close>

fun lx_compare :: "nat list \<Rightarrow> lx \<Rightarrow> bool option" where
  "lx_compare [] s = Some True"
| "lx_compare (x # xs) s = do {
     r \<leftarrow> l_rx_skbuff s ! x;
     t \<leftarrow> l_tx_skbuff s ! x;
     if skb_bytes s (r\<lparr>sk_len := lx_test_len + 15\<rparr>) = skb_bytes s (t\<lparr>sk_len := lx_test_len + 15\<rparr>)
     then lx_compare xs s else Some False
   }"

definition lx_loopback_clean_up :: "env \<Rightarrow> lk \<Rightarrow> lx \<Rightarrow> lx" where
  "lx_loopback_clean_up E K s =
     (let (x, s) = lx_read_csr E 15 s;
          s = lx_write_csr E 15 (x AND NOT 0x0044) s;
          (x, s) = lx_read_bcr E 32 s;
          s = lx_write_bcr E 32 (x AND NOT 0x0002) s
      in if l_running s then snd (pcnet32_open E K s) else lx_write_bcr E 20 4 s)"

text \<open>The result is whether the test passed (\<^verbatim>\<open>rc\<close> and \<^verbatim>\<open>*data1\<close> are 0).\<close>

definition pcnet32_loopback_test :: "env \<Rightarrow> lk \<Rightarrow> lx \<Rightarrow> (bool \<times> lx) option" where
  "pcnet32_loopback_test E K s = (
     let s = (if l_running s then pcnet32_close E K s else s);
         s = lx_reset E s;
         s = lx_write_bcr E 20 2 s;
         s = s\<lparr>l_block := (l_block s)\<lparr>sn_mode := lx_mode s, sn_filter := [0, 0]\<rparr>\<rparr>;
         s = pcnet32_restart E K 0x0000 s;
         s = lx_write_csr E 0 0x0004 s;
         (ok, s) = lx_put_packets E K [0..<4] s in
     if \<not> ok then Some (False, lx_loopback_clean_up E K s)
     else do {
       let (x, s) = lx_read_bcr E 32 s;
       let s = lx_write_bcr E 32 (x OR 0x0002) s;
       let s = lx_write_csr E 15 0x0044 s;
       let s = lx_write_csr E 0 0x0002 s;
       let s = lx_wait_descs E [0..<4] s;
       let s = lx_write_csr E 0 0x0004 s;
       same \<leftarrow> lx_compare [0..<4] s;
       Some (same, lx_loopback_clean_up E K s)
     })"

text \<open>The result is whether the test was run and failed.\<close>

definition pcnet32_ethtool_test :: "env \<Rightarrow> lk \<Rightarrow> bool \<Rightarrow> lx \<Rightarrow> (bool \<times> lx) option" where
  "pcnet32_ethtool_test E K offline s =
     (if offline then do { (ok, s) \<leftarrow> pcnet32_loopback_test E K s; Some (\<not> ok, s) } else Some (False, s))"

subsection \<open>The LEDs\<close>

definition blink_led :: "env \<Rightarrow> nat \<Rightarrow> lx \<Rightarrow> lx" where
  "blink_led E i s = (let (v, s) = lx_read_bcr E (of_nat i) s in lx_write_bcr E (of_nat i) (v XOR 0x4000) s)"

definition pcnet32_led_blink_callback :: "env \<Rightarrow> lx \<Rightarrow> lx" where
  "pcnet32_led_blink_callback E s = emit E (Kernel ''mod_timer(blink)'') (fold (blink_led E) [4..<8] s)"

fun lx_read_bcrs :: "env \<Rightarrow> nat list \<Rightarrow> lx \<Rightarrow> u16 list \<times> lx" where
  "lx_read_bcrs E [] s = ([], s)"
| "lx_read_bcrs E (i # is) s =
     (let (v, s) = lx_read_bcr E (of_nat i) s; (vs, s) = lx_read_bcrs E is s in (v # vs, s))"

fun lx_write_bcrs :: "env \<Rightarrow> nat list \<Rightarrow> u16 list \<Rightarrow> lx \<Rightarrow> lx" where
  "lx_write_bcrs E (i # is) (v # vs) s = lx_write_bcrs E is vs (lx_write_bcr E (of_nat i) v s)"
| "lx_write_bcrs E _ _ s = s"

definition phys_id_begin :: "env \<Rightarrow> lk \<Rightarrow> u32 \<Rightarrow> lx \<Rightarrow> u16 list \<times> lx" where
  "phys_id_begin E K data s =
     (let s = (if \<not> l_blink s then s\<lparr>l_blink := True\<rparr> else s);
          (regs, s) = lx_read_bcrs E [4..<8] s;
          s = emit E (Kernel ''mod_timer(blink)'') s;
          data = (if data = 0 \<or> lk_max_seconds K < data then lk_max_seconds K else data)
      in (regs, emit E (Call ''schedule_timeout'' [data]) s))"

definition phys_id_end :: "env \<Rightarrow> u16 list \<Rightarrow> lx \<Rightarrow> lx" where
  "phys_id_end E regs s = lx_write_bcrs E [4..<8] regs (emit E (Kernel ''del_timer_sync(blink)'') s)"

text \<open>\<open>meanwhile\<close> is what happens while the caller sleeps: the callback every quarter of a second, and the rest.\<close>

definition pcnet32_phys_id :: "env \<Rightarrow> lk \<Rightarrow> (lx \<Rightarrow> lx) \<Rightarrow> u32 \<Rightarrow> lx \<Rightarrow> lx" where
  "pcnet32_phys_id E K meanwhile data s =
     (let (regs, s) = phys_id_begin E K data s
      in phys_id_end E regs (meanwhile s))"

subsection \<open>The register dump\<close>

definition PCNET32_NUM_REGS :: nat where [hw_consts]: "PCNET32_NUM_REGS = 168"

text \<open>The size of the register dump in bytes.\<close>

definition pcnet32_get_regs_len :: nat where
  "pcnet32_get_regs_len = PCNET32_NUM_REGS * 2"

fun lx_wait_suspend :: "env \<Rightarrow> nat \<Rightarrow> lx \<Rightarrow> lx" where
  "lx_wait_suspend E 0 s = s"
| "lx_wait_suspend E (Suc n) s =
     (let (v, s) = lx_read_csr E 5 s in if has v 0x0001 then s else lx_wait_suspend E n (emit E (Sleep 1) s))"

fun lx_read_prom :: "env \<Rightarrow> nat list \<Rightarrow> lx \<Rightarrow> u16 list \<times> lx" where
  "lx_read_prom E [] s = ([], s)"
| "lx_read_prom E (i # is) s =
     (let (v, s) = csrRead16 E (l_base s + of_nat i) s; (vs, s) = lx_read_prom E is s in (v # vs, s))"

fun lx_read_csrs :: "env \<Rightarrow> nat list \<Rightarrow> lx \<Rightarrow> u16 list \<times> lx" where
  "lx_read_csrs E [] s = ([], s)"
| "lx_read_csrs E (i # is) s =
     (let (v, s) = lx_read_csr E (of_nat i) s; (vs, s) = lx_read_csrs E is s in (v # vs, s))"

fun lx_read_phy :: "env \<Rightarrow> nat list \<Rightarrow> lx \<Rightarrow> u16 list \<times> lx" where
  "lx_read_phy E [] s = ([], s)"
| "lx_read_phy E (i # is) s =
     (let s = lx_write_bcr E 33 (ucast (push_bit 5 (l_phy_id s) OR of_nat i)) s;
          (v, s) = lx_read_bcr E 34 s;
          (vs, s) = lx_read_phy E is s
      in (v # vs, s))"

definition pcnet32_get_regs :: "env \<Rightarrow> lx \<Rightarrow> u16 list \<times> lx" where
  "pcnet32_get_regs E s =
     (let (csr0, s) = lx_read_csr E 0 s;
          s = (if \<not> has csr0 0x0004 then lx_wait_suspend E 201 (lx_write_csr E 5 0x0001 s) else s);
          (prom, s) = lx_read_prom E (map (\<lambda>k. 2 * k) [0..<8]) s;
          (csrs, s) = lx_read_csrs E ([0..<90] @ [112, 114]) s;
          (bcrs, s) = lx_read_bcrs E [0..<36] s;
          (phys, s) = (if l_mii s then lx_read_phy E [0..<32] s else ([], s));
          s = (if \<not> has csr0 0x0004 then lx_write_csr E 5 0x0000 s else s);
          buff = prom @ csrs @ bcrs @ phys
      in (buff @ replicate (PCNET32_NUM_REGS - length buff) 0, s))"

end
