(* ===== verification/Linux_Facts.thy ===== *)
theory Linux_Facts
  imports Slots Linux_Dev
begin

text \<open>
  What the operations of the Linux driver leave alone, and the state of its rings: the transmit ring
  holds the packets between its two indices and nothing else, every receive slot has a buffer. Both
  are kept by output, reception, the reclaiming of sent packets and the restart.
\<close>

unbundle bit_operations_syntax

subsection \<open>Frames\<close>

lemma emit_sel_lx [simp]:
  fixes s :: lx
  shows
    "l_dma_addr (emit E e s) = l_dma_addr s" "l_block (emit E e s) = l_block s"
    "l_tx_skbuff (emit E e s) = l_tx_skbuff s" "l_rx_skbuff (emit E e s) = l_rx_skbuff s"
    "l_tx_dma (emit E e s) = l_tx_dma s" "l_rx_dma (emit E e s) = l_rx_dma s" "l_a (emit E e s) = l_a s"
    "l_cur_rx (emit E e s) = l_cur_rx s" "l_cur_tx (emit E e s) = l_cur_tx s" "l_dirty_rx (emit E e s) = l_dirty_rx s"
    "l_dirty_tx (emit E e s) = l_dirty_tx s" "l_stats (emit E e s) = l_stats s" "l_tx_full (emit E e s) = l_tx_full s"
    "l_options (emit E e s) = l_options s" "l_shared_irq (emit E e s) = l_shared_irq s"
    "l_dxsuflo (emit E e s) = l_dxsuflo s" "l_mii (emit E e s) = l_mii s"
    "l_full_duplex (emit E e s) = l_full_duplex s" "l_phy_id (emit E e s) = l_phy_id s"
    "l_name (emit E e s) = l_name s" "l_blink (emit E e s) = l_blink s" "l_base (emit E e s) = l_base s"
    "l_dev_addr (emit E e s) = l_dev_addr s" "l_irq (emit E e s) = l_irq s" "l_flags (emit E e s) = l_flags s"
    "l_mc_list (emit E e s) = l_mc_list s" "l_queue_stopped (emit E e s) = l_queue_stopped s"
    "l_running (emit E e s) = l_running s" "l_pci_dev (emit E e s) = l_pci_dev s"
    "l_msg_enable (emit E e s) = l_msg_enable s" "l_cards_found (emit E e s) = l_cards_found s"
  by (cases s, simp add: emit_def)+

lemma upd_mds_sel_lx [simp]:
  fixes s :: lx
  shows
    "l_dma_addr (upd_mds a f s) = l_dma_addr s" "l_block (upd_mds a f s) = l_block s"
    "l_tx_skbuff (upd_mds a f s) = l_tx_skbuff s" "l_rx_skbuff (upd_mds a f s) = l_rx_skbuff s"
    "l_tx_dma (upd_mds a f s) = l_tx_dma s" "l_rx_dma (upd_mds a f s) = l_rx_dma s" "l_a (upd_mds a f s) = l_a s"
    "l_cur_rx (upd_mds a f s) = l_cur_rx s" "l_cur_tx (upd_mds a f s) = l_cur_tx s"
    "l_dirty_rx (upd_mds a f s) = l_dirty_rx s" "l_dirty_tx (upd_mds a f s) = l_dirty_tx s"
    "l_stats (upd_mds a f s) = l_stats s" "l_tx_full (upd_mds a f s) = l_tx_full s"
    "l_options (upd_mds a f s) = l_options s" "l_shared_irq (upd_mds a f s) = l_shared_irq s"
    "l_dxsuflo (upd_mds a f s) = l_dxsuflo s" "l_mii (upd_mds a f s) = l_mii s"
    "l_full_duplex (upd_mds a f s) = l_full_duplex s" "l_phy_id (upd_mds a f s) = l_phy_id s"
    "l_name (upd_mds a f s) = l_name s" "l_blink (upd_mds a f s) = l_blink s" "l_base (upd_mds a f s) = l_base s"
    "l_dev_addr (upd_mds a f s) = l_dev_addr s" "l_irq (upd_mds a f s) = l_irq s"
    "l_flags (upd_mds a f s) = l_flags s" "l_mc_list (upd_mds a f s) = l_mc_list s"
    "l_queue_stopped (upd_mds a f s) = l_queue_stopped s" "l_running (upd_mds a f s) = l_running s"
    "l_pci_dev (upd_mds a f s) = l_pci_dev s" "l_msg_enable (upd_mds a f s) = l_msg_enable s"
    "l_cards_found (upd_mds a f s) = l_cards_found s"
    "trace (upd_mds a f s) = trace s"
  by (simp_all add: upd_mds_def)

lemma upd_lx_rx_sel [simp]:
  "l_dma_addr (upd_lx_rx i f s) = l_dma_addr s" "l_block (upd_lx_rx i f s) = l_block s"
    "l_tx_skbuff (upd_lx_rx i f s) = l_tx_skbuff s" "l_rx_skbuff (upd_lx_rx i f s) = l_rx_skbuff s"
    "l_tx_dma (upd_lx_rx i f s) = l_tx_dma s" "l_rx_dma (upd_lx_rx i f s) = l_rx_dma s"
    "l_a (upd_lx_rx i f s) = l_a s" "l_cur_rx (upd_lx_rx i f s) = l_cur_rx s"
    "l_cur_tx (upd_lx_rx i f s) = l_cur_tx s" "l_dirty_rx (upd_lx_rx i f s) = l_dirty_rx s"
    "l_dirty_tx (upd_lx_rx i f s) = l_dirty_tx s" "l_stats (upd_lx_rx i f s) = l_stats s"
    "l_tx_full (upd_lx_rx i f s) = l_tx_full s" "l_options (upd_lx_rx i f s) = l_options s"
    "l_shared_irq (upd_lx_rx i f s) = l_shared_irq s" "l_dxsuflo (upd_lx_rx i f s) = l_dxsuflo s"
    "l_mii (upd_lx_rx i f s) = l_mii s" "l_full_duplex (upd_lx_rx i f s) = l_full_duplex s"
    "l_phy_id (upd_lx_rx i f s) = l_phy_id s" "l_name (upd_lx_rx i f s) = l_name s"
    "l_blink (upd_lx_rx i f s) = l_blink s" "l_base (upd_lx_rx i f s) = l_base s"
    "l_dev_addr (upd_lx_rx i f s) = l_dev_addr s" "l_irq (upd_lx_rx i f s) = l_irq s"
    "l_flags (upd_lx_rx i f s) = l_flags s" "l_mc_list (upd_lx_rx i f s) = l_mc_list s"
    "l_queue_stopped (upd_lx_rx i f s) = l_queue_stopped s" "l_running (upd_lx_rx i f s) = l_running s"
    "l_pci_dev (upd_lx_rx i f s) = l_pci_dev s" "l_msg_enable (upd_lx_rx i f s) = l_msg_enable s"
    "l_cards_found (upd_lx_rx i f s) = l_cards_found s"
    "trace (upd_lx_rx i f s) = trace s"
  by (simp_all add: upd_lx_rx_def)

lemma upd_lx_tx_sel [simp]:
  "l_dma_addr (upd_lx_tx i f s) = l_dma_addr s" "l_block (upd_lx_tx i f s) = l_block s"
    "l_tx_skbuff (upd_lx_tx i f s) = l_tx_skbuff s" "l_rx_skbuff (upd_lx_tx i f s) = l_rx_skbuff s"
    "l_tx_dma (upd_lx_tx i f s) = l_tx_dma s" "l_rx_dma (upd_lx_tx i f s) = l_rx_dma s"
    "l_a (upd_lx_tx i f s) = l_a s" "l_cur_rx (upd_lx_tx i f s) = l_cur_rx s"
    "l_cur_tx (upd_lx_tx i f s) = l_cur_tx s" "l_dirty_rx (upd_lx_tx i f s) = l_dirty_rx s"
    "l_dirty_tx (upd_lx_tx i f s) = l_dirty_tx s" "l_stats (upd_lx_tx i f s) = l_stats s"
    "l_tx_full (upd_lx_tx i f s) = l_tx_full s" "l_options (upd_lx_tx i f s) = l_options s"
    "l_shared_irq (upd_lx_tx i f s) = l_shared_irq s" "l_dxsuflo (upd_lx_tx i f s) = l_dxsuflo s"
    "l_mii (upd_lx_tx i f s) = l_mii s" "l_full_duplex (upd_lx_tx i f s) = l_full_duplex s"
    "l_phy_id (upd_lx_tx i f s) = l_phy_id s" "l_name (upd_lx_tx i f s) = l_name s"
    "l_blink (upd_lx_tx i f s) = l_blink s" "l_base (upd_lx_tx i f s) = l_base s"
    "l_dev_addr (upd_lx_tx i f s) = l_dev_addr s" "l_irq (upd_lx_tx i f s) = l_irq s"
    "l_flags (upd_lx_tx i f s) = l_flags s" "l_mc_list (upd_lx_tx i f s) = l_mc_list s"
    "l_queue_stopped (upd_lx_tx i f s) = l_queue_stopped s" "l_running (upd_lx_tx i f s) = l_running s"
    "l_pci_dev (upd_lx_tx i f s) = l_pci_dev s" "l_msg_enable (upd_lx_tx i f s) = l_msg_enable s"
    "l_cards_found (upd_lx_tx i f s) = l_cards_found s"
    "trace (upd_lx_tx i f s) = trace s"
  by (simp_all add: upd_lx_tx_def)

lemma same_vars_lx:
  fixes s t :: lx
  assumes "same_vars s t"
  shows
    "l_dma_addr t = l_dma_addr s" "l_block t = l_block s" "l_tx_skbuff t = l_tx_skbuff s"
    "l_rx_skbuff t = l_rx_skbuff s" "l_tx_dma t = l_tx_dma s" "l_rx_dma t = l_rx_dma s" "l_a t = l_a s"
    "l_cur_rx t = l_cur_rx s" "l_cur_tx t = l_cur_tx s" "l_dirty_rx t = l_dirty_rx s" "l_dirty_tx t = l_dirty_tx s"
    "l_stats t = l_stats s" "l_tx_full t = l_tx_full s" "l_options t = l_options s" "l_shared_irq t = l_shared_irq s"
    "l_dxsuflo t = l_dxsuflo s" "l_mii t = l_mii s" "l_full_duplex t = l_full_duplex s" "l_phy_id t = l_phy_id s"
    "l_name t = l_name s" "l_blink t = l_blink s" "l_base t = l_base s" "l_dev_addr t = l_dev_addr s"
    "l_irq t = l_irq s" "l_flags t = l_flags s" "l_mc_list t = l_mc_list s" "l_queue_stopped t = l_queue_stopped s"
    "l_running t = l_running s" "l_pci_dev t = l_pci_dev s" "l_msg_enable t = l_msg_enable s"
    "l_cards_found t = l_cards_found s"
  using assms unfolding same_vars_def by (cases s; cases t; simp)+

lemma lx_md_vars [simp]:
  "lx_rx (s\<lparr>l_tx_skbuff := v0\<rparr>) i = lx_rx s i" "lx_rx (s\<lparr>l_rx_skbuff := v1\<rparr>) i = lx_rx s i"
  "lx_rx (s\<lparr>l_tx_dma := v2\<rparr>) i = lx_rx s i" "lx_rx (s\<lparr>l_rx_dma := v3\<rparr>) i = lx_rx s i"
  "lx_rx (s\<lparr>l_cur_rx := v4\<rparr>) i = lx_rx s i" "lx_rx (s\<lparr>l_cur_tx := v5\<rparr>) i = lx_rx s i"
  "lx_rx (s\<lparr>l_dirty_rx := v6\<rparr>) i = lx_rx s i" "lx_rx (s\<lparr>l_dirty_tx := v7\<rparr>) i = lx_rx s i"
  "lx_rx (s\<lparr>l_stats := v8\<rparr>) i = lx_rx s i" "lx_rx (s\<lparr>l_tx_full := v9\<rparr>) i = lx_rx s i"
  "lx_rx (s\<lparr>l_block := v10\<rparr>) i = lx_rx s i" "lx_rx (s\<lparr>l_queue_stopped := v11\<rparr>) i = lx_rx s i"
  "lx_tx (s\<lparr>l_tx_skbuff := v0\<rparr>) i = lx_tx s i" "lx_tx (s\<lparr>l_rx_skbuff := v1\<rparr>) i = lx_tx s i"
  "lx_tx (s\<lparr>l_tx_dma := v2\<rparr>) i = lx_tx s i" "lx_tx (s\<lparr>l_rx_dma := v3\<rparr>) i = lx_tx s i"
  "lx_tx (s\<lparr>l_cur_rx := v4\<rparr>) i = lx_tx s i" "lx_tx (s\<lparr>l_cur_tx := v5\<rparr>) i = lx_tx s i"
  "lx_tx (s\<lparr>l_dirty_rx := v6\<rparr>) i = lx_tx s i" "lx_tx (s\<lparr>l_dirty_tx := v7\<rparr>) i = lx_tx s i"
  "lx_tx (s\<lparr>l_stats := v8\<rparr>) i = lx_tx s i" "lx_tx (s\<lparr>l_tx_full := v9\<rparr>) i = lx_tx s i"
  "lx_tx (s\<lparr>l_block := v10\<rparr>) i = lx_tx s i" "lx_tx (s\<lparr>l_queue_stopped := v11\<rparr>) i = lx_tx s i"
  by (simp_all add: lx_rx_def lx_tx_def lx_rx_at_def lx_tx_at_def)

lemma evolves_lx [simp]:
  "evolves E s (snd (lx_read_csr E i s))" "evolves E s (lx_write_csr E i v s)"
  "evolves E s (snd (lx_read_bcr E i s))" "evolves E s (lx_write_bcr E i v s)"
  "evolves E s (snd (lx_read_rap E s))" "evolves E s (lx_write_rap E v s)" "evolves E s (lx_reset E s)"
  "evolves E s (lx_msg_csr0 E K m s)"
  by (auto simp: drv_ops split: pcnet32_access.split)

lemma evolves_lx_poll: "evolves E s (lx_poll E m n s)"
proof (induction n arbitrary: s)
  case (Suc n)
  from evolves_trans[OF evolves_lx(1) Suc.IH[of "snd (lx_read_csr E 0 s)"]] show ?case
    by (simp add: Let_def split_def)
qed simp

text \<open>The 48 descriptors are distinct.\<close>

lemma lx_md_upd [simp]:
  "i < RX_RING_SIZE \<Longrightarrow> j < RX_RING_SIZE \<Longrightarrow> lx_rx (upd_lx_rx i f s) j = (if j = i then f (lx_rx s i) else lx_rx s j)"
  "i < TX_RING_SIZE \<Longrightarrow> j < TX_RING_SIZE \<Longrightarrow> lx_tx (upd_lx_tx i f s) j = (if j = i then f (lx_tx s i) else lx_tx s j)"
  "i < TX_RING_SIZE \<Longrightarrow> j < RX_RING_SIZE \<Longrightarrow> lx_rx (upd_lx_tx i f s) j = lx_rx s j"
  "i < RX_RING_SIZE \<Longrightarrow> j < TX_RING_SIZE \<Longrightarrow> lx_tx (upd_lx_rx i f s) j = lx_tx s j"
  using sn_offset_inj[of i j "l_dma_addr s"] sn_offset_inj[of "32 + i" "32 + j" "l_dma_addr s"]
    sn_offset_inj[of "32 + i" j "l_dma_addr s"] sn_offset_inj[of i "32 + j" "l_dma_addr s"]
  by (auto simp: upd_lx_rx_def upd_lx_tx_def lx_rx_def lx_tx_def lx_rx_at_def lx_tx_at_def upd_mds_mds_hist
      RX_RING_SIZE_def TX_RING_SIZE_def)

text \<open>The chip never writes the buffer address of a descriptor.\<close>

definition keeps_buffers :: "env \<Rightarrow> bool" where
  "keeps_buffers E \<longleftrightarrow> (\<forall>h m a. mds_buffer (mds (dma E h m) a) = mds_buffer (mds m a))"

lemma quiet_keeps_buffers: "quiet_chip E \<Longrightarrow> keeps_buffers E"
  by (simp add: quiet_chip_def keeps_buffers_def)

text \<open>What of the state belongs to the transmit ring and to the receive ring.\<close>

definition lx_base :: "lx \<Rightarrow> u32 list" where
  "lx_base s = map (\<lambda>i. mds_buffer (lx_tx s i)) [0..<TX_RING_SIZE]"

definition lx_txv :: "lx \<Rightarrow> skb option list \<times> u32 list \<times> u32 list \<times> u32 \<times> u32 \<times> bool \<times> bool" where
  "lx_txv s = (l_tx_skbuff s, lx_base s, l_tx_dma s, l_cur_tx s, l_dirty_tx s, l_tx_full s, l_queue_stopped s)"

definition lx_rxv :: "lx \<Rightarrow> skb option list \<times> u32 list" where
  "lx_rxv s = (l_rx_skbuff s, l_rx_dma s)"

lemma lx_base_emit [simp]: "keeps_buffers E \<Longrightarrow> lx_base (emit E e s) = lx_base s"
  by (simp add: lx_base_def lx_tx_def lx_tx_at_def emit_mem keeps_buffers_def)

lemma lx_view_emit [simp]: "keeps_buffers E \<Longrightarrow> lx_txv (emit E e s) = lx_txv s" "lx_rxv (emit E e s) = lx_rxv s"
  by (simp_all add: lx_txv_def lx_rxv_def)

lemma lx_md_quiet:
  "quiet_chip E \<Longrightarrow> lx_tx (emit E e s) i = lx_tx s i" "quiet_chip E \<Longrightarrow> lx_rx (emit E e s) i = lx_rx s i"
  by (simp_all add: lx_tx_def lx_rx_def lx_tx_at_def lx_rx_at_def quiet_mem)

lemma lx_view_evolves:
  assumes "keeps_buffers E" "evolves E s t"
  shows "lx_txv t = lx_txv s \<and> lx_rxv t = lx_rxv s"
  using assms(2) by (rule evolves_keeps[where P = "\<lambda>t. lx_txv t = lx_txv s \<and> lx_rxv t = lx_rxv s"])
    (simp_all add: assms(1))

subsection \<open>The transmit ring\<close>

definition lx_ring_ok :: "u32 \<Rightarrow> lx \<Rightarrow> bool" where
  "lx_ring_ok d s \<longleftrightarrow> length (l_tx_skbuff s) = TX_RING_SIZE \<and> length (l_tx_dma s) = TX_RING_SIZE \<and>
     ring_holds (l_tx_skbuff s) (lx_slot d) (unat (l_cur_tx s - d)) \<and>
     (\<forall>i<TX_RING_SIZE. lx_base s ! i = 0 \<longleftrightarrow> l_tx_skbuff s ! i = None)"

definition lx_pending :: "lx \<Rightarrow> nat" where
  "lx_pending s = unat (l_cur_tx s - l_dirty_tx s)"

definition lx_tx_ok :: "lx \<Rightarrow> bool" where
  "lx_tx_ok s \<longleftrightarrow> lx_ring_ok (l_dirty_tx s) s \<and> (l_queue_stopped s \<or> lx_pending s < TX_RING_SIZE) \<and>
     (l_queue_stopped s \<longrightarrow> l_tx_full s)"

definition lx_queue_from :: "u32 \<Rightarrow> lx \<Rightarrow> skb list" where
  "lx_queue_from d s = ring_contents (l_tx_skbuff s) (lx_slot d) (unat (l_cur_tx s - d))"

definition lx_queue :: "lx \<Rightarrow> skb list" where
  "lx_queue s = lx_queue_from (l_dirty_tx s) s"

lemma lx_txv_ok:
  assumes "lx_txv t = lx_txv s"
  shows "lx_ring_ok d t = lx_ring_ok d s" "lx_tx_ok t = lx_tx_ok s" "lx_queue_from d t = lx_queue_from d s"
    "lx_queue t = lx_queue s" "lx_pending t = lx_pending s"
  using assms by (simp_all add: lx_txv_def lx_ring_ok_def lx_tx_ok_def lx_queue_from_def lx_queue_def lx_pending_def)

lemma lx_base_nth [simp]: "i < TX_RING_SIZE \<Longrightarrow> lx_base s ! i = mds_buffer (lx_tx s i)"
  by (simp add: lx_base_def)

lemma lx_ring_bound: "lx_ring_ok d s \<Longrightarrow> unat (l_cur_tx s - d) \<le> TX_RING_SIZE"
  by (simp add: lx_ring_ok_def ring_holds_def)

text \<open>A packet goes to the slot of \<open>l_cur_tx\<close>, which is free while the queue is not stopped.\<close>

lemma lx_ring_put:
  assumes ok: "lx_ring_ok d s" and room: "unat (l_cur_tx s - d) < TX_RING_SIZE" and a: "a \<noteq> 0"
    and t: "l_tx_skbuff t = (l_tx_skbuff s)[lx_slot (l_cur_tx s) := Some b]" "length (l_tx_dma t) = TX_RING_SIZE"
      "l_cur_tx t = l_cur_tx s + 1"
      "\<And>i. i < TX_RING_SIZE \<Longrightarrow> mds_buffer (lx_tx t i) = (if i = lx_slot (l_cur_tx s) then a else mds_buffer (lx_tx s i))"
  shows "lx_ring_ok d t" "lx_queue_from d t = lx_queue_from d s @ [b]" "l_tx_skbuff s ! lx_slot (l_cur_tx s) = None"
proof -
  let ?n = "unat (l_cur_tx s - d)"
  have l: "length (l_tx_skbuff s) = TX_RING_SIZE" and h: "ring_holds (l_tx_skbuff s) (lx_slot d) ?n"
    and n: "?n < length (l_tx_skbuff s)"
    using ok room by (simp_all add: lx_ring_ok_def)
  have c: "(lx_slot d + ?n) mod length (l_tx_skbuff s) = lx_slot (l_cur_tx s)"
    by (simp add: l lx_slot_cur[of "l_cur_tx s" d])
  note put = ring_put(1,2)[OF h n, of b, unfolded c]
  have p: "unat (l_cur_tx t - d) = Suc ?n" using pending_put[OF room] by (simp add: t(3))
  show "lx_queue_from d t = lx_queue_from d s @ [b]" using put(2) by (simp add: lx_queue_from_def p t(1))
  show "l_tx_skbuff s ! lx_slot (l_cur_tx s) = None" using ring_put(3)[OF h n] by (simp only: c)
  show "lx_ring_ok d t"
    unfolding lx_ring_ok_def
    using put(1) l t(2) ok a by (auto simp: p t(1) t(4) nth_list_update lx_ring_ok_def)
qed

text \<open>The oldest packet is taken out of the slot of \<open>d\<close>.\<close>

lemma lx_ring_take:
  assumes ok: "lx_ring_ok d s" and some: "d \<noteq> l_cur_tx s"
    and t: "l_tx_skbuff t = (l_tx_skbuff s)[lx_slot d := None]" "length (l_tx_dma t) = TX_RING_SIZE" "l_cur_tx t = l_cur_tx s"
      "\<And>i. i < TX_RING_SIZE \<Longrightarrow> mds_buffer (lx_tx t i) = (if i = lx_slot d then 0 else mds_buffer (lx_tx s i))"
  shows "lx_ring_ok (d + 1) t" "lx_queue_from d s = the (l_tx_skbuff s ! lx_slot d) # lx_queue_from (d + 1) t"
    "l_tx_skbuff s ! lx_slot d \<noteq> None"
proof -
  let ?n = "unat (l_cur_tx s - (d + 1))"
  have l: "length (l_tx_skbuff s) = TX_RING_SIZE" using ok by (simp add: lx_ring_ok_def)
  have p: "unat (l_cur_tx s - d) = Suc ?n" using some by (rule pending_take)
  then have h: "ring_holds (l_tx_skbuff s) (lx_slot d) (Suc ?n)" using ok by (simp add: lx_ring_ok_def)
  note take = ring_take[OF h]
  show "lx_queue_from d s = the (l_tx_skbuff s ! lx_slot d) # lx_queue_from (d + 1) t"
    using take(2) by (simp add: lx_queue_from_def p t lx_slot_next l)
  show "l_tx_skbuff s ! lx_slot d \<noteq> None" by (rule take(3))
  show "lx_ring_ok (d + 1) t"
    unfolding lx_ring_ok_def
    using take(1) l t(2) ok by (auto simp: t(1,3,4) nth_list_update lx_ring_ok_def lx_slot_next)
qed

text \<open>The slot of the next packet is occupied when the ring is full.\<close>

lemma lx_ring_full:
  assumes "lx_ring_ok d s"
  shows "mds_buffer (lx_tx s (lx_slot (l_cur_tx s))) \<noteq> 0 \<longleftrightarrow> unat (l_cur_tx s - d) = TX_RING_SIZE"
proof -
  let ?n = "unat (l_cur_tx s - d)"
  have l: "length (l_tx_skbuff s) = TX_RING_SIZE" "ring_holds (l_tx_skbuff s) (lx_slot d) ?n" "?n \<le> TX_RING_SIZE"
    using assms lx_ring_bound by (simp_all add: lx_ring_ok_def)
  have at: "l_tx_skbuff s ! ((lx_slot d + k) mod TX_RING_SIZE) \<noteq> None \<longleftrightarrow> k < ?n" if "k < TX_RING_SIZE" for k
    using l that by (simp add: ring_holds_def)
  have "l_tx_skbuff s ! lx_slot (l_cur_tx s) \<noteq> None \<longleftrightarrow> ?n = TX_RING_SIZE"
  proof (cases "?n = TX_RING_SIZE")
    case True
    then show ?thesis using at[of 0] lx_slot_cur[of "l_cur_tx s" d] by (simp add: TX_RING_SIZE_def)
  next
    case False
    then show ?thesis using at[of ?n] l(3) lx_slot_cur[of "l_cur_tx s" d] by simp
  qed
  then show ?thesis using assms by (auto simp: lx_ring_ok_def)
qed

lemma lx_fill_slot_sel [simp]:
  "l_tx_skbuff (lx_fill_slot E K i b s) = (l_tx_skbuff s)[i := Some b]"
  "l_tx_dma (lx_fill_slot E K i b s) = (l_tx_dma s)[i := lk_map K (sk_data b)]"
  "l_cur_tx (lx_fill_slot E K i b s) = l_cur_tx s" "l_dirty_tx (lx_fill_slot E K i b s) = l_dirty_tx s"
  "l_tx_full (lx_fill_slot E K i b s) = l_tx_full s" "l_queue_stopped (lx_fill_slot E K i b s) = l_queue_stopped s"
  "l_rx_skbuff (lx_fill_slot E K i b s) = l_rx_skbuff s" "l_rx_dma (lx_fill_slot E K i b s) = l_rx_dma s"
  by (simp_all add: lx_fill_slot_def pci_map_single_def Let_def)

lemma lx_emit_buffer [simp]: "keeps_buffers E \<Longrightarrow> mds_buffer (lx_tx (emit E e s) i) = mds_buffer (lx_tx s i)"
  by (simp add: lx_tx_def lx_tx_at_def emit_mem keeps_buffers_def)

lemma lx_fill_slot_buffer:
  "keeps_buffers E \<Longrightarrow> i < TX_RING_SIZE \<Longrightarrow> j < TX_RING_SIZE \<Longrightarrow> length (l_tx_dma s) = TX_RING_SIZE \<Longrightarrow>
     mds_buffer (lx_tx (lx_fill_slot E K i b s) j) = (if j = i then lk_map K (sk_data b) else mds_buffer (lx_tx s j))"
  by (simp add: lx_fill_slot_def pci_map_single_def Let_def)

lemma next_slot_nat: "Suc (lx_slot c) AND TX_RING_MOD_MASK = lx_slot (c + 1)"
  by (simp add: mod_mask lx_slot_next)

definition lx_sendable :: "lk \<Rightarrow> skb \<Rightarrow> bool" where
  "lx_sendable K b \<longleftrightarrow> lk_map K (sk_data b) \<noteq> 0"

text \<open>Output: the packet is put at the end of the ring, and the queue is stopped when the ring is full.\<close>

lemma start_xmit_ok:
  assumes E: "keeps_buffers E" and ok: "lx_tx_ok s" and on: "\<not> l_queue_stopped s" and b: "lx_sendable K b"
  defines "t \<equiv> snd (pcnet32_start_xmit E K b s)"
  shows "lx_tx_ok t" "lx_queue t = lx_queue s @ [b]" "l_queue_stopped t \<longleftrightarrow> lx_pending t = TX_RING_SIZE" "lx_rxv t = lx_rxv s"
proof -
  define u where "u = lx_msg_csr0 E K ''TX_QUEUED'' s"
  define v where "v = (lx_fill_slot E K (lx_slot (l_cur_tx u)) b u)\<lparr>l_cur_tx := l_cur_tx u + 1,
     l_stats := ls_tx_bytes_update (\<lambda>x. x + of_nat (sk_len b)) (l_stats (lx_fill_slot E K (lx_slot (l_cur_tx u)) b u))\<rparr>"
  define w where "w = lx_write_csr E 0 0x0048 v"
  have t: "t = (if mds_buffer (lx_tx w (lx_slot (l_cur_tx u + 1))) \<noteq> 0 then netif_stop_queue E (w\<lparr>l_tx_full := True\<rparr>) else w)"
    unfolding t_def pcnet32_start_xmit_def Let_def u_def[symmetric] lx_slot_def[symmetric] next_slot_nat
    by (simp add: w_def v_def)
  have us: "lx_txv u = lx_txv s \<and> lx_rxv u = lx_rxv s" unfolding u_def by (rule lx_view_evolves[OF E evolves_lx(8)])
  have wv: "lx_txv w = lx_txv v \<and> lx_rxv w = lx_rxv v" unfolding w_def by (rule lx_view_evolves[OF E evolves_lx(2)])
  have c: "l_cur_tx u = l_cur_tx s" "l_dirty_tx u = l_dirty_tx s" "l_queue_stopped u = l_queue_stopped s"
    using us by (simp_all add: lx_txv_def)
  have cw: "l_cur_tx w = l_cur_tx s + 1" "l_dirty_tx w = l_dirty_tx s" "\<not> l_queue_stopped w"
    using wv us on by (simp_all add: lx_txv_def v_def)
  have uok: "lx_ring_ok (l_dirty_tx s) u" "unat (l_cur_tx u - l_dirty_tx s) < TX_RING_SIZE"
    using ok on us lx_txv_ok(1)[of u s] by (simp_all add: lx_tx_ok_def lx_pending_def c)
  have bv: "mds_buffer (lx_tx v i) = (if i = lx_slot (l_cur_tx u) then lk_map K (sk_data b) else mds_buffer (lx_tx u i))"
    if "i < TX_RING_SIZE" for i
    using that uok(1) by (simp add: v_def lx_fill_slot_buffer[OF E] lx_ring_ok_def)
  have put: "lx_ring_ok (l_dirty_tx s) v" "lx_queue_from (l_dirty_tx s) v = lx_queue_from (l_dirty_tx s) u @ [b]"
    using lx_ring_put[OF uok, of "lk_map K (sk_data b)" v b] bv b uok(1) by (simp_all add: v_def lx_sendable_def lx_ring_ok_def)
  then have w: "lx_ring_ok (l_dirty_tx s) w" "lx_queue_from (l_dirty_tx s) w = lx_queue s @ [b]"
    using wv us lx_txv_ok(1,3)[of w v] lx_txv_ok(3)[of u s] by (simp_all add: lx_queue_def)
  have full: "mds_buffer (lx_tx w (lx_slot (l_cur_tx s + 1))) \<noteq> 0 \<longleftrightarrow> lx_pending w = TX_RING_SIZE"
    using lx_ring_full[OF w(1)] by (simp add: cw lx_pending_def)
  have tw: "lx_ring_ok d t = lx_ring_ok d w" "lx_queue_from d t = lx_queue_from d w" "lx_pending t = lx_pending w"
      "l_dirty_tx t = l_dirty_tx w" "lx_rxv t = lx_rxv w" "l_queue_stopped t \<longleftrightarrow> lx_pending w = TX_RING_SIZE" "l_queue_stopped t \<longrightarrow> l_tx_full t" for d
    using full cw E by (auto simp: t c lx_ring_ok_def lx_queue_from_def lx_pending_def lx_rxv_def netif_stop_queue_def)
  show "lx_rxv t = lx_rxv s" using tw(5) wv us by (simp add: v_def lx_rxv_def)
  show "lx_queue t = lx_queue s @ [b]" using w(2) tw by (simp add: lx_queue_def cw)
  show "l_queue_stopped t \<longleftrightarrow> lx_pending t = TX_RING_SIZE" using tw by simp
  show "lx_tx_ok t" using w(1) tw lx_ring_bound[OF w(1)] unfolding lx_tx_ok_def by (auto simp: cw lx_pending_def)
qed

subsection \<open>Sent packets\<close>

text \<open>The packets freed so far, oldest first.\<close>

definition freed_of :: "ev \<Rightarrow> u32 list" where
  "freed_of e = (case e of Call f as \<Rightarrow> (if f = ''kfree_skb'' then as else []) | _ \<Rightarrow> [])"

definition freed :: "history \<Rightarrow> u32 list" where
  "freed h = concat (map freed_of (rev h))"

lemma freed_Cons [simp]: "freed (e # h) = freed h @ freed_of e"
  by (simp add: freed_def)

text \<open>The buffers got from \<^verbatim>\<open>dev_alloc_skb\<close>, and those handed to the stack.\<close>

definition allocated_by :: "lk \<Rightarrow> history \<Rightarrow> ev \<Rightarrow> u32 list" where
  "allocated_by K h e = (case e of
     Call f as \<Rightarrow> (if f = ''dev_alloc_skb'' then (case lk_skb K h of None \<Rightarrow> [] | Some b \<Rightarrow> [sk_ref b]) else [])
   | _ \<Rightarrow> [])"

fun allocated :: "lk \<Rightarrow> history \<Rightarrow> u32 list" where
  "allocated K [] = []"
| "allocated K (e # h) = allocated K h @ allocated_by K h e"

definition passed_by :: "ev \<Rightarrow> u32 list" where
  "passed_by e = (case e of Call f as \<Rightarrow> (if f = ''eth_type_trans'' then as else []) | _ \<Rightarrow> [])"

definition passed :: "history \<Rightarrow> u32 list" where
  "passed h = concat (map passed_by (rev h))"

lemma passed_Cons [simp]: "passed (e # h) = passed h @ passed_by e"
  by (simp add: passed_def)

text \<open>An event that is no allocation, no release and no delivery.\<close>

definition silent :: "ev \<Rightarrow> bool" where
  "silent e \<longleftrightarrow> (case e of Call f as \<Rightarrow> f \<notin> {''dev_alloc_skb'', ''eth_type_trans'', ''kfree_skb''} | _ \<Rightarrow> True)"

lemma silent_accounts [simp]: "silent e \<Longrightarrow> freed_of e = []" "silent e \<Longrightarrow> allocated_by K h e = []" "silent e \<Longrightarrow> passed_by e = []"
  by (cases e; simp add: silent_def freed_of_def allocated_by_def passed_by_def)+

lemma silent_simps [simp]:
  "silent (In8 p)" "silent (In16 p)" "silent (In32 p)" "silent (Out8 p b)" "silent (Out16 p v)" "silent (Out32 p w)"
  "silent (Kernel f)" "silent (Sleep n)" "silent (InputPacket bs)"
  "silent (Call f as) \<longleftrightarrow> f \<notin> {''dev_alloc_skb'', ''eth_type_trans'', ''kfree_skb''}"
  by (simp_all add: silent_def)

lemma account_calls [simp]:
  "freed_of (Call ''kfree_skb'' as) = as" "passed_by (Call ''kfree_skb'' as) = []" "allocated_by K h (Call ''kfree_skb'' as) = []"
  "freed_of (Call ''eth_type_trans'' as) = []" "passed_by (Call ''eth_type_trans'' as) = as"
  "allocated_by K h (Call ''eth_type_trans'' as) = []"
  "freed_of (Call ''dev_alloc_skb'' as) = []" "passed_by (Call ''dev_alloc_skb'' as) = []"
  "allocated_by K h (Call ''dev_alloc_skb'' as) = (case lk_skb K h of None \<Rightarrow> [] | Some b \<Rightarrow> [sk_ref b])"
  by (simp_all add: freed_of_def passed_by_def allocated_by_def)

lemma bump_sel [simp]:
  "l_tx_skbuff (bump upd s) = l_tx_skbuff s" "l_tx_dma (bump upd s) = l_tx_dma s" "l_cur_tx (bump upd s) = l_cur_tx s"
  "l_dirty_tx (bump upd s) = l_dirty_tx s" "l_tx_full (bump upd s) = l_tx_full s" "l_queue_stopped (bump upd s) = l_queue_stopped s"
  "l_rx_skbuff (bump upd s) = l_rx_skbuff s" "l_rx_dma (bump upd s) = l_rx_dma s" "trace (bump upd s) = trace s"
  "lx_tx (bump upd s) i = lx_tx s i" "lx_rx (bump upd s) i = lx_rx s i" "l_a (bump upd s) = l_a s" "l_base (bump upd s) = l_base s"
  "l_cur_rx (bump upd s) = l_cur_rx s" "mem (bump upd s) = mem s" "l_dma_addr (bump upd s) = l_dma_addr s"
  "l_msg_enable (bump upd s) = l_msg_enable s"
  by (simp_all add: bump_def)

lemma bump_view [simp]: "lx_txv (bump upd s) = lx_txv s" "lx_rxv (bump upd s) = lx_rxv s"
  "lx_txv (bump_if c upd s) = lx_txv s" "lx_rxv (bump_if c upd s) = lx_rxv s" "trace (bump_if c upd s) = trace s"
  "lx_tx (bump_if c upd s) i = lx_tx s i" "lx_rx (bump_if c upd s) i = lx_rx s i"
  by (simp_all add: lx_txv_def lx_rxv_def lx_base_def bump_if_def)

lemma tx_error_sel [simp]:
  "lx_txv (snd (lx_tx_error e m s)) = lx_txv s" "lx_rxv (snd (lx_tx_error e m s)) = lx_rxv s"
  "trace (snd (lx_tx_error e m s)) = trace s" "lx_tx (snd (lx_tx_error e m s)) i = lx_tx s i"
  by (simp_all add: lx_tx_error_def Let_def)

text \<open>One released descriptor: the packet is freed and the slot cleared, whatever the outcome was.\<close>

definition lx_tx_noted :: "nat \<Rightarrow> u16 \<Rightarrow> bool \<Rightarrow> lx \<Rightarrow> lx" where
  "lx_tx_noted i status m s =
     (let s = upd_lx_tx i (\<lambda>d. d\<lparr>mds_buffer := 0\<rparr>) s in
      if has status 0x4000 then snd (lx_tx_error (mds_misc (lx_tx s i)) m s)
      else bump ls_tx_packets_update (bump_if (has status 0x1800) ls_collisions_update s))"

lemma tx_one_split:
  "snd (lx_tx_one E i status m s) =
     (let u = lx_tx_noted i status m s in
      case l_tx_skbuff u ! i of None \<Rightarrow> u
      | Some b \<Rightarrow> let v = kfree_skb E b (pci_unmap_single E (l_tx_dma u ! i) (sk_len b) u)
          in v\<lparr>l_tx_skbuff := (l_tx_skbuff v)[i := None], l_tx_dma := (l_tx_dma v)[i := 0]\<rparr>)"
  by (simp add: lx_tx_one_def lx_tx_noted_def Let_def split_def split: option.split)

lemma tx_noted_sel [simp]:
  "l_tx_skbuff (lx_tx_noted i status m s) = l_tx_skbuff s" "l_tx_dma (lx_tx_noted i status m s) = l_tx_dma s"
  "l_cur_tx (lx_tx_noted i status m s) = l_cur_tx s" "l_dirty_tx (lx_tx_noted i status m s) = l_dirty_tx s"
  "l_tx_full (lx_tx_noted i status m s) = l_tx_full s" "l_queue_stopped (lx_tx_noted i status m s) = l_queue_stopped s"
  "lx_rxv (lx_tx_noted i status m s) = lx_rxv s" "trace (lx_tx_noted i status m s) = trace s"
  "i < TX_RING_SIZE \<Longrightarrow> j < TX_RING_SIZE \<Longrightarrow>
     lx_tx (lx_tx_noted i status m s) j = (if j = i then (lx_tx s i)\<lparr>mds_buffer := 0\<rparr> else lx_tx s j)"
proof -
  let ?u = "upd_lx_tx i (\<lambda>d. d\<lparr>mds_buffer := 0\<rparr>) s"
  have v: "lx_txv (lx_tx_noted i status m s) = lx_txv ?u" "lx_rxv (lx_tx_noted i status m s) = lx_rxv ?u"
    by (simp_all add: lx_tx_noted_def Let_def)
  show "l_tx_skbuff (lx_tx_noted i status m s) = l_tx_skbuff s" "l_tx_dma (lx_tx_noted i status m s) = l_tx_dma s"
    "l_cur_tx (lx_tx_noted i status m s) = l_cur_tx s" "l_dirty_tx (lx_tx_noted i status m s) = l_dirty_tx s"
    "l_tx_full (lx_tx_noted i status m s) = l_tx_full s" "l_queue_stopped (lx_tx_noted i status m s) = l_queue_stopped s"
    "lx_rxv (lx_tx_noted i status m s) = lx_rxv s"
    using v by (simp_all add: lx_txv_def lx_rxv_def)
  show "trace (lx_tx_noted i status m s) = trace s"
    "i < TX_RING_SIZE \<Longrightarrow> j < TX_RING_SIZE \<Longrightarrow>
       lx_tx (lx_tx_noted i status m s) j = (if j = i then (lx_tx s i)\<lparr>mds_buffer := 0\<rparr> else lx_tx s j)"
    by (simp_all add: lx_tx_noted_def Let_def)
qed

lemma tx_one_sel:
  fixes status and m :: bool
  assumes E: "keeps_buffers E" and i: "i < TX_RING_SIZE"
    and b: "l_tx_skbuff s ! i = Some b"
  defines "t \<equiv> snd (lx_tx_one E i status m s)"
  shows "l_tx_skbuff t = (l_tx_skbuff s)[i := None]" "l_tx_dma t = (l_tx_dma s)[i := 0]" "l_cur_tx t = l_cur_tx s"
    "l_dirty_tx t = l_dirty_tx s" "l_tx_full t = l_tx_full s" "l_queue_stopped t = l_queue_stopped s"
    "lx_rxv t = lx_rxv s" "freed (trace t) = freed (trace s) @ [sk_ref b]"
    "j < TX_RING_SIZE \<Longrightarrow> mds_buffer (lx_tx t j) = (if j = i then 0 else mds_buffer (lx_tx s j))"
    "quiet_chip E \<Longrightarrow> j < TX_RING_SIZE \<Longrightarrow> mds_status (lx_tx t j) = mds_status (lx_tx s j)"
proof -
  define u where "u = lx_tx_noted i status m s"
  have t: "t = (kfree_skb E b (pci_unmap_single E (l_tx_dma s ! i) (sk_len b) u))
      \<lparr>l_tx_skbuff := (l_tx_skbuff s)[i := None], l_tx_dma := (l_tx_dma s)[i := 0]\<rparr>"
    using b by (simp add: t_def tx_one_split u_def[symmetric] Let_def kfree_skb_def pci_unmap_single_def)
      (simp add: u_def kfree_skb_def pci_unmap_single_def)
  have rx: "lx_rxv (w\<lparr>l_tx_skbuff := a, l_tx_dma := c\<rparr>) = lx_rxv w" for w a c by (simp add: lx_rxv_def)
  show "l_tx_skbuff t = (l_tx_skbuff s)[i := None]" "l_tx_dma t = (l_tx_dma s)[i := 0]" "l_cur_tx t = l_cur_tx s"
    "l_dirty_tx t = l_dirty_tx s" "l_tx_full t = l_tx_full s" "l_queue_stopped t = l_queue_stopped s"
    "lx_rxv t = lx_rxv s" "freed (trace t) = freed (trace s) @ [sk_ref b]"
    "j < TX_RING_SIZE \<Longrightarrow> mds_buffer (lx_tx t j) = (if j = i then 0 else mds_buffer (lx_tx s j))"
    using E i by (simp_all add: t rx kfree_skb_def pci_unmap_single_def u_def)
  show "quiet_chip E \<Longrightarrow> j < TX_RING_SIZE \<Longrightarrow> mds_status (lx_tx t j) = mds_status (lx_tx s j)"
    using i by (simp add: t kfree_skb_def pci_unmap_single_def u_def lx_md_quiet)
qed

lemma lx_ring_head: "lx_ring_ok d s \<Longrightarrow> d \<noteq> l_cur_tx s \<Longrightarrow> \<exists>b. l_tx_skbuff s ! lx_slot d = Some b"
  using ring_take(3)[of "l_tx_skbuff s" "lx_slot d" "unat (l_cur_tx s - (d + 1))"] pending_take[of d "l_cur_tx s"]
  by (auto simp: lx_ring_ok_def)

lemma tx_loop_stop: "d = l_cur_tx s \<or> has (mds_status (lx_tx s (lx_slot d))) TMD_OWN \<Longrightarrow> lx_tx_loop E d m s = (d, m, s)"
  by (subst lx_tx_loop.simps) (auto simp: Let_def lx_slot_def)

lemma tx_loop_go:
  "d \<noteq> l_cur_tx s \<Longrightarrow> \<not> has (mds_status (lx_tx s (lx_slot d))) TMD_OWN \<Longrightarrow>
     lx_tx_loop E d m s = lx_tx_loop E (d + 1) (fst (lx_tx_one E (lx_slot d) (mds_status (lx_tx s (lx_slot d))) m s))
       (snd (lx_tx_one E (lx_slot d) (mds_status (lx_tx s (lx_slot d))) m s))"
  by (subst lx_tx_loop.simps) (simp add: Let_def lx_slot_def)

text \<open>The loop takes out a prefix of the queue, frees it in order, and stops at a descriptor of the chip's.\<close>

definition tx_part_kept :: "lx \<Rightarrow> lx \<Rightarrow> bool" where
  "tx_part_kept s t \<longleftrightarrow> l_cur_tx t = l_cur_tx s \<and> l_dirty_tx t = l_dirty_tx s \<and> l_tx_full t = l_tx_full s \<and>
     l_queue_stopped t = l_queue_stopped s \<and> lx_rxv t = lx_rxv s"

lemma tx_one_takes:
  fixes m :: bool
  assumes E: "keeps_buffers E" and ok: "lx_ring_ok d s" and d: "d \<noteq> l_cur_tx s"
  defines "u \<equiv> snd (lx_tx_one E (lx_slot d) (mds_status (lx_tx s (lx_slot d))) m s)"
  shows "\<exists>b. lx_queue_from d s = b # lx_queue_from (d + 1) u \<and> freed (trace u) = freed (trace s) @ [sk_ref b] \<and>
     lx_ring_ok (d + 1) u \<and> tx_part_kept s u \<and>
     (quiet_chip E \<longrightarrow> (\<forall>j<TX_RING_SIZE. mds_status (lx_tx u j) = mds_status (lx_tx s j)))"
proof -
  from lx_ring_head[OF ok d] obtain b where b: "l_tx_skbuff s ! lx_slot d = Some b" by blast
  note one = tx_one_sel[OF E lx_slot_less b, where status = "mds_status (lx_tx s (lx_slot d))" and m = m, folded u_def]
  have l: "length (l_tx_dma u) = TX_RING_SIZE" using ok one(2) by (simp add: lx_ring_ok_def)
  note take = lx_ring_take(1,2)[OF ok d one(1) l one(3) one(9)]
  show ?thesis
    using take one b by (intro exI[of _ b]) (simp add: tx_part_kept_def)
qed

lemma tx_loop_takes:
  "keeps_buffers E \<Longrightarrow> lx_ring_ok d s \<Longrightarrow> lx_tx_loop E d m s = (e, n, t) \<Longrightarrow>
    \<exists>k\<le>unat (l_cur_tx s - d). e = d + of_nat k \<and> lx_ring_ok e t \<and> tx_part_kept s t \<and>
      lx_queue_from e t = drop k (lx_queue_from d s) \<and>
      freed (trace t) = freed (trace s) @ map sk_ref (take k (lx_queue_from d s)) \<and>
      (quiet_chip E \<longrightarrow> k = length (takeWhile (\<lambda>i. \<not> has (mds_status (lx_tx s (lx_slot (d + of_nat i)))) TMD_OWN)
         [0..<unat (l_cur_tx s - d)]))"
proof (induction E d m s rule: lx_tx_loop.induct)
  case (1 E d m s)
  let ?status = "mds_status (lx_tx s (lx_slot d))"
  show ?case
  proof (cases "d = l_cur_tx s \<or> has ?status TMD_OWN")
    case True
    then have "(e, n, t) = (d, m, s)" using "1.prems"(3) tx_loop_stop[OF True] by simp
    moreover have "takeWhile (\<lambda>i. \<not> has (mds_status (lx_tx s (lx_slot (d + of_nat i)))) TMD_OWN) [0..<unat (l_cur_tx s - d)] = []"
      using True pending_take[of d "l_cur_tx s"] by (cases "d = l_cur_tx s") (simp_all add: upt_conv_Cons del: upt_Suc)
    ultimately show ?thesis
      using "1.prems"(2) by (intro exI[of _ 0]) (simp add: tx_part_kept_def)
  next
    case False
    define u where "u = snd (lx_tx_one E (lx_slot d) ?status m s)"
    have d: "d \<noteq> l_cur_tx s" "\<not> has ?status TMD_OWN" using False by simp_all
    from tx_one_takes[OF "1.prems"(1,2) d(1), of m, folded u_def] obtain b where
      u: "lx_queue_from d s = b # lx_queue_from (d + 1) u" "freed (trace u) = freed (trace s) @ [sk_ref b]"
        "lx_ring_ok (d + 1) u" "tx_part_kept s u"
        "quiet_chip E \<longrightarrow> (\<forall>j<TX_RING_SIZE. mds_status (lx_tx u j) = mds_status (lx_tx s j))" by blast
    have c: "l_cur_tx u = l_cur_tx s" using u(4) by (simp add: tx_part_kept_def)
    let ?n = "unat (l_cur_tx s - (d + 1))"
    have p: "unat (l_cur_tx s - d) = Suc ?n" using pending_take[OF d(1)] .
    have "lx_tx_loop E (d + 1) (fst (lx_tx_one E (lx_slot d) ?status m s)) u = (e, n, t)"
      using "1.prems"(3) tx_loop_go[OF d] by (simp add: u_def)
    from "1.IH"[OF d(1) refl refl, folded lx_slot_def, OF d(2) "1.prems"(1), folded u_def, OF u(3) this]
    obtain k where k: "k \<le> ?n" "e = d + 1 + of_nat k" "lx_ring_ok e t" "tx_part_kept u t"
      "lx_queue_from e t = drop k (lx_queue_from (d + 1) u)"
      "freed (trace t) = freed (trace u) @ map sk_ref (take k (lx_queue_from (d + 1) u))"
      "quiet_chip E \<longrightarrow> k = length (takeWhile (\<lambda>i. \<not> has (mds_status (lx_tx u (lx_slot (d + 1 + of_nat i)))) TMD_OWN) [0..<?n])"
      unfolding c by blast
    have q: "quiet_chip E \<longrightarrow> Suc k = length (takeWhile (\<lambda>i. \<not> has (mds_status (lx_tx s (lx_slot (d + of_nat i)))) TMD_OWN) [0..<Suc ?n])"
    proof
      assume "quiet_chip E"
      then show "Suc k = length (takeWhile (\<lambda>i. \<not> has (mds_status (lx_tx s (lx_slot (d + of_nat i)))) TMD_OWN) [0..<Suc ?n])"
        using k(7) u(5) d(2)
        by (simp add: upt_conv_Cons map_Suc_upt[symmetric] takeWhile_map o_def algebra_simps del: upt_Suc)
    qed
    show ?thesis
      using k u(1,2,4) q p by (intro exI[of _ "Suc k"]) (simp add: tx_part_kept_def)
  qed
qed

text \<open>How many packets the chip has released: those before the first descriptor it still owns.\<close>

definition lx_released :: "lx \<Rightarrow> nat" where
  "lx_released s = length (takeWhile (\<lambda>i. \<not> has (mds_status (lx_tx s (lx_slot (l_dirty_tx s + of_nat i)))) TMD_OWN)
     [0..<lx_pending s])"

lemma delta_pending: "n \<le> TX_RING_SIZE \<Longrightarrow> unat x = n \<Longrightarrow> unat (x AND of_nat (TX_RING_MOD_MASK + TX_RING_SIZE)) = n" for x :: u32
proof -
  assume n: "n \<le> TX_RING_SIZE" "unat x = n"
  have "x AND 31 = take_bit 5 x" by (simp add: take_bit_eq_mask mask_eq_exp_minus_1)
  then have "unat (x AND 31) = take_bit 5 (unat x)" by (simp only: unsigned_take_bit_eq)
  also have "\<dots> = n" using n by (simp add: take_bit_eq_mod TX_RING_SIZE_def)
  finally show ?thesis by (simp add: TX_RING_MOD_MASK_def TX_RING_SIZE_def)
qed

lemma tx_done_ok:
  assumes E: "keeps_buffers E" and ok: "lx_tx_ok s"
  defines "t \<equiv> snd (lx_tx_done E s)"
  shows "\<exists>k\<le>lx_pending s. lx_queue t = drop k (lx_queue s) \<and>
      freed (trace t) = freed (trace s) @ map sk_ref (take k (lx_queue s)) \<and> (quiet_chip E \<longrightarrow> k = lx_released s)"
    and "lx_tx_ok t" "lx_rxv t = lx_rxv s"
    and "l_queue_stopped t \<longleftrightarrow> l_queue_stopped s \<and> TX_RING_SIZE - 2 \<le> lx_pending t"
proof -
  obtain e n u where l: "lx_tx_loop E (l_dirty_tx s) False s = (e, n, u)" by (cases "lx_tx_loop E (l_dirty_tx s) False s") auto
  from tx_loop_takes[OF E _ l] ok obtain k where k: "k \<le> lx_pending s" "lx_ring_ok e u" "tx_part_kept s u"
    "lx_queue_from e u = drop k (lx_queue s)" "freed (trace u) = freed (trace s) @ map sk_ref (take k (lx_queue s))"
    "quiet_chip E \<longrightarrow> k = lx_released s"
    unfolding lx_tx_ok_def lx_pending_def lx_queue_def lx_released_def by blast
  let ?n = "unat (l_cur_tx u - e)"
  have n: "?n \<le> TX_RING_SIZE" using lx_ring_bound[OF k(2)] .
  note d = delta_pending[OF n refl]
  let ?wake = "l_tx_full u \<and> l_queue_stopped u \<and> ?n < TX_RING_SIZE - 2"
  have t: "t = (if ?wake then netif_wake_queue E (u\<lparr>l_tx_full := False\<rparr>) else u)\<lparr>l_dirty_tx := e\<rparr>"
    using n by (simp add: t_def lx_tx_done_def l d del: of_nat_add)
  have kept: "l_queue_stopped u = l_queue_stopped s" "l_tx_full u = l_tx_full s" "lx_rxv u = lx_rxv s" "l_cur_tx u = l_cur_tx s"
    using k(3) by (simp_all add: tx_part_kept_def)
  have full: "l_queue_stopped s \<longrightarrow> l_tx_full s" using ok by (simp add: lx_tx_ok_def)
  have tv: "l_dirty_tx t = e" "lx_pending t = ?n" "lx_queue t = lx_queue_from e u" "lx_ring_ok e t = lx_ring_ok e u"
    "freed (trace t) = freed (trace u)"
    using E by (simp_all add: t netif_wake_queue_def lx_pending_def lx_queue_def lx_queue_from_def lx_ring_ok_def)
  show "lx_rxv t = lx_rxv s" unfolding kept(3)[symmetric] by (simp add: t netif_wake_queue_def lx_rxv_def)
  show st: "l_queue_stopped t \<longleftrightarrow> l_queue_stopped s \<and> TX_RING_SIZE - 2 \<le> lx_pending t"
    using full unfolding tv(2) by (auto simp: t netif_wake_queue_def kept)
  have "l_queue_stopped t \<longrightarrow> l_tx_full t" using full by (auto simp: t netif_wake_queue_def kept)
  moreover have "l_queue_stopped t \<or> lx_pending t < TX_RING_SIZE"
  proof (cases "l_queue_stopped s")
    case True
    then show ?thesis using st by (auto simp: TX_RING_SIZE_def)
  next
    case False
    then have "lx_pending s < TX_RING_SIZE" using ok by (simp add: lx_tx_ok_def)
    moreover have "lx_pending t = lx_pending s - k"
      unfolding tv(2) using arg_cong[OF k(4), of length] by (simp add: lx_queue_from_def lx_queue_def lx_pending_def)
    ultimately have "lx_pending t < TX_RING_SIZE" by linarith
    then show ?thesis by blast
  qed
  ultimately show "lx_tx_ok t" using k(2) tv by (simp add: lx_tx_ok_def)
  show "\<exists>k\<le>lx_pending s. lx_queue t = drop k (lx_queue s) \<and>
      freed (trace t) = freed (trace s) @ map sk_ref (take k (lx_queue s)) \<and> (quiet_chip E \<longrightarrow> k = lx_released s)"
    using k tv by (intro exI[of _ k]) simp
qed

end
