(* ===== verification/Linux_Rx.thy ===== *)
theory Linux_Rx
  imports Linux_Facts "HOL-Library.Multiset"
begin

text \<open>
  Reception, restart and the interrupt handler of the Linux driver: that every receive slot keeps a
  buffer, so that no null pointer is followed and a restart cannot fail; that a restart frees exactly
  the packets in the transmit ring; and what reception delivers.
\<close>

unbundle bit_operations_syntax

subsection \<open>The account of socket buffers\<close>

text \<open>
  A buffer comes from an allocation or from the stack, and is freed, passed up, or held in a ring.
  \<open>conserves\<close> says that between two states no buffer is lost or counted twice.
\<close>

abbreviation occupied :: "'a option list \<Rightarrow> 'a list" where
  "occupied xs \<equiv> map the (filter (\<lambda>x. x \<noteq> None) xs)"

definition refs :: "skb option list \<Rightarrow> u32 multiset" where
  "refs xs = mset (map sk_ref (occupied xs))"

definition oref :: "skb option \<Rightarrow> u32 multiset" where
  "oref x = (case x of None \<Rightarrow> {#} | Some b \<Rightarrow> {#sk_ref b#})"

lemma oref_simps [simp]: "oref None = {#}" "oref (Some b) = {#sk_ref b#}"
  by (simp_all add: oref_def)

lemma refs_Cons [simp]: "refs [] = {#}" "refs (x # xs) = oref x + refs xs"
  by (cases x; simp add: refs_def)+

lemma refs_replicate [simp]: "refs (replicate n None) = {#}"
  by (induction n) simp_all

lemma refs_append [simp]: "refs (xs @ ys) = refs xs + refs ys"
  by (simp add: refs_def)

lemma refs_update: "i < length xs \<Longrightarrow> refs (xs[i := v]) + oref (xs ! i) = refs xs + oref v"
  by (subst (2) id_take_nth_drop[of i xs]) (simp_all add: upd_conv_take_nth_drop ac_simps)

lemma mset_swap: "r + b = q + n \<Longrightarrow> (a + n) + (x + q) = a + (x + r) + b" for a b n q r x :: "'b multiset"
proof -
  assume e: "r + b = q + n"
  have "(a + n) + (x + q) = (a + x) + (q + n)" by (simp add: ac_simps)
  also have "\<dots> = (a + x) + (r + b)" by (simp only: e)
  finally show ?thesis by (simp add: ac_simps)
qed

definition lx_in :: "lk \<Rightarrow> lx \<Rightarrow> u32 multiset" where
  "lx_in K s = mset (allocated K (trace s))"

definition lx_out :: "lx \<Rightarrow> u32 multiset" where
  "lx_out s = mset (freed (trace s)) + mset (passed (trace s)) + refs (l_tx_skbuff s) + refs (l_rx_skbuff s)"

definition conserves :: "lk \<Rightarrow> lx \<Rightarrow> lx \<Rightarrow> bool" where
  "conserves K s t \<longleftrightarrow> lx_in K t + lx_out s = lx_in K s + lx_out t"

lemma conserves_refl [simp]: "conserves K s s"
  by (simp add: conserves_def)

lemma conserves_trans:
  assumes "conserves K s t" "conserves K t u"
  shows "conserves K s u"
proof -
  have "(lx_in K u + lx_out s) + (lx_in K t + lx_out t) = (lx_in K t + lx_out s) + (lx_in K u + lx_out t)"
    by (simp add: ac_simps)
  also have "\<dots> = (lx_in K s + lx_out t) + (lx_in K t + lx_out u)" using assms by (simp add: conserves_def)
  also have "\<dots> = (lx_in K s + lx_out u) + (lx_in K t + lx_out t)" by (simp add: ac_simps)
  finally show ?thesis by (simp add: conserves_def)
qed

definition accounts :: "lk \<Rightarrow> history \<Rightarrow> u32 list \<times> u32 list \<times> u32 list" where
  "accounts K h = (allocated K h, passed h, freed h)"

lemma accounts_silent [simp]: "silent e \<Longrightarrow> accounts K (e # h) = accounts K h"
  by (simp add: accounts_def)

lemma conserves_same:
  "accounts K (trace t) = accounts K (trace s) \<Longrightarrow> refs (l_tx_skbuff t) = refs (l_tx_skbuff s) \<Longrightarrow>
     refs (l_rx_skbuff t) = refs (l_rx_skbuff s) \<Longrightarrow> conserves K s t"
  by (simp add: conserves_def lx_in_def lx_out_def accounts_def)

subsection \<open>Register access\<close>

definition io_only :: "env \<Rightarrow> lx \<Rightarrow> lx \<Rightarrow> bool" where
  "io_only E s t \<longleftrightarrow> evolves E s t \<and> (\<forall>K. accounts K (trace t) = accounts K (trace s))"

lemma io_only_refl [simp]: "io_only E s s"
  by (simp add: io_only_def)

lemma io_only_trans: "io_only E s t \<Longrightarrow> io_only E t u \<Longrightarrow> io_only E s u"
  by (auto simp: io_only_def intro: evolves_trans)

lemma io_only_lx [simp]:
  "io_only E s (snd (lx_read_csr E i s))" "io_only E s (lx_write_csr E i v s)"
  "io_only E s (snd (lx_read_bcr E i s))" "io_only E s (lx_write_bcr E i v s)"
  "io_only E s (snd (lx_read_rap E s))" "io_only E s (lx_write_rap E v s)" "io_only E s (lx_reset E s)"
  "io_only E s (lx_msg_csr0 E K m s)"
  unfolding io_only_def by (simp_all, simp_all add: drv_ops split: pcnet32_access.split)

lemma io_only_emit: "silent e \<Longrightarrow> io_only E s (emit E e s)"
  by (simp add: io_only_def evolves_emit)

lemma io_only_poll: "io_only E s (lx_poll E m n s)"
proof (induction n arbitrary: s)
  case (Suc n)
  from io_only_trans[OF io_only_lx(1) Suc.IH[of "snd (lx_read_csr E 0 s)"]] show ?case
    by (simp add: Let_def split_def)
qed simp

lemma io_only_views:
  assumes "keeps_buffers E" "io_only E s t"
  shows "lx_txv t = lx_txv s" "lx_rxv t = lx_rxv s" "freed (trace t) = freed (trace s)" "conserves K s t"
proof -
  show v: "lx_txv t = lx_txv s" "lx_rxv t = lx_rxv s"
    using assms lx_view_evolves[of E s t] by (simp_all add: io_only_def)
  have a: "accounts K (trace t) = accounts K (trace s)" for K using assms(2) by (simp add: io_only_def)
  then show "freed (trace t) = freed (trace s)" by (simp add: accounts_def)
  show "conserves K s t" using a v by (intro conserves_same) (simp_all add: lx_txv_def lx_rxv_def)
qed

subsection \<open>The receive ring\<close>

definition lx_rx_ok :: "lx \<Rightarrow> bool" where
  "lx_rx_ok s \<longleftrightarrow> length (l_rx_skbuff s) = RX_RING_SIZE \<and> length (l_rx_dma s) = RX_RING_SIZE \<and>
     (\<forall>i<RX_RING_SIZE. l_rx_skbuff s ! i \<noteq> None)"

lemma lx_rxv_ok: "lx_rxv t = lx_rxv s \<Longrightarrow> lx_rx_ok t = lx_rx_ok s"
  by (simp add: lx_rxv_def lx_rx_ok_def)

lemma upd_rx_view [simp]: "i < RX_RING_SIZE \<Longrightarrow> lx_txv (upd_lx_rx i f s) = lx_txv s" "lx_rxv (upd_lx_rx i f s) = lx_rxv s"
  by (simp_all add: lx_txv_def lx_rxv_def lx_base_def)

lemma rx_vars_view [simp]:
  "lx_txv (s\<lparr>l_rx_skbuff := a\<rparr>) = lx_txv s" "lx_txv (s\<lparr>l_rx_dma := b\<rparr>) = lx_txv s" "lx_txv (s\<lparr>l_cur_rx := c\<rparr>) = lx_txv s"
  "lx_rxv (s\<lparr>l_cur_rx := c\<rparr>) = lx_rxv s" "lx_txv (s\<lparr>l_stats := d\<rparr>) = lx_txv s" "lx_rxv (s\<lparr>l_stats := d\<rparr>) = lx_rxv s"
  "lx_txv (s\<lparr>l_block := e\<rparr>) = lx_txv s" "lx_rxv (s\<lparr>l_block := e\<rparr>) = lx_rxv s"
  by (simp_all add: lx_txv_def lx_rxv_def lx_base_def)

lemma ram_view [simp]:
  "lx_txv (s\<lparr>mem := (mem s)\<lparr>ram := r\<rparr>\<rparr>) = lx_txv s" "lx_rxv (s\<lparr>mem := (mem s)\<lparr>ram := r\<rparr>\<rparr>) = lx_rxv s"
  by (simp_all add: lx_txv_def lx_rxv_def lx_base_def lx_tx_def lx_tx_at_def)

lemma rx_slot_less [simp]: "unat (c AND of_nat RX_RING_MOD_MASK) < RX_RING_SIZE" for c :: u32
proof -
  have "c AND 31 = take_bit 5 c" by (simp add: take_bit_eq_mask mask_eq_exp_minus_1)
  then have "unat (c AND 31) = take_bit 5 (unat c)" by (simp only: unsigned_take_bit_eq)
  also have "\<dots> < 32" by (simp add: take_bit_eq_mod)
  finally show ?thesis by (simp add: RX_RING_MOD_MASK_def RX_RING_SIZE_def)
qed

text \<open>What one descriptor's handling keeps.\<close>

definition rx_keeps :: "lk \<Rightarrow> lx \<Rightarrow> lx \<Rightarrow> bool" where
  "rx_keeps K s t \<longleftrightarrow> lx_txv t = lx_txv s \<and> lx_rx_ok t \<and> freed (trace t) = freed (trace s) \<and> conserves K s t"

lemma rx_keeps_trans: "rx_keeps K s t \<Longrightarrow> rx_keeps K t u \<Longrightarrow> rx_keeps K s u"
  by (auto simp: rx_keeps_def intro: conserves_trans)

lemma rx_keeps_same:
  "lx_txv t = lx_txv s \<Longrightarrow> l_rx_skbuff t = l_rx_skbuff s \<Longrightarrow> length (l_rx_dma t) = RX_RING_SIZE \<Longrightarrow>
     accounts K (trace t) = accounts K (trace s) \<Longrightarrow> lx_rx_ok s \<Longrightarrow> rx_keeps K s t"
  by (auto simp: rx_keeps_def lx_rx_ok_def lx_txv_def accounts_def intro!: conserves_same)

lemma rxv_sel: "l_rx_skbuff s = fst (lx_rxv s)" "l_rx_dma s = snd (lx_rxv s)"
  by (simp_all add: lx_rxv_def)

lemma rx_keeps_view:
  "lx_txv t = lx_txv s \<Longrightarrow> lx_rxv t = lx_rxv s \<Longrightarrow> trace t = trace s \<Longrightarrow> lx_rx_ok s \<Longrightarrow> rx_keeps K s t"
  by (rule rx_keeps_same) (simp_all add: lx_rxv_def lx_rx_ok_def)

lemma rx_error_keeps: "i < RX_RING_SIZE \<Longrightarrow> lx_rx_ok s \<Longrightarrow> rx_keeps K s (lx_rx_error i status s)"
  by (rule rx_keeps_view) (simp_all add: lx_rx_error_def Let_def)

text \<open>A buffer of the ring is replaced: what was got is what is passed up and what the ring holds more.\<close>

definition rx_gets :: "lk \<Rightarrow> lx \<Rightarrow> skb option \<Rightarrow> lx \<Rightarrow> bool" where
  "rx_gets K s r t \<longleftrightarrow> lx_txv t = lx_txv s \<and> lx_rx_ok t \<and> freed (trace t) = freed (trace s) \<and>
     lx_in K t + lx_out s = lx_in K s + lx_out t + oref r"

lemma rx_in_place_gets:
  assumes "keeps_buffers E" "i < RX_RING_SIZE" "lx_rx_ok s"
  shows "\<exists>r t. lx_rx_in_place E K i n s = Some (r, t) \<and> rx_gets K s r t"
proof (cases "lk_skb K (trace s)")
  case None
  then have "lx_rx_in_place E K i n s = Some (None, emit E (Call ''dev_alloc_skb'' [of_nat PKT_BUF_SZ]) s)"
    by (simp add: lx_rx_in_place_def dev_alloc_skb_def)
  then show ?thesis using assms None
    by (simp add: rx_gets_def lx_rx_ok_def lx_in_def lx_out_def)
next
  case (Some nb)
  from assms obtain b where b: "l_rx_skbuff s ! i = Some b" by (auto simp: lx_rx_ok_def)
  let ?xs = "(l_rx_skbuff s)[i := Some (skb_reserve 2 nb)]"
  let ?X = "mset (freed (trace s)) + mset (passed (trace s)) + refs (l_tx_skbuff s)"
  have r: "refs ?xs + {#sk_ref b#} = refs (l_rx_skbuff s) + {#sk_ref nb#}"
    using refs_update[of i "l_rx_skbuff s" "Some (skb_reserve 2 nb)"] assms b by (simp add: lx_rx_ok_def skb_reserve_def)
  obtain t where t: "lx_rx_in_place E K i n s = Some (Some (skb_put n b), t)" "lx_txv t = lx_txv s" "l_rx_skbuff t = ?xs"
    "length (l_rx_dma t) = length (l_rx_dma s)" "freed (trace t) = freed (trace s)" "passed (trace t) = passed (trace s)"
    "mset (allocated K (trace t)) = mset (allocated K (trace s)) + {#sk_ref nb#}"
    using assms b Some
    by (simp add: lx_rx_in_place_def dev_alloc_skb_def Let_def pci_map_single_def pci_unmap_single_def)
  have "l_tx_skbuff t = l_tx_skbuff s" using t(2) by (simp add: lx_txv_def)
  then have "lx_in K t + lx_out s = lx_in K s + lx_out t + {#sk_ref b#}"
    using mset_swap[OF r, of "lx_in K s" ?X] t by (simp add: lx_in_def lx_out_def)
  moreover have "lx_rx_ok t" using assms(2,3) t(3,4) by (auto simp: lx_rx_ok_def nth_list_update)
  ultimately show ?thesis using t by (simp add: rx_gets_def skb_put_def)
qed

lemma rx_copy_gets:
  assumes "keeps_buffers E" "i < RX_RING_SIZE" "lx_rx_ok s"
  shows "\<exists>r t. lx_rx_copy E K i n s = Some (r, t) \<and> rx_gets K s r t"
proof -
  from assms obtain b where b: "l_rx_skbuff s ! i = Some b" by (auto simp: lx_rx_ok_def)
  show ?thesis using assms b
    by (cases "lk_skb K (trace s)")
      (simp_all add: lx_rx_copy_def dev_alloc_skb_def Let_def skb_put_def skb_reserve_def rx_gets_def lx_rx_ok_def lx_in_def lx_out_def)
qed

lemma rx_buffer_gets:
  assumes "keeps_buffers E" "i < RX_RING_SIZE" "lx_rx_ok s"
  shows "\<exists>r t. lx_rx_buffer E K i n s = Some (r, t) \<and> rx_gets K s r t"
  using rx_in_place_gets[OF assms, of K "nat n"] rx_copy_gets[OF assms, of K "nat n"] by (simp add: lx_rx_buffer_def)

lemma rx_squeeze_keeps: "i < RX_RING_SIZE \<Longrightarrow> lx_rx_ok s \<Longrightarrow> rx_keeps K s (lx_rx_squeeze i s)"
  by (rule rx_keeps_view) (simp_all add: lx_rx_squeeze_def Let_def)

lemma rx_return_keeps: "i < RX_RING_SIZE \<Longrightarrow> lx_rx_ok s \<Longrightarrow> rx_keeps K s (lx_rx_return i s)"
  by (rule rx_keeps_view) (simp_all add: lx_rx_return_def Let_def)

lemma pass_up_keeps: "keeps_buffers E \<Longrightarrow> rx_gets K s (Some b) t \<Longrightarrow> rx_keeps K s (lx_pass_up E b t)"
  by (simp add: rx_keeps_def rx_gets_def lx_pass_up_def Let_def conserves_def lx_in_def lx_out_def lx_rx_ok_def ac_simps)

lemma rx_good_keeps:
  assumes E: "keeps_buffers E" and i: "i < RX_RING_SIZE" and ok: "lx_rx_ok s"
  shows "\<exists>stop t. lx_rx_good E K i s = Some (stop, t) \<and> rx_keeps K s t"
proof (cases "lx_pkt_len (lx_rx s i) > int (PKT_BUF_SZ - 2) \<or> lx_pkt_len (lx_rx s i) < 60")
  case True
  have "rx_keeps K s (bump ls_rx_errors_update s)" using ok by (rule rx_keeps_view[rotated 3]) simp_all
  with True show ?thesis by (auto simp: lx_rx_good_def Let_def)
next
  case False
  from rx_buffer_gets[OF E i ok] obtain r u where u: "lx_rx_buffer E K i (lx_pkt_len (lx_rx s i)) s = Some (r, u)" "rx_gets K s r u"
    by blast
  show ?thesis
  proof (cases r)
    case None
    then have "rx_keeps K s u" "lx_rx_ok u" using u(2) by (simp_all add: rx_gets_def rx_keeps_def conserves_def)
    moreover have "lx_rx_good E K i s = Some (True, lx_rx_squeeze i u)" using False u None by (simp add: lx_rx_good_def Let_def)
    ultimately show ?thesis using rx_keeps_trans[OF _ rx_squeeze_keeps[OF i]] by blast
  next
    case (Some b)
    then have "lx_rx_good E K i s = Some (False, lx_pass_up E b u)" using False u by (simp add: lx_rx_good_def Let_def)
    with pass_up_keeps[OF E] u(2) Some show ?thesis by blast
  qed
qed

lemma rx_loop_keeps: "keeps_buffers E \<Longrightarrow> lx_rx_ok s \<Longrightarrow> \<exists>t. lx_rx_loop E K n s = Some t \<and> rx_keeps K s t"
proof (induction n arbitrary: s)
  case 0
  then show ?case by (simp add: rx_keeps_def)
next
  case (Suc n)
  let ?i = "unat (l_cur_rx s AND of_nat RX_RING_MOD_MASK)"
  let ?status = "drop_bit 8 (mds_status (lx_rx s ?i))"
  show ?case
  proof (cases "has (mds_status (lx_rx s ?i)) RMD_OWN")
    case True
    then show ?thesis using Suc.prems by (simp add: rx_keeps_def Let_def)
  next
    case False
    have "\<exists>stop u. (if ?status \<noteq> 0x03 then Some (False, lx_rx_error ?i ?status s) else lx_rx_good E K ?i s) = Some (stop, u) \<and> rx_keeps K s u"
      using rx_good_keeps[OF Suc.prems(1) rx_slot_less Suc.prems(2)] rx_error_keeps[OF rx_slot_less Suc.prems(2)] by auto
    then obtain stop u where u: "(if ?status \<noteq> 0x03 then Some (False, lx_rx_error ?i ?status s) else lx_rx_good E K ?i s) = Some (stop, u)"
      "rx_keeps K s u" by blast
    then have "lx_rx_ok u" by (simp add: rx_keeps_def)
    note r = rx_return_keeps[OF rx_slot_less this, of K "l_cur_rx s"]
    have loop: "lx_rx_loop E K (Suc n) s = (if stop then Some u else lx_rx_loop E K n (lx_rx_return ?i u))"
      using False u(1) by (simp only: lx_rx_loop.simps Let_def if_False) simp
    from r have "lx_rx_ok (lx_rx_return ?i u)" by (simp add: rx_keeps_def)
    from Suc.IH[OF Suc.prems(1) this] rx_keeps_trans[OF u(2) r] u(2) show ?thesis
      unfolding loop by (auto intro: rx_keeps_trans)
  qed
qed

lemma rx_keeps_pcnet32_rx: "keeps_buffers E \<Longrightarrow> lx_rx_ok s \<Longrightarrow> \<exists>t. pcnet32_rx E K s = Some t \<and> rx_keeps K s t"
  unfolding pcnet32_rx_def by (rule rx_loop_keeps)

subsection \<open>Restart\<close>

lemma held_contents:
  assumes "ring_holds xs d n"
  shows "mset (occupied xs) = mset (ring_contents xs d n)"
proof -
  let ?r = "rotate d xs"
  have l: "d < length xs" "n \<le> length xs" and at: "\<And>k. k < length xs \<Longrightarrow> ?r ! k \<noteq> None \<longleftrightarrow> k < n"
    using assms by (auto simp: ring_holds_def nth_rotate)
  have take: "take n ?r = map (\<lambda>k. xs ! ((d + k) mod length xs)) [0..<n]"
    by (rule nth_equalityI) (use l in \<open>simp_all add: nth_rotate\<close>)
  have first: "\<forall>x\<in>set (take n ?r). x \<noteq> None"
  proof
    fix x assume "x \<in> set (take n ?r)"
    then obtain k where "k < n" "k < length xs" "x = ?r ! k" by (auto simp: in_set_conv_nth)
    with at[of k] show "x \<noteq> None" by simp
  qed
  have rest: "\<forall>x\<in>set (drop n ?r). \<not> x \<noteq> None"
  proof
    fix x assume "x \<in> set (drop n ?r)"
    then obtain k where "k < length xs - n" "x = ?r ! (n + k)" by (auto simp: in_set_conv_nth)
    with at[of "n + k"] show "\<not> x \<noteq> None" by simp
  qed
  have "filter (\<lambda>x. x \<noteq> None) (take n ?r @ drop n ?r) = take n ?r"
    unfolding filter_append filter_True[OF first] filter_False[OF rest] by simp
  then have "filter (\<lambda>x. x \<noteq> None) ?r = take n ?r" by simp
  then have "ring_contents xs d n = map the (filter (\<lambda>x. x \<noteq> None) ?r)"
    by (simp add: take ring_contents_def o_def)
  then have "mset (ring_contents xs d n) = image_mset the (filter_mset (\<lambda>x. x \<noteq> None) (mset ?r))" by simp
  moreover have "mset ?r = mset (take (d mod length xs) xs @ drop (d mod length xs) xs)"
    by (simp only: rotate_drop_take mset_append add.commute)
  ultimately show ?thesis by simp
qed

definition tx_indices_kept :: "lx \<Rightarrow> lx \<Rightarrow> bool" where
  "tx_indices_kept s t \<longleftrightarrow> l_cur_tx t = l_cur_tx s \<and> l_dirty_tx t = l_dirty_tx s \<and> l_tx_full t = l_tx_full s \<and>
     l_queue_stopped t = l_queue_stopped s"

lemma purge_slot_sel:
  "l_tx_skbuff (purge_slot E i s) = (l_tx_skbuff s)[i := None]" "l_tx_dma (purge_slot E i s) = (l_tx_dma s)[i := 0]"
  "tx_indices_kept s (purge_slot E i s)" "lx_rxv (purge_slot E i s) = lx_rxv s"
  "freed (trace (purge_slot E i s)) = freed (trace s) @ (case l_tx_skbuff s ! i of None \<Rightarrow> [] | Some b \<Rightarrow> [sk_ref b])"
  by (simp_all add: purge_slot_def Let_def kfree_skb_def pci_unmap_single_def tx_indices_kept_def lx_rxv_def split: option.split)

lemma purge_ok:
  fixes E :: env
  assumes "n \<le> TX_RING_SIZE" "length (l_tx_skbuff s) = TX_RING_SIZE" "length (l_tx_dma s) = TX_RING_SIZE"
  defines "t \<equiv> fold (purge_slot E) [0..<n] s"
  shows "l_tx_skbuff t = replicate n None @ drop n (l_tx_skbuff s) \<and> length (l_tx_dma t) = TX_RING_SIZE \<and>
     tx_indices_kept s t \<and> lx_rxv t = lx_rxv s \<and>
     freed (trace t) = freed (trace s) @ map sk_ref (occupied (take n (l_tx_skbuff s)))"
  using assms(1) unfolding t_def
proof (induction n)
  case (Suc n)
  let ?u = "fold (purge_slot E) [0..<n] s" and ?xs = "l_tx_skbuff s"
  have n: "n < length ?xs" using Suc.prems assms(2) by simp
  have IH: "l_tx_skbuff ?u = replicate n None @ drop n ?xs" "length (l_tx_dma ?u) = TX_RING_SIZE" "tx_indices_kept s ?u"
    "lx_rxv ?u = lx_rxv s" "freed (trace ?u) = freed (trace s) @ map sk_ref (occupied (take n ?xs))"
    using Suc by simp_all
  have "drop n ?xs = ?xs ! n # drop (Suc n) ?xs" using n by (simp add: Cons_nth_drop_Suc)
  then have upd: "(replicate n None @ drop n ?xs)[n := None] = replicate (Suc n) None @ drop (Suc n) ?xs"
    "(replicate n None @ drop n ?xs) ! n = ?xs ! n"
    by (simp_all add: list_update_append nth_append replicate_append_same)
  have "occupied (take (Suc n) ?xs) = occupied (take n ?xs) @ (case ?xs ! n of None \<Rightarrow> [] | Some b \<Rightarrow> [b])"
    using n by (simp add: take_Suc_conv_app_nth split: option.split)
  then show ?case
    using IH purge_slot_sel[where E = E and i = n and s = ?u] upd
    by (simp add: tx_indices_kept_def split: option.split)
qed (simp add: assms tx_indices_kept_def)

lemma purge_slot_conserves:
  assumes "i < length (l_tx_skbuff s)"
  shows "conserves K s (purge_slot E i s)"
proof -
  have r: "refs ((l_tx_skbuff s)[i := None]) + oref (l_tx_skbuff s ! i) = refs (l_tx_skbuff s)"
    using refs_update[OF assms, of None] by simp
  have a: "mset (freed (trace (purge_slot E i s))) = mset (freed (trace s)) + oref (l_tx_skbuff s ! i)"
    "passed (trace (purge_slot E i s)) = passed (trace s)" "allocated K (trace (purge_slot E i s)) = allocated K (trace s)"
    "l_rx_skbuff (purge_slot E i s) = l_rx_skbuff s"
    by (simp_all add: purge_slot_def Let_def kfree_skb_def pci_unmap_single_def split: option.split)
  have "lx_out (purge_slot E i s) = mset (freed (trace s)) + mset (passed (trace s)) +
      (refs ((l_tx_skbuff s)[i := None]) + oref (l_tx_skbuff s ! i)) + refs (l_rx_skbuff s)"
    unfolding lx_out_def a purge_slot_sel(1) by (simp add: ac_simps)
  then show ?thesis by (simp add: r conserves_def lx_in_def lx_out_def a(3))
qed

lemma purge_conserves: "set is \<subseteq> {..<length (l_tx_skbuff s)} \<Longrightarrow> conserves K s (fold (purge_slot E) is s)"
proof (induction "is" arbitrary: s)
  case (Cons i "is")
  then have "conserves K s (purge_slot E i s)" "conserves K (purge_slot E i s) (fold (purge_slot E) is (purge_slot E i s))"
    by (auto intro!: purge_slot_conserves simp: purge_slot_sel(1))
  then show ?case by (simp add: conserves_trans)
qed simp

text \<open>The slots of the receive ring without a buffer get one, or there is no memory.\<close>

definition rx_len :: "lx \<Rightarrow> bool" where
  "rx_len s \<longleftrightarrow> length (l_rx_skbuff s) = RX_RING_SIZE \<and> length (l_rx_dma s) = RX_RING_SIZE"

definition rx_grows :: "lk \<Rightarrow> lx \<Rightarrow> lx \<Rightarrow> bool" where
  "rx_grows K s t \<longleftrightarrow> lx_txv t = lx_txv s \<and> rx_len t \<and> freed (trace t) = freed (trace s) \<and> conserves K s t \<and>
     (\<forall>j<RX_RING_SIZE. l_rx_skbuff s ! j \<noteq> None \<longrightarrow> l_rx_skbuff t ! j \<noteq> None)"

lemma rx_grows_trans: "rx_grows K s t \<Longrightarrow> rx_grows K t u \<Longrightarrow> rx_grows K s u"
  by (auto simp: rx_grows_def intro: conserves_trans)

lemma rx_grows_same:
  "lx_txv t = lx_txv s \<Longrightarrow> l_rx_skbuff t = l_rx_skbuff s \<Longrightarrow> rx_len t \<Longrightarrow>
     accounts K (trace t) = accounts K (trace s) \<Longrightarrow> rx_grows K s t"
  by (auto simp: rx_grows_def lx_txv_def accounts_def intro!: conserves_same)

lemma rx_alloc_grows:
  assumes "keeps_buffers E" "rx_len s" "i < RX_RING_SIZE" "l_rx_skbuff s ! i = None" "lk_skb K (trace s) = Some b"
  defines "t \<equiv> (emit E (Call ''dev_alloc_skb'' [of_nat PKT_BUF_SZ]) s)\<lparr>l_rx_skbuff := (l_rx_skbuff s)[i := Some (skb_reserve 2 b)]\<rparr>"
  shows "rx_grows K s t"
proof -
  have r: "refs ((l_rx_skbuff s)[i := Some (skb_reserve 2 b)]) = refs (l_rx_skbuff s) + {#sk_ref b#}"
    using refs_update[of i "l_rx_skbuff s" "Some (skb_reserve 2 b)"] assms by (simp add: rx_len_def skb_reserve_def)
  have "conserves K s t"
    using assms(5) by (simp add: t_def conserves_def lx_in_def lx_out_def r)
  then show ?thesis using assms by (auto simp: rx_grows_def t_def rx_len_def nth_list_update)
qed

lemma init_rx_slot_grows:
  assumes E: "keeps_buffers E" and l: "rx_len s" and i: "i < RX_RING_SIZE" and r: "init_rx_slot E K i s = (fail, t)"
  shows "rx_grows K s t \<and> (if fail then l_rx_skbuff s ! i = None else l_rx_skbuff t ! i \<noteq> None)"
proof -
  define get where "get = (case l_rx_skbuff s ! i of Some b \<Rightarrow> (False, s)
         | None \<Rightarrow> (let (b, s) = dev_alloc_skb E K PKT_BUF_SZ s in
             case b of None \<Rightarrow> (True, s)
             | Some b \<Rightarrow> (False, s\<lparr>l_rx_skbuff := (l_rx_skbuff s)[i := Some (skb_reserve 2 b)]\<rparr>)))"
  obtain f u where g: "get = (f, u)" by fastforce
  have u: "rx_grows K s u \<and> (if f then l_rx_skbuff s ! i = None else l_rx_skbuff u ! i \<noteq> None)"
  proof (cases "l_rx_skbuff s ! i")
    case (Some b)
    then show ?thesis using g l by (auto simp: get_def intro!: rx_grows_same)
  next
    case None
    show ?thesis
    proof (cases "lk_skb K (trace s)")
      case n: None
      have "rx_grows K s (emit E (Call ''dev_alloc_skb'' [of_nat PKT_BUF_SZ]) s)"
        using E l n by (intro rx_grows_same) (simp_all add: rx_len_def accounts_def)
      then show ?thesis using g n None by (auto simp: get_def dev_alloc_skb_def)
    next
      case (Some b)
      then show ?thesis using g None rx_alloc_grows[OF E l i None Some] l i
        by (auto simp: get_def dev_alloc_skb_def rx_len_def)
    qed
  qed
  show ?thesis
  proof (cases f)
    case True
    then have "fail \<and> t = u" using r by (simp add: init_rx_slot_def get_def[symmetric] g)
    with u True show ?thesis by simp
  next
    case False
    define v where "v = (if l_rx_dma u ! i = 0
                    then let (a, s) = pci_map_single E K (sk_data (the (l_rx_skbuff u ! i)) + of_nat (sk_len (the (l_rx_skbuff u ! i)))) (PKT_BUF_SZ - 2) u
                         in s\<lparr>l_rx_dma := (l_rx_dma s)[i := a]\<rparr>
                    else u)"
    have t: "\<not> fail \<and> t = upd_lx_rx i (\<lambda>d. d\<lparr>mds_status := 0x8000\<rparr>) (upd_lx_rx i (\<lambda>d. d\<lparr>mds_length := 2 - of_nat PKT_BUF_SZ\<rparr>)
      (upd_lx_rx i (\<lambda>d. d\<lparr>mds_buffer := l_rx_dma v ! i\<rparr>) v))"
      using r False by (simp add: init_rx_slot_def get_def[symmetric] g v_def Let_def)
    have "rx_grows K u v"
      using E u by (intro rx_grows_same) (simp_all add: v_def pci_map_single_def rx_grows_def rx_len_def)
    moreover from this have "rx_grows K v t"
      using i t by (intro rx_grows_same) (simp_all add: rx_grows_def rx_len_def)
    ultimately have "rx_grows K u t" by (rule rx_grows_trans)
    with u False t i show ?thesis using rx_grows_trans by (auto simp: rx_grows_def)
  qed
qed

lemma init_rx_slots_grows:
  "keeps_buffers E \<Longrightarrow> set is \<subseteq> {..<RX_RING_SIZE} \<Longrightarrow> rx_len s \<Longrightarrow> init_rx_slots E K is s = (fail, t) \<Longrightarrow>
     rx_grows K s t \<and> (if fail then \<exists>i\<in>set is. l_rx_skbuff s ! i = None else \<forall>i\<in>set is. l_rx_skbuff t ! i \<noteq> None)"
proof (induction "is" arbitrary: s)
  case Nil
  then show ?case by (auto intro!: rx_grows_same)
next
  case (Cons i "is")
  from Cons.prems have i: "i < RX_RING_SIZE" "set is \<subseteq> {..<RX_RING_SIZE}" by auto
  obtain f u where u: "init_rx_slot E K i s = (f, u)" by fastforce
  note g = init_rx_slot_grows[OF Cons.prems(1,3) i(1) u]
  show ?case
  proof (cases f)
    case True
    then show ?thesis using Cons.prems(4) u g by auto
  next
    case False
    then have r: "init_rx_slots E K is u = (fail, t)" using Cons.prems(4) u by simp
    have "rx_len u" using g by (simp add: rx_grows_def)
    note IH = Cons.IH[OF Cons.prems(1) i(2) this r]
    have keep: "l_rx_skbuff u ! j \<noteq> None" if "j \<in> set is" "l_rx_skbuff s ! j \<noteq> None" for j
      using g i(2) that by (auto simp: rx_grows_def)
    have "rx_grows K s t" using g IH rx_grows_trans by blast
    moreover have "l_rx_skbuff t ! i \<noteq> None" using g False IH i(1) by (auto simp: rx_grows_def)
    moreover have "\<exists>j\<in>set is. l_rx_skbuff s ! j = None" if fail
    proof -
      from IH that obtain j where "j \<in> set is" "l_rx_skbuff u ! j = None" by auto
      moreover have "l_rx_skbuff s ! j = None"
        by (rule ccontr) (use keep[of j] calculation in simp)
      ultimately show ?thesis by (intro bexI[of _ j])
    qed
    ultimately show ?thesis using IH by (cases fail) auto
  qed
qed

lemma clear_tx_slot_sel:
  "l_tx_skbuff (clear_tx_slot i s) = l_tx_skbuff s" "l_tx_dma (clear_tx_slot i s) = (l_tx_dma s)[i := 0]"
  "tx_indices_kept s (clear_tx_slot i s)" "lx_rxv (clear_tx_slot i s) = lx_rxv s" "trace (clear_tx_slot i s) = trace s"
  "i < TX_RING_SIZE \<Longrightarrow> j < TX_RING_SIZE \<Longrightarrow>
     mds_buffer (lx_tx (clear_tx_slot i s) j) = (if j = i then 0 else mds_buffer (lx_tx s j))"
  by (simp_all add: clear_tx_slot_def Let_def tx_indices_kept_def lx_rxv_def)

lemma clear_tx_slots:
  "n \<le> TX_RING_SIZE \<Longrightarrow> let t = fold clear_tx_slot [0..<n] s in
     l_tx_skbuff t = l_tx_skbuff s \<and> length (l_tx_dma t) = length (l_tx_dma s) \<and> tx_indices_kept s t \<and> lx_rxv t = lx_rxv s \<and>
     trace t = trace s \<and> (\<forall>j<TX_RING_SIZE. mds_buffer (lx_tx t j) = (if j < n then 0 else mds_buffer (lx_tx s j)))"
proof (induction n)
  case (Suc n)
  then show ?case
    using clear_tx_slot_sel[where i = n and s = "fold clear_tx_slot [0..<n] s"]
    by (auto simp: Let_def tx_indices_kept_def less_Suc_eq)
qed (simp add: tx_indices_kept_def)

text \<open>A ring without packets.\<close>

definition lx_tx_empty :: "lx \<Rightarrow> bool" where
  "lx_tx_empty s \<longleftrightarrow> l_tx_skbuff s = replicate TX_RING_SIZE None \<and> length (l_tx_dma s) = TX_RING_SIZE \<and>
     l_cur_tx s = 0 \<and> l_dirty_tx s = 0 \<and> \<not> l_tx_full s \<and> (\<forall>i<TX_RING_SIZE. lx_base s ! i = 0)"

definition lx_tx_idle :: "lx \<Rightarrow> bool" where
  "lx_tx_idle s \<longleftrightarrow> length (l_tx_dma s) = TX_RING_SIZE \<and> l_cur_tx s = 0 \<and> l_dirty_tx s = 0 \<and> \<not> l_tx_full s \<and>
     (\<forall>i<TX_RING_SIZE. lx_base s ! i = 0)"

lemma lx_tx_empty_idle: "lx_tx_empty s \<longleftrightarrow> lx_tx_idle s \<and> l_tx_skbuff s = replicate TX_RING_SIZE None"
  by (auto simp: lx_tx_empty_def lx_tx_idle_def)

lemma lx_txv_idle: "lx_txv t = lx_txv s \<Longrightarrow> lx_tx_idle t = lx_tx_idle s"
  by (simp add: lx_txv_def lx_tx_idle_def)

lemma lx_tx_empty_ring: "lx_tx_empty s \<Longrightarrow> lx_ring_ok 0 s \<and> lx_queue s = [] \<and> lx_pending s = 0"
  by (simp add: lx_tx_empty_def lx_ring_ok_def lx_queue_def lx_queue_from_def lx_pending_def lx_slot_mod ring_holds_def
      TX_RING_SIZE_def ring_contents_def)

lemma lx_tx_empty_ok: "lx_tx_empty s \<Longrightarrow> \<not> l_queue_stopped s \<Longrightarrow> lx_tx_ok s \<and> lx_queue s = []"
  using lx_tx_empty_ring[of s] by (simp add: lx_tx_ok_def lx_tx_empty_def TX_RING_SIZE_def)

lemma lx_txv_empty: "lx_txv t = lx_txv s \<Longrightarrow> lx_tx_empty t = lx_tx_empty s"
  by (simp add: lx_txv_def lx_tx_empty_def)

lemma init_ring_slots:
  assumes E: "keeps_buffers E" and rx: "rx_len s" and tx: "length (l_tx_dma s) = TX_RING_SIZE"
    and r: "pcnet32_init_ring E K s = (fail, t)"
  shows "l_tx_skbuff t = l_tx_skbuff s \<and> length (l_tx_dma t) = TX_RING_SIZE \<and> rx_len t \<and>
     freed (trace t) = freed (trace s) \<and> conserves K s t \<and> l_queue_stopped t = l_queue_stopped s \<and>
     (if fail then \<not> lx_rx_ok s else lx_tx_idle t \<and> lx_rx_ok t)"
proof -
  define u where "u = s\<lparr>l_tx_full := False, l_cur_rx := 0, l_cur_tx := 0, l_dirty_rx := 0, l_dirty_tx := 0\<rparr>"
  have u: "rx_len u" "conserves K s u" using rx by (simp_all add: u_def rx_len_def conserves_same)
  have "set [0..<RX_RING_SIZE] \<subseteq> {..<RX_RING_SIZE}" by auto
  obtain f v where v: "init_rx_slots E K [0..<RX_RING_SIZE] u = (f, v)" by fastforce
  note g = init_rx_slots_grows[OF E \<open>set [0..<RX_RING_SIZE] \<subseteq> {..<RX_RING_SIZE}\<close> u(1) v]
  have vv: "l_tx_skbuff v = l_tx_skbuff s" "length (l_tx_dma v) = TX_RING_SIZE" "rx_len v"
    "freed (trace v) = freed (trace s)" "conserves K s v" "l_queue_stopped v = l_queue_stopped s" "l_cur_tx v = 0"
    "l_dirty_tx v = 0" "\<not> l_tx_full v"
    using g tx conserves_trans[OF u(2)] by (auto simp: rx_grows_def u_def lx_txv_def)
  show ?thesis
  proof (cases f)
    case True
    then have "fail \<and> t = v" using r v by (simp add: pcnet32_init_ring_def u_def[symmetric])
    moreover have "\<not> lx_rx_ok s" using g True by (auto simp: lx_rx_ok_def u_def)
    ultimately show ?thesis using vv by simp
  next
    case False
    define w where "w = fold clear_tx_slot [0..<TX_RING_SIZE] v"
    have t: "\<not> fail \<and> t = w\<lparr>l_block := (l_block w)\<lparr>sn_tlen_rlen := TX_RING_LEN_BITS OR RX_RING_LEN_BITS,
       sn_ib_addr := take 6 (l_dev_addr w), sn_ib_rx_ring := lx_rx_at w 0, sn_ib_tx_ring := lx_tx_at w 0\<rparr>\<rparr>"
      using r v False by (auto simp: pcnet32_init_ring_def u_def[symmetric] w_def[symmetric])
    note c = clear_tx_slots[of TX_RING_SIZE v, simplified, folded w_def, unfolded Let_def]
    have w: "lx_tx_idle w" "l_queue_stopped w = l_queue_stopped s" "trace w = trace v" "lx_rxv w = lx_rxv v"
      "l_tx_skbuff w = l_tx_skbuff s"
      using c vv by (auto simp: lx_tx_idle_def tx_indices_kept_def)
    have tw: "lx_tx_idle t" "lx_rxv t = lx_rxv v" "trace t = trace v" "l_queue_stopped t = l_queue_stopped s"
      "l_tx_skbuff t = l_tx_skbuff s"
      using t w lx_txv_idle[of t w] by simp_all
    have "conserves K v t" using tw vv(1) by (intro conserves_same) (simp_all add: lx_rxv_def)
    moreover have "lx_rx_ok t" "rx_len t" using tw(2) g False vv(3) by (simp_all add: lx_rxv_def lx_rx_ok_def rx_len_def)
    ultimately show ?thesis using tw t vv conserves_trans by (auto simp: lx_tx_idle_def)
  qed
qed

lemma init_ring_cases:
  assumes "keeps_buffers E" "rx_len s" "l_tx_skbuff s = replicate TX_RING_SIZE None" "length (l_tx_dma s) = TX_RING_SIZE"
    and "pcnet32_init_ring E K s = (fail, t)"
  shows "l_tx_skbuff t = replicate TX_RING_SIZE None \<and> length (l_tx_dma t) = TX_RING_SIZE \<and> rx_len t \<and>
     freed (trace t) = freed (trace s) \<and> conserves K s t \<and> l_queue_stopped t = l_queue_stopped s \<and>
     (if fail then \<not> lx_rx_ok s else lx_tx_empty t \<and> lx_rx_ok t)"
  using init_ring_slots[OF assms(1,2,4,5)] assms(3) by (simp add: lx_tx_empty_idle)

lemma init_rx_slot_memory: "lk_skb K (trace s) \<noteq> None \<Longrightarrow> \<not> fst (init_rx_slot E K i s)"
  by (auto simp: init_rx_slot_def dev_alloc_skb_def Let_def split_def split: option.split)

lemma init_ring_memory: "(\<And>h. lk_skb K h \<noteq> None) \<Longrightarrow> \<not> fst (pcnet32_init_ring E K s)"
proof -
  assume m: "\<And>h. lk_skb K h \<noteq> None"
  have "\<not> fst (init_rx_slots E K is u)" for "is" u
    by (induction "is" arbitrary: u) (simp_all add: Let_def split_def init_rx_slot_memory m)
  then show ?thesis by (simp add: pcnet32_init_ring_def Let_def split_def)
qed

text \<open>Reclaiming sent packets allocates nothing and passes nothing up.\<close>

lemma tx_one_accounts:
  "allocated K (trace (snd (lx_tx_one E i status m s))) = allocated K (trace s) \<and>
   passed (trace (snd (lx_tx_one E i status m s))) = passed (trace s)"
  by (simp add: tx_one_split Let_def kfree_skb_def pci_unmap_single_def split: option.split)

lemma tx_loop_accounts:
  "lx_tx_loop E d m s = (e, n, t) \<Longrightarrow> allocated K (trace t) = allocated K (trace s) \<and> passed (trace t) = passed (trace s)"
proof (induction E d m s rule: lx_tx_loop.induct)
  case (1 E d m s)
  let ?status = "mds_status (lx_tx s (lx_slot d))"
  show ?case
  proof (cases "d = l_cur_tx s \<or> has ?status TMD_OWN")
    case True
    then show ?thesis using "1.prems" tx_loop_stop[OF True] by simp
  next
    case False
    then have d: "d \<noteq> l_cur_tx s" "\<not> has ?status TMD_OWN" by simp_all
    from "1.IH"[OF d(1) refl refl, folded lx_slot_def, OF d(2)] "1.prems" tx_loop_go[OF d] tx_one_accounts show ?thesis by simp
  qed
qed

lemma tx_done_accounts:
  "keeps_buffers E \<Longrightarrow> allocated K (trace (snd (lx_tx_done E s))) = allocated K (trace s) \<and>
     passed (trace (snd (lx_tx_done E s))) = passed (trace s)"
  using tx_loop_accounts[of E "l_dirty_tx s" False s _ _ _ K]
  by (cases "lx_tx_loop E (l_dirty_tx s) False s") (auto simp: lx_tx_done_def Let_def netif_wake_queue_def split_def)

text \<open>
  With a buffer in every receive slot, or memory for them, a restart cannot fail; it frees every packet
  of the transmit ring once, and leaves the ring empty.
\<close>

lemma restart_rings:
  fixes K :: lk and bits :: u16
  assumes E: "keeps_buffers E" and rx: "rx_len s" "lx_rx_ok s \<or> (\<forall>h. lk_skb K h \<noteq> None)"
    and tx: "length (l_tx_skbuff s) = TX_RING_SIZE" "length (l_tx_dma s) = TX_RING_SIZE"
  defines "t \<equiv> pcnet32_restart E K bits s"
  shows "lx_tx_empty t" "lx_rx_ok t" "freed (trace t) = freed (trace s) @ map sk_ref (occupied (l_tx_skbuff s))"
    "l_queue_stopped t = l_queue_stopped s" "conserves K s t"
proof -
  define u where "u = lx_poll E 0x0004 100 s"
  note u = io_only_views[OF E io_only_poll[of E s "0x0004" 100], folded u_def]
  define v where "v = pcnet32_purge_tx_ring E u"
  have l: "length (l_tx_skbuff u) = TX_RING_SIZE" "length (l_tx_dma u) = TX_RING_SIZE" using u(1) tx by (simp_all add: lx_txv_def)
  note p = purge_ok[OF order.refl l, of E, folded pcnet32_purge_tx_ring_def, folded v_def]
  have pc: "conserves K u v" unfolding v_def pcnet32_purge_tx_ring_def by (rule purge_conserves) (simp add: l lessThan_atLeast0)
  have vs: "lx_rxv v = lx_rxv s" using p u(2) by simp
  have v: "l_tx_skbuff v = replicate TX_RING_SIZE None" "length (l_tx_dma v) = TX_RING_SIZE" "rx_len v"
    "freed (trace v) = freed (trace s) @ map sk_ref (occupied (l_tx_skbuff s))" "l_queue_stopped v = l_queue_stopped s"
    using p u rx(1) tx vs by (auto simp: lx_txv_def lx_rxv_def tx_indices_kept_def rx_len_def)
  obtain f w where w: "pcnet32_init_ring E K v = (f, w)" by fastforce
  note i = init_ring_cases[OF E v(3,1,2) w]
  have f: "\<not> f" using i rx(2) lx_rxv_ok[OF vs] init_ring_memory[of K E v] w by (auto split: if_splits)
  have t: "t = lx_write_csr E 0 bits (lx_poll E 0x0100 1000 (lx_write_csr E 0 1 w))"
    using w f by (simp add: t_def pcnet32_restart_def u_def[symmetric] v_def[symmetric])
  have "io_only E w t" unfolding t by (intro io_only_trans[OF io_only_trans[OF io_only_lx(2) io_only_poll] io_only_lx(2)])
  note tw = io_only_views[OF E this]
  show "lx_tx_empty t" "lx_rx_ok t" "freed (trace t) = freed (trace s) @ map sk_ref (occupied (l_tx_skbuff s))"
    "l_queue_stopped t = l_queue_stopped s"
    using tw i f v lx_txv_empty[of t w] lx_rxv_ok[of t w] by (simp_all add: lx_txv_def)
  show "conserves K s t"
    using u(4) pc i tw(4) conserves_trans by blast
qed

lemma rx_ok_len: "lx_rx_ok s \<Longrightarrow> rx_len s"
  by (simp add: lx_rx_ok_def rx_len_def)

end
