(* ===== verification/Linux_Probe.thy ===== *)
theory Linux_Probe
  imports Linux_Dev
begin

text \<open>
  Probing for the Linux driver: PCI and VL-bus probing, identification of the chip and set-up of the
  device, removal, and the module's entry points. The device structure exists in the model from
  the start; until the code allocates it, its fields are what the local variables hold.
\<close>

unbundle bit_operations_syntax

definition options_mapping :: "u32 list" where
  "options_mapping =
     [PCNET32_PORT_ASEL, PCNET32_PORT_AUI, PCNET32_PORT_AUI, PCNET32_PORT_ASEL,
      PCNET32_PORT_10BT OR PCNET32_PORT_FD, PCNET32_PORT_ASEL, PCNET32_PORT_ASEL, PCNET32_PORT_ASEL,
      PCNET32_PORT_ASEL, PCNET32_PORT_MII, PCNET32_PORT_MII OR PCNET32_PORT_FD, PCNET32_PORT_MII,
      PCNET32_PORT_10BT, PCNET32_PORT_MII OR PCNET32_PORT_100, PCNET32_PORT_MII OR PCNET32_PORT_100 OR PCNET32_PORT_FD,
      PCNET32_PORT_ASEL]"

definition MAX_UNITS :: nat where [hw_consts]: "MAX_UNITS = 8"

definition pcnet32_portlist :: "u16 list" where
  "pcnet32_portlist = [0x300, 0x320, 0x340, 0x360]"

text \<open>What the probe finds out about the chip.\<close>

record lx_chip =
  ch_name :: string
  ch_fdx :: bool
  ch_mii :: bool
  ch_fset :: bool

definition lx_chip_of :: "u32 \<Rightarrow> bool \<Rightarrow> lx_chip option" where
  "lx_chip_of v shared =
     (let chip = (\<lambda>n f m x. Some \<lparr>ch_name = n, ch_fdx = f, ch_mii = m, ch_fset = x\<rparr>) in
      if v = 0x2420 then chip ''PCnet/PCI 79C970'' False False False
      else if v = 0x2430 then
        (if shared then chip ''PCnet/PCI 79C970'' False False False else chip ''PCnet/32 79C965'' False False False)
      else if v = 0x2621 then chip ''PCnet/PCI II 79C970A'' True False False
      else if v = 0x2623 then chip ''PCnet/FAST 79C971'' True True True
      else if v = 0x2624 then chip ''PCnet/FAST+ 79C972'' True True True
      else if v = 0x2625 then chip ''PCnet/FAST III 79C973'' True True False
      else if v = 0x2626 then chip ''PCnet/Home 79C978'' True False False
      else if v = 0x2627 then chip ''PCnet/FAST III 79C975'' True True False
      else if v = 0x2628 then chip ''PCnet/PRO 79C976'' True True False
      else None)"

text \<open>The access functions by trial: 16-bit first; \<open>False\<close> when neither answers.\<close>

definition lx_find_access :: "env \<Rightarrow> u16 \<Rightarrow> lx \<Rightarrow> bool \<times> lx" where
  "lx_find_access E ioaddr s =
     (let s = lx_wio_reset E ioaddr s;
          (v, s) = lx_wio_read_csr E ioaddr 0 s;
          (wio, s) = (if v = 4 then lx_wio_check E ioaddr s else (False, s)) in
      if wio then (True, s\<lparr>l_a := pcnet32_wio\<rparr>)
      else let s = lx_dwio_reset E ioaddr s;
               (v, s) = lx_dwio_read_csr E ioaddr 0 s;
               (dwio, s) = (if v = 4 then lx_dwio_check E ioaddr s else (False, s))
           in (dwio, s\<lparr>l_a := pcnet32_dwio\<rparr>))"

definition unit_option :: "u32 list \<Rightarrow> lx \<Rightarrow> bool" where
  "unit_option opts s \<longleftrightarrow> l_cards_found s < MAX_UNITS \<and> opts ! l_cards_found s \<noteq> 0"

text \<open>The HomePNA chip: standard Ethernet or home wiring.\<close>

definition lx_set_home :: "env \<Rightarrow> lk \<Rightarrow> lx \<Rightarrow> lx" where
  "lx_set_home E K s =
     (let (media, s) = lx_read_bcr E 49 s;
          media = media AND NOT 3
      in lx_write_bcr E 49 (if unit_option (lk_homepna K) s then media OR 1 else media) s)"

definition lx_set_fifo :: "env \<Rightarrow> lx \<Rightarrow> lx" where
  "lx_set_fifo E s =
     (let (v, s) = lx_read_bcr E 18 s;
          s = lx_write_bcr E 18 (v OR 0x0860) s;
          (v, s) = lx_read_csr E 80 s
      in lx_write_csr E 80 ((v AND 0x0C00) OR 0x0c00) s)"

fun lx_csr_addr :: "env \<Rightarrow> nat list \<Rightarrow> lx \<Rightarrow> u8 list \<times> lx" where
  "lx_csr_addr E [] s = ([], s)"
| "lx_csr_addr E (i # is) s =
     (let (v, s) = lx_read_csr E (of_nat (i + 12)) s; (bs, s) = lx_csr_addr E is s
      in (ucast (v AND 0x0ff) # ucast (drop_bit 8 v AND 0x0ff) # bs, s))"

fun lx_prom_addr :: "env \<Rightarrow> u16 \<Rightarrow> nat list \<Rightarrow> lx \<Rightarrow> u8 list \<times> lx" where
  "lx_prom_addr E ioaddr [] s = ([], s)"
| "lx_prom_addr E ioaddr (i # is) s =
     (let (v, s) = csrRead8 E (ioaddr + of_nat i) s; (bs, s) = lx_prom_addr E ioaddr is s in (v # bs, s))"

text \<open>The station address: that of the registers unless that of the PROM is valid and differs.\<close>

definition lx_station_address :: "lk \<Rightarrow> u8 list \<Rightarrow> u8 list \<Rightarrow> u8 list" where
  "lx_station_address K csr prom =
     (let a = (if (prom \<noteq> csr \<or> \<not> lk_valid_addr K csr) \<and> lk_valid_addr K prom then prom else csr)
      in if lk_valid_addr K a then a else replicate 6 0)"

text \<open>The registers read for the probe's message.\<close>

definition lx_probe_msg :: "env \<Rightarrow> lk \<Rightarrow> u32 \<Rightarrow> lx \<Rightarrow> lx" where
  "lx_probe_msg E K version s =
     (if has (lk_debug K) (lk_NETIF_MSG K ''PROBE'') \<and> (version + 1) AND 0xfffe = 0x2624 then
        let s = snd (lx_read_csr E 80 s);
            s = snd (lx_read_bcr E 18 s);
            s = snd (lx_read_bcr E 25 s);
            s = snd (lx_read_bcr E 26 s)
        in snd (lx_read_bcr E 27 s)
      else s)"

text \<open>
  The unit's options. The test for an option outside the table allows the index one past its end;
  the option is compared as an unsigned number.
\<close>

definition lx_unit_options :: "lk \<Rightarrow> lx \<Rightarrow> u32" where
  "lx_unit_options K s =
     (if MAX_UNITS \<le> l_cards_found s \<or> length options_mapping < unat (lk_options K ! l_cards_found s)
      then PCNET32_PORT_ASEL
      else let k = unat (lk_options K ! l_cards_found s)
           in if k < length options_mapping then options_mapping ! k else lk_past_options K)"

definition lx_port_options :: "lk \<Rightarrow> bool \<Rightarrow> lx \<Rightarrow> u32" where
  "lx_port_options K fdx s =
     (let opts = lx_unit_options K s;
          opts = (if fdx \<and> \<not> has opts PCNET32_PORT_ASEL \<and> (MAX_UNITS \<le> l_cards_found s \<or> unit_option (lk_full_duplex K) s)
               then opts OR PCNET32_PORT_FD else opts)
      in if take 3 (l_dev_addr s) = [0x00, 0xe0, 0x75] then PCNET32_PORT_FD OR PCNET32_PORT_GPSI else opts)"

definition zero_lx_md :: "nat \<Rightarrow> lx \<Rightarrow> lx" where
  "zero_lx_md i s = upd_lx_rx i
     (\<lambda>_. \<lparr>mds_buffer = 0, mds_length = 0, mds_status = 0, mds_misc = 0, mds_reserved = 0\<rparr>) s"

definition zero_stats :: lx_stats where
  "zero_stats = \<lparr>ls_rx_packets = 0, ls_tx_packets = 0, ls_rx_bytes = 0, ls_tx_bytes = 0, ls_rx_errors = 0,
     ls_tx_errors = 0, ls_rx_dropped = 0, ls_collisions = 0, ls_rx_over_errors = 0, ls_rx_crc_errors = 0,
     ls_rx_frame_errors = 0, ls_rx_fifo_errors = 0, ls_rx_missed_errors = 0, ls_tx_aborted_errors = 0,
     ls_tx_carrier_errors = 0, ls_tx_fifo_errors = 0, ls_tx_window_errors = 0\<rparr>"

text \<open>The device structure zeroed and filled in; the 48 descriptors are those of both rings.\<close>

definition lx_new_device :: "lk \<Rightarrow> u32 \<Rightarrow> lx_chip \<Rightarrow> bool \<Rightarrow> bool \<Rightarrow> lx \<Rightarrow> lx" where
  "lx_new_device K a chip shared pdev s =
     (let s = s\<lparr>l_dma_addr := a, l_tx_skbuff := replicate TX_RING_SIZE None, l_rx_skbuff := replicate RX_RING_SIZE None,
                l_tx_dma := replicate TX_RING_SIZE 0, l_rx_dma := replicate RX_RING_SIZE 0,
                l_cur_rx := 0, l_cur_tx := 0, l_dirty_rx := 0, l_dirty_tx := 0, l_stats := zero_stats,
                l_tx_full := False, l_blink := False, l_phy_id := 0\<rparr>;
          s = fold zero_lx_md [0..<RX_RING_SIZE + TX_RING_SIZE] s;
          s = s\<lparr>l_pci_dev := pdev, l_name := ch_name chip, l_shared_irq := shared, l_full_duplex := ch_fdx chip,
                l_dxsuflo := ch_fset chip, l_mii := ch_mii chip, l_msg_enable := lk_debug K\<rparr>;
          s = s\<lparr>l_options := lx_port_options K (ch_fdx chip) s\<rparr>
      in s\<lparr>l_block := \<lparr>sn_mode = 0x0003, sn_tlen_rlen = TX_RING_LEN_BITS OR RX_RING_LEN_BITS,
             sn_ib_addr = take 6 (l_dev_addr s), sn_filter = [0, 0], sn_ib_rx_ring = lx_rx_at s 0,
             sn_ib_tx_ring = lx_tx_at s 0\<rparr>\<rparr>)"

text \<open>The interrupt line: that of the bus, or found by making the chip interrupt; 0 is none.\<close>

definition lx_find_irq :: "env \<Rightarrow> lk \<Rightarrow> bool \<Rightarrow> lx \<Rightarrow> bool \<times> lx" where
  "lx_find_irq E K pdev s =
     (if pdev then (True, s\<lparr>l_irq := lk_pci_irq K\<rparr>)
      else let s = emit E (Kernel ''probe_irq_on'') s;
               s = lx_write_csr E 0 0x41 s;
               s = emit E (Sleep 1) s;
               i = lk_probed_irq K (trace s);
               s = emit E (Kernel ''probe_irq_off'') s
           in (i \<noteq> 0, s\<lparr>l_irq := i\<rparr>))"

text \<open>The clean-up of a failed probe, from each of its three labels.\<close>

definition err_release_region :: "env \<Rightarrow> lx \<Rightarrow> lx" where
  "err_release_region E s = emit E (Kernel ''release_region'') s"

definition err_free_netdev :: "env \<Rightarrow> lx \<Rightarrow> lx" where
  "err_free_netdev E s = err_release_region E (emit E (Kernel ''free_netdev'') s)"

definition err_free_consistent :: "env \<Rightarrow> lx \<Rightarrow> lx" where
  "err_free_consistent E s = err_free_netdev E (emit E (Kernel ''pci_free_consistent'') s)"

text \<open>The set-up after the memory of the device is there.\<close>

definition lx_setup :: "env \<Rightarrow> lk \<Rightarrow> u32 \<Rightarrow> lx_chip \<Rightarrow> bool \<Rightarrow> bool \<Rightarrow> lx \<Rightarrow> lx_err option \<times> lx" where
  "lx_setup E K a chip shared pdev s =
     (let s = lx_new_device K a chip shared pdev s;
          s = lx_write_bcr E 20 2 s;
          s = lx_load_block_address E s;
          (found, s) = lx_find_irq E K pdev s in
      if \<not> found then (Some E_NODEV, err_free_consistent E s)
      else let s = (if l_mii s then let (v, s) = lx_read_bcr E 33 s in s\<lparr>l_phy_id := ucast (drop_bit 5 v AND 0x1f)\<rparr> else s);
               ok = lk_register K (trace s);
               s = emit E (Kernel ''register_netdev'') s in
      if \<not> ok then (Some E_NODEV, err_free_consistent E s)
      else let s = (if pdev then emit E (Kernel ''pci_set_drvdata'') s else s);
               s = s\<lparr>l_cards_found := l_cards_found s + 1\<rparr>
           in (None, lx_write_bcr E 2 0x1002 s))"

definition pcnet32_probe1 :: "env \<Rightarrow> lk \<Rightarrow> u16 \<Rightarrow> bool \<Rightarrow> bool \<Rightarrow> lx \<Rightarrow> lx_err option \<times> lx" where
  "pcnet32_probe1 E K ioaddr shared pdev s =
     (let s = s\<lparr>l_base := ioaddr\<rparr>;
          (found, s) = lx_find_access E ioaddr s in
      if \<not> found then (Some E_NODEV, err_release_region E s)
      else let (v, s) = lx_chip_id E s in
      if v AND 0xfff \<noteq> 0x003 then (Some E_NODEV, err_release_region E s)
      else let version = drop_bit 12 v AND 0xffff in
      case lx_chip_of version shared of
        None \<Rightarrow> (Some E_NODEV, err_release_region E s)
      | Some chip \<Rightarrow>
          let s = (if version = 0x2626 then lx_set_home E K s else s);
              s = (if ch_fset chip then lx_set_fifo E s else s);
              ok = lk_alloc_dev K (trace s);
              s = emit E (Kernel ''alloc_etherdev'') s in
          if \<not> ok then (Some E_NOMEM, err_release_region E s)
          else let (csr, s) = lx_csr_addr E [0..<3] s;
                   (prom, s) = lx_prom_addr E ioaddr [0..<6] s;
                   s = s\<lparr>l_dev_addr := lx_station_address K csr prom\<rparr>;
                   s = lx_probe_msg E K version s;
                   m = lk_consistent K (trace s);
                   s = emit E (Kernel ''pci_alloc_consistent'') s in
          (case m of None \<Rightarrow> (Some E_NOMEM, err_free_netdev E s)
           | Some a \<Rightarrow> lx_setup E K a chip shared pdev s))"

definition pcnet32_probe_pci :: "env \<Rightarrow> lk \<Rightarrow> lx \<Rightarrow> lx_err option \<times> lx" where
  "pcnet32_probe_pci E K s =
     (let err = lk_pci_enable K (trace s);
          s = emit E (Kernel ''pci_enable_device'') s in
      if err < 0 then (Some (E_code err), s)
      else let s = emit E (Kernel ''pci_set_master'') s; ioaddr = lk_pci_resource K in
      if ioaddr = 0 then (Some E_NODEV, s)
      else if \<not> lk_pci_dma K then (Some E_NODEV, s)
      else let ok = lk_region K (trace s);
               s = emit E (Kernel ''request_region'') s in
      if \<not> ok then (Some E_BUSY, s)
      else let (r, s) = pcnet32_probe1 E K ioaddr True True s
           in (r, if r \<noteq> None then emit E (Kernel ''pci_disable_device'') s else s))"

text \<open>The VL-bus devices found, each as it is when its probe ends.\<close>

fun probe_ports :: "env \<Rightarrow> lk \<Rightarrow> u16 list \<Rightarrow> lx \<Rightarrow> lx list \<times> lx" where
  "probe_ports E K [] s = ([], s)"
| "probe_ports E K (ioaddr # ports) s =
     (let ok = lk_region K (trace s);
          s = emit E (Kernel ''request_region'') s;
          (devs, s) = (if ok then
             let (a, s) = csrRead8 E (ioaddr + 14) s;
                 (b, s) = (if a = 0x57 then csrRead8 E (ioaddr + 15) s else (0, s)) in
             if a = 0x57 \<and> b = 0x57 then
               let (r, s) = pcnet32_probe1 E K ioaddr False False s in (if r = None then [s] else [], s)
             else ([], emit E (Kernel ''release_region'') s)
           else ([], s));
          (more, s) = probe_ports E K ports s
      in (more @ devs, s))"

definition pcnet32_probe_vlbus :: "env \<Rightarrow> lk \<Rightarrow> lx \<Rightarrow> lx list \<times> lx" where
  "pcnet32_probe_vlbus E K s = probe_ports E K pcnet32_portlist s"

text \<open>Removal; \<open>dev\<close> says whether the PCI device has the driver's data.\<close>

definition pcnet32_remove_one :: "env \<Rightarrow> bool \<Rightarrow> lx \<Rightarrow> lx" where
  "pcnet32_remove_one E dev s =
     (if dev then
        let s = emit E (Kernel ''unregister_netdev'') s;
            s = emit E (Kernel ''release_region'') s;
            s = emit E (Kernel ''pci_free_consistent'') s;
            s = emit E (Kernel ''free_netdev'') s;
            s = emit E (Kernel ''pci_disable_device'') s
        in emit E (Kernel ''pci_set_drvdata'') s
      else s)"

text \<open>
  The module's entry points: \<open>register\<close> is \<^verbatim>\<open>pci_module_init\<close>, which calls back
  \<open>pcnet32_probe_pci\<close> for every device of the table; the result is whether loading succeeds.
\<close>

definition pcnet32_init_module ::
  "env \<Rightarrow> lk \<Rightarrow> (lx \<Rightarrow> int \<times> lx) \<Rightarrow> bool \<Rightarrow> lx \<Rightarrow> bool \<times> bool \<times> lx list \<times> lx" where
  "pcnet32_init_module E K register vlb s =
     (let (r, s) = register s;
          have_pci = (r = 0);
          (devs, s) = (if vlb then pcnet32_probe_vlbus E K s else ([], s))
      in (have_pci \<or> 0 < l_cards_found s, have_pci, devs, s))"

definition pcnet32_cleanup_module :: "env \<Rightarrow> bool \<Rightarrow> lx list \<Rightarrow> lx \<Rightarrow> lx" where
  "pcnet32_cleanup_module E have_pci devs s =
     (let s = fold (\<lambda>d s. emit E (Kernel ''free_netdev'') (emit E (Kernel ''pci_free_consistent'')
                (emit E (Kernel ''release_region'') (emit E (Kernel ''unregister_netdev'') s)))) devs s
      in if have_pci then emit E (Kernel ''pci_unregister_driver'') s else s)"

end
