(* ===== verification/Linux_System.thy ===== *)
theory Linux_System
  imports Linux_Rx Linux_Probe Tx_Queue
begin

text \<open>
  The Linux driver as a system: its handlers as steps from an open device, with the invariant of both
  rings and the account of the packets, which are freed once each or still in the ring; the transmit
  ring as a \<open>fifo\<close>; and open, close, probing and the small services.
\<close>

unbundle bit_operations_syntax

subsection \<open>The invariant and the account of packets\<close>

definition lx_ok :: "lx \<Rightarrow> bool" where
  "lx_ok s \<longleftrightarrow> lx_tx_ok s \<and> lx_rx_ok s"

text \<open>From an open device to an open device, with no buffer lost or counted twice.\<close>

definition settles :: "lk \<Rightarrow> lx \<Rightarrow> lx \<Rightarrow> bool" where
  "settles K s t \<longleftrightarrow> lx_ok t \<and> conserves K s t"

lemma settles_ok: "settles K s t \<Longrightarrow> lx_ok t"
  by (simp add: settles_def)

lemma settles_refl: "lx_ok s \<Longrightarrow> settles K s s"
  by (simp add: settles_def)

lemma settles_trans: "settles K s t \<Longrightarrow> settles K t u \<Longrightarrow> settles K s u"
  by (auto simp: settles_def intro: conserves_trans)

lemma lx_ok_txv: "lx_txv t = lx_txv s \<Longrightarrow> lx_rx_ok t \<Longrightarrow> lx_ok s \<Longrightarrow> lx_ok t"
  using lx_txv_ok(2)[of t s] by (simp add: lx_ok_def)

lemma settles_io: "keeps_buffers E \<Longrightarrow> io_only E s t \<Longrightarrow> lx_ok s \<Longrightarrow> settles K s t"
  using io_only_views[of E s t] lx_rxv_ok[of t s] lx_ok_txv[of t s] by (auto simp: settles_def lx_ok_def)

lemma settles_rx: "rx_keeps K s t \<Longrightarrow> lx_ok s \<Longrightarrow> settles K s t"
  using lx_ok_txv[of t s] by (simp add: rx_keeps_def settles_def)

lemma settles_view: "lx_txv t = lx_txv s \<Longrightarrow> lx_rxv t = lx_rxv s \<Longrightarrow> trace t = trace s \<Longrightarrow> lx_ok s \<Longrightarrow> settles K s t"
  by (rule settles_rx[OF rx_keeps_view]) (simp_all add: lx_ok_def)

lemma settles_bump_if: "lx_ok s \<Longrightarrow> settles K s (bump_if c upd s)"
  by (rule settles_view) simp_all

lemma settles_bump: "lx_ok s \<Longrightarrow> settles K s (bump upd s)"
  by (rule settles_view) simp_all

lemma refs_queue: "lx_tx_ok s \<Longrightarrow> refs (l_tx_skbuff s) = mset (map sk_ref (lx_queue s))"
proof -
  assume "lx_tx_ok s"
  then have "mset (occupied (l_tx_skbuff s)) = mset (lx_queue s)"
    using held_contents[of "l_tx_skbuff s" "lx_slot (l_dirty_tx s)" "unat (l_cur_tx s - l_dirty_tx s)"]
    by (simp add: lx_tx_ok_def lx_ring_ok_def lx_queue_def lx_queue_from_def)
  from arg_cong[OF this, of "image_mset sk_ref"] show ?thesis by (simp only: mset_map refs_def)
qed

lemma settles_tx_done:
  assumes "keeps_buffers E" "lx_ok s"
  shows "settles K s (snd (lx_tx_done E s))"
proof -
  let ?t = "snd (lx_tx_done E s)"
  have tx: "lx_tx_ok s" using assms(2) by (simp add: lx_ok_def)
  note d = tx_done_ok[OF assms(1) tx]
  from d(1) obtain k where k: "lx_queue ?t = drop k (lx_queue s)" "freed (trace ?t) = freed (trace s) @ map sk_ref (take k (lx_queue s))"
    by blast
  have q: "mset (map sk_ref (take k (lx_queue s))) + mset (map sk_ref (drop k (lx_queue s))) = mset (map sk_ref (lx_queue s))"
    unfolding mset_append[symmetric] map_append[symmetric] append_take_drop_id ..
  have "lx_out ?t = mset (freed (trace s)) + mset (passed (trace ?t)) +
      (mset (map sk_ref (take k (lx_queue s))) + mset (map sk_ref (drop k (lx_queue s)))) + refs (l_rx_skbuff ?t)"
    by (simp add: lx_out_def refs_queue[OF d(2)] k ac_simps)
  also have "\<dots> = lx_out s"
    using tx_done_accounts[OF assms(1), of K s] d(3) by (simp only: q) (simp add: lx_out_def refs_queue[OF tx] lx_rxv_def)
  finally have "conserves K s ?t" using tx_done_accounts[OF assms(1), of K s] by (simp add: conserves_def lx_in_def)
  with d(2,3) lx_rxv_ok[of ?t s] assms(2) show ?thesis by (simp add: settles_def lx_ok_def)
qed

text \<open>A restart empties the ring and the queue is woken up.\<close>

lemma settles_restart:
  assumes E: "keeps_buffers E" and ok: "lx_ok s"
  shows "settles K s (netif_wake_queue E (pcnet32_restart E K bits s))"
proof -
  let ?u = "pcnet32_restart E K bits s" and ?t = "netif_wake_queue E (pcnet32_restart E K bits s)"
  have tx: "lx_tx_ok s" "lx_rx_ok s" "length (l_tx_skbuff s) = TX_RING_SIZE" "length (l_tx_dma s) = TX_RING_SIZE"
    using ok by (simp_all add: lx_ok_def lx_tx_ok_def lx_ring_ok_def)
  note u = restart_rings[OF E rx_ok_len[OF tx(2)] disjI1[OF tx(2)] tx(3,4), of K bits]
  have t: "lx_tx_empty ?t" "lx_rx_ok ?t" "\<not> l_queue_stopped ?t"
    using u E by (simp_all add: netif_wake_queue_def lx_tx_empty_def lx_rx_ok_def)
  have "conserves K ?u ?t" by (rule conserves_same) (simp_all add: netif_wake_queue_def)
  then have "conserves K s ?t" by (rule conserves_trans[OF u(5)])
  with lx_tx_empty_ok[OF t(1,3)] t(2) show ?thesis by (simp add: settles_def lx_ok_def)
qed

subsection \<open>The handlers\<close>

lemma intr_pass_settles:
  assumes E: "keeps_buffers E" and ok: "lx_ok s"
  shows "\<exists>t. lx_intr_pass E K csr0 s = Some t \<and> settles K s t"
proof -
  define a where "a = lx_msg_csr0 E K ''INTR'' (lx_write_csr E 0 (csr0 AND NOT 0x004f) s)"
  have sa: "settles K s a"
    unfolding a_def by (rule settles_io[OF E io_only_trans[OF io_only_lx(2) io_only_lx(8)] ok])
  have rx: "\<exists>t. pcnet32_rx E K u = Some t \<and> settles K u t" if "lx_ok u" for u
    using rx_keeps_pcnet32_rx[OF E, of u K] that settles_rx[of K u] by (auto simp: lx_ok_def)
  obtain b where b: "(if has csr0 0x0400 then pcnet32_rx E K a else Some a) = Some b" "settles K a b"
    using rx[OF settles_ok[OF sa]] settles_refl[OF settles_ok[OF sa]] by (cases "has csr0 0x0400") auto
  define d where "d = (if has csr0 0x0200 then lx_tx_done E b else (False, b))"
  have sd: "settles K b (snd d)"
    using settles_tx_done[OF E settles_ok[OF b(2)]] settles_refl[OF settles_ok[OF b(2)]] by (simp add: d_def)
  define e where "e = bump_if (has csr0 0x4000) ls_tx_errors_update (snd d)"
  have se: "settles K (snd d) e" unfolding e_def by (rule settles_bump_if[OF settles_ok[OF sd]])
  obtain f where f: "(if has csr0 0x1000 then do { s \<leftarrow> pcnet32_rx E K e; Some (bump ls_rx_errors_update s) } else Some e) = Some f"
    "settles K e f"
  proof (cases "has csr0 0x1000")
    case True
    from rx[OF settles_ok[OF se]] obtain g where g: "pcnet32_rx E K e = Some g" "settles K e g" by blast
    from settles_trans[OF g(2) settles_bump[OF settles_ok[OF g(2)]]] that g(1) True show ?thesis by simp
  next
    case False
    with that settles_refl[OF settles_ok[OF se]] show ?thesis by simp
  qed
  define g where "g = (if fst d then lx_intr_restart E K f else f)"
  have sg: "settles K f g"
  proof -
    let ?h = "lx_write_csr E 4 0x0915 (lx_reset E f)"
    have h: "settles K f ?h" by (rule settles_io[OF E io_only_trans[OF io_only_lx(7) io_only_lx(2)] settles_ok[OF f(2)]])
    from settles_trans[OF h settles_restart[OF E settles_ok[OF h]]] show ?thesis
      using settles_refl[OF settles_ok[OF f(2)]] by (simp add: g_def lx_intr_restart_def)
  qed
  have "lx_intr_pass E K csr0 s = Some g"
    unfolding lx_intr_pass_def Let_def a_def[symmetric] b(1) bind.bind_lunit
    using f(1) by (cases "pcnet32_rx E K e") (auto simp: split_def d_def[symmetric] e_def[symmetric] g_def split: if_splits)
  with settles_trans[OF settles_trans[OF settles_trans[OF settles_trans[OF settles_trans[OF sa b(2)] sd] se] f(2)] sg]
  show ?thesis by blast
qed

lemma intr_loop_settles: "keeps_buffers E \<Longrightarrow> lx_ok s \<Longrightarrow> \<exists>t. lx_intr_loop E K n s = Some t \<and> settles K s t"
proof (induction n arbitrary: s)
  case 0
  then show ?case using settles_io[OF 0(1) io_only_lx(1) 0(2)] by simp
next
  case (Suc n)
  obtain c u where r: "lx_read_csr E 0 s = (c, u)" by fastforce
  have u: "settles K s u" using settles_io[OF Suc.prems(1) io_only_lx(1)[of E s 0] Suc.prems(2)] by (simp add: r)
  from intr_pass_settles[OF Suc.prems(1) settles_ok[OF u], of K c] obtain v where
    v: "lx_intr_pass E K c u = Some v" "settles K u v" by blast
  from Suc.IH[OF Suc.prems(1) settles_ok[OF v(2)]] obtain w where w: "lx_intr_loop E K n v = Some w" "settles K v w" by blast
  show ?case using u settles_trans[OF settles_trans[OF u v(2)] w(2)] by (simp add: r v(1) w(1))
qed

lemma interrupt_settles:
  assumes E: "keeps_buffers E" and ok: "lx_ok s"
  shows "\<exists>t. pcnet32_interrupt E K s = Some t \<and> settles K s t"
proof -
  obtain rap u where r: "lx_read_rap E s = (rap, u)" by fastforce
  have u: "settles K s u" using settles_io[OF E io_only_lx(5)[of E s] ok] by (simp add: r)
  from intr_loop_settles[OF E settles_ok[OF u], of K "nat (lk_max_work K)"] obtain v where
    v: "lx_intr_loop E K (nat (lk_max_work K)) u = Some v" "settles K u v" by blast
  let ?t = "lx_msg_csr0 E K ''INTR'' (lx_write_rap E rap (lx_write_csr E 0 0x0040 v))"
  have "settles K v ?t"
    by (rule settles_io[OF E io_only_trans[OF io_only_trans[OF io_only_lx(2) io_only_lx(6)] io_only_lx(8)] settles_ok[OF v(2)]])
  from settles_trans[OF settles_trans[OF u v(2)] this] show ?thesis
    by (simp add: pcnet32_interrupt_def r v(1) Let_def)
qed

subsection \<open>Calls that leave the rings alone\<close>

definition calm :: "lx \<Rightarrow> lx \<Rightarrow> bool" where
  "calm s t \<longleftrightarrow> lx_txv t = lx_txv s \<and> lx_rxv t = lx_rxv s \<and> (\<forall>K. accounts K (trace t) = accounts K (trace s))"

lemma calm_refl [simp]: "calm s s"
  by (simp add: calm_def)

lemma calm_trans: "calm s t \<Longrightarrow> calm t u \<Longrightarrow> calm s u"
  by (simp add: calm_def)

lemma calm_io: "keeps_buffers E \<Longrightarrow> io_only E s t \<Longrightarrow> calm s t"
  using io_only_views[of E s t] by (simp add: calm_def io_only_def)

lemma calm_settles: "calm s t \<Longrightarrow> lx_ok s \<Longrightarrow> settles K s t"
  by (rule settles_rx[OF rx_keeps_same]) (simp_all add: calm_def lx_ok_def lx_rxv_def lx_rx_ok_def)

lemma calm_vars [simp]:
  "calm s (s\<lparr>l_stats := a\<rparr>)" "calm s (s\<lparr>l_blink := b\<rparr>)" "calm s (s\<lparr>l_msg_enable := c\<rparr>)" "calm s (s\<lparr>l_flags := c\<rparr>)"
  "calm s (s\<lparr>l_mc_list := d\<rparr>)" "calm s (s\<lparr>l_full_duplex := b\<rparr>)" "calm s (s\<lparr>l_block := e\<rparr>)"
  by (simp_all add: calm_def lx_txv_def lx_rxv_def lx_base_def lx_tx_def lx_tx_at_def)

lemma io_only_fold: "(\<And>x s. io_only E s (f x s)) \<Longrightarrow> io_only E s (fold f xs s)"
proof (induction xs arbitrary: s)
  case (Cons x xs)
  from io_only_trans[OF Cons.prems Cons.IH[OF Cons.prems]] show ?case by simp
qed simp

lemma io_only_reads:
  "io_only E s (snd (lx_read_bcrs E is s))" "io_only E s (snd (lx_read_csrs E is s))"
  "io_only E s (snd (lx_read_prom E is s))" "io_only E s (snd (lx_read_phy E is s))"
proof (induction "is" arbitrary: s)
  case (Cons i "is")
  {
    case 1
    show ?case using io_only_trans[OF io_only_lx(3) Cons.IH(1)] by (simp add: split_def Let_def)
  next
    case 2
    show ?case using io_only_trans[OF io_only_lx(1) Cons.IH(2)] by (simp add: split_def Let_def)
  next
    case 3
    have "io_only E s (snd (csrRead16 E (l_base s + of_nat i) s))" by (simp add: csrRead16_def io_only_emit)
    from io_only_trans[OF this Cons.IH(3)] show ?case by (simp add: split_def Let_def)
  next
    case 4
    show ?case using io_only_trans[OF io_only_trans[OF io_only_lx(4) io_only_lx(3)] Cons.IH(4)] by (simp add: split_def Let_def)
  }
qed simp_all

lemma io_only_write_bcrs: "io_only E s (lx_write_bcrs E is vs s)"
proof (induction E "is" vs s rule: lx_write_bcrs.induct)
  case (1 E i "is" v vs s)
  show ?case using io_only_trans[OF io_only_lx(4) "1.IH"] by simp
qed simp_all

lemma io_only_suspend: "io_only E s (lx_wait_suspend E n s)"
proof (induction n arbitrary: s)
  case (Suc n)
  show ?case using io_only_trans[OF io_only_trans[OF io_only_lx(1) io_only_emit[of "Sleep 1"]] Suc.IH]
    by (simp add: split_def Let_def)
qed simp

lemma io_only_get_regs: "io_only E s (snd (pcnet32_get_regs E s))"
proof -
  have susp: "io_only E u (if \<not> has c 0x0004 then lx_wait_suspend E 201 (lx_write_csr E 5 0x0001 u) else u)" for c u
    using io_only_trans[OF io_only_lx(2) io_only_suspend] by simp
  have phys: "io_only E u (snd (if l_mii u then lx_read_phy E [0..<32] u else ([], u)))" for u
    by (simp add: io_only_reads(4))
  have fin: "io_only E u (if \<not> has c 0x0004 then lx_write_csr E 5 0x0000 u else u)" for c u by simp
  show ?thesis
    using io_only_trans[OF io_only_trans[OF io_only_trans[OF io_only_trans[OF io_only_trans[OF io_only_trans[OF
      io_only_lx(1) susp] io_only_reads(3)] io_only_reads(2)] io_only_reads(1)] phys] fin]
    by (simp only: pcnet32_get_regs_def Let_def split_def snd_conv)
qed

lemma io_only_blink: "io_only E s (pcnet32_led_blink_callback E s)"
  unfolding pcnet32_led_blink_callback_def
  by (rule io_only_trans[OF io_only_fold io_only_emit])
    (simp_all add: blink_led_def Let_def split_def io_only_trans[OF io_only_lx(3) io_only_lx(4)])

text \<open>
  The MII library works through the two register functions; besides, it reports the link's state
  to the stack and notes the duplex mode.
\<close>

inductive mii_steps :: "env \<Rightarrow> lx \<Rightarrow> lx \<Rightarrow> bool" for E where
  stop: "mii_steps E s s"
| get: "mii_steps E s t \<Longrightarrow> mii_steps E s (snd (mdio_read E phy reg t))"
| put: "mii_steps E s t \<Longrightarrow> mii_steps E s (mdio_write E phy reg val t)"
| link: "mii_steps E s t \<Longrightarrow> mii_steps E s (emit E (Kernel f) t)"
| duplex: "mii_steps E s t \<Longrightarrow> mii_steps E s (t\<lparr>l_full_duplex := fd\<rparr>)"

definition mii_ok :: "env \<Rightarrow> lk \<Rightarrow> bool" where
  "mii_ok E K \<longleftrightarrow> (\<forall>f s. mii_steps E s (snd (lk_mii K f s)))"

lemma mdio_io: "io_only E s (snd (mdio_read E phy reg s))" "io_only E s (mdio_write E phy reg val s)"
  using io_only_trans[OF io_only_lx(4) io_only_lx(3)] io_only_trans[OF io_only_lx(4) io_only_lx(4)]
  by (simp_all add: mdio_read_def mdio_write_def)

lemma mii_calm: "mii_steps E s t \<Longrightarrow> keeps_buffers E \<Longrightarrow> calm s t"
  by (induction rule: mii_steps.induct)
    (simp_all add: calm_trans[OF _ calm_io] calm_trans[OF _ calm_vars(6)] mdio_io io_only_emit)

subsection \<open>Every call of the stack\<close>

text \<open>
  The calls and timers that neither take nor deliver packets. \<open>lx_call E K s t\<close>: one of them leads
  from \<open>s\<close> to \<open>t\<close>; the last two are the stack's own changes of the device's fields.
\<close>

inductive lx_call :: "env \<Rightarrow> lk \<Rightarrow> lx \<Rightarrow> lx \<Rightarrow> bool" for E K where
  tx_timeout: "lx_call E K s (pcnet32_tx_timeout E K s)"
| multicast_list: "lx_call E K s (pcnet32_set_multicast_list E K s)"
| get_stats: "lx_call E K s (snd (pcnet32_get_stats E s))"
| watchdog: "lx_call E K s (pcnet32_watchdog E K s)"
| ioctl: "lx_call E K s (snd (lx_ioctl K s))"
| get_settings: "lx_call E K s (snd (pcnet32_get_settings K s))"
| set_settings: "lx_call E K s (snd (pcnet32_set_settings K s))"
| nway_reset: "lx_call E K s (snd (pcnet32_nway_reset K s))"
| get_link: "lx_call E K s (snd (pcnet32_get_link E K s))"
| msglevel: "lx_call E K s (pcnet32_set_msglevel v s)"
| blink: "lx_call E K s (pcnet32_led_blink_callback E s)"
| get_regs: "lx_call E K s (snd (pcnet32_get_regs E s))"
| flags: "lx_call E K s (s\<lparr>l_flags := v\<rparr>)"
| mc_list: "lx_call E K s (s\<lparr>l_mc_list := as\<rparr>)"

lemma calm_get_stats:
  assumes "keeps_buffers E"
  shows "calm s (snd (pcnet32_get_stats E s))"
proof -
  have "calm s (snd (lx_read_csr E 112 (snd (lx_read_rap E s))))"
    by (rule calm_io[OF assms io_only_trans[OF io_only_lx(5) io_only_lx(1)]])
  from calm_trans[OF calm_trans[OF this calm_vars(1)] calm_io[OF assms io_only_lx(6)]] show ?thesis
    by (simp add: pcnet32_get_stats_def Let_def split_def)
qed

lemma calm_mii_call: "keeps_buffers E \<Longrightarrow> mii_ok E K \<Longrightarrow> calm s (snd (lk_mii K f s))"
  unfolding mii_ok_def using mii_calm by blast

lemma settles_timeout:
  assumes E: "keeps_buffers E" and ok: "lx_ok s"
  shows "settles K s (pcnet32_tx_timeout E K s)"
proof -
  define u where "u = lx_write_csr E 0 0x0004 (if has (lk_debug K) (lk_NETIF_MSG K ''DRV'') then snd (lx_read_csr E 0 s) else s)"
  have u: "settles K s u"
    unfolding u_def by (rule settles_io[OF E io_only_trans[OF _ io_only_lx(2)] ok]) simp
  note v = settles_trans[OF u settles_bump[OF settles_ok[OF u], of K ls_tx_errors_update]]
  from settles_trans[OF v settles_restart[OF E settles_ok[OF v]]] show ?thesis
    by (simp add: pcnet32_tx_timeout_def u_def[symmetric])
qed

lemma settles_multicast_list:
  assumes E: "keeps_buffers E" and ok: "lx_ok s"
  shows "settles K s (pcnet32_set_multicast_list E K s)"
proof -
  define u where "u = (if has (l_flags s) (lk_IFF_PROMISC K)
               then s\<lparr>l_block := (l_block s)\<lparr>sn_mode := 0x8000 OR lx_mode s\<rparr>\<rparr>
               else pcnet32_load_multicast K (s\<lparr>l_block := (l_block s)\<lparr>sn_mode := lx_mode s\<rparr>\<rparr>))"
  have "calm s u"
    by (simp add: u_def pcnet32_load_multicast_def Let_def)
  note u = calm_settles[OF this ok, of K]
  note v = settles_trans[OF u settles_io[OF E io_only_lx(2) settles_ok[OF u]]]
  from settles_trans[OF v settles_restart[OF E settles_ok[OF v]]] show ?thesis
    unfolding pcnet32_set_multicast_list_def Let_def u_def[symmetric] .
qed

lemma call_settles:
  assumes E: "keeps_buffers E" "mii_ok E K" and ok: "lx_ok s" and "lx_call E K s t"
  shows "settles K s t"
proof -
  note mii = calm_mii_call[OF E]
  have "calm s t \<or> t = pcnet32_tx_timeout E K s \<or> t = pcnet32_set_multicast_list E K s"
    using assms(4)
  proof cases
    case get_stats
    then show ?thesis using calm_get_stats[OF E(1)] by simp
  next
    case watchdog
    then show ?thesis using calm_trans[OF mii calm_io[OF E(1) io_only_emit]] calm_io[OF E(1) io_only_emit]
      by (simp add: pcnet32_watchdog_def)
  next
    case blink
    then show ?thesis using calm_io[OF E(1) io_only_blink] by simp
  next
    case get_regs
    then show ?thesis using calm_io[OF E(1) io_only_get_regs] by simp
  next
    case get_link
    have "calm s (snd (lx_read_bcr E 4 s))" by (rule calm_io[OF E(1) io_only_lx(3)])
    with get_link mii show ?thesis by (simp add: pcnet32_get_link_def Let_def split_def)
  qed (use mii in \<open>simp_all add: lx_ioctl_def lx_mii_call_def pcnet32_get_settings_def pcnet32_set_settings_def
      pcnet32_nway_reset_def pcnet32_set_msglevel_def split_def Let_def\<close>)
  then show ?thesis
    using calm_settles[OF _ ok] settles_timeout[OF E(1) ok] settles_multicast_list[OF E(1) ok] by blast
qed

subsection \<open>Runs of an open device\<close>

text \<open>The packet handed over belongs to the driver from then on.\<close>

definition takes :: "lk \<Rightarrow> skb list \<Rightarrow> lx \<Rightarrow> lx \<Rightarrow> bool" where
  "takes K bs s t \<longleftrightarrow> lx_ok t \<and> lx_in K t + mset (map sk_ref bs) + lx_out s = lx_in K s + lx_out t"

lemma takes_ok: "takes K bs s t \<Longrightarrow> lx_ok t"
  by (simp add: takes_def)

lemma takes_none: "takes K [] s t \<longleftrightarrow> settles K s t"
  by (simp add: takes_def settles_def conserves_def)

lemma takes_trans:
  assumes "takes K bs s t" "takes K cs t u"
  shows "takes K (cs @ bs) s u"
proof -
  have "(lx_in K u + mset (map sk_ref (cs @ bs)) + lx_out s) + (lx_in K t + lx_out t) =
      (lx_in K t + mset (map sk_ref bs) + lx_out s) + (lx_in K u + mset (map sk_ref cs) + lx_out t)"
    by (simp add: ac_simps)
  also have "\<dots> = (lx_in K s + lx_out t) + (lx_in K t + lx_out u)" using assms by (simp only: takes_def)
  also have "\<dots> = (lx_in K s + lx_out u) + (lx_in K t + lx_out t)" by (simp add: ac_simps)
  finally have "lx_in K u + mset (map sk_ref (cs @ bs)) + lx_out s = lx_in K s + lx_out u" by simp
  with assms(2) show ?thesis by (simp add: takes_def)
qed

lemma takes_settles: "takes K bs s t \<Longrightarrow> settles K t u \<Longrightarrow> takes K bs s u"
  using takes_trans[of K bs s t "[]" u] by (simp add: takes_none)

lemma fill_slot_accounts: "accounts K (trace (lx_fill_slot E K i b s)) = accounts K (trace s)"
  by (simp add: lx_fill_slot_def pci_map_single_def Let_def)

lemma xmit_accounts: "accounts K (trace (snd (pcnet32_start_xmit E K b s))) = accounts K (trace s)"
proof -
  have w: "accounts K (trace (lx_write_csr E 0 0x0048 u)) = accounts K (trace u)" for u
    using io_only_lx(2)[of E u 0 "0x0048"] by (simp add: io_only_def)
  have m: "accounts K (trace (lx_msg_csr0 E K ''TX_QUEUED'' u)) = accounts K (trace u)" for u
    using io_only_lx(8)[of E u K "''TX_QUEUED''"] by (simp add: io_only_def)
  show ?thesis
    by (simp add: pcnet32_start_xmit_def Let_def netif_stop_queue_def w fill_slot_accounts m)
qed

lemma xmit_takes:
  assumes E: "keeps_buffers E" and ok: "lx_ok s" and on: "\<not> l_queue_stopped s" and b: "lx_sendable K b"
  shows "takes K [b] s (snd (pcnet32_start_xmit E K b s))"
proof -
  let ?t = "snd (pcnet32_start_xmit E K b s)"
  have tx: "lx_tx_ok s" using ok by (simp add: lx_ok_def)
  note x = start_xmit_ok[OF E tx on b]
  have "refs (l_tx_skbuff ?t) = add_mset (sk_ref b) (refs (l_tx_skbuff s))"
    using refs_queue[OF x(1)] refs_queue[OF tx] x(2) by simp
  moreover have "l_rx_skbuff ?t = l_rx_skbuff s" using x(4) by (simp add: lx_rxv_def)
  moreover have "lx_ok ?t" using x(1,4) lx_rxv_ok[of ?t s] ok by (simp add: lx_ok_def)
  ultimately show ?thesis
    using xmit_accounts[of K E b s] by (simp add: takes_def lx_in_def lx_out_def accounts_def)
qed

text \<open>
  \<open>lx_run E K bs s t\<close>: the stack and the chip lead from \<open>s\<close> to \<open>t\<close>, the stack handing over the
  packets \<open>bs\<close>, only while the queue is not stopped. While the LEDs blink the other calls go on.
\<close>

inductive lx_run :: "env \<Rightarrow> lk \<Rightarrow> skb list \<Rightarrow> lx \<Rightarrow> lx \<Rightarrow> bool" for E K where
  stop: "lx_run E K [] s s"
| interrupt: "lx_run E K bs s t \<Longrightarrow> pcnet32_interrupt E K t = Some u \<Longrightarrow> lx_run E K bs s u"
| poll: "lx_run E K bs s t \<Longrightarrow> pcnet32_poll_controller E K t = Some u \<Longrightarrow> lx_run E K bs s u"
| xmit: "lx_run E K bs s t \<Longrightarrow> \<not> l_queue_stopped t \<Longrightarrow> lx_sendable K b \<Longrightarrow>
    lx_run E K (b # bs) s (snd (pcnet32_start_xmit E K b t))"
| call: "lx_run E K bs s t \<Longrightarrow> lx_call E K t u \<Longrightarrow> lx_run E K bs s u"
| phys_id: "lx_run E K bs s t \<Longrightarrow> phys_id_begin E K data t = (regs, u) \<Longrightarrow> lx_run E K cs u v \<Longrightarrow>
    lx_run E K (cs @ bs) s (phys_id_end E regs v)"

lemma poll_settles:
  assumes E: "keeps_buffers E" and ok: "lx_ok s"
  shows "\<exists>t. pcnet32_poll_controller E K s = Some t \<and> settles K s t"
proof -
  let ?a = "emit E (Call ''disable_irq'' [l_irq s]) s"
  have a: "settles K s ?a" by (rule settles_io[OF E io_only_emit ok]) simp
  from interrupt_settles[OF E settles_ok[OF a]] obtain t where t: "pcnet32_interrupt E K ?a = Some t" "settles K ?a t" by blast
  have "settles K t (emit E (Call ''enable_irq'' [l_irq t]) t)" by (rule settles_io[OF E io_only_emit settles_ok[OF t(2)]]) simp
  from settles_trans[OF settles_trans[OF a t(2)] this] t(1) show ?thesis by (simp add: pcnet32_poll_controller_def Let_def)
qed

lemma phys_id_calm:
  assumes "keeps_buffers E"
  shows "phys_id_begin E K data s = (regs, t) \<Longrightarrow> calm s t" "calm s (phys_id_end E regs s)"
proof -
  let ?u = "if \<not> l_blink s then s\<lparr>l_blink := True\<rparr> else s"
  have "calm ?u (snd (lx_read_bcrs E [4..<8] ?u))" by (rule calm_io[OF assms io_only_reads(1)])
  from calm_trans[OF calm_trans[OF _ this] calm_io[OF assms io_only_trans[OF io_only_emit io_only_emit]]]
  show "phys_id_begin E K data s = (regs, t) \<Longrightarrow> calm s t"
    by (auto simp: phys_id_begin_def Let_def split_def)
  show "calm s (phys_id_end E regs s)"
    unfolding phys_id_end_def by (rule calm_io[OF assms io_only_trans[OF io_only_emit io_only_write_bcrs]]) simp
qed

lemma run_takes:
  "lx_run E K bs s t \<Longrightarrow> keeps_buffers E \<Longrightarrow> mii_ok E K \<Longrightarrow> lx_ok s \<Longrightarrow> takes K bs s t"
proof (induction rule: lx_run.induct)
  case (stop s)
  then show ?case by (simp add: takes_none settles_refl)
next
  case (interrupt bs s t u)
  then have t: "takes K bs s t" "keeps_buffers E" by simp_all
  from interrupt_settles[OF t(2) takes_ok[OF t(1)], of K] interrupt(2) show ?case by (auto intro: takes_settles[OF t(1)])
next
  case (poll bs s t u)
  then have t: "takes K bs s t" "keeps_buffers E" by simp_all
  from poll_settles[OF t(2) takes_ok[OF t(1)], of K] poll(2) show ?case by (auto intro: takes_settles[OF t(1)])
next
  case (xmit bs s t b)
  then have t: "takes K bs s t" "lx_ok t" by (simp_all add: takes_def)
  from takes_trans[OF t(1) xmit_takes[OF xmit(5) t(2) xmit(2,3)]] show ?case by simp
next
  case (call bs s t u)
  then have t: "takes K bs s t" by simp
  from takes_settles[OF t call_settles[OF call(4,5) takes_ok[OF t] call(2)]] show ?case .
next
  case (phys_id bs s t data regs u cs v)
  then have t: "takes K bs s t" "lx_ok t" by (simp_all add: takes_def)
  note b = takes_settles[OF t(1) calm_settles[OF phys_id_calm(1)[OF phys_id(6,2)] t(2)]]
  then have v: "takes K cs u v" "lx_ok v" using phys_id by (simp_all add: takes_def)
  from takes_settles[OF takes_trans[OF b v(1)] calm_settles[OF phys_id_calm(2)[OF phys_id(6)] v(2)]] show ?case .
qed

end
