(* ===== verification/Linux_Open.thy ===== *)
theory Linux_Open
  imports Linux_System
begin

text \<open>
  Open and close of the Linux driver: a closed device holds no buffer; opening it either gives an open
  device with the invariant of both rings and an empty queue, or leaves it closed with all that was
  allocated freed again; closing frees what the rings hold.
\<close>

unbundle bit_operations_syntax

definition lx_closed :: "lx \<Rightarrow> bool" where
  "lx_closed s \<longleftrightarrow> l_tx_skbuff s = replicate TX_RING_SIZE None \<and> length (l_tx_dma s) = TX_RING_SIZE \<and>
     l_rx_skbuff s = replicate RX_RING_SIZE None \<and> length (l_rx_dma s) = RX_RING_SIZE"

lemma lx_closed_view: "lx_txv t = lx_txv s \<Longrightarrow> lx_rxv t = lx_rxv s \<Longrightarrow> lx_closed t = lx_closed s"
  by (simp add: lx_txv_def lx_rxv_def lx_closed_def)

lemma calm_closed: "calm s t \<Longrightarrow> lx_closed t = lx_closed s"
  by (rule lx_closed_view) (simp_all add: calm_def)

lemma calm_conserves: "calm s t \<Longrightarrow> conserves K s t"
  by (rule conserves_same) (simp_all add: calm_def lx_txv_def lx_rxv_def)

lemma calm_sel:
  assumes "calm s t"
  shows "l_tx_skbuff t = l_tx_skbuff s" "l_tx_dma t = l_tx_dma s" "l_rx_skbuff t = l_rx_skbuff s" "l_rx_dma t = l_rx_dma s"
    "l_queue_stopped t = l_queue_stopped s" "lx_tx_empty t = lx_tx_empty s" "lx_rx_ok t = lx_rx_ok s"
  using assms lx_txv_empty[of t s] lx_rxv_ok[of t s] by (simp_all add: calm_def lx_txv_def lx_rxv_def)

subsection \<open>Freeing the rings\<close>

lemma free_rx_slot_sel:
  "l_rx_skbuff (free_rx_slot E i s) = (l_rx_skbuff s)[i := None]" "l_rx_dma (free_rx_slot E i s) = (l_rx_dma s)[i := 0]"
  "l_tx_skbuff (free_rx_slot E i s) = l_tx_skbuff s" "l_tx_dma (free_rx_slot E i s) = l_tx_dma s"
  by (simp_all add: free_rx_slot_def Let_def kfree_skb_def pci_unmap_single_def split: option.split)

lemma free_rx_slot_conserves:
  assumes "i < length (l_rx_skbuff s)"
  shows "conserves K s (free_rx_slot E i s)"
proof -
  have r: "refs ((l_rx_skbuff s)[i := None]) + oref (l_rx_skbuff s ! i) = refs (l_rx_skbuff s)"
    using refs_update[OF assms, of None] by simp
  have a: "mset (freed (trace (free_rx_slot E i s))) = mset (freed (trace s)) + oref (l_rx_skbuff s ! i)"
    "passed (trace (free_rx_slot E i s)) = passed (trace s)" "allocated K (trace (free_rx_slot E i s)) = allocated K (trace s)"
    by (simp_all add: free_rx_slot_def Let_def kfree_skb_def pci_unmap_single_def split: option.split)
  have "lx_out (free_rx_slot E i s) = mset (freed (trace s)) + mset (passed (trace s)) + refs (l_tx_skbuff s) +
      (refs ((l_rx_skbuff s)[i := None]) + oref (l_rx_skbuff s ! i))"
    unfolding lx_out_def a free_rx_slot_sel by (simp add: ac_simps)
  also have "\<dots> = lx_out s" by (simp only: r lx_out_def)
  finally show ?thesis by (simp add: conserves_def lx_in_def a(3))
qed

text \<open>Clearing the first slots of a list one by one.\<close>

lemma clear_prefix:
  "n < length xs \<Longrightarrow> (replicate n None @ drop n xs)[n := None] = replicate (Suc n) None @ drop (Suc n) xs"
  by (simp add: list_update_append Cons_nth_drop_Suc[symmetric] replicate_append_same)

lemma free_rx_slots:
  assumes "n \<le> length (l_rx_skbuff s)"
  defines "t \<equiv> \<lambda>E. fold (free_rx_slot E) [0..<n] s"
  shows "l_rx_skbuff (t E) = replicate n None @ drop n (l_rx_skbuff s) \<and> length (l_rx_dma (t E)) = length (l_rx_dma s) \<and>
     l_tx_skbuff (t E) = l_tx_skbuff s \<and> l_tx_dma (t E) = l_tx_dma s \<and> conserves K s (t E)"
  using assms(1) unfolding t_def
proof (induction n)
  case (Suc n)
  let ?u = "fold (free_rx_slot E) [0..<n] s"
  have IH: "l_rx_skbuff ?u = replicate n None @ drop n (l_rx_skbuff s)" "length (l_rx_dma ?u) = length (l_rx_dma s)"
    "l_tx_skbuff ?u = l_tx_skbuff s" "l_tx_dma ?u = l_tx_dma s" "conserves K s ?u"
    using Suc by simp_all
  have "conserves K ?u (free_rx_slot E n ?u)" by (rule free_rx_slot_conserves) (use Suc.prems in \<open>simp add: IH(1)\<close>)
  with IH Suc.prems clear_prefix[of n "l_rx_skbuff s"] show ?case
    by (simp add: free_rx_slot_sel conserves_trans)
qed simp

lemma free_rings_closed:
  assumes "length (l_rx_skbuff s) = RX_RING_SIZE" "length (l_rx_dma s) = RX_RING_SIZE"
    "l_tx_skbuff s = replicate TX_RING_SIZE None" "length (l_tx_dma s) = TX_RING_SIZE"
  shows "lx_closed (fold (free_rx_slot E) [0..<RX_RING_SIZE] s)" "conserves K s (fold (free_rx_slot E) [0..<RX_RING_SIZE] s)"
  using free_rx_slots[of RX_RING_SIZE s E K] assms by (simp_all add: lx_closed_def)

subsection \<open>Open\<close>

text \<open>The registers up to the initialization of the rings.\<close>

definition open_chip :: "env \<Rightarrow> lk \<Rightarrow> lx \<Rightarrow> lx" where
  "open_chip E K s =
     (let s = lx_set_phy E (lx_set_gpsi E (lx_set_duplex E (lx_set_autoselect E (lx_write_bcr E 20 2 (lx_reset E s)))))
      in pcnet32_load_multicast K (s\<lparr>l_block := (l_block s)\<lparr>sn_mode := lx_mode s\<rparr>\<rparr>))"

definition request_irq :: "env \<Rightarrow> lx \<Rightarrow> lx" where
  "request_irq E s = emit E (Call ''request_irq'' [l_irq s]) s"

lemma pcnet32_open_cases:
  "pcnet32_open E K s =
     (if \<not> lk_irq_free K (trace s) then (Some E_AGAIN, request_irq E s)
      else if \<not> lk_valid_addr K (l_dev_addr s) then (Some E_INVAL, lx_free_irq E (request_irq E s))
      else case pcnet32_init_ring E K (open_chip E K (request_irq E s)) of (fail, u) \<Rightarrow>
        if fail then (Some E_NOMEM, lx_free_irq E (lx_write_bcr E 20 4 (fold (free_rx_slot E) [0..<RX_RING_SIZE] u)))
        else (None, lx_start E K u))"
  unfolding pcnet32_open_def open_chip_def request_irq_def Let_def emit_sel_lx ..

lemma io_only_setup:
  "io_only E s (lx_set_autoselect E s)" "io_only E s (lx_set_duplex E s)" "io_only E s (lx_set_gpsi E s)"
  "io_only E s (lx_set_phy E s)" "io_only E s (lx_load_block_address E s)"
proof -
  note rw = io_only_trans[OF io_only_lx(3) io_only_lx(4)] io_only_trans[OF io_only_lx(1) io_only_lx(2)]
  show "io_only E s (lx_set_autoselect E s)" "io_only E s (lx_set_gpsi E s)"
    using rw by (simp_all add: lx_set_autoselect_def lx_set_gpsi_def Let_def split_def)
  have id: "io_only E u (snd (lx_chip_id E u))" for u
    using io_only_trans[OF io_only_lx(1) io_only_lx(1)] by (simp add: lx_chip_id_def Let_def split_def)
  show "io_only E s (lx_set_duplex E s)"
    using rw(1) io_only_trans[OF io_only_trans[OF io_only_lx(3) id] io_only_lx(4)]
    by (simp add: lx_set_duplex_def Let_def split_def)
  show "io_only E s (lx_set_phy E s)"
    using io_only_trans[OF io_only_trans[OF rw(1) io_only_lx(3)] io_only_lx(4)]
    by (simp add: lx_set_phy_def Let_def split_def)
  show "io_only E s (lx_load_block_address E s)"
    using io_only_trans[OF io_only_lx(2) io_only_lx(2)] by (simp add: lx_load_block_address_def Let_def)
qed

lemma calm_open_chip:
  assumes E: "keeps_buffers E"
  shows "calm s (open_chip E K s)"
proof -
  define u where "u = lx_set_phy E (lx_set_gpsi E (lx_set_duplex E (lx_set_autoselect E (lx_write_bcr E 20 2 (lx_reset E s)))))"
  have "io_only E s u"
    unfolding u_def by (intro io_only_trans[OF io_only_trans[OF io_only_trans[OF io_only_trans[OF io_only_trans[OF
      io_only_lx(7) io_only_lx(4)] io_only_setup(1)] io_only_setup(2)] io_only_setup(3)] io_only_setup(4)])
  note u = calm_io[OF E this]
  have "calm u (pcnet32_load_multicast K (u\<lparr>l_block := (l_block u)\<lparr>sn_mode := lx_mode u\<rparr>\<rparr>))"
    by (simp add: pcnet32_load_multicast_def Let_def)
  with u show ?thesis unfolding open_chip_def u_def[symmetric] Let_def by (rule calm_trans)
qed

text \<open>The queue is started; the rings stay as they are.\<close>

lemma start_view:
  fixes s :: lx
  assumes E: "keeps_buffers E" "mii_ok E K"
  defines "t \<equiv> lx_start E K s"
  shows "lx_txv t = lx_txv (s\<lparr>l_queue_stopped := False\<rparr>)" "lx_rxv t = lx_rxv s" "conserves K s t"
proof -
  define u where "u = lx_write_csr E 0 0x0001 (lx_write_csr E 4 0x0915 (lx_load_block_address E s))"
  have u: "calm s u"
    unfolding u_def by (intro calm_io[OF E(1)] io_only_trans[OF io_only_trans[OF io_only_setup(5) io_only_lx(2)] io_only_lx(2)])
  define v where "v = netif_start_queue E u"
  have v: "lx_txv v = lx_txv (s\<lparr>l_queue_stopped := False\<rparr>)" "lx_rxv v = lx_rxv s" "conserves K u v"
    using u E(1) by (simp_all add: v_def netif_start_queue_def calm_def lx_txv_def lx_rxv_def lx_base_def lx_md_vars conserves_same)
  define w where "w = (if l_mii v then emit E (Kernel ''mod_timer(watchdog)'') (snd (lk_mii K ''mii_check_media'' v)) else v)"
  have "calm v w"
    unfolding w_def using calm_trans[OF calm_mii_call[OF E] calm_io[OF E(1) io_only_emit]] by simp
  from calm_trans[OF this calm_io[OF E(1) io_only_trans[OF io_only_trans[OF io_only_poll io_only_lx(2)] io_only_lx(8)]]]
  have t: "calm v t" unfolding t_def lx_start_def Let_def u_def[symmetric] v_def[symmetric] w_def[symmetric] .
  show "lx_txv t = lx_txv (s\<lparr>l_queue_stopped := False\<rparr>)" "lx_rxv t = lx_rxv s" using t v by (simp_all add: calm_def)
  show "conserves K s t" using conserves_trans[OF conserves_trans[OF calm_conserves[OF u] v(3)] calm_conserves[OF t]] .
qed

lemma start_ok:
  assumes E: "keeps_buffers E" "mii_ok E K" and s: "lx_tx_empty s" "lx_rx_ok s"
  defines "t \<equiv> lx_start E K s"
  shows "lx_ok t" "lx_queue t = []" "\<not> l_queue_stopped t" "conserves K s t"
proof -
  note t = start_view[OF E, of s, folded t_def]
  have "lx_tx_empty (s\<lparr>l_queue_stopped := False\<rparr>)" using s(1) by (simp add: lx_tx_empty_def lx_base_def lx_md_vars)
  then have e: "lx_tx_empty t" "lx_rx_ok t" using lx_txv_empty[OF t(1)] lx_rxv_ok[OF t(2)] s(2) by simp_all
  show "\<not> l_queue_stopped t" "conserves K s t" using t by (simp_all add: lx_txv_def)
  then show "lx_ok t" "lx_queue t = []" using e lx_tx_empty_ok[of t] by (simp_all add: lx_ok_def)
qed

lemma open_outcome:
  assumes E: "keeps_buffers E" "mii_ok E K" and s: "lx_closed s" and r: "pcnet32_open E K s = (r, t)"
  shows "conserves K s t" "r = None \<Longrightarrow> lx_ok t \<and> lx_queue t = [] \<and> \<not> l_queue_stopped t"
    "r \<noteq> None \<Longrightarrow> lx_closed t" "r = Some E_AGAIN \<longleftrightarrow> \<not> lk_irq_free K (trace s)"
    "r \<noteq> None \<Longrightarrow> r \<noteq> Some E_AGAIN \<Longrightarrow> hd (trace t) = Call ''free_irq'' [l_irq t]"
    "r = Some E_NOMEM \<Longrightarrow> \<exists>h. lk_skb K h = None" "r \<in> {None, Some E_AGAIN, Some E_INVAL, Some E_NOMEM}"
proof -
  let ?q = "request_irq E s" and ?f = "lx_free_irq E"
  have q: "calm s ?q" unfolding request_irq_def by (intro calm_io[OF E(1)] io_only_emit) simp
  have f: "calm u (?f u)" for u unfolding lx_free_irq_def by (intro calm_io[OF E(1)] io_only_emit) simp
  have last: "hd (trace (?f u)) = Call ''free_irq'' [l_irq (?f u)]" for u by (simp add: lx_free_irq_def)
  define u where "u = open_chip E K ?q"
  have su: "calm s u" unfolding u_def by (rule calm_trans[OF q calm_open_chip[OF E(1)]])
  have cu: "lx_closed u" using calm_closed[OF su] s by simp
  obtain fail v where v: "pcnet32_init_ring E K u = (fail, v)" by fastforce
  have "rx_len u" "l_tx_skbuff u = replicate TX_RING_SIZE None" "length (l_tx_dma u) = TX_RING_SIZE"
    using cu by (simp_all add: lx_closed_def rx_len_def)
  note i = init_ring_cases[OF E(1) this v]
  define w where "w = lx_write_bcr E 20 4 (fold (free_rx_slot E) [0..<RX_RING_SIZE] v)"
  have vw: "lx_closed w" "conserves K v w"
    using free_rings_closed[where s = v and E = E] i calm_closed[OF calm_io[OF E(1) io_only_lx(4)]]
      conserves_trans[OF free_rings_closed(2) calm_conserves[OF calm_io[OF E(1) io_only_lx(4)]]]
    by (simp_all add: w_def rx_len_def)
  have sv: "conserves K s v" using conserves_trans[OF calm_conserves[OF su]] i by blast
  have st: "\<not> fail \<Longrightarrow> lx_ok (lx_start E K v) \<and> lx_queue (lx_start E K v) = [] \<and> \<not> l_queue_stopped (lx_start E K v) \<and>
      conserves K v (lx_start E K v)"
    using start_ok[OF E, of v] i by simp
  have mem: "fail \<Longrightarrow> \<exists>h. lk_skb K h = None" using init_ring_memory[of K E u] v by force
  have o: "(r, t) = (if \<not> lk_irq_free K (trace s) then (Some E_AGAIN, ?q)
      else if \<not> lk_valid_addr K (l_dev_addr s) then (Some E_INVAL, ?f ?q)
      else if fail then (Some E_NOMEM, ?f w) else (None, lx_start E K v))"
    using r unfolding pcnet32_open_cases u_def[symmetric] v w_def prod.case by (rule sym)
  note cases = calm_trans[OF q f] calm_closed[OF q] calm_closed[OF f] calm_closed[OF calm_trans[OF q f]]
  show "r = Some E_AGAIN \<longleftrightarrow> \<not> lk_irq_free K (trace s)" "r = None \<Longrightarrow> lx_ok t \<and> lx_queue t = [] \<and> \<not> l_queue_stopped t"
    "r = Some E_NOMEM \<Longrightarrow> \<exists>h. lk_skb K h = None" "r \<in> {None, Some E_AGAIN, Some E_INVAL, Some E_NOMEM}"
    using o st mem by (auto split: if_splits)
  show "r \<noteq> None \<Longrightarrow> lx_closed t" using o vw cases s by (auto split: if_splits)
  show "r \<noteq> None \<Longrightarrow> r \<noteq> Some E_AGAIN \<Longrightarrow> hd (trace t) = Call ''free_irq'' [l_irq t]"
    using o last by (auto split: if_splits)
  show "conserves K s t"
    using o st calm_conserves[OF q] calm_conserves[OF calm_trans[OF q f]]
      conserves_trans[OF sv conserves_trans[OF vw(2) calm_conserves[OF f]]] conserves_trans[OF sv]
    by (auto split: if_splits)
qed

subsection \<open>Close\<close>

definition close_chip :: "env \<Rightarrow> lk \<Rightarrow> lx \<Rightarrow> lx" where
  "close_chip E K s =
     (let (v, s) = lx_read_csr E 112 (netif_stop_queue E (emit E (Kernel ''del_timer_sync(watchdog)'') s));
          s = lx_msg_csr0 E K ''IFDOWN'' (s\<lparr>l_stats := (l_stats s)\<lparr>ls_rx_missed_errors := ucast v\<rparr>\<rparr>)
      in lx_free_irq E (lx_write_bcr E 20 4 (lx_write_csr E 0 0x0004 s)))"

lemma pcnet32_close_split:
  "pcnet32_close E K s = fold (purge_slot E) [0..<TX_RING_SIZE] (fold (free_rx_slot E) [0..<RX_RING_SIZE] (close_chip E K s))"
  unfolding pcnet32_close_def close_chip_def Let_def by (simp add: split_def)

lemma close_chip_keeps:
  fixes K :: lk and s :: lx
  assumes E: "keeps_buffers E"
  defines "t \<equiv> close_chip E K s"
  shows "l_tx_skbuff t = l_tx_skbuff s \<and> l_tx_dma t = l_tx_dma s \<and> l_rx_skbuff t = l_rx_skbuff s \<and>
    l_rx_dma t = l_rx_dma s \<and> conserves K s t"
proof -
  define u where "u = netif_stop_queue E (emit E (Kernel ''del_timer_sync(watchdog)'') s)"
  have u: "l_tx_skbuff u = l_tx_skbuff s" "l_tx_dma u = l_tx_dma s" "l_rx_skbuff u = l_rx_skbuff s" "l_rx_dma u = l_rx_dma s"
    "conserves K s u"
    by (simp_all add: u_def netif_stop_queue_def conserves_same)
  define v where "v = snd (lx_read_csr E 112 u)"
  define w where "w = v\<lparr>l_stats := (l_stats v)\<lparr>ls_rx_missed_errors := ucast (fst (lx_read_csr E 112 u))\<rparr>\<rparr>"
  have "calm u w" unfolding w_def by (rule calm_trans[OF calm_io[OF E] calm_vars(1)]) (simp add: v_def)
  moreover have "calm w (lx_free_irq E (lx_write_bcr E 20 4 (lx_write_csr E 0 0x0004 (lx_msg_csr0 E K ''IFDOWN'' w))))"
    unfolding lx_free_irq_def
    by (intro calm_io[OF E] io_only_trans[OF io_only_trans[OF io_only_trans[OF io_only_lx(8) io_only_lx(2)] io_only_lx(4)] io_only_emit]) simp
  ultimately have "calm u t"
    unfolding t_def close_chip_def Let_def split_def u_def[symmetric] v_def[symmetric] w_def[symmetric] by (rule calm_trans)
  with u show ?thesis using calm_sel[of u t] calm_conserves[of u t] conserves_trans by auto
qed

lemma close_outcome:
  fixes K :: lk
  assumes E: "keeps_buffers E" and ok: "lx_ok s"
  defines "t \<equiv> pcnet32_close E K s"
  shows "lx_closed t" "conserves K s t"
proof -
  define u where "u = close_chip E K s"
  note u = close_chip_keeps[OF E, of K s, folded u_def]
  have l: "length (l_rx_skbuff u) = RX_RING_SIZE" "length (l_rx_dma u) = RX_RING_SIZE"
    "length (l_tx_skbuff u) = TX_RING_SIZE" "length (l_tx_dma u) = TX_RING_SIZE"
    using u ok by (simp_all add: lx_ok_def lx_rx_ok_def lx_tx_ok_def lx_ring_ok_def)
  define v where "v = fold (free_rx_slot E) [0..<RX_RING_SIZE] u"
  have v: "l_rx_skbuff v = replicate RX_RING_SIZE None" "length (l_rx_dma v) = RX_RING_SIZE"
    "length (l_tx_skbuff v) = TX_RING_SIZE" "length (l_tx_dma v) = TX_RING_SIZE" "conserves K u v"
    using free_rx_slots[of RX_RING_SIZE u E K] l by (simp_all add: v_def)
  have t: "t = fold (purge_slot E) [0..<TX_RING_SIZE] v" by (simp add: t_def pcnet32_close_split u_def v_def)
  show "lx_closed t"
    using purge_ok[OF order.refl v(3,4), of E] v by (simp add: t lx_closed_def lx_rxv_def)
  have "conserves K v t" unfolding t by (rule purge_conserves) (auto simp: v(3))
  with u v(5) show "conserves K s t" using conserves_trans by blast
qed

text \<open>From a closed device to a closed device: all buffers are freed or were passed up.\<close>

lemma closed_accounts:
  assumes "lx_closed s" "lx_closed t" "lx_in K t + mset (map sk_ref bs) + lx_out s = lx_in K s + lx_out t"
  shows "mset (allocated K (trace t)) + mset (map sk_ref bs) + (mset (freed (trace s)) + mset (passed (trace s))) =
    mset (allocated K (trace s)) + (mset (freed (trace t)) + mset (passed (trace t)))"
  using assms by (simp add: lx_closed_def lx_in_def lx_out_def)

lemma session_accounts:
  assumes E: "keeps_buffers E" "mii_ok E K" and s: "lx_closed s" and o: "pcnet32_open E K s = (None, u)"
    and r: "lx_run E K bs u t"
  shows "lx_ok t" "lx_closed (pcnet32_close E K t)"
    "lx_in K (pcnet32_close E K t) + mset (map sk_ref bs) + lx_out s = lx_in K s + lx_out (pcnet32_close E K t)"
proof -
  note op = open_outcome[OF E s o]
  then have u: "lx_ok u" "conserves K s u" by simp_all
  note t = run_takes[OF r E u(1)]
  then show "lx_ok t" by (rule takes_ok)
  note c = close_outcome[OF E(1) this, of K]
  show "lx_closed (pcnet32_close E K t)" by (rule c(1))
  have "(lx_in K (pcnet32_close E K t) + mset (map sk_ref bs) + lx_out s) + (lx_in K u + lx_out u + (lx_in K t + lx_out t)) =
      (lx_in K u + lx_out s) + (lx_in K t + mset (map sk_ref bs) + lx_out u) + (lx_in K (pcnet32_close E K t) + lx_out t)"
    by (simp add: ac_simps)
  also have "\<dots> = (lx_in K s + lx_out u) + (lx_in K u + lx_out t) + (lx_in K t + lx_out (pcnet32_close E K t))"
    using u(2) t c(2) by (simp only: conserves_def takes_def)
  also have "\<dots> = (lx_in K s + lx_out (pcnet32_close E K t)) + (lx_in K u + lx_out u + (lx_in K t + lx_out t))"
    by (simp add: ac_simps)
  finally show "lx_in K (pcnet32_close E K t) + mset (map sk_ref bs) + lx_out s = lx_in K s + lx_out (pcnet32_close E K t)"
    by (rule add_right_imp_eq)
qed

end
