(* ===== verification/Linux_Deliver.thy ===== *)
theory Linux_Deliver
  imports Linux_Open
begin

text \<open>
  What reception in the Linux driver delivers: the bytes of a good packet, whether it is passed up in its
  ring buffer or copied to a new one, after which the descriptor is the chip's again; and what
  becomes of damaged packets and of packets for which there is no memory.
\<close>

unbundle bit_operations_syntax

text \<open>The packet of slot \<open>i\<close>: the bytes the chip put into the slot's buffer.\<close>

definition lx_frame :: "lx \<Rightarrow> nat \<Rightarrow> skb \<Rightarrow> u8 list" where
  "lx_frame s i r = map (\<lambda>k. ram (mem s) (sk_data r + of_nat k)) [0..<nat (lx_pkt_len (lx_rx s i))]"

text \<open>The slot's packet is complete and of a length the driver accepts.\<close>

definition good_frame :: "lx \<Rightarrow> nat \<Rightarrow> bool" where
  "good_frame s i \<longleftrightarrow> \<not> has (mds_status (lx_rx s i)) RMD_OWN \<and> drop_bit 8 (mds_status (lx_rx s i)) = 0x03 \<and>
     60 \<le> lx_pkt_len (lx_rx s i) \<and> lx_pkt_len (lx_rx s i) \<le> int (PKT_BUF_SZ - 2)"

lemma upd_lx_rx_ram [simp]: "ram (mem (upd_lx_rx i f s)) = ram (mem s)"
  by (simp add: upd_lx_rx_def upd_mds_def)

lemma lx_rx_ram [simp]: "lx_rx (s\<lparr>mem := (mem s)\<lparr>ram := x\<rparr>\<rparr>) j = lx_rx s j"
  by (simp add: lx_rx_def lx_rx_at_def)

subsection \<open>The slots ahead\<close>

definition rx_slot :: "lx \<Rightarrow> nat \<Rightarrow> nat" where
  "rx_slot s k = unat ((l_cur_rx s + of_nat k) AND of_nat RX_RING_MOD_MASK)"

lemma rx_slot_0: "unat (l_cur_rx s AND of_nat RX_RING_MOD_MASK) = rx_slot s 0"
  by (simp add: rx_slot_def)

lemma rx_slot_bound [simp]: "rx_slot s k < RX_RING_SIZE"
  unfolding rx_slot_def by (rule rx_slot_less)

lemma rx_slot_next: "l_cur_rx t = l_cur_rx s + 1 \<Longrightarrow> rx_slot t k = rx_slot s (Suc k)"
  by (simp add: rx_slot_def algebra_simps)

lemma rx_slot_mod: "rx_slot s k = (unat (l_cur_rx s) + k) mod RX_RING_SIZE"
proof -
  have m: "unat (c AND of_nat RX_RING_MOD_MASK) = unat c mod 32" for c :: u32
  proof -
    have "c AND 31 = take_bit 5 c" by (simp add: take_bit_eq_mask mask_eq_exp_minus_1)
    then have "unat (c AND 31) = take_bit 5 (unat c)" by (simp only: unsigned_take_bit_eq)
    then show ?thesis by (simp add: RX_RING_MOD_MASK_def RX_RING_SIZE_def take_bit_eq_mod)
  qed
  have a: "unat (l_cur_rx s + x) mod 32 = (unat (l_cur_rx s) + unat x) mod 32" for x
    unfolding unat_word_ariths by (subst mod_mod_cancel) simp_all
  have b: "unat (of_nat k :: u32) mod 32 = k mod 32" unfolding unat_of_nat by (subst mod_mod_cancel) simp_all
  have "unat (l_cur_rx s + of_nat k) mod 32 = (unat (l_cur_rx s) + unat (of_nat k :: u32) mod 32) mod 32"
    unfolding a by (simp only: mod_add_right_eq)
  also have "\<dots> = (unat (l_cur_rx s) + k) mod 32" unfolding b by (simp only: mod_add_right_eq)
  finally have "unat (l_cur_rx s + of_nat k) mod 32 = (unat (l_cur_rx s) + k) mod 32" .
  then show ?thesis by (simp only: rx_slot_def m) (simp add: RX_RING_SIZE_def)
qed

lemma rx_slot_ahead: "0 < k \<Longrightarrow> k < RX_RING_SIZE \<Longrightarrow> rx_slot s k \<noteq> rx_slot s 0"
  using cyc_inj[of "unat (l_cur_rx s)" k RX_RING_SIZE 0] by (auto simp: rx_slot_mod)

text \<open>
  Memory for the next \<open>n\<close> packets: their slots have buffers without data, and the new buffers have
  none either and lie elsewhere.
\<close>

definition rx_room :: "lk \<Rightarrow> nat \<Rightarrow> lx \<Rightarrow> bool" where
  "rx_room K n s \<longleftrightarrow> (\<forall>k<n. \<exists>r. l_rx_skbuff s ! rx_slot s k = Some r \<and> sk_len r = 0) \<and>
     (\<forall>h. \<exists>nb. lk_skb K (h @ trace s) = Some nb \<and> sk_len nb = 0 \<and>
        (\<forall>k<n. \<forall>r. l_rx_skbuff s ! rx_slot s k = Some r \<longrightarrow>
           area_bytes (sk_data nb + 2, PKT_BUF_SZ - 2) \<inter> area_bytes (sk_data r, PKT_BUF_SZ - 2) = {}))"

text \<open>What the packet of slot 0 leaves alone: the other slots and their buffers.\<close>

definition rx_ahead :: "nat \<Rightarrow> lx \<Rightarrow> lx \<Rightarrow> bool" where
  "rx_ahead n s t \<longleftrightarrow> (\<exists>h. trace t = h @ trace s) \<and> l_cur_rx t = l_cur_rx s \<and>
     (\<forall>j<RX_RING_SIZE. j \<noteq> rx_slot s 0 \<longrightarrow> lx_rx t j = lx_rx s j \<and> l_rx_skbuff t ! j = l_rx_skbuff s ! j) \<and>
     (\<forall>k<n. \<forall>r. l_rx_skbuff s ! rx_slot s (Suc k) = Some r \<longrightarrow>
        (\<forall>x\<in>area_bytes (sk_data r, PKT_BUF_SZ - 2). ram (mem t) x = ram (mem s) x))"

lemma rx_buffer_bytes:
  assumes q: "quiet_chip E" and room: "rx_room K (Suc n) s" and len: "0 \<le> l" "l \<le> int (PKT_BUF_SZ - 2)" and ok: "lx_rx_ok s"
  defines "i \<equiv> rx_slot s 0"
  shows "\<exists>b t. lx_rx_buffer E K i l s = Some (Some b, t) \<and>
     skb_bytes t b = map (\<lambda>k. ram (mem s) (sk_data (the (l_rx_skbuff s ! i)) + of_nat k)) [0..<nat l] \<and>
     delivered (trace t) = delivered (trace s) \<and> rx_ahead n s t"
proof -
  from room obtain r where r: "l_rx_skbuff s ! i = Some r" "sk_len r = 0" by (auto simp: rx_room_def i_def)
  from room have "\<exists>nb. lk_skb K ([] @ trace s) = Some nb \<and> sk_len nb = 0 \<and>
        (\<forall>k<Suc n. \<forall>r. l_rx_skbuff s ! rx_slot s k = Some r \<longrightarrow>
           area_bytes (sk_data nb + 2, PKT_BUF_SZ - 2) \<inter> area_bytes (sk_data r, PKT_BUF_SZ - 2) = {})"
    unfolding rx_room_def by blast
  then obtain nb where nb: "lk_skb K (trace s) = Some nb" "sk_len nb = 0"
    "\<And>k r. k < Suc n \<Longrightarrow> l_rx_skbuff s ! rx_slot s k = Some r \<Longrightarrow>
       area_bytes (sk_data nb + 2, PKT_BUF_SZ - 2) \<inter> area_bytes (sk_data r, PKT_BUF_SZ - 2) = {}"
    by auto
  show ?thesis
  proof (cases "l > lk_rx_copybreak K")
    case True
    then show ?thesis using q r nb(1,2) ok
      by (simp add: lx_rx_buffer_def lx_rx_in_place_def dev_alloc_skb_def Let_def pci_unmap_single_def pci_map_single_def
          skb_put_def skb_bytes_def quiet_mem rx_ahead_def i_def[symmetric] lx_rx_ok_def)
        (simp add: i_def lx_md_quiet[OF q])
  next
    case False
    let ?src = "map (\<lambda>k. ram (mem s) (sk_data r + of_nat k)) [0..<nat l]" and ?a = "sk_data nb + 2"
    have hit: "poke ?a ?src m (?a + of_nat k) = ?src ! k" if "k < nat l" for m k
      by (rule poke_hit) (use that len in \<open>simp_all add: PKT_BUF_SZ_def\<close>)
    have miss: "poke ?a ?src m x = m x"
      if "k < n" "l_rx_skbuff s ! rx_slot s (Suc k) = Some r'" "x \<in> area_bytes (sk_data r', PKT_BUF_SZ - 2)" for m x k r'
    proof (rule poke_miss)
      have "area_bytes (?a, length ?src) \<subseteq> area_bytes (?a, PKT_BUF_SZ - 2)" using len by (auto simp: area_bytes_def)
      with nb(3)[of "Suc k" r'] that show "x \<notin> area_bytes (?a, length ?src)" by auto
    qed
    show ?thesis using False q r nb(1,2) ok hit miss
      by (simp add: lx_rx_buffer_def lx_rx_copy_def dev_alloc_skb_def Let_def skb_put_def skb_reserve_def skb_bytes_def quiet_mem
          rx_ahead_def cong: map_cong)
        (simp add: lx_rx_def lx_rx_at_def quiet_mem[OF q])
  qed
qed

text \<open>The slot of a packet is given back, whatever became of the packet.\<close>

lemma rx_return_ahead:
  assumes "rx_ahead n s t"
  defines "u \<equiv> lx_rx_return (rx_slot s 0) t"
  shows "l_cur_rx u = l_cur_rx s + 1" "has (mds_status (lx_rx u (rx_slot s 0))) RMD_OWN" "trace u = trace t"
    "\<forall>j<RX_RING_SIZE. j \<noteq> rx_slot s 0 \<longrightarrow> lx_rx u j = lx_rx s j \<and> l_rx_skbuff u ! j = l_rx_skbuff s ! j"
    "ram (mem u) = ram (mem t)"
  using assms(1) by (simp_all add: u_def lx_rx_return_def Let_def rx_ahead_def RMD_OWN_def has_or) (simp add: has_def)

text \<open>A damaged packet is counted; nothing is delivered.\<close>

lemma rx_error_ahead: "rx_ahead n s (lx_rx_error (rx_slot s 0) status s) \<and> trace (lx_rx_error (rx_slot s 0) status s) = trace s"
  by (simp add: lx_rx_error_def Let_def rx_ahead_def bump_if_def)

lemma bump_ahead: "rx_ahead n s (bump upd s)"
  by (simp add: rx_ahead_def)

definition lx_frames :: "lx \<Rightarrow> nat \<Rightarrow> u8 list list" where
  "lx_frames s k = (let i = rx_slot s k in if good_frame s i then [lx_frame s i (the (l_rx_skbuff s ! i))] else [])"

lemma rx_good_delivers:
  assumes q: "quiet_chip E" and room: "rx_room K (Suc n) s" and ok: "lx_rx_ok s"
    and good: "\<not> has (mds_status (lx_rx s (rx_slot s 0))) RMD_OWN" "drop_bit 8 (mds_status (lx_rx s (rx_slot s 0))) = 0x03"
  shows "\<exists>t. lx_rx_good E K (rx_slot s 0) s = Some (False, t) \<and> rx_ahead n s t \<and>
     delivered (trace t) = delivered (trace s) @ lx_frames s 0"
proof -
  let ?i = "rx_slot s 0" and ?l = "lx_pkt_len (lx_rx s (rx_slot s 0))"
  show ?thesis
  proof (cases "?l > int (PKT_BUF_SZ - 2) \<or> ?l < 60")
    case True
    then have "lx_rx_good E K ?i s = Some (False, bump ls_rx_errors_update s)" "lx_frames s 0 = []"
      by (auto simp: lx_rx_good_def Let_def lx_frames_def good_frame_def)
    then show ?thesis by (simp add: bump_ahead)
  next
    case False
    then have f: "good_frame s ?i" using good by (simp add: good_frame_def)
    from rx_buffer_bytes[OF q room _ _ ok, of ?l] False obtain b t where
      t: "lx_rx_buffer E K ?i ?l s = Some (Some b, t)"
        "skb_bytes t b = map (\<lambda>k. ram (mem s) (sk_data (the (l_rx_skbuff s ! ?i)) + of_nat k)) [0..<nat ?l]"
        "delivered (trace t) = delivered (trace s)" "rx_ahead n s t" by auto
    have g: "lx_rx_good E K ?i s = Some (False, lx_pass_up E b t)" using False t(1) by (simp add: lx_rx_good_def Let_def)
    have "skb_bytes (emit E e (t\<lparr>l_stats := st\<rparr>)) b = skb_bytes t b" for e st by (simp add: skb_bytes_def quiet_mem[OF q])
    then have "delivered (trace (lx_pass_up E b t)) = delivered (trace t) @ [skb_bytes t b]"
      by (simp add: lx_pass_up_def Let_def)
    moreover have "rx_ahead n s (lx_pass_up E b t)"
      using t(4) by (auto simp: lx_pass_up_def Let_def rx_ahead_def quiet_mem[OF q] lx_md_quiet[OF q])
    ultimately show ?thesis using g t(2,3) f by (simp add: lx_frames_def lx_frame_def Let_def)
  qed
qed

text \<open>One round of the loop, and the state of the slots ahead after it.\<close>

lemma rx_round:
  assumes q: "quiet_chip E" and room: "rx_room K (Suc n) s" and ok: "lx_rx_ok s"
    and own: "\<not> has (mds_status (lx_rx s (rx_slot s 0))) RMD_OWN"
  shows "\<exists>t u. (\<forall>m. lx_rx_loop E K (Suc m) s = lx_rx_loop E K m u) \<and> rx_ahead n s t \<and> u = lx_rx_return (rx_slot s 0) t \<and>
     lx_rx_ok u \<and> delivered (trace t) = delivered (trace s) @ lx_frames s 0"
proof -
  let ?i = "rx_slot s 0" and ?status = "drop_bit 8 (mds_status (lx_rx s (rx_slot s 0)))"
  have E: "keeps_buffers E" using q by (rule quiet_keeps_buffers)
  have "\<exists>t. (if ?status \<noteq> 0x03 then Some (False, lx_rx_error ?i ?status s) else lx_rx_good E K ?i s) = Some (False, t) \<and>
      rx_ahead n s t \<and> delivered (trace t) = delivered (trace s) @ lx_frames s 0"
  proof (cases "?status = 0x03")
    case True
    from rx_good_delivers[OF q room ok own True] show ?thesis by (simp add: True)
  next
    case False
    then have "lx_frames s 0 = []" by (simp add: lx_frames_def good_frame_def)
    with False show ?thesis using rx_error_ahead[of n s ?status] by simp
  qed
  then obtain t where t: "(if ?status \<noteq> 0x03 then Some (False, lx_rx_error ?i ?status s) else lx_rx_good E K ?i s) = Some (False, t)"
    "rx_ahead n s t" "delivered (trace t) = delivered (trace s) @ lx_frames s 0" by blast
  have loop: "lx_rx_loop E K (Suc m) s = lx_rx_loop E K m (lx_rx_return ?i t)" for m
    using own t(1) by (simp only: lx_rx_loop.simps Let_def if_False rx_slot_0) simp
  have "\<exists>stop u. (if ?status \<noteq> 0x03 then Some (False, lx_rx_error ?i ?status s) else lx_rx_good E K ?i s) = Some (stop, u) \<and> rx_keeps K s u"
    using rx_good_keeps[OF E rx_slot_bound[of s 0] ok, of K] rx_error_keeps[OF rx_slot_bound[of s 0] ok, of K ?status] by auto
  then have "rx_keeps K s t" using t(1) by auto
  then have "rx_keeps K s (lx_rx_return ?i t)" "lx_rx_ok t"
    using rx_keeps_trans[OF _ rx_return_keeps[OF rx_slot_bound]] by (auto simp: rx_keeps_def)
  with loop t show ?thesis by (intro exI[of _ t] exI[of _ "lx_rx_return ?i t"]) (simp add: rx_keeps_def)
qed

lemma rx_ahead_next:
  assumes a: "rx_ahead n s t" and room: "rx_room K (Suc n) s" and n: "n < RX_RING_SIZE"
  defines "u \<equiv> lx_rx_return (rx_slot s 0) t"
  shows "rx_room K n u" "k < n \<Longrightarrow> lx_frames u k = lx_frames s (Suc k)"
    "k < n \<Longrightarrow> lx_rx u (rx_slot u k) = lx_rx s (rx_slot s (Suc k))"
proof -
  note r = rx_return_ahead[OF a, folded u_def]
  have sl: "rx_slot u k = rx_slot s (Suc k)" for k by (rule rx_slot_next[OF r(1)])
  have other: "lx_rx u (rx_slot s (Suc k)) = lx_rx s (rx_slot s (Suc k)) \<and>
      l_rx_skbuff u ! rx_slot s (Suc k) = l_rx_skbuff s ! rx_slot s (Suc k)" if "k < n" for k
    using r(4) rx_slot_ahead[of "Suc k" s] that n by simp
  show "k < n \<Longrightarrow> lx_rx u (rx_slot u k) = lx_rx s (rx_slot s (Suc k))" using other by (simp add: sl)
  obtain h where h: "trace u = h @ trace s" using a r(3) by (auto simp: rx_ahead_def)
  have R: "\<exists>nb. lk_skb K (h' @ trace s) = Some nb \<and> sk_len nb = 0 \<and>
        (\<forall>k<Suc n. \<forall>r. l_rx_skbuff s ! rx_slot s k = Some r \<longrightarrow>
           area_bytes (sk_data nb + 2, PKT_BUF_SZ - 2) \<inter> area_bytes (sk_data r, PKT_BUF_SZ - 2) = {})" for h'
    using room by (simp only: rx_room_def)
  show "rx_room K n u"
    unfolding rx_room_def
  proof (intro conjI allI impI)
    fix k assume "k < n"
    with room other[of k] show "\<exists>r. l_rx_skbuff u ! rx_slot u k = Some r \<and> sk_len r = 0" by (simp add: rx_room_def sl)
  next
    fix h'
    from R[of "h' @ h"] obtain nb where nb: "lk_skb K (h' @ trace u) = Some nb" "sk_len nb = 0"
      "\<And>k r. k < Suc n \<Longrightarrow> l_rx_skbuff s ! rx_slot s k = Some r \<Longrightarrow>
           area_bytes (sk_data nb + 2, PKT_BUF_SZ - 2) \<inter> area_bytes (sk_data r, PKT_BUF_SZ - 2) = {}"
      by (auto simp: h)
    have "area_bytes (sk_data nb + 2, PKT_BUF_SZ - 2) \<inter> area_bytes (sk_data r, PKT_BUF_SZ - 2) = {}"
      if "k < n" "l_rx_skbuff u ! rx_slot u k = Some r" for k r
      using nb(3)[of "Suc k" r] other[of k] that by (simp add: sl)
    with nb(1,2) show "\<exists>nb. lk_skb K (h' @ trace u) = Some nb \<and> sk_len nb = 0 \<and> (\<forall>k<n. \<forall>r. l_rx_skbuff u ! rx_slot u k = Some r \<longrightarrow>
        area_bytes (sk_data nb + 2, PKT_BUF_SZ - 2) \<inter> area_bytes (sk_data r, PKT_BUF_SZ - 2) = {})" by blast
  qed
  show "lx_frames u k = lx_frames s (Suc k)" if k: "k < n"
  proof -
    let ?j = "rx_slot s (Suc k)"
    from room k obtain r where b: "l_rx_skbuff s ! ?j = Some r" by (auto simp: rx_room_def)
    have g: "good_frame u ?j = good_frame s ?j" and l: "lx_pkt_len (lx_rx u ?j) = lx_pkt_len (lx_rx s ?j)"
      using other[OF k] by (simp_all add: good_frame_def)
    have "lx_frame u ?j r = lx_frame s ?j r" if "good_frame s ?j"
      unfolding lx_frame_def l
    proof (rule map_cong[OF refl])
      fix m assume "m \<in> set [0..<nat (lx_pkt_len (lx_rx s ?j))]"
      then have "sk_data r + of_nat m \<in> area_bytes (sk_data r, PKT_BUF_SZ - 2)"
        using that by (auto simp: good_frame_def area_bytes_def)
      then show "ram (mem u) (sk_data r + of_nat m) = ram (mem s) (sk_data r + of_nat m)"
        using a k b r(5) by (simp add: rx_ahead_def)
    qed
    then show ?thesis using other[OF k] b g by (simp add: lx_frames_def sl Let_def)
  qed
qed

text \<open>How many slots ahead the chip has filled, up to \<open>n\<close>.\<close>

definition lx_filled :: "nat \<Rightarrow> lx \<Rightarrow> nat" where
  "lx_filled n s = length (takeWhile (\<lambda>k. \<not> has (mds_status (lx_rx s (rx_slot s k))) RMD_OWN) [0..<n])"

lemma rx_loop_delivers:
  "quiet_chip E \<Longrightarrow> rx_room K n s \<Longrightarrow> lx_rx_ok s \<Longrightarrow> n \<le> RX_RING_SIZE \<Longrightarrow>
    \<exists>t. lx_rx_loop E K n s = Some t \<and> l_cur_rx t = l_cur_rx s + of_nat (lx_filled n s) \<and> lx_rx_ok t \<and>
      delivered (trace t) = delivered (trace s) @ concat (map (lx_frames s) [0..<lx_filled n s])"
proof (induction n arbitrary: s)
  case 0
  then show ?case by (simp add: lx_filled_def)
next
  case (Suc n)
  show ?case
  proof (cases "has (mds_status (lx_rx s (rx_slot s 0))) RMD_OWN")
    case True
    then have "lx_filled (Suc n) s = 0" by (simp add: lx_filled_def upt_conv_Cons del: upt_Suc)
    moreover have "lx_rx_loop E K (Suc n) s = Some s" using True by (simp add: rx_slot_0 Let_def)
    ultimately show ?thesis using Suc.prems by simp
  next
    case False
    from rx_round[OF Suc.prems(1-3) False] obtain t u where
      loop: "\<And>m. lx_rx_loop E K (Suc m) s = lx_rx_loop E K m u" and t: "rx_ahead n s t" and u: "u = lx_rx_return (rx_slot s 0) t"
      and ok: "lx_rx_ok u" and d: "delivered (trace t) = delivered (trace s) @ lx_frames s 0" by blast
    have n: "n < RX_RING_SIZE" "n \<le> RX_RING_SIZE" using Suc.prems(4) by simp_all
    note a = rx_ahead_next[OF t Suc.prems(2) n(1), folded u]
    note r = rx_return_ahead[OF t, folded u]
    from Suc.IH[OF Suc.prems(1) a(1) ok n(2)] obtain v where
      v: "lx_rx_loop E K n u = Some v" "l_cur_rx v = l_cur_rx u + of_nat (lx_filled n u)" "lx_rx_ok v"
        "delivered (trace v) = delivered (trace u) @ concat (map (lx_frames u) [0..<lx_filled n u])" by blast
    have same: "takeWhile (\<lambda>k. \<not> has (mds_status (lx_rx s (rx_slot s (Suc k)))) RMD_OWN) [0..<n] =
        takeWhile (\<lambda>k. \<not> has (mds_status (lx_rx u (rx_slot u k))) RMD_OWN) [0..<n]"
      by (rule takeWhile_cong) (use a(3) in auto)
    have f: "lx_filled (Suc n) s = Suc (lx_filled n u)"
      using False same
      by (simp add: lx_filled_def upt_conv_Cons map_Suc_upt[symmetric] takeWhile_map o_def del: upt_Suc)
    have b: "lx_filled n u \<le> n" using length_takeWhile_le[of _ "[0..<n]"] by (simp add: lx_filled_def)
    then have m: "map (lx_frames u) [0..<lx_filled n u] = map (\<lambda>k. lx_frames s (Suc k)) [0..<lx_filled n u]"
      using a(2) by (intro map_cong) auto
    have "concat (map (lx_frames s) [0..<Suc (lx_filled n u)]) = lx_frames s 0 @ concat (map (lx_frames u) [0..<lx_filled n u])"
      unfolding m by (simp add: upt_conv_Cons map_Suc_upt[symmetric] o_def del: upt_Suc)
    with v loop d r(1,3) f show ?thesis by simp
  qed
qed

end
