(* ===== verification/Linux_Queue.thy ===== *)
theory Linux_Queue
  imports Linux_System
begin

text \<open>
  The transmit ring of the Linux driver as a FIFO queue. Beside the contract of \<open>fifo\<close> the consumer
  keeps a log: here, the socket buffers freed. What is taken out is logged, in the order of the queue.
\<close>

locale logged_fifo = fifo +
  fixes log :: "'b \<Rightarrow> 'e list"
    and tag :: "'c \<Rightarrow> 'e"
  assumes put_log: "inv s \<Longrightarrow> ok p \<Longrightarrow> log (snd (put p s)) = log s"
    and reap_log: "inv s \<Longrightarrow> items s \<noteq> [] \<Longrightarrow> reap s = Some t \<Longrightarrow>
      log t @ map tag (items t) = log s @ map tag (items s)"
begin

lemma run_appends:
  assumes "inv s" "\<And>p. Put p \<in> set ops \<Longrightarrow> ok p" "fifo_run put reap items data ops s = Some (acc, t)"
  shows "log t @ map tag (items t) = log s @ map tag (items s @ acc)"
  using assms
proof (induction ops arbitrary: s acc)
  case (Cons op ops)
  show ?case
  proof (cases op)
    case (Put p)
    obtain b u where u: "put p s = (b, u)" by (cases "put p s")
    from Cons.prems(3) Put u obtain acc' where r: "fifo_run put reap items data ops u = Some (acc', t)"
      "acc = (if b then data p # acc' else acc')" by (auto split: bind_splits)
    have i: "inv u" "items u = (if b then items s @ [data p] else items s)" "log u = log s"
      using put_any[OF Cons.prems(1), of p] put_log[OF Cons.prems(1), of p] Cons.prems(2) Put u by simp_all
    have "log t @ map tag (items t) = log u @ map tag (items u @ acc')"
      by (rule Cons.IH[OF i(1) _ r(1)]) (use Cons.prems(2) in simp)
    then show ?thesis by (simp add: i r(2))
  next
    case Reap
    show ?thesis
    proof (cases "items s = []")
      case True
      then show ?thesis using Cons Reap by simp
    next
      case False
      from reap_any[OF Cons.prems(1) False] obtain u where u: "reap s = Some u" "inv u" by blast
      have "log t @ map tag (items t) = log u @ map tag (items u @ acc)"
        by (rule Cons.IH[OF u(2)]) (use Cons.prems Reap False u in simp_all)
      with reap_log[OF Cons.prems(1) False u(1)] show ?thesis by simp
    qed
  qed
qed simp

lemma run_logs:
  assumes "inv s" "\<And>p. Put p \<in> set ops \<Longrightarrow> ok p"
  shows "\<exists>acc t taken. fifo_run put reap items data ops s = Some (acc, t) \<and> inv t \<and>
     items s @ acc = taken @ items t \<and> length (items t) \<le> cap t \<and> log t = log s @ map tag taken"
proof -
  from run_fifo[OF assms] obtain acc t taken where
    r: "fifo_run put reap items data ops s = Some (acc, t)" "inv t" "items s @ acc = taken @ items t"
      "length (items t) \<le> cap t" by blast
  from run_appends[OF assms r(1)] have "log t = log s @ map tag taken" unfolding r(3) by simp
  with r show ?thesis by blast
qed

end

text \<open>The stack hands over a packet unless the queue is stopped; the interrupt takes out what was sent.\<close>

definition lx_enqueue :: "env \<Rightarrow> lk \<Rightarrow> skb \<Rightarrow> lx \<Rightarrow> bool \<times> lx" where
  "lx_enqueue E K b s = (if l_queue_stopped s then (False, s) else (True, snd (pcnet32_start_xmit E K b s)))"

definition lx_reclaim :: "env \<Rightarrow> lx \<Rightarrow> lx option" where
  "lx_reclaim E s = Some (snd (lx_tx_done E s))"

definition lx_queue_inv :: "env \<Rightarrow> lx \<Rightarrow> bool" where
  "lx_queue_inv E s \<longleftrightarrow> keeps_buffers E \<and> lx_tx_ok s"

lemma length_lx_queue: "length (lx_queue s) = lx_pending s"
  by (simp add: lx_queue_def lx_queue_from_def lx_pending_def)

lemma xmit_freed: "freed (trace (snd (pcnet32_start_xmit E K b s))) = freed (trace s)"
  using xmit_accounts[of K E b s] by (simp add: accounts_def)

lemma xmit_dirty: "l_dirty_tx (snd (pcnet32_start_xmit E K b s)) = l_dirty_tx s"
  by (simp add: pcnet32_start_xmit_def Let_def netif_stop_queue_def drv_ops split: pcnet32_access.split)

interpretation lxq: logged_fifo "lx_enqueue E K" "lx_reclaim E" lx_queue id "lx_queue_inv E" "\<lambda>s. TX_RING_SIZE"
  "lx_sendable K" "\<lambda>s. freed (trace s)" sk_ref for E K
proof
  fix E :: env and K :: lk and s :: lx
  assume inv: "lx_queue_inv E s"
  then have E: "keeps_buffers E" and ok: "lx_tx_ok s" by (simp_all add: lx_queue_inv_def)
  show "lx_queue_inv E (snd (lx_enqueue E K p s)) \<and>
      lx_queue (snd (lx_enqueue E K p s)) = (if fst (lx_enqueue E K p s) then lx_queue s @ [id p] else lx_queue s)"
    if "lx_sendable K p" for p
    using start_xmit_ok(1,2)[OF E ok _ that] inv E by (simp add: lx_enqueue_def lx_queue_inv_def)
  note d = tx_done_ok[OF E ok]
  show "\<exists>t k. lx_reclaim E s = Some t \<and> lx_queue_inv E t \<and> k \<le> length (lx_queue s) \<and> lx_queue t = drop k (lx_queue s)"
    using d(1,2) E by (auto simp: lx_reclaim_def lx_queue_inv_def length_lx_queue)
  show "length (lx_queue s) \<le> TX_RING_SIZE"
    using lx_ring_bound[of "l_dirty_tx s" s] ok by (simp add: length_lx_queue lx_pending_def lx_tx_ok_def)
  show "freed (trace (snd (lx_enqueue E K p s))) = freed (trace s)" for p
    by (simp add: lx_enqueue_def xmit_freed)
  show "freed (trace t) @ map sk_ref (lx_queue t) = freed (trace s) @ map sk_ref (lx_queue s)" if "lx_reclaim E s = Some t" for t
  proof -
    from d(1) that obtain k where k: "lx_queue t = drop k (lx_queue s)" "freed (trace t) = freed (trace s) @ map sk_ref (take k (lx_queue s))"
      by (auto simp: lx_reclaim_def)
    show ?thesis unfolding k append_assoc map_append[symmetric] append_take_drop_id ..
  qed
qed

end
