(* ===== verification/Linux_Services.thy ===== *)
theory Linux_Services
  imports Linux_Queue
begin

text \<open>
  The Linux driver's services: register access through the table of access functions, as a file of
  registers; saving and restoring the LED registers; the register dump; and the multicast filter.
\<close>

unbundle bit_operations_syntax

subsection \<open>The access functions as a register file\<close>

text \<open>The ports of a chip whose registers begin at \<open>b\<close>.\<close>

definition rebase :: "u16 \<Rightarrow> ev \<Rightarrow> ev" where
  "rebase b e = (case e of In16 p \<Rightarrow> In16 (p - b) | In32 p \<Rightarrow> In32 (p - b)
     | Out16 p v \<Rightarrow> Out16 (p - b) v | Out32 p v \<Rightarrow> Out32 (p - b) v | _ \<Rightarrow> Sleep 0)"

definition at_base :: "u16 \<Rightarrow> history \<Rightarrow> history" where
  "at_base b h = map (rebase b) h"

lemma at_base_simps [simp]: "at_base b [] = []" "at_base b (e # h) = rebase b e # at_base b h"
  by (simp_all add: at_base_def)

lemma rebase_simps [simp]:
  "rebase b (In16 p) = In16 (p - b)" "rebase b (In32 p) = In32 (p - b)" "rebase b (Out16 p v) = Out16 (p - b) v"
  "rebase b (Out32 p w) = Out32 (p - b) w" "rebase b (Kernel f) = Sleep 0" "rebase b (Call f as) = Sleep 0"
  by (simp_all add: rebase_def)

definition bcr_at :: "u16 \<Rightarrow> history \<Rightarrow> u16 \<Rightarrow> u16 option" where
  "bcr_at b h = bcr_last (at_base b h)"

text \<open>The chip at \<open>b\<close> keeps the bus configuration registers \<open>R\<close> as they were last written.\<close>

definition stores_bcrs :: "u16 \<Rightarrow> u16 set \<Rightarrow> env \<Rightarrow> bool" where
  "stores_bcrs b R E \<longleftrightarrow> (\<forall>h v. sel_reg (at_base b h) \<in> R \<longrightarrow> bcr_at b h (sel_reg (at_base b h)) = Some v \<longrightarrow>
     in16 E h (b + PCNET32_WIO_BDP) = v \<and> ucast (in32 E h (b + PCNET32_DWIO_BDP)) = v)"

definition table_read_bcr :: "pcnet32_access \<Rightarrow> u16 \<Rightarrow> env \<Rightarrow> u16 \<Rightarrow> lx \<Rightarrow> u16 \<times> lx" where
  "table_read_bcr a b E i s = (case a of pcnet32_wio \<Rightarrow> lx_wio_read_bcr E b i s | pcnet32_dwio \<Rightarrow> lx_dwio_read_bcr E b i s)"

definition table_write_bcr :: "pcnet32_access \<Rightarrow> u16 \<Rightarrow> env \<Rightarrow> u16 \<Rightarrow> u16 \<Rightarrow> lx \<Rightarrow> lx" where
  "table_write_bcr a b E i v s = (case a of pcnet32_wio \<Rightarrow> lx_wio_write_bcr E b i v s | pcnet32_dwio \<Rightarrow> lx_dwio_write_bcr E b i v s)"

lemma lx_bcr_table: "lx_read_bcr E i s = table_read_bcr (l_a s) (l_base s) E i s"
  "lx_write_bcr E i v s = table_write_bcr (l_a s) (l_base s) E i v s"
  by (simp_all add: lx_read_bcr_def lx_write_bcr_def table_read_bcr_def table_write_bcr_def)

interpretation table: reg_access "table_read_bcr a b" "table_write_bcr a b" "\<lambda>s. bcr_at b (trace s)" "stores_bcrs b R" "\<lambda>i. i \<in> R"
  for a b R
proof
  fix E p v q and s :: lx
  show "bcr_at b (trace (table_write_bcr a b E p v s)) q = (if q = p then Some v else bcr_at b (trace s) q)"
    by (cases a) (simp_all add: table_write_bcr_def bcr_at_def drv_ops hw_consts)
  show "bcr_at b (trace (snd (table_read_bcr a b E p s))) q = bcr_at b (trace s) q"
    by (cases a) (simp_all add: table_read_bcr_def bcr_at_def drv_ops hw_consts)
  assume r: "stores_bcrs b R E" and p: "p \<in> R" and l: "bcr_at b (trace s) p = Some v"
  let ?w = "Out16 (b + PCNET32_WIO_RAP) p # trace s" and ?d = "Out32 (b + PCNET32_DWIO_RAP) (ucast p) # trace s"
  have "sel_reg (at_base b ?w) = p" "sel_reg (at_base b ?d) = p" "bcr_at b ?w p = Some v" "bcr_at b ?d p = Some v"
    using l by (simp_all add: bcr_at_def hw_consts)
  then have "in16 E ?w (b + PCNET32_WIO_BDP) = v" "ucast (in32 E ?d (b + PCNET32_DWIO_BDP)) = v"
    using r p unfolding stores_bcrs_def by metis+
  moreover have "v AND 0xffff = v"
  proof -
    have "(0xffff :: u16) = - 1" by simp
    then show ?thesis by (simp only: and.right_neutral)
  qed
  ultimately show "fst (table_read_bcr a b E p s) = v"
    by (cases a) (simp_all add: table_read_bcr_def lx_wio_read_bcr_def lx_dwio_read_bcr_def csrWrite16_def
        csrWrite32_def csrRead16_def csrRead32_def)
qed

subsection \<open>The LED registers\<close>

text \<open>Same access functions, same ports.\<close>

definition same_chip :: "lx \<Rightarrow> lx \<Rightarrow> bool" where
  "same_chip s t \<longleftrightarrow> l_a t = l_a s \<and> l_base t = l_base s"

lemma same_chip_io:
  assumes "io_only E s t"
  shows "same_chip s t"
proof -
  have "evolves E s t" using assms by (simp add: io_only_def)
  from same_vars_lx[OF evolves_same_vars[OF this]] show ?thesis by (simp add: same_chip_def)
qed

lemma lx_bcr_laws:
  "bcr_at (l_base s) (trace (lx_write_bcr E p v s)) q = (if q = p then Some v else bcr_at (l_base s) (trace s) q)"
  "bcr_at (l_base s) (trace (snd (lx_read_bcr E p s))) q = bcr_at (l_base s) (trace s) q"
  "stores_bcrs (l_base s) R E \<Longrightarrow> p \<in> R \<Longrightarrow> bcr_at (l_base s) (trace s) p = Some v \<Longrightarrow> fst (lx_read_bcr E p s) = v"
  using table.wr_last[of "l_base s" "l_a s" E p v s q] table.rd_keeps[of "l_base s" "l_a s" E p s q]
    table.rd_last[of "l_base s" R E p s v "l_a s"]
  by (simp_all only: lx_bcr_table)

lemma read_bcrs_values:
  "stores_bcrs (l_base s) R E \<Longrightarrow> i \<in> set is \<Longrightarrow> of_nat i \<in> R \<Longrightarrow> bcr_at (l_base s) (trace s) (of_nat i) = Some v \<Longrightarrow> distinct is \<Longrightarrow>
    (i, v) \<in> set (zip is (fst (lx_read_bcrs E is s)))"
proof (induction "is" arbitrary: s)
  case (Cons j "is")
  have b: "l_base (snd (lx_read_bcr E (of_nat j) s)) = l_base s"
    using same_chip_io[OF io_only_lx(3)[of E s "of_nat j"]] by (simp add: same_chip_def)
  show ?case
  proof (cases "i = j")
    case True
    then show ?thesis using lx_bcr_laws(3)[OF Cons.prems(1,3,4)] by (simp add: Let_def split_def)
  next
    case False
    with Cons.prems have "(i, v) \<in> set (zip is (fst (lx_read_bcrs E is (snd (lx_read_bcr E (of_nat j) s)))))"
      by (intro Cons.IH) (simp_all add: b lx_bcr_laws(2))
    then show ?thesis by (simp add: Let_def split_def)
  qed
qed simp

lemma length_read_bcrs [simp]: "length (fst (lx_read_bcrs E is s)) = length is"
  by (induction "is" arbitrary: s) (simp_all add: Let_def split_def)

lemma write_bcrs_last:
  "length vs = length is \<Longrightarrow> distinct (map (of_nat :: nat \<Rightarrow> u16) is) \<Longrightarrow> (i, v) \<in> set (zip is vs) \<Longrightarrow>
     bcr_at (l_base s) (trace (lx_write_bcrs E is vs s)) (of_nat i) = Some v"
proof (induction E "is" vs s rule: lx_write_bcrs.induct)
  case (1 E j "is" w vs s)
  let ?u = "lx_write_bcr E (of_nat j) w s"
  have b: "l_base ?u = l_base s" using same_chip_io[OF io_only_lx(4)[of E s "of_nat j" w]] by (simp add: same_chip_def)
  have keep: "bcr_at (l_base u) (trace (lx_write_bcrs E js ws u)) q = bcr_at (l_base u) (trace u) q"
    if "q \<notin> of_nat ` set js" for js ws u q
    using that
  proof (induction E js ws u rule: lx_write_bcrs.induct)
    case (1 E k js x ws u)
    have "l_base (lx_write_bcr E (of_nat k) x u) = l_base u"
      using same_chip_io[OF io_only_lx(4)[of E u "of_nat k" x]] by (simp add: same_chip_def)
    with 1 lx_bcr_laws(1)[of u E "of_nat k" x q] show ?case by simp
  qed simp_all
  show ?case
  proof (cases "(i, v) \<in> set (zip is vs)")
    case True
    with 1 show ?thesis by (simp add: b)
  next
    case False
    with 1(4) have "i = j" "v = w" by simp_all
    with keep[where q = "of_nat j" and js = "is" and ws = vs and u = ?u] "1.prems"(2) show ?thesis by (simp add: b lx_bcr_laws(1))
  qed
qed simp_all

text \<open>Whatever happens while the LEDs blink, the registers hold afterwards what they held before.\<close>

lemma phys_id_restores:
  assumes R: "stores_bcrs (l_base s) {4, 5, 6, 7} E" and i: "i \<in> {4, 5, 6, 7}"
    and v: "bcr_at (l_base s) (trace s) i = Some v" and m: "\<And>u. same_chip u (m u)"
  shows "fst (lx_read_bcr E i (pcnet32_phys_id E K m data s)) = v"
proof -
  define u where "u = (if \<not> l_blink s then s\<lparr>l_blink := True\<rparr> else s)"
  obtain regs w where p: "phys_id_begin E K data s = (regs, w)" by fastforce
  have regs: "regs = fst (lx_read_bcrs E [4..<8] u)" and w: "same_chip (snd (lx_read_bcrs E [4..<8] u)) w"
    using p by (auto simp: phys_id_begin_def u_def[symmetric] Let_def split_def same_chip_def)
  have u: "l_base u = l_base s" "trace u = trace s" by (simp_all add: u_def)
  from i have "i \<in> of_nat ` set [4..<8]" by (simp add: upt_rec)
  then obtain k where k: "i = of_nat k" "k \<in> set [4..<8]" by (rule imageE)
  have "(k, v) \<in> set (zip [4..<8] regs)"
    unfolding regs by (rule read_bcrs_values[of u "{4, 5, 6, 7}"]) (use R k i v u in auto)
  moreover have "distinct (map (of_nat :: nat \<Rightarrow> u16) [4..<8])" by (simp add: upt_rec)
  moreover define x where "x = emit E (Kernel ''del_timer_sync(blink)'') (m w)"
  ultimately have last: "bcr_at (l_base x) (trace (lx_write_bcrs E [4..<8] regs x)) i = Some v"
    unfolding k(1) by (intro write_bcrs_last) (simp_all only: regs length_read_bcrs)
  have "same_chip s (m w)"
    using m[of w] w same_chip_io[OF io_only_reads(1)[of E u "[4..<8]"]] by (simp add: same_chip_def u_def)
  then have x: "l_base x = l_base s" by (simp add: x_def same_chip_def)
  let ?t = "lx_write_bcrs E [4..<8] regs x"
  have t: "pcnet32_phys_id E K m data s = ?t" by (simp add: pcnet32_phys_id_def p phys_id_end_def x_def)
  have "l_base ?t = l_base x" using same_chip_io[OF io_only_write_bcrs] by (simp add: same_chip_def)
  with lx_bcr_laws(3)[of ?t "{4, 5, 6, 7}" E i v] R i last x show ?thesis by (simp add: t)
qed

subsection \<open>The register dump\<close>

lemma length_reads [simp]:
  "length (fst (lx_read_prom E is s)) = length is" "length (fst (lx_read_csrs E is s)) = length is"
  "length (fst (lx_read_phy E is s)) = length is"
  by (induction "is" arbitrary: s) (simp_all add: Let_def split_def)

lemma get_regs_length: "length (fst (pcnet32_get_regs E s)) = PCNET32_NUM_REGS"
  by (simp add: pcnet32_get_regs_def Let_def split_def PCNET32_NUM_REGS_def)

text \<open>The size announced to the caller is that of the dump, two bytes a register; the names of the
  self tests fill as many fields as there are tests.\<close>

lemma regs_len_exact: "2 * length (fst (pcnet32_get_regs E s)) = pcnet32_get_regs_len"
  by (simp add: get_regs_length pcnet32_get_regs_len_def)

lemma self_test_names: "24 \<le> width \<Longrightarrow> length (pcnet32_get_strings width) = width * pcnet32_self_test_count"
  by (simp add: pcnet32_get_strings_def pcnet32_self_test_count_def pcnet32_gstrings_test_def)


subsection \<open>The multicast filter\<close>

definition lx_filter_hash :: "lk \<Rightarrow> u8 list \<Rightarrow> nat" where
  "lx_filter_hash K a = unat (drop_bit 26 (lk_crc K (take 6 a)))"

definition lx_filter_bit :: "u32 list \<Rightarrow> nat \<Rightarrow> bool" where
  "lx_filter_bit f j \<longleftrightarrow> bit (f ! (j div 32)) (j mod 32)"

lemma lx_filter_hash_bound: "lx_filter_hash K a < 64"
proof -
  have "unat (lk_crc K (take 6 a)) < 64 * 2 ^ 26" using unsigned_less[of "lk_crc K (take 6 a)"] by simp
  then show ?thesis unfolding lx_filter_hash_def unat_drop_bit_eq by (simp add: drop_bit_eq_div less_mult_imp_div_less)
qed

text \<open>The sixteen-bit table over the two words: table entry \<open>h div 16\<close>, bit \<open>h mod 16\<close>.\<close>

lemma lx_mcast_set_split:
  "lx_mcast_set K a f = f[lx_filter_hash K a div 32 := f ! (lx_filter_hash K a div 32) OR push_bit (lx_filter_hash K a mod 32) 1]"
proof -
  let ?c = "drop_bit 26 (lk_crc K (take 6 a))" and ?h = "lx_filter_hash K a"
  have k: "unat (drop_bit 4 ?c) = ?h div 16" unfolding lx_filter_hash_def unat_drop_bit_eq[of 4] by (simp add: drop_bit_eq_div)
  have "?c AND 0xf = take_bit 4 ?c" by (simp add: take_bit_eq_mask mask_eq_exp_minus_1)
  then have b: "unat (?c AND 0xf) = ?h mod 16"
    unfolding lx_filter_hash_def by (simp only: unsigned_take_bit_eq) (simp add: take_bit_eq_mod)
  have d: "?h div 16 div 2 = ?h div 32" "16 * (?h div 16 mod 2) + ?h mod 16 = ?h mod 32"
    by (simp_all add: div_mult2_eq[symmetric] mod_mult2_eq[of ?h 16 2, symmetric])
  show ?thesis unfolding lx_mcast_set_def Let_def k b d ..
qed

interpretation mcast: hash_filter "lx_mcast_set K" lx_filter_bit "lx_filter_hash K" "[0, 0]" "\<lambda>f. length f = 2" 64 for K
proof
  fix f :: "u32 list" and a j
  show "length (lx_mcast_set K a f) = 2" if "length f = 2" using that by (simp add: lx_mcast_set_split)
  show "\<not> lx_filter_bit [0, 0] j" if "j < 64"
    using that by (cases "j div 32") (auto simp: lx_filter_bit_def nth_Cons split: nat.split)
  assume f: "length f = 2" and j: "j < 64"
  then have "j div 32 < length f" by (simp add: less_mult_imp_div_less)
  moreover have "lx_filter_hash K a = j \<longleftrightarrow> lx_filter_hash K a div 32 = j div 32 \<and> lx_filter_hash K a mod 32 = j mod 32"
    by (metis div_mult_mod_eq)
  moreover have "lx_filter_hash K a mod 32 < 32" "j mod 32 < 32" by simp_all
  ultimately show "lx_filter_bit (lx_mcast_set K a f) j \<longleftrightarrow> lx_filter_hash K a = j \<or> lx_filter_bit f j"
    by (cases "lx_filter_hash K a div 32 = j div 32"; cases "lx_filter_hash K a mod 32 = j mod 32")
      (simp_all add: lx_filter_bit_def lx_mcast_set_split bit_simps)
qed simp

lemma fold_if_filter: "fold (\<lambda>x f. if P x then g x f else f) xs f = fold g (filter P xs) f"
  by (induction xs arbitrary: f) simp_all

lemma load_multicast_bits:
  assumes "j < 64"
  shows "lx_filter_bit (sn_filter (l_block (pcnet32_load_multicast K s))) j \<longleftrightarrow>
    has (l_flags s) (lk_IFF_ALLMULTI K) \<or> (\<exists>a\<in>set (l_mc_list s). has (a ! 0) 1 \<and> lx_filter_hash K a = j)"
proof (cases "has (l_flags s) (lk_IFF_ALLMULTI K)")
  case True
  have "j div 32 = 0 \<or> j div 32 = 1" using assms by linarith
  then have "bit ([0xffffffff, 0xffffffff] ! (j div 32) :: u32) (j mod 32)"
    using mask_eq_exp_minus_1[of 32, where 'a = u32] bit_mask_iff[of 32 "j mod 32", where 'a = u32] by (auto simp: bit_simps)
  with True show ?thesis by (simp add: pcnet32_load_multicast_def lx_filter_bit_def)
next
  case False
  then show ?thesis
    using mcast.build(2)[OF assms, of K "filter (\<lambda>a. has (a ! 0) 1) (l_mc_list s)"]
    by (auto simp: pcnet32_load_multicast_def Let_def fold_if_filter)
qed

end
