(* ===== verification/Linux_Probe_Facts.thy ===== *)
theory Linux_Probe_Facts
  imports Linux_System
begin

text \<open>
  What a PCI probe of the Linux driver asks of the kernel: in each outcome the calls made, in their order. A
  probe that fails after it got the I/O region gives back all it acquired, in the reverse order.
\<close>

unbundle bit_operations_syntax

text \<open>The kernel calls of a history, oldest first.\<close>

definition lx_kcall :: "ev \<Rightarrow> string list" where
  "lx_kcall e = (case e of Kernel f \<Rightarrow> [f] | _ \<Rightarrow> [])"

definition lx_kcalls :: "lx \<Rightarrow> string list" where
  "lx_kcalls s = concat (map lx_kcall (rev (trace s)))"

lemma kcalls_trace: "trace t = trace s \<Longrightarrow> lx_kcalls t = lx_kcalls s"
  by (simp add: lx_kcalls_def)

lemma kcalls_emit [simp]: "lx_kcalls (emit E e s) = lx_kcalls s @ lx_kcall e"
  by (simp add: lx_kcalls_def)

lemma lx_kcall_simps [simp]:
  "lx_kcall (Kernel f) = [f]" "lx_kcall (In8 p) = []" "lx_kcall (In16 p) = []" "lx_kcall (In32 p) = []" "lx_kcall (Out8 p a) = []"
  "lx_kcall (Out16 p b) = []" "lx_kcall (Out32 p c) = []" "lx_kcall (Call g as) = []" "lx_kcall (Sleep n) = []"
  by (simp_all add: lx_kcall_def)

lemma kcalls_port [simp]:
  "lx_kcalls (snd (csrRead8 E p s)) = lx_kcalls s" "lx_kcalls (snd (csrRead16 E p s)) = lx_kcalls s" "lx_kcalls (snd (csrRead32 E p s)) = lx_kcalls s"
  "lx_kcalls (csrWrite16 E p v s) = lx_kcalls s" "lx_kcalls (csrWrite32 E p w s) = lx_kcalls s"
  by (simp_all add: drv_ops)

lemma kcalls_table [simp]:
  "lx_kcalls (lx_wio_reset E b s) = lx_kcalls s" "lx_kcalls (lx_dwio_reset E b s) = lx_kcalls s"
  "lx_kcalls (snd (lx_wio_read_csr E b i s)) = lx_kcalls s" "lx_kcalls (snd (lx_dwio_read_csr E b i s)) = lx_kcalls s"
  "lx_kcalls (snd (lx_wio_check E b s)) = lx_kcalls s" "lx_kcalls (snd (lx_dwio_check E b s)) = lx_kcalls s"
  by (simp_all add: drv_ops)

lemma kcalls_lx [simp]:
  "lx_kcalls (snd (lx_read_csr E i s)) = lx_kcalls s" "lx_kcalls (lx_write_csr E i v s) = lx_kcalls s"
  "lx_kcalls (snd (lx_read_bcr E i s)) = lx_kcalls s" "lx_kcalls (lx_write_bcr E i v s) = lx_kcalls s" "lx_kcalls (lx_reset E s) = lx_kcalls s"
  by (simp_all add: drv_ops split: pcnet32_access.split)

lemma kcalls_vars [simp]:
  "lx_kcalls (s\<lparr>l_base := a\<rparr>) = lx_kcalls s" "lx_kcalls (s\<lparr>l_a := b\<rparr>) = lx_kcalls s" "lx_kcalls (s\<lparr>l_dev_addr := c\<rparr>) = lx_kcalls s"
  "lx_kcalls (s\<lparr>l_irq := d\<rparr>) = lx_kcalls s" "lx_kcalls (s\<lparr>l_phy_id := e\<rparr>) = lx_kcalls s" "lx_kcalls (s\<lparr>l_cards_found := f\<rparr>) = lx_kcalls s"
  by (simp_all add: lx_kcalls_def)

lemma kcalls_find_access [simp]: "lx_kcalls (snd (lx_find_access E b s)) = lx_kcalls s"
  by (simp add: lx_find_access_def Let_def split_def)

lemma kcalls_reads [simp]:
  "lx_kcalls (snd (lx_csr_addr E is s)) = lx_kcalls s" "lx_kcalls (snd (lx_prom_addr E b is s)) = lx_kcalls s"
  by (induction "is" arbitrary: s) (simp_all add: Let_def split_def)

lemma kcalls_chip [simp]:
  "lx_kcalls (snd (lx_chip_id E s)) = lx_kcalls s" "lx_kcalls (lx_set_home E K s) = lx_kcalls s" "lx_kcalls (lx_set_fifo E s) = lx_kcalls s"
  "lx_kcalls (lx_probe_msg E K v s) = lx_kcalls s" "lx_kcalls (lx_load_block_address E s) = lx_kcalls s"
  by (simp_all add: lx_chip_id_def lx_set_home_def lx_set_fifo_def lx_probe_msg_def lx_load_block_address_def Let_def split_def)

lemma trace_zero_mds: "trace (fold zero_lx_md is s) = trace s"
  by (induction "is" arbitrary: s) (simp_all add: zero_lx_md_def)

lemma kcalls_new_device [simp]: "lx_kcalls (lx_new_device K a chip sh p s) = lx_kcalls s"
  by (rule kcalls_trace) (simp add: lx_new_device_def Let_def trace_zero_mds)

text \<open>The set-up of a PCI device fails only when it cannot be registered.\<close>

lemma setup_calls:
  assumes "lx_setup E K a chip sh True s = (r, t)"
  shows "lx_kcalls t = lx_kcalls s @ (if r = None then [''register_netdev'', ''pci_set_drvdata'']
     else [''register_netdev'', ''pci_free_consistent'', ''free_netdev'', ''release_region''])"
proof -
  define u where "u = lx_load_block_address E (lx_write_bcr E 20 2 (lx_new_device K a chip sh True s))"
  define v where "v = u\<lparr>l_irq := lk_pci_irq K\<rparr>"
  define w where "w = (if l_mii v then (snd (lx_read_bcr E 33 v))\<lparr>l_phy_id := ucast (drop_bit 5 (fst (lx_read_bcr E 33 v)) AND 0x1f)\<rparr> else v)"
  have "lx_kcalls w = lx_kcalls s" by (simp add: w_def v_def u_def)
  moreover have "(r, t) = (let x = emit E (Kernel ''register_netdev'') w in
      if \<not> lk_register K (trace w) then (Some E_NODEV, err_free_consistent E x)
      else let y = emit E (Kernel ''pci_set_drvdata'') x in (None, lx_write_bcr E 2 0x1002 (y\<lparr>l_cards_found := l_cards_found y + 1\<rparr>)))"
    using assms unfolding lx_setup_def Let_def lx_find_irq_def if_True prod.case not_True_eq_False if_False
      u_def[symmetric] v_def[symmetric] split_def fst_conv snd_conv w_def[symmetric] by (rule sym)
  ultimately show ?thesis
    by (auto simp: Let_def err_free_consistent_def err_free_netdev_def err_release_region_def split: if_splits)
qed

text \<open>The calls of the probe proper: one of five outcomes.\<close>

definition probe_success :: "string list" where
  "probe_success = [''alloc_etherdev'', ''pci_alloc_consistent'', ''register_netdev'', ''pci_set_drvdata'']"

definition probe_failures :: "string list set" where
  "probe_failures = {[''release_region''], [''alloc_etherdev'', ''release_region''],
     [''alloc_etherdev'', ''pci_alloc_consistent'', ''free_netdev'', ''release_region''],
     [''alloc_etherdev'', ''pci_alloc_consistent'', ''register_netdev'', ''pci_free_consistent'', ''free_netdev'', ''release_region'']}"

text \<open>After the chip is known: the memory for the device structure.\<close>

definition probe_device :: "env \<Rightarrow> lk \<Rightarrow> u16 \<Rightarrow> lx_chip \<Rightarrow> u32 \<Rightarrow> bool \<Rightarrow> bool \<Rightarrow> lx \<Rightarrow> lx_err option \<times> lx" where
  "probe_device E K ioaddr chip version shared pdev s =
     (let (csr, s) = lx_csr_addr E [0..<3] s;
          (prom, s) = lx_prom_addr E ioaddr [0..<6] s;
          s = s\<lparr>l_dev_addr := lx_station_address K csr prom\<rparr>;
          s = lx_probe_msg E K version s;
          m = lk_consistent K (trace s);
          s = emit E (Kernel ''pci_alloc_consistent'') s
      in (case m of None \<Rightarrow> (Some E_NOMEM, err_free_netdev E s)
          | Some a \<Rightarrow> lx_setup E K a chip shared pdev s))"

lemma probe_device_calls:
  assumes "probe_device E K b chip v sh True s = (r, t)"
  shows "lx_kcalls t = lx_kcalls s @ (if r = None then tl probe_success
     else if r = Some E_NOMEM then [''pci_alloc_consistent'', ''free_netdev'', ''release_region'']
     else [''pci_alloc_consistent'', ''register_netdev'', ''pci_free_consistent'', ''free_netdev'', ''release_region''])"
proof -
  define u where "u = snd (lx_csr_addr E [0..<3] s)"
  define w where "w = snd (lx_prom_addr E b [0..<6] u)"
  define x where "x = lx_probe_msg E K v (w\<lparr>l_dev_addr := lx_station_address K (fst (lx_csr_addr E [0..<3] s)) (fst (lx_prom_addr E b [0..<6] u))\<rparr>)"
  have x: "lx_kcalls x = lx_kcalls s" by (simp add: x_def w_def u_def)
  have e: "(r, t) = (case lk_consistent K (trace x) of
      None \<Rightarrow> (Some E_NOMEM, err_free_netdev E (emit E (Kernel ''pci_alloc_consistent'') x))
      | Some a \<Rightarrow> lx_setup E K a chip sh True (emit E (Kernel ''pci_alloc_consistent'') x))"
    using assms unfolding probe_device_def Let_def split_def u_def[symmetric] w_def[symmetric] x_def[symmetric] by (rule sym)
  show ?thesis
  proof (cases "lk_consistent K (trace x)")
    case None
    with e x show ?thesis by (simp add: err_free_netdev_def err_release_region_def)
  next
    case (Some a)
    with e have s: "lx_setup E K a chip sh True (emit E (Kernel ''pci_alloc_consistent'') x) = (r, t)" by simp
    then have "r = None \<or> r = Some E_NODEV" by (auto simp: lx_setup_def Let_def split_def split: if_splits)
    with setup_calls[OF s] x show ?thesis by (auto simp: probe_success_def)
  qed
qed

lemma probe1_calls:
  assumes "pcnet32_probe1 E K b sh True s = (r, t)"
  shows "\<exists>mid. lx_kcalls t = lx_kcalls s @ mid \<and> (if r = None then mid = probe_success else mid \<in> probe_failures)"
proof -
  define u where "u = snd (lx_find_access E b (s\<lparr>l_base := b\<rparr>))"
  define w where "w = snd (lx_chip_id E u)"
  have w: "lx_kcalls u = lx_kcalls s" "lx_kcalls w = lx_kcalls s" by (simp_all add: w_def u_def)
  let ?found = "fst (lx_find_access E b (s\<lparr>l_base := b\<rparr>))" and ?id = "fst (lx_chip_id E u)"
  define ver where "ver = drop_bit 12 ?id AND 0xffff"
  define x where "x = (\<lambda>chip :: lx_chip. (let s = (if ver = 0x2626 then lx_set_home E K w else w) in if ch_fset chip then lx_set_fifo E s else s))"
  have x: "lx_kcalls (x chip) = lx_kcalls s" for chip using w by (simp add: x_def Let_def)
  have e: "(r, t) = (if \<not> ?found then (Some E_NODEV, err_release_region E u)
      else if ?id AND 0xfff \<noteq> 0x003 then (Some E_NODEV, err_release_region E w)
      else case lx_chip_of ver sh of None \<Rightarrow> (Some E_NODEV, err_release_region E w)
      | Some chip \<Rightarrow> if \<not> lk_alloc_dev K (trace (x chip)) then (Some E_NOMEM, err_release_region E (emit E (Kernel ''alloc_etherdev'') (x chip)))
          else probe_device E K b chip ver sh True (emit E (Kernel ''alloc_etherdev'') (x chip)))"
    using assms unfolding pcnet32_probe1_def probe_device_def Let_def split_def u_def[symmetric] w_def[symmetric] ver_def[symmetric] x_def
    by (rule sym)
  have early: "lx_kcalls (err_release_region E y) = lx_kcalls y @ [''release_region'']" for y by (simp add: err_release_region_def)
  show ?thesis
  proof (cases "\<not> ?found \<or> ?id AND 0xfff \<noteq> 0x003 \<or> lx_chip_of ver sh = None")
    case True
    then show ?thesis using e w early by (auto simp: probe_failures_def split: if_splits)
  next
    case False
    then obtain chip where chip: "lx_chip_of ver sh = Some chip" by auto
    show ?thesis
    proof (cases "lk_alloc_dev K (trace (x chip))")
      case no: False
      then show ?thesis using e x early False chip by (auto simp: probe_failures_def)
    next
      case True
      with e False chip have "probe_device E K b chip ver sh True (emit E (Kernel ''alloc_etherdev'') (x chip)) = (r, t)" by simp
      from probe_device_calls[OF this] x show ?thesis by (auto simp: probe_failures_def probe_success_def)
    qed
  qed
qed

text \<open>The whole probe of a PCI device, once the device has an address, DMA and its I/O region.\<close>

definition probe_granted :: "lk \<Rightarrow> lx \<Rightarrow> bool" where
  "probe_granted K s \<longleftrightarrow> 0 \<le> lk_pci_enable K (trace s) \<and> lk_pci_resource K \<noteq> 0 \<and> lk_pci_dma K \<and>
     lk_region K (Kernel ''pci_set_master'' # Kernel ''pci_enable_device'' # trace s)"

lemma probe_pci_calls:
  assumes "probe_granted K s" "pcnet32_probe_pci E K s = (r, t)"
  shows "\<exists>mid. lx_kcalls t = lx_kcalls s @ [''pci_enable_device'', ''pci_set_master'', ''request_region''] @ mid \<and>
     (if r = None then mid = probe_success else \<exists>f\<in>probe_failures. mid = f @ [''pci_disable_device''])"
proof -
  let ?s = "emit E (Kernel ''request_region'') (emit E (Kernel ''pci_set_master'') (emit E (Kernel ''pci_enable_device'') s))"
  obtain r' u where p: "pcnet32_probe1 E K (lk_pci_resource K) True True ?s = (r', u)" by fastforce
  have "r = r'" "t = (if r \<noteq> None then emit E (Kernel ''pci_disable_device'') u else u)"
    using assms p by (auto simp: pcnet32_probe_pci_def probe_granted_def Let_def)
  with probe1_calls[OF p] show ?thesis by (auto split: if_splits)
qed

text \<open>Removal gives back, in the reverse order, all a successful probe acquired.\<close>

lemma remove_calls:
  "lx_kcalls (pcnet32_remove_one E dev s) = lx_kcalls s @ (if dev then [''unregister_netdev'', ''release_region'',
     ''pci_free_consistent'', ''free_netdev'', ''pci_disable_device'', ''pci_set_drvdata''] else [])"
  by (simp add: pcnet32_remove_one_def Let_def)

end
