(* ===== verification/Linux_Fixtures.thy ===== *)
theory Linux_Fixtures
  imports Linux_Deliver Linux_Services Linux_Probe_Facts Fixtures
begin

text \<open>
  A concrete Linux kernel with memory to give, a device that is closed, one with a packet received and one
  with a packet sent: instances for the hypotheses of the properties.
\<close>

unbundle bit_operations_syntax

definition lx_kernel :: lk where
  "lx_kernel = \<lparr>lk_skb = \<lambda>h. Some \<lparr>sk_ref = 0x20000 + of_nat (length h), sk_data = 0x20000, sk_len = 0\<rparr>,
     lk_map = id, lk_crc = ether_crc32_le, lk_valid_addr = \<lambda>a. length a = 6, lk_mii = \<lambda>f s. (0, s), lk_irq_free = \<lambda>_. True,
     lk_IFF_PROMISC = 0x100, lk_IFF_ALLMULTI = 0x200, lk_NETIF_MSG = \<lambda>_. 0, lk_debug = 0, lk_max_work = 2, lk_rx_copybreak = 200,
     lk_max_seconds = 1000, lk_alloc_dev = \<lambda>_. True, lk_consistent = \<lambda>_. Some 0x1000, lk_register = \<lambda>_. True,
     lk_region = \<lambda>_. True, lk_probed_irq = \<lambda>_. 5, lk_pci_irq = 11, lk_pci_enable = \<lambda>_. 0, lk_pci_resource = 0x1000,
     lk_pci_dma = True, lk_options = replicate 8 0, lk_full_duplex = replicate 8 0, lk_homepna = replicate 8 0,
     lk_past_options = 0\<rparr>"

definition lx_blank :: lx where
  "lx_blank = \<lparr>trace = [], mem = \<lparr>mds = \<lambda>_. \<lparr>mds_buffer = 0, mds_length = 0, mds_status = 0, mds_misc = 0, mds_reserved = 0\<rparr>,
       lmds = \<lambda>_. \<lparr>md0 = 0, md1 = 0, md2 = 0, md3 = 0\<rparr>, ram = \<lambda>_. 0\<rparr>,
     l_dma_addr = 0x1000,
     l_block = \<lparr>sn_mode = 0, sn_tlen_rlen = 0, sn_ib_addr = [], sn_filter = [0, 0], sn_ib_rx_ring = 0, sn_ib_tx_ring = 0\<rparr>,
     l_tx_skbuff = replicate TX_RING_SIZE None, l_rx_skbuff = replicate RX_RING_SIZE None,
     l_tx_dma = replicate TX_RING_SIZE 0, l_rx_dma = replicate RX_RING_SIZE 0, l_a = pcnet32_wio, l_cur_rx = 0, l_cur_tx = 0,
     l_dirty_rx = 0, l_dirty_tx = 0, l_stats = zero_stats, l_tx_full = False, l_options = PCNET32_PORT_ASEL, l_shared_irq = True,
     l_dxsuflo = True, l_mii = True, l_full_duplex = True, l_phy_id = 0, l_name = [], l_blink = False, l_base = 0,
     l_dev_addr = [0, 1, 2, 3, 4, 5], l_irq = 11, l_flags = 0, l_mc_list = [], l_queue_stopped = False, l_running = False,
     l_pci_dev = True, l_msg_enable = 0, l_cards_found = 0\<rparr>"

definition lx_packet :: skb where
  "lx_packet = \<lparr>sk_ref = 0x900, sk_data = 0x9000, sk_len = 64\<rparr>"

lemma quiet_env_facts [simp]: "quiet_chip quiet_env" "keeps_buffers quiet_env"
proof -
  show "quiet_chip quiet_env" by (simp add: quiet_chip_def)
  then show "keeps_buffers quiet_env" by (rule quiet_keeps_buffers)
qed

lemma lx_kernel_mii [simp]: "mii_ok E lx_kernel"
  by (simp add: mii_ok_def lx_kernel_def mii_steps.stop)

lemma lx_packet_sendable [simp]: "lx_sendable lx_kernel lx_packet"
  by (simp add: lx_sendable_def lx_kernel_def lx_packet_def)

lemma lx_blank_closed [simp]: "lx_closed lx_blank"
  by (simp add: lx_closed_def lx_blank_def)

lemma lx_blank_empty: "lx_tx_empty lx_blank"
  by (simp add: lx_tx_empty_def lx_blank_def lx_base_def lx_tx_def)

lemma lx_blank_tx [simp]: "lx_tx_ok lx_blank" "lx_queue lx_blank = []" "\<not> l_queue_stopped lx_blank"
proof -
  show "\<not> l_queue_stopped lx_blank" by (simp add: lx_blank_def)
  from lx_tx_empty_ok[OF lx_blank_empty this] show "lx_tx_ok lx_blank" "lx_queue lx_blank = []" by simp_all
qed

text \<open>Opening the device succeeds.\<close>

lemma lx_blank_opens: "\<exists>u. pcnet32_open quiet_env lx_kernel lx_blank = (None, u)"
proof -
  obtain r u where o: "pcnet32_open quiet_env lx_kernel lx_blank = (r, u)" by fastforce
  have mem: "\<not> (\<exists>h. lk_skb lx_kernel h = None)" by (simp add: lx_kernel_def)
  have "lk_irq_free lx_kernel (trace lx_blank)" "lk_valid_addr lx_kernel (l_dev_addr lx_blank)"
    by (simp_all add: lx_kernel_def lx_blank_def)
  then have "r \<noteq> Some E_INVAL" using o by (auto simp: pcnet32_open_cases split: prod.splits if_splits)
  with open_outcome[OF quiet_env_facts(2) lx_kernel_mii lx_blank_closed o] mem have "r = None"
    by (auto simp: lx_kernel_def)
  with o show ?thesis by blast
qed

text \<open>A packet sent, of which the chip has cleared the ownership bit.\<close>

definition lx_sent :: lx where
  "lx_sent = upd_lx_tx 0 (\<lambda>d. d\<lparr>mds_status := 0x0300\<rparr>) (snd (pcnet32_start_xmit quiet_env lx_kernel lx_packet lx_blank))"

lemma lx_sent_facts [simp]: "lx_tx_ok lx_sent" "lx_queue lx_sent = [lx_packet]" "lx_released lx_sent = 1" "freed (trace lx_sent) = []"
proof -
  let ?s = "snd (pcnet32_start_xmit quiet_env lx_kernel lx_packet lx_blank)"
  note x = start_xmit_ok[OF quiet_env_facts(2) lx_blank_tx(1,3) lx_packet_sendable]
  have v: "lx_txv lx_sent = lx_txv ?s"
    by (simp add: lx_txv_def lx_sent_def lx_base_def TX_RING_SIZE_def cong: map_cong)
  show "lx_tx_ok lx_sent" "lx_queue lx_sent = [lx_packet]" using lx_txv_ok[OF v] x by simp_all
  then have p: "lx_pending lx_sent = 1" using length_lx_queue[of lx_sent] by simp
  have "l_dirty_tx lx_sent = 0"
    by (simp add: lx_sent_def xmit_dirty) (simp add: lx_blank_def)
  then have "lx_slot (l_dirty_tx lx_sent + of_nat 0) = 0" by (simp add: lx_slot_def)
  then have "\<not> has (mds_status (lx_tx lx_sent (lx_slot (l_dirty_tx lx_sent + of_nat 0)))) TMD_OWN"
    by (simp add: lx_sent_def TX_RING_SIZE_def has_def TMD_OWN_def)
  then show "lx_released lx_sent = 1" by (simp add: lx_released_def p)
  show "freed (trace lx_sent) = []" by (simp add: lx_sent_def xmit_freed) (simp add: lx_blank_def freed_def)
qed

text \<open>A packet of 64 bytes received in the first slot; the other slots are the chip's.\<close>

definition lx_received :: lx where
  "lx_received = lx_blank\<lparr>
     mem := (mem lx_blank)\<lparr>mds := \<lambda>a. \<lparr>mds_buffer = 0x8000, mds_length = 2 - 1544,
         mds_status = (if a = 0x1000 then 0x0300 else 0x8000), mds_misc = 68, mds_reserved = 0\<rparr>, ram := \<lambda>_. 7\<rparr>,
     l_rx_skbuff := replicate RX_RING_SIZE (Some \<lparr>sk_ref = 7, sk_data = 0x8000, sk_len = 0\<rparr>),
     l_rx_dma := replicate RX_RING_SIZE 0x8000\<rparr>"

lemma lx_received_ok [simp]: "lx_rx_ok lx_received"
  by (simp add: lx_rx_ok_def lx_received_def)

lemma lx_received_room: "n \<le> RX_RING_SIZE \<Longrightarrow> rx_room lx_kernel n lx_received"
proof -
  have "area_bytes (0x8000 + of_nat 0, 1542) \<inter> area_bytes (0x8000 + of_nat 0x18002, 1542) = {}"
    by (rule area_bytes_disjoint) simp_all
  then have "area_bytes (0x20002, 1542) \<inter> area_bytes (0x8000, 1542) = {}" by (simp add: Int_commute)
  moreover have "rx_slot lx_received k < 32" for k using rx_slot_bound[of lx_received k] by (simp add: RX_RING_SIZE_def)
  ultimately show ?thesis
    by (simp add: rx_room_def lx_received_def lx_kernel_def RX_RING_SIZE_def PKT_BUF_SZ_def rx_slot_bound)
qed

lemma lx_received_delivers: "lx_filled 16 lx_received = 1" "lx_frames lx_received 0 = [replicate 64 7]"
proof -
  have s: "rx_slot lx_received k = k" if "k < 16" for k
    using that by (simp add: rx_slot_mod) (simp add: lx_received_def lx_blank_def RX_RING_SIZE_def)
  have d: "lx_rx lx_received i = \<lparr>mds_buffer = 0x8000, mds_length = 2 - 1544,
         mds_status = (if lx_rx_at lx_received i = 0x1000 then 0x0300 else 0x8000), mds_misc = 68, mds_reserved = 0\<rparr>" for i
    by (simp add: lx_rx_def) (simp add: lx_received_def)
  have a: "lx_rx_at lx_received 0 = 0x1000" "lx_rx_at lx_received 1 = 0x1010"
    by (simp_all add: lx_rx_at_def sizeof_mds_def) (simp_all add: lx_received_def lx_blank_def)
  have "\<not> has (mds_status (lx_rx lx_received (rx_slot lx_received 0))) RMD_OWN"
    "has (mds_status (lx_rx lx_received (rx_slot lx_received 1))) RMD_OWN"
    using s[of 0] s[of 1] a by (simp_all add: d has_def RMD_OWN_def)
  then show "lx_filled 16 lx_received = 1" by (simp add: lx_filled_def upt_rec)
  have l: "lx_pkt_len (lx_rx lx_received 0) = 64" by (simp add: lx_pkt_len_def d)
  then have "good_frame lx_received 0" by (simp add: good_frame_def d a has_def RMD_OWN_def PKT_BUF_SZ_def)
  moreover have "lx_frame lx_received 0 r = replicate 64 7" for r
    unfolding lx_frame_def l by (simp add: lx_received_def map_replicate_const)
  ultimately show "lx_frames lx_received 0 = [replicate 64 7]" using s[of 0] by (simp add: lx_frames_def)
qed

text \<open>The storage of \<open>storage_env\<close>, seen through the access functions.\<close>

lemma at_base_0: "sel_reg (at_base 0 h) = sel_reg h" "bcr_last (at_base 0 h) k = bcr_last h k"
proof -
  have "sel_reg (at_base 0 h) = sel_reg h \<and> bcr_last (at_base 0 h) k = bcr_last h k" for h
  proof (induction h)
    case (Cons e h)
    then show ?case by (cases e) (simp_all add: rebase_def hw_consts)
  qed simp
  then show "sel_reg (at_base 0 h) = sel_reg h" "bcr_last (at_base 0 h) k = bcr_last h k" by simp_all
qed

lemma storage_env_bcrs: "stores_bcrs 0 R storage_env"
  using storage_register_file by (simp add: stores_bcrs_def register_file_def bcr_at_def at_base_0)

end
