(* ===== verification/Linux_Loopback.thy ===== *)
theory Linux_Loopback
  imports Linux_Open
begin

text \<open>
  The loopback test of the Linux driver's ethtool operations. It always returns; but its four packets
  stay behind in the slots of the transmit ring, which is empty by its indices: no buffer is lost yet,
  and each of the next packets handed over takes the place of one of them, which is then neither freed
  nor held anywhere.
\<close>

unbundle bit_operations_syntax

text \<open>An idle ring with packets left in its first \<open>n\<close> slots.\<close>

definition lx_left :: "nat \<Rightarrow> lx \<Rightarrow> bool" where
  "lx_left n s \<longleftrightarrow> lx_rx_ok s \<and> length (l_tx_skbuff s) = TX_RING_SIZE \<and> length (l_tx_dma s) = TX_RING_SIZE \<and>
     l_cur_tx s = 0 \<and> l_dirty_tx s = 0 \<and> (\<forall>x<TX_RING_SIZE. l_tx_skbuff s ! x \<noteq> None \<longleftrightarrow> x < n)"

lemma lx_left_views: "lx_txv t = lx_txv s \<Longrightarrow> lx_rxv t = lx_rxv s \<Longrightarrow> lx_left n t = lx_left n s"
  using lx_rxv_ok[of t s] by (simp add: lx_left_def lx_txv_def)

lemma calm_left: "calm s t \<Longrightarrow> lx_left n t = lx_left n s"
  by (rule lx_left_views) (simp_all add: calm_def)

lemma empty_left: "lx_tx_empty s \<Longrightarrow> lx_rx_ok s \<Longrightarrow> lx_left 0 s"
  by (simp add: lx_left_def lx_tx_empty_def)

subsection \<open>The packets of the test\<close>

definition lx_put_packet :: "env \<Rightarrow> lk \<Rightarrow> nat \<Rightarrow> skb \<Rightarrow> lx \<Rightarrow> lx" where
  "lx_put_packet E K x b s =
     (let packet = sk_data b;
          b = skb_put (lx_test_len + 15) b;
          s = s\<lparr>l_tx_skbuff := (l_tx_skbuff s)[x := Some b]\<rparr>;
          s = upd_lx_tx x (\<lambda>d. d\<lparr>mds_length := - of_nat (sk_len b)\<rparr>) s;
          s = upd_lx_tx x (\<lambda>d. d\<lparr>mds_misc := 0\<rparr>) s;
          s = s\<lparr>mem := (mem s)\<lparr>ram := poke packet (lx_test_packet s x) (ram (mem s))\<rparr>\<rparr>;
          (a, s) = pci_map_single E K (sk_data b) (sk_len b) s;
          s = s\<lparr>l_tx_dma := (l_tx_dma s)[x := a]\<rparr>;
          s = upd_lx_tx x (\<lambda>d. d\<lparr>mds_buffer := a\<rparr>) s
      in upd_lx_tx x (\<lambda>d. d\<lparr>mds_status := 0x8300\<rparr>) s)"

lemma put_packets_step:
  "lx_put_packets E K (x # xs) s =
     (case lk_skb K (trace s) of None \<Rightarrow> (False, emit E (Call ''dev_alloc_skb'' [of_nat (lx_test_len + 15)]) s)
      | Some b \<Rightarrow> lx_put_packets E K xs (lx_put_packet E K x b (emit E (Call ''dev_alloc_skb'' [of_nat (lx_test_len + 15)]) s)))"
  by (simp add: dev_alloc_skb_def lx_put_packet_def Let_def split_def split: option.split)

lemma put_packet_sel:
  "l_tx_skbuff (lx_put_packet E K x b s) = (l_tx_skbuff s)[x := Some (skb_put (lx_test_len + 15) b)]"
  "length (l_tx_dma (lx_put_packet E K x b s)) = length (l_tx_dma s)" "lx_rxv (lx_put_packet E K x b s) = lx_rxv s"
  "l_cur_tx (lx_put_packet E K x b s) = l_cur_tx s" "l_dirty_tx (lx_put_packet E K x b s) = l_dirty_tx s"
  "accounts K (trace (lx_put_packet E K x b s)) = accounts K (trace s)"
  by (simp_all add: lx_put_packet_def Let_def split_def pci_map_single_def lx_rxv_def)

text \<open>One more packet in the next slot: it is allocated, and held by the ring.\<close>

lemma put_packet_left:
  fixes E :: env
  assumes n: "n < TX_RING_SIZE" and l: "lx_left n s" and b: "lk_skb K (trace s) = Some b"
  defines "t \<equiv> lx_put_packet E K n b (emit E (Call ''dev_alloc_skb'' [of_nat (lx_test_len + 15)]) s)"
  shows "lx_left (Suc n) t" "conserves K s t"
proof -
  let ?e = "emit E (Call ''dev_alloc_skb'' [of_nat (lx_test_len + 15)]) s"
  note t = put_packet_sel[where E = E and K = K and x = n and b = b and s = ?e, folded t_def]
  have rx: "lx_rxv t = lx_rxv s" using t(3) by (simp add: lx_rxv_def)
  show "lx_left (Suc n) t"
    using l n t lx_rxv_ok[OF rx] by (auto simp: lx_left_def nth_list_update less_Suc_eq)
  have "refs (l_tx_skbuff t) = refs (l_tx_skbuff s) + {#sk_ref b#}"
  proof -
    have "l_tx_skbuff s ! n = None" "n < length (l_tx_skbuff s)" using l n by (auto simp: lx_left_def)
    then show ?thesis using refs_update[of n "l_tx_skbuff s" "Some (skb_put (lx_test_len + 15) b)"]
      by (simp add: t skb_put_def)
  qed
  moreover have "allocated K (trace t) = sk_ref b # allocated K (trace s) \<or> allocated K (trace t) = allocated K (trace s) @ [sk_ref b]"
    "freed (trace t) = freed (trace s)" "passed (trace t) = passed (trace s)"
    using t(6) b by (auto simp: accounts_def)
  moreover have "l_rx_skbuff t = l_rx_skbuff s" using rx by (simp add: lx_rxv_def)
  ultimately show "conserves K s t" by (auto simp: conserves_def lx_in_def lx_out_def)
qed

lemma put_packets_left:
  assumes "\<And>h. lk_skb K h \<noteq> None" "n + m \<le> TX_RING_SIZE" "lx_left n s"
  shows "\<exists>t. lx_put_packets E K [n..<n + m] s = (True, t) \<and> lx_left (n + m) t \<and> conserves K s t"
  using assms(2,3)
proof (induction m arbitrary: n s)
  case (Suc m)
  obtain b where b: "lk_skb K (trace s) = Some b" using assms(1) by blast
  define u where "u = lx_put_packet E K n b (emit E (Call ''dev_alloc_skb'' [of_nat (lx_test_len + 15)]) s)"
  have "n < TX_RING_SIZE" using Suc.prems(1) by simp
  note u = put_packet_left[OF this Suc.prems(2) b, of E, folded u_def]
  have "[n..<n + Suc m] = n # [Suc n..<Suc n + m]" by (simp add: upt_rec)
  moreover from Suc.IH[OF _ u(1)] Suc.prems(1) obtain t where
    "lx_put_packets E K [Suc n..<Suc n + m] u = (True, t)" "lx_left (Suc n + m) t" "conserves K u t" by auto
  ultimately show ?case
    using put_packets_step[of E K n "[Suc n..<Suc n + m]" s] b u(2) conserves_trans[of K s u] by (auto simp: u_def)
qed simp

subsection \<open>The test\<close>

lemma io_only_wait: "io_only E s (snd (lx_wait_desc E x n s))" "io_only E s (lx_wait_descs E xs s)"
proof -
  show w: "io_only E s (snd (lx_wait_desc E x n s))" for n s x
  proof (induction n arbitrary: s)
    case (Suc n)
    show ?case using io_only_trans[OF io_only_emit[of "Sleep 1"] Suc.IH] by simp
  qed simp
  show "io_only E s (lx_wait_descs E xs s)"
  proof (induction xs arbitrary: s)
    case (Cons x xs)
    show ?case using io_only_trans[OF w Cons.IH] w by (simp add: Let_def split_def)
  qed simp
qed

lemma compare_returns:
  "(\<And>x. x \<in> set xs \<Longrightarrow> l_rx_skbuff s ! x \<noteq> None \<and> l_tx_skbuff s ! x \<noteq> None) \<Longrightarrow> \<exists>r. lx_compare xs s = Some r"
proof (induction xs)
  case (Cons x xs)
  then obtain r t where "l_rx_skbuff s ! x = Some r" "l_tx_skbuff s ! x = Some t" by fastforce
  with Cons show ?case by (simp add: ex_bool_eq)
qed (simp add: ex_bool_eq)

text \<open>An open in this state leaves the packets where they are, whatever its result.\<close>

lemma open_left:
  assumes E: "keeps_buffers E" "mii_ok E K" and l: "lx_left n s"
  defines "t \<equiv> snd (pcnet32_open E K s)"
  shows "lx_left n t" "conserves K s t"
proof -
  let ?q = "request_irq E s"
  have q: "calm s ?q" unfolding request_irq_def by (intro calm_io[OF E(1)] io_only_emit) simp
  have f: "calm s (lx_free_irq E ?q)"
    unfolding lx_free_irq_def by (intro calm_trans[OF q] calm_io[OF E(1)] io_only_emit) simp
  define u where "u = open_chip E K ?q"
  have su: "calm s u" unfolding u_def by (rule calm_trans[OF q calm_open_chip[OF E(1)]])
  then have lu: "lx_left n u" using l calm_left by blast
  obtain fail v where v: "pcnet32_init_ring E K u = (fail, v)" by fastforce
  have "rx_len u" "length (l_tx_dma u) = TX_RING_SIZE" using lu rx_ok_len by (simp_all add: lx_left_def)
  note i = init_ring_slots[OF E(1) this v]
  have i: "\<not> fail" "lx_left n v" "conserves K s v"
    using i lu conserves_trans[OF calm_conserves[OF su]] by (auto simp: lx_left_def lx_tx_idle_def split: if_splits)
  note st = start_view[OF E, of v]
  have "lx_left n (v\<lparr>l_queue_stopped := False\<rparr>)" using i(2) by (simp add: lx_left_def lx_rx_ok_def)
  then have w: "lx_left n (lx_start E K v)" using lx_left_views[OF st(1)] st(2) by (simp add: lx_rxv_def)
  have o: "t = (if \<not> lk_irq_free K (trace s) then ?q
      else if \<not> lk_valid_addr K (l_dev_addr s) then lx_free_irq E ?q else lx_start E K v)"
    unfolding t_def pcnet32_open_cases u_def[symmetric] v prod.case using i(1) by simp
  show "lx_left n t" using o w l calm_left[OF q] calm_left[OF f] by (auto split: if_splits)
  show "conserves K s t" using o calm_conserves[OF q] calm_conserves[OF f] conserves_trans[OF i(3) st(3)] by (auto split: if_splits)
qed

lemma clean_up_left:
  assumes E: "keeps_buffers E" "mii_ok E K" and l: "lx_left n s"
  shows "lx_left n (lx_loopback_clean_up E K s)" "conserves K s (lx_loopback_clean_up E K s)"
proof -
  define u where "u = (let (x, s) = lx_read_csr E 15 s; s = lx_write_csr E 15 (x AND NOT 0x0044) s;
          (x, s) = lx_read_bcr E 32 s in lx_write_bcr E 32 (x AND NOT 0x0002) s)"
  have "calm s u"
    unfolding u_def Let_def split_def
    by (intro calm_io[OF E(1)] io_only_trans[OF io_only_trans[OF io_only_trans[OF io_only_lx(1) io_only_lx(2)] io_only_lx(3)] io_only_lx(4)])
  then have u: "lx_left n u" "conserves K s u" using l calm_left calm_conserves by blast+
  have c: "calm u (lx_write_bcr E 20 4 u)" by (intro calm_io[OF E(1)] io_only_lx(4))
  have t: "lx_loopback_clean_up E K s = (if l_running u then snd (pcnet32_open E K u) else lx_write_bcr E 20 4 u)"
    by (simp add: lx_loopback_clean_up_def u_def Let_def split_def)
  show "lx_left n (lx_loopback_clean_up E K s)" using t open_left(1)[OF E u(1)] calm_left[OF c] u(1) by simp
  show "conserves K s (lx_loopback_clean_up E K s)"
    using t conserves_trans[OF u(2) open_left(2)[OF E u(1)]] conserves_trans[OF u(2) calm_conserves[OF c]] by simp
qed

lemma loopback_leaves:
  assumes E: "keeps_buffers E" "mii_ok E K" and m: "\<And>h. lk_skb K h \<noteq> None"
    and s: "if l_running s then lx_ok s else lx_closed s"
  shows "\<exists>ok t. pcnet32_loopback_test E K s = Some (ok, t) \<and> lx_left 4 t \<and> conserves K s t"
proof -
  define s0 where "s0 = (if l_running s then pcnet32_close E K s else s)"
  have s0: "lx_closed s0" "conserves K s s0" using s close_outcome[OF E(1), of s K] by (auto simp: s0_def)
  define s1 where "s1 = (let u = lx_write_bcr E 20 2 (lx_reset E s0) in u\<lparr>l_block := (l_block u)\<lparr>sn_mode := lx_mode u, sn_filter := [0, 0]\<rparr>\<rparr>)"
  have "calm s0 s1"
    unfolding s1_def Let_def by (rule calm_trans[OF calm_io[OF E(1) io_only_trans[OF io_only_lx(7) io_only_lx(4)]] calm_vars(7)])
  then have s1: "lx_closed s1" "conserves K s s1" using s0 calm_closed conserves_trans[OF _ calm_conserves] by blast+
  have "rx_len s1" "lx_rx_ok s1 \<or> (\<forall>h. lk_skb K h \<noteq> None)" "length (l_tx_skbuff s1) = TX_RING_SIZE" "length (l_tx_dma s1) = TX_RING_SIZE"
    using s1(1) m by (simp_all add: lx_closed_def rx_len_def)
  note r = restart_rings[OF E(1) this, of 0]
  define s2 where "s2 = lx_write_csr E 0 0x0004 (pcnet32_restart E K 0x0000 s1)"
  have c2: "calm (pcnet32_restart E K 0x0000 s1) s2" unfolding s2_def by (intro calm_io[OF E(1)] io_only_lx(2))
  have s2: "lx_left 0 s2" "conserves K s s2"
    using calm_left[OF c2] empty_left[OF r(1,2)] conserves_trans[OF conserves_trans[OF s1(2) r(5)] calm_conserves[OF c2]] by simp_all
  obtain s3 where s3: "lx_put_packets E K [0..<4] s2 = (True, s3)" "lx_left 4 s3" "conserves K s s3"
    using put_packets_left[OF m, of 0 4 s2 E] s2 conserves_trans[OF s2(2)] by (auto simp: TX_RING_SIZE_def)
  define s4 where "s4 = lx_write_csr E 0 0x0004 (lx_wait_descs E [0..<4] (lx_write_csr E 0 0x0002 (lx_write_csr E 15 0x0044
      (lx_write_bcr E 32 (fst (lx_read_bcr E 32 s3) OR 0x0002) (snd (lx_read_bcr E 32 s3))))))"
  have "calm s3 s4" unfolding s4_def
    by (intro calm_io[OF E(1)] io_only_trans[OF io_only_trans[OF io_only_trans[OF io_only_trans[OF io_only_trans[OF
        io_only_lx(3) io_only_lx(4)] io_only_lx(2)] io_only_lx(2)] io_only_wait(2)] io_only_lx(2)])
  then have s4: "lx_left 4 s4" "conserves K s s4" using s3 calm_left conserves_trans[OF _ calm_conserves] by blast+
  obtain same where same: "lx_compare [0..<4] s4 = Some same"
    using compare_returns[of "[0..<4]" s4] s4(1) by (auto simp: lx_left_def lx_rx_ok_def TX_RING_SIZE_def RX_RING_SIZE_def)
  have "pcnet32_loopback_test E K s = Some (same, lx_loopback_clean_up E K s4)"
    unfolding pcnet32_loopback_test_def s0_def[symmetric] Let_def
    using s3(1) same by (simp add: s1_def[unfolded Let_def, symmetric] s2_def[symmetric] split_def s4_def[symmetric])
  then show ?thesis using clean_up_left[OF E s4(1)] conserves_trans[OF s4(2)] by blast
qed

subsection \<open>The packets lost\<close>

text \<open>The next packet overwrites the first one left behind.\<close>

lemma xmit_overwrites:
  fixes K :: lk and b :: skb
  assumes E: "keeps_buffers E" and l: "lx_left 4 s"
  defines "t \<equiv> snd (pcnet32_start_xmit E K b s)"
  shows "lx_in K t + {#sk_ref b#} + lx_out s = lx_in K s + lx_out t + {#sk_ref (the (l_tx_skbuff s ! 0))#}"
proof -
  define u where "u = lx_msg_csr0 E K ''TX_QUEUED'' s"
  have u: "lx_txv u = lx_txv s" "lx_rxv u = lx_rxv s" using io_only_views[OF E io_only_lx(8)[of E s K]] by (simp_all add: u_def)
  have c: "l_cur_tx u = 0" using u(1) l by (simp add: lx_txv_def lx_left_def)
  have t: "l_tx_skbuff t = (l_tx_skbuff s)[0 := Some b]" "l_rx_skbuff t = l_rx_skbuff s"
    using u c io_only_views[OF E io_only_lx(2)]
    by (simp_all add: t_def pcnet32_start_xmit_def u_def[symmetric] Let_def lx_txv_def lx_rxv_def netif_stop_queue_def)
  have "l_tx_skbuff s ! 0 \<noteq> None" "0 < length (l_tx_skbuff s)" using l by (simp_all add: lx_left_def TX_RING_SIZE_def)
  then obtain old where o: "l_tx_skbuff s ! 0 = Some old" "0 < length (l_tx_skbuff s)" by blast
  have "refs ((l_tx_skbuff s)[0 := Some b]) + {#sk_ref old#} = refs (l_tx_skbuff s) + {#sk_ref b#}"
    using refs_update[OF o(2), of "Some b"] o(1) by simp
  moreover have "accounts K (trace t) = accounts K (trace s)" unfolding t_def by (rule xmit_accounts)
  ultimately show ?thesis by (simp add: t o(1) lx_in_def lx_out_def accounts_def ac_simps)
qed

end
