(* ===== verification/Power_State.thy ===== *)
theory Power_State
  imports Driver_State
begin

text \<open>
  The power management sample (\<^verbatim>\<open>WiFiPower.cpp\<close>): the policy-maker asks for a power state, a thread
  call makes the change through the command gate and acknowledges it. The theory has the
  functions of the file, their interleaving as a transition system, and what it keeps:
  the object's references and the acknowledgements.
\<close>

subsection \<open>The functions\<close>

definition kWiFiControllerPowerStateOff :: nat where "kWiFiControllerPowerStateOff = 0"
definition kWiFiControllerPowerStateOn :: nat where "kWiFiControllerPowerStateOn = 1"
definition kWiFiControllerPowerStateCount :: nat where "kWiFiControllerPowerStateCount = 2"
definition kFiveSeconds :: int where "kFiveSeconds = 5000000"
definition IOPMAckImplied :: int where "IOPMAckImplied = 0"

text \<open>The members this file uses; a thread call is a pointer, null when it could not be allocated.\<close>

record wifi = hist +
  pmPowerState :: nat
  pmPolicyMaker :: u32
  powerOffThreadCall :: bool
  powerOnThreadCall :: bool
  cardGone :: bool

text \<open>
  The kernel's calls. The thread calls have the numbers 0 (off) and 1 (on); \<open>thread_call_enter\<close>
  answers whether the call was pending already, and otherwise queues it.
\<close>

definition retain_self :: "env \<Rightarrow> wifi \<Rightarrow> wifi" where
  "retain_self E s = emit E (Kernel ''retain'') s"

definition release_self :: "env \<Rightarrow> wifi \<Rightarrow> wifi" where
  "release_self E s = emit E (Kernel ''release'') s"

definition thread_call_allocate :: "env \<Rightarrow> u32 \<Rightarrow> wifi \<Rightarrow> bool \<times> wifi" where
  "thread_call_allocate E c s = (let s = emit E (Call ''thread_call_allocate'' [c]) s in (os_ok E (trace s), s))"

definition thread_call_enter :: "env \<Rightarrow> u32 \<Rightarrow> wifi \<Rightarrow> bool \<times> wifi" where
  "thread_call_enter E c s = (let s = emit E (Call ''thread_call_enter'' [c]) s in (os_ok E (trace s), s))"

definition wifi_registerWithPolicyMaker :: "env \<Rightarrow> u32 \<Rightarrow> wifi \<Rightarrow> bool \<times> wifi" where
  "wifi_registerWithPolicyMaker E policyMaker s =
     (let s = s\<lparr>pmPowerState := kWiFiControllerPowerStateOn, pmPolicyMaker := policyMaker\<rparr>;
          (ok, s) = thread_call_allocate E 0 s;
          s = s\<lparr>powerOffThreadCall := ok\<rparr>;
          (ok, s) = thread_call_allocate E 1 s;
          s = s\<lparr>powerOnThreadCall := ok\<rparr>;
          s = emit E (Call ''registerPowerDriver'' [of_nat kWiFiControllerPowerStateCount]) s
      in (os_ok E (trace s), s))"

text \<open>A reference for the pending call, then the call; \<open>True\<close> when it was pending, so that the reference is one too many.\<close>

definition request_call :: "env \<Rightarrow> u32 \<Rightarrow> wifi \<Rightarrow> bool \<times> wifi" where
  "request_call E c s = thread_call_enter E c (retain_self E s)"

definition wifi_setPowerState :: "env \<Rightarrow> nat \<Rightarrow> wifi \<Rightarrow> int \<times> wifi" where
  "wifi_setPowerState E powerStateOrdinal s =
     (if pmPowerState s = powerStateOrdinal then (IOPMAckImplied, s)
      else if powerStateOrdinal = kWiFiControllerPowerStateOff then
        (if powerOffThreadCall s
         then let (pending, s) = request_call E 0 s in (kFiveSeconds, if pending then release_self E s else s)
         else (IOPMAckImplied, s))
      else if powerStateOrdinal = kWiFiControllerPowerStateOn then
        (if powerOnThreadCall s
         then let (pending, s) = request_call E 1 s in (kFiveSeconds, if pending then release_self E s else s)
         else (IOPMAckImplied, s))
      else (IOPMAckImplied, s))"

definition setPowerStateOff :: "env \<Rightarrow> wifi \<Rightarrow> wifi" where
  "setPowerStateOff E s =
     (let s = s\<lparr>cardGone := True\<rparr>;
          s = emit E (Kernel ''getReadyForSleep'') s;
          s = s\<lparr>pmPowerState := kWiFiControllerPowerStateOff\<rparr>
      in emit E (Kernel ''acknowledgeSetPowerState'') s)"

definition setPowerStateOn :: "env \<Rightarrow> wifi \<Rightarrow> wifi" where
  "setPowerStateOn E s =
     (let s = s\<lparr>pmPowerState := kWiFiControllerPowerStateOn\<rparr>;
          s = emit E (Sleep 2) s;
          s = s\<lparr>cardGone := False\<rparr>;
          s = emit E (Kernel ''initHardware'') s
      in emit E (Kernel ''acknowledgeSetPowerState'') s)"

text \<open>The thread's function: with argument 0 it calls itself through the command gate.\<close>

definition handleSetPowerStateOff :: "env \<Rightarrow> nat \<Rightarrow> wifi \<Rightarrow> wifi" where
  "handleSetPowerStateOff E param1 s =
     (let s = (if param1 = 0 then emit E (Kernel ''runAction'') s else s)
      in release_self E (setPowerStateOff E s))"

definition handleSetPowerStateOn :: "env \<Rightarrow> nat \<Rightarrow> wifi \<Rightarrow> wifi" where
  "handleSetPowerStateOn E param1 s =
     (let s = (if param1 = 0 then emit E (Kernel ''runAction'') s else s)
      in release_self E (setPowerStateOn E s))"

subsection \<open>The scheduler\<close>

text \<open>The call \<open>c\<close> has been entered and not been started since.\<close>

fun pending_call :: "u32 \<Rightarrow> history \<Rightarrow> bool" where
  "pending_call c [] \<longleftrightarrow> False"
| "pending_call c (e # h) \<longleftrightarrow> e = Call ''thread_call_enter'' [c] \<or> e \<noteq> Call ''thread_start'' [c] \<and> pending_call c h"

text \<open>What the kernel documents of \<^verbatim>\<open>thread_call_enter\<close>: it returns \<^verbatim>\<open>TRUE\<close> when the call was pending.\<close>

definition calls_honest :: "env \<Rightarrow> bool" where
  "calls_honest E \<longleftrightarrow> (\<forall>c h. os_ok E (Call ''thread_call_enter'' [c] # h) \<longleftrightarrow> pending_call c h)"

text \<open>
  The device, the requests that have yet to drop the reference they did not need, the threads
  started and not yet through the gate, and those that have yet to drop their reference.
\<close>

record power_sys =
  power_dev :: wifi
  owed :: nat
  started_off :: nat
  started_on :: nat
  finishing :: nat

inductive power_step :: "env \<Rightarrow> power_sys \<Rightarrow> power_sys \<Rightarrow> bool" for E where
  ask_off: "pmPowerState (power_dev p) \<noteq> kWiFiControllerPowerStateOff \<Longrightarrow> powerOffThreadCall (power_dev p) \<Longrightarrow>
    request_call E 0 (power_dev p) = (pending, s) \<Longrightarrow> power_step E p (p\<lparr>power_dev := s, owed := owed p + (if pending then 1 else 0)\<rparr>)"
| ask_on: "pmPowerState (power_dev p) \<noteq> kWiFiControllerPowerStateOn \<Longrightarrow> powerOnThreadCall (power_dev p) \<Longrightarrow>
    request_call E 1 (power_dev p) = (pending, s) \<Longrightarrow> power_step E p (p\<lparr>power_dev := s, owed := owed p + (if pending then 1 else 0)\<rparr>)"
| drop: "0 < owed p \<Longrightarrow> power_step E p (p\<lparr>power_dev := release_self E (power_dev p), owed := owed p - 1\<rparr>)"
| start_off: "pending_call 0 (trace (power_dev p)) \<Longrightarrow>
    power_step E p (p\<lparr>power_dev := emit E (Call ''thread_start'' [0]) (power_dev p), started_off := started_off p + 1\<rparr>)"
| start_on: "pending_call 1 (trace (power_dev p)) \<Longrightarrow>
    power_step E p (p\<lparr>power_dev := emit E (Call ''thread_start'' [1]) (power_dev p), started_on := started_on p + 1\<rparr>)"
| gate_off: "0 < started_off p \<Longrightarrow> power_step E p (p\<lparr>power_dev := setPowerStateOff E (emit E (Kernel ''runAction'') (power_dev p)),
    started_off := started_off p - 1, finishing := finishing p + 1\<rparr>)"
| gate_on: "0 < started_on p \<Longrightarrow> power_step E p (p\<lparr>power_dev := setPowerStateOn E (emit E (Kernel ''runAction'') (power_dev p)),
    started_on := started_on p - 1, finishing := finishing p + 1\<rparr>)"
| finish: "0 < finishing p \<Longrightarrow> power_step E p (p\<lparr>power_dev := release_self E (power_dev p), finishing := finishing p - 1\<rparr>)"

text \<open>Run one after the other, the steps are the functions of the file.\<close>

lemma wifi_setPowerState_steps:
  "wifi_setPowerState E 0 s = (if pmPowerState s = 0 \<or> \<not> powerOffThreadCall s then (IOPMAckImplied, s)
     else (kFiveSeconds, (if fst (request_call E 0 s) then release_self E else id) (snd (request_call E 0 s))))"
  "wifi_setPowerState E 1 s = (if pmPowerState s = 1 \<or> \<not> powerOnThreadCall s then (IOPMAckImplied, s)
     else (kFiveSeconds, (if fst (request_call E 1 s) then release_self E else id) (snd (request_call E 1 s))))"
  by (simp_all add: wifi_setPowerState_def kWiFiControllerPowerStateOff_def kWiFiControllerPowerStateOn_def Let_def split_def)

subsection \<open>References and acknowledgements\<close>

definition kernel_times :: "string \<Rightarrow> history \<Rightarrow> nat" where
  "kernel_times f h = length (filter (\<lambda>e. e = Kernel f) h)"

lemma kernel_times_simps [simp]: "kernel_times f [] = 0" "kernel_times f (e # h) = (if e = Kernel f then Suc (kernel_times f h) else kernel_times f h)"
  by (simp_all add: kernel_times_def)

text \<open>How often a call was queued anew.\<close>

fun changes_queued :: "history \<Rightarrow> nat" where
  "changes_queued [] = 0"
| "changes_queued (e # h) = (case e of Call f as \<Rightarrow>
     (case as of [c] \<Rightarrow> (if f = ''thread_call_enter'' \<and> \<not> pending_call c h then Suc (changes_queued h) else changes_queued h) | _ \<Rightarrow> changes_queued h)
   | _ \<Rightarrow> changes_queued h)"

definition changes_waiting :: "power_sys \<Rightarrow> nat" where
  "changes_waiting p = of_bool (pending_call 0 (trace (power_dev p))) + of_bool (pending_call 1 (trace (power_dev p))) + started_off p + started_on p"

definition power_inv :: "power_sys \<Rightarrow> bool" where
  "power_inv p \<longleftrightarrow>
     kernel_times ''retain'' (trace (power_dev p)) = kernel_times ''release'' (trace (power_dev p)) + changes_waiting p + finishing p + owed p \<and>
     changes_queued (trace (power_dev p)) = kernel_times ''acknowledgeSetPowerState'' (trace (power_dev p)) + changes_waiting p"

lemma power_step_inv: "power_step E p q \<Longrightarrow> calls_honest E \<Longrightarrow> power_inv p \<Longrightarrow> power_inv q"
  by (induction rule: power_step.induct)
    (auto simp: power_inv_def changes_waiting_def request_call_def thread_call_enter_def retain_self_def release_self_def Let_def
      calls_honest_def setPowerStateOff_def setPowerStateOn_def)

lemma power_steps_inv: "(power_step E)\<^sup>*\<^sup>* p q \<Longrightarrow> calls_honest E \<Longrightarrow> power_inv p \<Longrightarrow> power_inv q"
  by (induction rule: rtranclp_induct) (auto intro: power_step_inv)

text \<open>Nothing is running; no reference is held and none was dropped.\<close>

definition power_idle :: "wifi \<Rightarrow> power_sys" where
  "power_idle s = \<lparr>power_dev = s, owed = 0, started_off = 0, started_on = 0, finishing = 0\<rparr>"

lemma power_idle_inv:
  assumes "trace s = []"
  shows "power_inv (power_idle (snd (wifi_registerWithPolicyMaker E pm s)))"
  using assms by (simp add: power_inv_def changes_waiting_def power_idle_def wifi_registerWithPolicyMaker_def thread_call_allocate_def Let_def)

subsection \<open>Every change comes to its end\<close>

definition work_left :: "power_sys \<Rightarrow> nat" where
  "work_left p = 3 * of_bool (pending_call 0 (trace (power_dev p))) + 3 * of_bool (pending_call 1 (trace (power_dev p))) +
     2 * started_off p + 2 * started_on p + finishing p + owed p"

lemma power_step_progress:
  assumes "0 < work_left p"
  shows "\<exists>q. power_step E p q \<and> work_left q < work_left p \<and> changes_queued (trace (power_dev q)) = changes_queued (trace (power_dev p))"
proof -
  consider "0 < owed p" | "0 < finishing p" | "0 < started_off p" | "0 < started_on p" |
    "pending_call 0 (trace (power_dev p))" | "pending_call 1 (trace (power_dev p))"
    using assms unfolding work_left_def by fastforce
  then show ?thesis
  proof cases
    case 1
    show ?thesis
      by (intro exI conjI, rule power_step.drop[OF 1]) (use 1 in \<open>simp_all add: work_left_def release_self_def\<close>)
  next
    case 2
    show ?thesis
      by (intro exI conjI, rule power_step.finish[OF 2]) (use 2 in \<open>simp_all add: work_left_def release_self_def\<close>)
  next
    case 3
    show ?thesis
      by (intro exI conjI, rule power_step.gate_off[OF 3]) (use 3 in \<open>simp_all add: work_left_def setPowerStateOff_def Let_def\<close>)
  next
    case 4
    show ?thesis
      by (intro exI conjI, rule power_step.gate_on[OF 4]) (use 4 in \<open>simp_all add: work_left_def setPowerStateOn_def Let_def\<close>)
  next
    case 5
    show ?thesis
      by (intro exI conjI, rule power_step.start_off[OF 5]) (use 5 in \<open>simp_all add: work_left_def\<close>)
  next
    case 6
    show ?thesis
      by (intro exI conjI, rule power_step.start_on[OF 6]) (use 6 in \<open>simp_all add: work_left_def\<close>)
  qed
qed

lemma power_drains:
  "\<exists>q. (power_step E)\<^sup>*\<^sup>* p q \<and> work_left q = 0 \<and> changes_queued (trace (power_dev q)) = changes_queued (trace (power_dev p))"
proof (induction "work_left p" arbitrary: p rule: less_induct)
  case less
  show ?case
  proof (cases "work_left p = 0")
    case False
    then obtain q where q: "power_step E p q" "work_left q < work_left p" "changes_queued (trace (power_dev q)) = changes_queued (trace (power_dev p))"
      using power_step_progress[of p E] by blast
    from less[OF q(2)] q show ?thesis by (metis converse_rtranclp_into_rtranclp)
  qed auto
qed

lemma work_done:
  assumes "work_left q = 0" "power_inv q"
  shows "kernel_times ''retain'' (trace (power_dev q)) = kernel_times ''release'' (trace (power_dev q)) \<and>
    changes_queued (trace (power_dev q)) = kernel_times ''acknowledgeSetPowerState'' (trace (power_dev q))"
  using assms by (auto simp: work_left_def power_inv_def changes_waiting_def split: if_splits)

text \<open>While a change to Off waits, a request for On is taken to be met already.\<close>

lemma on_request_lost:
  assumes "pmPowerState s = kWiFiControllerPowerStateOn" "powerOffThreadCall s" "wifi_setPowerState E kWiFiControllerPowerStateOff s = (r, t)"
  shows "r = kFiveSeconds \<and> wifi_setPowerState E kWiFiControllerPowerStateOn t = (IOPMAckImplied, t) \<and>
    pmPowerState (handleSetPowerStateOff E 0 t) = kWiFiControllerPowerStateOff"
proof -
  have sel: "pmPowerState (emit E e u) = pmPowerState u" for e and u :: wifi by (cases u) (simp add: emit_def)
  have "t = (if fst (request_call E 0 s) then release_self E else id) (snd (request_call E 0 s))" "r = kFiveSeconds"
    using assms by (auto simp: wifi_setPowerState_def Let_def split_def kWiFiControllerPowerStateOff_def kWiFiControllerPowerStateOn_def)
  then have "pmPowerState t = pmPowerState s" by (simp add: request_call_def thread_call_enter_def retain_self_def release_self_def Let_def sel)
  with assms(1) \<open>r = kFiveSeconds\<close> show ?thesis
    by (simp add: wifi_setPowerState_def handleSetPowerStateOff_def setPowerStateOff_def release_self_def Let_def sel)
qed

text \<open>A scheduler that answers as documented, and the object before it registers.\<close>

definition power_env :: "env \<Rightarrow> env" where
  "power_env E = E\<lparr>os_ok := \<lambda>h. case h of Call f as # h' \<Rightarrow> f \<noteq> ''thread_call_enter'' \<or> as = [] \<or> pending_call (hd as) h' | _ \<Rightarrow> True\<rparr>"

lemma power_env_honest: "calls_honest (power_env E)"
  by (simp add: calls_honest_def power_env_def)

definition unregistered :: wifi where
  "unregistered = \<lparr>trace = [], mem = \<lparr>mds = \<lambda>_. \<lparr>mds_buffer = 0, mds_length = 0, mds_status = 0, mds_misc = 0, mds_reserved = 0\<rparr>,
       lmds = \<lambda>_. \<lparr>md0 = 0, md1 = 0, md2 = 0, md3 = 0\<rparr>, ram = \<lambda>_. 0\<rparr>,
     pmPowerState = 0, pmPolicyMaker = 0, powerOffThreadCall = False, powerOnThreadCall = False, cardGone = False\<rparr>"

lemma unregistered_trace: "trace unregistered = []"
  by (simp add: unregistered_def)

lemma unregistered_registers:
  "pmPowerState (snd (wifi_registerWithPolicyMaker (power_env E) pm unregistered)) = kWiFiControllerPowerStateOn"
  "powerOffThreadCall (snd (wifi_registerWithPolicyMaker (power_env E) pm unregistered))"
  by (simp_all add: wifi_registerWithPolicyMaker_def thread_call_allocate_def emit_def Let_def unregistered_def power_env_def)

end
