(* ===== verification/Spec2Isabelle.thy ===== *)
theory Spec2Isabelle
  imports Debugger Fbsd_Dump Sanos_Fixtures Fbsd_Fixtures Linux_Fixtures Linux_Loopback Power_State
begin

text \<open>
  A verification of the AMD PCNET network driver for Darwin (\<^verbatim>\<open>src/Source\<close>), a C++ IOKit driver
  adapted from FreeBSD's Lance driver, and of three reference drivers kept beside it under
  \<^verbatim>\<open>src/Useful Stuff/Sources\<close>: the Sanos driver for the same chip (\<^verbatim>\<open>pcnet32-sanos.c\<close>), the
  FreeBSD driver it was ported from (\<^verbatim>\<open>FreeBSD/if_lnc.c\<close>, \<^verbatim>\<open>if_lnc_pci.c\<close>) and the Linux driver
  (\<^verbatim>\<open>pcnet32-linux.c\<close>); and of the power management sample among them (\<^verbatim>\<open>WiFiPower.cpp\<close>).

  The program. IOKit creates an object of the class \<^verbatim>\<open>PCNET\<close>, calls \<^verbatim>\<open>start\<close>, and then its entry
  points one at a time through a work loop: \<^verbatim>\<open>enable\<close>, \<^verbatim>\<open>disable\<close>, \<^verbatim>\<open>outputPacket\<close>, the filter
  and medium operations, the timer and the interrupt handler. The driver shares a block of
  memory with the controller: two rings of descriptors, their buffers and an initialization
  block; registers are reached through an address port and data ports, in 16- or 32-bit mode.

  The model. \<open>Driver_State\<close>: the object is a record, whose part \<open>lnc_softc\<close> is the member
  \<^verbatim>\<open>sc\<close>; every port access and kernel call is an event of its history, and the environment \<open>env\<close>
  answers each from the history, so that a theorem for all \<open>env\<close> holds for every controller and
  kernel. DMA may change the shared memory at every event and at no other point. Operations are
  functions of the state, of the names they have in the code; a loop the code does not bound is a
  partial function, where \<open>None\<close> means that it never returns.

  The theories, each beside the source it models:
  \<^item> \<open>Prelude\<close>, \<open>Hw\<close> (\<^verbatim>\<open>PCNet_HW.h\<close>, \<^verbatim>\<open>PCNet_Var.h\<close>, \<^verbatim>\<open>PCNet_lnc.h\<close>), \<open>Driver_State\<close>,
    \<open>Port_IO\<close> (\<^verbatim>\<open>PCNet.h\<close>), \<open>Ring\<close> (the pointer macros and ring loops).
  \<^item> \<open>Multicast\<close>, \<open>Lnc_Init\<close>, \<open>Lnc_Tx\<close>, \<open>Lnc_Rx\<close>, \<open>Lnc_Intr\<close> (\<^verbatim>\<open>PCNet_lnc.cpp\<close> and the packet entry
    points of \<^verbatim>\<open>PCNet_Private.cpp\<close>), with their lemmas in \<open>Layout\<close>, \<open>Init_Facts\<close>, \<open>Tx_Facts\<close>,
    \<open>Rx_Facts\<close>, \<open>Intr_Facts\<close>.
  \<^item> \<open>Phy\<close>, \<open>Phy_Facts\<close> (\<^verbatim>\<open>PCNet_PHY.cpp\<close>), \<open>Lifecycle\<close>, \<open>Life_Facts\<close>, \<open>Services\<close> (\<^verbatim>\<open>PCNet.cpp\<close>).
  \<^item> \<open>Frames\<close> says what the packet operations leave alone; \<open>System\<close> makes the entry points a
    transition system and proves its invariant; \<open>Fixtures\<close> holds the concrete states of the
    witnesses.
  \<^item> \<open>Debugger\<close> (the KDB_SUPPORT parts of \<^verbatim>\<open>PCNet.cpp\<close> and \<^verbatim>\<open>PCNet_Private.cpp\<close>): the kernel debugger as
    a second client, whose steps extend those of \<open>System\<close>, and its lock. \<open>Dump\<close> (\<open>lnc_dump_state\<close> of
    \<^verbatim>\<open>PCNet_lnc.cpp\<close>) and \<open>Fbsd_Dump\<close> (the two dumps of \<^verbatim>\<open>if_lnc.c\<close>): the output of the DEBUG builds as
    lists of lines.
  \<^item> \<open>Sanos\<close> (\<^verbatim>\<open>pcnet32-sanos.c\<close>) with its lemmas in \<open>Sanos_Facts\<close> (port access, accounts of the
    transmit ring), \<open>Sanos_Rx\<close> (the receive loop), \<open>Sanos_System\<close> (\<open>install\<close>, entry points and
    reachable states) and the witnesses' states in \<open>Sanos_Fixtures\<close>. It shares the events, the
    environment, the register constants and the ring lemmas of the driver.
  \<^item> \<open>Fbsd\<close> and \<open>Fbsd_Net\<close> (\<^verbatim>\<open>if_lnc.c\<close>, \<^verbatim>\<open>if_lnc_pci.c\<close> and their headers): the first the constants, the
    softc, mbufs and the small operations, the second initialisation, output, the interrupts, the
    interface calls and the attachment. Their lemmas: \<open>Fbsd_Facts\<close> (the memory layout, attachment
    and detachment, the filter), \<open>Fbsd_Init\<close> (what the chip finds after \<open>lnc_init\<close>), \<open>Fbsd_Send\<close> (mbuf chains and
    the output loop), \<open>Fbsd_Reclaim\<close> (the ring's invariant and the transmit interrupt), \<open>Fbsd_Rx\<close> (a
    packet received into mbufs, and the receive interrupt over a run of them); the witnesses' states in
    \<open>Fbsd_Fixtures\<close>. The operations take a record \<open>bsd\<close> of what the driver uses of its kernel: mbuf allocation, \<^verbatim>\<open>kvtop\<close>, the CRC, header
    constants.
  \<^item> \<open>Linux\<close>, \<open>Linux_Dev\<close> and \<open>Linux_Probe\<close> (\<^verbatim>\<open>pcnet32-linux.c\<close>): the rings, output, interrupts and
    restart; open, close, statistics, filter, MII, ethtool services; probing and the module. Their
    lemmas: \<open>Slots\<close> (a ring of slots addressed by 32-bit counters), \<open>Linux_Facts\<close> (the transmit ring),
    \<open>Linux_Rx\<close> (restart, the account of socket buffers), \<open>Linux_System\<close> (the handlers as steps, runs of
    an open device), \<open>Linux_Open\<close> (open and close), \<open>Linux_Queue\<close> (the ring as a queue), \<open>Linux_Deliver\<close>
    (the frames delivered), \<open>Linux_Loopback\<close> (the loopback test and the packets it leaves behind),
    \<open>Linux_Services\<close> (register access, LEDs, filter), \<open>Linux_Probe_Facts\<close> (kernel calls of a probe); the witnesses' states in \<open>Linux_Fixtures\<close>. The operations take a record
    \<open>lk\<close> of what the driver uses of its kernel: socket buffers, mappings, the MII library, the answers
    to the probe functions, the module's parameters.
  \<^item> \<open>Power_State\<close> (\<^verbatim>\<open>WiFiPower.cpp\<close>): registration, the requests, the threads that make a change
    through the command gate, all of them interleaved by a scheduler, and the account of references
    and acknowledgements.

  The interfaces are locales, interpreted on the model: \<open>reg_access\<close> (numbered registers) for the
  BCRs and the CSRs of the Darwin driver and the access table of the Linux driver, \<open>hash_filter\<close> for
  the multicast filters, \<open>fifo\<close> and its extensions \<open>bounded_fifo\<close> (\<open>Tx_Queue\<close>) and \<open>logged_fifo\<close>
  (\<open>Linux_Queue\<close>) for the transmit rings, and \<open>lnc_frame\<close> (\<open>Frames\<close>: a view of the state that no event of
  the packet operations changes, and so none of the operations) for the members outside the packet
  layer and, through \<open>lock_view\<close> (\<open>Debugger\<close>), for the debugger's lock.

  What is assumed of the world, where a theorem needs it: \<open>register_file\<close> (storage registers read
  back), \<open>tx_chip\<close> (the chip writes only transmit descriptors it owns, and never transmit
  buffers), \<open>quiet_chip\<close> (no DMA during the call), \<open>prom_holds\<close> (the address PROM shows the same
  bytes to both access widths), \<open>super_keeps\<close> (the superclass does not touch the private members),
  \<open>linearize_ok\<close> (\<^verbatim>\<open>pbuf_linearize\<close> of the Sanos stack returns null or one buffer with the whole
  packet), \<open>meanwhile_dpc\<close> (while a thread waits, at most the deferred handler runs),
  \<open>fb_pkt_outside\<close> (a queued packet is a finite chain of mbufs, fits a transmit buffer, and its data
  lie outside the ring memory), \<open>mb_supply\<close> (there are always new mbufs: empty, apart from each other
  and from the receive buffers, and two of them hold a packet), that the FreeBSD kernel's
  \<^verbatim>\<open>ether_crc32_le\<close> is the port's; for the Linux driver \<open>keeps_buffers\<close> (the chip never writes a descriptor's buffer address), \<open>mii_ok\<close> (the
  MII library works through the two register functions), \<open>lx_sendable\<close> (the bus address of a packet
  is not 0), \<open>rx_room\<close> (new buffers are empty and do not overlap those of the ring), \<open>stores_bcrs\<close>
  (the LED registers read back what was written); \<open>calls_honest\<close> (\<^verbatim>\<open>thread_call_enter\<close> answers
  whether the call was pending).

  Bounds and fuel. The loops of the code that are bounded are recursions on the bound: 100 polls of
  the initialisation flag, 16 frames per receive interrupt, \<open>lk_max_work\<close> rounds per interrupt, 200
  milliseconds per descriptor in the loopback test; none of them needs more than the code allows.
  The loopback test is not one of the steps of \<open>lx_run\<close>, since it leaves its packets behind in the ring
  (\<open>Linux_Loopback\<close>).

  Not modelled: the checks and counters of DEBUG, DIAGNOSTIC and LNCSTATS builds (the dumps of DEBUG builds
  are), which the normal build leaves out; in \<open>Debugger\<close> the polled send and receive do nothing, since
  their bodies are comments; logging; the tables of driver methods and PCI identifiers, and the
  strings of \<^verbatim>\<open>pcnet32_get_drvinfo\<close>, which hold no logic; what
  \<^verbatim>\<open>initHardware\<close> and \<^verbatim>\<open>getReadyForSleep\<close> of the power management sample do, which is in files
  that are not here; constants that nothing refers to; scripts, project files and documentation. The
  initialization block is a variable of the driver rather than bytes of the shared memory: no code
  but the dumps reads it back.
\<close>

unbundle bit_operations_syntax

section \<open>Transmission\<close>



text \<open>C2: With a controller that leaves the descriptors alone during the interrupt and no
  underflow, one transmit interrupt takes out exactly the packets the controller has released:
  the first one, and those after it up to the first descriptor still owned by the chip.\<close>

theorem transmit_interrupt_exact:
  assumes "quiet_dma E" "tx_inv E s" "0 < pending_transmits s" "no_underflow s"
  shows "\<exists>t. lnc_tint E r s = Some (True, t) \<and>
     tx_queue t = drop (Suc (length (takeWhile (\<lambda>j. \<not> has (mds_status (tx_md s j)) TMD_OWN) (tl (tx_slots s)))))
                    (tx_queue s)"
  using lnc_tint_released[OF assms, of r] by (simp add: released_def)

lemma transmit_interrupt_exact_witness: "\<exists>t. lnc_tint quiet_env False (sent quiet_env) = Some (True, t) \<and> tx_queue t = []"
  using transmit_interrupt_exact[of quiet_env "sent quiet_env" False]
  by (simp add: quiet_chip_dma sent_inv sent_no_underflow)

text \<open>C3: A packet that fits a buffer is refused exactly when the ring is full, and then
  nothing changes; otherwise its bytes are appended to the queue.\<close>

theorem output_packet_outcome:
  assumes "tx_inv E s" "pkt_ok pkt"
  shows "(if pending_transmits s = int (LNC_NDESC (ntdre s))
          then lnc_output_packet E pkt s = (kIOReturnOutputStall, s)
          else \<exists>t. lnc_output_packet E pkt s = (kIOReturnOutputSuccess, t) \<and> tx_inv E t \<and>
                 tx_queue t = tx_queue s @ [concat (mbuf_datas pkt)] \<and>
                 pending_transmits t = pending_transmits s + 1)"
proof (cases "pending_transmits s = int (LNC_NDESC (ntdre s))")
  case True
  then show ?thesis by (simp add: output_full)
next
  case False
  with assms(1) have "pending_transmits s < int (LNC_NDESC (ntdre s))" by (simp add: tx_inv_def)
  from output_ok[OF assms(1) this assms(2)] False show ?thesis
    by (cases "lnc_output_packet E pkt s") (simp add: pkt_bytes_def)
qed

lemma output_packet_outcome_witness:
  "\<exists>t. lnc_output_packet quiet_env two_parts (rings 1) = (kIOReturnOutputSuccess, t) \<and> tx_queue t = [[1, 2, 3]]"
  using output_packet_outcome[of quiet_env "rings 1" two_parts] rings_tx_inv[of quiet_env 1]
  by (auto simp: LNC_NDESC_def two_parts_def[THEN arg_cong, of mbuf_datas])

text \<open>C4: On an empty ring the transmit interrupt handler never returns: no descriptor has a
  delimiter, an error or an owner, and the search for the end of the packet goes around
  forever.\<close>

theorem transmit_interrupt_idle_hangs:
  assumes "tx_inv E s" "pending_transmits s = 0"
  shows "lnc_tint E r s = None"
  using assms by (rule lnc_tint_idle)

lemma transmit_interrupt_idle_hangs_witness: "lnc_tint quiet_env False (rings 1) = None"
  by (rule transmit_interrupt_idle_hangs) (simp_all add: rings_tx_inv)

text \<open>A reset of the controller loses the packets in the ring and re-establishes its
  invariant.\<close>

theorem reset_empties_ring:
  assumes "tx_inv E s"
  shows "tx_inv E (lnc_reset E s) \<and> tx_queue (lnc_reset E s) = []"
  using assms by (intro tx_geom_reset tx_inv_geom)

lemma reset_empties_ring_witness:
  "tx_queue (sent quiet_env) \<noteq> [] \<and> tx_inv quiet_env (lnc_reset quiet_env (sent quiet_env)) \<and>
   tx_queue (lnc_reset quiet_env (sent quiet_env)) = []"
  using reset_empties_ring[of quiet_env "sent quiet_env"] by (simp add: sent_inv)

section \<open>Reception\<close>

text \<open>C5: With buffers available and a controller that leaves memory alone during the
  interrupt, the receive interrupt delivers to the network stack, in ring order, the bytes of
  all packets of the filled descriptors that the driver did not send itself; it returns those
  descriptors to the chip, and stops behind them.\<close>

theorem receive_interrupt_delivers:
  assumes "quiet_chip E" "\<forall>h. os_ok E h"
    and "ring_geom s" "recv_next s < LNC_NDESC (nrdre s)" "1 < LNC_NDESC (nrdre s)" "m \<le> LNC_NDESC (nrdre s)"
      "\<forall>l<m. rx_filled s ((recv_next s + l) mod LNC_NDESC (nrdre s))"
      "m < LNC_NDESC (nrdre s) \<Longrightarrow>
         \<not> has (mds_status (rx_md s ((recv_next s + m) mod LNC_NDESC (nrdre s)))) RMD_STP"
  shows "\<exists>q t. lnc_rint E queued s = Some (q, t) \<and>
     delivered (trace t) = delivered (trace s) @
       filter (\<lambda>p. take 6 (drop 6 p) \<noteq> ib_phys_addr (init_block s)) (map (payload_at s) (rx_slots s m)) \<and>
     recv_next t = (recv_next s + m) mod LNC_NDESC (nrdre s) \<and>
     (\<forall>j\<in>set (rx_slots s m). mds_status (rx_md t j) = RMD_OWN)"
  using lnc_rint_filled[OF assms, of queued] by (simp add: own_source_def)

lemma receive_interrupt_delivers_witness:
  "\<exists>q t. lnc_rint quiet_env False (rx_state 1 (RMD_STP OR RMD_ENP) 64 RMD_OWN 0) = Some (q, t) \<and> recv_next t = 1"
  using receive_interrupt_delivers[of quiet_env "rx_state 1 (RMD_STP OR RMD_ENP) 64 RMD_OWN 0" 1 False]
    rx_state_facts[of 1 "RMD_STP OR RMD_ENP" 64 RMD_OWN 0] rx_state_filled[of 1 "RMD_STP OR RMD_ENP" RMD_OWN 0]
  by (auto simp: LNC_NDESC_def has_def hw_consts)

text \<open>C6: A good packet that spans \<open>n\<close> descriptors is copied, byte for byte across them, into
  one buffer, and handed to the stack unless its source is the driver's own address; all its
  descriptors are returned to the chip and \<open>recv_next\<close> moves past them.\<close>

theorem receive_packet_copied:
  fixes E :: env and s :: pcnet and n :: nat
  assumes "rx_chain s n" "\<not> has (mds_status (rx_last s n)) RMD_ERR" "os_ok E (trace s)" "fits s n"
  defines "len \<equiv> unat (rint_pkt_len (rx_last s n))"
  defines "u \<equiv> emit E (AllocPacket (rint_pkt_len (rx_last s n)))
                 (s\<lparr>recv_next := (recv_next s + n) mod LNC_NDESC (nrdre s)\<rparr>)"
  defines "pkt \<equiv> map (rx_byte u (recv_next s)) [0..<len]"
    and "v \<equiv> fold return_rx_md (cyc_seg (LNC_NDESC (nrdre s)) (recv_next s) n) u"
  shows "rint_packet E lookahead q (mds_status (rx_md s (recv_next s))) s = Some (
    if take 6 (drop 6 pkt) = ib_phys_addr (init_block s) then RintNext q (emit E FreePacket v)
    else RintNext True (BUMP_NET_COUNTER inputPackets_update (emit E (InputPacket pkt) v)))"
  unfolding len_def u_def pkt_def v_def
  using rint_packet_good[OF assms(1-4), of lookahead q] by (simp only: rx_past_def rx_slots_def)

lemma receive_packet_copied_witness:
  "\<exists>out. rint_packet quiet_env 0 False (mds_status (rx_md (rx_state 2 RMD_STP 0 RMD_ENP 2000) 0))
            (rx_state 2 RMD_STP 0 RMD_ENP 2000) = Some out"
proof -
  let ?s = "rx_state 2 RMD_STP 0 RMD_ENP 2000"
  have l: "rx_last ?s 2 = rx_md ?s 1" and c: "rx_chain ?s 2"
    using rx_state_chain[of RMD_STP RMD_ENP 0] by simp_all
  have m: "mds_misc (rx_last ?s 2) = 2000" "mds_status (rx_last ?s 2) = RMD_ENP" "recv_next ?s = 0"
    unfolding l using rx_state_facts[of 2 RMD_STP 0 RMD_ENP 2000] by simp_all
  then have "fits ?s 2" by (simp add: fits_def rint_pkt_len_unat Let_def hw_consts)
  moreover have "\<not> has (mds_status (rx_last ?s 2)) RMD_ERR" using m by (simp add: has_def hw_consts)
  ultimately show ?thesis using receive_packet_copied[OF c, of quiet_env 0 False] m(3) by auto
qed

text \<open>A packet with an error is counted and dropped: nothing is delivered, the free
  descriptors go back to the chip.\<close>

theorem receive_error_dropped:
  assumes "rx_chain s n" "has (mds_status (rx_last s n)) RMD_ERR"
  shows "rint_packet E lookahead q (mds_status (rx_md s (recv_next s))) s =
    Some (RintNext q (fold return_rx_md (cyc_seg (LNC_NDESC (nrdre s)) (recv_next s) n)
       (rint_error_counts (mds_status (rx_last s n))
          (s\<lparr>recv_next := (recv_next s + n) mod LNC_NDESC (nrdre s)\<rparr>))))"
  using rint_packet_error[OF assms, of E lookahead q] by (simp only: rx_past_def rx_slots_def)

lemma receive_error_dropped_witness:
  "\<exists>t. rint_packet quiet_env 0 False (mds_status (rx_md (rx_state 2 RMD_STP 0 (RMD_ENP OR RMD_ERR) 2000) 0))
            (rx_state 2 RMD_STP 0 (RMD_ENP OR RMD_ERR) 2000) = Some (RintNext False t)"
proof -
  let ?s = "rx_state 2 RMD_STP 0 (RMD_ENP OR RMD_ERR) 2000"
  have "rx_chain ?s 2" "rx_last ?s 2 = rx_md ?s 1"
    using rx_state_chain[of RMD_STP "RMD_ENP OR RMD_ERR" RMD_ERR] by (simp_all add: has_def hw_consts)
  moreover have "mds_status (rx_md ?s 1) = RMD_ENP OR RMD_ERR" "recv_next ?s = 0"
    using rx_state_facts[of 2 RMD_STP 0 "RMD_ENP OR RMD_ERR" 2000] by simp_all
  ultimately show ?thesis using receive_error_dropped[of ?s 2 quiet_env 0 False]
    by (auto simp: has_def hw_consts)
qed

text \<open>When no buffer can be allocated, the good packet is skipped, but its descriptors
  are not returned to the chip: the shared memory is as the allocation left it.\<close>

theorem receive_no_buffer_keeps_descriptors:
  assumes "rx_chain s n" "\<not> has (mds_status (rx_last s n)) RMD_ERR" "\<not> os_ok E (trace s)"
  shows "\<exists>t. rint_packet E lookahead q (mds_status (rx_md s (recv_next s))) s = Some (RintNext q t) \<and>
     mem t = dma E (AllocPacket (rint_pkt_len (rx_last s n)) # trace s) (mem s) \<and>
     recv_next t = (recv_next s + n) mod LNC_NDESC (nrdre s) \<and>
     rx_resourceErrors (etherStats t) = rx_resourceErrors (etherStats s) + 1"
  using rint_packet_no_buffer[OF assms, of lookahead q]
  by (simp add: BUMP_ETHER_COUNTER_def emit_mem) (simp add: rx_past_def)

lemma receive_no_buffer_keeps_descriptors_witness:
  "\<exists>t. rint_packet no_mem_env 0 False (mds_status (rx_md (rx_state 2 RMD_STP 0 RMD_ENP 2000) 0))
            (rx_state 2 RMD_STP 0 RMD_ENP 2000) = Some (RintNext False t) \<and>
     mem t = mem (rx_state 2 RMD_STP 0 RMD_ENP 2000)"
proof -
  let ?s = "rx_state 2 RMD_STP 0 RMD_ENP 2000"
  have "rx_chain ?s 2" "rx_last ?s 2 = rx_md ?s 1" using rx_state_chain[of RMD_STP RMD_ENP 0] by simp_all
  moreover have "mds_status (rx_md ?s 1) = RMD_ENP" "recv_next ?s = 0"
    using rx_state_facts[of 2 RMD_STP 0 RMD_ENP 2000] by simp_all
  ultimately show ?thesis using receive_no_buffer_keeps_descriptors[of ?s 2 no_mem_env 0 False]
    by (auto simp: has_def hw_consts)
qed

text \<open>With every descriptor filled and no buffer to be had, the receive interrupt
  handler never returns.\<close>

theorem receive_out_of_buffers_hangs:
  assumes "quiet_chip E" "\<forall>h. \<not> os_ok E h"
    and "ring_geom s" "recv_next s < LNC_NDESC (nrdre s)" "1 < LNC_NDESC (nrdre s)"
    and "\<forall>j<LNC_NDESC (nrdre s). rx_filled s j"
  shows "lnc_rint E queued s = None"
  using rint_loop_stuck[OF assms(1,2), of s 0 queued] assms(3-6) by (simp add: lnc_rint_def rx_stuck_def)

lemma receive_out_of_buffers_hangs_witness:
  "lnc_rint no_mem_env False (rx_state 1 (RMD_STP OR RMD_ENP) 64 (RMD_STP OR RMD_ENP) 64) = None"
  using rx_state_stuck[of "RMD_STP OR RMD_ENP"]
  by (intro receive_out_of_buffers_hangs) (simp_all add: rx_stuck_def)

text \<open>The packet length is the low twelve bits of the message length less the checksum;
  below four it wraps around to almost 64 K.\<close>

theorem receive_length_wraps:
  "unat (rint_pkt_len d) =
     (let m = unat (mds_misc d AND 0xFFF) in if m < 4 then m + 65532 else m - 4)"
  using rint_pkt_len_unat[of d] by (simp add: MDHEAD_LEN_MASK_def)

text \<open>\<open>mbuf_packet\<close> fills exactly the first \<open>min (pkt_len, n * LNC_RECVBUFSIZE)\<close> bytes
  of the new buffer, from the \<open>n\<close> descriptors up to \<open>recv_next\<close>, and no byte beyond.\<close>

theorem mbuf_packet_bytes:
  fixes l :: u16
  assumes "os_ok E (trace s)" "sop < LNC_NDESC (nrdre s)" "recv_next s < LNC_NDESC (nrdre s)"
  defines "n \<equiv> cyc_dist (LNC_NDESC (nrdre s)) sop (recv_next s)"
    and "u \<equiv> emit E (AllocPacket l) s"
  shows "\<exists>buf. mbuf_packet E sop l s
        = Some (Some buf, fold return_rx_md (cyc_seg (LNC_NDESC (nrdre s)) sop n) u) \<and>
     (\<forall>k. buf k = (if k < min (unat l) (LNC_RECVBUFSIZE * n) then rx_byte u sop k else fresh E (trace s) k))"
proof -
  obtain buf where b: "mbuf_packet E sop l s
        = Some (Some buf, fold return_rx_md (cyc_seg (LNC_NDESC (nrdre s)) sop n) u)"
      "\<forall>k<min (unat l) (LNC_RECVBUFSIZE * n). buf k = rx_byte u sop k"
      "\<forall>k\<ge>min (unat l) (LNC_RECVBUFSIZE * n). buf k = fresh E (trace s) k"
    using mbuf_packet_copy[OF assms(1-3), of l] unfolding n_def u_def by blast
  then show ?thesis by (intro exI[of _ buf]) (simp add: not_less)
qed

lemma mbuf_packet_bytes_witness:
  "\<exists>buf t. mbuf_packet quiet_env 0 10 ((rx_state 1 (RMD_STP OR RMD_ENP) 64 RMD_OWN 0)\<lparr>recv_next := 1\<rparr>)
     = Some (Some buf, t)"
  using mbuf_packet_bytes[of quiet_env "(rx_state 1 (RMD_STP OR RMD_ENP) 64 RMD_OWN 0)\<lparr>recv_next := 1\<rparr>" 0 10]
    rx_state_facts[of 1 "RMD_STP OR RMD_ENP" 64 RMD_OWN 0]
  by (auto simp: LNC_NDESC_def)

section \<open>The interrupt handler\<close>

text \<open>C7: A transmit interrupt with packets in the ring is served: when the chip shows no
  further cause after it, the handler returns, with a non-empty prefix of the queue taken out.\<close>

theorem interrupt_transmit_served:
  assumes "tx_inv E s" "0 < pending_transmits s"
    and "has (intr_cause E s) CSR_INTR" "has (intr_cause E s) CSR_TINT"
      "\<not> has (intr_cause E s) CSR_ERR" "\<not> has (intr_cause E s) CSR_RINT"
    and "\<And>r t. lnc_tint E sq (intr_acked E s) = Some (r, t) \<Longrightarrow> \<not> has (fst (read_csr E CSR t)) CSR_INTR"
  shows "\<exists>sq' t k. lnc_intr E fq sq s = Some (fq, sq', t) \<and> tx_inv E t \<and>
     1 \<le> k \<and> k \<le> length (tx_queue s) \<and> tx_queue t = drop k (tx_queue s)"
  using assms by (rule lnc_intr_tint)

lemma interrupt_transmit_served_witness:
  "\<exists>E sq' t. lnc_intr E False False (sent E) = Some (False, sq', t) \<and> tx_queue t = []"
proof -
  let ?c = "CSR_INTR OR CSR_TINT"
  let ?h = "[Out16 PCNET32_WIO_RDP (CSR_TDMD OR CSR_IENA), Out16 PCNET32_WIO_RAP CSR]"
  let ?E = "intr_env ?c ?h"
  have dw: "\<not> dwio (tx_put two_parts (rings 1))" by (simp add: tx_put_def mbuf_to_buffer_def Let_def)
  have s: "tx_inv ?E (sent ?E)" "pending_transmits (sent ?E) = 1" "trace (sent ?E) = ?h" "\<not> dwio (sent ?E)"
    "tx_queue (sent ?E) = [[1, 2, 3]]"
    using sent_inv[of ?E] sent_md[of ?E] dw by (simp_all add: write_csr_def csrWrite16_def)
  have c: "intr_cause ?E (sent ?E) = ?c" by (rule intr_env_cause) (simp_all add: s)
  have a: "tx_inv ?E (intr_acked ?E (sent ?E))" by (rule tx_inv_evolves[OF evolves_intr_acked s(1)])
  have nu: "no_underflow (intr_acked ?E (sent ?E))"
    using sent_no_underflow[of ?E] by (simp add: no_underflow_def quiet_acked)
  have calm: "lnc_tint ?E False (intr_acked ?E (sent ?E)) = Some (r, t) \<Longrightarrow> \<not> has (fst (read_csr ?E CSR t)) CSR_INTR"
    for r t by (rule tint_then_calm[OF a _ nu]) (simp_all add: quiet_acked s)
  have k: "has (intr_cause ?E (sent ?E)) CSR_INTR" "has (intr_cause ?E (sent ?E)) CSR_TINT"
    "\<not> has (intr_cause ?E (sent ?E)) CSR_ERR" "\<not> has (intr_cause ?E (sent ?E)) CSR_RINT"
    unfolding c by (simp_all add: has_def hw_consts)
  have "0 < pending_transmits (sent ?E)" using s by simp
  then have "\<exists>sq' t j. lnc_intr ?E False False (sent ?E) = Some (False, sq', t) \<and> tx_inv ?E t \<and>
      1 \<le> j \<and> j \<le> length (tx_queue (sent ?E)) \<and> tx_queue t = drop j (tx_queue (sent ?E))"
    by (rule interrupt_transmit_served[OF s(1) _ k]) (rule calm)
  then show ?thesis using s(5) by - (rule exI[of _ ?E], auto)
qed

text \<open>When a reset inside the receive part of an interrupt is followed by the transmit
  cause of the same status word, the handler never returns: the reset has emptied the ring.\<close>

theorem interrupt_reset_then_transmit_hangs:
  assumes "tx_inv E s"
    and "has (intr_cause E s) CSR_INTR" "has (intr_cause E s) CSR_RINT" "has (intr_cause E s) CSR_TINT"
      "\<not> has (intr_cause E s) CSR_ERR"
    and "has (mds_status (rx_md (intr_acked E s) (recv_next s))) RMD_STP"
      "\<not> has (mds_status (rx_md (intr_acked E s) (recv_next s))) (RMD_ENP OR RMD_ERR)"
      "has (mds_status (rx_md (intr_acked E s) (Suc (recv_next s) mod LNC_NDESC (nrdre s)))) RMD_STP"
  shows "lnc_intr E fq sq s = None"
proof -
  have "recv_next (intr_acked E s) = recv_next s" "nrdre (intr_acked E s) = nrdre s"
    using same_vars_sel[OF evolves_same_vars[OF evolves_intr_acked[of E s]]] by simp_all
  with assms(6-8) have "rx_torn (intr_acked E s)" by (simp add: rx_torn_def)
  with assms(1-5) show ?thesis by (intro lnc_intr_hang)
qed

lemma interrupt_reset_then_transmit_hangs_witness:
  "lnc_intr (intr_env (CSR_INTR OR CSR_RINT OR CSR_TINT) []) False False (rx_state 1 RMD_STP 0 RMD_STP 0) = None"
proof -
  let ?c = "CSR_INTR OR CSR_RINT OR CSR_TINT"
  let ?E = "intr_env ?c []" and ?s = "rx_state 1 RMD_STP 0 RMD_STP 0"
  note f = rx_state_facts[of 1 RMD_STP 0 RMD_STP 0]
  have "\<not> dwio ?s" by (simp add: rx_state_def)
  then have c: "intr_cause ?E ?s = ?c" using f by (intro intr_env_cause) simp_all
  have k: "has ?c CSR_INTR" "has ?c CSR_RINT" "has ?c CSR_TINT" "\<not> has ?c CSR_ERR"
    "has RMD_STP RMD_STP" "\<not> has RMD_STP (RMD_ENP OR RMD_ERR)"
    by (simp_all add: has_def hw_consts)
  show ?thesis
    by (rule interrupt_reset_then_transmit_hangs)
      (use f k in \<open>simp_all add: c quiet_acked rx_state_tx_inv LNC_NDESC_def del: One_nat_def\<close>)
qed



section \<open>Life cycle\<close>

text \<open>C9: From a successful \<open>start\<close> on, after any sequence of the entry points IOKit calls,
  the adapter is fully on, at level 2, with interrupts on, when the interface is enabled, and off, at
  level 0, with interrupts off, otherwise: it never rests between; while it is on the transmit ring
  satisfies its invariant.\<close>

theorem reachable_states_sound:
  assumes "start E super_start s = (True, t)" "super_keeps super_start"
    and "currentLevel s = kActivationLevel0" "\<not> enabledByBSD s" "\<not> enabledByKDP s"
    and "tx_chip E (trans_ring (carve_rings t))" "reachable E t u"
  shows "currentLevel u = (if enabledByBSD u then kActivationLevel2 else kActivationLevel0) \<and>
     (interruptEnabled u \<longleftrightarrow> enabledByBSD u) \<and> (currentLevel u \<noteq> kActivationLevel0 \<longrightarrow> tx_inv E u)"
proof -
  have "sys_inv E u" using assms(7) sys_inv_started[OF assms(1-6)] by (rule sys_inv_reachable)
  then show ?thesis by (auto simp: sys_inv_def client_inv_def client_level_def level_inv_def)
qed

lemma reachable_states_sound_witness:
  "\<exists>t u. start quiet_env (\<lambda>s. (True, s)) (blank 5) = (True, t) \<and> drv_step quiet_env Timeout t u \<and>
     (interruptEnabled u \<longleftrightarrow> enabledByBSD u)"
proof -
  obtain t where t: "start quiet_env (\<lambda>s. (True, s)) (blank 5) = (True, t)"
    using quiet_start by (metis prod.collapse)
  have u: "drv_step quiet_env Timeout t (handleTimeout quiet_env t)" by (rule step_timeout)
  have "reachable quiet_env t (handleTimeout quiet_env t)" by (rule reach_step[OF reach_start u])
  from reachable_states_sound[OF t _ _ _ _ _ this] t u show ?thesis
    by (auto simp: super_keeps_def quiet_tx_chip)
qed

text \<open>C10: With a kernel debugger as a second client (KDB_SUPPORT): from a successful \<open>start\<close> on, however the
  requests of the two clients, the interrupts and the other entry points follow each other, the activation level is the one the two
  clients need together, interrupts are on exactly for the network stack, and each request returns: a
  request to enable succeeds exactly when its client is then served, and a request to disable takes
  back its own client's need and leaves the other's as it was.\<close>

theorem kdb_clients_served:
  assumes "kdb_start E super_start d = (True, d')" "super_keeps super_start"
    and "currentLevel (kdb_self d) = kActivationLevel0" "\<not> enabledByBSD (kdb_self d)" "\<not> enabledByKDP (kdb_self d)"
    and "tx_chip E (trans_ring (carve_rings (kdb_self d')))" "kdb_reachable E (kdb_self d') t"
  shows "currentLevel t = (if enabledByBSD t then kActivationLevel2 else if enabledByKDP t then kActivationLevel1 else kActivationLevel0) \<and>
     (interruptEnabled t \<longleftrightarrow> enabledByBSD t) \<and>
     (\<exists>r u. kdb_enable E t = Some (r, u) \<and> (r = kIOReturnSuccess \<longleftrightarrow> enabledByKDP u) \<and> enabledByBSD u = enabledByBSD t \<and>
        (enabledByBSD t \<or> enabledByKDP t \<longrightarrow> r = kIOReturnSuccess)) \<and>
     (\<exists>u. kdb_disable E t = Some (kIOReturnSuccess, u) \<and> \<not> enabledByKDP u \<and> enabledByBSD u = enabledByBSD t \<and>
        currentLevel u = (if enabledByBSD t then kActivationLevel2 else kActivationLevel0)) \<and>
     (\<exists>r u. enable E t = Some (r, u) \<and> (r = kIOReturnSuccess \<longleftrightarrow> enabledByBSD u) \<and> enabledByKDP u = enabledByKDP t) \<and>
     (\<exists>u. disable E t = Some (kIOReturnSuccess, u) \<and> \<not> enabledByBSD u \<and> enabledByKDP u = enabledByKDP t \<and>
        currentLevel u = (if enabledByKDP t then kActivationLevel1 else kActivationLevel0))"
proof -
  have c: "client_inv E t" using assms(7) kdb_started[OF assms(1-6)] by (rule kdb_reachable_client)
  note f = client_inv_def client_level_def
  have "currentLevel t = client_level (enabledByBSD t) (enabledByKDP t)" "interruptEnabled t \<longleftrightarrow> enabledByBSD t"
    using c by (auto simp: client_inv_def level_inv_def)
  moreover have "\<exists>u. kdb_disable E t = Some (kIOReturnSuccess, u) \<and> \<not> enabledByKDP u \<and> enabledByBSD u = enabledByBSD t \<and>
      currentLevel u = (if enabledByBSD t then kActivationLevel2 else kActivationLevel0)"
    using kdb_disable_client[OF c] by (auto simp: f)
  moreover have "\<exists>u. disable E t = Some (kIOReturnSuccess, u) \<and> \<not> enabledByBSD u \<and> enabledByKDP u = enabledByKDP t \<and>
      currentLevel u = (if enabledByKDP t then kActivationLevel1 else kActivationLevel0)"
    using client_disable[OF c] by (auto simp: f)
  ultimately show ?thesis
    using kdb_enable_client[OF c] client_enable[OF c] unfolding client_level_def by blast
qed

lemma kdb_clients_served_witness:
  "\<exists>d r t. kdb_start quiet_env (\<lambda>s. (True, s)) \<lparr>kdb_self = blank 5, debugger = False\<rparr> = (True, d) \<and>
     kdb_step quiet_env KdbEnable (kdb_self d) t \<and> kdb_enable quiet_env (kdb_self d) = Some (r, t) \<and>
     (interruptEnabled t \<longleftrightarrow> enabledByBSD t) \<and>
     currentLevel t = (if enabledByBSD t then kActivationLevel2 else if enabledByKDP t then kActivationLevel1 else kActivationLevel0)"
proof -
  let ?o = "\<lparr>kdb_self = blank 5, debugger = False\<rparr>"
  have "fst (kdb_start quiet_env (\<lambda>s. (True, s)) ?o)"
    using quiet_probe by (simp add: kdb_start_def quiet_os_call Let_def split_def)
  then obtain d where d: "kdb_start quiet_env (\<lambda>s. (True, s)) ?o = (True, d)" by (metis prod.collapse)
  have k: "super_keeps (\<lambda>s. (True, s))" by (simp add: super_keeps_def)
  note at = kdb_clients_served[OF d k _ _ _ quiet_tx_chip[OF quiet_env_facts(1)]]
  obtain r t where t: "kdb_enable quiet_env (kdb_self d) = Some (r, t)"
    using at[OF _ _ _ kdb_reach_start] by auto
  have u: "kdb_step quiet_env KdbEnable (kdb_self d) t" using t by (rule kdb_on)
  from at[OF _ _ _ kdb_reach_step[OF kdb_reach_start u]] d t u show ?thesis by auto
qed



text \<open>\<open>setActivationLevel\<close> always returns; it reports success exactly when the adapter is
  at the level asked for, which it always is when going down, and leaves the adapter in a
  sound state at the level reached.\<close>

theorem activation_level_reached:
  assumes "level_inv E s" "l \<in> {kActivationLevel0, kActivationLevel1, kActivationLevel2}"
  shows "\<exists>ok t. setActivationLevel E l s = Some (ok, t) \<and> level_inv E t \<and>
     (ok \<longleftrightarrow> currentLevel t = l) \<and> (l \<le> currentLevel s \<longrightarrow> ok) \<and>
     (interruptEnabled t \<longleftrightarrow> currentLevel t = kActivationLevel2)"
proof -
  obtain ok t where t: "setActivationLevel E l s = Some (ok, t)" "level_inv E t" "at_level (currentLevel t) s t"
      "ok \<longleftrightarrow> currentLevel t = l" "l \<le> currentLevel s \<longrightarrow> ok"
    using setActivationLevel_all[OF assms] by blast
  then show ?thesis using at_level_sel[OF t(3)] by blast
qed

lemma activation_level_reached_witness:
  "\<exists>ok t. setActivationLevel quiet_env kActivationLevel2 (blank 5) = Some (ok, t) \<and> level_inv quiet_env t"
  using activation_level_reached[of quiet_env "blank 5" kActivationLevel2] by (auto simp: blank_inv)

text \<open>\<open>enable\<close> always returns and succeeds exactly when the adapter is fully on;
  \<open>disable\<close> always returns, with the adapter off and interrupts disabled.\<close>

theorem enable_disable_sound:
  assumes "sys_inv E s"
  shows "(\<exists>r t. enable E s = Some (r, t) \<and> sys_inv E t \<and>
            (r = kIOReturnSuccess \<longleftrightarrow> currentLevel t = kActivationLevel2)) \<and>
     (\<exists>t. disable E s = Some (kIOReturnSuccess, t) \<and> sys_inv E t \<and> currentLevel t = kActivationLevel0 \<and>
            \<not> interruptEnabled t)"
  using sys_inv_enable[OF assms] sys_inv_disable[OF assms] by blast

lemma enable_disable_sound_witness:
  "\<exists>r t. enable quiet_env (blank 5) = Some (r, t) \<and> sys_inv quiet_env t"
  using enable_disable_sound[of quiet_env "blank 5"] by (auto simp: blank_inv)

text \<open>An \<open>enable\<close> that fails because no medium can be selected leaves the provider open,
  and \<open>disable\<close> does not close it: of the two, the only kernel call is the \<open>open\<close>.\<close>

theorem failed_enable_leaves_provider_open:
  assumes "currentLevel s = kActivationLevel0" "\<not> enabledByBSD s" "\<not> enabledByKDP s" "pciNub s"
    and "os_ok E (trace s)" "\<And>h. selectedMedium E h = None" "mediumTable s MEDIUM_INDEX_DEFAULT = None"
  shows "\<exists>t u. enable E s = Some (kIOReturnIOError, t) \<and> disable E t = Some (kIOReturnSuccess, u) \<and>
     kcalls (trace u) = ''open'' # kcalls (trace s)"
  using assms by (rule enable_leaves_open)

lemma failed_enable_leaves_provider_open_witness:
  "\<exists>t u. enable quiet_env (blank 5) = Some (kIOReturnIOError, t) \<and> disable quiet_env t = Some (kIOReturnSuccess, u) \<and>
     kcalls (trace u) = [''open'']"
  using failed_enable_leaves_provider_open[of "blank 5" quiet_env] by (simp add: quiet_env_def)

text \<open>\<open>free\<close> releases every object the driver holds, and the ring memory, exactly once.\<close>

theorem free_releases_all:
  assumes "memDescr s"
  shows "\<exists>t. free E s = Some t \<and> held t = 0 \<and> \<not> memDescr t \<and> recv_ring t = [] \<and> trans_ring t = [] \<and>
     releases t = releases s + held s + 1"
  using assms by (rule free_releases)

lemma free_releases_all_witness: "\<exists>t. free quiet_env (blank 5) = Some t \<and> releases t = 8"
proof -
  have "held (blank 5) = 7" "releases (blank 5) = 0" by (simp_all add: blank_def held_def releases_def)
  then show ?thesis using free_releases_all[of "blank 5" quiet_env] by auto
qed

text \<open>After a \<open>start\<close> that failed in the superclass, \<open>free\<close> calls through the null pointer
  of the ring memory that was never allocated.\<close>

theorem free_after_failed_start:
  assumes "\<not> fst (super_start s)" "\<not> pciNub (snd (super_start s))" "\<not> memDescr (snd (super_start s))"
  shows "\<exists>t. start E super_start s = (False, t) \<and> free E t = None"
  using start_super_fails[of super_start s E, OF assms] by blast

lemma free_after_failed_start_witness:
  "\<exists>t. start quiet_env (\<lambda>s. (False, s)) ((blank 5)\<lparr>pciNub := False, memDescr := False\<rparr>) = (False, t) \<and>
     free quiet_env t = None"
  by (rule free_after_failed_start) simp_all

section \<open>Memory and initialisation\<close>

text \<open>C12: The host rings, the initialization block, the descriptors and the buffers that
  \<open>lnc_init\<close> carves out of the block \<open>lnc_pci_attach\<close> allocates all lie inside the block, no
  two of them overlap, and the descriptors start on a 16-byte boundary as the chip requires.\<close>

theorem memory_layout_sound:
  assumes "lnc_mem_size (nrdre s) (ntdre s) \<le> 2 ^ 32"
  shows "(\<forall>x\<in>set (areas (carve_rings s)).
            area_bytes x \<subseteq> area_bytes (ring_base s, lnc_mem_size (nrdre s) (ntdre s))) \<and>
     (\<forall>j<length (areas (carve_rings s)). \<forall>i<j.
            area_bytes (areas (carve_rings s) ! i) \<inter> area_bytes (areas (carve_rings s) ! j) = {}) \<and>
     descriptors_at (ring_base s) (nrdre s) (ntdre s) AND 15 = 0"
  using areas_layout[OF assms] descriptors_aligned by blast

lemma memory_layout_sound_witness:
  "area_bytes (areas (carve_rings (blank 5)) ! 2) \<subseteq> area_bytes (0x1000, lnc_mem_size 5 5)"
proof -
  have "areas (carve_rings (blank 5)) ! 2 \<in> set (areas (carve_rings (blank 5)))"
    by (rule nth_mem) (simp add: areas_length LNC_NDESC_def)
  then show ?thesis using memory_layout_sound[of "blank 5"] mem_size_small[of 5] by auto
qed






text \<open>The driver ends up in 16-bit mode exactly when the stopped chip answers a 16-bit
  read of the status register and the RAP test; the test of the 32-bit mode, which repeats the
  16-bit one, never matters.\<close>

theorem port_width_detected:
  "dwio (detect_dwio E s) \<longleftrightarrow>
     \<not> (fst (read_csr_wio E 0 s) = 4 \<and> fst (pcnet32_check_wio E (snd (read_csr_wio E 0 s))))"
  by (rule detect_dwio_result)



section \<open>Media and filters\<close>

text \<open>The duplex mode set reads back.\<close>

theorem medium_reads_back:
  fixes s :: pcnet
  assumes "register_file E" "m = MEDIUM_INDEX_10_FD \<or> m = MEDIUM_INDEX_10_HD"
  shows "fst (lnc_get_medium E (snd (lnc_set_medium E m s))) = m"
  using assms by (rule set_medium_reads_back)

lemma medium_reads_back_witness:
  "fst (lnc_get_medium storage_env (snd (lnc_set_medium storage_env MEDIUM_INDEX_10_HD (blank 5)))) = MEDIUM_INDEX_10_HD"
  using storage_register_file by (rule medium_reads_back) simp

text \<open>After any (re)initialisation the chip is in full duplex; if half duplex was selected
  before, selecting it again reports success and does nothing.\<close>

theorem medium_stale_after_init:
  assumes "register_file E" "currentMediumIndex s = MEDIUM_INDEX_10_HD"
  shows "phySetMedium E MEDIUM_INDEX_10_HD (lnc_init E s) = (True, lnc_init E s) \<and>
     fst (lnc_get_medium E (lnc_init E s)) = MEDIUM_INDEX_10_FD"
  using assms by (rule medium_after_init)

lemma medium_stale_after_init_witness:
  "fst (lnc_get_medium storage_env (snd (phySetMedium storage_env MEDIUM_INDEX_10_HD (lnc_init storage_env (blank 5)))))
     = MEDIUM_INDEX_10_FD"
  using medium_stale_after_init[OF storage_register_file, of "blank 5"] by simp

text \<open>The periodic check reports the link to the kernel exactly when it differs from what
  was last reported (always when forced), with the status the chip shows, and remembers it.\<close>

theorem link_reported_on_change:
  "reports (trace (phyReportLinkStatus E force s)) = reports (trace s) @
     (if force \<or> link_index E s \<noteq> mediumIndexLastReported s then [link_status (link_index E s) s] else []) \<and>
   mediumIndexLastReported (phyReportLinkStatus E force s) = link_index E s"
  by (rule phyReportLinkStatus_reports)

lemma link_reported_on_change_witness:
  "reports (trace (phyReportLinkStatus quiet_env True (blank 5))) = [link_status (link_index quiet_env (blank 5)) (blank 5)]"
  using link_reported_on_change[of quiet_env True "blank 5"] by simp

text \<open>C16: The nibble-table checksum of the multicast code is the reflected CRC-32.\<close>

theorem crc_table_is_crc32:
  "ether_crc32_le buf = fold (\<lambda>b crc. (crc_bit ^^ 8) (crc XOR ucast b)) buf 0xffffffff"
  using crc32_table_eq_bitwise[of buf] by (simp add: crc32_bitwise_def)

text \<open>C17: The filter \<open>lnc_setladrf\<close> computes has exactly the hash bits of the addresses given.\<close>

theorem multicast_filter_exact:
  assumes "\<not> has (flags s) LNC_IFF_ALLMULTI" "j < 64"
  shows "bit (ladrb (lnc_setladrf (Some as) cnt s) ! (j div 8)) (j mod 8) \<longleftrightarrow>
     (\<exists>a\<in>set (take (unat cnt) as). unat (drop_bit 26 (ether_crc32_le (take ETHER_ADDR_LEN a))) = j)"
  using lnc_setladrf_bits[OF assms, of as cnt] by (simp add: ladrf_bit_def ladrf_hash_def ladrf_index_def)

lemma multicast_filter_exact_witness:
  "\<not> bit (ladrb (lnc_setladrf (Some []) 0 (blank 5)) ! 1) 2"
  using multicast_filter_exact[of "blank 5" 10 "[]" 0] by simp

text \<open>C18: What \<open>lnc_set_multicast\<close> writes to the chip does not depend on the addresses: it reads
  the eight-byte filter at the indices 16 to 23.\<close>

theorem multicast_filter_not_programmed:
  "trace (snd (setMulticastList E as m s)) = trace (snd (setMulticastList E bs n s)) \<and>
   trace (snd (setMulticastList E as m s)) = trace (snd (setMulticastMode E b s))"
  using lnc_set_multicast_trace[of E "Some as" m s "Some bs" n] lnc_set_multicast_trace[of E "Some as" m s None 0]
  by (simp add: setMulticastList_def setMulticastMode_def)

section \<open>Other services\<close>

text \<open>Promiscuous mode sets its bit in the mode word of the initialization block and in the
  interface flags; switching it off again restores the mode word.\<close>

theorem promiscuous_mode_round_trip:
  assumes "lnc_mem_size (nrdre s) (ntdre s) \<le> 2 ^ 32"
  shows "has (ib_mode (init_block (snd (setPromiscuousMode E True s)))) (ucast MODE_PROM) \<and>
     has (if_flags (snd (setPromiscuousMode E True s))) LNC_IFF_PROMISC \<and>
     ib_mode (init_block (snd (setPromiscuousMode E False (snd (setPromiscuousMode E True s)))))
       = ucast (nic_mode s AND NOT MODE_PROM)"
  using setPromiscuousMode_on[OF assms, of E] setPromiscuousMode_off_on[OF assms, of E] by blast

lemma promiscuous_mode_round_trip_witness:
  "has (if_flags (snd (setPromiscuousMode quiet_env True (blank 5)))) LNC_IFF_PROMISC"
  using promiscuous_mode_round_trip[of "blank 5" quiet_env] mem_size_small[of 5] by simp

text \<open>The address \<open>getHardwareAddress\<close> reads with 32-bit accesses and the one \<open>lnc_init\<close>
  puts into the initialization block with 8-bit accesses are both that of the PROM.\<close>

theorem hardware_address_consistent:
  fixes s :: pcnet
  assumes "prom_holds E adr"
  shows "fst (getHardwareAddress E s) = adr \<and> ib_phys_addr (init_block (lnc_init E s)) = adr"
  using getHardwareAddress_bytes[OF assms] lnc_init_phys_addr[OF assms] by simp

lemma hardware_address_consistent_witness:
  "fst (getHardwareAddress quiet_env (blank 5)) = [0, 0, 0, 0, 0, 0]"
  using hardware_address_consistent[OF quiet_prom, of "blank 5"] by simp

text \<open>\<open>lnc_down\<close> leaves the driver marked as running: its test looks at bit 0 of the
  driver flags, which is never the running flag.\<close>

theorem down_keeps_running:
  assumes "\<not> has (if_drv_flags s) 1"
  shows "if_drv_flags (lnc_down E s) = if_drv_flags s"
  using assms by (simp add: lnc_down_flags)

lemma down_keeps_running_witness:
  "has (if_drv_flags (lnc_down quiet_env ((blank 5)\<lparr>if_drv_flags := LNC_IFF_DRV_RUNNING\<rparr>))) LNC_IFF_DRV_RUNNING"
  using down_keeps_running[of "(blank 5)\<lparr>if_drv_flags := LNC_IFF_DRV_RUNNING\<rparr>" quiet_env]
  by (simp add: has_def hw_consts)

section \<open>The Sanos driver\<close>

text \<open>C19: In every state the Sanos driver reaches from a successful \<open>install\<close> by its entry points, with
  its deferred handler running while a thread waits, each transmit slot is either outstanding
  or counted by the semaphore, the slots from \<open>curr_tx\<close> on are the outstanding ones, and the
  cursors are inside their rings.\<close>

theorem sanos_states_sound:
  assumes "linearize_ok K" "sn_reachable E K s t"
  shows "size_tx t + sem_tx t = TX_RING_SIZE \<and> next_tx t = (curr_tx t + size_tx t) mod TX_RING_SIZE \<and>
     curr_tx t < TX_RING_SIZE \<and> next_rx t < RX_RING_SIZE \<and> length (rx_buffer t) = RX_RING_SIZE"
  using sn_reachable_ok[OF assms] by (simp add: sn_ok_def sn_tx_ok_def sn_rx_ok_def)

lemma sanos_states_sound_witness:
  "sn_reachable sanos_chip sanos_kernel sanos_blank sanos_sent \<and> size_tx sanos_sent = 1 \<and> sem_tx sanos_sent = 15"
  using sanos_states_sound[OF sanos_kernel_ok sanos_sent_reachable] sanos_sent_facts(2) sanos_sent_reachable
  by (simp add: TX_RING_SIZE_def)

text \<open>C20: After an \<open>install\<close> that registers the device, on a chip that leaves memory alone, every
  receive descriptor is the chip's, with the address of its slot's buffer and the buffer
  length, every transmit descriptor is the driver's, all transmit slots are free, and the
  initialization block holds the address of the interface and the addresses of the rings.\<close>

theorem sanos_install_sound:
  assumes "quiet_chip E" "install E K s = Some (S_OK, t)" "registered t"
  shows "(\<forall>j<RX_RING_SIZE. \<exists>b. rx_buffer t ! j = Some b \<and>
       mds_buffer (rx_head t j) = virt2phys K (payload_of K b) \<and>
       mds_length (rx_head t j) = - of_nat ETHER_FRAME_LEN \<and> mds_status (rx_head t j) = RMD_OWN) \<and>
     (\<forall>j<TX_RING_SIZE. mds_status (tx_head t j) = 0) \<and> sem_tx t = TX_RING_SIZE \<and> next_rx t = 0 \<and>
     sn_block t = \<lparr>sn_mode = 0x0080, sn_tlen_rlen = TX_RING_LEN_BITS OR RX_RING_LEN_BITS, sn_ib_addr = hwaddr t,
       sn_filter = [0, 0], sn_ib_rx_ring = sn_rx_at t 0, sn_ib_tx_ring = sn_tx_at t 0\<rparr>"
  using install_rings[OF assms] install_ok[OF assms(2,3)] by simp

lemma sanos_install_sound_witness: "mds_status (tx_head sanos_dev 3) = 0 \<and> sem_tx sanos_dev = 16"
  using sanos_install_sound[OF sanos_chip_quiet, of sanos_kernel sanos_blank sanos_dev] sanos_installed
  by (auto simp: TX_RING_SIZE_def)

text \<open>C21: When a slot is free, a packet takes exactly the next one: the chip finds there the
  address and the negated length of the linearised packet, marked as first and last, and owns
  it; no other descriptor of the two rings changes and the buffer is remembered in its slot.\<close>

theorem sanos_transmit_descriptor:
  assumes "linearize_ok K" "quiet_chip E" "sn_tx_ok s" "0 < sem_tx s"
    and "p \<noteq> []" "0 < pb_len (hd p)" "pbuf_linearize K (trace s) p = [q]"
  shows "\<exists>t. pcnet32_transmit E K m p s = Some (S_OK, t) \<and>
     (\<forall>j<TX_RING_SIZE. tx_head t j = (if j = next_tx s
        then (tx_head s j)\<lparr>mds_buffer := virt2phys K (pb_payload q), mds_length := - of_nat (pb_len q),
          mds_misc := 0, mds_status := TMD_OWN OR TMD_STP OR TMD_ENP\<rparr>
        else tx_head s j)) \<and>
     (\<forall>j<RX_RING_SIZE. rx_head t j = rx_head s j) \<and>
     tx_buffer t = (tx_buffer s)[next_tx s := Some (pb_ref q)] \<and> size_tx t = size_tx s + 1 \<and> sem_tx t = sem_tx s - 1"
  using transmit_descriptor[OF assms, of m] unfolding sent_mds_def .

lemma sanos_transmit_descriptor_witness:
  "\<exists>t. pcnet32_transmit sanos_chip sanos_kernel id sanos_parts sanos_dev = Some (S_OK, t) \<and> size_tx t = 1"
proof -
  have "sn_tx_ok sanos_dev" "0 < sem_tx sanos_dev"
    using sanos_dev_facts by (simp_all add: sn_ok_def TX_RING_SIZE_def)
  from sanos_transmit_descriptor[OF sanos_kernel_ok sanos_chip_quiet this sanos_parts_facts, of id] show ?thesis
    by (auto simp: sanos_dev_facts)
qed

text \<open>C22: With buffers available and a chip that leaves memory alone, the receive loop returns;
  it hands up exactly the packets of the \<open>k\<close> filled slots in ring order, each with its length,
  and gives those slots back to the chip with new buffers.\<close>

theorem sanos_receive_delivers:
  assumes "quiet_chip E" "sn_rx_ok s" "k \<le> RX_RING_SIZE"
    and "\<forall>l<k. sn_filled s ((next_rx s + l) mod RX_RING_SIZE)" "\<forall>h. pbuf_alloc K h \<noteq> None"
    and "k = RX_RING_SIZE \<or> has (mds_status (rx_head s ((next_rx s + k) mod RX_RING_SIZE))) RMD_OWN"
  shows "\<exists>t. pcnet32_receive E K s = Some t \<and>
     sn_delivered (trace t) = sn_delivered (trace s) @ concat (map (slot_packet s) (cyc_seg RX_RING_SIZE (next_rx s) k)) \<and>
     next_rx t = (next_rx s + k) mod RX_RING_SIZE \<and>
     (\<forall>j<RX_RING_SIZE. if j \<in> set (cyc_seg RX_RING_SIZE (next_rx s) k)
       then \<exists>b. rx_buffer t ! j = Some b \<and> rx_head t j = refilled K b (rx_head s j)
       else rx_buffer t ! j = rx_buffer s ! j \<and> rx_head t j = rx_head s j)"
  using receive_delivers[OF assms] by blast

lemma sanos_receive_delivers_witness:
  "\<exists>t b. pcnet32_receive sanos_chip sanos_kernel (sanos_rx 0x0310 64) = Some t \<and>
     sn_delivered (trace t) = sn_delivered (trace (sanos_rx 0x0310 64)) @ [(b, 60)] \<and> next_rx t = 1"
proof -
  let ?s = "sanos_rx 0x0310 64"
  obtain b where b: "slot_packet ?s 0 = [(b, scast (ucast (64 AND 0xfff :: u32) - 4 :: u16))]" using sanos_rx_facts(6)[of "0x0310" 64] ..
  have f: "sn_filled ?s 0" using sanos_rx_facts(3)[of "0x0310" 64] by (simp add: sn_filled_def has_def hw_consts)
  have g: "cyc_seg 32 0 1 = [0]" by (simp add: cyc_seg_def)
  have a: "\<forall>h. pbuf_alloc sanos_kernel h \<noteq> None" by (simp add: sanos_kernel_def)
  from sanos_receive_delivers[OF sanos_chip_quiet sanos_rx_facts(1)[of "0x0310" 64] _ _ a, of 1] show ?thesis
    using f sanos_rx_facts(5)[of "0x0310" 64] b by (auto simp: sanos_rx_facts(2) g RX_RING_SIZE_def simp del: One_nat_def)
qed

text \<open>A descriptor returned with an error is neither given back nor passed over, so the
  receive loop of the deferred handler never ends.\<close>

theorem sanos_receive_error_hangs:
  assumes "quiet_chip E" "\<not> has (mds_status (rx_head s (next_rx s))) RMD_OWN"
    and "drop_bit 8 (mds_status (rx_head s (next_rx s))) \<noteq> 0x03"
  shows "pcnet32_receive E K s = None"
  using receive_error_hangs[OF assms(1)] assms(2,3) by (simp add: sn_bad_def)

lemma sanos_receive_error_hangs_witness:
  "pcnet32_receive sanos_chip sanos_kernel (sanos_rx (RMD_ERR OR RMD_STP OR RMD_ENP) 64) = None"
  using sanos_rx_facts(2,3)[of "RMD_ERR OR RMD_STP OR RMD_ENP" 64]
  by (intro sanos_receive_error_hangs) (simp_all add: has_def hw_consts)



text \<open>Compiled to send chains without linearising them, a successful transmission keeps the
  accounts of the ring, but one that times out after the first part keeps the slots already
  taken: \<open>k\<close> of them are lost to the driver for good.\<close>

theorem sanos_chain_accounts:
  assumes "meanwhile_ok m" "sn_tx_ok s" "pcnet32_transmit_chain E K m p s = (r, t)"
  shows "(r = S_OK \<longrightarrow> sn_tx_ok t) \<and> (r = EINVAL \<longrightarrow> t = s) \<and>
     (r = ETIMEOUT \<longrightarrow> (\<exists>k<length (filter (\<lambda>q. 0 < pb_len q) p). sn_tx_ok (t\<lparr>sem_tx := sem_tx t + k\<rparr>)))"
  using assms by (rule transmit_chain_account)

lemma sanos_chain_accounts_witness:
  "\<exists>t k. pcnet32_transmit_chain sanos_chip sanos_kernel id (replicate 17 sanos_whole) sanos_dev = (ETIMEOUT, t) \<and>
     sem_tx t = 0 \<and> size_tx t = 0 \<and> k < 17 \<and> sn_tx_ok (t\<lparr>sem_tx := k\<rparr>)"
proof -
  have "meanwhile_ok id" by (simp add: meanwhile_ok_def)
  from sanos_chain_accounts[OF this _ sanos_long_chain] sanos_dev_facts(1,3) show ?thesis
    by (auto simp: sanos_long_chain sn_ok_def)
qed

section \<open>The FreeBSD driver\<close>



text \<open>C25: After a successful attachment, what \<open>lnc_init\<close> carves out of the DMA memory (host rings,
  initialization block, descriptors, buffers) lies inside the size requested at attachment and
  does not overlap, and the initialization block holds the mode, the station address and the
  addresses of the rings. If the chip writes nothing meanwhile, it finds every receive descriptor
  its own, every transmit descriptor the driver's, each pointing to its buffer.\<close>

theorem fbsd_attached_init_sound:
  assumes "fb_lnc_pci_attach E0 K s = (FbOk, t)"
  shows "fb_areas_ok (snd (fb_init_chip E K t)) \<and> fb_block_ok K (snd (fb_init_chip E K t)) \<and>
     (quiet_chip E \<longrightarrow> fb_fresh K (snd (fb_init_chip E K t)))"
  using attach_ok_attached[OF assms] by (intro fb_init_chip_sound) (auto simp: fb_attached_def)

lemma fbsd_attached_init_sound_witness:
  "fb_fresh bsd_kernel (snd (fb_init_chip idon_env bsd_kernel (snd (fb_lnc_pci_attach quiet_env bsd_kernel fb_dev))))"
proof -
  have "fb_lnc_pci_attach quiet_env bsd_kernel fb_dev = (FbOk, snd (fb_lnc_pci_attach quiet_env bsd_kernel fb_dev))"
    using fb_attach_succeeds by (metis prod.collapse)
  from fbsd_attached_init_sound[OF this] show ?thesis by simp
qed

text \<open>C26: \<open>lnc_init\<close>, when the chip reports its initialisation, sends what the interface has queued: it
  returns, and the first packets, as many as there are descriptors, stand in the ring in their
  order, each with the bytes of its chain, the length at least 60, marked as a whole packet and
  owned by the chip; the rest stays queued, and output is marked busy when the ring is full.\<close>

theorem fbsd_init_sends:
  assumes "length (f_recv_ring s) = LNC_NDESC (f_nrdre s)" "length (f_trans_ring s) = LNC_NDESC (f_ntdre s)"
    "f_mem_mode s = DMA_FIXED" "fb_mem_size (f_nrdre s) (f_ntdre s) \<le> 2 ^ 32" "quiet_chip E"
    "fb_init_chip E K s = (True, u)" "list_all2 (fb_pkt_outside s) (fi_snd s) pkts"
  shows "\<exists>t. fb_lnc_init E K s = Some t \<and> fb_sent_upto K u pkts (min (length pkts) (LNC_NDESC (f_ntdre s))) t \<and>
     map (fb_pkt_bytes u) pkts = map (fb_pkt_bytes s) pkts \<and> fb_tx_ok t"
  using assms by (rule fb_init_tx_ok)

lemma fbsd_init_sends_witness:
  "\<exists>t. fb_lnc_init idon_env bsd_kernel fb_queued = Some t \<and>
     fb_sent_upto bsd_kernel (snd (fb_init_chip idon_env bsd_kernel fb_queued)) [[0x8000]] 1 t"
  using fbsd_init_sends[OF fb_queued_rings(1-4) idon_quiet fb_queued_init fb_queued_packet]
  by (auto simp: LNC_NDESC_def)



text \<open>C28: With mbufs to be had and a chip that leaves memory alone, a receive interrupt over \<open>k\<close> filled
  slots, one packet each, hands the \<open>k\<close> packets to the stack in ring order, each byte for byte in a
  chain of one mbuf or of two, or frees it when its source is the driver's own address; it gives
  those descriptors back to the chip, changes no other, stops behind them, and acknowledges the
  interrupt last.\<close>

theorem fbsd_receive_delivers:
  assumes "quiet_chip E" "fb_rx_ok K s" "k \<le> LNC_NDESC (f_nrdre s)"
    and "\<forall>l<k. fb_rx_filled s ((f_recv_next s + l) mod LNC_NDESC (f_nrdre s))"
    and "k = LNC_NDESC (f_nrdre s) \<or> \<not> has (md1 (fb_rx_md s ((f_recv_next s + k) mod LNC_NDESC (f_nrdre s)))) STP"
  shows "\<exists>u. fb_lnc_rint E K s = Some (csrWrite16 E (f_rdp s) (RINT OR INEA) u) \<and>
     fb_passes s (map (fb_rx_bytes s) (cyc_seg (LNC_NDESC (f_nrdre s)) (f_recv_next s) k)) u \<and>
     f_recv_next u = (f_recv_next s + k) mod LNC_NDESC (f_nrdre s) \<and> fi_ipackets u = fi_ipackets s + of_nat k \<and>
     (\<forall>j<LNC_NDESC (f_nrdre s). fb_rx_md u j =
       (if j \<in> set (cyc_seg (LNC_NDESC (f_nrdre s)) (f_recv_next s) k) then fb_returned (fb_rx_md s j) else fb_rx_md s j))"
  using assms by (rule fb_rint_delivers)

lemma fbsd_receive_delivers_witness:
  "\<exists>u. fb_lnc_rint quiet_env rx_kernel fb_recv = Some (csrWrite16 quiet_env PCNET_RDP (RINT OR INEA) u) \<and>
     fb_passes fb_recv [fb_rx_bytes fb_recv 0, fb_rx_bytes fb_recv 1] u \<and> f_recv_next u = 2 \<and> fi_ipackets u = 2"
proof -
  have n: "LNC_NDESC 3 = 8" by (simp add: LNC_NDESC_def)
  have "cyc_seg 8 0 2 = [0, 1]" by (simp add: cyc_seg_def upt_rec)
  moreover have "\<forall>l<2. fb_rx_filled fb_recv l" using fb_recv_ready(2,3) by (simp add: less_2_cases_iff)
  moreover have "md1 (fb_rx_md fb_recv (Suc (Suc 0))) = 0" using fb_recv_sel(9) by (simp add: numeral_2_eq_2)
  ultimately show ?thesis using fbsd_receive_delivers[OF quiet_env_facts(1) fb_recv_ready(1), of 2]
    by (auto simp: n fb_recv_sel has_def)
qed

text \<open>The multicast filter of the FreeBSD driver is that of the port for the same addresses, also
  when all multicast frames are asked for: the test for that reads the wrong word.\<close>

theorem fbsd_filter_is_ports:
  fixes n :: pcnet
  assumes "bk_crc32_le K = ether_crc32_le" "bk_IFF_ALLMULTI K = 0x200"
    "f_flags s AND NOT (FB_INITIALISED OR FB_ALLMULTI) = 0" "\<not> has (flags n) LNC_IFF_ALLMULTI"
    "as = map snd (filter fst (fi_multiaddrs s))" "cnt = of_nat (length as)" "length as < 2 ^ 32"
  shows "lb_ladrf (f_init_block (fb_lnc_setladrf K s)) = ladrb (lnc_setladrf (Some as) cnt n)"
proof -
  have "length as mod 2 ^ LENGTH(32) = length as" using assms(7) by simp
  then have "take (unat cnt) as = as" by (simp only: assms(6) unat_of_nat take_all)
  with fb_filter[OF assms(1,3,2)] assms(4,5) show ?thesis by (simp add: lnc_setladrf_def)
qed

lemma fbsd_filter_is_ports_witness:
  "has (f_flags fb_dev) FB_ALLMULTI \<and> lb_ladrf (f_init_block (fb_lnc_setladrf bsd_kernel fb_dev))
     = ladrb (lnc_setladrf (Some [[1, 0, 0x5E, 0, 0, 1]]) 1 (blank 5))"
  using fbsd_filter_is_ports[OF fb_dev_flags(2,3,1), of "blank 5" _ 1] fb_dev_flags(4)
  by (simp add: fb_dev_def[THEN arg_cong, of fi_multiaddrs])

section \<open>The Linux driver\<close>



text \<open>C30: From open to close no socket buffer is lost or freed twice: what was allocated and what the stack
  handed over is, each once, what was freed or passed up; afterwards the rings are empty.\<close>

theorem linux_packets_accounted:
  assumes "keeps_buffers E" "mii_ok E K" "lx_closed s" "pcnet32_open E K s = (None, u)" "lx_run E K bs u t"
  shows "lx_closed (pcnet32_close E K t) \<and>
    mset (allocated K (trace (pcnet32_close E K t))) + mset (map sk_ref bs) + (mset (freed (trace s)) + mset (passed (trace s))) =
    mset (allocated K (trace s)) + (mset (freed (trace (pcnet32_close E K t))) + mset (passed (trace (pcnet32_close E K t))))"
  using session_accounts(2)[OF assms] closed_accounts[OF assms(3) session_accounts(2,3)[OF assms]] by blast

lemma linux_packets_accounted_witness:
  "\<exists>u t. pcnet32_open quiet_env lx_kernel lx_blank = (None, u) \<and> t = pcnet32_close quiet_env lx_kernel u \<and>
     mset (allocated lx_kernel (trace t)) = mset (freed (trace t)) + mset (passed (trace t))"
proof -
  from lx_blank_opens obtain u where u: "pcnet32_open quiet_env lx_kernel lx_blank = (None, u)" by blast
  have "trace lx_blank = []" by (simp add: lx_blank_def)
  then show ?thesis
    using linux_packets_accounted[OF quiet_env_facts(2) lx_kernel_mii lx_blank_closed u lx_run.stop] u
    by (simp add: freed_def passed_def)
qed

text \<open>C31: The loopback test, when there is memory, returns, with no buffer lost yet; but its four packets
  stay behind in the slots of a transmit ring that is empty by its indices, and the next packet handed
  over, which goes into the first slot, takes the place of one of them: that buffer is neither freed
  nor passed up nor held by the rings any more.\<close>

theorem linux_loopback_leaks:
  assumes "keeps_buffers E" "mii_ok E K" "\<And>h. lk_skb K h \<noteq> None" "if l_running s then lx_ok s else lx_closed s"
  shows "\<exists>ok t. pcnet32_loopback_test E K s = Some (ok, t) \<and> lx_in K t + lx_out s = lx_in K s + lx_out t \<and>
     l_cur_tx t = 0 \<and> l_dirty_tx t = 0 \<and> (\<forall>x. x < TX_RING_SIZE \<longrightarrow> (l_tx_skbuff t ! x \<noteq> None \<longleftrightarrow> x < 4)) \<and>
     (\<forall>b. let u = snd (pcnet32_start_xmit E K b t) in
        lx_in K u + {#sk_ref b#} + lx_out t = lx_in K t + lx_out u + {#sk_ref (the (l_tx_skbuff t ! 0))#})"
proof -
  obtain ok t where "pcnet32_loopback_test E K s = Some (ok, t)" "lx_left 4 t" "conserves K s t"
    using loopback_leaves[OF assms] by blast
  with xmit_overwrites[OF assms(1)] show ?thesis by (auto simp: lx_left_def conserves_def Let_def)
qed

lemma linux_loopback_leaks_witness:
  "\<exists>ok t. pcnet32_loopback_test quiet_env lx_kernel lx_blank = Some (ok, t) \<and> l_cur_tx t = 0 \<and> l_tx_skbuff t ! 3 \<noteq> None"
proof -
  have "lk_skb lx_kernel h \<noteq> None" for h by (simp add: lx_kernel_def)
  moreover have "\<not> l_running lx_blank" by (simp add: lx_blank_def)
  ultimately show ?thesis using linux_loopback_leaks[OF quiet_env_facts(2) lx_kernel_mii, of lx_blank] lx_blank_closed
    by (auto simp: TX_RING_SIZE_def)
qed

text \<open>C32: The transmit ring is a FIFO queue of at most 16 packets: in any sequence of hand-overs and
  reclaims the packets are freed in the order they were accepted, none lost, freed twice or overtaken.\<close>

theorem linux_transmit_fifo:
  assumes "lx_queue_inv E s" and "\<And>b. Put b \<in> set ops \<Longrightarrow> lx_sendable K b"
  shows "\<exists>accepted t sent.
     fifo_run (lx_enqueue E K) (lx_reclaim E) lx_queue id ops s = Some (accepted, t) \<and> lx_queue_inv E t \<and>
     lx_queue s @ accepted = sent @ lx_queue t \<and> length (lx_queue t) \<le> TX_RING_SIZE \<and>
     freed (trace t) = freed (trace s) @ map sk_ref sent"
  using assms by (rule lxq.run_logs)

lemma linux_transmit_fifo_witness:
  "\<exists>accepted t sent.
     fifo_run (lx_enqueue quiet_env lx_kernel) (lx_reclaim quiet_env) lx_queue id [Put lx_packet, Reap, Put lx_packet] lx_blank
       = Some (accepted, t) \<and> lx_queue_inv quiet_env t \<and>
     lx_queue lx_blank @ accepted = sent @ lx_queue t \<and> length (lx_queue t) \<le> TX_RING_SIZE \<and>
     freed (trace t) = freed (trace lx_blank) @ map sk_ref sent"
  by (rule linux_transmit_fifo) (auto simp: lx_queue_inv_def)

text \<open>C33: With a chip that leaves the descriptors alone meanwhile, the interrupt reclaims exactly the
  packets before the first descriptor the chip still owns, and the queue stays stopped exactly when
  fewer than three slots are free.\<close>

theorem linux_reclaim_exact:
  assumes "quiet_chip E" "lx_tx_ok s" "snd (lx_tx_done E s) = t"
  shows "lx_queue t = drop (lx_released s) (lx_queue s) \<and>
     freed (trace t) = freed (trace s) @ map sk_ref (take (lx_released s) (lx_queue s)) \<and>
     (l_queue_stopped t \<longleftrightarrow> l_queue_stopped s \<and> TX_RING_SIZE - 2 \<le> lx_pending t)"
  using tx_done_ok(1,4)[OF quiet_keeps_buffers[OF assms(1)] assms(2)] assms(1,3) by blast

lemma linux_reclaim_exact_witness:
  "lx_queue (snd (lx_tx_done quiet_env lx_sent)) = [] \<and> freed (trace (snd (lx_tx_done quiet_env lx_sent))) = [sk_ref lx_packet]"
  using linux_reclaim_exact[OF quiet_env_facts(1) lx_sent_facts(1) refl] by simp

text \<open>C34: With memory to be had and a chip that leaves memory alone meanwhile, one call of the receive
  handler goes through the filled slots ahead, at most 16, and delivers the bytes of the good frames,
  in their order, whether a frame is passed up in its buffer or copied.\<close>

theorem linux_receive_delivers:
  assumes "quiet_chip E" "rx_room K 16 s" "lx_rx_ok s"
  shows "\<exists>t. pcnet32_rx E K s = Some t \<and> lx_rx_ok t \<and> l_cur_rx t = l_cur_rx s + of_nat (lx_filled 16 s) \<and>
     delivered (trace t) = delivered (trace s) @ concat (map (lx_frames s) [0..<lx_filled 16 s])"
proof -
  have n: "RX_RING_SIZE div 2 = 16" "16 \<le> RX_RING_SIZE" by (simp_all add: RX_RING_SIZE_def)
  from rx_loop_delivers[OF assms n(2)] show ?thesis by (auto simp: pcnet32_rx_def n(1))
qed

lemma linux_receive_delivers_witness:
  "\<exists>t. pcnet32_rx quiet_env lx_kernel lx_received = Some t \<and> delivered (trace t) = [replicate 64 7]"
proof -
  have "delivered (trace lx_received) = []" by (simp add: lx_received_def lx_blank_def)
  then show ?thesis
    using linux_receive_delivers[OF quiet_env_facts(1) lx_received_room lx_received_ok]
    by (auto simp: lx_received_delivers RX_RING_SIZE_def)
qed

text \<open>C35: Opening a closed device either gives an open one, with an empty queue that is not stopped, or
  one of three errors with the device closed as before: for want of the interrupt line, before
  anything is taken; for a bad address or want of memory, after the interrupt line and every buffer
  allocated so far have been given back.\<close>

theorem linux_open_outcome:
  assumes "keeps_buffers E" "mii_ok E K" "lx_closed s" "pcnet32_open E K s = (r, t)"
  shows "(case r of None \<Rightarrow> lx_ok t \<and> lx_queue t = [] \<and> \<not> l_queue_stopped t
    | Some e \<Rightarrow> lx_closed t \<and>
        (if e = E_AGAIN then \<not> lk_irq_free K (trace s) else hd (trace t) = Call ''free_irq'' [l_irq t]) \<and>
        (e \<in> {E_AGAIN, E_INVAL} \<or> e = E_NOMEM \<and> (\<exists>h. lk_skb K h = None)) \<and>
        mset (allocated K (trace t)) + (mset (freed (trace s)) + mset (passed (trace s))) =
        mset (allocated K (trace s)) + (mset (freed (trace t)) + mset (passed (trace t))))"
proof (cases r)
  case None
  then show ?thesis using open_outcome(2)[OF assms] by simp
next
  case (Some e)
  note o = open_outcome[OF assms]
  have c: "lx_closed t" using o(3) Some by simp
  have "lx_in K t + mset (map sk_ref []) + lx_out s = lx_in K s + lx_out t" using o(1) by (simp add: conserves_def)
  note a = closed_accounts[OF assms(3) c this]
  show ?thesis using o(4-7) a c Some by (auto simp: add.assoc)
qed

lemma linux_open_outcome_witness:
  "\<exists>t. pcnet32_open quiet_env lx_kernel lx_blank = (None, t) \<and> lx_ok t \<and> lx_queue t = [] \<and> \<not> l_queue_stopped t"
proof -
  from lx_blank_opens obtain t where t: "pcnet32_open quiet_env lx_kernel lx_blank = (None, t)" by blast
  with linux_open_outcome[OF quiet_env_facts(2) lx_kernel_mii lx_blank_closed t] show ?thesis by simp
qed

text \<open>C36: The Linux driver's filter, two words it addresses as a table of sixteen-bit words, has bit for bit the
  hash filter of the port for the multicast addresses of its list.\<close>

theorem linux_filter_is_ports:
  fixes n :: pcnet
  assumes "lk_crc K = ether_crc32_le" "\<not> has (l_flags s) (lk_IFF_ALLMULTI K)" "\<not> has (flags n) LNC_IFF_ALLMULTI"
    "as = filter (\<lambda>a. has (a ! 0) 1) (l_mc_list s)" "cnt = of_nat (length as)" "length as < 2 ^ 32" "j < 64"
  shows "bit (sn_filter (l_block (pcnet32_load_multicast K s)) ! (j div 32)) (j mod 32) \<longleftrightarrow>
     bit (ladrb (lnc_setladrf (Some as) cnt n) ! (j div 8)) (j mod 8)"
proof -
  have "length as mod 2 ^ LENGTH(32) = length as" using assms(6) by simp
  then have "take (unat cnt) as = as" by (simp only: assms(5) unat_of_nat take_all)
  moreover have "lx_filter_hash K a = ladrf_hash a" for a
    by (simp add: lx_filter_hash_def ladrf_hash_def ladrf_index_def assms(1) ETHER_ADDR_LEN_def)
  ultimately show ?thesis
    using load_multicast_bits[OF assms(7), of K s] lnc_setladrf_bits[OF assms(3,7), of as cnt] assms(2,4)
    by (auto simp: lx_filter_bit_def ladrf_bit_def)
qed

lemma linux_filter_is_ports_witness:
  "bit (sn_filter (l_block (pcnet32_load_multicast lx_kernel (lx_blank\<lparr>l_mc_list := [[1, 0, 0x5E, 0, 0, 1], [2, 0, 0, 0, 0, 0]]\<rparr>))) ! 1) 9 \<longleftrightarrow>
     bit (ladrb (lnc_setladrf (Some [[1, 0, 0x5E, 0, 0, 1]]) 1 (blank 5)) ! 5) 1"
  using linux_filter_is_ports[of lx_kernel "lx_blank\<lparr>l_mc_list := [[1, 0, 0x5E, 0, 0, 1], [2, 0, 0, 0, 0, 0]]\<rparr>" "blank 5" _ 1 41]
  by (simp add: lx_kernel_def lx_blank_def has_def)



text \<open>C38: A PCI probe that gets as far as the chip makes one of five sequences of kernel calls: when it fails, it gives
  back what it had acquired, in reverse order, and disables the device.\<close>

theorem linux_probe_releases:
  assumes "probe_granted K s" "pcnet32_probe_pci E K s = (r, t)"
  shows "\<exists>mid. lx_kcalls t = lx_kcalls s @ [''pci_enable_device'', ''pci_set_master'', ''request_region''] @ mid \<and>
     (if r = None then mid = probe_success else \<exists>f\<in>probe_failures. mid = f @ [''pci_disable_device''])"
  using assms by (rule probe_pci_calls)

lemma linux_probe_releases_witness:
  "\<exists>r t mid. pcnet32_probe_pci quiet_env lx_kernel lx_blank = (r, t) \<and>
     lx_kcalls t = [''pci_enable_device'', ''pci_set_master'', ''request_region''] @ mid \<and>
     (if r = None then mid = probe_success else \<exists>f\<in>probe_failures. mid = f @ [''pci_disable_device''])"
proof -
  obtain r t where p: "pcnet32_probe_pci quiet_env lx_kernel lx_blank = (r, t)" by fastforce
  have "probe_granted lx_kernel lx_blank" "lx_kcalls lx_blank = []"
    by (simp_all add: probe_granted_def lx_kernel_def lx_kcalls_def lx_blank_def)
  with linux_probe_releases[OF this(1) p] p show ?thesis by auto
qed

section \<open>The power management sample\<close>





end
